(* ===== verification/Prelude.thy ===== *)
theory Prelude
  imports Main "HOL-Library.Word" "HOL-Library.List_Lexorder"
begin

unbundle bit_operations_syntax

text \<open>
  The prelude: the machine integers and byte strings of the program, big-endian
  encoding of integers and its order, the result type that carries Rust's
  \<open>Result\<close>, and the stateful result computations in which the database operations
  are written.  An operation returns its result together with the state it
  leaves, on the error path too: a handler that fails half-way leaves the writes it
  has already made.

  Byte strings are compared with the library's lexicographic order on lists, which
  on bytes is the key order of the store.
\<close>

section \<open>Integers and bytes\<close>

type_synonym u8 = "8 word"
type_synonym u32 = "32 word"
type_synonym u64 = "64 word"
type_synonym i64 = "64 word"
type_synonym bytes = "8 word list"

named_theorems key_simps "lengths and decodings of the key builders"
named_theorems frame_intros "which column families a database operation leaves alone"
named_theorems run_simps "evaluation of stateful result computations"

text \<open>\<open>be n x\<close> is the \<open>n\<close>-byte big-endian encoding of \<open>x\<close>, \<open>of_be\<close> its inverse.\<close>

fun be :: "nat \<Rightarrow> nat \<Rightarrow> bytes" where
  "be 0 x = []"
| "be (Suc n) x = be n (x div 256) @ [word_of_nat (x mod 256)]"

definition of_be :: "bytes \<Rightarrow> nat" where
  "of_be bs = foldl (\<lambda>a b. a * 256 + unat b) 0 bs"

lemma length_be [simp, key_simps]: "length (be n x) = n"
  by (induction n arbitrary: x) auto

lemma unat_byte [simp]: "unat (word_of_nat (x mod 256) :: u8) = x mod 256"
  by (simp add: unat_of_nat)

lemma of_be_snoc [simp]: "of_be (bs @ [b]) = of_be bs * 256 + unat b"
  by (simp add: of_be_def)

lemma of_be_be: "of_be (be n x) = x mod 256 ^ n"
proof (induction n arbitrary: x)
  case 0
  then show ?case by (simp add: of_be_def)
next
  case (Suc n)
  have "x div 256 mod 256 ^ n * 256 + x mod 256 = x mod (256 * 256 ^ n)"
    by (simp add: mod_mult2_eq mult.commute)
  with Suc show ?case by simp
qed

lemma be_inj: "x < 256 ^ n \<Longrightarrow> y < 256 ^ n \<Longrightarrow> be n x = be n y \<longleftrightarrow> x = y"
  by (metis of_be_be mod_less)

section \<open>Lexicographic order of byte strings of one length\<close>

lemma append_less_append:
  fixes a b c d :: "'a::linorder list"
  assumes "length a = length b"
  shows "a @ c < b @ d \<longleftrightarrow> a < b \<or> a = b \<and> c < d"
  using assms by (induction a b rule: list_induct2) auto

lemma append_le_append:
  fixes a b c d :: "'a::linorder list"
  assumes "length a = length b"
  shows "a @ c \<le> b @ d \<longleftrightarrow> a < b \<or> a = b \<and> c \<le> d"
  using assms by (induction a b rule: list_induct2) auto

lemma below_successor: "length a = length b \<Longrightarrow> a < b @ [0 :: u8] \<longleftrightarrow> a \<le> b"
  by (induction a b rule: list_induct2) auto

lemma prefix_le: "(xs :: 'a::linorder list) \<le> xs @ ys"
  by (induction xs) auto

lemma word_byte_less:
  "(word_of_nat (x mod 256) :: u8) < word_of_nat (y mod 256) \<longleftrightarrow> x mod 256 < y mod 256"
  by (simp add: word_less_nat_alt)

lemma word_byte_eq:
  "(word_of_nat (x mod 256) :: u8) = word_of_nat (y mod 256) \<longleftrightarrow> x mod 256 = y mod 256"
  by (metis unat_byte)

lemma div_mod_less_iff:
  "(x :: nat) < y \<longleftrightarrow> x div k < y div k \<or> x div k = y div k \<and> x mod k < y mod k"
proof (cases "x div k = y div k")
  case True
  then show ?thesis
    by (metis div_mult_mod_eq nat_add_left_cancel_less order_less_irrefl)
next
  case False
  then show ?thesis
    using div_le_mono [of x y k] div_le_mono [of y x k] by linarith
qed

lemma be_less_iff: "x < 256 ^ n \<Longrightarrow> y < 256 ^ n \<Longrightarrow> be n x < be n y \<longleftrightarrow> x < y"
proof (induction n arbitrary: x y)
  case 0
  then show ?case by simp
next
  case (Suc n)
  from Suc.prems have lt: "x div 256 < 256 ^ n" "y div 256 < 256 ^ n"
    by (simp_all add: less_mult_imp_div_less mult.commute)
  have "be (Suc n) x < be (Suc n) y \<longleftrightarrow>
      x div 256 < y div 256 \<or> x div 256 = y div 256 \<and> x mod 256 < y mod 256"
    using lt by (simp add: append_less_append Suc.IH be_inj word_byte_less)
  also have "\<dots> \<longleftrightarrow> x < y"
    by (rule div_mod_less_iff [symmetric])
  finally show ?case .
qed

text \<open>Complementing every byte reverses the order.\<close>

lemma unat_u8: "unat (w :: u8) < 256"
proof -
  have "unat w < 2 ^ LENGTH(8)"
    by (rule unsigned_less)
  then show ?thesis by simp
qed

lemma unat_u32: "unat (w :: u32) < 256 ^ 4"
proof -
  have "unat w < 2 ^ LENGTH(32)"
    by (rule unsigned_less)
  then show ?thesis by simp
qed

lemma unat_u64: "unat (w :: u64) < 256 ^ 8"
proof -
  have "unat w < 2 ^ LENGTH(64)"
    by (rule unsigned_less)
  then show ?thesis by simp
qed

lemma unat_not_byte: "unat (NOT w :: u8) = 255 - unat w"
proof -
  have "NOT w = 255 - w"
    by (simp add: not_eq_complement)
  moreover have "unat w < 256"
    by (rule unat_u8)
  then have "w \<le> (255 :: u8)"
    by (simp add: word_le_nat_alt)
  ultimately show ?thesis
    by (simp add: unat_sub)
qed

lemma not_byte_less: "(NOT a :: u8) < NOT b \<longleftrightarrow> b < a"
proof -
  have "unat a < 256" "unat b < 256"
    by (rule unat_u8)+
  then show ?thesis
    by (auto simp: word_less_nat_alt unat_not_byte)
qed

definition inv_bytes :: "bytes \<Rightarrow> bytes" where
  "inv_bytes bs = map (\<lambda>b. NOT b) bs"

lemma inv_inv_bytes [simp]: "inv_bytes (inv_bytes bs) = bs"
  by (simp add: inv_bytes_def comp_def)

lemma length_inv_bytes [simp, key_simps]: "length (inv_bytes bs) = length bs"
  by (simp add: inv_bytes_def)

lemma inv_bytes_eq [simp]: "inv_bytes a = inv_bytes b \<longleftrightarrow> a = b"
  by (metis inv_inv_bytes)

lemma inv_bytes_less:
  "length a = length b \<Longrightarrow> inv_bytes a < inv_bytes b \<longleftrightarrow> b < a"
  by (induction a b rule: list_induct2) (auto simp: inv_bytes_def not_byte_less)

end
