(* ===== verification/Result.thy ===== *)
theory Result
  imports Prelude
begin

text \<open>
  The crate's error type (\<open>error.rs\<close>, and the codec's own in \<open>codec.rs\<close>), results as
  sums, and stateful result computations.  Where the code interpolates text into a
  message, the model keeps the literal part of the message; the text a third-party error
  prints is left out.
\<close>

section \<open>Errors and results\<close>

datatype error =
    Config string
  | DbError
  | ProtoDecode
  | ProtoEncode
  | GrpcTransport
  | GrpcStatus
  | Io
  | NetworkMismatch string string
  | NotFound
  | BadRequest string
  | Other string

datatype codec_error = Decode | Encode | Custom string

text \<open>\<open>impl From<CodecError> for Error\<close>: the message of the codec error, prefixed.\<close>

fun codec_message :: "codec_error \<Rightarrow> string" where
  "codec_message Decode = ''protobuf decode: ''"
| "codec_message Encode = ''protobuf encode: ''"
| "codec_message (Custom m) = m"

definition of_codec_error :: "codec_error \<Rightarrow> error" where
  "of_codec_error e = Other (''codec: '' @ codec_message e)"

text \<open>\<open>?\<close> on a result, and \<open>collect::<Result<Vec<_>, _>>()\<close>.\<close>

definition rbind :: "'e + 'a \<Rightarrow> ('a \<Rightarrow> 'e + 'b) \<Rightarrow> 'e + 'b" where
  "rbind r f = (case r of Inl e \<Rightarrow> Inl e | Inr x \<Rightarrow> f x)"

definition rmap_err :: "('e \<Rightarrow> 'd) \<Rightarrow> 'e + 'a \<Rightarrow> 'd + 'a" where
  "rmap_err g r = (case r of Inl e \<Rightarrow> Inl (g e) | Inr x \<Rightarrow> Inr x)"

fun collect :: "('a \<Rightarrow> 'e + 'b) \<Rightarrow> 'a list \<Rightarrow> 'e + 'b list" where
  "collect f [] = Inr []"
| "collect f (x # xs) = rbind (f x) (\<lambda>y. rbind (collect f xs) (\<lambda>ys. Inr (y # ys)))"

definition ok_or :: "'e \<Rightarrow> 'a option \<Rightarrow> 'e + 'a" where
  "ok_or e x = (case x of None \<Rightarrow> Inl e | Some y \<Rightarrow> Inr y)"

text \<open>\<open>Result::ok\<close>: forget the error.\<close>

definition res_ok :: "'e + 'a \<Rightarrow> 'a option" where
  "res_ok r = (case r of Inl _ \<Rightarrow> None | Inr x \<Rightarrow> Some x)"

text \<open>\<open>if present then Some(decode(v)?) else None\<close>, the shape of every optional field.\<close>

definition opt_field :: "bool \<Rightarrow> 'e + 'a \<Rightarrow> 'e + 'a option" where
  "opt_field present r = (if present then rbind r (\<lambda>x. Inr (Some x)) else Inr None)"

definition then_some :: "bool \<Rightarrow> 'a \<Rightarrow> 'a option" where
  "then_some b x = (if b then Some x else None)"

definition is_some :: "'a option \<Rightarrow> bool" where
  "is_some x \<longleftrightarrow> x \<noteq> None"

definition unwrap_or :: "'a \<Rightarrow> 'a option \<Rightarrow> 'a" where
  "unwrap_or d x = (case x of None \<Rightarrow> d | Some y \<Rightarrow> y)"

lemma rbind_simps [simp]: "rbind (Inl e) f = Inl e" "rbind (Inr x) f = f x"
  by (simp_all add: rbind_def)

lemma rmap_err_simps [simp]: "rmap_err g (Inl e) = Inl (g e)" "rmap_err g (Inr x) = Inr x"
  by (simp_all add: rmap_err_def)

lemma ok_or_simps [simp]: "ok_or e None = Inl e" "ok_or e (Some x) = Inr x"
  by (simp_all add: ok_or_def)

lemma res_ok_simps [simp]: "res_ok (Inl e) = None" "res_ok (Inr x) = Some x"
  by (simp_all add: res_ok_def)

lemma res_ok_eq_Some [simp]: "res_ok r = Some x \<longleftrightarrow> r = Inr x"
  by (cases r) simp_all

lemma unwrap_or_simps [simp]: "unwrap_or d None = d" "unwrap_or d (Some x) = x"
  by (simp_all add: unwrap_or_def)

lemma then_some_simps [simp]: "then_some True x = Some x" "then_some False x = None"
  by (simp_all add: then_some_def)

lemma is_some_simps [simp]: "\<not> is_some None" "is_some (Some x)"
  by (simp_all add: is_some_def)

lemma then_some_is_some [simp]: "then_some (is_some x) (unwrap_or d x) = x"
  by (cases x) simp_all

lemma rbind_eq_Inr: "rbind r f = Inr y \<longleftrightarrow> (\<exists>x. r = Inr x \<and> f x = Inr y)"
  by (cases r) simp_all

lemma rmap_err_eq_Inr [simp]: "rmap_err g r = Inr y \<longleftrightarrow> r = Inr y"
  by (cases r) simp_all

lemma ok_or_eq_Inr [simp]: "ok_or e x = Inr y \<longleftrightarrow> x = Some y"
  by (cases x) simp_all

lemma collect_roundtrip:
  "(\<And>x. x \<in> set xs \<Longrightarrow> f (g x) = Inr x) \<Longrightarrow> collect f (map g xs) = Inr xs"
  by (induction xs) simp_all

lemma collect_Inr_all:
  "collect f xs = Inr ys \<Longrightarrow> list_all2 (\<lambda>x y. f x = Inr y) xs ys"
  by (induction xs arbitrary: ys) (auto simp: rbind_eq_Inr)

lemma opt_field_roundtrip:
  "(\<And>y. x = Some y \<Longrightarrow> r = Inr y) \<Longrightarrow> opt_field (is_some x) r = Inr x"
  by (cases x) (simp_all add: opt_field_def)

section \<open>Stateful computations with results\<close>

type_synonym ('s, 'a) dbm = "'s \<Rightarrow> (error + 'a) \<times> 's"

definition ret :: "'a \<Rightarrow> ('s, 'a) dbm" where
  "ret x s = (Inr x, s)"

definition fail :: "error \<Rightarrow> ('s, 'a) dbm" where
  "fail e s = (Inl e, s)"

definition lift :: "error + 'a \<Rightarrow> ('s, 'a) dbm" where
  "lift r s = (r, s)"

definition bnd :: "('s, 'a) dbm \<Rightarrow> ('a \<Rightarrow> ('s, 'b) dbm) \<Rightarrow> ('s, 'b) dbm" where
  "bnd m f s = (case m s of (Inl e, t) \<Rightarrow> (Inl e, t) | (Inr x, t) \<Rightarrow> f x t)"

text \<open>\<open>for x in xs { body(x)?; }\<close>\<close>

fun for_each :: "'a list \<Rightarrow> ('a \<Rightarrow> ('s, unit) dbm) \<Rightarrow> ('s, unit) dbm" where
  "for_each [] f = ret ()"
| "for_each (x # xs) f = bnd (f x) (\<lambda>_. for_each xs f)"

text \<open>A loop with an accumulator.\<close>

fun fold_each :: "('b \<Rightarrow> 'a \<Rightarrow> ('s, 'b) dbm) \<Rightarrow> 'b \<Rightarrow> 'a list \<Rightarrow> ('s, 'b) dbm" where
  "fold_each f b [] = ret b"
| "fold_each f b (x # xs) = bnd (f b x) (\<lambda>c. fold_each f c xs)"

text \<open>\<open>if let Err(e) = m { warn!(..) }\<close>: the error is logged and dropped.\<close>

definition warn_only :: "('s, unit) dbm \<Rightarrow> ('s, unit) dbm" where
  "warn_only m s = (Inr (), snd (m s))"

lemma bnd_ret [simp]: "bnd (ret x) f = f x"
  by (rule ext) (simp add: bnd_def ret_def)

lemma bnd_fail [simp]: "bnd (fail e) f = fail e"
  by (rule ext) (simp add: bnd_def fail_def)

lemma bnd_assoc [simp]: "bnd (bnd m f) g = bnd m (\<lambda>x. bnd (f x) g)"
  by (rule ext) (simp add: bnd_def split: prod.splits sum.splits)

lemma lift_simps [simp]: "lift (Inl e) = fail e" "lift (Inr x) = ret x"
  by (auto simp: lift_def fail_def ret_def)

lemma ret_run [run_simps]: "ret x s = (Inr x, s)"
  by (simp add: ret_def)

lemma fail_run [run_simps]: "fail e s = (Inl e, s)"
  by (simp add: fail_def)

lemma bnd_run [run_simps]: "m s = (Inr x, t) \<Longrightarrow> bnd m f s = f x t"
  by (simp add: bnd_def)

lemma bnd_run_err [run_simps]: "m s = (Inl e, t) \<Longrightarrow> bnd m f s = (Inl e, t)"
  by (simp add: bnd_def)

lemma bnd_cases:
  assumes "bnd m f s = (r, t)"
  obtains (Err) e where "m s = (Inl e, t)" "r = Inl e"
    | (Ok) x u where "m s = (Inr x, u)" "f x u = (r, t)"
  using assms by (auto simp: bnd_def split: prod.splits sum.splits)

lemma bnd_Inr:
  "bnd m f s = (Inr y, t) \<longleftrightarrow> (\<exists>x u. m s = (Inr x, u) \<and> f x u = (Inr y, t))"
  by (auto simp: bnd_def split: prod.splits sum.splits)

section \<open>Decimal rendering of a number\<close>

fun show_nat :: "nat \<Rightarrow> string" where
  "show_nat n = (if n < 10 then [char_of (48 + n)]
     else show_nat (n div 10) @ [char_of (48 + n mod 10)])"

declare show_nat.simps [simp del]

end
