(* ===== verification/Ids.thy ===== *)
theory Ids
  imports Result
begin

text \<open>
  Identifiers (\<open>ids.rs\<close>).  A block, operation or endorsement id keeps the binary key
  (\<open>version \<parallel> hash\<close>, 33 bytes) and the text it was parsed from; an address keeps a
  34-byte key (\<open>category \<parallel> version \<parallel> hash\<close>).  The three one-letter families are
  three identical structs in the code and one record here, told apart by the prefix
  letter.  Rust strings are modelled by their UTF-8 bytes, so \<open>as_bytes\<close> is a change of
  type and the first character of an ASCII-led text is the first list element; the
  character reported by \<open>BadCategory\<close> is the first byte.

  The base58-check, base64, hex and SHA-256 functions belong to other crates.  They are
  the fields of the record \<open>crates\<close>, which every definition here takes as an argument,
  and \<open>crates_ok\<close> names what is relied on: decoding inverts encoding, and a text that
  decodes is the encoding of what it decodes to.
\<close>

section \<open>Third-party encodings\<close>

record crates =
  b58enc :: "bytes \<Rightarrow> string"
  b58dec :: "string \<Rightarrow> bytes option"
  b64enc :: "bytes \<Rightarrow> string"
  b64dec :: "string \<Rightarrow> bytes option"
  hexenc :: "bytes \<Rightarrow> string"
  hexdec :: "string \<Rightarrow> bytes option"
  sha256 :: "bytes \<Rightarrow> bytes"

definition crates_ok :: "'x crates_scheme \<Rightarrow> bool" where
  "crates_ok C \<longleftrightarrow>
     (\<forall>b. b58dec C (b58enc C b) = Some b) \<and>
     (\<forall>t b. b58dec C t = Some b \<longrightarrow> b58enc C b = t) \<and>
     (\<forall>b. b64dec C (b64enc C b) = Some b) \<and>
     (\<forall>t b. b64dec C t = Some b \<longrightarrow> b64enc C b = t) \<and>
     (\<forall>b. b64enc C b = [] \<longleftrightarrow> b = []) \<and>
     (\<forall>b. hexdec C (hexenc C b) = Some b)"

lemma crates_okD:
  assumes "crates_ok C"
  shows "b58dec C (b58enc C b) = Some b"
    and "b58dec C t = Some b \<Longrightarrow> b58enc C b = t"
    and "b64dec C (b64enc C b) = Some b"
    and "b64dec C t = Some b \<Longrightarrow> b64enc C b = t"
    and "b64enc C b = [] \<longleftrightarrow> b = []"
    and "hexdec C (hexenc C b) = Some b"
  using assms by (auto simp: crates_ok_def)

text \<open>A Rust string seen as the byte string \<open>as_bytes()\<close> returns.\<close>

definition str_bytes :: "string \<Rightarrow> bytes" where
  "str_bytes t = map of_char t"

definition bytes_str :: "bytes \<Rightarrow> string" where
  "bytes_str b = map (\<lambda>w. char_of (unat w)) b"

lemma char_of_byte: "char_of (unat (of_char c :: u8)) = c"
proof -
  have "(of_char c :: u8) = word_of_nat (of_char c)"
    by (simp only: of_nat_of_char)
  then show ?thesis
    by (simp only: unat_of_nat) simp
qed

lemma byte_of_char: "(of_char (char_of (unat w)) :: u8) = w"
proof -
  have "(of_char (char_of (unat w)) :: u8) = word_of_nat (of_char (char_of (unat w)))"
    by (simp only: of_nat_of_char)
  then show ?thesis
    using unat_u8 [of w] by simp
qed

lemma bytes_str_bytes [simp]: "bytes_str (str_bytes t) = t"
  by (simp add: bytes_str_def str_bytes_def comp_def char_of_byte map_idI)

lemma str_bytes_inj [simp]: "str_bytes a = str_bytes b \<longleftrightarrow> a = b"
  by (metis bytes_str_bytes)

lemma str_bytes_str [simp]: "str_bytes (bytes_str b) = b"
  by (simp add: bytes_str_def str_bytes_def comp_def byte_of_char map_idI)

lemma length_str_bytes [simp]: "length (str_bytes t) = length t"
  by (simp add: str_bytes_def)

section \<open>Layout constants and errors\<close>

definition ID_KEY_LEN :: nat where "ID_KEY_LEN = 33"
definition ADDR_KEY_LEN :: nat where "ADDR_KEY_LEN = 34"

definition ADDR_CATEGORY_USER :: u8 where "ADDR_CATEGORY_USER = 0"
definition ADDR_CATEGORY_SC :: u8 where "ADDR_CATEGORY_SC = 1"

datatype id_error = BadPrefix | BadBase58 | BadLength nat | BadVersion u8 | BadCategory char

fun show_id_error :: "id_error \<Rightarrow> string" where
  "show_id_error BadPrefix = ''missing family prefix''"
| "show_id_error BadBase58 = ''invalid base58-check payload''"
| "show_id_error (BadLength n) = ''unexpected payload length ('' @ show_nat n @ '' bytes)''"
| "show_id_error (BadVersion v) = ''unsupported id version '' @ show_nat (unat v)"
| "show_id_error (BadCategory c) = ''unknown address category '' @ [CHR 0x27, c, CHR 0x27]"

section \<open>Low-level codec\<close>

definition decode_single_family :: "'x crates_scheme \<Rightarrow> char \<Rightarrow> string \<Rightarrow> id_error + bytes" where
  "decode_single_family C prefix s =
     (case s of
        [] \<Rightarrow> Inl BadPrefix
      | c # payload \<Rightarrow>
          if c \<noteq> prefix then Inl BadPrefix
          else (case b58dec C payload of
                  None \<Rightarrow> Inl BadBase58
                | Some raw \<Rightarrow>
                    if length raw \<noteq> ID_KEY_LEN then Inl (BadLength (length raw)) else Inr raw))"

definition encode_single_family :: "'x crates_scheme \<Rightarrow> char \<Rightarrow> bytes \<Rightarrow> string" where
  "encode_single_family C prefix key = prefix # b58enc C key"

definition address_category :: "char \<Rightarrow> u8 option" where
  "address_category c =
     (if c = CHR ''U'' then Some ADDR_CATEGORY_USER
      else if c = CHR ''S'' then Some ADDR_CATEGORY_SC else None)"

definition decode_address :: "'x crates_scheme \<Rightarrow> string \<Rightarrow> id_error + bytes" where
  "decode_address C s =
     (case s of
        [] \<Rightarrow> Inl BadPrefix
      | a # s' \<Rightarrow>
          if a \<noteq> CHR ''A'' then Inl BadPrefix
          else (case s' of
                  [] \<Rightarrow> Inl BadPrefix
                | c # payload \<Rightarrow>
                    (case address_category c of
                       None \<Rightarrow> Inl (BadCategory c)
                     | Some category \<Rightarrow>
                         (case b58dec C payload of
                            None \<Rightarrow> Inl BadBase58
                          | Some raw \<Rightarrow>
                              if length raw \<noteq> 33 then Inl (BadLength (length raw))
                              else Inr (category # raw)))))"

definition category_char :: "u8 \<Rightarrow> char" where
  "category_char category =
     (if category = ADDR_CATEGORY_USER then CHR ''U''
      else if category = ADDR_CATEGORY_SC then CHR ''S'' else CHR ''U'')"

fun encode_address :: "'x crates_scheme \<Rightarrow> bytes \<Rightarrow> string" where
  "encode_address C [] = ''A''"
| "encode_address C (category # payload) =
     CHR ''A'' # category_char category # b58enc C payload"

section \<open>Identifiers of the three one-letter families\<close>

record gid =
  id_key :: bytes
  id_text :: string

type_synonym block_id = gid
type_synonym operation_id = gid
type_synonym endorsement_id = gid

definition parse_gid :: "'x crates_scheme \<Rightarrow> char \<Rightarrow> string \<Rightarrow> string + gid" where
  "parse_gid C prefix s =
     (case decode_single_family C prefix s of
        Inl e \<Rightarrow> Inl (show_id_error e)
      | Inr key \<Rightarrow> Inr \<lparr>id_key = key, id_text = s\<rparr>)"

definition gid_from_key :: "'x crates_scheme \<Rightarrow> char \<Rightarrow> bytes \<Rightarrow> gid option" where
  "gid_from_key C prefix b =
     (if length b \<noteq> ID_KEY_LEN then None
      else Some \<lparr>id_key = b, id_text = encode_single_family C prefix b\<rparr>)"

definition gid_from_hash :: "'x crates_scheme \<Rightarrow> char \<Rightarrow> u8 \<Rightarrow> bytes \<Rightarrow> gid" where
  "gid_from_hash C prefix version hash =
     \<lparr>id_key = version # hash, id_text = encode_single_family C prefix (version # hash)\<rparr>"

definition block_parse :: "'x crates_scheme \<Rightarrow> string \<Rightarrow> string + block_id" where
  "block_parse C s = parse_gid C (CHR ''B'') s"

definition block_from_key :: "'x crates_scheme \<Rightarrow> bytes \<Rightarrow> block_id option" where
  "block_from_key C b = gid_from_key C (CHR ''B'') b"

definition block_from_hash :: "'x crates_scheme \<Rightarrow> u8 \<Rightarrow> bytes \<Rightarrow> block_id" where
  "block_from_hash C version hash = gid_from_hash C (CHR ''B'') version hash"

definition op_parse :: "'x crates_scheme \<Rightarrow> string \<Rightarrow> string + operation_id" where
  "op_parse C s = parse_gid C (CHR ''O'') s"

definition op_from_key :: "'x crates_scheme \<Rightarrow> bytes \<Rightarrow> operation_id option" where
  "op_from_key C b = gid_from_key C (CHR ''O'') b"

definition op_from_hash :: "'x crates_scheme \<Rightarrow> u8 \<Rightarrow> bytes \<Rightarrow> operation_id" where
  "op_from_hash C version hash = gid_from_hash C (CHR ''O'') version hash"

definition endo_parse :: "'x crates_scheme \<Rightarrow> string \<Rightarrow> string + endorsement_id" where
  "endo_parse C s = parse_gid C (CHR ''E'') s"

definition endo_from_key :: "'x crates_scheme \<Rightarrow> bytes \<Rightarrow> endorsement_id option" where
  "endo_from_key C b = gid_from_key C (CHR ''E'') b"

definition endo_from_hash :: "'x crates_scheme \<Rightarrow> u8 \<Rightarrow> bytes \<Rightarrow> endorsement_id" where
  "endo_from_hash C version hash = gid_from_hash C (CHR ''E'') version hash"

section \<open>Addresses\<close>

record address =
  addr_key :: bytes
  addr_text :: string

definition addr_parse :: "'x crates_scheme \<Rightarrow> string \<Rightarrow> string + address" where
  "addr_parse C s =
     (case decode_address C s of
        Inl e \<Rightarrow> Inl (show_id_error e)
      | Inr key \<Rightarrow> Inr \<lparr>addr_key = key, addr_text = s\<rparr>)"

definition addr_from_key :: "'x crates_scheme \<Rightarrow> bytes \<Rightarrow> address option" where
  "addr_from_key C b =
     (if length b \<noteq> ADDR_KEY_LEN then None
      else Some \<lparr>addr_key = b, addr_text = encode_address C b\<rparr>)"

definition addr_category :: "address \<Rightarrow> u8" where
  "addr_category a = (case addr_key a of [] \<Rightarrow> 0 | c # _ \<Rightarrow> c)"

definition is_user :: "address \<Rightarrow> bool" where
  "is_user a \<longleftrightarrow> addr_category a = ADDR_CATEGORY_USER"

definition is_sc :: "address \<Rightarrow> bool" where
  "is_sc a \<longleftrightarrow> addr_category a = ADDR_CATEGORY_SC"

definition user_from_hash :: "'x crates_scheme \<Rightarrow> u8 \<Rightarrow> bytes \<Rightarrow> address" where
  "user_from_hash C version hash =
     (let key = ADDR_CATEGORY_USER # version # hash
      in \<lparr>addr_key = key, addr_text = encode_address C key\<rparr>)"

definition sc_from_hash :: "'x crates_scheme \<Rightarrow> u8 \<Rightarrow> bytes \<Rightarrow> address" where
  "sc_from_hash C version hash =
     (let key = ADDR_CATEGORY_SC # version # hash
      in \<lparr>addr_key = key, addr_text = encode_address C key\<rparr>)"

section \<open>Well-formed identifiers\<close>

text \<open>
  What the private fields of the Rust types guarantee: the key has its fixed length and
  the text is the display form of the key.  Every constructor establishes it.
\<close>

definition wf_gid :: "'x crates_scheme \<Rightarrow> char \<Rightarrow> gid \<Rightarrow> bool" where
  "wf_gid C prefix x \<longleftrightarrow>
     length (id_key x) = ID_KEY_LEN \<and> id_text x = encode_single_family C prefix (id_key x)"

abbreviation wf_block_id :: "'x crates_scheme \<Rightarrow> block_id \<Rightarrow> bool" where
  "wf_block_id C \<equiv> wf_gid C (CHR ''B'')"

abbreviation wf_op_id :: "'x crates_scheme \<Rightarrow> operation_id \<Rightarrow> bool" where
  "wf_op_id C \<equiv> wf_gid C (CHR ''O'')"

abbreviation wf_endo_id :: "'x crates_scheme \<Rightarrow> endorsement_id \<Rightarrow> bool" where
  "wf_endo_id C \<equiv> wf_gid C (CHR ''E'')"

definition wf_addr :: "'x crates_scheme \<Rightarrow> address \<Rightarrow> bool" where
  "wf_addr C a \<longleftrightarrow>
     length (addr_key a) = ADDR_KEY_LEN \<and> addr_text a = encode_address C (addr_key a)"

definition known_category :: "address \<Rightarrow> bool" where
  "known_category a \<longleftrightarrow> is_user a \<or> is_sc a"

lemma wf_gid_from_key [simp]: "gid_from_key C p b = Some x \<Longrightarrow> wf_gid C p x"
  by (auto simp: gid_from_key_def wf_gid_def split: if_splits)

lemma gid_from_key_of_key: "wf_gid C p x \<Longrightarrow> gid_from_key C p (id_key x) = Some x"
  by (auto simp: gid_from_key_def wf_gid_def)

lemma gid_from_key_key: "gid_from_key C p b = Some x \<Longrightarrow> id_key x = b"
  by (auto simp: gid_from_key_def split: if_splits)

lemma wf_gid_eq: "wf_gid C p x \<Longrightarrow> wf_gid C p y \<Longrightarrow> x = y \<longleftrightarrow> id_key x = id_key y"
  by (auto simp: wf_gid_def)

lemma wf_gid_from_hash: "length h = 32 \<Longrightarrow> wf_gid C p (gid_from_hash C p v h)"
  by (simp add: gid_from_hash_def wf_gid_def ID_KEY_LEN_def)

lemma wf_addr_from_key [simp]: "addr_from_key C b = Some a \<Longrightarrow> wf_addr C a"
  by (auto simp: addr_from_key_def wf_addr_def split: if_splits)

lemma addr_from_key_of_key: "wf_addr C a \<Longrightarrow> addr_from_key C (addr_key a) = Some a"
  by (auto simp: addr_from_key_def wf_addr_def)

lemma parse_gid_Inr:
  assumes "crates_ok C" "parse_gid C p s = Inr x"
  shows "id_text x = s \<and> wf_gid C p x"
  using assms
  by (auto simp: parse_gid_def decode_single_family_def wf_gid_def encode_single_family_def
      crates_okD split: list.splits option.splits if_splits)

lemma parse_gid_text:
  assumes "crates_ok C" "wf_gid C p x"
  shows "parse_gid C p (id_text x) = Inr x"
  using assms
  by (auto simp: parse_gid_def decode_single_family_def wf_gid_def encode_single_family_def
      crates_okD)

lemma addr_parse_Inr:
  assumes "crates_ok C" "addr_parse C s = Inr a"
  shows "addr_text a = s \<and> wf_addr C a \<and> known_category a"
  using assms
  by (auto simp: addr_parse_def decode_address_def wf_addr_def crates_okD address_category_def
      category_char_def ADDR_KEY_LEN_def ADDR_CATEGORY_USER_def ADDR_CATEGORY_SC_def
      known_category_def is_user_def is_sc_def addr_category_def
      split: list.splits option.splits if_splits)

lemma addr_parse_text:
  assumes "crates_ok C" "wf_addr C a" "known_category a"
  shows "addr_parse C (addr_text a) = Inr a"
proof (cases "addr_key a")
  case Nil
  with assms show ?thesis
    by (simp add: wf_addr_def ADDR_KEY_LEN_def)
next
  case (Cons c p)
  then have "length p = 33"
    using assms(2) by (simp add: wf_addr_def ADDR_KEY_LEN_def)
  with Cons assms show ?thesis
    by (cases a) (auto simp: addr_parse_def decode_address_def wf_addr_def known_category_def
        is_user_def is_sc_def addr_category_def category_char_def address_category_def
        ADDR_CATEGORY_USER_def ADDR_CATEGORY_SC_def crates_okD)
qed

section \<open>The display contract\<close>

text \<open>
  What the rest of the program relies on for every id type: parsing keeps the text and
  yields a well-formed id, and a well-formed id is what its text parses to.  \<open>ok\<close> carries
  the laws of the encodings the type is built on.
\<close>

locale display_id =
  fixes ok :: bool
    and parse :: "string \<Rightarrow> string + 'i"
    and text_of :: "'i \<Rightarrow> string"
    and wf :: "'i \<Rightarrow> bool"
  assumes parse_text: "ok \<Longrightarrow> parse s = Inr x \<Longrightarrow> text_of x = s"
    and parse_wf: "ok \<Longrightarrow> parse s = Inr x \<Longrightarrow> wf x"
    and text_parse: "ok \<Longrightarrow> wf x \<Longrightarrow> parse (text_of x) = Inr x"
begin

lemma parse_inj: "ok \<Longrightarrow> parse s = Inr x \<Longrightarrow> parse t = Inr x \<Longrightarrow> s = t"
  using parse_text by blast

lemma text_inj: "ok \<Longrightarrow> wf x \<Longrightarrow> wf y \<Longrightarrow> text_of x = text_of y \<Longrightarrow> x = y"
  using text_parse by (metis sum.inject(2))

lemma parse_iff: "ok \<Longrightarrow> parse s = Inr x \<longleftrightarrow> wf x \<and> text_of x = s"
  using parse_text parse_wf text_parse by blast

end

interpretation block_display: display_id "crates_ok C" "block_parse C" id_text "wf_block_id C"
  for C :: "'x crates_scheme"
  by unfold_locales (auto simp: block_parse_def parse_gid_text dest: parse_gid_Inr)

interpretation op_display: display_id "crates_ok C" "op_parse C" id_text "wf_op_id C"
  for C :: "'x crates_scheme"
  by unfold_locales (auto simp: op_parse_def parse_gid_text dest: parse_gid_Inr)

interpretation endo_display: display_id "crates_ok C" "endo_parse C" id_text "wf_endo_id C"
  for C :: "'x crates_scheme"
  by unfold_locales (auto simp: endo_parse_def parse_gid_text dest: parse_gid_Inr)

interpretation addr_display: display_id "crates_ok C" "addr_parse C" addr_text
    "\<lambda>a. wf_addr C a \<and> known_category a"
  for C :: "'x crates_scheme"
  by unfold_locales (auto simp: addr_parse_text dest: addr_parse_Inr)

end
