(* ===== verification/Model.thy ===== *)
theory Model
  imports Ids
begin

text \<open>
  The domain types (\<open>model.rs\<close>): one record or datatype per struct or enum, fields in the
  source's order.  Timestamps are 64-bit integers; amounts, periods and gas are \<open>u64\<close>,
  threads \<open>u8\<close>, indexes \<open>u32\<close>, all kept at their width.
\<close>

section \<open>Slots\<close>

record slot =
  sl_period :: u64
  sl_thread :: u8

definition Slot :: "u64 \<Rightarrow> u8 \<Rightarrow> slot" where
  "Slot period thread = \<lparr>sl_period = period, sl_thread = thread\<rparr>"

datatype exec_status = ExecOk | ExecFailed
datatype slot_status = SlotUnknown | SlotCandidate | SlotFinal
datatype block_status = SeenCandidate | BlockFinal | Discarded

record streams_expected =
  se_filled_blocks :: bool
  se_slot_execution_outputs :: bool
  se_transfers :: bool

definition streams_all :: streams_expected where
  "streams_all =
     \<lparr>se_filled_blocks = True, se_slot_execution_outputs = True, se_transfers = True\<rparr>"

record slot_completeness =
  block_body_stored :: bool
  exec_output_final :: bool
  exec_output_candidate :: bool
  transfers_stored :: bool

definition completeness_default :: slot_completeness where
  "completeness_default =
     \<lparr>block_body_stored = False, exec_output_final = False,
      exec_output_candidate = False, transfers_stored = False\<rparr>"

definition is_complete :: "slot_completeness \<Rightarrow> bool \<Rightarrow> streams_expected \<Rightarrow> bool" where
  "is_complete c is_miss streams \<longleftrightarrow>
     (let block_ok = \<not> se_filled_blocks streams \<or> is_miss \<or> block_body_stored c;
          exec_ok = \<not> se_slot_execution_outputs streams \<or> exec_output_final c;
          transfers_ok = \<not> se_transfers streams \<or> transfers_stored c
      in block_ok \<and> exec_ok \<and> transfers_ok)"

record slot_state =
  st_slot :: slot
  st_status :: slot_status
  st_is_miss :: bool
  st_final_block_id :: "block_id option"
  st_candidate_block_ids :: "block_id list"
  st_execution_trail_hash :: "string option"
  st_executed_op_ids :: "operation_id list"
  st_sc_event_count :: u32
  st_completeness :: slot_completeness
  st_first_seen_ts_ms :: i64
  st_last_updated_ts_ms :: i64

definition fresh :: "slot \<Rightarrow> i64 \<Rightarrow> slot_state" where
  "fresh slot now_ms =
     \<lparr>st_slot = slot, st_status = SlotUnknown, st_is_miss = False,
      st_final_block_id = None, st_candidate_block_ids = [],
      st_execution_trail_hash = None, st_executed_op_ids = [], st_sc_event_count = 0,
      st_completeness = completeness_default,
      st_first_seen_ts_ms = now_ms, st_last_updated_ts_ms = now_ms\<rparr>"

section \<open>Endorsements and denunciations\<close>

record stored_endorsement =
  en_id :: string
  en_slot :: slot
  en_index :: u32
  en_endorsed_block_id :: string
  en_content_creator_pub_key :: string
  en_content_creator_address :: address
  en_signature :: string
  en_serialized_size :: u64
  en_included_block_id :: string
  en_included_slot :: slot
  en_first_seen_ts_ms :: i64

text \<open>Fields: public key, slot, (index,) the two hashes, the two signatures.\<close>

datatype stored_denunciation =
    DenBlockHeader string slot string string string string
  | DenEndorsement string slot u32 string string string string
  | DenAddress string slot u64
  | DenUnknown

record stored_denunciation_entry =
  de_hash :: string
  de_slot :: slot
  de_kind :: string
  de_denounced_addr :: "address option"
  de_denunciation :: stored_denunciation
  de_included_block_id :: "block_id option"
  de_included_slot :: "slot option"
  de_first_seen_ts_ms :: i64

section \<open>Blocks and operations\<close>

record stored_block =
  bk_id :: block_id
  bk_slot :: slot
  bk_creator :: address
  bk_parents :: "block_id list"
  bk_operation_ids :: "operation_id list"
  bk_endorsements :: "stored_endorsement list"
  bk_endorsement_ids :: "string list"
  bk_denunciations :: "stored_denunciation list"
  bk_current_version :: u32
  bk_announced_version :: "u32 option"
  bk_operations_hash :: string
  bk_signature :: string
  bk_content_creator_pub_key :: string
  bk_serialized_size :: u64
  bk_raw_signed_header_b64 :: string
  bk_status :: block_status
  bk_first_seen_ts_ms :: i64

datatype operation_kind = Transaction | RollBuy | RollSell | ExecuteSc | CallSc | KindUnknown

record datastore_entry =
  ds_key_hex :: string
  ds_value_hex :: string

record operation_details =
  od_amount_nmas :: "u64 option"
  od_recipient_address :: "string option"
  od_roll_count :: "u64 option"
  od_target_address :: "string option"
  od_target_function :: "string option"
  od_parameter_hex :: "string option"
  od_parameter_len :: "u64 option"
  od_coins_nmas :: "u64 option"
  od_max_gas :: "u64 option"
  od_bytecode_hex :: "string option"
  od_bytecode_size :: "u64 option"
  od_max_coins_nmas :: "u64 option"
  od_datastore :: "datastore_entry list"
  od_datastore_keys :: "u32 option"

definition details_default :: operation_details where
  "details_default =
     \<lparr>od_amount_nmas = None, od_recipient_address = None, od_roll_count = None,
      od_target_address = None, od_target_function = None, od_parameter_hex = None,
      od_parameter_len = None, od_coins_nmas = None, od_max_gas = None,
      od_bytecode_hex = None, od_bytecode_size = None, od_max_coins_nmas = None,
      od_datastore = [], od_datastore_keys = None\<rparr>"

record operation_inclusion =
  oi_slot :: slot
  oi_block_id :: block_id

record stored_operation =
  op_id :: operation_id
  op_creator :: address
  op_target :: "address option"
  op_kind :: operation_kind
  op_expire_period :: u64
  op_fee_nmas :: u64
  op_thread :: u8
  op_inclusions :: "operation_inclusion list"
  op_candidate_exec_status :: "exec_status option"
  op_final_exec_status :: "exec_status option"
  op_details :: operation_details
  op_signature :: string
  op_content_creator_pub_key :: string
  op_serialized_size :: u64
  op_raw_signed_op_b64 :: string
  op_first_seen_ts_ms :: i64

section \<open>Transfers, events, meta row\<close>

datatype transfer_value = Coins u64 | Rolls u64 | DeferredCredits u64 | ValueUnknown

datatype coin_origin =
    Unspecified | BlockReward | DeferredCallFail | DeferredCallCancel | DeferredCallCoins
  | DeferredCallRegister | DeferredCallStorageRefund | EndorsementReward | EndorsedReward
  | Slash | OpRollBuy | OpRollSell | OpCallscCoins | ReadOnlyFnCallFees
  | ReadOnlyFnCallCoins | ReadOnlyBytecodeExecFees | SetBytecodeStorage | AbiCallCoins
  | AbiTransferCoins | AbiTransferForCoins | AbiSendMsgCoins | AbiSendMsgFees
  | OpRollSellDeferredMas | OpExecutescFees | OpTransactionCoins | OpTransactionFees
  | AsyncMsgCoins | AsyncMsgCancel | CreateScStorage | DatastoreStorage | DeferredCredit
  | OtherOrigin u32

record stored_transfer =
  tr_slot :: slot
  tr_index_in_slot :: u32
  tr_id :: string
  tr_block_id :: "string option"
  tr_block_timestamp_ms :: i64
  tr_from :: "string option"
  tr_to :: "string option"
  tr_value :: transfer_value
  tr_origin :: coin_origin
  tr_operation_id :: "string option"
  tr_async_msg_id :: "string option"
  tr_deferred_call_id :: "string option"
  tr_denunciation_index :: "string option"
  tr_is_final :: bool
  tr_first_seen_ts_ms :: i64

record stored_sc_event =
  ev_slot :: slot
  ev_index_in_slot :: u32
  ev_data :: string
  ev_emitter_addrs :: "address list"
  ev_caller_addrs :: "address list"
  ev_status :: slot_status
  ev_op_id :: "operation_id option"

record meta_row =
  mr_network :: string
  mr_genesis_timestamp_ms :: i64
  mr_t0_ms :: i64
  mr_thread_count :: u8
  mr_last_final_slot :: "slot option"
  mr_last_candidate_slot :: "slot option"
  mr_build_version :: string
  mr_created_at_ms :: i64
  mr_updated_at_ms :: i64

section \<open>Async pool and deferred calls\<close>

datatype async_msg_state = Pending | AsyncExecuted | AsyncCancelled | Consumed

record async_trigger =
  at_address :: string
  at_datastore_key_hex :: "string option"

record stored_async_msg =
  am_id :: string
  am_sender :: "address option"
  am_destination :: "address option"
  am_handler :: "string option"
  am_coins_nmas :: u64
  am_max_gas :: u64
  am_fee_nmas :: u64
  am_emission_slot :: "slot option"
  am_validity_start :: "slot option"
  am_validity_end :: "slot option"
  am_state :: async_msg_state
  am_last_slot :: "slot option"
  am_data_hex :: "string option"
  am_trigger :: "async_trigger option"
  am_can_be_executed :: bool
  am_first_seen_ts_ms :: i64
  am_last_updated_ts_ms :: i64

datatype deferred_call_state = Registered | CallExecuted | CallFailed | CallCancelled

record stored_deferred_call =
  dc_id :: string
  dc_sender :: "address option"
  dc_target_address :: "address option"
  dc_target_function :: "string option"
  dc_parameter_hex :: "string option"
  dc_coins_nmas :: u64
  dc_max_gas :: u64
  dc_target_slot :: "slot option"
  dc_registered_slot :: "slot option"
  dc_state :: deferred_call_state
  dc_last_slot :: "slot option"
  dc_first_seen_ts_ms :: i64
  dc_last_updated_ts_ms :: i64

section \<open>Order and lattice structure\<close>

text \<open>
  \<open>#[derive(PartialOrd, Ord)]\<close> on \<open>Slot\<close>: period first, then thread.
\<close>

definition slot_lt :: "slot \<Rightarrow> slot \<Rightarrow> bool" where
  "slot_lt a b \<longleftrightarrow>
     sl_period a < sl_period b \<or> sl_period a = sl_period b \<and> sl_thread a < sl_thread b"

lemma slot_lt_trans: "slot_lt a b \<Longrightarrow> slot_lt b c \<Longrightarrow> slot_lt a c"
  by (auto simp: slot_lt_def)

lemma slot_lt_irrefl [simp]: "\<not> slot_lt a a"
  by (simp add: slot_lt_def)

lemma Slot_sel [simp]: "sl_period (Slot p t) = p" "sl_thread (Slot p t) = t"
  by (simp_all add: Slot_def)

lemma Slot_eta [simp]: "Slot (sl_period s) (sl_thread s) = s"
  by (simp add: Slot_def)

lemma Slot_eq [simp]: "Slot p t = Slot q u \<longleftrightarrow> p = q \<and> t = u"
  by (simp add: Slot_def)

text \<open>Completeness only moves forward: the order in which it does.\<close>

definition completeness_le :: "slot_completeness \<Rightarrow> slot_completeness \<Rightarrow> bool" where
  "completeness_le c d \<longleftrightarrow>
     (block_body_stored c \<longrightarrow> block_body_stored d) \<and>
     (exec_output_final c \<longrightarrow> exec_output_final d) \<and>
     (exec_output_candidate c \<longrightarrow> exec_output_candidate d) \<and>
     (transfers_stored c \<longrightarrow> transfers_stored d)"

lemma completeness_le_refl [simp]: "completeness_le c c"
  by (simp add: completeness_le_def)

lemma completeness_le_trans:
  "completeness_le c d \<Longrightarrow> completeness_le d e \<Longrightarrow> completeness_le c e"
  by (auto simp: completeness_le_def)

lemma is_complete_mono:
  "completeness_le c d \<Longrightarrow> is_complete c m s \<Longrightarrow> is_complete d m s"
  by (auto simp: completeness_le_def is_complete_def Let_def)

end
