(* ===== verification/Storage_Pb.thy ===== *)
theory Storage_Pb
  imports Model
begin

text \<open>
  The wire types of the storage and peer format (\<open>proto/indexer/v1/storage.proto\<close>), as the
  protobuf generator presents them: a message is a record, a \<open>oneof\<close> an optional
  datatype, a message field an option, and an enum field the raw 32-bit number received,
  which need not name a variant.
\<close>

type_synonym i32 = "32 word"

record slot_pb =
  pb_period :: u64
  pb_thread :: u32

record slot_completeness_pb =
  pb_block_body_stored :: bool
  pb_exec_output_final :: bool
  pb_exec_output_candidate :: bool
  pb_transfers_stored :: bool

record slot_state_pb =
  pst_slot :: "slot_pb option"
  pst_status :: i32
  pst_is_miss :: bool
  pst_final_block_id_key :: bytes
  pst_candidate_block_id_keys :: "bytes list"
  pst_execution_trail_hash :: string
  pst_executed_op_id_keys :: "bytes list"
  pst_sc_event_count :: u32
  pst_completeness :: "slot_completeness_pb option"
  pst_first_seen_ts_ms :: i64
  pst_last_updated_ts_ms :: i64

record meta_row_pb =
  pmr_network :: string
  pmr_genesis_timestamp_ms :: i64
  pmr_t0_ms :: i64
  pmr_thread_count :: u32
  pmr_last_final_slot :: "slot_pb option"
  pmr_has_last_final_slot :: bool
  pmr_last_candidate_slot :: "slot_pb option"
  pmr_has_last_candidate_slot :: bool
  pmr_build_version :: string
  pmr_created_at_ms :: i64
  pmr_updated_at_ms :: i64

record stored_endorsement_pb =
  pen_id_key :: bytes
  pen_slot :: "slot_pb option"
  pen_index :: u32
  pen_endorsed_block_id_key :: bytes
  pen_content_creator_pub_key :: string
  pen_content_creator_address_key :: bytes
  pen_signature :: string
  pen_serialized_size :: u64
  pen_included_block_id_key :: bytes
  pen_included_slot :: "slot_pb option"
  pen_first_seen_ts_ms :: i64

datatype denunciation_kind_pb =
    PbBlockHeader string "slot_pb option" string string string string
  | PbEndorsement string "slot_pb option" u32 string string string string
  | PbAddress string "slot_pb option" u64
  | PbDenUnknown

record stored_denunciation_pb =
  pdn_kind :: "denunciation_kind_pb option"

record stored_denunciation_entry_pb =
  pde_hash :: bytes
  pde_slot :: "slot_pb option"
  pde_kind :: string
  pde_denounced_addr_key :: bytes
  pde_has_denounced_addr :: bool
  pde_denunciation :: "stored_denunciation_pb option"
  pde_included_block_id_key :: bytes
  pde_has_included_block_id :: bool
  pde_included_slot :: "slot_pb option"
  pde_has_included_slot :: bool
  pde_first_seen_ts_ms :: i64

record stored_block_pb =
  pbk_id_key :: bytes
  pbk_slot :: "slot_pb option"
  pbk_creator_key :: bytes
  pbk_parent_keys :: "bytes list"
  pbk_operation_id_keys :: "bytes list"
  pbk_endorsements :: "stored_endorsement_pb list"
  pbk_endorsement_ids :: "string list"
  pbk_denunciations :: "stored_denunciation_pb list"
  pbk_current_version :: u32
  pbk_announced_version :: u32
  pbk_has_announced_version :: bool
  pbk_operations_hash :: string
  pbk_signature :: string
  pbk_content_creator_pub_key :: string
  pbk_serialized_size :: u64
  pbk_raw_signed_header :: bytes
  pbk_status :: i32
  pbk_first_seen_ts_ms :: i64

record datastore_entry_pb =
  pds_key_hex :: string
  pds_value_hex :: string

record operation_details_pb =
  pod_amount_nmas :: u64
  pod_has_amount_nmas :: bool
  pod_recipient_address :: string
  pod_has_recipient_address :: bool
  pod_roll_count :: u64
  pod_has_roll_count :: bool
  pod_target_address :: string
  pod_has_target_address :: bool
  pod_target_function :: string
  pod_has_target_function :: bool
  pod_parameter_hex :: string
  pod_has_parameter_hex :: bool
  pod_parameter_len :: u64
  pod_has_parameter_len :: bool
  pod_coins_nmas :: u64
  pod_has_coins_nmas :: bool
  pod_max_gas :: u64
  pod_has_max_gas :: bool
  pod_bytecode_hex :: string
  pod_has_bytecode_hex :: bool
  pod_bytecode_size :: u64
  pod_has_bytecode_size :: bool
  pod_max_coins_nmas :: u64
  pod_has_max_coins_nmas :: bool
  pod_datastore :: "datastore_entry_pb list"
  pod_datastore_keys :: u32
  pod_has_datastore_keys :: bool

definition details_pb_default :: operation_details_pb where
  "details_pb_default =
     \<lparr>pod_amount_nmas = 0, pod_has_amount_nmas = False,
      pod_recipient_address = [], pod_has_recipient_address = False,
      pod_roll_count = 0, pod_has_roll_count = False,
      pod_target_address = [], pod_has_target_address = False,
      pod_target_function = [], pod_has_target_function = False,
      pod_parameter_hex = [], pod_has_parameter_hex = False,
      pod_parameter_len = 0, pod_has_parameter_len = False,
      pod_coins_nmas = 0, pod_has_coins_nmas = False,
      pod_max_gas = 0, pod_has_max_gas = False,
      pod_bytecode_hex = [], pod_has_bytecode_hex = False,
      pod_bytecode_size = 0, pod_has_bytecode_size = False,
      pod_max_coins_nmas = 0, pod_has_max_coins_nmas = False,
      pod_datastore = [], pod_datastore_keys = 0, pod_has_datastore_keys = False\<rparr>"

record operation_inclusion_pb =
  poi_slot :: "slot_pb option"
  poi_block_id_key :: bytes

record stored_operation_pb =
  pop_id_key :: bytes
  pop_creator_key :: bytes
  pop_target_key :: bytes
  pop_has_target :: bool
  pop_kind :: i32
  pop_expire_period :: u64
  pop_fee_nmas :: u64
  pop_thread :: u32
  pop_inclusions :: "operation_inclusion_pb list"
  pop_candidate_exec_status :: i32
  pop_has_candidate_exec_status :: bool
  pop_final_exec_status :: i32
  pop_has_final_exec_status :: bool
  pop_details :: "operation_details_pb option"
  pop_signature :: string
  pop_content_creator_pub_key :: string
  pop_serialized_size :: u64
  pop_raw_signed_op :: bytes
  pop_first_seen_ts_ms :: i64

record stored_sc_event_pb =
  pev_slot :: "slot_pb option"
  pev_index_in_slot :: u32
  pev_data :: string
  pev_emitter_addr_keys :: "bytes list"
  pev_caller_addr_keys :: "bytes list"
  pev_status :: i32
  pev_op_id_key :: bytes
  pev_has_op_id :: bool

datatype transfer_value_pb =
    PbCoins u64 | PbRolls u64 | PbDeferredCredits u64 | PbValueUnknown

record coin_origin_pb =
  pco_kind :: i32
  pco_other_code :: u32

record stored_transfer_pb =
  ptr_slot :: "slot_pb option"
  ptr_index_in_slot :: u32
  ptr_id :: string
  ptr_block_id :: string
  ptr_has_block_id :: bool
  ptr_block_timestamp_ms :: i64
  ptr_from :: string
  ptr_has_from :: bool
  ptr_to :: string
  ptr_has_to :: bool
  ptr_value :: "transfer_value_pb option option"
  ptr_origin :: "coin_origin_pb option"
  ptr_operation_id :: string
  ptr_has_operation_id :: bool
  ptr_async_msg_id :: string
  ptr_has_async_msg_id :: bool
  ptr_deferred_call_id :: string
  ptr_has_deferred_call_id :: bool
  ptr_denunciation_index :: string
  ptr_has_denunciation_index :: bool
  ptr_is_final :: bool
  ptr_first_seen_ts_ms :: i64

record async_trigger_pb =
  pat_address :: string
  pat_datastore_key_hex :: string
  pat_has_datastore_key :: bool

record stored_async_msg_pb =
  pam_id :: string
  pam_sender_key :: bytes
  pam_has_sender :: bool
  pam_destination_key :: bytes
  pam_has_destination :: bool
  pam_handler :: string
  pam_has_handler :: bool
  pam_coins_nmas :: u64
  pam_max_gas :: u64
  pam_fee_nmas :: u64
  pam_emission_slot :: "slot_pb option"
  pam_has_emission_slot :: bool
  pam_validity_start :: "slot_pb option"
  pam_has_validity_start :: bool
  pam_validity_end :: "slot_pb option"
  pam_has_validity_end :: bool
  pam_state :: i32
  pam_last_slot :: "slot_pb option"
  pam_has_last_slot :: bool
  pam_data_hex :: string
  pam_has_data :: bool
  pam_trigger :: "async_trigger_pb option"
  pam_has_trigger :: bool
  pam_can_be_executed :: bool
  pam_first_seen_ts_ms :: i64
  pam_last_updated_ts_ms :: i64

record stored_deferred_call_pb =
  pdc_id :: string
  pdc_sender_key :: bytes
  pdc_has_sender :: bool
  pdc_target_address_key :: bytes
  pdc_has_target_address :: bool
  pdc_target_function :: string
  pdc_has_target_function :: bool
  pdc_parameter_hex :: string
  pdc_has_parameter_hex :: bool
  pdc_coins_nmas :: u64
  pdc_max_gas :: u64
  pdc_target_slot :: "slot_pb option"
  pdc_has_target_slot :: bool
  pdc_registered_slot :: "slot_pb option"
  pdc_has_registered_slot :: bool
  pdc_state :: i32
  pdc_last_slot :: "slot_pb option"
  pdc_has_last_slot :: bool
  pdc_first_seen_ts_ms :: i64
  pdc_last_updated_ts_ms :: i64

end
