(* ===== verification/Codec.thy ===== *)
theory Codec
  imports Storage_Pb
begin

text \<open>
  The value codec (\<open>codec.rs\<close>): conversions between the domain types and the wire types,
  one pair per stored row, and the peer-wire conversions.  The protobuf encoding itself
  (the \<open>prost\<close> crate) is a parameter: for each stored message a \<open>wire\<close>, that is an
  encoder and a partial decoder, of which \<open>wires_ok\<close> states that decoding inverts
  encoding.  Encoded values have an abstract type \<open>'v\<close>, since the program never looks
  inside them; \<open>raw\<close> stands for a value written as literal bytes.

  The lemmas state, for every row type, that decoding an encoded well-formed row gives
  the row back, and that whatever decodes is well-formed.
\<close>

section \<open>Third-party wire encodings\<close>

record ('m, 'v) wire =
  w_enc :: "'m \<Rightarrow> 'v"
  w_dec :: "'v \<Rightarrow> 'm option"

record 'v wires = crates +
  wr_slot_state :: "(slot_state_pb, 'v) wire"
  wr_meta_row :: "(meta_row_pb, 'v) wire"
  wr_slot :: "(slot_pb, 'v) wire"
  wr_endorsement :: "(stored_endorsement_pb, 'v) wire"
  wr_denunciation :: "(stored_denunciation_entry_pb, 'v) wire"
  wr_block :: "(stored_block_pb, 'v) wire"
  wr_operation :: "(stored_operation_pb, 'v) wire"
  wr_sc_event :: "(stored_sc_event_pb, 'v) wire"
  wr_transfer :: "(stored_transfer_pb, 'v) wire"
  wr_async_msg :: "(stored_async_msg_pb, 'v) wire"
  wr_deferred_call :: "(stored_deferred_call_pb, 'v) wire"
  raw :: "bytes \<Rightarrow> 'v"
  unraw :: "'v \<Rightarrow> bytes"

definition wire_ok :: "('m, 'v) wire \<Rightarrow> bool" where
  "wire_ok w \<longleftrightarrow> (\<forall>m. w_dec w (w_enc w m) = Some m)"

definition wires_ok :: "('v, 'x) wires_scheme \<Rightarrow> bool" where
  "wires_ok W \<longleftrightarrow>
     crates_ok W \<and> wire_ok (wr_slot_state W) \<and> wire_ok (wr_meta_row W) \<and> wire_ok (wr_slot W) \<and>
     wire_ok (wr_endorsement W) \<and> wire_ok (wr_denunciation W) \<and> wire_ok (wr_block W) \<and>
     wire_ok (wr_operation W) \<and> wire_ok (wr_sc_event W) \<and> wire_ok (wr_transfer W) \<and>
     wire_ok (wr_async_msg W) \<and> wire_ok (wr_deferred_call W) \<and>
     (\<forall>b. unraw W (raw W b) = b)"

lemma wires_okD:
  assumes "wires_ok W"
  shows "crates_ok W" and "wire_ok (wr_slot_state W)" and "wire_ok (wr_meta_row W)"
    and "wire_ok (wr_slot W)" and "wire_ok (wr_endorsement W)" and "wire_ok (wr_denunciation W)"
    and "wire_ok (wr_block W)" and "wire_ok (wr_operation W)" and "wire_ok (wr_sc_event W)"
    and "wire_ok (wr_transfer W)" and "wire_ok (wr_async_msg W)" and "wire_ok (wr_deferred_call W)"
    and "unraw W (raw W b) = b"
  using assms by (auto simp: wires_ok_def)

definition decode_with :: "('m, 'v) wire \<Rightarrow> 'v \<Rightarrow> codec_error + 'm" where
  "decode_with w v = ok_or Decode (w_dec w v)"

lemma decode_with_enc [simp]: "wire_ok w \<Longrightarrow> decode_with w (w_enc w m) = Inr m"
  by (simp add: decode_with_def wire_ok_def)

section \<open>Ids, slots, status enums\<close>

definition block_id_from_key :: "'x crates_scheme \<Rightarrow> bytes \<Rightarrow> codec_error + block_id" where
  "block_id_from_key C b = ok_or (Custom ''invalid block id key bytes'') (block_from_key C b)"

definition op_id_from_key :: "'x crates_scheme \<Rightarrow> bytes \<Rightarrow> codec_error + operation_id" where
  "op_id_from_key C b = ok_or (Custom ''invalid operation id key bytes'') (op_from_key C b)"

definition endo_id_from_key :: "'x crates_scheme \<Rightarrow> bytes \<Rightarrow> codec_error + endorsement_id" where
  "endo_id_from_key C b = ok_or (Custom ''invalid endorsement id key bytes'') (endo_from_key C b)"

definition address_from_key :: "'x crates_scheme \<Rightarrow> bytes \<Rightarrow> codec_error + address" where
  "address_from_key C b = ok_or (Custom ''invalid address key bytes'') (addr_from_key C b)"

definition slot_to_pb :: "slot \<Rightarrow> slot_pb" where
  "slot_to_pb s = \<lparr>pb_period = sl_period s, pb_thread = ucast (sl_thread s)\<rparr>"

text \<open>\<open>u8::try_from\<close> on a \<open>u32\<close>.\<close>

definition u8_try_from :: "u32 \<Rightarrow> u8 option" where
  "u8_try_from n = (if unat n > 255 then None else Some (ucast n))"

definition slot_from_pb :: "slot_pb \<Rightarrow> codec_error + slot" where
  "slot_from_pb p =
     rbind (ok_or (Custom ''thread > 255'') (u8_try_from (pb_thread p)))
       (\<lambda>t. Inr (Slot (pb_period p) t))"

definition slot_from_opt :: "slot_pb option \<Rightarrow> codec_error + slot" where
  "slot_from_opt p = rbind (ok_or (Custom ''missing slot'') p) slot_from_pb"

fun slot_status_to_pb :: "slot_status \<Rightarrow> i32" where
  "slot_status_to_pb SlotUnknown = 0"
| "slot_status_to_pb SlotCandidate = 1"
| "slot_status_to_pb SlotFinal = 2"

definition slot_status_from_pb :: "i32 \<Rightarrow> slot_status" where
  "slot_status_from_pb i =
     (if i = 1 then SlotCandidate else if i = 2 then SlotFinal else SlotUnknown)"

fun exec_status_to_pb :: "exec_status \<Rightarrow> i32" where
  "exec_status_to_pb ExecOk = 1"
| "exec_status_to_pb ExecFailed = 2"

definition exec_status_from_pb :: "i32 \<Rightarrow> exec_status option" where
  "exec_status_from_pb i =
     (if i = 1 then Some ExecOk else if i = 2 then Some ExecFailed else None)"

fun block_status_to_pb :: "block_status \<Rightarrow> i32" where
  "block_status_to_pb SeenCandidate = 1"
| "block_status_to_pb BlockFinal = 2"
| "block_status_to_pb Discarded = 3"

definition block_status_from_pb :: "i32 \<Rightarrow> block_status" where
  "block_status_from_pb i =
     (if i = 2 then BlockFinal else if i = 3 then Discarded else SeenCandidate)"

definition completeness_to_pb :: "slot_completeness \<Rightarrow> slot_completeness_pb" where
  "completeness_to_pb c =
     \<lparr>pb_block_body_stored = block_body_stored c, pb_exec_output_final = exec_output_final c,
      pb_exec_output_candidate = exec_output_candidate c, pb_transfers_stored = transfers_stored c\<rparr>"

definition completeness_from_pb :: "slot_completeness_pb option \<Rightarrow> slot_completeness" where
  "completeness_from_pb p =
     (case p of
        None \<Rightarrow> completeness_default
      | Some q \<Rightarrow>
          \<lparr>block_body_stored = pb_block_body_stored q, exec_output_final = pb_exec_output_final q,
           exec_output_candidate = pb_exec_output_candidate q,
           transfers_stored = pb_transfers_stored q\<rparr>)"

section \<open>Slot state, meta row, bare slots\<close>

definition slot_state_to_pb :: "slot_state \<Rightarrow> slot_state_pb" where
  "slot_state_to_pb s =
     \<lparr>pst_slot = Some (slot_to_pb (st_slot s)),
      pst_status = slot_status_to_pb (st_status s),
      pst_is_miss = st_is_miss s,
      pst_final_block_id_key = unwrap_or [] (map_option id_key (st_final_block_id s)),
      pst_candidate_block_id_keys = map id_key (st_candidate_block_ids s),
      pst_execution_trail_hash = unwrap_or [] (st_execution_trail_hash s),
      pst_executed_op_id_keys = map id_key (st_executed_op_ids s),
      pst_sc_event_count = st_sc_event_count s,
      pst_completeness = Some (completeness_to_pb (st_completeness s)),
      pst_first_seen_ts_ms = st_first_seen_ts_ms s,
      pst_last_updated_ts_ms = st_last_updated_ts_ms s\<rparr>"

definition slot_state_from_pb :: "'x crates_scheme \<Rightarrow> slot_state_pb \<Rightarrow> codec_error + slot_state" where
  "slot_state_from_pb C p =
     rbind (slot_from_opt (pst_slot p)) (\<lambda>slot.
     rbind (opt_field (pst_final_block_id_key p \<noteq> [])
              (block_id_from_key C (pst_final_block_id_key p))) (\<lambda>fin.
     rbind (collect (block_id_from_key C) (pst_candidate_block_id_keys p)) (\<lambda>cands.
     rbind (collect (op_id_from_key C) (pst_executed_op_id_keys p)) (\<lambda>ops.
     Inr \<lparr>st_slot = slot,
          st_status = slot_status_from_pb (pst_status p),
          st_is_miss = pst_is_miss p,
          st_final_block_id = fin,
          st_candidate_block_ids = cands,
          st_execution_trail_hash =
            then_some (pst_execution_trail_hash p \<noteq> []) (pst_execution_trail_hash p),
          st_executed_op_ids = ops,
          st_sc_event_count = pst_sc_event_count p,
          st_completeness = completeness_from_pb (pst_completeness p),
          st_first_seen_ts_ms = pst_first_seen_ts_ms p,
          st_last_updated_ts_ms = pst_last_updated_ts_ms p\<rparr>))))"

definition encode_slot_state :: "('v, 'x) wires_scheme \<Rightarrow> slot_state \<Rightarrow> 'v" where
  "encode_slot_state W s = w_enc (wr_slot_state W) (slot_state_to_pb s)"

definition decode_slot_state :: "('v, 'x) wires_scheme \<Rightarrow> 'v \<Rightarrow> codec_error + slot_state" where
  "decode_slot_state W v = rbind (decode_with (wr_slot_state W) v) (slot_state_from_pb W)"

definition encode_meta_row :: "('v, 'x) wires_scheme \<Rightarrow> meta_row \<Rightarrow> 'v" where
  "encode_meta_row W m = w_enc (wr_meta_row W)
     \<lparr>pmr_network = mr_network m,
      pmr_genesis_timestamp_ms = mr_genesis_timestamp_ms m,
      pmr_t0_ms = mr_t0_ms m,
      pmr_thread_count = ucast (mr_thread_count m),
      pmr_last_final_slot = map_option slot_to_pb (mr_last_final_slot m),
      pmr_has_last_final_slot = is_some (mr_last_final_slot m),
      pmr_last_candidate_slot = map_option slot_to_pb (mr_last_candidate_slot m),
      pmr_has_last_candidate_slot = is_some (mr_last_candidate_slot m),
      pmr_build_version = mr_build_version m,
      pmr_created_at_ms = mr_created_at_ms m,
      pmr_updated_at_ms = mr_updated_at_ms m\<rparr>"

definition decode_meta_row :: "('v, 'x) wires_scheme \<Rightarrow> 'v \<Rightarrow> codec_error + meta_row" where
  "decode_meta_row W v =
     rbind (decode_with (wr_meta_row W) v) (\<lambda>p.
     rbind (ok_or (Custom ''thread_count > 255'') (u8_try_from (pmr_thread_count p))) (\<lambda>threads.
     rbind (opt_field (pmr_has_last_final_slot p) (slot_from_opt (pmr_last_final_slot p))) (\<lambda>lf.
     rbind (opt_field (pmr_has_last_candidate_slot p)
              (slot_from_opt (pmr_last_candidate_slot p))) (\<lambda>lc.
     Inr \<lparr>mr_network = pmr_network p,
          mr_genesis_timestamp_ms = pmr_genesis_timestamp_ms p,
          mr_t0_ms = pmr_t0_ms p,
          mr_thread_count = threads,
          mr_last_final_slot = lf,
          mr_last_candidate_slot = lc,
          mr_build_version = pmr_build_version p,
          mr_created_at_ms = pmr_created_at_ms p,
          mr_updated_at_ms = pmr_updated_at_ms p\<rparr>))))"

definition encode_slot :: "('v, 'x) wires_scheme \<Rightarrow> slot \<Rightarrow> 'v" where
  "encode_slot W s = w_enc (wr_slot W) (slot_to_pb s)"

definition decode_slot :: "('v, 'x) wires_scheme \<Rightarrow> 'v \<Rightarrow> codec_error + slot" where
  "decode_slot W v = rbind (decode_with (wr_slot W) v) slot_from_pb"

section \<open>Endorsements\<close>

definition custom_err :: "string + 'a \<Rightarrow> codec_error + 'a" where
  "custom_err r = rmap_err Custom r"

definition endorsement_to_pb ::
  "'x crates_scheme \<Rightarrow> stored_endorsement \<Rightarrow> codec_error + stored_endorsement_pb" where
  "endorsement_to_pb C e =
     rbind (custom_err (endo_parse C (en_id e))) (\<lambda>ident.
     rbind (custom_err (block_parse C (en_endorsed_block_id e))) (\<lambda>endorsed.
     rbind (custom_err (block_parse C (en_included_block_id e))) (\<lambda>included.
     Inr \<lparr>pen_id_key = id_key ident,
          pen_slot = Some (slot_to_pb (en_slot e)),
          pen_index = en_index e,
          pen_endorsed_block_id_key = id_key endorsed,
          pen_content_creator_pub_key = en_content_creator_pub_key e,
          pen_content_creator_address_key = addr_key (en_content_creator_address e),
          pen_signature = en_signature e,
          pen_serialized_size = en_serialized_size e,
          pen_included_block_id_key = id_key included,
          pen_included_slot = Some (slot_to_pb (en_included_slot e)),
          pen_first_seen_ts_ms = en_first_seen_ts_ms e\<rparr>)))"

definition endorsement_from_pb ::
  "'x crates_scheme \<Rightarrow> stored_endorsement_pb \<Rightarrow> codec_error + stored_endorsement" where
  "endorsement_from_pb C p =
     rbind (endo_id_from_key C (pen_id_key p)) (\<lambda>ident.
     rbind (slot_from_opt (pen_slot p)) (\<lambda>slot.
     rbind (block_id_from_key C (pen_endorsed_block_id_key p)) (\<lambda>endorsed.
     rbind (address_from_key C (pen_content_creator_address_key p)) (\<lambda>creator.
     rbind (block_id_from_key C (pen_included_block_id_key p)) (\<lambda>included.
     rbind (slot_from_opt (pen_included_slot p)) (\<lambda>included_slot.
     Inr \<lparr>en_id = id_text ident,
          en_slot = slot,
          en_index = pen_index p,
          en_endorsed_block_id = id_text endorsed,
          en_content_creator_pub_key = pen_content_creator_pub_key p,
          en_content_creator_address = creator,
          en_signature = pen_signature p,
          en_serialized_size = pen_serialized_size p,
          en_included_block_id = id_text included,
          en_included_slot = included_slot,
          en_first_seen_ts_ms = pen_first_seen_ts_ms p\<rparr>))))))"

definition encode_endorsement ::
  "('v, 'x) wires_scheme \<Rightarrow> stored_endorsement \<Rightarrow> codec_error + 'v" where
  "encode_endorsement W e =
     rbind (endorsement_to_pb W e) (\<lambda>p. Inr (w_enc (wr_endorsement W) p))"

definition decode_endorsement ::
  "('v, 'x) wires_scheme \<Rightarrow> 'v \<Rightarrow> codec_error + stored_endorsement" where
  "decode_endorsement W v = rbind (decode_with (wr_endorsement W) v) (endorsement_from_pb W)"

section \<open>Denunciations\<close>

fun denunciation_to_pb :: "stored_denunciation \<Rightarrow> stored_denunciation_pb" where
  "denunciation_to_pb (DenBlockHeader k s h1 h2 g1 g2) =
     \<lparr>pdn_kind = Some (PbBlockHeader k (Some (slot_to_pb s)) h1 h2 g1 g2)\<rparr>"
| "denunciation_to_pb (DenEndorsement k s i h1 h2 g1 g2) =
     \<lparr>pdn_kind = Some (PbEndorsement k (Some (slot_to_pb s)) i h1 h2 g1 g2)\<rparr>"
| "denunciation_to_pb (DenAddress a s n) =
     \<lparr>pdn_kind = Some (PbAddress a (Some (slot_to_pb s)) n)\<rparr>"
| "denunciation_to_pb DenUnknown = \<lparr>pdn_kind = Some PbDenUnknown\<rparr>"

definition denunciation_from_pb :: "stored_denunciation_pb \<Rightarrow> codec_error + stored_denunciation" where
  "denunciation_from_pb p =
     (case pdn_kind p of
        Some (PbBlockHeader k s h1 h2 g1 g2) \<Rightarrow>
          rbind (slot_from_opt s) (\<lambda>slot. Inr (DenBlockHeader k slot h1 h2 g1 g2))
      | Some (PbEndorsement k s i h1 h2 g1 g2) \<Rightarrow>
          rbind (slot_from_opt s) (\<lambda>slot. Inr (DenEndorsement k slot i h1 h2 g1 g2))
      | Some (PbAddress a s n) \<Rightarrow> rbind (slot_from_opt s) (\<lambda>slot. Inr (DenAddress a slot n))
      | Some PbDenUnknown \<Rightarrow> Inr DenUnknown
      | None \<Rightarrow> Inr DenUnknown)"

definition encode_denunciation_entry ::
  "('v, 'x) wires_scheme \<Rightarrow> stored_denunciation_entry \<Rightarrow> codec_error + 'v" where
  "encode_denunciation_entry W d =
     rbind (ok_or (Custom ''hex hash: '') (hexdec W (de_hash d))) (\<lambda>hash.
     Inr (w_enc (wr_denunciation W)
       \<lparr>pde_hash = hash,
        pde_slot = Some (slot_to_pb (de_slot d)),
        pde_kind = de_kind d,
        pde_denounced_addr_key = unwrap_or [] (map_option addr_key (de_denounced_addr d)),
        pde_has_denounced_addr = is_some (de_denounced_addr d),
        pde_denunciation = Some (denunciation_to_pb (de_denunciation d)),
        pde_included_block_id_key = unwrap_or [] (map_option id_key (de_included_block_id d)),
        pde_has_included_block_id = is_some (de_included_block_id d),
        pde_included_slot = map_option slot_to_pb (de_included_slot d),
        pde_has_included_slot = is_some (de_included_slot d),
        pde_first_seen_ts_ms = de_first_seen_ts_ms d\<rparr>))"

definition decode_denunciation_entry ::
  "('v, 'x) wires_scheme \<Rightarrow> 'v \<Rightarrow> codec_error + stored_denunciation_entry" where
  "decode_denunciation_entry W v =
     rbind (decode_with (wr_denunciation W) v) (\<lambda>p.
     rbind (slot_from_opt (pde_slot p)) (\<lambda>slot.
     rbind (opt_field (pde_has_denounced_addr p)
              (address_from_key W (pde_denounced_addr_key p))) (\<lambda>addr.
     rbind (ok_or (Custom ''missing denunciation payload'') (pde_denunciation p)) (\<lambda>pd.
     rbind (denunciation_from_pb pd) (\<lambda>den.
     rbind (opt_field (pde_has_included_block_id p)
              (block_id_from_key W (pde_included_block_id_key p))) (\<lambda>bid.
     rbind (opt_field (pde_has_included_slot p) (slot_from_opt (pde_included_slot p))) (\<lambda>islot.
     Inr \<lparr>de_hash = hexenc W (pde_hash p),
          de_slot = slot,
          de_kind = pde_kind p,
          de_denounced_addr = addr,
          de_denunciation = den,
          de_included_block_id = bid,
          de_included_slot = islot,
          de_first_seen_ts_ms = pde_first_seen_ts_ms p\<rparr>)))))))"

section \<open>Blocks\<close>

text \<open>An archived payload is kept in base64 in memory and raw on disk.\<close>

definition payload_to_raw :: "'x crates_scheme \<Rightarrow> string \<Rightarrow> string \<Rightarrow> codec_error + bytes" where
  "payload_to_raw C what b64 =
     (if b64 = [] then Inr [] else ok_or (Custom what) (b64dec C b64))"

definition payload_from_raw :: "'x crates_scheme \<Rightarrow> bytes \<Rightarrow> string" where
  "payload_from_raw C b = (if b = [] then [] else b64enc C b)"

definition block_to_peer_pb :: "'x crates_scheme \<Rightarrow> stored_block \<Rightarrow> codec_error + stored_block_pb" where
  "block_to_peer_pb C b =
     rbind (collect (endorsement_to_pb C) (bk_endorsements b)) (\<lambda>endorsements.
     rbind (payload_to_raw C ''raw_signed_header b64: '' (bk_raw_signed_header_b64 b)) (\<lambda>header.
     Inr \<lparr>pbk_id_key = id_key (bk_id b),
          pbk_slot = Some (slot_to_pb (bk_slot b)),
          pbk_creator_key = addr_key (bk_creator b),
          pbk_parent_keys = map id_key (bk_parents b),
          pbk_operation_id_keys = map id_key (bk_operation_ids b),
          pbk_endorsements = endorsements,
          pbk_endorsement_ids = bk_endorsement_ids b,
          pbk_denunciations = map denunciation_to_pb (bk_denunciations b),
          pbk_current_version = bk_current_version b,
          pbk_announced_version = unwrap_or 0 (bk_announced_version b),
          pbk_has_announced_version = is_some (bk_announced_version b),
          pbk_operations_hash = bk_operations_hash b,
          pbk_signature = bk_signature b,
          pbk_content_creator_pub_key = bk_content_creator_pub_key b,
          pbk_serialized_size = bk_serialized_size b,
          pbk_raw_signed_header = header,
          pbk_status = block_status_to_pb (bk_status b),
          pbk_first_seen_ts_ms = bk_first_seen_ts_ms b\<rparr>))"

definition block_from_peer_pb :: "'x crates_scheme \<Rightarrow> stored_block_pb \<Rightarrow> codec_error + stored_block" where
  "block_from_peer_pb C p =
     rbind (block_id_from_key C (pbk_id_key p)) (\<lambda>ident.
     rbind (slot_from_opt (pbk_slot p)) (\<lambda>slot.
     rbind (address_from_key C (pbk_creator_key p)) (\<lambda>creator.
     rbind (collect (block_id_from_key C) (pbk_parent_keys p)) (\<lambda>parents.
     rbind (collect (op_id_from_key C) (pbk_operation_id_keys p)) (\<lambda>ops.
     rbind (collect (endorsement_from_pb C) (pbk_endorsements p)) (\<lambda>endorsements.
     rbind (collect denunciation_from_pb (pbk_denunciations p)) (\<lambda>denunciations.
     Inr \<lparr>bk_id = ident,
          bk_slot = slot,
          bk_creator = creator,
          bk_parents = parents,
          bk_operation_ids = ops,
          bk_endorsements = endorsements,
          bk_endorsement_ids = pbk_endorsement_ids p,
          bk_denunciations = denunciations,
          bk_current_version = pbk_current_version p,
          bk_announced_version = then_some (pbk_has_announced_version p) (pbk_announced_version p),
          bk_operations_hash = pbk_operations_hash p,
          bk_signature = pbk_signature p,
          bk_content_creator_pub_key = pbk_content_creator_pub_key p,
          bk_serialized_size = pbk_serialized_size p,
          bk_raw_signed_header_b64 = payload_from_raw C (pbk_raw_signed_header p),
          bk_status = block_status_from_pb (pbk_status p),
          bk_first_seen_ts_ms = pbk_first_seen_ts_ms p\<rparr>)))))))"

text \<open>
  \<open>encode_block\<close> and \<open>decode_block\<close> repeat the two conversions above line by line around the
  protobuf call.
\<close>

definition encode_block :: "('v, 'x) wires_scheme \<Rightarrow> stored_block \<Rightarrow> codec_error + 'v" where
  "encode_block W b = rbind (block_to_peer_pb W b) (\<lambda>p. Inr (w_enc (wr_block W) p))"

definition decode_block :: "('v, 'x) wires_scheme \<Rightarrow> 'v \<Rightarrow> codec_error + stored_block" where
  "decode_block W v = rbind (decode_with (wr_block W) v) (block_from_peer_pb W)"

section \<open>Operations\<close>

fun op_kind_to_pb :: "operation_kind \<Rightarrow> i32" where
  "op_kind_to_pb Transaction = 1"
| "op_kind_to_pb RollBuy = 2"
| "op_kind_to_pb RollSell = 3"
| "op_kind_to_pb ExecuteSc = 4"
| "op_kind_to_pb CallSc = 5"
| "op_kind_to_pb KindUnknown = 0"

definition op_kind_from_pb :: "i32 \<Rightarrow> operation_kind" where
  "op_kind_from_pb i =
     (if i = 1 then Transaction else if i = 2 then RollBuy else if i = 3 then RollSell
      else if i = 4 then ExecuteSc else if i = 5 then CallSc else KindUnknown)"

definition details_to_pb :: "operation_details \<Rightarrow> operation_details_pb" where
  "details_to_pb d =
     \<lparr>pod_amount_nmas = unwrap_or 0 (od_amount_nmas d),
      pod_has_amount_nmas = is_some (od_amount_nmas d),
      pod_recipient_address = unwrap_or [] (od_recipient_address d),
      pod_has_recipient_address = is_some (od_recipient_address d),
      pod_roll_count = unwrap_or 0 (od_roll_count d),
      pod_has_roll_count = is_some (od_roll_count d),
      pod_target_address = unwrap_or [] (od_target_address d),
      pod_has_target_address = is_some (od_target_address d),
      pod_target_function = unwrap_or [] (od_target_function d),
      pod_has_target_function = is_some (od_target_function d),
      pod_parameter_hex = unwrap_or [] (od_parameter_hex d),
      pod_has_parameter_hex = is_some (od_parameter_hex d),
      pod_parameter_len = unwrap_or 0 (od_parameter_len d),
      pod_has_parameter_len = is_some (od_parameter_len d),
      pod_coins_nmas = unwrap_or 0 (od_coins_nmas d),
      pod_has_coins_nmas = is_some (od_coins_nmas d),
      pod_max_gas = unwrap_or 0 (od_max_gas d),
      pod_has_max_gas = is_some (od_max_gas d),
      pod_bytecode_hex = unwrap_or [] (od_bytecode_hex d),
      pod_has_bytecode_hex = is_some (od_bytecode_hex d),
      pod_bytecode_size = unwrap_or 0 (od_bytecode_size d),
      pod_has_bytecode_size = is_some (od_bytecode_size d),
      pod_max_coins_nmas = unwrap_or 0 (od_max_coins_nmas d),
      pod_has_max_coins_nmas = is_some (od_max_coins_nmas d),
      pod_datastore =
        map (\<lambda>e. \<lparr>pds_key_hex = ds_key_hex e, pds_value_hex = ds_value_hex e\<rparr>) (od_datastore d),
      pod_datastore_keys = unwrap_or 0 (od_datastore_keys d),
      pod_has_datastore_keys = is_some (od_datastore_keys d)\<rparr>"

definition details_from_pb :: "operation_details_pb \<Rightarrow> operation_details" where
  "details_from_pb p =
     \<lparr>od_amount_nmas = then_some (pod_has_amount_nmas p) (pod_amount_nmas p),
      od_recipient_address = then_some (pod_has_recipient_address p) (pod_recipient_address p),
      od_roll_count = then_some (pod_has_roll_count p) (pod_roll_count p),
      od_target_address = then_some (pod_has_target_address p) (pod_target_address p),
      od_target_function = then_some (pod_has_target_function p) (pod_target_function p),
      od_parameter_hex = then_some (pod_has_parameter_hex p) (pod_parameter_hex p),
      od_parameter_len = then_some (pod_has_parameter_len p) (pod_parameter_len p),
      od_coins_nmas = then_some (pod_has_coins_nmas p) (pod_coins_nmas p),
      od_max_gas = then_some (pod_has_max_gas p) (pod_max_gas p),
      od_bytecode_hex = then_some (pod_has_bytecode_hex p) (pod_bytecode_hex p),
      od_bytecode_size = then_some (pod_has_bytecode_size p) (pod_bytecode_size p),
      od_max_coins_nmas = then_some (pod_has_max_coins_nmas p) (pod_max_coins_nmas p),
      od_datastore =
        map (\<lambda>e. \<lparr>ds_key_hex = pds_key_hex e, ds_value_hex = pds_value_hex e\<rparr>) (pod_datastore p),
      od_datastore_keys = then_some (pod_has_datastore_keys p) (pod_datastore_keys p)\<rparr>"

definition inclusion_to_pb :: "operation_inclusion \<Rightarrow> operation_inclusion_pb" where
  "inclusion_to_pb i =
     \<lparr>poi_slot = Some (slot_to_pb (oi_slot i)), poi_block_id_key = id_key (oi_block_id i)\<rparr>"

definition inclusion_from_pb ::
  "'x crates_scheme \<Rightarrow> operation_inclusion_pb \<Rightarrow> codec_error + operation_inclusion" where
  "inclusion_from_pb C p =
     rbind (slot_from_opt (poi_slot p)) (\<lambda>slot.
     rbind (block_id_from_key C (poi_block_id_key p)) (\<lambda>b.
     Inr \<lparr>oi_slot = slot, oi_block_id = b\<rparr>))"

definition encode_operation :: "('v, 'x) wires_scheme \<Rightarrow> stored_operation \<Rightarrow> codec_error + 'v" where
  "encode_operation W o1 =
     rbind (payload_to_raw W ''raw_signed_op b64: '' (op_raw_signed_op_b64 o1)) (\<lambda>signed_op.
     Inr (w_enc (wr_operation W)
       \<lparr>pop_id_key = id_key (op_id o1),
        pop_creator_key = addr_key (op_creator o1),
        pop_target_key = unwrap_or [] (map_option addr_key (op_target o1)),
        pop_has_target = is_some (op_target o1),
        pop_kind = op_kind_to_pb (op_kind o1),
        pop_expire_period = op_expire_period o1,
        pop_fee_nmas = op_fee_nmas o1,
        pop_thread = ucast (op_thread o1),
        pop_inclusions = map inclusion_to_pb (op_inclusions o1),
        pop_candidate_exec_status =
          unwrap_or 0 (map_option exec_status_to_pb (op_candidate_exec_status o1)),
        pop_has_candidate_exec_status = is_some (op_candidate_exec_status o1),
        pop_final_exec_status =
          unwrap_or 0 (map_option exec_status_to_pb (op_final_exec_status o1)),
        pop_has_final_exec_status = is_some (op_final_exec_status o1),
        pop_details = Some (details_to_pb (op_details o1)),
        pop_signature = op_signature o1,
        pop_content_creator_pub_key = op_content_creator_pub_key o1,
        pop_serialized_size = op_serialized_size o1,
        pop_raw_signed_op = signed_op,
        pop_first_seen_ts_ms = op_first_seen_ts_ms o1\<rparr>))"

definition decode_operation :: "('v, 'x) wires_scheme \<Rightarrow> 'v \<Rightarrow> codec_error + stored_operation" where
  "decode_operation W v =
     rbind (decode_with (wr_operation W) v) (\<lambda>p.
     rbind (op_id_from_key W (pop_id_key p)) (\<lambda>ident.
     rbind (address_from_key W (pop_creator_key p)) (\<lambda>creator.
     rbind (opt_field (pop_has_target p) (address_from_key W (pop_target_key p))) (\<lambda>target.
     rbind (ok_or (Custom ''thread > 255'') (u8_try_from (pop_thread p))) (\<lambda>thread.
     rbind (collect (inclusion_from_pb W) (pop_inclusions p)) (\<lambda>inclusions.
     Inr \<lparr>op_id = ident,
          op_creator = creator,
          op_target = target,
          op_kind = op_kind_from_pb (pop_kind p),
          op_expire_period = pop_expire_period p,
          op_fee_nmas = pop_fee_nmas p,
          op_thread = thread,
          op_inclusions = inclusions,
          op_candidate_exec_status =
            Option.bind (then_some (pop_has_candidate_exec_status p) (pop_candidate_exec_status p))
              exec_status_from_pb,
          op_final_exec_status =
            Option.bind (then_some (pop_has_final_exec_status p) (pop_final_exec_status p))
              exec_status_from_pb,
          op_details = details_from_pb (unwrap_or details_pb_default (pop_details p)),
          op_signature = pop_signature p,
          op_content_creator_pub_key = pop_content_creator_pub_key p,
          op_serialized_size = pop_serialized_size p,
          op_raw_signed_op_b64 = payload_from_raw W (pop_raw_signed_op p),
          op_first_seen_ts_ms = pop_first_seen_ts_ms p\<rparr>))))))"

section \<open>SC events\<close>

definition encode_sc_event :: "('v, 'x) wires_scheme \<Rightarrow> stored_sc_event \<Rightarrow> codec_error + 'v" where
  "encode_sc_event W e =
     Inr (w_enc (wr_sc_event W)
       \<lparr>pev_slot = Some (slot_to_pb (ev_slot e)),
        pev_index_in_slot = ev_index_in_slot e,
        pev_data = ev_data e,
        pev_emitter_addr_keys = map addr_key (ev_emitter_addrs e),
        pev_caller_addr_keys = map addr_key (ev_caller_addrs e),
        pev_status = slot_status_to_pb (ev_status e),
        pev_op_id_key = unwrap_or [] (map_option id_key (ev_op_id e)),
        pev_has_op_id = is_some (ev_op_id e)\<rparr>)"

definition decode_sc_event :: "('v, 'x) wires_scheme \<Rightarrow> 'v \<Rightarrow> codec_error + stored_sc_event" where
  "decode_sc_event W v =
     rbind (decode_with (wr_sc_event W) v) (\<lambda>p.
     rbind (slot_from_opt (pev_slot p)) (\<lambda>slot.
     rbind (collect (address_from_key W) (pev_emitter_addr_keys p)) (\<lambda>emitters.
     rbind (collect (address_from_key W) (pev_caller_addr_keys p)) (\<lambda>callers.
     rbind (opt_field (pev_has_op_id p) (op_id_from_key W (pev_op_id_key p))) (\<lambda>opid.
     Inr \<lparr>ev_slot = slot,
          ev_index_in_slot = pev_index_in_slot p,
          ev_data = pev_data p,
          ev_emitter_addrs = emitters,
          ev_caller_addrs = callers,
          ev_status = slot_status_from_pb (pev_status p),
          ev_op_id = opid\<rparr>)))))"

section \<open>Transfers\<close>

fun transfer_value_to_pb :: "transfer_value \<Rightarrow> transfer_value_pb option" where
  "transfer_value_to_pb (Coins n) = Some (PbCoins n)"
| "transfer_value_to_pb (Rolls n) = Some (PbRolls n)"
| "transfer_value_to_pb (DeferredCredits n) = Some (PbDeferredCredits n)"
| "transfer_value_to_pb ValueUnknown = Some PbValueUnknown"

fun transfer_value_from_pb :: "transfer_value_pb option \<Rightarrow> transfer_value" where
  "transfer_value_from_pb (Some (PbCoins n)) = Coins n"
| "transfer_value_from_pb (Some (PbRolls n)) = Rolls n"
| "transfer_value_from_pb (Some (PbDeferredCredits n)) = DeferredCredits n"
| "transfer_value_from_pb (Some PbValueUnknown) = ValueUnknown"
| "transfer_value_from_pb None = ValueUnknown"

text \<open>The variants of \<open>CoinOriginKindPb\<close>, in the order of their numbers.\<close>

definition coin_origin_kinds :: "coin_origin list" where
  "coin_origin_kinds =
     [Unspecified, BlockReward, DeferredCallFail, DeferredCallCancel,
      DeferredCallCoins, DeferredCallRegister, DeferredCallStorageRefund, EndorsementReward,
      EndorsedReward, Slash, OpRollBuy, OpRollSell,
      OpCallscCoins, ReadOnlyFnCallFees, ReadOnlyFnCallCoins, ReadOnlyBytecodeExecFees,
      SetBytecodeStorage, AbiCallCoins, AbiTransferCoins, AbiTransferForCoins,
      AbiSendMsgCoins, AbiSendMsgFees, OpRollSellDeferredMas, OpExecutescFees,
      OpTransactionCoins, OpTransactionFees, AsyncMsgCoins, AsyncMsgCancel,
      CreateScStorage, DatastoreStorage, DeferredCredit]"

fun coin_origin_kind :: "coin_origin \<Rightarrow> i32" where
  "coin_origin_kind Unspecified = 0"
| "coin_origin_kind BlockReward = 1"
| "coin_origin_kind DeferredCallFail = 2"
| "coin_origin_kind DeferredCallCancel = 3"
| "coin_origin_kind DeferredCallCoins = 4"
| "coin_origin_kind DeferredCallRegister = 5"
| "coin_origin_kind DeferredCallStorageRefund = 6"
| "coin_origin_kind EndorsementReward = 7"
| "coin_origin_kind EndorsedReward = 8"
| "coin_origin_kind Slash = 9"
| "coin_origin_kind OpRollBuy = 10"
| "coin_origin_kind OpRollSell = 11"
| "coin_origin_kind OpCallscCoins = 12"
| "coin_origin_kind ReadOnlyFnCallFees = 13"
| "coin_origin_kind ReadOnlyFnCallCoins = 14"
| "coin_origin_kind ReadOnlyBytecodeExecFees = 15"
| "coin_origin_kind SetBytecodeStorage = 16"
| "coin_origin_kind AbiCallCoins = 17"
| "coin_origin_kind AbiTransferCoins = 18"
| "coin_origin_kind AbiTransferForCoins = 19"
| "coin_origin_kind AbiSendMsgCoins = 20"
| "coin_origin_kind AbiSendMsgFees = 21"
| "coin_origin_kind OpRollSellDeferredMas = 22"
| "coin_origin_kind OpExecutescFees = 23"
| "coin_origin_kind OpTransactionCoins = 24"
| "coin_origin_kind OpTransactionFees = 25"
| "coin_origin_kind AsyncMsgCoins = 26"
| "coin_origin_kind AsyncMsgCancel = 27"
| "coin_origin_kind CreateScStorage = 28"
| "coin_origin_kind DatastoreStorage = 29"
| "coin_origin_kind DeferredCredit = 30"
| "coin_origin_kind (OtherOrigin c) = 0"

definition coin_origin_to_pb :: "coin_origin \<Rightarrow> coin_origin_pb" where
  "coin_origin_to_pb o1 =
     \<lparr>pco_kind = coin_origin_kind o1,
      pco_other_code = (case o1 of OtherOrigin code \<Rightarrow> code | _ \<Rightarrow> 0)\<rparr>"

definition coin_origin_of_kind :: "i32 \<Rightarrow> coin_origin option" where
  "coin_origin_of_kind k =
     (if unat k < length coin_origin_kinds then Some (coin_origin_kinds ! unat k) else None)"

definition coin_origin_from_pb :: "coin_origin_pb \<Rightarrow> coin_origin" where
  "coin_origin_from_pb p =
     (let k = unwrap_or Unspecified (coin_origin_of_kind (pco_kind p))
      in if k = Unspecified \<and> pco_other_code p \<noteq> 0 then OtherOrigin (pco_other_code p) else k)"

definition encode_transfer :: "('v, 'x) wires_scheme \<Rightarrow> stored_transfer \<Rightarrow> 'v" where
  "encode_transfer W t = w_enc (wr_transfer W)
     \<lparr>ptr_slot = Some (slot_to_pb (tr_slot t)),
      ptr_index_in_slot = tr_index_in_slot t,
      ptr_id = tr_id t,
      ptr_block_id = unwrap_or [] (tr_block_id t),
      ptr_has_block_id = is_some (tr_block_id t),
      ptr_block_timestamp_ms = tr_block_timestamp_ms t,
      ptr_from = unwrap_or [] (tr_from t),
      ptr_has_from = is_some (tr_from t),
      ptr_to = unwrap_or [] (tr_to t),
      ptr_has_to = is_some (tr_to t),
      ptr_value = Some (transfer_value_to_pb (tr_value t)),
      ptr_origin = Some (coin_origin_to_pb (tr_origin t)),
      ptr_operation_id = unwrap_or [] (tr_operation_id t),
      ptr_has_operation_id = is_some (tr_operation_id t),
      ptr_async_msg_id = unwrap_or [] (tr_async_msg_id t),
      ptr_has_async_msg_id = is_some (tr_async_msg_id t),
      ptr_deferred_call_id = unwrap_or [] (tr_deferred_call_id t),
      ptr_has_deferred_call_id = is_some (tr_deferred_call_id t),
      ptr_denunciation_index = unwrap_or [] (tr_denunciation_index t),
      ptr_has_denunciation_index = is_some (tr_denunciation_index t),
      ptr_is_final = tr_is_final t,
      ptr_first_seen_ts_ms = tr_first_seen_ts_ms t\<rparr>"

definition decode_transfer :: "('v, 'x) wires_scheme \<Rightarrow> 'v \<Rightarrow> codec_error + stored_transfer" where
  "decode_transfer W v =
     rbind (decode_with (wr_transfer W) v) (\<lambda>p.
     rbind (slot_from_opt (ptr_slot p)) (\<lambda>slot.
     Inr \<lparr>tr_slot = slot,
          tr_index_in_slot = ptr_index_in_slot p,
          tr_id = ptr_id p,
          tr_block_id = then_some (ptr_has_block_id p) (ptr_block_id p),
          tr_block_timestamp_ms = ptr_block_timestamp_ms p,
          tr_from = then_some (ptr_has_from p) (ptr_from p),
          tr_to = then_some (ptr_has_to p) (ptr_to p),
          tr_value = transfer_value_from_pb (unwrap_or None (ptr_value p)),
          tr_origin =
            coin_origin_from_pb (unwrap_or \<lparr>pco_kind = 0, pco_other_code = 0\<rparr> (ptr_origin p)),
          tr_operation_id = then_some (ptr_has_operation_id p) (ptr_operation_id p),
          tr_async_msg_id = then_some (ptr_has_async_msg_id p) (ptr_async_msg_id p),
          tr_deferred_call_id = then_some (ptr_has_deferred_call_id p) (ptr_deferred_call_id p),
          tr_denunciation_index =
            then_some (ptr_has_denunciation_index p) (ptr_denunciation_index p),
          tr_is_final = ptr_is_final p,
          tr_first_seen_ts_ms = ptr_first_seen_ts_ms p\<rparr>))"

section \<open>Async messages and deferred calls\<close>

fun async_state_to_pb :: "async_msg_state \<Rightarrow> i32" where
  "async_state_to_pb Pending = 0"
| "async_state_to_pb AsyncExecuted = 1"
| "async_state_to_pb AsyncCancelled = 2"
| "async_state_to_pb Consumed = 3"

definition async_state_from_pb :: "i32 \<Rightarrow> async_msg_state" where
  "async_state_from_pb i =
     (if i = 1 then AsyncExecuted else if i = 2 then AsyncCancelled
      else if i = 3 then Consumed else Pending)"

fun deferred_state_to_pb :: "deferred_call_state \<Rightarrow> i32" where
  "deferred_state_to_pb Registered = 0"
| "deferred_state_to_pb CallExecuted = 1"
| "deferred_state_to_pb CallFailed = 2"
| "deferred_state_to_pb CallCancelled = 3"

definition deferred_state_from_pb :: "i32 \<Rightarrow> deferred_call_state" where
  "deferred_state_from_pb i =
     (if i = 1 then CallExecuted else if i = 2 then CallFailed
      else if i = 3 then CallCancelled else Registered)"

definition trigger_to_pb :: "async_trigger \<Rightarrow> async_trigger_pb" where
  "trigger_to_pb t =
     \<lparr>pat_address = at_address t,
      pat_datastore_key_hex = unwrap_or [] (at_datastore_key_hex t),
      pat_has_datastore_key = is_some (at_datastore_key_hex t)\<rparr>"

definition trigger_from_pb :: "async_trigger_pb \<Rightarrow> async_trigger" where
  "trigger_from_pb p =
     \<lparr>at_address = pat_address p,
      at_datastore_key_hex = then_some (pat_has_datastore_key p) (pat_datastore_key_hex p)\<rparr>"

definition encode_async_msg :: "('v, 'x) wires_scheme \<Rightarrow> stored_async_msg \<Rightarrow> 'v" where
  "encode_async_msg W m = w_enc (wr_async_msg W)
     \<lparr>pam_id = am_id m,
      pam_sender_key = unwrap_or [] (map_option addr_key (am_sender m)),
      pam_has_sender = is_some (am_sender m),
      pam_destination_key = unwrap_or [] (map_option addr_key (am_destination m)),
      pam_has_destination = is_some (am_destination m),
      pam_handler = unwrap_or [] (am_handler m),
      pam_has_handler = is_some (am_handler m),
      pam_coins_nmas = am_coins_nmas m,
      pam_max_gas = am_max_gas m,
      pam_fee_nmas = am_fee_nmas m,
      pam_emission_slot = map_option slot_to_pb (am_emission_slot m),
      pam_has_emission_slot = is_some (am_emission_slot m),
      pam_validity_start = map_option slot_to_pb (am_validity_start m),
      pam_has_validity_start = is_some (am_validity_start m),
      pam_validity_end = map_option slot_to_pb (am_validity_end m),
      pam_has_validity_end = is_some (am_validity_end m),
      pam_state = async_state_to_pb (am_state m),
      pam_last_slot = map_option slot_to_pb (am_last_slot m),
      pam_has_last_slot = is_some (am_last_slot m),
      pam_data_hex = unwrap_or [] (am_data_hex m),
      pam_has_data = is_some (am_data_hex m),
      pam_trigger = map_option trigger_to_pb (am_trigger m),
      pam_has_trigger = is_some (am_trigger m),
      pam_can_be_executed = am_can_be_executed m,
      pam_first_seen_ts_ms = am_first_seen_ts_ms m,
      pam_last_updated_ts_ms = am_last_updated_ts_ms m\<rparr>"

definition trigger_default :: async_trigger where
  "trigger_default = \<lparr>at_address = [], at_datastore_key_hex = None\<rparr>"

definition decode_async_msg :: "('v, 'x) wires_scheme \<Rightarrow> 'v \<Rightarrow> codec_error + stored_async_msg" where
  "decode_async_msg W v =
     rbind (decode_with (wr_async_msg W) v) (\<lambda>p.
     rbind (opt_field (pam_has_sender p) (address_from_key W (pam_sender_key p))) (\<lambda>sender.
     rbind (opt_field (pam_has_destination p)
              (address_from_key W (pam_destination_key p))) (\<lambda>destination.
     rbind (opt_field (pam_has_emission_slot p) (slot_from_opt (pam_emission_slot p))) (\<lambda>emission.
     rbind (opt_field (pam_has_validity_start p) (slot_from_opt (pam_validity_start p))) (\<lambda>vstart.
     rbind (opt_field (pam_has_validity_end p) (slot_from_opt (pam_validity_end p))) (\<lambda>vend.
     rbind (opt_field (pam_has_last_slot p) (slot_from_opt (pam_last_slot p))) (\<lambda>last.
     Inr \<lparr>am_id = pam_id p,
          am_sender = sender,
          am_destination = destination,
          am_handler = then_some (pam_has_handler p) (pam_handler p),
          am_coins_nmas = pam_coins_nmas p,
          am_max_gas = pam_max_gas p,
          am_fee_nmas = pam_fee_nmas p,
          am_emission_slot = emission,
          am_validity_start = vstart,
          am_validity_end = vend,
          am_state = async_state_from_pb (pam_state p),
          am_last_slot = last,
          am_data_hex = then_some (pam_has_data p) (pam_data_hex p),
          am_trigger =
            then_some (pam_has_trigger p)
              (unwrap_or trigger_default (map_option trigger_from_pb (pam_trigger p))),
          am_can_be_executed = pam_can_be_executed p,
          am_first_seen_ts_ms = pam_first_seen_ts_ms p,
          am_last_updated_ts_ms = pam_last_updated_ts_ms p\<rparr>)))))))"

definition encode_deferred_call :: "('v, 'x) wires_scheme \<Rightarrow> stored_deferred_call \<Rightarrow> 'v" where
  "encode_deferred_call W d = w_enc (wr_deferred_call W)
     \<lparr>pdc_id = dc_id d,
      pdc_sender_key = unwrap_or [] (map_option addr_key (dc_sender d)),
      pdc_has_sender = is_some (dc_sender d),
      pdc_target_address_key = unwrap_or [] (map_option addr_key (dc_target_address d)),
      pdc_has_target_address = is_some (dc_target_address d),
      pdc_target_function = unwrap_or [] (dc_target_function d),
      pdc_has_target_function = is_some (dc_target_function d),
      pdc_parameter_hex = unwrap_or [] (dc_parameter_hex d),
      pdc_has_parameter_hex = is_some (dc_parameter_hex d),
      pdc_coins_nmas = dc_coins_nmas d,
      pdc_max_gas = dc_max_gas d,
      pdc_target_slot = map_option slot_to_pb (dc_target_slot d),
      pdc_has_target_slot = is_some (dc_target_slot d),
      pdc_registered_slot = map_option slot_to_pb (dc_registered_slot d),
      pdc_has_registered_slot = is_some (dc_registered_slot d),
      pdc_state = deferred_state_to_pb (dc_state d),
      pdc_last_slot = map_option slot_to_pb (dc_last_slot d),
      pdc_has_last_slot = is_some (dc_last_slot d),
      pdc_first_seen_ts_ms = dc_first_seen_ts_ms d,
      pdc_last_updated_ts_ms = dc_last_updated_ts_ms d\<rparr>"

definition decode_deferred_call ::
  "('v, 'x) wires_scheme \<Rightarrow> 'v \<Rightarrow> codec_error + stored_deferred_call" where
  "decode_deferred_call W v =
     rbind (decode_with (wr_deferred_call W) v) (\<lambda>p.
     rbind (opt_field (pdc_has_sender p) (address_from_key W (pdc_sender_key p))) (\<lambda>sender.
     rbind (opt_field (pdc_has_target_address p)
              (address_from_key W (pdc_target_address_key p))) (\<lambda>target.
     rbind (opt_field (pdc_has_target_slot p) (slot_from_opt (pdc_target_slot p))) (\<lambda>tslot.
     rbind (opt_field (pdc_has_registered_slot p)
              (slot_from_opt (pdc_registered_slot p))) (\<lambda>rslot.
     rbind (opt_field (pdc_has_last_slot p) (slot_from_opt (pdc_last_slot p))) (\<lambda>last.
     Inr \<lparr>dc_id = pdc_id p,
          dc_sender = sender,
          dc_target_address = target,
          dc_target_function = then_some (pdc_has_target_function p) (pdc_target_function p),
          dc_parameter_hex = then_some (pdc_has_parameter_hex p) (pdc_parameter_hex p),
          dc_coins_nmas = pdc_coins_nmas p,
          dc_max_gas = pdc_max_gas p,
          dc_target_slot = tslot,
          dc_registered_slot = rslot,
          dc_state = deferred_state_from_pb (pdc_state p),
          dc_last_slot = last,
          dc_first_seen_ts_ms = pdc_first_seen_ts_ms p,
          dc_last_updated_ts_ms = pdc_last_updated_ts_ms p\<rparr>))))))"

section \<open>Peer wire conversions\<close>

text \<open>
  The rows without a conversion of their own go through bytes.  \<open>None\<close> is the panic of
  \<open>expect\<close>.
\<close>

definition operation_to_peer_pb ::
  "('v, 'x) wires_scheme \<Rightarrow> stored_operation \<Rightarrow> codec_error + stored_operation_pb" where
  "operation_to_peer_pb W o1 = rbind (encode_operation W o1) (decode_with (wr_operation W))"

definition operation_from_peer_pb ::
  "('v, 'x) wires_scheme \<Rightarrow> stored_operation_pb \<Rightarrow> codec_error + stored_operation" where
  "operation_from_peer_pb W p = decode_operation W (w_enc (wr_operation W) p)"

definition endorsement_to_peer_pb ::
  "'x crates_scheme \<Rightarrow> stored_endorsement \<Rightarrow> codec_error + stored_endorsement_pb" where
  "endorsement_to_peer_pb C e = endorsement_to_pb C e"

definition endorsement_from_peer_pb ::
  "'x crates_scheme \<Rightarrow> stored_endorsement_pb \<Rightarrow> codec_error + stored_endorsement" where
  "endorsement_from_peer_pb C p = endorsement_from_pb C p"

definition sc_event_to_peer_pb ::
  "('v, 'x) wires_scheme \<Rightarrow> stored_sc_event \<Rightarrow> codec_error + stored_sc_event_pb" where
  "sc_event_to_peer_pb W e = rbind (encode_sc_event W e) (decode_with (wr_sc_event W))"

definition sc_event_from_peer_pb ::
  "('v, 'x) wires_scheme \<Rightarrow> stored_sc_event_pb \<Rightarrow> codec_error + stored_sc_event" where
  "sc_event_from_peer_pb W p = decode_sc_event W (w_enc (wr_sc_event W) p)"

definition transfer_to_peer_pb ::
  "('v, 'x) wires_scheme \<Rightarrow> stored_transfer \<Rightarrow> stored_transfer_pb option" where
  "transfer_to_peer_pb W t = w_dec (wr_transfer W) (encode_transfer W t)"

definition transfer_from_peer_pb ::
  "('v, 'x) wires_scheme \<Rightarrow> stored_transfer_pb \<Rightarrow> codec_error + stored_transfer" where
  "transfer_from_peer_pb W p = decode_transfer W (w_enc (wr_transfer W) p)"

definition async_msg_to_peer_pb ::
  "('v, 'x) wires_scheme \<Rightarrow> stored_async_msg \<Rightarrow> stored_async_msg_pb option" where
  "async_msg_to_peer_pb W m = w_dec (wr_async_msg W) (encode_async_msg W m)"

definition async_msg_from_peer_pb ::
  "('v, 'x) wires_scheme \<Rightarrow> stored_async_msg_pb \<Rightarrow> codec_error + stored_async_msg" where
  "async_msg_from_peer_pb W p = decode_async_msg W (w_enc (wr_async_msg W) p)"

definition deferred_call_to_peer_pb ::
  "('v, 'x) wires_scheme \<Rightarrow> stored_deferred_call \<Rightarrow> stored_deferred_call_pb option" where
  "deferred_call_to_peer_pb W d = w_dec (wr_deferred_call W) (encode_deferred_call W d)"

definition deferred_call_from_peer_pb ::
  "('v, 'x) wires_scheme \<Rightarrow> stored_deferred_call_pb \<Rightarrow> codec_error + stored_deferred_call" where
  "deferred_call_from_peer_pb W p = decode_deferred_call W (w_enc (wr_deferred_call W) p)"

end
