(* ===== verification/Keys.thy ===== *)
theory Keys
  imports Ids
begin

text \<open>
  RocksDB key assembly (\<open>keys.rs\<close>).  Every builder is the concatenation of fixed-width
  slices, in the order of the code; every parser is a length test and the same slices.
  Fixed-size arrays are byte lists of that length.  The \<open>debug_assert\<close>s of the builders
  are not part of a release build; the lengths they state are hypotheses where they
  matter.

  The lemmas give, for each layout, that the parser inverts the builder, that the bytewise
  order of the keys is the slot order (oldest first for \<open>slot_key\<close>, newest first for
  \<open>rslot_key\<close>), and when one key lies under the prefix of an address or id.
\<close>

section \<open>Slot keys\<close>

definition SLOT_KEY_LEN :: nat where "SLOT_KEY_LEN = 9"
definition DENUNCIATION_HASH_LEN :: nat where "DENUNCIATION_HASH_LEN = 32"
definition INDEX_IN_SLOT_LEN :: nat where "INDEX_IN_SLOT_LEN = 4"

lemmas len_defs = SLOT_KEY_LEN_def DENUNCIATION_HASH_LEN_def INDEX_IN_SLOT_LEN_def
  ID_KEY_LEN_def ADDR_KEY_LEN_def

definition slot_key :: "u64 \<Rightarrow> u8 \<Rightarrow> bytes" where
  "slot_key period thread = be 8 (unat period) @ [thread]"

definition decode_slot_key :: "bytes \<Rightarrow> (u64 \<times> u8) option" where
  "decode_slot_key b =
     (if length b \<noteq> SLOT_KEY_LEN then None
      else Some (word_of_nat (of_be (take 8 b)), b ! 8))"

definition rslot_key :: "u64 \<Rightarrow> u8 \<Rightarrow> bytes" where
  "rslot_key period thread = inv_bytes (slot_key period thread)"

definition decode_rslot_key :: "bytes \<Rightarrow> (u64 \<times> u8) option" where
  "decode_rslot_key b =
     (if length b \<noteq> SLOT_KEY_LEN then None
      else (let buf = inv_bytes b in Some (word_of_nat (of_be (take 8 buf)), buf ! 8)))"

section \<open>Per-slot primary keys: SC events and transfers\<close>

definition SLOT_INDEXED_KEY_LEN :: nat where
  "SLOT_INDEXED_KEY_LEN = SLOT_KEY_LEN + INDEX_IN_SLOT_LEN"

definition u32_be :: "u32 \<Rightarrow> bytes" where
  "u32_be i = be 4 (unat i)"

definition u32_of_be :: "bytes \<Rightarrow> u32" where
  "u32_of_be b = word_of_nat (of_be b)"

definition sc_event_key :: "u64 \<Rightarrow> u8 \<Rightarrow> u32 \<Rightarrow> bytes" where
  "sc_event_key period thread index_in_slot = slot_key period thread @ u32_be index_in_slot"

definition transfer_key :: "u64 \<Rightarrow> u8 \<Rightarrow> u32 \<Rightarrow> bytes" where
  "transfer_key period thread index_in_slot = sc_event_key period thread index_in_slot"

definition decode_slot_indexed_key :: "bytes \<Rightarrow> (u64 \<times> u8 \<times> u32) option" where
  "decode_slot_indexed_key b =
     (if length b \<noteq> SLOT_INDEXED_KEY_LEN then None
      else (case decode_slot_key (take SLOT_KEY_LEN b) of
              None \<Rightarrow> None
            | Some (p, t) \<Rightarrow> Some (p, t, u32_of_be (drop SLOT_KEY_LEN b))))"

section \<open>Address-indexed keys: \<open>addr \<parallel> rslot \<parallel> id\<close>\<close>

definition IDX_ADDR_SLOT_ID_LEN :: nat where
  "IDX_ADDR_SLOT_ID_LEN = ADDR_KEY_LEN + SLOT_KEY_LEN + ID_KEY_LEN"

definition idx_addr_slot_id :: "bytes \<Rightarrow> u64 \<Rightarrow> u8 \<Rightarrow> bytes \<Rightarrow> bytes" where
  "idx_addr_slot_id addr period thread ident = addr @ rslot_key period thread @ ident"

definition idx_block_by_creator :: "bytes \<Rightarrow> u64 \<Rightarrow> u8 \<Rightarrow> bytes \<Rightarrow> bytes" where
  "idx_block_by_creator creator period thread block_id =
     idx_addr_slot_id creator period thread block_id"

definition idx_op_by_creator :: "bytes \<Rightarrow> u64 \<Rightarrow> u8 \<Rightarrow> bytes \<Rightarrow> bytes" where
  "idx_op_by_creator creator period thread op_id = idx_addr_slot_id creator period thread op_id"

definition idx_op_by_target :: "bytes \<Rightarrow> u64 \<Rightarrow> u8 \<Rightarrow> bytes \<Rightarrow> bytes" where
  "idx_op_by_target target period thread op_id = idx_addr_slot_id target period thread op_id"

definition idx_endorsement_by_creator :: "bytes \<Rightarrow> u64 \<Rightarrow> u8 \<Rightarrow> bytes \<Rightarrow> bytes" where
  "idx_endorsement_by_creator creator period thread endorsement_id =
     idx_addr_slot_id creator period thread endorsement_id"

definition parse_idx_addr_slot_id :: "bytes \<Rightarrow> (u64 \<times> u8 \<times> bytes) option" where
  "parse_idx_addr_slot_id key =
     (if length key \<noteq> IDX_ADDR_SLOT_ID_LEN then None
      else (case decode_rslot_key (take SLOT_KEY_LEN (drop ADDR_KEY_LEN key)) of
              None \<Rightarrow> None
            | Some (p, t) \<Rightarrow> Some (p, t, drop (ADDR_KEY_LEN + SLOT_KEY_LEN) key)))"

section \<open>Transfer and event indexes\<close>

definition TRANSFER_TAG_FROM :: u8 where "TRANSFER_TAG_FROM = 1"
definition TRANSFER_TAG_TO :: u8 where "TRANSFER_TAG_TO = 2"

definition IDX_TRANSFER_BY_ADDR_LEN :: nat where
  "IDX_TRANSFER_BY_ADDR_LEN = ADDR_KEY_LEN + SLOT_KEY_LEN + INDEX_IN_SLOT_LEN + 1"

definition idx_transfer_by_addr :: "bytes \<Rightarrow> u64 \<Rightarrow> u8 \<Rightarrow> u32 \<Rightarrow> u8 \<Rightarrow> bytes" where
  "idx_transfer_by_addr addr period thread index_in_slot tag =
     addr @ rslot_key period thread @ u32_be index_in_slot @ [tag]"

definition parse_idx_transfer_by_addr :: "bytes \<Rightarrow> (u64 \<times> u8 \<times> u32 \<times> u8) option" where
  "parse_idx_transfer_by_addr key =
     (if length key \<noteq> IDX_TRANSFER_BY_ADDR_LEN then None
      else (case decode_rslot_key (take SLOT_KEY_LEN (drop ADDR_KEY_LEN key)) of
              None \<Rightarrow> None
            | Some (p, t) \<Rightarrow>
                Some (p, t,
                  u32_of_be (take INDEX_IN_SLOT_LEN (drop (ADDR_KEY_LEN + SLOT_KEY_LEN) key)),
                  key ! (IDX_TRANSFER_BY_ADDR_LEN - 1))))"

definition IDX_ID_SLOT_INDEX_LEN :: nat where
  "IDX_ID_SLOT_INDEX_LEN = ID_KEY_LEN + SLOT_KEY_LEN + INDEX_IN_SLOT_LEN"

definition idx_id_slot_index :: "bytes \<Rightarrow> u64 \<Rightarrow> u8 \<Rightarrow> u32 \<Rightarrow> bytes" where
  "idx_id_slot_index ident period thread index = ident @ rslot_key period thread @ u32_be index"

definition idx_transfer_by_op :: "bytes \<Rightarrow> u64 \<Rightarrow> u8 \<Rightarrow> u32 \<Rightarrow> bytes" where
  "idx_transfer_by_op op_id period thread index_in_slot =
     idx_id_slot_index op_id period thread index_in_slot"

definition idx_transfer_by_block :: "bytes \<Rightarrow> u64 \<Rightarrow> u8 \<Rightarrow> u32 \<Rightarrow> bytes" where
  "idx_transfer_by_block block_id period thread index_in_slot =
     idx_id_slot_index block_id period thread index_in_slot"

definition parse_idx_id_slot_index :: "bytes \<Rightarrow> (u64 \<times> u8 \<times> u32) option" where
  "parse_idx_id_slot_index key =
     (if length key \<noteq> IDX_ID_SLOT_INDEX_LEN then None
      else (case decode_rslot_key (take SLOT_KEY_LEN (drop ID_KEY_LEN key)) of
              None \<Rightarrow> None
            | Some (p, t) \<Rightarrow> Some (p, t, u32_of_be (drop (ID_KEY_LEN + SLOT_KEY_LEN) key))))"

definition idx_event_by_addr :: "bytes \<Rightarrow> u64 \<Rightarrow> u8 \<Rightarrow> u32 \<Rightarrow> bytes" where
  "idx_event_by_addr addr period thread index = addr @ rslot_key period thread @ u32_be index"

definition idx_event_by_op :: "bytes \<Rightarrow> u64 \<Rightarrow> u8 \<Rightarrow> u32 \<Rightarrow> bytes" where
  "idx_event_by_op op_id period thread index = idx_id_slot_index op_id period thread index"

definition parse_idx_event :: "bytes \<Rightarrow> (u64 \<times> u8 \<times> u32) option" where
  "parse_idx_event key =
     (if length key < SLOT_KEY_LEN + INDEX_IN_SLOT_LEN then None
      else (case decode_rslot_key
                   (take SLOT_KEY_LEN (drop (length key - SLOT_KEY_LEN - INDEX_IN_SLOT_LEN) key)) of
              None \<Rightarrow> None
            | Some (p, t) \<Rightarrow>
                Some (p, t, u32_of_be (drop (length key - INDEX_IN_SLOT_LEN) key))))"

section \<open>Denunciation indexes\<close>

definition IDX_DENUNCIATION_BY_ADDR_LEN :: nat where
  "IDX_DENUNCIATION_BY_ADDR_LEN = ADDR_KEY_LEN + SLOT_KEY_LEN + DENUNCIATION_HASH_LEN"

definition idx_denunciation_by_addr :: "bytes \<Rightarrow> u64 \<Rightarrow> u8 \<Rightarrow> bytes \<Rightarrow> bytes" where
  "idx_denunciation_by_addr addr period thread hash = addr @ rslot_key period thread @ hash"

definition parse_idx_denunciation_by_addr :: "bytes \<Rightarrow> (u64 \<times> u8 \<times> bytes) option" where
  "parse_idx_denunciation_by_addr key =
     (if length key \<noteq> IDX_DENUNCIATION_BY_ADDR_LEN then None
      else (case decode_rslot_key (take SLOT_KEY_LEN (drop ADDR_KEY_LEN key)) of
              None \<Rightarrow> None
            | Some (p, t) \<Rightarrow> Some (p, t, drop (ADDR_KEY_LEN + SLOT_KEY_LEN) key)))"

definition IDX_DENUNCIATION_RECENT_LEN :: nat where
  "IDX_DENUNCIATION_RECENT_LEN = SLOT_KEY_LEN + DENUNCIATION_HASH_LEN"

definition idx_denunciation_recent :: "u64 \<Rightarrow> u8 \<Rightarrow> bytes \<Rightarrow> bytes" where
  "idx_denunciation_recent period thread hash = rslot_key period thread @ hash"

definition parse_idx_denunciation_recent :: "bytes \<Rightarrow> (u64 \<times> u8 \<times> bytes) option" where
  "parse_idx_denunciation_recent key =
     (if length key \<noteq> IDX_DENUNCIATION_RECENT_LEN then None
      else (case decode_rslot_key (take SLOT_KEY_LEN key) of
              None \<Rightarrow> None
            | Some (p, t) \<Rightarrow> Some (p, t, drop SLOT_KEY_LEN key)))"

section \<open>Async-pool and deferred-call indexes\<close>

definition idx_async_by_addr :: "bytes \<Rightarrow> bytes \<Rightarrow> bytes" where
  "idx_async_by_addr addr msg_id = addr @ [0] @ msg_id"

definition idx_by_rslot_id :: "u64 \<Rightarrow> u8 \<Rightarrow> bytes \<Rightarrow> bytes" where
  "idx_by_rslot_id period thread id_bytes = rslot_key period thread @ id_bytes"

definition idx_by_rslot_prefix :: "u64 \<Rightarrow> u8 \<Rightarrow> bytes" where
  "idx_by_rslot_prefix period thread = rslot_key period thread"

definition parse_idx_by_rslot_id :: "bytes \<Rightarrow> (u64 \<times> u8 \<times> bytes) option" where
  "parse_idx_by_rslot_id key =
     (if length key < SLOT_KEY_LEN then None
      else (case decode_rslot_key (take SLOT_KEY_LEN key) of
              None \<Rightarrow> None
            | Some (p, t) \<Rightarrow> Some (p, t, drop SLOT_KEY_LEN key)))"

section \<open>Lengths and round trips\<close>

lemma length_slot_key [simp, key_simps]: "length (slot_key p t) = 9"
  by (simp add: slot_key_def)

lemma length_rslot_key [simp, key_simps]: "length (rslot_key p t) = 9"
  by (simp add: rslot_key_def)

lemma length_u32_be [simp, key_simps]: "length (u32_be i) = 4"
  by (simp add: u32_be_def)

lemma u64_round [simp]: "(word_of_nat (of_be (be 8 (unat (p :: u64)))) :: u64) = p"
  using unat_u64 [of p] by (simp add: of_be_be)

lemma u32_round [simp, key_simps]: "u32_of_be (u32_be i) = i"
  using unat_u32 [of i] by (simp add: u32_of_be_def u32_be_def of_be_be)

lemma decode_slot_key_slot_key [simp, key_simps]: "decode_slot_key (slot_key p t) = Some (p, t)"
  by (simp add: decode_slot_key_def slot_key_def len_defs nth_append)

lemma decode_rslot_key_rslot_key [simp, key_simps]:
  "decode_rslot_key (rslot_key p t) = Some (p, t)"
  by (simp add: decode_rslot_key_def rslot_key_def slot_key_def len_defs nth_append)

lemma slot_key_inj [simp]: "slot_key p t = slot_key p' t' \<longleftrightarrow> p = p' \<and> t = t'"
  by (metis decode_slot_key_slot_key option.inject prod.inject)

lemma rslot_key_inj [simp]: "rslot_key p t = rslot_key p' t' \<longleftrightarrow> p = p' \<and> t = t'"
  by (simp add: rslot_key_def)

lemma u32_be_inj [simp]: "u32_be i = u32_be j \<longleftrightarrow> i = j"
  by (metis u32_round)

lemma decode_slot_indexed_key_round [simp, key_simps]:
  "decode_slot_indexed_key (sc_event_key p t i) = Some (p, t, i)"
  by (simp add: decode_slot_indexed_key_def sc_event_key_def SLOT_INDEXED_KEY_LEN_def len_defs)

lemma parse_idx_addr_slot_id_round [key_simps]:
  "length a = ADDR_KEY_LEN \<Longrightarrow> length i = ID_KEY_LEN \<Longrightarrow>
   parse_idx_addr_slot_id (idx_addr_slot_id a p t i) = Some (p, t, i)"
  by (simp add: parse_idx_addr_slot_id_def idx_addr_slot_id_def IDX_ADDR_SLOT_ID_LEN_def len_defs)

lemma parse_idx_transfer_by_addr_round [key_simps]:
  "length a = ADDR_KEY_LEN \<Longrightarrow>
   parse_idx_transfer_by_addr (idx_transfer_by_addr a p t i tag) = Some (p, t, i, tag)"
  by (simp add: parse_idx_transfer_by_addr_def idx_transfer_by_addr_def
      IDX_TRANSFER_BY_ADDR_LEN_def len_defs nth_append)

lemma parse_idx_id_slot_index_round [key_simps]:
  "length a = ID_KEY_LEN \<Longrightarrow>
   parse_idx_id_slot_index (idx_id_slot_index a p t i) = Some (p, t, i)"
  by (simp add: parse_idx_id_slot_index_def idx_id_slot_index_def IDX_ID_SLOT_INDEX_LEN_def len_defs)

lemma parse_idx_event_round [key_simps]:
  "parse_idx_event (pre @ rslot_key p t @ u32_be i) = Some (p, t, i)"
  by (simp add: parse_idx_event_def len_defs)

lemma parse_idx_denunciation_by_addr_round [key_simps]:
  "length a = ADDR_KEY_LEN \<Longrightarrow> length h = DENUNCIATION_HASH_LEN \<Longrightarrow>
   parse_idx_denunciation_by_addr (idx_denunciation_by_addr a p t h) = Some (p, t, h)"
  by (simp add: parse_idx_denunciation_by_addr_def idx_denunciation_by_addr_def
      IDX_DENUNCIATION_BY_ADDR_LEN_def len_defs)

lemma parse_idx_denunciation_recent_round [key_simps]:
  "length h = DENUNCIATION_HASH_LEN \<Longrightarrow>
   parse_idx_denunciation_recent (idx_denunciation_recent p t h) = Some (p, t, h)"
  by (simp add: parse_idx_denunciation_recent_def idx_denunciation_recent_def
      IDX_DENUNCIATION_RECENT_LEN_def len_defs)

lemma parse_idx_by_rslot_id_round [key_simps]:
  "parse_idx_by_rslot_id (idx_by_rslot_id p t i) = Some (p, t, i)"
  by (simp add: parse_idx_by_rslot_id_def idx_by_rslot_id_def len_defs)

section \<open>Order\<close>

lemma be8_less: "be 8 (unat (p :: u64)) < be 8 (unat q) \<longleftrightarrow> p < q"
  by (simp only: be_less_iff [OF unat_u64 unat_u64] word_less_nat_alt)

lemma u32_be_less: "u32_be i < u32_be j \<longleftrightarrow> i < j"
  by (simp only: u32_be_def be_less_iff [OF unat_u32 unat_u32] word_less_nat_alt)

lemma be8_eq: "be 8 (unat (p :: u64)) = be 8 (unat q) \<longleftrightarrow> p = q"
  by (metis u64_round)

lemma slot_key_less: "slot_key p t < slot_key q u \<longleftrightarrow> p < q \<or> p = q \<and> t < u"
  by (simp add: slot_key_def append_less_append be8_less be8_eq)

lemma rslot_key_less: "rslot_key p t < rslot_key q u \<longleftrightarrow> q < p \<or> q = p \<and> u < t"
  by (simp add: rslot_key_def inv_bytes_less slot_key_less)

section \<open>The contract of a key layout\<close>

text \<open>
  A layout is a builder and its parser; \<open>fits\<close> says which components the builder is
  called with.  The store needs only that different rows get different keys.
\<close>

locale key_layout =
  fixes build :: "'a \<Rightarrow> bytes"
    and parse :: "bytes \<Rightarrow> 'a option"
    and fits :: "'a \<Rightarrow> bool"
  assumes parse_build: "fits x \<Longrightarrow> parse (build x) = Some x"
begin

lemma build_inj: "fits x \<Longrightarrow> fits y \<Longrightarrow> build x = build y \<Longrightarrow> x = y"
  by (metis option.inject parse_build)

lemma build_inj_on: "inj_on build {x. fits x}"
  by (rule inj_onI) (auto intro: build_inj)

end

text \<open>A layout whose keys the store iterates in the order \<open>before\<close>.\<close>

locale ordered_layout = key_layout +
  fixes before :: "'a \<Rightarrow> 'a \<Rightarrow> bool"
  assumes build_less: "fits x \<Longrightarrow> fits y \<Longrightarrow> build x < build y \<longleftrightarrow> before x y"
begin

lemma before_linear: "fits x \<Longrightarrow> fits y \<Longrightarrow> x \<noteq> y \<Longrightarrow> before x y \<or> before y x"
  using build_less [of x y] build_less [of y x] build_inj [of x y]
  by (metis linorder_less_linear)

lemma sorted_build:
  "(\<And>x. x \<in> set xs \<Longrightarrow> fits x) \<Longrightarrow>
   sorted_wrt (<) (map build xs) \<longleftrightarrow> sorted_wrt before xs"
  by (induction xs) (auto simp: build_less)

end

definition older :: "u64 \<times> u8 \<Rightarrow> u64 \<times> u8 \<Rightarrow> bool" where
  "older a b \<longleftrightarrow> fst a < fst b \<or> fst a = fst b \<and> snd a < snd b"

interpretation slot_layout: ordered_layout
    "\<lambda>(p, t). slot_key p t" decode_slot_key "\<lambda>_. True" older
  by unfold_locales (auto simp: slot_key_less older_def)

interpretation rslot_layout: ordered_layout
    "\<lambda>(p, t). rslot_key p t" decode_rslot_key "\<lambda>_. True" "\<lambda>a b. older b a"
  by unfold_locales (auto simp: rslot_key_less older_def)

interpretation event_layout: ordered_layout
    "\<lambda>(p, t, i). sc_event_key p t i" decode_slot_indexed_key "\<lambda>_. True"
    "\<lambda>(p, t, i) (q, u, j). older (p, t) (q, u) \<or> (p, t) = (q, u) \<and> i < j"
proof
  show "decode_slot_indexed_key (case x of (p, t, i) \<Rightarrow> sc_event_key p t i) = Some x" for x
    by (cases x) simp
qed (auto simp: sc_event_key_def append_less_append slot_key_less older_def u32_be_less)

interpretation transfer_layout: key_layout
    "\<lambda>(a, p, t, i, tag). idx_transfer_by_addr a p t i tag"
    "\<lambda>k. map_option (Pair (take ADDR_KEY_LEN k)) (parse_idx_transfer_by_addr k)"
    "\<lambda>(a, _). length a = ADDR_KEY_LEN"
  by unfold_locales
    (auto simp: parse_idx_transfer_by_addr_round, simp add: idx_transfer_by_addr_def)

interpretation addr_slot_id_layout: key_layout
    "\<lambda>(a, p, t, i). idx_addr_slot_id a p t i"
    "\<lambda>k. map_option (Pair (take ADDR_KEY_LEN k)) (parse_idx_addr_slot_id k)"
    "\<lambda>(a, p, t, i). length a = ADDR_KEY_LEN \<and> length i = ID_KEY_LEN"
  by unfold_locales
    (auto simp: parse_idx_addr_slot_id_round, simp add: idx_addr_slot_id_def)

interpretation id_slot_index_layout: key_layout
    "\<lambda>(a, p, t, i). idx_id_slot_index a p t i"
    "\<lambda>k. map_option (Pair (take ID_KEY_LEN k)) (parse_idx_id_slot_index k)"
    "\<lambda>(a, p, t, i). length a = ID_KEY_LEN"
  by unfold_locales
    (auto simp: parse_idx_id_slot_index_round, simp add: idx_id_slot_index_def)

interpretation rslot_id_layout: key_layout
    "\<lambda>(p, t, i). idx_by_rslot_id p t i" parse_idx_by_rslot_id "\<lambda>_. True"
  by unfold_locales (auto simp: parse_idx_by_rslot_id_round)

section \<open>Prefixes\<close>

definition starts_with :: "bytes \<Rightarrow> bytes \<Rightarrow> bool" where
  "starts_with key prefix \<longleftrightarrow> take (length prefix) key = prefix"

lemma starts_with_append [simp]:
  "length a = length b \<Longrightarrow> starts_with (a @ rest) b \<longleftrightarrow> a = b"
  by (simp add: starts_with_def)

lemma starts_with_slot [simp]:
  "starts_with (sc_event_key p t i) (slot_key q u) \<longleftrightarrow> p = q \<and> t = u"
  by (simp add: sc_event_key_def)

lemma starts_with_le: "starts_with key prefix \<Longrightarrow> prefix \<le> key"
  unfolding starts_with_def by (metis append_take_drop_id prefix_le)

text \<open>The keys under a prefix come first among the keys from the prefix on.\<close>

lemma starts_with_between:
  "p \<le> k \<Longrightarrow> k \<le> k' \<Longrightarrow> starts_with k' p \<Longrightarrow> starts_with k p"
proof (induction p arbitrary: k k')
  case Nil
  then show ?case by (simp add: starts_with_def)
next
  case (Cons b p)
  then obtain c l where k: "k = c # l"
    by (cases k) auto
  from Cons.prems(3) obtain l' where k': "k' = b # l'" "starts_with l' p"
    by (cases k') (auto simp: starts_with_def)
  have "b = c" "p \<le> l" "l \<le> l'"
    using Cons.prems(1,2) k k' by auto
  with Cons.IH [of l l'] k k' show ?case
    by (simp add: starts_with_def)
qed

end
