(* ===== verification/Store.thy ===== *)
theory Store
  imports Codec Keys
begin

text \<open>
  The key-value store under the database.  RocksDB is a parameter: point reads, atomic
  write batches and iterators over a column family, each of which may fail, on an
  abstract store state \<open>'s\<close>.  \<open>store_ok\<close> states its documented behaviour through the sorted rows
  \<open>R s cf\<close> a store state holds: a read that answers returns the row, a batch that succeeds is
  applied in order and one that fails changes nothing, and an iterator yields the rows of its range
  in order until it fails or ends.  \<open>healthy\<close> says that no call fails.

  A \<open>put_cf\<close> outside a batch is a batch of one write.
\<close>

section \<open>Column families\<close>

datatype cf =
    CF_META | CF_BLOCK | CF_OP | CF_SLOT | CF_SC_EVENT | CF_SLOT_CANDIDATE_BLOCK
  | CF_ENDORSEMENT | CF_TRANSFER | CF_DENUNCIATION
  | IDX_BLOCK_BY_CREATOR | IDX_OP_BY_CREATOR | IDX_OP_BY_TARGET | IDX_ENDORSEMENT_BY_CREATOR
  | IDX_TRANSFER_BY_ADDR | IDX_TRANSFER_BY_OP | IDX_TRANSFER_BY_BLOCK
  | IDX_DENUNCIATION_BY_ADDR | IDX_DENUNCIATION_RECENT
  | IDX_SC_EVENT_BY_EMITTER | IDX_SC_EVENT_BY_CALLER | IDX_SC_EVENT_BY_OP
  | CF_ASYNC_MSG | CF_DEFERRED_CALL
  | IDX_ASYNC_BY_SENDER | IDX_ASYNC_BY_DEST | IDX_ASYNC_BY_LAST_SLOT
  | IDX_DEFERRED_BY_SENDER | IDX_DEFERRED_BY_TARGET | IDX_DEFERRED_BY_LAST_SLOT
  | CF_PEER_STATE

fun cf_name :: "cf \<Rightarrow> string" where
  "cf_name CF_META = ''cf_meta''"
| "cf_name CF_BLOCK = ''cf_block''"
| "cf_name CF_OP = ''cf_op''"
| "cf_name CF_SLOT = ''cf_slot''"
| "cf_name CF_SC_EVENT = ''cf_sc_event''"
| "cf_name CF_SLOT_CANDIDATE_BLOCK = ''cf_slot_candidate_block''"
| "cf_name CF_ENDORSEMENT = ''cf_endorsement''"
| "cf_name CF_TRANSFER = ''cf_transfer''"
| "cf_name CF_DENUNCIATION = ''cf_denunciation''"
| "cf_name IDX_BLOCK_BY_CREATOR = ''idx_block_by_creator''"
| "cf_name IDX_OP_BY_CREATOR = ''idx_op_by_creator''"
| "cf_name IDX_OP_BY_TARGET = ''idx_op_by_target''"
| "cf_name IDX_ENDORSEMENT_BY_CREATOR = ''idx_endorsement_by_creator''"
| "cf_name IDX_TRANSFER_BY_ADDR = ''idx_transfer_by_addr''"
| "cf_name IDX_TRANSFER_BY_OP = ''idx_transfer_by_op''"
| "cf_name IDX_TRANSFER_BY_BLOCK = ''idx_transfer_by_block''"
| "cf_name IDX_DENUNCIATION_BY_ADDR = ''idx_denunciation_by_addr''"
| "cf_name IDX_DENUNCIATION_RECENT = ''idx_denunciation_recent''"
| "cf_name IDX_SC_EVENT_BY_EMITTER = ''idx_sc_event_by_emitter''"
| "cf_name IDX_SC_EVENT_BY_CALLER = ''idx_sc_event_by_caller''"
| "cf_name IDX_SC_EVENT_BY_OP = ''idx_sc_event_by_op''"
| "cf_name CF_ASYNC_MSG = ''cf_async_msg''"
| "cf_name CF_DEFERRED_CALL = ''cf_deferred_call''"
| "cf_name IDX_ASYNC_BY_SENDER = ''idx_async_by_sender''"
| "cf_name IDX_ASYNC_BY_DEST = ''idx_async_by_dest''"
| "cf_name IDX_ASYNC_BY_LAST_SLOT = ''idx_async_by_last_slot''"
| "cf_name IDX_DEFERRED_BY_SENDER = ''idx_deferred_by_sender''"
| "cf_name IDX_DEFERRED_BY_TARGET = ''idx_deferred_by_target''"
| "cf_name IDX_DEFERRED_BY_LAST_SLOT = ''idx_deferred_by_last_slot''"
| "cf_name CF_PEER_STATE = ''cf_peer_state''"

definition SECONDARY_INDEX_CFS :: "cf list" where
  "SECONDARY_INDEX_CFS =
     [IDX_BLOCK_BY_CREATOR, IDX_OP_BY_CREATOR, IDX_OP_BY_TARGET, IDX_ENDORSEMENT_BY_CREATOR,
      IDX_TRANSFER_BY_ADDR, IDX_TRANSFER_BY_OP, IDX_TRANSFER_BY_BLOCK,
      IDX_DENUNCIATION_BY_ADDR, IDX_DENUNCIATION_RECENT,
      IDX_SC_EVENT_BY_EMITTER, IDX_SC_EVENT_BY_CALLER, IDX_SC_EVENT_BY_OP,
      IDX_ASYNC_BY_SENDER, IDX_ASYNC_BY_DEST, IDX_ASYNC_BY_LAST_SLOT,
      IDX_DEFERRED_BY_SENDER, IDX_DEFERRED_BY_TARGET, IDX_DEFERRED_BY_LAST_SLOT]"

definition ALL_CFS :: "cf list" where
  "ALL_CFS =
     [CF_META, CF_BLOCK, CF_OP, CF_SLOT, CF_SC_EVENT, CF_SLOT_CANDIDATE_BLOCK, CF_ENDORSEMENT,
      CF_TRANSFER, CF_DENUNCIATION,
      IDX_BLOCK_BY_CREATOR, IDX_OP_BY_CREATOR, IDX_OP_BY_TARGET, IDX_ENDORSEMENT_BY_CREATOR,
      IDX_TRANSFER_BY_ADDR, IDX_TRANSFER_BY_OP, IDX_TRANSFER_BY_BLOCK,
      IDX_DENUNCIATION_BY_ADDR, IDX_DENUNCIATION_RECENT,
      IDX_SC_EVENT_BY_EMITTER, IDX_SC_EVENT_BY_CALLER, IDX_SC_EVENT_BY_OP,
      CF_ASYNC_MSG, CF_DEFERRED_CALL,
      IDX_ASYNC_BY_SENDER, IDX_ASYNC_BY_DEST, IDX_ASYNC_BY_LAST_SLOT,
      IDX_DEFERRED_BY_SENDER, IDX_DEFERRED_BY_TARGET, IDX_DEFERRED_BY_LAST_SLOT, CF_PEER_STATE]"

text \<open>\<open>self.cf(name)?\<close> for a name that is data: the families are those the store was opened with.\<close>

definition cf_handle :: "string \<Rightarrow> cf option" where
  "cf_handle name = List.find (\<lambda>c. cf_name c = name) ALL_CFS"

definition cf_by_name :: "string \<Rightarrow> error + cf" where
  "cf_by_name name = ok_or (Other (''unknown CF '' @ name)) (cf_handle name)"

lemma set_ALL_CFS: "c \<in> set ALL_CFS"
  by (cases c) (simp_all add: ALL_CFS_def)

section \<open>Batches and iterators\<close>

datatype 'v write_op = Put cf bytes 'v | Del cf bytes

type_synonym 'v batch = "'v write_op list"

fun write_cf :: "'v write_op \<Rightarrow> cf" where
  "write_cf (Put c k v) = c"
| "write_cf (Del c k) = c"

datatype iter_mode = IterStart | IterForward bytes | IterReverse bytes

record ('s, 'v) ext = "'v wires" +
  rk_get :: "'s \<Rightarrow> cf \<Rightarrow> bytes \<Rightarrow> unit + 'v option"
  rk_write :: "'s \<Rightarrow> 'v batch \<Rightarrow> (unit + unit) \<times> 's"
  rk_iter :: "'s \<Rightarrow> cf \<Rightarrow> iter_mode \<Rightarrow> (unit + bytes \<times> 'v) list"

section \<open>The laws of the store\<close>

type_synonym ('s, 'v) rows = "'s \<Rightarrow> cf \<Rightarrow> (bytes \<times> 'v) list"

type_synonym 'v tables = "cf \<Rightarrow> bytes \<Rightarrow> 'v option"

fun apply_op :: "'v write_op \<Rightarrow> 'v tables \<Rightarrow> 'v tables" where
  "apply_op (Put c k v) T = T(c := (T c)(k \<mapsto> v))"
| "apply_op (Del c k) T = T(c := (T c)(k := None))"

definition apply_batch :: "'v batch \<Rightarrow> 'v tables \<Rightarrow> 'v tables" where
  "apply_batch b T = fold apply_op b T"

fun seek :: "iter_mode \<Rightarrow> (bytes \<times> 'v) list \<Rightarrow> (bytes \<times> 'v) list" where
  "seek IterStart rows = rows"
| "seek (IterForward a) rows = filter (\<lambda>(k, v). a \<le> k) rows"
| "seek (IterReverse a) rows = rev (filter (\<lambda>(k, v). k \<le> a) rows)"

fun yields :: "('e + 'a) list \<Rightarrow> 'a list \<Rightarrow> bool" where
  "yields [] rows \<longleftrightarrow> rows = []"
| "yields (Inl e # items) rows \<longleftrightarrow> True"
| "yields (Inr x # items) rows \<longleftrightarrow> (case rows of [] \<Rightarrow> False | y # rest \<Rightarrow> y = x \<and> yields items rest)"

definition table :: "('s, 'v) rows \<Rightarrow> 's \<Rightarrow> 'v tables" where
  "table R s c = map_of (R s c)"

definition store_ok :: "('s, 'v, 'x) ext_scheme \<Rightarrow> ('s, 'v) rows \<Rightarrow> bool" where
  "store_ok E R \<longleftrightarrow>
     (\<forall>s c. sorted_wrt (<) (map fst (R s c))) \<and>
     (\<forall>s c k r. rk_get E s c k = Inr r \<longrightarrow> r = table R s c k) \<and>
     (\<forall>s b s'. rk_write E s b = (Inr (), s') \<longrightarrow> table R s' = apply_batch b (table R s)) \<and>
     (\<forall>s b s'. rk_write E s b = (Inl (), s') \<longrightarrow> table R s' = table R s) \<and>
     (\<forall>s c m. yields (rk_iter E s c m) (seek m (R s c)))"

definition healthy :: "('s, 'v, 'x) ext_scheme \<Rightarrow> bool" where
  "healthy E \<longleftrightarrow>
     (\<forall>s c k. rk_get E s c k \<noteq> Inl ()) \<and>
     (\<forall>s b. fst (rk_write E s b) \<noteq> Inl ()) \<and>
     (\<forall>s c m. Inl () \<notin> set (rk_iter E s c m))"

lemma yields_all: "yields items rows \<Longrightarrow> Inl () \<notin> set items \<Longrightarrow> items = map Inr rows"
proof (induction items arbitrary: rows)
  case Nil
  then show ?case by simp
next
  case (Cons a items)
  then show ?case
    by (cases a; cases rows) auto
qed

lemma store_sorted: "store_ok E R \<Longrightarrow> sorted_wrt (<) (map fst (R s c))"
  by (simp add: store_ok_def)

lemma store_distinct: "store_ok E R \<Longrightarrow> distinct (map fst (R s c))"
  using store_sorted [of E R s c] strict_sorted_iff by blast

lemma in_rows_iff: "store_ok E R \<Longrightarrow> (k, v) \<in> set (R s c) \<longleftrightarrow> table R s c k = Some v"
  unfolding table_def by (simp add: store_distinct)

lemma table_None_iff: "table R s c k = None \<longleftrightarrow> k \<notin> fst ` set (R s c)"
  by (simp add: table_def map_of_eq_None_iff)

section \<open>Calls of the store\<close>

definition rdb :: "unit + 'a \<Rightarrow> error + 'a" where
  "rdb r = rmap_err (\<lambda>_. DbError) r"

definition db_get :: "('s, 'v, 'x) ext_scheme \<Rightarrow> 's \<Rightarrow> cf \<Rightarrow> bytes \<Rightarrow> error + 'v option" where
  "db_get E s c k = rdb (rk_get E s c k)"

definition db_write :: "('s, 'v, 'x) ext_scheme \<Rightarrow> 'v batch \<Rightarrow> ('s, unit) dbm" where
  "db_write E b s = (case rk_write E s b of (r, t) \<Rightarrow> (rdb r, t))"

definition db_put :: "('s, 'v, 'x) ext_scheme \<Rightarrow> cf \<Rightarrow> bytes \<Rightarrow> 'v \<Rightarrow> ('s, unit) dbm" where
  "db_put E c k v = db_write E [Put c k v]"

definition db_iter ::
  "('s, 'v, 'x) ext_scheme \<Rightarrow> 's \<Rightarrow> cf \<Rightarrow> iter_mode \<Rightarrow> (error + bytes \<times> 'v) list" where
  "db_iter E s c m = map rdb (rk_iter E s c m)"

text \<open>A read, run inside a computation, and a codec result.\<close>

definition readm :: "('s \<Rightarrow> error + 'a) \<Rightarrow> ('s, 'a) dbm" where
  "readm f s = (f s, s)"

definition codec_r :: "codec_error + 'a \<Rightarrow> error + 'a" where
  "codec_r r = rmap_err of_codec_error r"

lemma codec_r_simps [simp]: "codec_r (Inr x) = Inr x" "codec_r (Inl e) = Inl (of_codec_error e)"
  by (simp_all add: codec_r_def)

lemma codec_r_eq_Inr [simp]: "codec_r r = Inr x \<longleftrightarrow> r = Inr x"
  by (simp add: codec_r_def)

lemma rdb_simps [simp]: "rdb (Inr x) = Inr x" "rdb (Inl e) = Inl DbError"
  by (simp_all add: rdb_def)

lemma db_get_Inr: "store_ok E R \<Longrightarrow> db_get E s c k = Inr r \<Longrightarrow> r = table R s c k"
  by (simp add: db_get_def store_ok_def rdb_def)

lemma db_get_healthy: "store_ok E R \<Longrightarrow> healthy E \<Longrightarrow> db_get E s c k = Inr (table R s c k)"
  by (cases "rk_get E s c k") (simp_all add: db_get_def store_ok_def healthy_def)

lemma db_write_Inr:
  "store_ok E R \<Longrightarrow> db_write E b s = (Inr u, t) \<Longrightarrow> table R t = apply_batch b (table R s)"
  by (cases "rk_write E s b") (auto simp: db_write_def store_ok_def rdb_def)

lemma db_write_Inl:
  "store_ok E R \<Longrightarrow> db_write E b s = (Inl e, t) \<Longrightarrow> table R t = table R s"
  by (cases "rk_write E s b") (auto simp: db_write_def store_ok_def rdb_def rmap_err_def
      split: sum.splits)

lemma db_write_healthy:
  assumes "store_ok E R" "healthy E"
  obtains t where "db_write E b s = (Inr (), t)" "table R t = apply_batch b (table R s)"
proof (cases "rk_write E s b")
  case (Pair r t)
  then have "r = Inr ()"
    using assms(2) by (cases r) (metis fst_conv healthy_def old.unit.exhaust, simp)
  with Pair have "db_write E b s = (Inr (), t)"
    by (simp add: db_write_def)
  then show ?thesis
    using db_write_Inr [OF assms(1)] that by blast
qed

lemma db_iter_healthy:
  assumes "store_ok E R" "healthy E"
  shows "db_iter E s c m = map Inr (seek m (R s c))"
proof -
  have "rk_iter E s c m = map Inr (seek m (R s c))"
    by (rule yields_all) (use assms in \<open>simp_all add: store_ok_def healthy_def\<close>)
  then show ?thesis
    by (simp add: db_iter_def)
qed

lemma readm_run [run_simps]: "readm f s = (f s, s)"
  by (simp add: readm_def)

section \<open>Batches\<close>

lemma apply_batch_simps [simp]:
  "apply_batch [] T = T"
  "apply_batch (w # b) T = apply_batch b (apply_op w T)"
  "apply_batch (b @ c) T = apply_batch c (apply_batch b T)"
  by (simp_all add: apply_batch_def)

lemma apply_op_other [simp]: "write_cf w \<noteq> c \<Longrightarrow> apply_op w T c = T c"
  by (cases w) auto

lemma apply_batch_other: "c \<notin> write_cf ` set b \<Longrightarrow> apply_batch b T c = T c"
  by (induction b arbitrary: T) auto

lemma apply_dels: "apply_batch (map (Del c) ks) T = T(c := (\<lambda>k. if k \<in> set ks then None else T c k))"
  by (induction ks arbitrary: T) (auto simp: fun_eq_iff)

section \<open>Frames\<close>

text \<open>\<open>touches R cs m\<close>: whatever \<open>m\<close> returns, it writes to no family outside \<open>cs\<close>.\<close>

definition touches :: "('s, 'v) rows \<Rightarrow> cf set \<Rightarrow> ('s, 'a) dbm \<Rightarrow> bool" where
  "touches R cs m \<longleftrightarrow> (\<forall>s c. c \<notin> cs \<longrightarrow> table R (snd (m s)) c = table R s c)"

lemma touchesD: "touches R cs m \<Longrightarrow> m s = (r, t) \<Longrightarrow> c \<notin> cs \<Longrightarrow> table R t c = table R s c"
  unfolding touches_def by (metis snd_conv)

lemma touches_mono: "touches R cs m \<Longrightarrow> cs \<subseteq> ds \<Longrightarrow> touches R ds m"
  by (auto simp: touches_def)

lemma touches_ret [frame_intros]: "touches R cs (ret x)"
  by (simp add: touches_def ret_def)

lemma touches_fail [frame_intros]: "touches R cs (fail e)"
  by (simp add: touches_def fail_def)

lemma touches_lift [frame_intros]: "touches R cs (lift r)"
  by (simp add: touches_def lift_def)

lemma touches_readm [frame_intros]: "touches R cs (readm f)"
  by (simp add: touches_def readm_def)

lemma touches_bnd [frame_intros]:
  assumes "touches R cs m" "\<And>x. touches R cs (f x)"
  shows "touches R cs (bnd m f)"
  unfolding touches_def
proof (intro allI impI)
  fix s c assume c: "c \<notin> cs"
  obtain r t where m: "m s = (r, t)"
    by (cases "m s")
  then show "table R (snd (bnd m f s)) c = table R s c"
    using c assms by (cases r) (auto simp: bnd_def touches_def dest: spec [of _ s] spec [of _ c]
        intro: touchesD [THEN trans])
qed

lemma touches_for_each [frame_intros]:
  "(\<And>x. touches R cs (f x)) \<Longrightarrow> touches R cs (for_each xs f)"
  by (induction xs) (auto intro: frame_intros)

lemma touches_fold_each [frame_intros]:
  "(\<And>b x. touches R cs (f b x)) \<Longrightarrow> touches R cs (fold_each f b xs)"
  by (induction xs arbitrary: b) (auto intro: frame_intros)

lemma touches_warn_only [frame_intros]: "touches R cs m \<Longrightarrow> touches R cs (warn_only m)"
  by (simp add: touches_def warn_only_def)

lemma touches_if [frame_intros]:
  "touches R cs m \<Longrightarrow> touches R cs n \<Longrightarrow> touches R cs (if b then m else n)"
  by simp

lemma touches_option [frame_intros]:
  "touches R cs m \<Longrightarrow> (\<And>x. touches R cs (f x)) \<Longrightarrow> touches R cs (case v of None \<Rightarrow> m | Some x \<Rightarrow> f x)"
  by (cases v) simp_all

lemma touches_sum [frame_intros]:
  "(\<And>e. touches R cs (g e)) \<Longrightarrow> (\<And>x. touches R cs (f x)) \<Longrightarrow>
   touches R cs (case v of Inl e \<Rightarrow> g e | Inr x \<Rightarrow> f x)"
  by (cases v) simp_all

lemma touches_prod [frame_intros]:
  "(\<And>x y. touches R cs (f x y)) \<Longrightarrow> touches R cs (case v of (x, y) \<Rightarrow> f x y)"
  by (cases v) simp

lemma touches_let [frame_intros]:
  "(\<And>x. touches R cs (f x)) \<Longrightarrow> touches R cs (let x = v in f x)"
  by simp

lemma touches_write:
  assumes "store_ok E R" "write_cf ` set b \<subseteq> cs"
  shows "touches R cs (db_write E b)"
  unfolding touches_def
proof (intro allI impI)
  fix s c assume c: "c \<notin> cs"
  obtain r t where w: "db_write E b s = (r, t)"
    by (cases "db_write E b s")
  show "table R (snd (db_write E b s)) c = table R s c"
  proof (cases r)
    case (Inl e)
    then show ?thesis using w db_write_Inl [OF assms(1)] by simp
  next
    case (Inr u)
    moreover have "c \<notin> write_cf ` set b"
      using assms(2) c by blast
    ultimately show ?thesis
      using w db_write_Inr [OF assms(1)] by (simp add: apply_batch_other)
  qed
qed

lemma touches_put: "store_ok E R \<Longrightarrow> c \<in> cs \<Longrightarrow> touches R cs (db_put E c k v)"
  unfolding db_put_def by (rule touches_write) simp_all

section \<open>Pages\<close>

record 'a page =
  items :: "'a list"
  next_cursor :: "bytes option"

definition page_empty :: "'a page" where
  "page_empty = \<lparr>items = [], next_cursor = None\<rparr>"

definition page_is_empty :: "'a page \<Rightarrow> bool" where
  "page_is_empty p \<longleftrightarrow> items p = []"

definition page_len :: "'a page \<Rightarrow> nat" where
  "page_len p = length (items p)"

definition has_more :: "'a page \<Rightarrow> bool" where
  "has_more p \<longleftrightarrow> is_some (next_cursor p)"

text \<open>
  The loop every paginated reader runs over its iterator: stop at the first key
  outside the range (\<open>inside\<close>), skip the key the caller resumes from, stop with a cursor
  when the page is full, otherwise look at the row, which fails the read, is passed over,
  or is kept and becomes the cursor.
\<close>

fun page_loop :: "(bytes \<Rightarrow> bool) \<Rightarrow> bytes option \<Rightarrow> nat \<Rightarrow> (bytes \<Rightarrow> 'v \<Rightarrow> error + 'a option) \<Rightarrow>
    (error + bytes \<times> 'v) list \<Rightarrow> 'a list \<Rightarrow> bytes option \<Rightarrow> error + 'a page" where
  "page_loop inside after limit row [] its lkey = Inr \<lparr>items = its, next_cursor = None\<rparr>"
| "page_loop inside after limit row (Inl e # rest) its lkey = Inl e"
| "page_loop inside after limit row (Inr (k, v) # rest) its lkey =
     (if \<not> inside k then Inr \<lparr>items = its, next_cursor = None\<rparr>
      else if after = Some k then page_loop inside after limit row rest its lkey
      else if limit \<le> length its then Inr \<lparr>items = its, next_cursor = lkey\<rparr>
      else (case row k v of
              Inl e \<Rightarrow> Inl e
            | Inr None \<Rightarrow> page_loop inside after limit row rest its lkey
            | Inr (Some x) \<Rightarrow> page_loop inside after limit row rest (its @ [x]) (Some k)))"

end
