(* ===== verification/Codec_Laws.thy ===== *)
theory Codec_Laws
  imports Codec
begin

text \<open>
  What the value codec guarantees.  \<open>wf_<row>\<close> says when a row can be stored without loss:
  its ids and addresses are well-formed, archived payloads are base64 texts, and the two
  encodings of absence the wire format has (an empty execution trail hash, coin origin
  code 0) are not used as values.  Decoding an encoded well-formed row gives the row back
  (\<open>row_codec\<close>), for every row type of the store.
\<close>

section \<open>Well-formed rows\<close>

definition wf_opt :: "('a \<Rightarrow> bool) \<Rightarrow> 'a option \<Rightarrow> bool" where
  "wf_opt P x \<longleftrightarrow> (case x of None \<Rightarrow> True | Some y \<Rightarrow> P y)"

lemma wf_opt_simps [simp]: "wf_opt P None" "wf_opt P (Some x) \<longleftrightarrow> P x"
  by (simp_all add: wf_opt_def)

definition wf_payload :: "'x crates_scheme \<Rightarrow> string \<Rightarrow> bool" where
  "wf_payload C t \<longleftrightarrow> t = [] \<or> b64dec C t \<noteq> None"

definition wf_slot_state :: "'x crates_scheme \<Rightarrow> slot_state \<Rightarrow> bool" where
  "wf_slot_state C s \<longleftrightarrow>
     wf_opt (wf_block_id C) (st_final_block_id s) \<and>
     list_all (wf_block_id C) (st_candidate_block_ids s) \<and>
     list_all (wf_op_id C) (st_executed_op_ids s) \<and>
     st_execution_trail_hash s \<noteq> Some []"

definition wf_endorsement :: "'x crates_scheme \<Rightarrow> stored_endorsement \<Rightarrow> bool" where
  "wf_endorsement C e \<longleftrightarrow>
     (\<exists>i. endo_parse C (en_id e) = Inr i) \<and>
     (\<exists>b. block_parse C (en_endorsed_block_id e) = Inr b) \<and>
     (\<exists>b. block_parse C (en_included_block_id e) = Inr b) \<and>
     wf_addr C (en_content_creator_address e)"

definition wf_denunciation_entry :: "'x crates_scheme \<Rightarrow> stored_denunciation_entry \<Rightarrow> bool" where
  "wf_denunciation_entry C d \<longleftrightarrow>
     (\<exists>h. de_hash d = hexenc C h) \<and>
     wf_opt (wf_addr C) (de_denounced_addr d) \<and>
     wf_opt (wf_block_id C) (de_included_block_id d)"

definition wf_block :: "'x crates_scheme \<Rightarrow> stored_block \<Rightarrow> bool" where
  "wf_block C b \<longleftrightarrow>
     wf_block_id C (bk_id b) \<and> wf_addr C (bk_creator b) \<and>
     list_all (wf_block_id C) (bk_parents b) \<and>
     list_all (wf_op_id C) (bk_operation_ids b) \<and>
     list_all (wf_endorsement C) (bk_endorsements b) \<and>
     wf_payload C (bk_raw_signed_header_b64 b)"

definition wf_operation :: "'x crates_scheme \<Rightarrow> stored_operation \<Rightarrow> bool" where
  "wf_operation C p \<longleftrightarrow>
     wf_op_id C (op_id p) \<and> wf_addr C (op_creator p) \<and> wf_opt (wf_addr C) (op_target p) \<and>
     list_all (\<lambda>i. wf_block_id C (oi_block_id i)) (op_inclusions p) \<and>
     wf_payload C (op_raw_signed_op_b64 p)"

definition wf_sc_event :: "'x crates_scheme \<Rightarrow> stored_sc_event \<Rightarrow> bool" where
  "wf_sc_event C e \<longleftrightarrow>
     list_all (wf_addr C) (ev_emitter_addrs e) \<and> list_all (wf_addr C) (ev_caller_addrs e) \<and>
     wf_opt (wf_op_id C) (ev_op_id e)"

definition wf_transfer :: "stored_transfer \<Rightarrow> bool" where
  "wf_transfer t \<longleftrightarrow> tr_origin t \<noteq> OtherOrigin 0"

definition wf_async_msg :: "'x crates_scheme \<Rightarrow> stored_async_msg \<Rightarrow> bool" where
  "wf_async_msg C m \<longleftrightarrow> wf_opt (wf_addr C) (am_sender m) \<and> wf_opt (wf_addr C) (am_destination m)"

definition wf_deferred_call :: "'x crates_scheme \<Rightarrow> stored_deferred_call \<Rightarrow> bool" where
  "wf_deferred_call C d \<longleftrightarrow>
     wf_opt (wf_addr C) (dc_sender d) \<and> wf_opt (wf_addr C) (dc_target_address d)"

section \<open>Field codecs\<close>

named_theorems codec_simps "round trips of the field codecs"

lemma u8_try_from_ucast [codec_simps]: "u8_try_from (ucast (t :: u8)) = Some t"
proof -
  have "(ucast (ucast t :: u32) :: u8) = t"
    by (rule ucast_up_ucast_id) (simp add: is_up)
  moreover
  have "unat (ucast t :: u32) = unat t"
    using unat_u8 [of t] by (simp add: unsigned_ucast_eq take_bit_nat_eq_self)
  ultimately show ?thesis
    using unat_u8 [of t] by (simp add: u8_try_from_def)
qed

lemma slot_from_to_pb [codec_simps]: "slot_from_pb (slot_to_pb s) = Inr s"
  by (simp add: slot_from_pb_def slot_to_pb_def u8_try_from_ucast)

lemma slot_from_opt_pb [codec_simps]: "slot_from_opt (Some (slot_to_pb s)) = Inr s"
  by (simp add: slot_from_opt_def slot_from_to_pb)

lemma opt_slot_pb [codec_simps]:
  "opt_field (is_some x) (slot_from_opt (map_option slot_to_pb x)) = Inr x"
  by (cases x) (simp_all add: opt_field_def slot_from_opt_pb)

lemma slot_status_pb [codec_simps]: "slot_status_from_pb (slot_status_to_pb x) = x"
  by (cases x) (simp_all add: slot_status_from_pb_def)

lemma exec_status_pb [codec_simps]: "exec_status_from_pb (exec_status_to_pb x) = Some x"
  by (cases x) (simp_all add: exec_status_from_pb_def)

lemma block_status_pb [codec_simps]: "block_status_from_pb (block_status_to_pb x) = x"
  by (cases x) (simp_all add: block_status_from_pb_def)

lemma op_kind_pb [codec_simps]: "op_kind_from_pb (op_kind_to_pb x) = x"
  by (cases x) (simp_all add: op_kind_from_pb_def)

lemma async_state_pb [codec_simps]: "async_state_from_pb (async_state_to_pb x) = x"
  by (cases x) (simp_all add: async_state_from_pb_def)

lemma deferred_state_pb [codec_simps]: "deferred_state_from_pb (deferred_state_to_pb x) = x"
  by (cases x) (simp_all add: deferred_state_from_pb_def)

lemma completeness_pb [codec_simps]:
  "completeness_from_pb (Some (completeness_to_pb c)) = c"
  by (simp add: completeness_from_pb_def completeness_to_pb_def)

lemma block_id_pb [codec_simps]: "wf_block_id C x \<Longrightarrow> block_id_from_key C (id_key x) = Inr x"
  by (simp add: block_id_from_key_def block_from_key_def gid_from_key_of_key)

lemma op_id_pb [codec_simps]: "wf_op_id C x \<Longrightarrow> op_id_from_key C (id_key x) = Inr x"
  by (simp add: op_id_from_key_def op_from_key_def gid_from_key_of_key)

lemma endo_id_pb [codec_simps]: "wf_endo_id C x \<Longrightarrow> endo_id_from_key C (id_key x) = Inr x"
  by (simp add: endo_id_from_key_def endo_from_key_def gid_from_key_of_key)

lemma address_pb [codec_simps]: "wf_addr C x \<Longrightarrow> address_from_key C (addr_key x) = Inr x"
  by (simp add: address_from_key_def addr_from_key_of_key)

lemma block_ids_pb [codec_simps]:
  "list_all (wf_block_id C) xs \<Longrightarrow> collect (block_id_from_key C) (map id_key xs) = Inr xs"
  by (rule collect_roundtrip) (simp add: block_id_pb list_all_iff)

lemma op_ids_pb [codec_simps]:
  "list_all (wf_op_id C) xs \<Longrightarrow> collect (op_id_from_key C) (map id_key xs) = Inr xs"
  by (rule collect_roundtrip) (simp add: op_id_pb list_all_iff)

lemma addresses_pb [codec_simps]:
  "list_all (wf_addr C) xs \<Longrightarrow> collect (address_from_key C) (map addr_key xs) = Inr xs"
  by (rule collect_roundtrip) (simp add: address_pb list_all_iff)

lemma opt_address_pb [codec_simps]:
  "wf_opt (wf_addr C) x \<Longrightarrow>
   opt_field (is_some x) (address_from_key C (unwrap_or [] (map_option addr_key x))) = Inr x"
  by (cases x) (simp_all add: opt_field_def address_pb)

lemma opt_block_id_pb [codec_simps]:
  "wf_opt (wf_block_id C) x \<Longrightarrow>
   opt_field (is_some x) (block_id_from_key C (unwrap_or [] (map_option id_key x))) = Inr x"
  by (cases x) (simp_all add: opt_field_def block_id_pb)

lemma opt_op_id_pb [codec_simps]:
  "wf_opt (wf_op_id C) x \<Longrightarrow>
   opt_field (is_some x) (op_id_from_key C (unwrap_or [] (map_option id_key x))) = Inr x"
  by (cases x) (simp_all add: opt_field_def op_id_pb)

lemma wf_id_nonempty: "wf_gid C p x \<Longrightarrow> id_key x \<noteq> []"
  by (auto simp: wf_gid_def ID_KEY_LEN_def)

lemma final_block_id_pb [codec_simps]:
  "wf_opt (wf_block_id C) x \<Longrightarrow>
   opt_field (unwrap_or [] (map_option id_key x) \<noteq> [])
     (block_id_from_key C (unwrap_or [] (map_option id_key x))) = Inr x"
  by (cases x) (auto simp: opt_field_def block_id_pb wf_id_nonempty)

lemma trail_hash_pb [codec_simps]:
  "x \<noteq> Some [] \<Longrightarrow> then_some (unwrap_or [] x \<noteq> []) (unwrap_or [] x) = x"
  by (cases x) simp_all

lemma payload_pb:
  assumes "crates_ok C" "wf_payload C t"
  obtains b where "payload_to_raw C w t = Inr b" "payload_from_raw C b = t"
proof (cases "t = []")
  case True
  then show ?thesis
    by (intro that [of "[]"]) (simp_all add: payload_to_raw_def payload_from_raw_def)
next
  case False
  then obtain b where b: "b64dec C t = Some b"
    using assms(2) by (auto simp: wf_payload_def)
  have t: "b64enc C b = t"
    using assms(1) b by (simp add: crates_okD)
  then have "b \<noteq> []"
    using False assms(1) crates_okD(5) by metis
  with False b t show ?thesis
    by (intro that [of b]) (simp_all add: payload_to_raw_def payload_from_raw_def)
qed

lemma denunciation_pb [codec_simps]: "denunciation_from_pb (denunciation_to_pb d) = Inr d"
  by (cases d) (simp_all add: denunciation_from_pb_def slot_from_opt_pb)

lemma denunciations_pb [codec_simps]:
  "collect denunciation_from_pb (map denunciation_to_pb ds) = Inr ds"
  by (rule collect_roundtrip) (simp add: denunciation_pb)

lemma details_pb [codec_simps]: "details_from_pb (details_to_pb d) = d"
  by (cases d) (simp add: details_from_pb_def details_to_pb_def comp_def map_idI)

lemma inclusion_pb [codec_simps]:
  "wf_block_id C (oi_block_id i) \<Longrightarrow> inclusion_from_pb C (inclusion_to_pb i) = Inr i"
  by (simp add: inclusion_from_pb_def inclusion_to_pb_def slot_from_opt_pb block_id_pb)

lemma inclusions_pb [codec_simps]:
  "list_all (\<lambda>i. wf_block_id C (oi_block_id i)) xs \<Longrightarrow>
   collect (inclusion_from_pb C) (map inclusion_to_pb xs) = Inr xs"
  by (rule collect_roundtrip) (simp add: inclusion_pb list_all_iff)

lemma opt_exec_status_pb [codec_simps]:
  "Option.bind (then_some (is_some x) (unwrap_or 0 (map_option exec_status_to_pb x)))
     exec_status_from_pb = x"
  by (cases x) (simp_all add: exec_status_pb)

lemma transfer_value_pb [codec_simps]: "transfer_value_from_pb (transfer_value_to_pb v) = v"
  by (cases v) simp_all

lemma coin_origin_of_kind_kind:
  "coin_origin_of_kind (coin_origin_kind o1) =
   Some (case o1 of OtherOrigin _ \<Rightarrow> Unspecified | _ \<Rightarrow> o1)"
  by (cases o1) (simp_all add: coin_origin_of_kind_def coin_origin_kinds_def)

lemma coin_origin_pb [codec_simps]:
  "o1 \<noteq> OtherOrigin 0 \<Longrightarrow> coin_origin_from_pb (coin_origin_to_pb o1) = o1"
  by (cases o1) (simp_all add: coin_origin_from_pb_def coin_origin_to_pb_def
      coin_origin_of_kind_kind [simplified] coin_origin_of_kind_def coin_origin_kinds_def)

lemma trigger_pb [codec_simps]: "trigger_from_pb (trigger_to_pb t) = t"
  by (simp add: trigger_from_pb_def trigger_to_pb_def)

lemma opt_trigger_pb [codec_simps]:
  "then_some (is_some x) (unwrap_or trigger_default
     (map_option trigger_from_pb (map_option trigger_to_pb x))) = x"
  by (cases x) (simp_all add: trigger_pb)

lemma endorsement_pb_round:
  assumes "crates_ok C" "wf_endorsement C e"
  shows "\<exists>p. endorsement_to_pb C e = Inr p \<and> endorsement_from_pb C p = Inr e"
proof -
  obtain i b c where parts: "endo_parse C (en_id e) = Inr i"
      "block_parse C (en_endorsed_block_id e) = Inr b"
      "block_parse C (en_included_block_id e) = Inr c"
      "wf_addr C (en_content_creator_address e)"
    using assms(2) by (auto simp: wf_endorsement_def)
  have wf: "wf_endo_id C i" "wf_block_id C b" "wf_block_id C c"
    using parts assms(1) endo_display.parse_wf block_display.parse_wf by blast+
  have texts: "id_text i = en_id e" "id_text b = en_endorsed_block_id e"
      "id_text c = en_included_block_id e"
    using parts assms(1) endo_display.parse_text block_display.parse_text by blast+
  show ?thesis
    using parts wf texts
    by (simp add: endorsement_to_pb_def endorsement_from_pb_def custom_err_def codec_simps)
qed

lemma endorsements_pb_round:
  assumes "crates_ok C"
  shows "list_all (wf_endorsement C) es \<Longrightarrow>
    \<exists>ps. collect (endorsement_to_pb C) es = Inr ps \<and> collect (endorsement_from_pb C) ps = Inr es"
proof (induction es)
  case Nil
  show ?case by simp
next
  case (Cons e es)
  from Cons.prems have "wf_endorsement C e"
    by simp
  then obtain p where "endorsement_to_pb C e = Inr p" "endorsement_from_pb C p = Inr e"
    using endorsement_pb_round [OF assms] by blast
  with Cons show ?case
    by fastforce
qed

lemma block_pb_round:
  assumes "crates_ok C" "wf_block C b"
  shows "\<exists>p. block_to_peer_pb C b = Inr p \<and> block_from_peer_pb C p = Inr b"
proof -
  obtain ps where ps: "collect (endorsement_to_pb C) (bk_endorsements b) = Inr ps"
      "collect (endorsement_from_pb C) ps = Inr (bk_endorsements b)"
    using endorsements_pb_round [OF assms(1)] assms(2) by (auto simp: wf_block_def)
  obtain h where "payload_to_raw C ''raw_signed_header b64: '' (bk_raw_signed_header_b64 b) = Inr h"
      "payload_from_raw C h = bk_raw_signed_header_b64 b"
    using payload_pb assms by (metis wf_block_def)
  with ps assms(2) show ?thesis
    by (simp add: block_to_peer_pb_def block_from_peer_pb_def wf_block_def codec_simps)
qed

section \<open>What decodes is well-formed\<close>

named_theorems decode_wf "rows and fields that decode are well-formed"

lemma block_id_from_key_wf [decode_wf]: "block_id_from_key C b = Inr x \<Longrightarrow> wf_block_id C x"
  by (simp add: block_id_from_key_def block_from_key_def)

lemma op_id_from_key_wf [decode_wf]: "op_id_from_key C b = Inr x \<Longrightarrow> wf_op_id C x"
  by (simp add: op_id_from_key_def op_from_key_def)

lemma endo_id_from_key_wf [decode_wf]: "endo_id_from_key C b = Inr x \<Longrightarrow> wf_endo_id C x"
  by (simp add: endo_id_from_key_def endo_from_key_def)

lemma address_from_key_wf [decode_wf]: "address_from_key C b = Inr x \<Longrightarrow> wf_addr C x"
  by (simp add: address_from_key_def)

lemma opt_field_wf:
  "opt_field b r = Inr x \<Longrightarrow> (\<And>y. r = Inr y \<Longrightarrow> P y) \<Longrightarrow> wf_opt P x"
  by (auto simp: opt_field_def rbind_eq_Inr split: if_splits)

lemma collect_wf:
  "collect f xs = Inr ys \<Longrightarrow> (\<And>x y. f x = Inr y \<Longrightarrow> P y) \<Longrightarrow> list_all P ys"
  by (induction xs arbitrary: ys) (auto simp: rbind_eq_Inr)

lemma then_some_nonempty: "then_some (xs \<noteq> []) xs \<noteq> Some []"
  by (simp add: then_some_def)

lemma payload_from_raw_wf: "crates_ok C \<Longrightarrow> wf_payload C (payload_from_raw C b)"
  by (simp add: payload_from_raw_def wf_payload_def crates_okD)

lemma endorsement_from_pb_wf [decode_wf]:
  assumes "crates_ok C" "endorsement_from_pb C p = Inr e"
  shows "wf_endorsement C e"
proof -
  obtain i b c where "en_id e = id_text i" "en_endorsed_block_id e = id_text b"
      "en_included_block_id e = id_text c" "wf_endo_id C i" "wf_block_id C b" "wf_block_id C c"
      "wf_addr C (en_content_creator_address e)"
    using assms(2) by (auto simp: endorsement_from_pb_def rbind_eq_Inr dest!: decode_wf)
  then show ?thesis
    unfolding wf_endorsement_def using assms(1)
    by (auto dest: endo_display.text_parse block_display.text_parse)
qed

lemma block_from_peer_pb_wf [decode_wf]:
  assumes "crates_ok C" "block_from_peer_pb C p = Inr b"
  shows "wf_block C b"
  using assms
  by (auto simp: block_from_peer_pb_def rbind_eq_Inr wf_block_def payload_from_raw_wf
      intro: decode_wf elim!: collect_wf)

lemma inclusion_from_pb_wf [decode_wf]:
  "inclusion_from_pb C p = Inr i \<Longrightarrow> wf_block_id C (oi_block_id i)"
  by (auto simp: inclusion_from_pb_def rbind_eq_Inr intro: decode_wf)

lemma coin_origin_from_pb_wf: "coin_origin_from_pb p \<noteq> OtherOrigin 0"
proof -
  have "coin_origin_of_kind k \<noteq> Some (OtherOrigin c)" for k c
  proof
    assume "coin_origin_of_kind k = Some (OtherOrigin c)"
    then have "OtherOrigin c \<in> set coin_origin_kinds"
      unfolding coin_origin_of_kind_def
      by (metis (no_types, lifting) nth_mem option.distinct(1) option.inject)
    then show False
      by (simp add: coin_origin_kinds_def)
  qed
  then show ?thesis
    by (cases "coin_origin_of_kind (pco_kind p)") (auto simp: coin_origin_from_pb_def Let_def)
qed

section \<open>The contract of a row codec\<close>

text \<open>
  What the database relies on for each row type: an encoder that succeeds on the rows it
  is given, a decoder that reads the row back, and that what it reads can be stored again.  \<open>ok\<close> carries the laws of the wire
  encodings.
\<close>

locale row_codec =
  fixes ok :: bool
    and enc :: "'r \<Rightarrow> codec_error + 'v"
    and dec :: "'v \<Rightarrow> codec_error + 'r"
    and wf :: "'r \<Rightarrow> bool"
  assumes enc_dec: "ok \<Longrightarrow> wf r \<Longrightarrow> \<exists>v. enc r = Inr v \<and> dec v = Inr r"
    and dec_wf: "ok \<Longrightarrow> dec v = Inr r \<Longrightarrow> wf r"
begin

lemma dec_enc: "ok \<Longrightarrow> wf r \<Longrightarrow> enc r = Inr v \<Longrightarrow> dec v = Inr r"
  using enc_dec by fastforce

lemma enc_total: "ok \<Longrightarrow> wf r \<Longrightarrow> \<exists>v. enc r = Inr v"
  using enc_dec by blast

lemma enc_inj: "ok \<Longrightarrow> wf r \<Longrightarrow> wf s \<Longrightarrow> enc r = enc s \<Longrightarrow> r = s"
  using enc_dec by (metis sum.inject(2))

lemma dec_roundtrip: "ok \<Longrightarrow> wf r \<Longrightarrow> rbind (enc r) dec = Inr r"
  using enc_dec by fastforce

end

interpretation slot_state_codec: row_codec "wires_ok W"
    "\<lambda>s. Inr (encode_slot_state W s)" "decode_slot_state W" "wf_slot_state W"
  for W :: "('v, 'x) wires_scheme"
proof
  fix r assume ok: "wires_ok W" and wf: "wf_slot_state W r"
  then have "decode_slot_state W (encode_slot_state W r) = slot_state_from_pb W (slot_state_to_pb r)"
    by (simp add: decode_slot_state_def encode_slot_state_def wires_okD)
  also have "\<dots> = Inr r"
    using wf unfolding slot_state_from_pb_def slot_state_to_pb_def wf_slot_state_def
    by (simp add: codec_simps)
  finally show "\<exists>v. Inr (encode_slot_state W r) = Inr v \<and> decode_slot_state W v = Inr r"
    by blast
next
  fix v r assume "decode_slot_state W v = Inr r"
  then show "wf_slot_state W r"
    by (auto simp: decode_slot_state_def slot_state_from_pb_def rbind_eq_Inr wf_slot_state_def
        then_some_nonempty intro: decode_wf elim!: collect_wf opt_field_wf)
qed

interpretation meta_codec: row_codec "wires_ok W"
    "\<lambda>m. Inr (encode_meta_row W m)" "decode_meta_row W" "\<lambda>_. True"
  for W :: "('v, 'x) wires_scheme"
  by unfold_locales (simp_all add: encode_meta_row_def decode_meta_row_def wires_okD codec_simps)

interpretation slot_codec: row_codec "wires_ok W"
    "\<lambda>s. Inr (encode_slot W s)" "decode_slot W" "\<lambda>_. True"
  for W :: "('v, 'x) wires_scheme"
  by unfold_locales (simp_all add: encode_slot_def decode_slot_def wires_okD codec_simps)

interpretation endorsement_codec: row_codec "wires_ok W"
    "encode_endorsement W" "decode_endorsement W" "wf_endorsement W"
  for W :: "('v, 'x) wires_scheme"
proof
  fix e assume ok: "wires_ok W" and "wf_endorsement W e"
  then obtain p where "endorsement_to_pb W e = Inr p" "endorsement_from_pb W p = Inr e"
    using endorsement_pb_round wires_okD(1) by blast
  with ok show "\<exists>v. encode_endorsement W e = Inr v \<and> decode_endorsement W v = Inr e"
    by (simp add: encode_endorsement_def decode_endorsement_def wires_okD)
next
  fix v e assume "wires_ok W" "decode_endorsement W v = Inr e"
  then show "wf_endorsement W e"
    by (auto simp: decode_endorsement_def rbind_eq_Inr wires_okD intro: decode_wf)
qed

interpretation denunciation_codec: row_codec "wires_ok W"
    "encode_denunciation_entry W" "decode_denunciation_entry W" "wf_denunciation_entry W"
  for W :: "('v, 'x) wires_scheme"
proof
  fix d assume ok: "wires_ok W" and wf: "wf_denunciation_entry W d"
  then show "\<exists>v. encode_denunciation_entry W d = Inr v \<and> decode_denunciation_entry W v = Inr d"
    by (auto simp: encode_denunciation_entry_def decode_denunciation_entry_def
        wf_denunciation_entry_def wires_okD crates_okD codec_simps)
next
  fix v d assume "decode_denunciation_entry W v = Inr d"
  then show "wf_denunciation_entry W d"
    by (auto simp: decode_denunciation_entry_def rbind_eq_Inr wf_denunciation_entry_def
        intro: decode_wf elim!: opt_field_wf)
qed

interpretation block_codec: row_codec "wires_ok W"
    "encode_block W" "decode_block W" "wf_block W"
  for W :: "('v, 'x) wires_scheme"
proof
  fix b assume ok: "wires_ok W" and "wf_block W b"
  then obtain p where "block_to_peer_pb W b = Inr p" "block_from_peer_pb W p = Inr b"
    using block_pb_round wires_okD(1) by blast
  with ok show "\<exists>v. encode_block W b = Inr v \<and> decode_block W v = Inr b"
    by (simp add: encode_block_def decode_block_def wires_okD)
next
  fix v b assume "wires_ok W" "decode_block W v = Inr b"
  then show "wf_block W b"
    by (auto simp: decode_block_def rbind_eq_Inr wires_okD intro: decode_wf)
qed

interpretation operation_codec: row_codec "wires_ok W"
    "encode_operation W" "decode_operation W" "wf_operation W"
  for W :: "('v, 'x) wires_scheme"
proof
  fix p assume ok: "wires_ok W" and wf: "wf_operation W p"
  then obtain b where "payload_to_raw W ''raw_signed_op b64: '' (op_raw_signed_op_b64 p) = Inr b"
      "payload_from_raw W b = op_raw_signed_op_b64 p"
    using payload_pb wires_okD(1) by (metis wf_operation_def)
  with ok wf show "\<exists>v. encode_operation W p = Inr v \<and> decode_operation W v = Inr p"
    by (simp add: encode_operation_def decode_operation_def wf_operation_def wires_okD codec_simps)
next
  fix v p assume "wires_ok W" "decode_operation W v = Inr p"
  then show "wf_operation W p"
    by (auto simp: decode_operation_def rbind_eq_Inr wf_operation_def wires_okD payload_from_raw_wf
        intro: decode_wf elim!: opt_field_wf collect_wf)
qed

interpretation sc_event_codec: row_codec "wires_ok W"
    "encode_sc_event W" "decode_sc_event W" "wf_sc_event W"
  for W :: "('v, 'x) wires_scheme"
proof
  show "wires_ok W \<Longrightarrow> wf_sc_event W e \<Longrightarrow>
      \<exists>v. encode_sc_event W e = Inr v \<and> decode_sc_event W v = Inr e" for e
    by (simp add: encode_sc_event_def decode_sc_event_def wf_sc_event_def wires_okD codec_simps)
  show "decode_sc_event W v = Inr e \<Longrightarrow> wf_sc_event W e" for v e
    by (auto simp: decode_sc_event_def rbind_eq_Inr wf_sc_event_def
        intro: decode_wf elim!: opt_field_wf collect_wf)
qed

interpretation transfer_codec: row_codec "wires_ok W"
    "\<lambda>t. Inr (encode_transfer W t)" "decode_transfer W" wf_transfer
  for W :: "('v, 'x) wires_scheme"
proof
  show "wires_ok W \<Longrightarrow> wf_transfer t \<Longrightarrow>
      \<exists>v. Inr (encode_transfer W t) = Inr v \<and> decode_transfer W v = Inr t" for t
    by (simp add: encode_transfer_def decode_transfer_def wf_transfer_def wires_okD codec_simps)
  show "decode_transfer W v = Inr t \<Longrightarrow> wf_transfer t" for v t
    by (auto simp: decode_transfer_def rbind_eq_Inr wf_transfer_def coin_origin_from_pb_wf)
qed

interpretation async_msg_codec: row_codec "wires_ok W"
    "\<lambda>m. Inr (encode_async_msg W m)" "decode_async_msg W" "wf_async_msg W"
  for W :: "('v, 'x) wires_scheme"
proof
  show "wires_ok W \<Longrightarrow> wf_async_msg W m \<Longrightarrow>
      \<exists>v. Inr (encode_async_msg W m) = Inr v \<and> decode_async_msg W v = Inr m" for m
    by (simp add: encode_async_msg_def decode_async_msg_def wf_async_msg_def wires_okD codec_simps)
  show "decode_async_msg W v = Inr m \<Longrightarrow> wf_async_msg W m" for v m
    by (auto simp: decode_async_msg_def rbind_eq_Inr wf_async_msg_def
        intro: decode_wf elim!: opt_field_wf)
qed

interpretation deferred_call_codec: row_codec "wires_ok W"
    "\<lambda>d. Inr (encode_deferred_call W d)" "decode_deferred_call W" "wf_deferred_call W"
  for W :: "('v, 'x) wires_scheme"
proof
  show "wires_ok W \<Longrightarrow> wf_deferred_call W d \<Longrightarrow>
      \<exists>v. Inr (encode_deferred_call W d) = Inr v \<and> decode_deferred_call W v = Inr d" for d
    by (simp add: encode_deferred_call_def decode_deferred_call_def wf_deferred_call_def wires_okD
        codec_simps)
  show "decode_deferred_call W v = Inr d \<Longrightarrow> wf_deferred_call W d" for v d
    by (auto simp: decode_deferred_call_def rbind_eq_Inr wf_deferred_call_def
        intro: decode_wf elim!: opt_field_wf)
qed

end
