(* ===== verification/Db_Rows.thy ===== *)
theory Db_Rows
  imports Store Codec_Laws
begin

text \<open>
  The row operations of the database (\<open>db.rs\<close>): schema version, meta row and pointers,
  slots, blocks, endorsements, operations, SC events, denunciations and transfers.  A read
  is a function of the store state; a write is a stateful result computation that issues the
  code's batch.  An empty index value is \<open>raw W []\<close>.

  The lemmas say what a read returns after a write and which column families each write
  leaves alone.
\<close>

abbreviation empty_value :: "('s, 'v, 'x) ext_scheme \<Rightarrow> 'v" where
  "empty_value E \<equiv> raw E []"

text \<open>A point read followed by a decode, the body of every \<open>read_*\<close>.\<close>

definition get_decoded ::
  "('s, 'v, 'x) ext_scheme \<Rightarrow> 's \<Rightarrow> cf \<Rightarrow> bytes \<Rightarrow> ('v \<Rightarrow> codec_error + 'a) \<Rightarrow> error + 'a option" where
  "get_decoded E s c k dec =
     rbind (db_get E s c k) (\<lambda>r.
       case r of None \<Rightarrow> Inr None | Some v \<Rightarrow> rbind (codec_r (dec v)) (\<lambda>x. Inr (Some x)))"

section \<open>Schema version\<close>

definition SCHEMA_VERSION :: u32 where "SCHEMA_VERSION = 2"

definition meta_ROW :: bytes where "meta_ROW = str_bytes ''row''"
definition meta_LAST_FINAL_SLOT :: bytes where
  "meta_LAST_FINAL_SLOT = str_bytes ''last_final_slot''"
definition meta_LAST_CANDIDATE_SLOT :: bytes where
  "meta_LAST_CANDIDATE_SLOT = str_bytes ''last_candidate_slot''"
definition meta_SCHEMA_VERSION :: bytes where
  "meta_SCHEMA_VERSION = str_bytes ''schema_version''"

text \<open>
  \<open>str::parse::<u32>\<close>: an optional plus sign, at least one digit, no overflow.  Bytes that are
  not UTF-8 are refused by the conversion before it; they are refused here as non-digits.
\<close>

definition digit_value :: "char \<Rightarrow> nat option" where
  "digit_value c =
     (let n = of_char c :: nat in if 48 \<le> n \<and> n \<le> 57 then Some (n - 48) else None)"

fun parse_digits :: "nat \<Rightarrow> string \<Rightarrow> nat option" where
  "parse_digits acc [] = Some acc"
| "parse_digits acc (c # cs) =
     (case digit_value c of
        None \<Rightarrow> None
      | Some d \<Rightarrow> if acc * 10 + d < 2 ^ 32 then parse_digits (acc * 10 + d) cs else None)"

definition parse_u32 :: "string \<Rightarrow> u32 option" where
  "parse_u32 t =
     (let digits = (case t of c # cs \<Rightarrow> if c = CHR ''+'' then cs else t | [] \<Rightarrow> t)
      in if digits = [] then None else map_option word_of_nat (parse_digits 0 digits))"

definition bad_schema_error :: error where
  "bad_schema_error = Other ''cf_meta/schema_version is not a valid u32: ''"

definition schema_mismatch_error :: "u32 \<Rightarrow> error" where
  "schema_mismatch_error on_disk =
     Other (''on-disk schema version '' @ show_nat (unat on_disk) @
            '' does not match this build's schema version '' @ show_nat (unat SCHEMA_VERSION) @
            ''; wipe the data dir to continue (the indexer is a derived cache, no data is lost)'')"

definition ensure_schema_version :: "('s, 'v, 'x) ext_scheme \<Rightarrow> ('s, unit) dbm" where
  "ensure_schema_version E =
     bnd (readm (\<lambda>s. db_get E s CF_META meta_SCHEMA_VERSION)) (\<lambda>r.
       case r of
         Some v \<Rightarrow>
           bnd (lift (ok_or bad_schema_error (parse_u32 (bytes_str (unraw E v))))) (\<lambda>on_disk.
             if on_disk \<noteq> SCHEMA_VERSION then fail (schema_mismatch_error on_disk) else ret ())
       | None \<Rightarrow>
           db_put E CF_META meta_SCHEMA_VERSION
             (raw E (str_bytes (show_nat (unat SCHEMA_VERSION)))))"

section \<open>Meta row and slot pointers\<close>

definition read_meta :: "('s, 'v, 'x) ext_scheme \<Rightarrow> 's \<Rightarrow> error + meta_row option" where
  "read_meta E s = get_decoded E s CF_META meta_ROW (decode_meta_row E)"

definition write_meta :: "('s, 'v, 'x) ext_scheme \<Rightarrow> meta_row \<Rightarrow> ('s, unit) dbm" where
  "write_meta E row = db_put E CF_META meta_ROW (encode_meta_row E row)"

definition update_last_final_slot :: "('s, 'v, 'x) ext_scheme \<Rightarrow> slot \<Rightarrow> ('s, unit) dbm" where
  "update_last_final_slot E sl = db_put E CF_META meta_LAST_FINAL_SLOT (encode_slot E sl)"

definition read_last_final_slot :: "('s, 'v, 'x) ext_scheme \<Rightarrow> 's \<Rightarrow> error + slot option" where
  "read_last_final_slot E s = get_decoded E s CF_META meta_LAST_FINAL_SLOT (decode_slot E)"

definition update_last_candidate_slot :: "('s, 'v, 'x) ext_scheme \<Rightarrow> slot \<Rightarrow> ('s, unit) dbm" where
  "update_last_candidate_slot E sl = db_put E CF_META meta_LAST_CANDIDATE_SLOT (encode_slot E sl)"

definition read_last_candidate_slot :: "('s, 'v, 'x) ext_scheme \<Rightarrow> 's \<Rightarrow> error + slot option" where
  "read_last_candidate_slot E s =
     get_decoded E s CF_META meta_LAST_CANDIDATE_SLOT (decode_slot E)"

section \<open>Slots\<close>

definition slot_row_key :: "slot \<Rightarrow> bytes" where
  "slot_row_key sl = slot_key (sl_period sl) (sl_thread sl)"

definition read_slot :: "('s, 'v, 'x) ext_scheme \<Rightarrow> 's \<Rightarrow> u64 \<Rightarrow> u8 \<Rightarrow> error + slot_state option" where
  "read_slot E s period thread =
     get_decoded E s CF_SLOT (slot_key period thread) (decode_slot_state E)"

definition write_slot :: "('s, 'v, 'x) ext_scheme \<Rightarrow> slot_state \<Rightarrow> ('s, unit) dbm" where
  "write_slot E st = db_put E CF_SLOT (slot_row_key (st_slot st)) (encode_slot_state E st)"

definition lowest_known_period :: "('s, 'v, 'x) ext_scheme \<Rightarrow> 's \<Rightarrow> error + u64 option" where
  "lowest_known_period E s =
     (case db_iter E s CF_SLOT IterStart of
        [] \<Rightarrow> Inr None
      | item # _ \<Rightarrow>
          rbind item (\<lambda>(k, v).
            case decode_slot_key k of Some (p, t) \<Rightarrow> Inr (Some p) | None \<Rightarrow> Inr None))"

section \<open>Blocks\<close>

definition read_block :: "('s, 'v, 'x) ext_scheme \<Rightarrow> 's \<Rightarrow> block_id \<Rightarrow> error + stored_block option" where
  "read_block E s ident = get_decoded E s CF_BLOCK (id_key ident) (decode_block E)"

definition block_batch :: "('s, 'v, 'x) ext_scheme \<Rightarrow> stored_block \<Rightarrow> 'v \<Rightarrow> 'v batch" where
  "block_batch E b v =
     (let p = sl_period (bk_slot b); t = sl_thread (bk_slot b); i = id_key (bk_id b) in
      [Put CF_BLOCK i v,
       Put IDX_BLOCK_BY_CREATOR (idx_block_by_creator (addr_key (bk_creator b)) p t i) (empty_value E),
       Put CF_SLOT_CANDIDATE_BLOCK (slot_key p t @ i) (empty_value E)])"

definition write_block :: "('s, 'v, 'x) ext_scheme \<Rightarrow> stored_block \<Rightarrow> ('s, unit) dbm" where
  "write_block E b =
     bnd (lift (codec_r (encode_block E b))) (\<lambda>v. db_write E (block_batch E b v))"

section \<open>Endorsements\<close>

definition parse_endo_id :: "'x crates_scheme \<Rightarrow> string \<Rightarrow> error + endorsement_id" where
  "parse_endo_id C t = rmap_err Other (endo_parse C t)"

definition read_endorsement ::
  "('s, 'v, 'x) ext_scheme \<Rightarrow> 's \<Rightarrow> string \<Rightarrow> error + stored_endorsement option" where
  "read_endorsement E s t =
     rbind (parse_endo_id E t) (\<lambda>ident.
       get_decoded E s CF_ENDORSEMENT (id_key ident) (decode_endorsement E))"

definition endorsement_batch ::
  "('s, 'v, 'x) ext_scheme \<Rightarrow> stored_endorsement \<Rightarrow> endorsement_id \<Rightarrow> 'v \<Rightarrow> 'v batch" where
  "endorsement_batch E e ident v =
     [Put CF_ENDORSEMENT (id_key ident) v,
      Put IDX_ENDORSEMENT_BY_CREATOR
        (idx_block_by_creator (addr_key (en_content_creator_address e))
           (sl_period (en_slot e)) (sl_thread (en_slot e)) (id_key ident)) (empty_value E)]"

definition write_endorsement :: "('s, 'v, 'x) ext_scheme \<Rightarrow> stored_endorsement \<Rightarrow> ('s, unit) dbm" where
  "write_endorsement E e =
     bnd (lift (parse_endo_id E (en_id e))) (\<lambda>ident.
     bnd (readm (\<lambda>s. db_get E s CF_ENDORSEMENT (id_key ident))) (\<lambda>prev.
       if is_some prev then ret ()
       else
         bnd (lift (codec_r (encode_endorsement E e))) (\<lambda>v.
           db_write E (endorsement_batch E e ident v))))"

section \<open>Operations\<close>

definition read_op :: "('s, 'v, 'x) ext_scheme \<Rightarrow> 's \<Rightarrow> operation_id \<Rightarrow> error + stored_operation option" where
  "read_op E s ident = get_decoded E s CF_OP (id_key ident) (decode_operation E)"

definition op_batch :: "('s, 'v, 'x) ext_scheme \<Rightarrow> stored_operation \<Rightarrow> 'v \<Rightarrow> 'v batch" where
  "op_batch E o1 v =
     Put CF_OP (id_key (op_id o1)) v #
     (case op_inclusions o1 of
        [] \<Rightarrow> []
      | first # _ \<Rightarrow>
          (let p = sl_period (oi_slot first); t = sl_thread (oi_slot first); i = id_key (op_id o1) in
           Put IDX_OP_BY_CREATOR (idx_op_by_creator (addr_key (op_creator o1)) p t i) (empty_value E) #
           (case op_target o1 of
              None \<Rightarrow> []
            | Some target \<Rightarrow>
                [Put IDX_OP_BY_TARGET (idx_op_by_target (addr_key target) p t i) (empty_value E)])))"

definition write_op :: "('s, 'v, 'x) ext_scheme \<Rightarrow> stored_operation \<Rightarrow> ('s, unit) dbm" where
  "write_op E o1 =
     bnd (lift (codec_r (encode_operation E o1))) (\<lambda>v. db_write E (op_batch E o1 v))"

section \<open>SC events\<close>

definition event_key_of :: "stored_sc_event \<Rightarrow> bytes" where
  "event_key_of e = sc_event_key (sl_period (ev_slot e)) (sl_thread (ev_slot e)) (ev_index_in_slot e)"

definition event_addr_key :: "stored_sc_event \<Rightarrow> address \<Rightarrow> bytes" where
  "event_addr_key e a =
     idx_event_by_addr (addr_key a) (sl_period (ev_slot e)) (sl_thread (ev_slot e))
       (ev_index_in_slot e)"

definition event_op_key :: "stored_sc_event \<Rightarrow> operation_id \<Rightarrow> bytes" where
  "event_op_key e i =
     idx_event_by_op (id_key i) (sl_period (ev_slot e)) (sl_thread (ev_slot e)) (ev_index_in_slot e)"

text \<open>The index entries of an event, written and cleared in the same order.\<close>

definition event_index :: "stored_sc_event \<Rightarrow> (cf \<times> bytes) list" where
  "event_index e =
     map (\<lambda>a. (IDX_SC_EVENT_BY_EMITTER, event_addr_key e a)) (ev_emitter_addrs e) @
     map (\<lambda>a. (IDX_SC_EVENT_BY_CALLER, event_addr_key e a)) (ev_caller_addrs e) @
     (case ev_op_id e of None \<Rightarrow> [] | Some i \<Rightarrow> [(IDX_SC_EVENT_BY_OP, event_op_key e i)])"

definition write_sc_event :: "('s, 'v, 'x) ext_scheme \<Rightarrow> stored_sc_event \<Rightarrow> ('s, unit) dbm" where
  "write_sc_event E e =
     bnd (lift (codec_r (encode_sc_event E e))) (\<lambda>v.
       db_write E (Put CF_SC_EVENT (event_key_of e) v #
                   map (\<lambda>(c, k). Put c k (empty_value E)) (event_index e)))"

text \<open>
  The loop of the per-slot readers: visit the rows under a prefix in order, until the first
  key outside it.
\<close>

fun prefix_rows :: "bytes \<Rightarrow> (bytes \<Rightarrow> 'v \<Rightarrow> error + 'a) \<Rightarrow> (error + bytes \<times> 'v) list \<Rightarrow> error + 'a list" where
  "prefix_rows prefix f [] = Inr []"
| "prefix_rows prefix f (Inl e # rest) = Inl e"
| "prefix_rows prefix f (Inr (k, v) # rest) =
     (if \<not> starts_with k prefix then Inr []
      else rbind (f k v) (\<lambda>x. rbind (prefix_rows prefix f rest) (\<lambda>xs. Inr (x # xs))))"

definition clear_event_row :: "('s, 'v, 'x) ext_scheme \<Rightarrow> bytes \<Rightarrow> 'v \<Rightarrow> 'v batch" where
  "clear_event_row E k v =
     (case decode_sc_event E v of
        Inl _ \<Rightarrow> []
      | Inr e \<Rightarrow> map (\<lambda>(c, i). Del c i) (event_index e)) @ [Del CF_SC_EVENT k]"

definition clear_sc_events_for_slot :: "('s, 'v, 'x) ext_scheme \<Rightarrow> u64 \<Rightarrow> u8 \<Rightarrow> ('s, unit) dbm" where
  "clear_sc_events_for_slot E period thread =
     (let prefix = slot_key period thread in
      bnd (readm (\<lambda>s. prefix_rows prefix (\<lambda>k v. Inr (clear_event_row E k v))
                   (db_iter E s CF_SC_EVENT (IterForward prefix)))) (\<lambda>rows.
        if rows \<noteq> [] then db_write E (concat rows) else ret ()))"

section \<open>Denunciations\<close>

definition hash_key_of :: "'x crates_scheme \<Rightarrow> string \<Rightarrow> error + bytes" where
  "hash_key_of C h = ok_or (Other ''hex hash: '') (hexdec C h)"

definition denunciation_index :: "stored_denunciation_entry \<Rightarrow> bytes \<Rightarrow> (cf \<times> bytes) list" where
  "denunciation_index d hash =
     (case de_denounced_addr d of
        None \<Rightarrow> []
      | Some a \<Rightarrow>
          [(IDX_DENUNCIATION_BY_ADDR,
            idx_denunciation_by_addr (addr_key a) (sl_period (de_slot d)) (sl_thread (de_slot d)) hash)]) @
     [(IDX_DENUNCIATION_RECENT,
       idx_denunciation_recent (sl_period (de_slot d)) (sl_thread (de_slot d)) hash)]"

definition write_denunciation ::
  "('s, 'v, 'x) ext_scheme \<Rightarrow> stored_denunciation_entry \<Rightarrow> ('s, unit) dbm" where
  "write_denunciation E d =
     bnd (lift (hash_key_of E (de_hash d))) (\<lambda>hash.
     bnd (readm (\<lambda>s. db_get E s CF_DENUNCIATION hash)) (\<lambda>found.
       case found of
         Some v \<Rightarrow>
           bnd (lift (codec_r (decode_denunciation_entry E v))) (\<lambda>prev.
             if \<not> is_some (de_included_block_id prev) \<and> is_some (de_included_block_id d)
             then
               bnd (lift (codec_r (encode_denunciation_entry E
                      (prev\<lparr>de_included_block_id := de_included_block_id d,
                            de_included_slot := de_included_slot d\<rparr>)))) (\<lambda>w.
                 db_put E CF_DENUNCIATION hash w)
             else ret ())
       | None \<Rightarrow>
           bnd (lift (codec_r (encode_denunciation_entry E d))) (\<lambda>w.
             db_write E (Put CF_DENUNCIATION hash w #
                         map (\<lambda>(c, k). Put c k (empty_value E)) (denunciation_index d hash)))))"

definition read_denunciation ::
  "('s, 'v, 'x) ext_scheme \<Rightarrow> 's \<Rightarrow> string \<Rightarrow> error + stored_denunciation_entry option" where
  "read_denunciation E s h =
     rbind (hash_key_of E h) (\<lambda>hash.
       get_decoded E s CF_DENUNCIATION hash (decode_denunciation_entry E))"

section \<open>Transfers\<close>

definition transfer_key_of :: "stored_transfer \<Rightarrow> bytes" where
  "transfer_key_of t =
     transfer_key (sl_period (tr_slot t)) (sl_thread (tr_slot t)) (tr_index_in_slot t)"

definition opt_entry :: "('i \<Rightarrow> 'k) \<Rightarrow> (string \<Rightarrow> string + 'i) \<Rightarrow> string option \<Rightarrow> 'k list" where
  "opt_entry key_of parse t =
     (case t of None \<Rightarrow> [] | Some u \<Rightarrow> (case parse u of Inl _ \<Rightarrow> [] | Inr i \<Rightarrow> [key_of i]))"

definition transfer_index :: "'x crates_scheme \<Rightarrow> stored_transfer \<Rightarrow> (cf \<times> bytes) list" where
  "transfer_index C t =
     (let p = sl_period (tr_slot t); th = sl_thread (tr_slot t); i = tr_index_in_slot t in
      opt_entry (\<lambda>a. (IDX_TRANSFER_BY_ADDR, idx_transfer_by_addr (addr_key a) p th i 1))
        (addr_parse C) (tr_from t) @
      opt_entry (\<lambda>a. (IDX_TRANSFER_BY_ADDR, idx_transfer_by_addr (addr_key a) p th i 2))
        (addr_parse C) (tr_to t) @
      opt_entry (\<lambda>x. (IDX_TRANSFER_BY_OP, idx_transfer_by_op (id_key x) p th i))
        (op_parse C) (tr_operation_id t) @
      opt_entry (\<lambda>x. (IDX_TRANSFER_BY_BLOCK, idx_transfer_by_block (id_key x) p th i))
        (block_parse C) (tr_block_id t))"

definition write_transfer :: "('s, 'v, 'x) ext_scheme \<Rightarrow> stored_transfer \<Rightarrow> ('s, unit) dbm" where
  "write_transfer E t =
     db_write E (Put CF_TRANSFER (transfer_key_of t) (encode_transfer E t) #
                 map (\<lambda>(c, k). Put c k (empty_value E)) (transfer_index E t))"

definition read_transfer ::
  "('s, 'v, 'x) ext_scheme \<Rightarrow> 's \<Rightarrow> u64 \<Rightarrow> u8 \<Rightarrow> u32 \<Rightarrow> error + stored_transfer option" where
  "read_transfer E s period thread index =
     get_decoded E s CF_TRANSFER (transfer_key period thread index) (decode_transfer E)"

definition iter_transfers_for_slot ::
  "('s, 'v, 'x) ext_scheme \<Rightarrow> 's \<Rightarrow> u64 \<Rightarrow> u8 \<Rightarrow> error + stored_transfer list" where
  "iter_transfers_for_slot E s period thread =
     (let prefix = slot_key period thread in
      prefix_rows prefix (\<lambda>k v. codec_r (decode_transfer E v))
        (db_iter E s CF_TRANSFER (IterForward prefix)))"

definition clear_transfer_row :: "('s, 'v, 'x) ext_scheme \<Rightarrow> bytes \<Rightarrow> 'v \<Rightarrow> 'v batch" where
  "clear_transfer_row E k v =
     (case decode_transfer E v of
        Inl _ \<Rightarrow> []
      | Inr t \<Rightarrow> map (\<lambda>(c, i). Del c i) (transfer_index E t)) @ [Del CF_TRANSFER k]"

definition clear_transfers_for_slot :: "('s, 'v, 'x) ext_scheme \<Rightarrow> u64 \<Rightarrow> u8 \<Rightarrow> ('s, unit) dbm" where
  "clear_transfers_for_slot E period thread =
     (let prefix = slot_key period thread in
      bnd (readm (\<lambda>s. prefix_rows prefix (\<lambda>k v. Inr (clear_transfer_row E k v))
                   (db_iter E s CF_TRANSFER (IterForward prefix)))) (\<lambda>rows.
        if rows \<noteq> [] then db_write E (concat rows) else ret ()))"

section \<open>What each write touches\<close>

lemma touches_put' [frame_intros]: "store_ok E R \<Longrightarrow> c \<in> cs \<Longrightarrow> touches R cs (db_put E c k v)"
  by (rule touches_put)

lemma touches_write_meta [frame_intros]:
  "store_ok E R \<Longrightarrow> CF_META \<in> cs \<Longrightarrow> touches R cs (write_meta E row)"
  unfolding write_meta_def by (intro frame_intros)

lemma touches_update_last_final_slot [frame_intros]:
  "store_ok E R \<Longrightarrow> CF_META \<in> cs \<Longrightarrow> touches R cs (update_last_final_slot E sl)"
  unfolding update_last_final_slot_def by (intro frame_intros)

lemma touches_update_last_candidate_slot [frame_intros]:
  "store_ok E R \<Longrightarrow> CF_META \<in> cs \<Longrightarrow> touches R cs (update_last_candidate_slot E sl)"
  unfolding update_last_candidate_slot_def by (intro frame_intros)

lemma touches_write_slot [frame_intros]:
  "store_ok E R \<Longrightarrow> CF_SLOT \<in> cs \<Longrightarrow> touches R cs (write_slot E st)"
  unfolding write_slot_def by (intro frame_intros)

lemma touches_write_block [frame_intros]:
  "store_ok E R \<Longrightarrow> CF_BLOCK \<in> cs \<Longrightarrow> IDX_BLOCK_BY_CREATOR \<in> cs \<Longrightarrow>
   CF_SLOT_CANDIDATE_BLOCK \<in> cs \<Longrightarrow> touches R cs (write_block E b)"
  unfolding write_block_def by (intro frame_intros touches_write) (auto simp: block_batch_def Let_def)

lemma touches_write_endorsement [frame_intros]:
  "store_ok E R \<Longrightarrow> CF_ENDORSEMENT \<in> cs \<Longrightarrow> IDX_ENDORSEMENT_BY_CREATOR \<in> cs \<Longrightarrow>
   touches R cs (write_endorsement E e)"
  unfolding write_endorsement_def
  by (intro frame_intros touches_write) (auto simp: endorsement_batch_def)

lemma touches_write_op [frame_intros]:
  "store_ok E R \<Longrightarrow> CF_OP \<in> cs \<Longrightarrow> IDX_OP_BY_CREATOR \<in> cs \<Longrightarrow> IDX_OP_BY_TARGET \<in> cs \<Longrightarrow>
   touches R cs (write_op E p)"
  unfolding write_op_def
  by (intro frame_intros touches_write) (auto simp: op_batch_def Let_def split: list.splits option.splits)

definition event_cfs :: "cf set" where
  "event_cfs = {CF_SC_EVENT, IDX_SC_EVENT_BY_EMITTER, IDX_SC_EVENT_BY_CALLER, IDX_SC_EVENT_BY_OP}"

definition denunciation_cfs :: "cf set" where
  "denunciation_cfs = {CF_DENUNCIATION, IDX_DENUNCIATION_BY_ADDR, IDX_DENUNCIATION_RECENT}"

definition transfer_cfs :: "cf set" where
  "transfer_cfs = {CF_TRANSFER, IDX_TRANSFER_BY_ADDR, IDX_TRANSFER_BY_OP, IDX_TRANSFER_BY_BLOCK}"

lemma event_index_cfs: "(c, k) \<in> set (event_index e) \<Longrightarrow> c \<in> event_cfs"
  by (auto simp: event_index_def event_cfs_def split: option.splits)

lemma denunciation_index_cfs: "(c, k) \<in> set (denunciation_index d h) \<Longrightarrow> c \<in> denunciation_cfs"
  by (auto simp: denunciation_index_def denunciation_cfs_def split: option.splits)

lemma transfer_index_cfs: "(c, k) \<in> set (transfer_index C t) \<Longrightarrow> c \<in> transfer_cfs"
  by (auto simp: transfer_index_def transfer_cfs_def opt_entry_def Let_def
      split: option.splits sum.splits)

lemma touches_write_sc_event [frame_intros]:
  "store_ok E R \<Longrightarrow> event_cfs \<subseteq> cs \<Longrightarrow> touches R cs (write_sc_event E e)"
  unfolding write_sc_event_def
  by (intro frame_intros touches_write) (auto dest: event_index_cfs simp: event_cfs_def)

lemma touches_write_denunciation [frame_intros]:
  "store_ok E R \<Longrightarrow> denunciation_cfs \<subseteq> cs \<Longrightarrow> touches R cs (write_denunciation E d)"
  unfolding write_denunciation_def
  by (intro frame_intros touches_write)
    (auto dest: denunciation_index_cfs simp: denunciation_cfs_def)

lemma touches_write_transfer [frame_intros]:
  "store_ok E R \<Longrightarrow> transfer_cfs \<subseteq> cs \<Longrightarrow> touches R cs (write_transfer E t)"
  unfolding write_transfer_def
  by (intro frame_intros touches_write) (auto dest: transfer_index_cfs simp: transfer_cfs_def)

end
