(* ===== verification/Index.thy ===== *)
theory Index
  imports Store
begin

text \<open>
  The two contracts the database operations are held to.

  \<open>keyed_rows\<close>: a write of a well-formed row succeeds on a healthy store, is what reads of
  its key return from then on, and is invisible to reads of every other key; so of a sequence of
  writes the last one under a key wins.

  \<open>indexed_rows\<close>: a family of primary rows and the index families derived from them.
  \<open>exact\<close> says that the index families hold the entries of the stored rows and nothing else:
  no dangling entry and no missing one.  The locale shows what a batch must do to keep
  that: add or replace one row, or remove a set of rows.
\<close>

section \<open>Keyed rows\<close>

locale keyed_rows =
  fixes ok :: bool
    and wf :: "'r \<Rightarrow> bool"
    and key_of :: "'r \<Rightarrow> 'k"
    and get_row :: "'s \<Rightarrow> 'k \<Rightarrow> error + 'r option"
    and put_row :: "'r \<Rightarrow> ('s, unit) dbm"
  assumes put_get: "ok \<Longrightarrow> wf r \<Longrightarrow> \<exists>t. put_row r s = (Inr (), t) \<and>
    (\<forall>k. get_row t k = (if k = key_of r then Inr (Some r) else get_row s k))"
begin

lemma put_same: "ok \<Longrightarrow> wf r \<Longrightarrow> put_row r s = (x, t) \<Longrightarrow> get_row t (key_of r) = Inr (Some r)"
  using put_get [of r s] by auto

lemma put_other:
  "ok \<Longrightarrow> wf r \<Longrightarrow> put_row r s = (x, t) \<Longrightarrow> k \<noteq> key_of r \<Longrightarrow> get_row t k = get_row s k"
  using put_get [of r s] by auto

lemma put_all:
  assumes ok
  shows "(\<And>r. r \<in> set rs \<Longrightarrow> wf r) \<Longrightarrow> \<exists>t. for_each rs put_row s = (Inr (), t) \<and>
    (\<forall>k. get_row t k = (case find (\<lambda>r. key_of r = k) (rev rs) of
                          None \<Rightarrow> get_row s k | Some r \<Rightarrow> Inr (Some r)))"
proof (induction rs arbitrary: s)
  case Nil
  then show ?case
    by (simp add: ret_def)
next
  case (Cons r rs)
  obtain t where t: "put_row r s = (Inr (), t)"
      "\<And>k. get_row t k = (if k = key_of r then Inr (Some r) else get_row s k)"
    using put_get [OF assms, of r s] Cons.prems by auto
  obtain u where u: "for_each rs put_row t = (Inr (), u)"
      "\<And>k. get_row u k = (case find (\<lambda>r. key_of r = k) (rev rs) of
                          None \<Rightarrow> get_row t k | Some r \<Rightarrow> Inr (Some r))"
    using Cons.IH [of t] Cons.prems by auto
  have find_snoc: "find P (ys @ [y]) =
      (case find P ys of None \<Rightarrow> if P y then Some y else None | Some z \<Rightarrow> Some z)" for P ys y
    by (induction ys) auto
  show ?case
  proof (intro exI conjI allI)
    show "for_each (r # rs) put_row s = (Inr (), u)"
      using t u by (simp add: bnd_def)
    show "get_row u k = (case find (\<lambda>r. key_of r = k) (rev (r # rs)) of
        None \<Rightarrow> get_row s k | Some r \<Rightarrow> Inr (Some r))" for k
      using t(2) u(2) by (auto simp: find_snoc split: option.splits)
  qed
qed

end

section \<open>Rows and their index entries\<close>

definition exact ::
  "('v \<Rightarrow> codec_error + 'r) \<Rightarrow> cf \<Rightarrow> cf set \<Rightarrow> ('r \<Rightarrow> bytes) \<Rightarrow> ('r \<Rightarrow> (cf \<times> bytes) set) \<Rightarrow>
   'v tables \<Rightarrow> bool" where
  "exact dec prim ics pk ix T \<longleftrightarrow>
     (\<forall>k v. T prim k = Some v \<longrightarrow> (\<exists>r. dec v = Inr r \<and> pk r = k)) \<and>
     (\<forall>c\<in>ics. \<forall>i. T c i \<noteq> None \<longleftrightarrow>
        (\<exists>k v r. T prim k = Some v \<and> dec v = Inr r \<and> (c, i) \<in> ix r))"

definition puts :: "(cf \<times> bytes) list \<Rightarrow> 'v \<Rightarrow> 'v batch" where
  "puts es v = map (\<lambda>(c, k). Put c k v) es"

definition dels :: "(cf \<times> bytes) list \<Rightarrow> 'v batch" where
  "dels es = map (\<lambda>(c, k). Del c k) es"

lemma apply_puts:
  "apply_batch (puts es v) T c k = (if (c, k) \<in> set es then Some v else T c k)"
  by (induction es arbitrary: T) (auto simp: puts_def split: if_splits)

lemma apply_dels_at:
  "apply_batch (dels es) T c k = (if (c, k) \<in> set es then None else T c k)"
  by (induction es arbitrary: T) (auto simp: dels_def split: if_splits)

lemma apply_all_dels:
  "(\<And>w. w \<in> set b \<Longrightarrow> \<exists>c k. w = Del c k) \<Longrightarrow>
   apply_batch b T c k = (if Del c k \<in> set b then None else T c k)"
proof (induction b arbitrary: T)
  case Nil
  then show ?case by simp
next
  case (Cons w b)
  then obtain c' k' where "w = Del c' k'"
    by (metis list.set_intros(1))
  with Cons show ?case
    by auto
qed

text \<open>The deletions of a stored row: its entries when it decodes, and its key.\<close>

definition clear_row ::
  "('v \<Rightarrow> codec_error + 'r) \<Rightarrow> cf \<Rightarrow> ('r \<Rightarrow> (cf \<times> bytes) list) \<Rightarrow> bytes \<Rightarrow> 'v \<Rightarrow> 'v batch" where
  "clear_row dec prim idx k v =
     (case dec v of Inl _ \<Rightarrow> [] | Inr r \<Rightarrow> dels (idx r)) @ [Del prim k]"

lemma Del_clear_row:
  "Del c i \<in> set (clear_row dec prim idx k v) \<longleftrightarrow>
     c = prim \<and> i = k \<or> (\<exists>r. dec v = Inr r \<and> (c, i) \<in> set (idx r))"
  by (cases "dec v") (auto simp: clear_row_def dels_def image_iff)

lemma clear_row_dels: "w \<in> set (clear_row dec prim idx k v) \<Longrightarrow> \<exists>c i. w = Del c i"
  by (cases "dec v") (auto simp: clear_row_def dels_def)

locale indexed_rows =
  fixes ok :: bool
    and dec :: "'v \<Rightarrow> codec_error + 'r"
    and prim :: cf
    and ics :: "cf set"
    and pk :: "'r \<Rightarrow> bytes"
    and ix :: "'r \<Rightarrow> (cf \<times> bytes) set"
    and fits :: "'r \<Rightarrow> bool"
  assumes prim_not_index: "prim \<notin> ics"
    and ix_cfs: "(c, k) \<in> ix r \<Longrightarrow> c \<in> ics"
    and ix_key: "ok \<Longrightarrow> fits r \<Longrightarrow> fits q \<Longrightarrow> e \<in> ix r \<Longrightarrow> e \<in> ix q \<Longrightarrow> pk r = pk q"
    and dec_fits: "ok \<Longrightarrow> dec v = Inr r \<Longrightarrow> fits r"
begin

lemma ix_prim [simp]: "(prim, k) \<notin> ix r"
  using ix_cfs prim_not_index by blast

lemma exact_owner:
  assumes "exact dec prim ics pk ix T" "c \<in> ics" "T c i \<noteq> None"
  obtains v r where "T prim (pk r) = Some v" "dec v = Inr r" "(c, i) \<in> ix r"
proof -
  obtain k v r where r: "T prim k = Some v" "dec v = Inr r" "(c, i) \<in> ix r"
    using assms unfolding exact_def by blast
  then obtain r' where "dec v = Inr r'" "pk r' = k"
    using assms(1) unfolding exact_def by blast
  with r that show ?thesis
    by auto
qed

lemma weaken:
  assumes "ok' \<Longrightarrow> ok"
  shows "indexed_rows ok' dec prim ics pk ix fits"
proof
  show "prim \<notin> ics" by (rule prim_not_index)
  show "(c, k) \<in> ix r \<Longrightarrow> c \<in> ics" for c k r by (rule ix_cfs)
  show "ok' \<Longrightarrow> fits r \<Longrightarrow> fits q \<Longrightarrow> e \<in> ix r \<Longrightarrow> e \<in> ix q \<Longrightarrow> pk r = pk q" for r q e
    by (rule ix_key [OF assms])
  show "ok' \<Longrightarrow> dec v = Inr r \<Longrightarrow> fits r" for v r
    by (rule dec_fits [OF assms])
qed

text \<open>Replacing one row: its new entries are added and the old ones it loses are dropped.\<close>

lemma exact_put:
  assumes ok "exact dec prim ics pk ix T"
    and prim': "\<And>k. T' prim k = (if k = pk r then Some v else T prim k)" "dec v = Inr r"
    and index': "\<And>c i. c \<in> ics \<Longrightarrow> T' c i \<noteq> None \<longleftrightarrow>
      (c, i) \<in> ix r \<or> T c i \<noteq> None \<and>
        \<not> (\<exists>w q. T prim (pk r) = Some w \<and> dec w = Inr q \<and> (c, i) \<in> ix q)"
  shows "exact dec prim ics pk ix T'"
  unfolding exact_def
proof (intro conjI allI impI ballI)
  fix k w assume "T' prim k = Some w"
  then show "\<exists>q. dec w = Inr q \<and> pk q = k"
    using assms by (auto simp: exact_def split: if_splits)
next
  fix c i assume c: "c \<in> ics"
  show "T' c i \<noteq> None \<longleftrightarrow> (\<exists>k w q. T' prim k = Some w \<and> dec w = Inr q \<and> (c, i) \<in> ix q)"
    (is "?L \<longleftrightarrow> ?R")
  proof
    assume ?L
    then consider "(c, i) \<in> ix r" | "T c i \<noteq> None"
        "\<not> (\<exists>w q. T prim (pk r) = Some w \<and> dec w = Inr q \<and> (c, i) \<in> ix q)"
      using index' [OF c] by blast
    then show ?R
    proof cases
      case 1
      then show ?thesis using prim' by (intro exI [of _ "pk r"] exI [of _ v] exI [of _ r]) simp
    next
      case 2
      obtain w q where q: "T prim (pk q) = Some w" "dec w = Inr q" "(c, i) \<in> ix q"
        using exact_owner [OF assms(2) c 2(1)] by blast
      then have "pk q \<noteq> pk r"
        using 2(2) by metis
      with q show ?thesis
        using prim'(1) [of "pk q"] by (intro exI [of _ "pk q"] exI [of _ w] exI [of _ q]) simp
    qed
  next
    assume ?R
    then obtain k w q where q: "T' prim k = Some w" "dec w = Inr q" "(c, i) \<in> ix q"
      by blast
    show ?L
    proof (cases "k = pk r")
      case True
      then have "q = r"
        using q prim' by simp
      then show ?thesis
        using index' [OF c] q by simp
    next
      case False
      then have old: "T prim k = Some w"
        using q prim' by simp
      then have k: "pk q = k"
        using assms(2) q(2) unfolding exact_def by fastforce
      have here: "T c i \<noteq> None"
        using assms(2) c old q unfolding exact_def by blast
      have "pk z = k" if "dec u = Inr z" "(c, i) \<in> ix z" for u z
        using ix_key [OF assms(1) dec_fits [OF assms(1) that(1)] dec_fits [OF assms(1) q(2)] that(2) q(3)]
          k by simp
      moreover have "pk z = pk r" if "T prim (pk r) = Some u" "dec u = Inr z" for u z
        using assms(2) that unfolding exact_def by fastforce
      ultimately show ?thesis
        using index' [OF c] here False by metis
    qed
  qed
qed

text \<open>Removing the rows with keys in \<open>K\<close>, and their entries.\<close>

lemma exact_remove:
  assumes ok "exact dec prim ics pk ix T"
    and prim': "\<And>k. T' prim k = (if k \<in> K then None else T prim k)"
    and index': "\<And>c i. c \<in> ics \<Longrightarrow> T' c i \<noteq> None \<longleftrightarrow> T c i \<noteq> None \<and>
        \<not> (\<exists>k\<in>K. \<exists>w q. T prim k = Some w \<and> dec w = Inr q \<and> (c, i) \<in> ix q)"
  shows "exact dec prim ics pk ix T'"
  unfolding exact_def
proof (intro conjI allI impI ballI)
  fix k w assume "T' prim k = Some w"
  then show "\<exists>q. dec w = Inr q \<and> pk q = k"
    using assms by (auto simp: exact_def split: if_splits)
next
  fix c i assume c: "c \<in> ics"
  show "T' c i \<noteq> None \<longleftrightarrow> (\<exists>k w q. T' prim k = Some w \<and> dec w = Inr q \<and> (c, i) \<in> ix q)"
    (is "?L \<longleftrightarrow> ?R")
  proof
    assume ?L
    then have here: "T c i \<noteq> None"
      and gone: "\<not> (\<exists>k\<in>K. \<exists>w q. T prim k = Some w \<and> dec w = Inr q \<and> (c, i) \<in> ix q)"
      using index' [OF c] by blast+
    obtain w q where q: "T prim (pk q) = Some w" "dec w = Inr q" "(c, i) \<in> ix q"
      using exact_owner [OF assms(2) c here] by blast
    then have "pk q \<notin> K"
      using gone by blast
    with q show ?R
      using prim' [of "pk q"] by (intro exI [of _ "pk q"] exI [of _ w] exI [of _ q]) simp
  next
    assume ?R
    then obtain k w q where q: "T' prim k = Some w" "dec w = Inr q" "(c, i) \<in> ix q"
      by blast
    then have k: "k \<notin> K" "T prim k = Some w"
      using prim' [of k] by (auto split: if_splits)
    have pkq: "pk q = k"
      using assms(2) k(2) q(2) unfolding exact_def by fastforce
    have here: "T c i \<noteq> None"
      using assms(2) c k(2) q unfolding exact_def by blast
    have "\<not> (\<exists>k'\<in>K. \<exists>u z. T prim k' = Some u \<and> dec u = Inr z \<and> (c, i) \<in> ix z)"
    proof (intro notI, elim bexE exE conjE)
      fix k' u z assume z: "k' \<in> K" "T prim k' = Some u" "dec u = Inr z" "(c, i) \<in> ix z"
      then have "pk z = k'"
        using assms(2) unfolding exact_def by fastforce
      moreover have "pk z = pk q"
        using ix_key [OF assms(1) dec_fits [OF assms(1) z(3)] dec_fits [OF assms(1) q(2)] z(4) q(3)] .
      ultimately show False
        using k(1) pkq z(1) by simp
    qed
    with here show ?L
      using index' [OF c] by blast
  qed
qed

lemma clear_rows:
  assumes ok "store_ok E R" and ix: "\<And>r. ix r = set (idx r)"
    and b: "b = concat (map (\<lambda>(k, v). clear_row dec prim idx k v) (filter (\<lambda>(k, v). P k) (R s prim)))"
    and t: "table R t = apply_batch b (table R s)"
  shows "table R t prim k = (if P k then None else table R s prim k)"
    and "exact dec prim ics pk ix (table R s) \<Longrightarrow> exact dec prim ics pk ix (table R t)"
proof -
  have rows: "(k, v) \<in> set (R s prim) \<longleftrightarrow> table R s prim k = Some v" for k v
    by (rule in_rows_iff [OF assms(2)])
  have batch: "table R t c i = (if Del c i \<in> set b then None else table R s c i)" for c i
    unfolding t by (rule apply_all_dels) (auto simp: b dest: clear_row_dels)
  have Del: "Del c i \<in> set b \<longleftrightarrow> (\<exists>k v. table R s prim k = Some v \<and> P k \<and>
      (c = prim \<and> i = k \<or> (\<exists>r. dec v = Inr r \<and> (c, i) \<in> set (idx r))))" for c i
    by (auto simp: b Del_clear_row rows)
  have idx_prim: "(prim, i) \<notin> set (idx r)" for i r
    using ix ix_prim by metis
  show prim': "table R t prim k = (if P k then None else table R s prim k)" for k
    by (cases "table R s prim k") (auto simp: batch Del idx_prim)
  assume ex: "exact dec prim ics pk ix (table R s)"
  show "exact dec prim ics pk ix (table R t)"
  proof (rule exact_remove [OF assms(1) ex, where K = "{k. P k}"])
    show "table R t prim k = (if k \<in> {k. P k} then None else table R s prim k)" for k
      using prim' by simp
    fix c i assume "c \<in> ics"
    then have "c \<noteq> prim"
      using prim_not_index by blast
    then show "(table R t c i \<noteq> None) = (table R s c i \<noteq> None \<and>
        \<not> (\<exists>k\<in>{k. P k}. \<exists>w q. table R s prim k = Some w \<and> dec w = Inr q \<and> (c, i) \<in> ix q))"
      by (auto simp: batch Del ix)
  qed
qed

lemma write_row:
  assumes ok "exact dec prim ics pk ix T" and ix: "ix r = set es" and v: "dec v = Inr r"
    and fresh: "T prim (pk r) = None \<or> (\<exists>w. T prim (pk r) = Some w \<and> dec w = Inr r)"
  shows "exact dec prim ics pk ix (apply_batch (Put prim (pk r) v # puts es e) T)"
proof (rule exact_put [OF assms(1,2) _ v])
  have prim: "(prim, k) \<notin> set es" for k
    using ix ix_prim by metis
  show "apply_batch (Put prim (pk r) v # puts es e) T prim k = (if k = pk r then Some v else T prim k)" for k
    by (simp add: apply_puts prim)
  fix c i assume "c \<in> ics"
  then have "c \<noteq> prim"
    using prim_not_index by blast
  then show "(apply_batch (Put prim (pk r) v # puts es e) T c i \<noteq> None) =
      ((c, i) \<in> ix r \<or> T c i \<noteq> None \<and>
        \<not> (\<exists>w q. T prim (pk r) = Some w \<and> dec w = Inr q \<and> (c, i) \<in> ix q))"
    using fresh by (auto simp: apply_puts ix)
qed

text \<open>
  An upsert: the row is stored, entries the old row loses are deleted, the new entries are
  added.  \<open>stale\<close> may name any entries of the old row that cover what it loses.
\<close>

lemma upsert_row:
  assumes ok "exact dec prim ics pk ix T" and ix: "ix r = set es" and v: "dec v = Inr r"
    and stale: "\<And>e. e \<in> set stale \<Longrightarrow> \<exists>w q. T prim (pk r) = Some w \<and> dec w = Inr q \<and> e \<in> ix q"
    and covers: "\<And>w q. T prim (pk r) = Some w \<Longrightarrow> dec w = Inr q \<Longrightarrow> ix q \<subseteq> set stale \<union> set es"
    and T': "T' = apply_batch (Put prim (pk r) v # dels stale @ puts es e) T"
  shows "exact dec prim ics pk ix T'" and "T' prim k = (if k = pk r then Some v else T prim k)"
proof -
  have prim: "(prim, k) \<notin> set es" "(prim, k) \<notin> set stale" for k
    using ix ix_prim stale by metis+
  show prim': "T' prim k = (if k = pk r then Some v else T prim k)" for k
    by (simp add: T' apply_puts apply_dels_at prim)
  show "exact dec prim ics pk ix T'"
  proof (rule exact_put [where r = r and v = v and T = T and T' = T', OF assms(1,2) prim' v])
    fix c i assume "c \<in> ics"
    then have "c \<noteq> prim"
      using prim_not_index by blast
    then have T'c: "T' c i = (if (c, i) \<in> set es then Some e else if (c, i) \<in> set stale then None else T c i)"
      by (simp add: T' apply_puts apply_dels_at)
    show "(T' c i \<noteq> None) = ((c, i) \<in> ix r \<or> T c i \<noteq> None \<and>
        \<not> (\<exists>w q. T prim (pk r) = Some w \<and> dec w = Inr q \<and> (c, i) \<in> ix q))"
    proof (cases "(c, i) \<in> set es")
      case True
      then show ?thesis by (simp add: T'c ix)
    next
      case False
      then have "(c, i) \<in> set stale \<longleftrightarrow>
          (\<exists>w q. T prim (pk r) = Some w \<and> dec w = Inr q \<and> (c, i) \<in> ix q)"
        using stale [of "(c, i)"] covers by blast
      with False show ?thesis by (auto simp: T'c ix)
    qed
  qed
qed

definition stored :: "'v tables \<Rightarrow> 'r \<Rightarrow> bool" where
  "stored T r \<longleftrightarrow> (\<exists>v. T prim (pk r) = Some v \<and> dec v = Inr r)"

lemma exact_entry_iff:
  "exact dec prim ics pk ix T \<Longrightarrow> c \<in> ics \<Longrightarrow> T c i \<noteq> None \<longleftrightarrow> (\<exists>r. stored T r \<and> (c, i) \<in> ix r)"
proof
  assume "exact dec prim ics pk ix T" "c \<in> ics" "T c i \<noteq> None"
  then show "\<exists>r. stored T r \<and> (c, i) \<in> ix r"
    using exact_owner [of T c i] unfolding stored_def by metis
next
  assume "exact dec prim ics pk ix T" "c \<in> ics" "\<exists>r. stored T r \<and> (c, i) \<in> ix r"
  then show "T c i \<noteq> None"
    unfolding stored_def exact_def by blast
qed

text \<open>Reading an index under a prefix finds exactly the rows with an entry under it.\<close>

lemma entries_under:
  assumes "exact dec prim ics pk ix (table R s)" "c \<in> ics" "store_ok E R"
    and target: "\<And>i r. (c, i) \<in> ix r \<Longrightarrow> P i \<Longrightarrow> pk r = target i"
  shows "(\<exists>i v. (i, v) \<in> set (R s c) \<and> P i \<and>
      Option.bind (table R s prim (target i)) (\<lambda>w. res_ok (dec w)) = Some r) \<longleftrightarrow>
    stored (table R s) r \<and> (\<exists>i. (c, i) \<in> ix r \<and> P i)" (is "?L \<longleftrightarrow> ?R")
proof
  assume ?L
  then obtain i v w where i: "table R s c i = Some v" "P i"
      and w: "table R s prim (target i) = Some w" "dec w = Inr r"
    by (auto simp: in_rows_iff [OF assms(3)] bind_eq_Some_conv)
  then obtain q where q: "stored (table R s) q" "(c, i) \<in> ix q"
    using exact_entry_iff [OF assms(1,2), of i] by auto
  then have "q = r"
    using target [OF q(2) i(2)] w by (auto simp: stored_def)
  with q i show ?R
    by blast
next
  assume ?R
  then obtain i where r: "stored (table R s) r" "(c, i) \<in> ix r" "P i"
    by blast
  then obtain v where "table R s c i = Some v"
    using exact_entry_iff [OF assms(1,2), of i] by auto
  moreover have "Option.bind (table R s prim (target i)) (\<lambda>w. res_ok (dec w)) = Some r"
    using r target [OF r(2,3)] by (auto simp: stored_def)
  ultimately show ?L
    using r(3) in_rows_iff [OF assms(3)] by blast
qed

lemma exact_other:
  "exact dec prim ics pk ix T \<Longrightarrow> (\<And>c. c \<in> insert prim ics \<Longrightarrow> T' c = T c) \<Longrightarrow>
   exact dec prim ics pk ix T'"
  unfolding exact_def by simp

end

end
