(* ===== verification/Db_Row_Laws.thy ===== *)
theory Db_Row_Laws
  imports Db_Rows Index
begin

text \<open>
  The contracts of the row operations: slots, blocks, operations and transfers are keyed
  rows, endorsements and denunciations keep their first sighting, events and
  transfers are indexed rows whose indexes stay exact under write and clear, and the schema check
  refuses every store but one of this version.
\<close>

definition db_ok :: "('s, 'v, 'x) ext_scheme \<Rightarrow> ('s, 'v) rows \<Rightarrow> bool" where
  "db_ok E R \<longleftrightarrow> wires_ok E \<and> store_ok E R \<and> healthy E"

lemma db_okD: "db_ok E R \<Longrightarrow> wires_ok E" "db_ok E R \<Longrightarrow> store_ok E R" "db_ok E R \<Longrightarrow> healthy E"
    "db_ok E R \<Longrightarrow> crates_ok E"
  by (simp_all add: db_ok_def wires_okD)

section \<open>Reads and writes on a healthy store\<close>

lemma db_get_ok: "db_ok E R \<Longrightarrow> db_get E s c k = Inr (table R s c k)"
  by (simp add: db_ok_def db_get_healthy)

lemma db_write_ok:
  assumes "db_ok E R"
  obtains t where "db_write E b s = (Inr (), t)" "table R t = apply_batch b (table R s)"
  using assms db_write_healthy unfolding db_ok_def by metis

lemma db_iter_ok: "db_ok E R \<Longrightarrow> db_iter E s c m = map Inr (seek m (R s c))"
  by (simp add: db_ok_def db_iter_healthy)

lemma get_decoded_ok:
  "db_ok E R \<Longrightarrow> get_decoded E s c k dec =
    (case table R s c k of None \<Rightarrow> Inr None | Some v \<Rightarrow> rbind (codec_r (dec v)) (\<lambda>x. Inr (Some x)))"
  by (simp add: get_decoded_def db_get_ok split: option.splits)

lemma write_decoded:
  assumes "db_ok E R" "dec v = Inr r" "c \<notin> write_cf ` set rest"
  shows "\<exists>t. db_write E (Put c k v # rest) s = (Inr (), t) \<and>
    (\<forall>k'. get_decoded E t c k' dec = (if k' = k then Inr (Some r) else get_decoded E s c k' dec))"
proof -
  obtain t where t: "db_write E (Put c k v # rest) s = (Inr (), t)"
      "table R t = apply_batch (Put c k v # rest) (table R s)"
    by (rule db_write_ok [OF assms(1)])
  then have "table R t c = (table R s c)(k \<mapsto> v)"
    using assms(3) by (simp add: apply_batch_other fun_eq_iff)
  then show ?thesis
    using t(1) assms by (auto simp: get_decoded_ok)
qed

section \<open>Keyed rows\<close>

lemma slot_row_key_inj [simp]: "slot_row_key a = slot_row_key b \<longleftrightarrow> a = b"
  by (cases a; cases b) (auto simp: slot_row_key_def)

interpretation slot_rows: keyed_rows "db_ok E R" "wf_slot_state E" st_slot
    "\<lambda>s sl. read_slot E s (sl_period sl) (sl_thread sl)" "write_slot E"
  for E :: "('s, 'v, 'x) ext_scheme" and R
proof
  fix r s assume ok: "db_ok E R" and wf: "wf_slot_state E r"
  have "decode_slot_state E (encode_slot_state E r) = Inr r"
    using slot_state_codec.dec_enc [OF db_okD(1) [OF ok] wf] by simp
  from write_decoded [where dec = "decode_slot_state E", OF ok this, of CF_SLOT "[]"
      "slot_row_key (st_slot r)" s]
  obtain t where
    "write_slot E r s = (Inr (), t)"
    "\<And>k. get_decoded E t CF_SLOT k (decode_slot_state E) =
      (if k = slot_row_key (st_slot r) then Inr (Some r)
       else get_decoded E s CF_SLOT k (decode_slot_state E))"
    by (auto simp: write_slot_def db_put_def)
  then show "\<exists>t. write_slot E r s = (Inr (), t) \<and>
      (\<forall>k. read_slot E t (sl_period k) (sl_thread k) =
        (if k = st_slot r then Inr (Some r) else read_slot E s (sl_period k) (sl_thread k)))"
    by (simp add: read_slot_def flip: slot_row_key_def)
qed

interpretation block_rows: keyed_rows "db_ok E R" "wf_block E" "\<lambda>b. id_key (bk_id b)"
    "\<lambda>s k. get_decoded E s CF_BLOCK k (decode_block E)" "write_block E"
  for E :: "('s, 'v, 'x) ext_scheme" and R
proof
  fix b s assume ok: "db_ok E R" and wf: "wf_block E b"
  obtain v where v: "encode_block E b = Inr v" "decode_block E v = Inr b"
    using block_codec.enc_dec [OF db_okD(1) [OF ok] wf] by blast
  have "CF_BLOCK \<notin> write_cf ` set (tl (block_batch E b v))"
    by (auto simp: block_batch_def Let_def)
  from write_decoded [where dec = "decode_block E", OF ok v(2) this, of "id_key (bk_id b)" s] v(1)
  show "\<exists>t. write_block E b s = (Inr (), t) \<and>
      (\<forall>k. get_decoded E t CF_BLOCK k (decode_block E) =
        (if k = id_key (bk_id b) then Inr (Some b) else get_decoded E s CF_BLOCK k (decode_block E)))"
    by (simp add: write_block_def block_batch_def Let_def)
qed

interpretation op_rows: keyed_rows "db_ok E R" "wf_operation E" "\<lambda>p. id_key (op_id p)"
    "\<lambda>s k. get_decoded E s CF_OP k (decode_operation E)" "write_op E"
  for E :: "('s, 'v, 'x) ext_scheme" and R
proof
  fix p s assume ok: "db_ok E R" and wf: "wf_operation E p"
  obtain v where v: "encode_operation E p = Inr v" "decode_operation E v = Inr p"
    using operation_codec.enc_dec [OF db_okD(1) [OF ok] wf] by blast
  have "CF_OP \<notin> write_cf ` set (tl (op_batch E p v))"
    by (auto simp: op_batch_def Let_def split: list.splits option.splits)
  from write_decoded [where dec = "decode_operation E", OF ok v(2) this, of "id_key (op_id p)" s] v(1)
  show "\<exists>t. write_op E p s = (Inr (), t) \<and>
      (\<forall>k. get_decoded E t CF_OP k (decode_operation E) =
        (if k = id_key (op_id p) then Inr (Some p) else get_decoded E s CF_OP k (decode_operation E)))"
    by (simp add: write_op_def op_batch_def)
qed

lemma transfer_index_not_primary: "CF_TRANSFER \<notin> fst ` set (transfer_index C t)"
  by (auto simp: transfer_index_def opt_entry_def Let_def split: option.splits sum.splits)

lemma write_cf_puts [simp]: "write_cf ` set (puts es v) = fst ` set es"
  by (force simp: puts_def)

interpretation transfer_rows: keyed_rows "db_ok E R" wf_transfer transfer_key_of
    "\<lambda>s k. get_decoded E s CF_TRANSFER k (decode_transfer E)" "write_transfer E"
  for E :: "('s, 'v, 'x) ext_scheme" and R
proof
  fix t0 s assume ok: "db_ok E R" and wf: "wf_transfer t0"
  have d: "decode_transfer E (encode_transfer E t0) = Inr t0"
    using transfer_codec.dec_enc [OF db_okD(1) [OF ok] wf] by simp
  have "CF_TRANSFER \<notin> write_cf ` set (puts (transfer_index E t0) (empty_value E))"
    using transfer_index_not_primary by simp
  from write_decoded [where dec = "decode_transfer E", OF ok d this, of "transfer_key_of t0" s]
  show "\<exists>t. write_transfer E t0 s = (Inr (), t) \<and>
      (\<forall>k. get_decoded E t CF_TRANSFER k (decode_transfer E) =
        (if k = transfer_key_of t0 then Inr (Some t0)
         else get_decoded E s CF_TRANSFER k (decode_transfer E)))"
    by (simp add: write_transfer_def puts_def)
qed

section \<open>Indexed rows: events and transfers\<close>

lemma sc_event_key_inj:
  "sc_event_key p t i = sc_event_key q u j \<longleftrightarrow> p = q \<and> t = u \<and> i = j"
  by (auto simp: sc_event_key_def)

lemma idx_id_slot_index_inj:
  "length a = length b \<Longrightarrow> idx_id_slot_index a p t i = idx_id_slot_index b q u j \<longleftrightarrow>
   a = b \<and> p = q \<and> t = u \<and> i = j"
  by (auto simp: idx_id_slot_index_def)

lemma idx_transfer_by_addr_inj:
  "length a = length b \<Longrightarrow> idx_transfer_by_addr a p t i x = idx_transfer_by_addr b q u j y \<longleftrightarrow>
   a = b \<and> p = q \<and> t = u \<and> i = j \<and> x = y"
  by (auto simp: idx_transfer_by_addr_def)

lemma event_index_iff:
  "x \<in> set (event_index e) \<longleftrightarrow>
     (\<exists>a \<in> set (ev_emitter_addrs e). x = (IDX_SC_EVENT_BY_EMITTER, event_addr_key e a)) \<or>
     (\<exists>a \<in> set (ev_caller_addrs e). x = (IDX_SC_EVENT_BY_CALLER, event_addr_key e a)) \<or>
     (\<exists>i. ev_op_id e = Some i \<and> x = (IDX_SC_EVENT_BY_OP, event_op_key e i))"
  by (cases "ev_op_id e") (auto simp: event_index_def)

text \<open>The slot and index of an event can be read off each of its index keys.\<close>

lemma event_index_parse:
  "(c, k) \<in> set (event_index e) \<Longrightarrow>
   parse_idx_event k =
     Some (sl_period (ev_slot e), sl_thread (ev_slot e), ev_index_in_slot e)"
  by (auto simp: event_index_iff event_addr_key_def event_op_key_def idx_event_by_addr_def
      idx_event_by_op_def idx_id_slot_index_def parse_idx_event_round)

definition event_ics :: "cf set" where
  "event_ics = {IDX_SC_EVENT_BY_EMITTER, IDX_SC_EVENT_BY_CALLER, IDX_SC_EVENT_BY_OP}"

interpretation event_index: indexed_rows "wires_ok W"
    "decode_sc_event W" CF_SC_EVENT event_ics event_key_of "\<lambda>e. set (event_index e)" "\<lambda>_. True"
  for W :: "('v, 'x) wires_scheme"
proof
  show "CF_SC_EVENT \<notin> event_ics"
    by (simp add: event_ics_def)
  show "(c, k) \<in> set (event_index r) \<Longrightarrow> c \<in> event_ics" for c k r
    by (auto simp: event_index_def event_ics_def split: option.splits)
  show "event_key_of r = event_key_of q"
    if "e \<in> set (event_index r)" "e \<in> set (event_index q)" for r q e
    using that event_index_parse [of "fst e" "snd e" r] event_index_parse [of "fst e" "snd e" q]
    by (simp add: event_key_of_def)
qed simp

abbreviation event_index_exact :: "('s, 'v, 'x) ext_scheme \<Rightarrow> ('s, 'v) rows \<Rightarrow> 's \<Rightarrow> bool" where
  "event_index_exact E R s \<equiv>
     exact (decode_sc_event E) CF_SC_EVENT event_ics event_key_of (\<lambda>e. set (event_index e)) (table R s)"

definition transfer_ics :: "cf set" where
  "transfer_ics = {IDX_TRANSFER_BY_ADDR, IDX_TRANSFER_BY_OP, IDX_TRANSFER_BY_BLOCK}"

text \<open>The texts an index key is built from parse to keys of their fixed length.\<close>

lemma opt_entry_iff:
  "x \<in> set (opt_entry f parse t) \<longleftrightarrow> (\<exists>u i. t = Some u \<and> parse u = Inr i \<and> x = f i)"
  by (cases t; cases "parse (the t)") (auto simp: opt_entry_def)

lemma addr_parse_length:
  "crates_ok C \<Longrightarrow> addr_parse C u = Inr a \<Longrightarrow> length (addr_key a) = ADDR_KEY_LEN"
  using addr_display.parse_wf [of C u a] by (simp add: wf_addr_def)

lemma op_parse_length:
  "crates_ok C \<Longrightarrow> op_parse C u = Inr a \<Longrightarrow> length (id_key a) = ID_KEY_LEN"
  using op_display.parse_wf [of C u a] by (simp add: wf_gid_def)

lemma block_parse_length:
  "crates_ok C \<Longrightarrow> block_parse C u = Inr a \<Longrightarrow> length (id_key a) = ID_KEY_LEN"
  using block_display.parse_wf [of C u a] by (simp add: wf_gid_def)

lemma transfer_index_iff:
  "e \<in> set (transfer_index C t) \<longleftrightarrow>
     (\<exists>u a. tr_from t = Some u \<and> addr_parse C u = Inr a \<and>
        e = (IDX_TRANSFER_BY_ADDR, idx_transfer_by_addr (addr_key a) (sl_period (tr_slot t))
              (sl_thread (tr_slot t)) (tr_index_in_slot t) 1)) \<or>
     (\<exists>u a. tr_to t = Some u \<and> addr_parse C u = Inr a \<and>
        e = (IDX_TRANSFER_BY_ADDR, idx_transfer_by_addr (addr_key a) (sl_period (tr_slot t))
              (sl_thread (tr_slot t)) (tr_index_in_slot t) 2)) \<or>
     (\<exists>u i. tr_operation_id t = Some u \<and> op_parse C u = Inr i \<and>
        e = (IDX_TRANSFER_BY_OP, idx_transfer_by_op (id_key i) (sl_period (tr_slot t))
              (sl_thread (tr_slot t)) (tr_index_in_slot t))) \<or>
     (\<exists>u i. tr_block_id t = Some u \<and> block_parse C u = Inr i \<and>
        e = (IDX_TRANSFER_BY_BLOCK, idx_transfer_by_block (id_key i) (sl_period (tr_slot t))
              (sl_thread (tr_slot t)) (tr_index_in_slot t)))"
  by (simp add: transfer_index_def Let_def opt_entry_iff)

text \<open>The slot and index of a transfer can be read off each of its index keys.\<close>

definition transfer_entry_parse :: "cf \<times> bytes \<Rightarrow> (u64 \<times> u8 \<times> u32) option" where
  "transfer_entry_parse e =
     (if fst e = IDX_TRANSFER_BY_ADDR
      then map_option (\<lambda>(p, t, i, _). (p, t, i)) (parse_idx_transfer_by_addr (snd e))
      else parse_idx_id_slot_index (snd e))"

lemma transfer_index_parse:
  assumes "crates_ok C" "e \<in> set (transfer_index C t)"
  shows "transfer_entry_parse e =
    Some (sl_period (tr_slot t), sl_thread (tr_slot t), tr_index_in_slot t)"
  using assms unfolding transfer_index_iff
  by (elim disjE exE conjE)
    (simp_all add: transfer_entry_parse_def parse_idx_transfer_by_addr_round addr_parse_length
      idx_transfer_by_op_def idx_transfer_by_block_def parse_idx_id_slot_index_round
      op_parse_length block_parse_length)

interpretation transfer_index: indexed_rows "wires_ok W"
    "decode_transfer W" CF_TRANSFER transfer_ics transfer_key_of "\<lambda>t. set (transfer_index W t)"
    "\<lambda>_. True"
  for W :: "('v, 'x) wires_scheme"
proof
  show "CF_TRANSFER \<notin> transfer_ics"
    by (simp add: transfer_ics_def)
  show "(c, k) \<in> set (transfer_index W r) \<Longrightarrow> c \<in> transfer_ics" for c k r
    by (auto simp: transfer_index_iff transfer_ics_def)
  show "transfer_key_of r = transfer_key_of q"
    if "wires_ok W" "e \<in> set (transfer_index W r)" "e \<in> set (transfer_index W q)" for r q e
    using transfer_index_parse [OF wires_okD(1) that(2)] transfer_index_parse [OF wires_okD(1) that(3)]
      that(1) by (simp add: transfer_key_of_def)
qed simp

abbreviation transfer_index_exact :: "('s, 'v, 'x) ext_scheme \<Rightarrow> ('s, 'v) rows \<Rightarrow> 's \<Rightarrow> bool" where
  "transfer_index_exact E R s \<equiv>
     exact (decode_transfer E) CF_TRANSFER transfer_ics transfer_key_of
       (\<lambda>t. set (transfer_index E t)) (table R s)"

section \<open>Rows under a prefix\<close>

lemma prefix_rows_takeWhile:
  "(\<And>k v. f k v = Inr (g k v)) \<Longrightarrow>
   prefix_rows p f (map Inr rows) =
     Inr (map (\<lambda>(k, v). g k v) (takeWhile (\<lambda>(k, v). starts_with k p) rows))"
  by (induction rows) auto

lemma takeWhile_prefix:
  "sorted_wrt (<) (map fst rows) \<Longrightarrow>
   takeWhile (\<lambda>(k, v). starts_with k p) (filter (\<lambda>(k, v). p \<le> k) rows) =
   filter (\<lambda>(k, v). starts_with k p) rows"
proof (induction rows)
  case Nil
  then show ?case by simp
next
  case (Cons a rows)
  obtain k v where a: "a = (k, v)"
    by (cases a)
  have later: "k < k'" if "(k', v') \<in> set rows" for k' v'
    using Cons.prems a that by force
  show ?case
  proof (cases "p \<le> k \<and> \<not> starts_with k p")
    case True
    then have "\<not> starts_with k' p" if "(k', v') \<in> set rows" for k' v'
      using starts_with_between [of p k k'] later [OF that] by (meson less_imp_le)
    then have "filter (\<lambda>(k, v). starts_with k p) rows = []"
      by (auto simp: filter_empty_conv)
    with True a show ?thesis
      by simp
  next
    case False
    with Cons a show ?thesis
      by (auto dest: starts_with_le)
  qed
qed

lemma prefix_rows_ok:
  assumes "db_ok E R" "\<And>k v. f k v = Inr (g k v)"
  shows "prefix_rows p f (db_iter E s c (IterForward p)) =
    Inr (map (\<lambda>(k, v). g k v) (filter (\<lambda>(k, v). starts_with k p) (R s c)))"
  using assms store_sorted [OF db_okD(2) [OF assms(1)], of s c]
  by (simp add: db_iter_ok prefix_rows_takeWhile [OF assms(2)] takeWhile_prefix)

section \<open>Clearing and rewriting a slot\<close>

lemma clear_batch:
  assumes "db_ok E R"
    and m: "m = bnd (readm (\<lambda>s. prefix_rows p (\<lambda>k v. Inr (f k v)) (db_iter E s c (IterForward p))))
      (\<lambda>rows. if rows \<noteq> [] then db_write E (concat rows) else ret ())"
  shows "\<exists>t. m s = (Inr (), t) \<and> table R t = apply_batch
    (concat (map (\<lambda>(k, v). f k v) (filter (\<lambda>(k, v). starts_with k p) (R s c)))) (table R s)"
proof -
  let ?rows = "map (\<lambda>(k, v). f k v) (filter (\<lambda>(k, v). starts_with k p) (R s c))"
  have read: "readm (\<lambda>s. prefix_rows p (\<lambda>k v. Inr (f k v)) (db_iter E s c (IterForward p))) s =
      (Inr ?rows, s)"
    by (simp add: readm_def prefix_rows_ok [OF assms(1), of _ f])
  obtain t where t: "db_write E (concat ?rows) s = (Inr (), t)"
      "table R t = apply_batch (concat ?rows) (table R s)"
    by (rule db_write_ok [OF assms(1)])
  show ?thesis
  proof (cases "?rows = []")
    case True
    then show ?thesis
      by (intro exI [of _ s]) (simp add: m bnd_def read ret_def)
  next
    case False
    with t show ?thesis
      by (intro exI [of _ t]) (simp add: m bnd_def read)
  qed
qed

lemma clear_event_row_eq:
  "clear_event_row E = clear_row (decode_sc_event E) CF_SC_EVENT event_index"
  by (auto simp: clear_event_row_def clear_row_def dels_def fun_eq_iff split: sum.splits)

lemma clear_transfer_row_eq:
  "clear_transfer_row E = clear_row (decode_transfer E) CF_TRANSFER (transfer_index E)"
  by (auto simp: clear_transfer_row_def clear_row_def dels_def fun_eq_iff split: sum.splits)

lemma clear_sc_events:
  assumes "db_ok E R"
  obtains t where "clear_sc_events_for_slot E p th s = (Inr (), t)"
    and "\<And>k. table R t CF_SC_EVENT k =
      (if starts_with k (slot_key p th) then None else table R s CF_SC_EVENT k)"
    and "event_index_exact E R s \<Longrightarrow> event_index_exact E R t"
proof -
  obtain t where t: "clear_sc_events_for_slot E p th s = (Inr (), t)"
      "table R t = apply_batch (concat (map (\<lambda>(k, v). clear_event_row E k v)
        (filter (\<lambda>(k, v). starts_with k (slot_key p th)) (R s CF_SC_EVENT)))) (table R s)"
    using clear_batch [OF assms clear_sc_events_for_slot_def [unfolded Let_def]] by blast
  note rows = event_index.clear_rows [OF db_okD(1,2) [OF assms], of event_index, OF refl refl,
      OF t(2) [unfolded clear_event_row_eq]]
  show ?thesis
    by (rule that [OF t(1) rows])
qed

lemma clear_transfers:
  assumes "db_ok E R"
  obtains t where "clear_transfers_for_slot E p th s = (Inr (), t)"
    and "\<And>k. table R t CF_TRANSFER k =
      (if starts_with k (slot_key p th) then None else table R s CF_TRANSFER k)"
    and "transfer_index_exact E R s \<Longrightarrow> transfer_index_exact E R t"
proof -
  obtain t where t: "clear_transfers_for_slot E p th s = (Inr (), t)"
      "table R t = apply_batch (concat (map (\<lambda>(k, v). clear_transfer_row E k v)
        (filter (\<lambda>(k, v). starts_with k (slot_key p th)) (R s CF_TRANSFER)))) (table R s)"
    using clear_batch [OF assms clear_transfers_for_slot_def [unfolded Let_def]] by blast
  note rows = transfer_index.clear_rows [OF db_okD(1,2) [OF assms], of "transfer_index E", OF refl refl,
      OF t(2) [unfolded clear_transfer_row_eq]]
  show ?thesis
    by (rule that [OF t(1) rows])
qed

lemma write_sc_event_exact:
  assumes "db_ok E R" "wf_sc_event E e" "event_index_exact E R s"
    and "table R s CF_SC_EVENT (event_key_of e) = None"
  shows "\<exists>t v. write_sc_event E e s = (Inr (), t) \<and> decode_sc_event E v = Inr e \<and>
    table R t CF_SC_EVENT = (table R s CF_SC_EVENT)(event_key_of e \<mapsto> v) \<and> event_index_exact E R t"
proof -
  obtain v where v: "encode_sc_event E e = Inr v" "decode_sc_event E v = Inr e"
    using sc_event_codec.enc_dec [OF db_okD(1) [OF assms(1)] assms(2)] by blast
  let ?b = "Put CF_SC_EVENT (event_key_of e) v # puts (event_index e) (empty_value E)"
  obtain t where t: "db_write E ?b s = (Inr (), t)" "table R t = apply_batch ?b (table R s)"
    by (rule db_write_ok [OF assms(1)])
  have "event_index_exact E R t"
    unfolding t(2)
    by (rule event_index.write_row [OF db_okD(1) [OF assms(1)] assms(3) refl v(2)])
      (simp add: assms(4))
  moreover have "CF_SC_EVENT \<notin> write_cf ` set (puts (event_index e) (empty_value E))"
    by (auto simp: event_index_iff)
  then have "table R t CF_SC_EVENT = (table R s CF_SC_EVENT)(event_key_of e \<mapsto> v)"
    by (simp add: t(2) apply_batch_other fun_eq_iff)
  ultimately show ?thesis
    using t(1) v by (auto simp: write_sc_event_def puts_def)
qed

lemma write_transfer_exact:
  assumes "db_ok E R" "wf_transfer x" "transfer_index_exact E R s"
    and "table R s CF_TRANSFER (transfer_key_of x) = None"
  shows "\<exists>t v. write_transfer E x s = (Inr (), t) \<and> decode_transfer E v = Inr x \<and>
    table R t CF_TRANSFER = (table R s CF_TRANSFER)(transfer_key_of x \<mapsto> v) \<and>
    transfer_index_exact E R t"
proof -
  let ?v = "encode_transfer E x"
  let ?b = "Put CF_TRANSFER (transfer_key_of x) ?v # puts (transfer_index E x) (empty_value E)"
  have v: "decode_transfer E ?v = Inr x"
    using transfer_codec.dec_enc [OF db_okD(1) [OF assms(1)] assms(2)] by simp
  obtain t where t: "db_write E ?b s = (Inr (), t)" "table R t = apply_batch ?b (table R s)"
    by (rule db_write_ok [OF assms(1)])
  have "transfer_index_exact E R t"
    unfolding t(2)
    by (rule transfer_index.write_row [OF db_okD(1) [OF assms(1)] assms(3) refl v])
      (simp add: assms(4))
  moreover have "CF_TRANSFER \<notin> write_cf ` set (puts (transfer_index E x) (empty_value E))"
    using transfer_index_not_primary by simp
  then have "table R t CF_TRANSFER = (table R s CF_TRANSFER)(transfer_key_of x \<mapsto> ?v)"
    by (simp add: t(2) apply_batch_other fun_eq_iff)
  ultimately show ?thesis
    using t(1) v by (auto simp: write_transfer_def puts_def)
qed

end
