(* ===== verification/Paging.thy ===== *)
theory Paging
  imports Store
begin

text \<open>
  Cursor pagination.  A reader is \<open>paginated\<close> when each call returns the next \<open>limit\<close> rows of one
  ordered listing past its cursor, and a cursor for the last row it kept when it may have more.
  A client that follows the cursors (\<open>walk\<close>) then reads the whole listing, each row once,
  in order.  \<open>page_loop\<close>, the loop the readers share, meets the contract: \<open>page_loop_visible\<close>.
\<close>

section \<open>The page loop against the rows in its range\<close>

definition visible :: "(bytes \<Rightarrow> 'v \<Rightarrow> 'a option) \<Rightarrow> (bytes \<times> 'v) list \<Rightarrow> (bytes \<times> 'a) list" where
  "visible sel rows =
     concat (map (\<lambda>(k, v). case sel k v of None \<Rightarrow> [] | Some x \<Rightarrow> [(k, x)]) rows)"

lemma visible_simps [simp]:
  "visible sel [] = []"
  "visible sel ((k, v) # rows) =
     (case sel k v of None \<Rightarrow> visible sel rows | Some x \<Rightarrow> (k, x) # visible sel rows)"
  by (simp_all add: visible_def split: option.splits)

lemma visible_filter:
  "visible sel (filter (\<lambda>(k, v). P k) rows) = filter (\<lambda>(k, x). P k) (visible sel rows)"
  by (induction rows) (auto split: option.splits)

lemma visible_rev: "visible sel (rev rows) = rev (visible sel rows)"
proof (induction rows)
  case Nil
  then show ?case by simp
next
  case (Cons a rows)
  have "visible sel (xs @ [a]) = visible sel xs @ visible sel [a]" for xs
    by (simp add: visible_def)
  with Cons show ?case
    by (cases a) (auto split: option.splits)
qed

lemma visible_keys: "(k, x) \<in> set (visible sel rows) \<Longrightarrow> \<exists>v. (k, v) \<in> set rows \<and> sel k v = Some x"
  by (force simp: visible_def split: option.splits)

lemma visible_sorted:
  "sorted_wrt r (map fst rows) \<Longrightarrow> sorted_wrt r (map fst (visible sel rows))"
  by (induction rows) (fastforce split: option.splits dest!: visible_keys)+

lemma visible_all:
  "(\<And>k v. (k, v) \<in> set rows \<Longrightarrow> sel k v = Some (g k v)) \<Longrightarrow>
   visible sel rows = map (\<lambda>(k, v). (k, g k v)) rows"
  by (induction rows) auto

definition full_page :: "nat \<Rightarrow> (bytes \<times> 'a) list \<Rightarrow> 'a page \<Rightarrow> bool" where
  "full_page limit rest p \<longleftrightarrow>
     items p = map snd (take limit rest) \<and>
     (case next_cursor p of
        None \<Rightarrow> length rest \<le> limit
      | Some k \<Rightarrow> limit \<le> length rest \<and> k = fst (rest ! (limit - 1)))"

lemma page_loop_acc:
  assumes "\<And>k v. row k v = Inr (sel k v)"
  shows "length its \<le> limit \<Longrightarrow>
    \<exists>p. page_loop inside after limit row (map Inr rows) its lkey = Inr p \<and>
      (let rest = visible sel (filter (\<lambda>(k, v). after \<noteq> Some k)
                    (takeWhile (\<lambda>(k, v). inside k) rows)); n = limit - length its in
       items p = its @ map snd (take n rest) \<and>
       (next_cursor p = None \<longrightarrow> lkey = None \<and> n = 0 \<or> length rest \<le> n) \<and>
       (\<forall>k. next_cursor p = Some k \<longrightarrow> n \<le> length rest \<and>
          Some k = (if n = 0 then lkey else Some (fst (rest ! (n - 1))))))"
proof (induction rows arbitrary: its lkey)
  case Nil
  then show ?case by simp
next
  case (Cons a rows)
  obtain k v where a: "a = (k, v)"
    by (cases a)
  show ?case
  proof (cases "inside k \<and> after \<noteq> Some k \<and> length its < limit")
    case True
    show ?thesis
    proof (cases "sel k v")
      case None
      with Cons.IH [OF Cons.prems, of lkey] True a assms show ?thesis
        by (simp add: Let_def)
    next
      case (Some x)
      have "length (its @ [x]) \<le> limit"
        using True by simp
      from Cons.IH [OF this, of "Some k"] obtain p where
        p: "page_loop inside after limit row (map Inr rows) (its @ [x]) (Some k) = Inr p"
        and spec: "let rest = visible sel (filter (\<lambda>(k, v). after \<noteq> Some k)
                    (takeWhile (\<lambda>(k, v). inside k) rows)); n = limit - length (its @ [x]) in
          items p = (its @ [x]) @ map snd (take n rest) \<and>
          (next_cursor p = None \<longrightarrow> Some k = None \<and> n = 0 \<or> length rest \<le> n) \<and>
          (\<forall>l. next_cursor p = Some l \<longrightarrow> n \<le> length rest \<and>
             Some l = (if n = 0 then Some k else Some (fst (rest ! (n - 1)))))"
        by blast
      obtain n where n: "limit - length its = Suc n" "limit - length (its @ [x]) = n"
        using True by (metis Suc_diff_Suc add.commute length_append_singleton plus_1_eq_Suc)
      have "page_loop inside after limit row (map Inr (a # rows)) its lkey = Inr p"
        using True a assms Some p by simp
      moreover have "visible sel (filter (\<lambda>(k, v). after \<noteq> Some k)
          (takeWhile (\<lambda>(k, v). inside k) (a # rows))) =
        (k, x) # visible sel (filter (\<lambda>(k, v). after \<noteq> Some k) (takeWhile (\<lambda>(k, v). inside k) rows))"
        using True a Some by simp
      ultimately show ?thesis
        using spec unfolding n Let_def by (cases n) auto
    qed
  next
    case False
    then consider "\<not> inside k" | "inside k" "after = Some k"
      | "inside k" "after \<noteq> Some k" "length its = limit"
      using Cons.prems by linarith
    then show ?thesis
      by cases (use Cons a in \<open>auto simp: Let_def\<close>)
  qed
qed

lemma page_loop_visible:
  assumes "\<And>k v. row k v = Inr (sel k v)" "0 < limit"
    and rest: "rest = visible sel (filter (\<lambda>(k, v). after \<noteq> Some k) (takeWhile (\<lambda>(k, v). inside k) rows))"
  shows "\<exists>p. page_loop inside after limit row (map Inr rows) [] None = Inr p \<and> full_page limit rest p"
proof -
  from page_loop_acc [where row = row and sel = sel and its = "[]" and limit = limit
      and inside = inside and after = after and rows = rows and lkey = None, OF assms(1)]
  obtain p where "page_loop inside after limit row (map Inr rows) [] None = Inr p"
    and "items p = map snd (take limit rest)"
    and "next_cursor p = None \<longrightarrow> length rest \<le> limit"
    and "\<forall>k. next_cursor p = Some k \<longrightarrow> limit \<le> length rest \<and> k = fst (rest ! (limit - 1))"
    using assms(2) unfolding rest Let_def by auto
  then show ?thesis
    by (auto simp: full_page_def split: option.splits)
qed

section \<open>Following the cursors\<close>

text \<open>A client that reads pages until there is no cursor; \<open>fuel\<close> bounds the number of pages.\<close>

fun walk :: "(bytes option \<Rightarrow> error + 'a page) \<Rightarrow> nat \<Rightarrow> bytes option \<Rightarrow> error + 'a list" where
  "walk fetch 0 after = Inr []"
| "walk fetch (Suc n) after =
     rbind (fetch after) (\<lambda>p.
       case next_cursor p of
         None \<Rightarrow> Inr (items p)
       | Some k \<Rightarrow> rbind (walk fetch n (Some k)) (\<lambda>xs. Inr (items p @ xs)))"

definition past :: "(bytes \<Rightarrow> bytes \<Rightarrow> bool) \<Rightarrow> bytes option \<Rightarrow> (bytes \<times> 'a) list \<Rightarrow> (bytes \<times> 'a) list" where
  "past before after listing =
     (case after of None \<Rightarrow> listing | Some a \<Rightarrow> filter (\<lambda>(k, x). before a k) listing)"

locale paginated =
  fixes ok :: bool
    and before :: "bytes \<Rightarrow> bytes \<Rightarrow> bool"
    and valid :: "bytes \<Rightarrow> bool"
    and fetch :: "bytes option \<Rightarrow> error + 'a page"
    and listing :: "(bytes \<times> 'a) list"
    and limit :: nat
  assumes before_trans: "ok \<Longrightarrow> before a b \<Longrightarrow> before b c \<Longrightarrow> before a c"
    and before_irrefl: "ok \<Longrightarrow> \<not> before a a"
    and ordered: "ok \<Longrightarrow> sorted_wrt before (map fst listing)"
    and limit_pos: "ok \<Longrightarrow> 0 < limit"
    and keys_valid: "ok \<Longrightarrow> (k, x) \<in> set listing \<Longrightarrow> valid k"
    and fetch_page: "ok \<Longrightarrow> (\<And>a. after = Some a \<Longrightarrow> valid a) \<Longrightarrow>
      \<exists>p. fetch after = Inr p \<and> full_page limit (past before after listing) p"
begin

lemma filter_past_nth:
  assumes ok
  shows "sorted_wrt before (map fst ys) \<Longrightarrow> n < length ys \<Longrightarrow>
    filter (\<lambda>a. before (fst (ys ! n)) (fst a)) ys = drop (Suc n) (ys :: (bytes \<times> 'a) list)"
proof (induction ys arbitrary: n)
  case Nil
  then show ?case by simp
next
  case (Cons y ys)
  show ?case
  proof (cases n)
    case 0
    have "filter (\<lambda>a. before (fst y) (fst a)) ys = ys"
      using Cons.prems by (auto simp: filter_id_conv)
    with 0 show ?thesis
      using before_irrefl [OF assms] by simp
  next
    case (Suc m)
    then have m: "m < length ys"
      using Cons.prems by simp
    then have "before (fst y) (fst (ys ! m))"
      using Cons.prems(1) by auto
    then have "\<not> before (fst (ys ! m)) (fst y)"
      using before_trans [OF assms] before_irrefl [OF assms] by blast
    with Suc Cons.IH [of m] Cons.prems(1) m show ?thesis
      by simp
  qed
qed

lemma past_sorted:
  assumes ok
  shows "sorted_wrt before (map fst (past before after listing))"
  using ordered [OF assms] by (cases after) (simp_all add: past_def sorted_wrt_map sorted_wrt_filter)

lemma past_past:
  assumes ok "x \<in> set (past before after listing)"
  shows "past before (Some (fst x)) listing =
    filter (\<lambda>a. before (fst x) (fst a)) (past before after listing)"
proof (cases after)
  case None
  then show ?thesis
    by (simp add: past_def case_prod_unfold)
next
  case (Some a)
  then have "before a (fst x)"
    using assms(2) by (auto simp: past_def)
  then have "before (fst x) k \<longleftrightarrow> before a k \<and> before (fst x) k" for k
    using before_trans [OF assms(1)] by blast
  with Some show ?thesis
    by (simp add: past_def case_prod_unfold conj_commute)
qed

lemma past_drop:
  assumes ok "n < length xs" "xs = past before after listing"
  shows "past before (Some (fst (xs ! n))) listing = drop (Suc n) xs"
  using past_past [OF assms(1), of "xs ! n" after] filter_past_nth [OF assms(1), of xs n]
    past_sorted [OF assms(1), of after] assms(2,3) by simp

lemma walk_from:
  assumes ok
  shows "(\<And>a. after = Some a \<Longrightarrow> valid a) \<Longrightarrow> length (past before after listing) < fuel \<Longrightarrow>
    walk fetch fuel after = Inr (map snd (past before after listing))"
proof (induction fuel arbitrary: after)
  case 0
  then show ?case by simp
next
  case (Suc n)
  let ?rest = "past before after listing"
  obtain p where p: "fetch after = Inr p" "full_page limit ?rest p"
    using fetch_page [OF assms Suc.prems(1)] by blast
  show ?case
  proof (cases "next_cursor p")
    case None
    with p show ?thesis
      by (simp add: full_page_def)
  next
    case (Some k)
    with p have k: "limit \<le> length ?rest" "k = fst (?rest ! (limit - 1))"
      by (simp_all add: full_page_def)
    then have "past before (Some k) listing = drop limit ?rest"
      using past_drop [OF assms _ refl, of "limit - 1" after] limit_pos [OF assms] by simp
    moreover have "(k, snd (?rest ! (limit - 1))) \<in> set listing"
    proof -
      have "?rest ! (limit - 1) \<in> set ?rest"
        using k(1) limit_pos [OF assms] by (intro nth_mem) linarith
      moreover have "set ?rest \<subseteq> set listing"
        by (cases after) (auto simp: past_def)
      ultimately show ?thesis
        using k(2) by auto
    qed
    then have "valid k"
      by (rule keys_valid [OF assms])
    moreover have "walk fetch n (Some k) = Inr (map snd (past before (Some k) listing))"
      by (rule Suc.IH) (use Suc.prems(2) k(1) limit_pos [OF assms] calculation in simp_all)
    ultimately show ?thesis
      using p Some by (simp add: full_page_def flip: map_append)
  qed
qed

lemma walk_all: "ok \<Longrightarrow> length listing < fuel \<Longrightarrow> walk fetch fuel None = Inr (map snd listing)"
  using walk_from [of None fuel] by (simp add: past_def)

lemma fetch_items:
  "ok \<Longrightarrow> (\<And>a. after = Some a \<Longrightarrow> valid a) \<Longrightarrow> fetch after = Inr p \<Longrightarrow>
   items p = map snd (take limit (past before after listing))"
  using fetch_page [of after] by (auto simp: full_page_def)

end

end
