(* ===== verification/Db_Scan.thy ===== *)
theory Db_Scan
  imports Db_Row_Laws Paging
begin

text \<open>
  The paginated readers of the database (\<open>db.rs\<close>), over \<open>page_loop\<close>: slots newest first,
  ids by creator or target, events and transfers by address, operation, block or slot, and
  denunciations.  Index readers dereference every entry into its primary row; an entry whose row
  is missing or does not decode is passed over.
\<close>

section \<open>Shared pieces\<close>

text \<open>Read the primary row an index entry points at; pass over what does not decode.\<close>

definition deref ::
  "('s, 'v, 'x) ext_scheme \<Rightarrow> 's \<Rightarrow> cf \<Rightarrow> bytes \<Rightarrow> ('v \<Rightarrow> codec_error + 'a) \<Rightarrow> error + 'a option" where
  "deref E s prim k dec =
     rbind (db_get E s prim k) (\<lambda>r.
       case r of None \<Rightarrow> Inr None | Some v \<Rightarrow> Inr (res_ok (dec v)))"

definition keep :: "error + 'a \<Rightarrow> error + 'a option" where
  "keep r = rbind r (\<lambda>x. Inr (Some x))"

text \<open>A forward scan of the keys under a prefix.\<close>

definition scan_prefix ::
  "('s, 'v, 'x) ext_scheme \<Rightarrow> 's \<Rightarrow> cf \<Rightarrow> bytes \<Rightarrow> bytes option \<Rightarrow> nat \<Rightarrow>
   (bytes \<Rightarrow> 'v \<Rightarrow> error + 'a option) \<Rightarrow> error + 'a page" where
  "scan_prefix E s c prefix after limit row =
     (if limit = 0 then Inr page_empty
      else page_loop (\<lambda>k. starts_with k prefix) after limit row
             (db_iter E s c (IterForward (unwrap_or prefix after))) [] None)"

text \<open>A forward scan of a whole family.\<close>

definition scan_all ::
  "('s, 'v, 'x) ext_scheme \<Rightarrow> 's \<Rightarrow> cf \<Rightarrow> bytes option \<Rightarrow> nat \<Rightarrow>
   (bytes \<Rightarrow> 'v \<Rightarrow> error + 'a option) \<Rightarrow> error + 'a page" where
  "scan_all E s c after limit row =
     (if limit = 0 then Inr page_empty
      else page_loop (\<lambda>k. True) after limit row
             (db_iter E s c (case after of Some a \<Rightarrow> IterForward a | None \<Rightarrow> IterStart)) [] None)"

section \<open>Slots, newest first\<close>

definition max_slot_key :: bytes where
  "max_slot_key = slot_key (- 1) 31"

definition iter_slots_desc ::
  "('s, 'v, 'x) ext_scheme \<Rightarrow> 's \<Rightarrow> bytes option \<Rightarrow> nat \<Rightarrow> error + slot_state page" where
  "iter_slots_desc E s after limit =
     (if limit = 0 then Inr page_empty
      else page_loop (\<lambda>k. True) after limit (\<lambda>k v. keep (codec_r (decode_slot_state E v)))
             (db_iter E s CF_SLOT (IterReverse (unwrap_or max_slot_key after))) [] None)"

section \<open>Ids under an address\<close>

definition scan_prefix_forward_ids ::
  "('s, 'v, 'x) ext_scheme \<Rightarrow> 's \<Rightarrow> cf \<Rightarrow> (bytes \<Rightarrow> 'a option) \<Rightarrow> bytes \<Rightarrow> bytes option \<Rightarrow> nat \<Rightarrow>
   error + 'a page" where
  "scan_prefix_forward_ids E s c from_key prefix after limit =
     scan_prefix E s c prefix after limit (\<lambda>k v.
       Inr (case parse_idx_addr_slot_id k of
              None \<Rightarrow> None | Some (p, t, id_bytes) \<Rightarrow> from_key id_bytes))"

definition iter_blocks_by_creator ::
  "('s, 'v, 'x) ext_scheme \<Rightarrow> 's \<Rightarrow> address \<Rightarrow> bytes option \<Rightarrow> nat \<Rightarrow> error + block_id page" where
  "iter_blocks_by_creator E s creator after limit =
     scan_prefix_forward_ids E s IDX_BLOCK_BY_CREATOR (block_from_key E) (addr_key creator) after limit"

definition iter_endorsements_by_creator ::
  "('s, 'v, 'x) ext_scheme \<Rightarrow> 's \<Rightarrow> address \<Rightarrow> bytes option \<Rightarrow> nat \<Rightarrow> error + string page" where
  "iter_endorsements_by_creator E s creator after limit =
     rbind (scan_prefix_forward_ids E s IDX_ENDORSEMENT_BY_CREATOR (endo_from_key E)
              (addr_key creator) after limit)
       (\<lambda>p. Inr \<lparr>items = map id_text (items p), next_cursor = next_cursor p\<rparr>)"

definition iter_ops_by_creator ::
  "('s, 'v, 'x) ext_scheme \<Rightarrow> 's \<Rightarrow> address \<Rightarrow> bytes option \<Rightarrow> nat \<Rightarrow> error + operation_id page" where
  "iter_ops_by_creator E s creator after limit =
     scan_prefix_forward_ids E s IDX_OP_BY_CREATOR (op_from_key E) (addr_key creator) after limit"

definition iter_ops_by_target ::
  "('s, 'v, 'x) ext_scheme \<Rightarrow> 's \<Rightarrow> address \<Rightarrow> bytes option \<Rightarrow> nat \<Rightarrow> error + operation_id page" where
  "iter_ops_by_target E s target after limit =
     scan_prefix_forward_ids E s IDX_OP_BY_TARGET (op_from_key E) (addr_key target) after limit"

section \<open>SC events\<close>

definition iter_sc_events_with_prefix ::
  "('s, 'v, 'x) ext_scheme \<Rightarrow> 's \<Rightarrow> cf \<Rightarrow> bytes \<Rightarrow> bytes option \<Rightarrow> nat \<Rightarrow> error + stored_sc_event page" where
  "iter_sc_events_with_prefix E s idx_cf prefix after limit =
     scan_prefix E s idx_cf prefix after limit (\<lambda>k v.
       case parse_idx_event k of
         None \<Rightarrow> Inr None
       | Some (p, t, i) \<Rightarrow> deref E s CF_SC_EVENT (sc_event_key p t i) (decode_sc_event E))"

definition iter_sc_events_by_op ::
  "('s, 'v, 'x) ext_scheme \<Rightarrow> 's \<Rightarrow> operation_id \<Rightarrow> bytes option \<Rightarrow> nat \<Rightarrow> error + stored_sc_event page" where
  "iter_sc_events_by_op E s i after limit =
     iter_sc_events_with_prefix E s IDX_SC_EVENT_BY_OP (id_key i) after limit"

definition iter_sc_events_by_emitter ::
  "('s, 'v, 'x) ext_scheme \<Rightarrow> 's \<Rightarrow> address \<Rightarrow> bytes option \<Rightarrow> nat \<Rightarrow> error + stored_sc_event page" where
  "iter_sc_events_by_emitter E s a after limit =
     iter_sc_events_with_prefix E s IDX_SC_EVENT_BY_EMITTER (addr_key a) after limit"

definition iter_sc_events_by_caller ::
  "('s, 'v, 'x) ext_scheme \<Rightarrow> 's \<Rightarrow> address \<Rightarrow> bytes option \<Rightarrow> nat \<Rightarrow> error + stored_sc_event page" where
  "iter_sc_events_by_caller E s a after limit =
     iter_sc_events_with_prefix E s IDX_SC_EVENT_BY_CALLER (addr_key a) after limit"

definition iter_sc_events_for_slot ::
  "('s, 'v, 'x) ext_scheme \<Rightarrow> 's \<Rightarrow> u64 \<Rightarrow> u8 \<Rightarrow> bytes option \<Rightarrow> nat \<Rightarrow> error + stored_sc_event page" where
  "iter_sc_events_for_slot E s period thread after limit =
     scan_prefix E s CF_SC_EVENT (slot_key period thread) after limit
       (\<lambda>k v. keep (codec_r (decode_sc_event E v)))"

section \<open>Denunciations\<close>

definition iter_denunciations_by_addr ::
  "('s, 'v, 'x) ext_scheme \<Rightarrow> 's \<Rightarrow> address \<Rightarrow> bytes option \<Rightarrow> nat \<Rightarrow>
   error + stored_denunciation_entry page" where
  "iter_denunciations_by_addr E s a after limit =
     scan_prefix E s IDX_DENUNCIATION_BY_ADDR (addr_key a) after limit (\<lambda>k v.
       case parse_idx_denunciation_by_addr k of
         None \<Rightarrow> Inr None
       | Some (p, t, hash) \<Rightarrow> deref E s CF_DENUNCIATION hash (decode_denunciation_entry E))"

definition iter_denunciations_recent ::
  "('s, 'v, 'x) ext_scheme \<Rightarrow> 's \<Rightarrow> bytes option \<Rightarrow> nat \<Rightarrow> error + stored_denunciation_entry page" where
  "iter_denunciations_recent E s after limit =
     scan_all E s IDX_DENUNCIATION_RECENT after limit (\<lambda>k v.
       case parse_idx_denunciation_recent k of
         None \<Rightarrow> Inr None
       | Some (p, t, hash) \<Rightarrow> deref E s CF_DENUNCIATION hash (decode_denunciation_entry E))"

section \<open>Transfers\<close>

definition iter_transfers_via_idx ::
  "('s, 'v, 'x) ext_scheme \<Rightarrow> 's \<Rightarrow> cf \<Rightarrow> bytes \<Rightarrow> bytes option \<Rightarrow> nat \<Rightarrow> error + stored_transfer page" where
  "iter_transfers_via_idx E s idx_cf prefix after limit =
     scan_prefix E s idx_cf prefix after limit (\<lambda>k v.
       case parse_idx_id_slot_index k of
         None \<Rightarrow> Inr None
       | Some (p, t, i) \<Rightarrow> deref E s CF_TRANSFER (transfer_key p t i) (decode_transfer E))"

definition iter_transfers_by_op ::
  "('s, 'v, 'x) ext_scheme \<Rightarrow> 's \<Rightarrow> operation_id \<Rightarrow> bytes option \<Rightarrow> nat \<Rightarrow> error + stored_transfer page" where
  "iter_transfers_by_op E s i after limit =
     iter_transfers_via_idx E s IDX_TRANSFER_BY_OP (id_key i) after limit"

definition iter_transfers_by_block ::
  "('s, 'v, 'x) ext_scheme \<Rightarrow> 's \<Rightarrow> block_id \<Rightarrow> bytes option \<Rightarrow> nat \<Rightarrow> error + stored_transfer page" where
  "iter_transfers_by_block E s i after limit =
     iter_transfers_via_idx E s IDX_TRANSFER_BY_BLOCK (id_key i) after limit"

text \<open>
  Transfers of an address: each transfer has an entry per side, and \<open>seen\<close> holds the slots and
  indexes met on this page, so that the second entry of a self-transfer is passed over.  The
  passed-over key still becomes the cursor.
\<close>

fun transfers_by_addr_loop ::
  "('s, 'v, 'x) ext_scheme \<Rightarrow> 's \<Rightarrow> bytes \<Rightarrow> bytes option \<Rightarrow> nat \<Rightarrow> (error + bytes \<times> 'v) list \<Rightarrow>
   stored_transfer list \<Rightarrow> bytes option \<Rightarrow> (u64 \<times> u8 \<times> u32) list \<Rightarrow> error + stored_transfer page" where
  "transfers_by_addr_loop E s prefix after limit [] its lkey seen =
     Inr \<lparr>items = its, next_cursor = None\<rparr>"
| "transfers_by_addr_loop E s prefix after limit (Inl e # rest) its lkey seen = Inl e"
| "transfers_by_addr_loop E s prefix after limit (Inr (k, v) # rest) its lkey seen =
     (if \<not> starts_with k prefix then Inr \<lparr>items = its, next_cursor = None\<rparr>
      else if after = Some k then transfers_by_addr_loop E s prefix after limit rest its lkey seen
      else if limit \<le> length its then Inr \<lparr>items = its, next_cursor = lkey\<rparr>
      else (case parse_idx_transfer_by_addr k of
              None \<Rightarrow> transfers_by_addr_loop E s prefix after limit rest its lkey seen
            | Some (p, t, i, tag) \<Rightarrow>
                if (p, t, i) \<in> set seen
                then transfers_by_addr_loop E s prefix after limit rest its (Some k) seen
                else (case deref E s CF_TRANSFER (transfer_key p t i) (decode_transfer E) of
                        Inl e \<Rightarrow> Inl e
                      | Inr None \<Rightarrow>
                          transfers_by_addr_loop E s prefix after limit rest its lkey ((p, t, i) # seen)
                      | Inr (Some tr) \<Rightarrow>
                          transfers_by_addr_loop E s prefix after limit rest (its @ [tr]) (Some k)
                            ((p, t, i) # seen))))"

definition iter_transfers_by_addr ::
  "('s, 'v, 'x) ext_scheme \<Rightarrow> 's \<Rightarrow> address \<Rightarrow> bytes option \<Rightarrow> nat \<Rightarrow> error + stored_transfer page" where
  "iter_transfers_by_addr E s a after limit =
     (if limit = 0 then Inr page_empty
      else (let prefix = addr_key a in
            transfers_by_addr_loop E s prefix after limit
              (db_iter E s IDX_TRANSFER_BY_ADDR (IterForward (unwrap_or prefix after))) [] None []))"

section \<open>The listings behind the pages\<close>

definition prefix_listing ::
  "(bytes \<times> 'v) list \<Rightarrow> bytes \<Rightarrow> (bytes \<Rightarrow> 'v \<Rightarrow> 'a option) \<Rightarrow> (bytes \<times> 'a) list" where
  "prefix_listing table_rows prefix sel =
     visible sel (filter (\<lambda>(k, v). starts_with k prefix) table_rows)"

lemma case_prod_const: "(\<lambda>(k, v). b) = (\<lambda>_. b)"
  by auto

lemma takeWhile_const_True: "takeWhile (\<lambda>_. True) xs = xs"
  by (induction xs) auto

lemma takeWhile_from:
  assumes "sorted_wrt (<) (map fst table_rows)" "prefix \<le> a"
  shows "takeWhile (\<lambda>(k, v). starts_with k prefix) (filter (\<lambda>(k, v). a \<le> k) table_rows) =
    filter (\<lambda>(k, v). starts_with k prefix) (filter (\<lambda>(k, v). a \<le> k) table_rows)"
proof -
  let ?from = "filter (\<lambda>(k, v). a \<le> k) table_rows"
  have "sorted_wrt (<) (map fst ?from)"
    using assms(1) by (simp add: sorted_wrt_map sorted_wrt_filter)
  moreover have "filter (\<lambda>(k, v). prefix \<le> k) ?from = ?from"
    by (rule filter_True) (use assms(2) in force)
  ultimately show ?thesis
    using takeWhile_prefix [of ?from prefix] by simp
qed

lemma visible_past:
  assumes "sorted_wrt (<) (map fst table_rows)" "\<And>a. after = Some a \<Longrightarrow> prefix \<le> a"
  shows "visible sel (filter (\<lambda>(k, v). after \<noteq> Some k)
      (takeWhile (\<lambda>(k, v). starts_with k prefix) (seek (IterForward (unwrap_or prefix after)) table_rows))) =
    past (<) after (prefix_listing table_rows prefix sel)"
proof (cases after)
  case None
  then show ?thesis
    by (simp add: past_def prefix_listing_def takeWhile_prefix [OF assms(1)] case_prod_const)
next
  case (Some a)
  have "filter (\<lambda>(k, v). after \<noteq> Some k)
      (filter (\<lambda>(k, v). starts_with k prefix) (filter (\<lambda>(k, v). a \<le> k) table_rows)) =
    filter (\<lambda>(k, v). a < k) (filter (\<lambda>(k, v). starts_with k prefix) table_rows)"
    using Some by (auto simp: filter_filter intro!: filter_cong)
  then have "visible sel (filter (\<lambda>(k, v). after \<noteq> Some k) (takeWhile (\<lambda>(k, v). starts_with k prefix)
        (filter (\<lambda>(k, v). a \<le> k) table_rows))) =
      visible sel (filter (\<lambda>(k, v). a < k) (filter (\<lambda>(k, v). starts_with k prefix) table_rows))"
    by (simp only: takeWhile_from [OF assms(1) assms(2) [OF Some]])
  also have "\<dots> = past (<) after (prefix_listing table_rows prefix sel)"
    by (simp only: visible_filter Some past_def prefix_listing_def option.case)
  finally show ?thesis
    by (simp only: Some unwrap_or_simps seek.simps)
qed

lemma scan_prefix_page:
  assumes "db_ok E R" "0 < limit" "\<And>a. after = Some a \<Longrightarrow> prefix \<le> a"
    and row: "\<And>k v. row k v = Inr (sel k v)"
  shows "\<exists>p. scan_prefix E s c prefix after limit row = Inr p \<and>
    full_page limit (past (<) after (prefix_listing (R s c) prefix sel)) p"
  using page_loop_visible [where row = row and sel = sel, OF row assms(2)
      visible_past [OF store_sorted [OF db_okD(2) [OF assms(1)]] assms(3), symmetric]] assms(1,2)
  by (simp add: scan_prefix_def db_iter_ok)

lemma prefix_listing_sorted:
  "store_ok E R \<Longrightarrow> sorted_wrt (<) (map fst (prefix_listing (R s c) prefix sel))"
  unfolding prefix_listing_def
  by (rule visible_sorted) (simp add: sorted_wrt_map sorted_wrt_filter store_sorted [unfolded sorted_wrt_map])

lemma prefix_listing_keys:
  "(k, x) \<in> set (prefix_listing rs prefix sel) \<Longrightarrow> prefix \<le> k"
  by (auto simp: prefix_listing_def dest!: visible_keys starts_with_le)

text \<open>Dereferencing on a healthy store, and the listing of an index.\<close>

lemma deref_ok:
  "db_ok E R \<Longrightarrow> deref E s prim k dec = Inr (Option.bind (table R s prim k) (\<lambda>v. res_ok (dec v)))"
  by (cases "table R s prim k") (simp_all add: deref_def db_get_ok)

interpretation id_pages: paginated "db_ok E R \<and> 0 < limit" "(<)" "\<lambda>a. prefix \<le> a"
    "\<lambda>after. scan_prefix_forward_ids E s c from_key prefix after limit"
    "prefix_listing (R s c) prefix (\<lambda>k v. case parse_idx_addr_slot_id k of
       None \<Rightarrow> None | Some (p, t, id_bytes) \<Rightarrow> from_key id_bytes)" limit
  for E :: "('s, 'v, 'x) ext_scheme" and R s c prefix limit and from_key :: "bytes \<Rightarrow> 'a option"
  by unfold_locales
    (auto simp: scan_prefix_forward_ids_def
      intro: scan_prefix_page prefix_listing_sorted db_okD(2) dest: prefix_listing_keys)

definition event_of_key :: "('s, 'v, 'x) ext_scheme \<Rightarrow> 'v tables \<Rightarrow> bytes \<Rightarrow> stored_sc_event option" where
  "event_of_key E T k =
     (case parse_idx_event k of
        None \<Rightarrow> None
      | Some (p, t, i) \<Rightarrow>
          Option.bind (T CF_SC_EVENT (sc_event_key p t i)) (\<lambda>v. res_ok (decode_sc_event E v)))"

interpretation event_pages: paginated "db_ok E R \<and> 0 < limit" "(<)" "\<lambda>a. prefix \<le> a"
    "\<lambda>after. iter_sc_events_with_prefix E s idx prefix after limit"
    "prefix_listing (R s idx) prefix (\<lambda>k v. event_of_key E (table R s) k)" limit
  for E :: "('s, 'v, 'x) ext_scheme" and R s idx prefix limit
proof
  show "\<exists>p. iter_sc_events_with_prefix E s idx prefix after limit = Inr p \<and>
      full_page limit (past (<) after (prefix_listing (R s idx) prefix
        (\<lambda>k v. event_of_key E (table R s) k))) p"
    if "db_ok E R \<and> 0 < limit" "\<And>a. after = Some a \<Longrightarrow> prefix \<le> a" for after
    unfolding iter_sc_events_with_prefix_def
    by (rule scan_prefix_page) (use that in \<open>auto simp: event_of_key_def deref_ok split: option.splits\<close>)
qed (auto intro: prefix_listing_sorted db_okD(2) dest: prefix_listing_keys)

definition transfer_of_key :: "('s, 'v, 'x) ext_scheme \<Rightarrow> 'v tables \<Rightarrow> bytes \<Rightarrow> stored_transfer option" where
  "transfer_of_key E T k =
     (case parse_idx_id_slot_index k of
        None \<Rightarrow> None
      | Some (p, t, i) \<Rightarrow>
          Option.bind (T CF_TRANSFER (transfer_key p t i)) (\<lambda>v. res_ok (decode_transfer E v)))"

interpretation transfer_pages: paginated "db_ok E R \<and> 0 < limit" "(<)" "\<lambda>a. prefix \<le> a"
    "\<lambda>after. iter_transfers_via_idx E s idx prefix after limit"
    "prefix_listing (R s idx) prefix (\<lambda>k v. transfer_of_key E (table R s) k)" limit
  for E :: "('s, 'v, 'x) ext_scheme" and R s idx prefix limit
proof
  show "\<exists>p. iter_transfers_via_idx E s idx prefix after limit = Inr p \<and>
      full_page limit (past (<) after (prefix_listing (R s idx) prefix
        (\<lambda>k v. transfer_of_key E (table R s) k))) p"
    if "db_ok E R \<and> 0 < limit" "\<And>a. after = Some a \<Longrightarrow> prefix \<le> a" for after
    unfolding iter_transfers_via_idx_def
    by (rule scan_prefix_page) (use that in \<open>auto simp: transfer_of_key_def deref_ok split: option.splits\<close>)
qed (auto intro: prefix_listing_sorted db_okD(2) dest: prefix_listing_keys)

section \<open>Slots\<close>

text \<open>
  The slot rows of a healthy database: every value decodes to the state of the slot its key
  names.
\<close>

definition slot_table_ok :: "('s, 'v, 'x) ext_scheme \<Rightarrow> 'v tables \<Rightarrow> bool" where
  "slot_table_ok E T \<longleftrightarrow>
     (\<forall>k v. T CF_SLOT k = Some v \<longrightarrow>
        k \<le> max_slot_key \<and> (\<exists>st. decode_slot_state E v = Inr st \<and> slot_row_key (st_slot st) = k))"

definition slot_listing :: "('s, 'v, 'x) ext_scheme \<Rightarrow> (bytes \<times> 'v) list \<Rightarrow> (bytes \<times> slot_state) list" where
  "slot_listing E table_rows = rev (visible (\<lambda>k v. res_ok (decode_slot_state E v)) table_rows)"

lemma page_loop_cong:
  "(\<And>k v. Inr (k, v) \<in> set rs \<Longrightarrow> row k v = row' k v) \<Longrightarrow>
   page_loop inside after limit row rs its lkey = page_loop inside after limit row' rs its lkey"
proof (induction rs arbitrary: its lkey)
  case Nil
  then show ?case by simp
next
  case (Cons a rs)
  show ?case
  proof (cases a)
    case (Inl e)
    then show ?thesis by simp
  next
    case (Inr kv)
    obtain k v where "kv = (k, v)"
      by (cases kv)
    with Inr Cons show ?thesis
      by (auto split: sum.splits option.splits)
  qed
qed

lemma iter_slots_page:
  assumes "db_ok E R" "slot_table_ok E (table R s)" "0 < limit"
  shows "\<exists>p. iter_slots_desc E s after limit = Inr p \<and>
    full_page limit (past (>) after (slot_listing E (R s CF_SLOT))) p"
proof -
  let ?sel = "\<lambda>k v. res_ok (decode_slot_state E v)"
  let ?rows = "seek (IterReverse (unwrap_or max_slot_key after)) (R s CF_SLOT)"
  have all: "k \<le> max_slot_key" "\<exists>st. decode_slot_state E v = Inr st"
    if "(k, v) \<in> set (R s CF_SLOT)" for k v
    using that assms(2) in_rows_iff [OF db_okD(2) [OF assms(1)]] unfolding slot_table_ok_def by blast+
  have "iter_slots_desc E s after limit =
      page_loop (\<lambda>k. True) after limit (\<lambda>k v. keep (codec_r (decode_slot_state E v))) (map Inr ?rows) [] None"
    using assms by (simp add: iter_slots_desc_def db_iter_ok)
  also have "\<dots> = page_loop (\<lambda>k. True) after limit (\<lambda>k v. Inr (?sel k v)) (map Inr ?rows) [] None"
    by (rule page_loop_cong) (use all(2) in \<open>fastforce simp: keep_def\<close>)
  finally have loop: "iter_slots_desc E s after limit = \<dots>" .
  have "visible ?sel (filter (\<lambda>(k, v). after \<noteq> Some k) (takeWhile (\<lambda>(k, v). True) ?rows)) =
      past (>) after (slot_listing E (R s CF_SLOT))"
  proof (cases after)
    case None
    have "filter (\<lambda>(k, v). k \<le> max_slot_key) (R s CF_SLOT) = R s CF_SLOT"
      by (rule filter_True) (use all(1) in force)
    with None show ?thesis
      by (simp add: past_def slot_listing_def visible_rev case_prod_const takeWhile_const_True)
  next
    case (Some a)
    have "filter (\<lambda>(k, v). after \<noteq> Some k) (filter (\<lambda>(k, v). k \<le> a) (R s CF_SLOT)) =
        filter (\<lambda>(k, v). k < a) (R s CF_SLOT)"
      using Some by (auto simp: filter_filter intro!: filter_cong)
    then have "filter (\<lambda>(k, v). after \<noteq> Some k) ?rows = rev (filter (\<lambda>(k, v). k < a) (R s CF_SLOT))"
      using Some by (simp flip: rev_filter)
    then show ?thesis
      using Some by (simp add: past_def slot_listing_def visible_rev visible_filter rev_filter
          case_prod_const takeWhile_const_True)
  qed
  from page_loop_visible [where row = "\<lambda>k v. Inr (?sel k v)" and inside = "\<lambda>k. True", OF refl assms(3) this [symmetric]]
  show ?thesis
    unfolding loop .
qed

interpretation slot_pages: paginated
    "db_ok E R \<and> slot_table_ok E (table R s) \<and> 0 < limit" "(>)" "\<lambda>a. True"
    "\<lambda>after. iter_slots_desc E s after limit" "slot_listing E (R s CF_SLOT)" limit
  for E :: "('s, 'v, 'x) ext_scheme" and R s limit
proof
  show "sorted_wrt (>) (map fst (slot_listing E (R s CF_SLOT)))"
    if "db_ok E R \<and> slot_table_ok E (table R s) \<and> 0 < limit"
    using visible_sorted [OF store_sorted [OF db_okD(2), of E R s CF_SLOT]] that
    by (simp add: slot_listing_def sorted_wrt_rev flip: rev_map)
qed (auto intro: iter_slots_page)

end
