(* ===== verification/Db_Pool.thy ===== *)
theory Db_Pool
  imports Db_Scan
begin

text \<open>
  The async pool and the deferred calls (\<open>db.rs\<close>).  Both row types have two address indexes and
  an index by the slot that last touched the row; an upsert keeps the first sighting and retires
  the index entries of fields that changed.  Both are instances of \<open>indexed_rows\<close>: their
  indexes stay exact under write and delete, so a listing by address or by slot is complete.
\<close>

section \<open>Index keys\<close>

definition idx_async_sender_key :: "bytes \<Rightarrow> string \<Rightarrow> bytes" where
  "idx_async_sender_key sender_key i = sender_key @ [0] @ str_bytes i"

definition idx_async_dest_key :: "bytes \<Rightarrow> string \<Rightarrow> bytes" where
  "idx_async_dest_key dest_key i = idx_async_sender_key dest_key i"

definition idx_deferred_sender_key :: "bytes \<Rightarrow> string \<Rightarrow> bytes" where
  "idx_deferred_sender_key sender_key i = idx_async_sender_key sender_key i"

definition idx_deferred_target_key :: "bytes \<Rightarrow> string \<Rightarrow> bytes" where
  "idx_deferred_target_key target_key i = idx_async_sender_key target_key i"

definition idx_last_slot_key :: "slot \<Rightarrow> string \<Rightarrow> bytes" where
  "idx_last_slot_key sl i = idx_by_rslot_id (sl_period sl) (sl_thread sl) (str_bytes i)"

text \<open>An index entry for a field that is set, and the retirement of one that changed.\<close>

definition entry :: "cf \<Rightarrow> ('a \<Rightarrow> bytes) \<Rightarrow> 'a option \<Rightarrow> (cf \<times> bytes) list" where
  "entry c key_of x = (case x of None \<Rightarrow> [] | Some a \<Rightarrow> [(c, key_of a)])"

definition retired ::
  "cf \<Rightarrow> ('a \<Rightarrow> 'k) \<Rightarrow> ('a \<Rightarrow> bytes) \<Rightarrow> 'a option \<Rightarrow> 'a option \<Rightarrow> (cf \<times> bytes) list" where
  "retired c ident key_of old new =
     (if map_option ident old \<noteq> map_option ident new then entry c key_of old else [])"

section \<open>Async messages\<close>

definition async_keep_first_seen :: "stored_async_msg option \<Rightarrow> stored_async_msg \<Rightarrow> stored_async_msg" where
  "async_keep_first_seen prev msg =
     (case prev of
        None \<Rightarrow> msg
      | Some p \<Rightarrow>
          if am_first_seen_ts_ms p \<noteq> 0
          then msg\<lparr>am_first_seen_ts_ms := am_first_seen_ts_ms p\<rparr> else msg)"

definition async_retired :: "stored_async_msg option \<Rightarrow> stored_async_msg \<Rightarrow> (cf \<times> bytes) list" where
  "async_retired prev m =
     (case prev of
        None \<Rightarrow> []
      | Some p \<Rightarrow>
          retired IDX_ASYNC_BY_SENDER addr_key (\<lambda>a. idx_async_sender_key (addr_key a) (am_id p))
            (am_sender p) (am_sender m) @
          retired IDX_ASYNC_BY_DEST addr_key (\<lambda>a. idx_async_dest_key (addr_key a) (am_id p))
            (am_destination p) (am_destination m) @
          retired IDX_ASYNC_BY_LAST_SLOT id (\<lambda>sl. idx_last_slot_key sl (am_id p))
            (am_last_slot p) (am_last_slot m))"

definition async_index :: "stored_async_msg \<Rightarrow> (cf \<times> bytes) list" where
  "async_index m =
     entry IDX_ASYNC_BY_SENDER (\<lambda>a. idx_async_sender_key (addr_key a) (am_id m)) (am_sender m) @
     entry IDX_ASYNC_BY_DEST (\<lambda>a. idx_async_dest_key (addr_key a) (am_id m)) (am_destination m) @
     entry IDX_ASYNC_BY_LAST_SLOT (\<lambda>sl. idx_last_slot_key sl (am_id m)) (am_last_slot m)"

definition read_async_msg ::
  "('s, 'v, 'x) ext_scheme \<Rightarrow> 's \<Rightarrow> string \<Rightarrow> error + stored_async_msg option" where
  "read_async_msg E s i = get_decoded E s CF_ASYNC_MSG (str_bytes i) (decode_async_msg E)"

definition write_async_msg :: "('s, 'v, 'x) ext_scheme \<Rightarrow> stored_async_msg \<Rightarrow> ('s, unit) dbm" where
  "write_async_msg E msg =
     bnd (readm (\<lambda>s. get_decoded E s CF_ASYNC_MSG (str_bytes (am_id msg)) (decode_async_msg E))) (\<lambda>prev.
       let m = async_keep_first_seen prev msg in
       db_write E (Put CF_ASYNC_MSG (str_bytes (am_id m)) (encode_async_msg E m) #
                   dels (async_retired prev m) @ puts (async_index m) (empty_value E)))"

definition delete_async_msg :: "('s, 'v, 'x) ext_scheme \<Rightarrow> string \<Rightarrow> ('s, unit) dbm" where
  "delete_async_msg E i =
     bnd (readm (\<lambda>s. db_get E s CF_ASYNC_MSG (str_bytes i))) (\<lambda>found.
       case found of
         None \<Rightarrow> ret ()
       | Some v \<Rightarrow>
           bnd (lift (codec_r (decode_async_msg E v))) (\<lambda>prev.
             db_write E (Del CF_ASYNC_MSG (str_bytes i) #
               dels (entry IDX_ASYNC_BY_SENDER (\<lambda>a. idx_async_sender_key (addr_key a) i) (am_sender prev) @
                     entry IDX_ASYNC_BY_DEST (\<lambda>a. idx_async_dest_key (addr_key a) i) (am_destination prev) @
                     entry IDX_ASYNC_BY_LAST_SLOT (\<lambda>sl. idx_last_slot_key sl i) (am_last_slot prev)))))"

datatype async_by_addr = AsyncSender | AsyncDestination

fun async_addr_cf :: "async_by_addr \<Rightarrow> cf" where
  "async_addr_cf AsyncSender = IDX_ASYNC_BY_SENDER"
| "async_addr_cf AsyncDestination = IDX_ASYNC_BY_DEST"

definition iter_async_by_addr ::
  "('s, 'v, 'x) ext_scheme \<Rightarrow> 's \<Rightarrow> address \<Rightarrow> async_by_addr \<Rightarrow> bytes option \<Rightarrow> nat \<Rightarrow>
   error + stored_async_msg page" where
  "iter_async_by_addr E s a by_side after limit =
     (let prefix = addr_key a @ [0] in
      scan_prefix E s (async_addr_cf by_side) prefix after limit
        (\<lambda>k v. deref E s CF_ASYNC_MSG (drop (length prefix) k) (decode_async_msg E)))"

definition iter_all_async ::
  "('s, 'v, 'x) ext_scheme \<Rightarrow> 's \<Rightarrow> bytes option \<Rightarrow> nat \<Rightarrow> error + stored_async_msg page" where
  "iter_all_async E s after limit =
     scan_all E s CF_ASYNC_MSG after limit (\<lambda>k v. Inr (res_ok (decode_async_msg E v)))"

text \<open>The rows a slot last touched: \<open>limit\<close> bounds the result, not the scan.\<close>

fun last_slot_loop ::
  "('s, 'v, 'x) ext_scheme \<Rightarrow> 's \<Rightarrow> cf \<Rightarrow> ('v \<Rightarrow> codec_error + 'a) \<Rightarrow> bytes \<Rightarrow> nat \<Rightarrow>
   (error + bytes \<times> 'v) list \<Rightarrow> 'a list \<Rightarrow> error + 'a list" where
  "last_slot_loop E s prim dec prefix limit [] out = Inr out"
| "last_slot_loop E s prim dec prefix limit (Inl e # rest) out = Inl e"
| "last_slot_loop E s prim dec prefix limit (Inr (k, v) # rest) out =
     (if \<not> starts_with k prefix then Inr out
      else if limit \<le> length out then Inr out
      else (case deref E s prim (drop (length prefix) k) dec of
              Inl e \<Rightarrow> Inl e
            | Inr None \<Rightarrow> last_slot_loop E s prim dec prefix limit rest out
            | Inr (Some x) \<Rightarrow> last_slot_loop E s prim dec prefix limit rest (out @ [x])))"

definition iter_by_last_slot ::
  "('s, 'v, 'x) ext_scheme \<Rightarrow> 's \<Rightarrow> cf \<Rightarrow> cf \<Rightarrow> u64 \<Rightarrow> u8 \<Rightarrow> nat \<Rightarrow> ('v \<Rightarrow> codec_error + 'a) \<Rightarrow>
   error + 'a list" where
  "iter_by_last_slot E s idx_cf prim period thread limit dec =
     (if limit = 0 then Inr []
      else (let prefix = idx_by_rslot_prefix period thread in
            last_slot_loop E s prim dec prefix limit
              (db_iter E s idx_cf (IterForward prefix)) []))"

definition iter_async_msgs_by_last_slot ::
  "('s, 'v, 'x) ext_scheme \<Rightarrow> 's \<Rightarrow> u64 \<Rightarrow> u8 \<Rightarrow> nat \<Rightarrow> error + stored_async_msg list" where
  "iter_async_msgs_by_last_slot E s period thread limit =
     iter_by_last_slot E s IDX_ASYNC_BY_LAST_SLOT CF_ASYNC_MSG period thread limit (decode_async_msg E)"

section \<open>Deferred calls\<close>

definition call_keep_first_seen ::
  "stored_deferred_call option \<Rightarrow> stored_deferred_call \<Rightarrow> stored_deferred_call" where
  "call_keep_first_seen prev call =
     (case prev of
        None \<Rightarrow> call
      | Some p \<Rightarrow>
          if dc_first_seen_ts_ms p \<noteq> 0
          then call\<lparr>dc_first_seen_ts_ms := dc_first_seen_ts_ms p\<rparr> else call)"

definition call_retired :: "stored_deferred_call option \<Rightarrow> stored_deferred_call \<Rightarrow> (cf \<times> bytes) list" where
  "call_retired prev d =
     (case prev of
        None \<Rightarrow> []
      | Some p \<Rightarrow>
          retired IDX_DEFERRED_BY_SENDER addr_key (\<lambda>a. idx_deferred_sender_key (addr_key a) (dc_id p))
            (dc_sender p) (dc_sender d) @
          retired IDX_DEFERRED_BY_TARGET addr_key (\<lambda>a. idx_deferred_target_key (addr_key a) (dc_id p))
            (dc_target_address p) (dc_target_address d) @
          retired IDX_DEFERRED_BY_LAST_SLOT id (\<lambda>sl. idx_last_slot_key sl (dc_id p))
            (dc_last_slot p) (dc_last_slot d))"

definition call_index :: "stored_deferred_call \<Rightarrow> (cf \<times> bytes) list" where
  "call_index d =
     entry IDX_DEFERRED_BY_SENDER (\<lambda>a. idx_deferred_sender_key (addr_key a) (dc_id d)) (dc_sender d) @
     entry IDX_DEFERRED_BY_TARGET (\<lambda>a. idx_deferred_target_key (addr_key a) (dc_id d))
       (dc_target_address d) @
     entry IDX_DEFERRED_BY_LAST_SLOT (\<lambda>sl. idx_last_slot_key sl (dc_id d)) (dc_last_slot d)"

definition write_deferred_call :: "('s, 'v, 'x) ext_scheme \<Rightarrow> stored_deferred_call \<Rightarrow> ('s, unit) dbm" where
  "write_deferred_call E call =
     bnd (readm (\<lambda>s. get_decoded E s CF_DEFERRED_CALL (str_bytes (dc_id call)) (decode_deferred_call E)))
       (\<lambda>prev.
       let d = call_keep_first_seen prev call in
       db_write E (Put CF_DEFERRED_CALL (str_bytes (dc_id d)) (encode_deferred_call E d) #
                   dels (call_retired prev d) @ puts (call_index d) (empty_value E)))"

definition read_deferred_call ::
  "('s, 'v, 'x) ext_scheme \<Rightarrow> 's \<Rightarrow> string \<Rightarrow> error + stored_deferred_call option" where
  "read_deferred_call E s i = get_decoded E s CF_DEFERRED_CALL (str_bytes i) (decode_deferred_call E)"

datatype deferred_by_addr = DeferredSender | DeferredTarget

fun deferred_addr_cf :: "deferred_by_addr \<Rightarrow> cf" where
  "deferred_addr_cf DeferredSender = IDX_DEFERRED_BY_SENDER"
| "deferred_addr_cf DeferredTarget = IDX_DEFERRED_BY_TARGET"

definition iter_deferred_by_addr ::
  "('s, 'v, 'x) ext_scheme \<Rightarrow> 's \<Rightarrow> address \<Rightarrow> deferred_by_addr \<Rightarrow> bytes option \<Rightarrow> nat \<Rightarrow>
   error + stored_deferred_call page" where
  "iter_deferred_by_addr E s a by_side after limit =
     (let prefix = addr_key a @ [0] in
      scan_prefix E s (deferred_addr_cf by_side) prefix after limit
        (\<lambda>k v. deref E s CF_DEFERRED_CALL (drop (length prefix) k) (decode_deferred_call E)))"

definition iter_all_deferred ::
  "('s, 'v, 'x) ext_scheme \<Rightarrow> 's \<Rightarrow> bytes option \<Rightarrow> nat \<Rightarrow> error + stored_deferred_call page" where
  "iter_all_deferred E s after limit =
     scan_all E s CF_DEFERRED_CALL after limit (\<lambda>k v. Inr (res_ok (decode_deferred_call E v)))"

definition iter_deferred_calls_by_last_slot ::
  "('s, 'v, 'x) ext_scheme \<Rightarrow> 's \<Rightarrow> u64 \<Rightarrow> u8 \<Rightarrow> nat \<Rightarrow> error + stored_deferred_call list" where
  "iter_deferred_calls_by_last_slot E s period thread limit =
     iter_by_last_slot E s IDX_DEFERRED_BY_LAST_SLOT CF_DEFERRED_CALL period thread limit
       (decode_deferred_call E)"

section \<open>Frames\<close>

definition async_cfs :: "cf set" where
  "async_cfs = {CF_ASYNC_MSG, IDX_ASYNC_BY_SENDER, IDX_ASYNC_BY_DEST, IDX_ASYNC_BY_LAST_SLOT}"

definition deferred_cfs :: "cf set" where
  "deferred_cfs =
     {CF_DEFERRED_CALL, IDX_DEFERRED_BY_SENDER, IDX_DEFERRED_BY_TARGET, IDX_DEFERRED_BY_LAST_SLOT}"

lemma write_cf_dels [simp]: "write_cf ` set (dels es) = fst ` set es"
  by (force simp: dels_def)

lemma entry_cf: "(c, k) \<in> set (entry d f x) \<Longrightarrow> c = d"
  by (auto simp: entry_def split: option.splits)

lemma retired_cf: "(c, k) \<in> set (retired d g f x y) \<Longrightarrow> c = d"
  by (auto simp: retired_def split: if_splits dest: entry_cf)

lemma async_index_cfs: "(c, k) \<in> set (async_index m) \<Longrightarrow> c \<in> async_cfs - {CF_ASYNC_MSG}"
  by (auto simp: async_index_def async_cfs_def dest: entry_cf)

lemma async_retired_cfs: "(c, k) \<in> set (async_retired p m) \<Longrightarrow> c \<in> async_cfs - {CF_ASYNC_MSG}"
  by (auto simp: async_retired_def async_cfs_def dest: retired_cf split: option.splits)

lemma call_index_cfs: "(c, k) \<in> set (call_index d) \<Longrightarrow> c \<in> deferred_cfs - {CF_DEFERRED_CALL}"
  by (auto simp: call_index_def deferred_cfs_def dest: entry_cf)

lemma call_retired_cfs: "(c, k) \<in> set (call_retired p d) \<Longrightarrow> c \<in> deferred_cfs - {CF_DEFERRED_CALL}"
  by (auto simp: call_retired_def deferred_cfs_def dest: retired_cf split: option.splits)

lemma touches_write_async_msg [frame_intros]:
  assumes "store_ok E R" "async_cfs \<subseteq> cs"
  shows "touches R cs (write_async_msg E m)"
proof -
  have "write_cf ` set (Put CF_ASYNC_MSG k v # dels (async_retired p n) @ puts (async_index n) e) \<subseteq> cs"
    for k v p n e
    using assms(2) async_index_cfs [of _ _ n] async_retired_cfs [of _ _ p n]
    by (auto simp: image_Un) (auto simp: async_cfs_def)
  then show ?thesis
    unfolding write_async_msg_def Let_def
    by (intro frame_intros touches_write [OF assms(1)])
qed

lemma touches_write_deferred_call [frame_intros]:
  assumes "store_ok E R" "deferred_cfs \<subseteq> cs"
  shows "touches R cs (write_deferred_call E d)"
proof -
  have "write_cf ` set (Put CF_DEFERRED_CALL k v # dels (call_retired p n) @ puts (call_index n) e) \<subseteq> cs"
    for k v p n e
    using assms(2) call_index_cfs [of _ _ n] call_retired_cfs [of _ _ p n]
    by (auto simp: image_Un) (auto simp: deferred_cfs_def)
  then show ?thesis
    unfolding write_deferred_call_def Let_def
    by (intro frame_intros touches_write [OF assms(1)])
qed

end
