(* ===== verification/Db_Pool_Laws.thy ===== *)
theory Db_Pool_Laws
  imports Db_Pool
begin

text \<open>
  The async pool and the deferred calls meet one contract, \<open>pool_rows\<close>: an upsert succeeds on a
  healthy store, stores the row merged with the one it replaces, leaves every other row and keeps
  the indexes exact, whatever sequence of upserts runs.  With exact indexes the listings by
  address and by slot are complete.
\<close>

section \<open>The contract of an upsert\<close>

locale pool_rows = indexed_rows ok dec prim ics pk ix fits
  for ok :: bool
    and dec :: "'v \<Rightarrow> codec_error + 'r"
    and prim :: cf
    and ics :: "cf set"
    and pk :: "'r \<Rightarrow> bytes"
    and ix :: "'r \<Rightarrow> (cf \<times> bytes) set"
    and fits :: "'r \<Rightarrow> bool" +
  fixes tab :: "'s \<Rightarrow> 'v tables"
    and put_row :: "'r \<Rightarrow> ('s, unit) dbm"
    and merge :: "'r option \<Rightarrow> 'r \<Rightarrow> 'r"
    and wf :: "'r \<Rightarrow> bool"
  assumes upsert: "ok \<Longrightarrow> wf r \<Longrightarrow> exact dec prim ics pk ix (tab s) \<Longrightarrow>
    \<exists>t v. put_row r s = (Inr (), t) \<and>
      dec v = Inr (merge (Option.bind (tab s prim (pk r)) (\<lambda>w. res_ok (dec w))) r) \<and>
      tab t prim = (tab s prim)(pk r \<mapsto> v) \<and> exact dec prim ics pk ix (tab t)"
begin

definition row_at :: "'s \<Rightarrow> bytes \<Rightarrow> 'r option" where
  "row_at s k = Option.bind (tab s prim k) (\<lambda>w. res_ok (dec w))"

lemma upsert_row_at:
  assumes ok "wf r" "exact dec prim ics pk ix (tab s)"
  obtains t where "put_row r s = (Inr (), t)" "exact dec prim ics pk ix (tab t)"
    "\<And>k. row_at t k = (if k = pk r then Some (merge (row_at s (pk r)) r) else row_at s k)"
proof -
  obtain t v where "put_row r s = (Inr (), t)"
      "dec v = Inr (merge (Option.bind (tab s prim (pk r)) (\<lambda>w. res_ok (dec w))) r)"
      "tab t prim = (tab s prim)(pk r \<mapsto> v)" "exact dec prim ics pk ix (tab t)"
    using upsert [OF assms] by blast
  then show ?thesis
    by (intro that [of t]) (auto simp: row_at_def)
qed

lemma upserts_exact:
  assumes ok
  shows "(\<And>r. r \<in> set rs \<Longrightarrow> wf r) \<Longrightarrow> exact dec prim ics pk ix (tab s) \<Longrightarrow>
    \<exists>t. for_each rs put_row s = (Inr (), t) \<and> exact dec prim ics pk ix (tab t)"
proof (induction rs arbitrary: s)
  case Nil
  then show ?case by (simp add: ret_def)
next
  case (Cons r rs)
  have "wf r"
    using Cons.prems by simp
  from upsert_row_at [OF assms this Cons.prems(2)] obtain t where
    t: "put_row r s = (Inr (), t)" "exact dec prim ics pk ix (tab t)"
    by blast
  with Cons.IH [of t] Cons.prems(1) show ?case
    by (simp add: bnd_def)
qed

end

section \<open>Keys and entries\<close>

text \<open>The id of a row can be read off each of its index keys.\<close>

definition pool_target :: "cf \<Rightarrow> bytes \<Rightarrow> bytes" where
  "pool_target c i =
     drop (if c = IDX_ASYNC_BY_LAST_SLOT \<or> c = IDX_DEFERRED_BY_LAST_SLOT then SLOT_KEY_LEN
           else ADDR_KEY_LEN + 1) i"

lemma pool_target_addr:
  "length a = ADDR_KEY_LEN \<Longrightarrow> c \<noteq> IDX_ASYNC_BY_LAST_SLOT \<Longrightarrow> c \<noteq> IDX_DEFERRED_BY_LAST_SLOT \<Longrightarrow>
   pool_target c (idx_async_sender_key a i) = str_bytes i"
  by (simp add: pool_target_def idx_async_sender_key_def)

lemma pool_target_slot:
  "c = IDX_ASYNC_BY_LAST_SLOT \<or> c = IDX_DEFERRED_BY_LAST_SLOT \<Longrightarrow>
   pool_target c (idx_last_slot_key sl i) = str_bytes i"
  by (simp add: pool_target_def idx_last_slot_key_def idx_by_rslot_id_def SLOT_KEY_LEN_def)

lemma entry_iff: "e \<in> set (entry c f x) \<longleftrightarrow> (\<exists>a. x = Some a \<and> e = (c, f a))"
  by (auto simp: entry_def split: option.splits)

lemma retired_subset: "set (retired c g f old new) \<subseteq> set (entry c f old)"
  by (auto simp: retired_def)

lemma retired_covers:
  assumes "\<And>a b. g a = g b \<Longrightarrow> f a = f b"
  shows "set (entry c f old) \<subseteq> set (retired c g f old new) \<union> set (entry c f new)"
proof (cases "map_option g old = map_option g new")
  case True
  then have "entry c f old = entry c f new"
    by (cases old; cases new) (auto simp: entry_def intro: assms)
  then show ?thesis by simp
next
  case False
  then show ?thesis by (simp add: retired_def)
qed

section \<open>Async messages\<close>

definition async_ics :: "cf set" where
  "async_ics = {IDX_ASYNC_BY_SENDER, IDX_ASYNC_BY_DEST, IDX_ASYNC_BY_LAST_SLOT}"

definition fits_async :: "stored_async_msg \<Rightarrow> bool" where
  "fits_async m \<longleftrightarrow>
     (\<forall>a. am_sender m = Some a \<or> am_destination m = Some a \<longrightarrow> length (addr_key a) = ADDR_KEY_LEN)"

lemma wf_fits_async: "wf_async_msg C m \<Longrightarrow> fits_async m"
  by (auto simp: wf_async_msg_def fits_async_def wf_addr_def)

lemma async_target:
  assumes "fits_async m" "(c, i) \<in> set (async_index m)"
  shows "pool_target c i = str_bytes (am_id m)"
  using assms
  by (auto simp: async_index_def entry_iff fits_async_def idx_async_dest_key_def
      pool_target_addr pool_target_slot)

interpretation async_index: indexed_rows "wires_ok W"
    "decode_async_msg W" CF_ASYNC_MSG async_ics "\<lambda>m. str_bytes (am_id m)" "\<lambda>m. set (async_index m)"
    fits_async
  for W :: "('v, 'x) wires_scheme"
proof
  show "CF_ASYNC_MSG \<notin> async_ics"
    by (simp add: async_ics_def)
  show "(c, k) \<in> set (async_index r) \<Longrightarrow> c \<in> async_ics" for c k r
    by (auto simp: async_index_def entry_iff async_ics_def)
  show "str_bytes (am_id r) = str_bytes (am_id q)"
    if "fits_async r" "fits_async q" "e \<in> set (async_index r)" "e \<in> set (async_index q)" for r q e
    using that async_target [of r "fst e" "snd e"] async_target [of q "fst e" "snd e"] by simp
  show "wires_ok W \<Longrightarrow> decode_async_msg W v = Inr r \<Longrightarrow> fits_async r" for v r
    by (rule wf_fits_async [OF async_msg_codec.dec_wf])
qed

abbreviation async_index_exact :: "('s, 'v, 'x) ext_scheme \<Rightarrow> ('s, 'v) rows \<Rightarrow> 's \<Rightarrow> bool" where
  "async_index_exact E R s \<equiv>
     exact (decode_async_msg E) CF_ASYNC_MSG async_ics (\<lambda>m. str_bytes (am_id m))
       (\<lambda>m. set (async_index m)) (table R s)"

lemma am_id_keep [simp]: "am_id (async_keep_first_seen p m) = am_id m"
  by (simp add: async_keep_first_seen_def split: option.splits)

lemma async_index_keep [simp]: "async_index (async_keep_first_seen p m) = async_index m"
  by (simp add: async_keep_first_seen_def async_index_def split: option.splits)

lemma wf_async_keep [simp]: "wf_async_msg C (async_keep_first_seen p m) \<longleftrightarrow> wf_async_msg C m"
  by (simp add: async_keep_first_seen_def wf_async_msg_def split: option.splits)

lemma async_retired_sub:
  assumes "am_id p = am_id m" "e \<in> set (async_retired (Some p) m)"
  shows "e \<in> set (async_index p)"
  using assms(2) unfolding async_retired_def async_index_def option.case set_append
  by (auto dest: retired_subset [THEN subsetD])

lemma async_retired_covers:
  assumes "am_id p = am_id m"
  shows "set (async_index p) \<subseteq> set (async_retired (Some p) m) \<union> set (async_index m)"
proof -
  let ?k1 = "\<lambda>a. idx_async_sender_key (addr_key a) (am_id m)"
  let ?k2 = "\<lambda>a. idx_async_dest_key (addr_key a) (am_id m)"
  let ?k3 = "\<lambda>sl. idx_last_slot_key sl (am_id m)"
  have "set (entry c ?k1 old) \<subseteq> set (retired c addr_key ?k1 old new) \<union> set (entry c ?k1 new)" for c old new
    by (rule retired_covers) simp
  moreover have "set (entry c ?k2 old) \<subseteq> set (retired c addr_key ?k2 old new) \<union> set (entry c ?k2 new)" for c old new
    by (rule retired_covers) simp
  moreover have "set (entry c ?k3 old) \<subseteq> set (retired c id ?k3 old new) \<union> set (entry c ?k3 new)" for c old new
    by (rule retired_covers) simp
  ultimately show ?thesis
    unfolding async_index_def async_retired_def assms option.case set_append by blast
qed

interpretation async_pool: pool_rows "db_ok E R"
    "decode_async_msg E" CF_ASYNC_MSG async_ics "\<lambda>m. str_bytes (am_id m)" "\<lambda>m. set (async_index m)"
    fits_async "table R" "write_async_msg E" async_keep_first_seen "wf_async_msg E"
  for E :: "('s, 'v, 'x) ext_scheme" and R
proof (intro pool_rows.intro pool_rows_axioms.intro)
  show "indexed_rows (db_ok E R) (decode_async_msg E) CF_ASYNC_MSG async_ics
      (\<lambda>m. str_bytes (am_id m)) (\<lambda>m. set (async_index m)) fits_async"
    by (rule async_index.weaken) (rule db_okD(1))
next
  fix r :: stored_async_msg and s :: 's
  assume ok: "db_ok E R" and wf: "wf_async_msg E r" and ex: "async_index_exact E R s"
  let ?prev = "Option.bind (table R s CF_ASYNC_MSG (str_bytes (am_id r))) (\<lambda>w. res_ok (decode_async_msg E w))"
  let ?m = "async_keep_first_seen ?prev r"
  let ?b = "Put CF_ASYNC_MSG (str_bytes (am_id ?m)) (encode_async_msg E ?m) #
    dels (async_retired ?prev ?m) @ puts (async_index ?m) (empty_value E)"
  have dec: "\<exists>q. decode_async_msg E w = Inr q \<and> am_id q = am_id r"
    if "table R s CF_ASYNC_MSG (str_bytes (am_id r)) = Some w" for w
    using ex that unfolding exact_def by fastforce
  have read: "get_decoded E s CF_ASYNC_MSG (str_bytes (am_id r)) (decode_async_msg E) = Inr ?prev"
    using dec by (auto simp: get_decoded_ok [OF ok] split: option.splits)
  obtain t where t: "db_write E ?b s = (Inr (), t)" "table R t = apply_batch ?b (table R s)"
    by (rule db_write_ok [OF ok])
  have v: "decode_async_msg E (encode_async_msg E ?m) = Inr ?m"
    using async_msg_codec.dec_enc [OF db_okD(1) [OF ok], of ?m] wf by simp
  have stale: "\<exists>w q. table R s CF_ASYNC_MSG (str_bytes (am_id ?m)) = Some w \<and>
      decode_async_msg E w = Inr q \<and> e \<in> set (async_index q)"
    if e: "e \<in> set (async_retired ?prev ?m)" for e
  proof (cases "table R s CF_ASYNC_MSG (str_bytes (am_id r))")
    case None
    with e show ?thesis by (simp add: async_retired_def)
  next
    case (Some w)
    with dec obtain q where "decode_async_msg E w = Inr q" "am_id q = am_id r"
      by blast
    with Some e show ?thesis
      using async_retired_sub [of q ?m e] by simp
  qed
  have covers: "set (async_index q) \<subseteq> set (async_retired ?prev ?m) \<union> set (async_index ?m)"
    if "table R s CF_ASYNC_MSG (str_bytes (am_id ?m)) = Some w" "decode_async_msg E w = Inr q" for w q
    using that dec [of w] async_retired_covers [of q ?m] by auto
  note up = async_index.upsert_row [OF db_okD(1) [OF ok] ex refl v stale covers t(2)]
  have "write_async_msg E r s = (Inr (), t)"
    using t(1) by (simp add: write_async_msg_def bnd_def readm_def read Let_def)
  with up v show "\<exists>t v. write_async_msg E r s = (Inr (), t) \<and> decode_async_msg E v = Inr ?m \<and>
      table R t CF_ASYNC_MSG = (table R s CF_ASYNC_MSG)(str_bytes (am_id r) \<mapsto> v) \<and>
      async_index_exact E R t"
    by (intro exI [of _ t] exI [of _ "encode_async_msg E ?m"]) (auto simp: fun_eq_iff)
qed

section \<open>Deferred calls\<close>

definition deferred_ics :: "cf set" where
  "deferred_ics = {IDX_DEFERRED_BY_SENDER, IDX_DEFERRED_BY_TARGET, IDX_DEFERRED_BY_LAST_SLOT}"

definition fits_call :: "stored_deferred_call \<Rightarrow> bool" where
  "fits_call m \<longleftrightarrow>
     (\<forall>a. dc_sender m = Some a \<or> dc_target_address m = Some a \<longrightarrow> length (addr_key a) = ADDR_KEY_LEN)"

lemma wf_fits_call: "wf_deferred_call C m \<Longrightarrow> fits_call m"
  by (auto simp: wf_deferred_call_def fits_call_def wf_addr_def)

lemma call_target:
  assumes "fits_call m" "(c, i) \<in> set (call_index m)"
  shows "pool_target c i = str_bytes (dc_id m)"
  using assms
  by (auto simp: call_index_def entry_iff fits_call_def idx_deferred_target_key_def idx_deferred_sender_key_def
      pool_target_addr pool_target_slot)

interpretation call_index: indexed_rows "wires_ok W"
    "decode_deferred_call W" CF_DEFERRED_CALL deferred_ics "\<lambda>m. str_bytes (dc_id m)" "\<lambda>m. set (call_index m)"
    fits_call
  for W :: "('v, 'x) wires_scheme"
proof
  show "CF_DEFERRED_CALL \<notin> deferred_ics"
    by (simp add: deferred_ics_def)
  show "(c, k) \<in> set (call_index r) \<Longrightarrow> c \<in> deferred_ics" for c k r
    by (auto simp: call_index_def entry_iff deferred_ics_def)
  show "str_bytes (dc_id r) = str_bytes (dc_id q)"
    if "fits_call r" "fits_call q" "e \<in> set (call_index r)" "e \<in> set (call_index q)" for r q e
    using that call_target [of r "fst e" "snd e"] call_target [of q "fst e" "snd e"] by simp
  show "wires_ok W \<Longrightarrow> decode_deferred_call W v = Inr r \<Longrightarrow> fits_call r" for v r
    by (rule wf_fits_call [OF deferred_call_codec.dec_wf])
qed

abbreviation call_index_exact :: "('s, 'v, 'x) ext_scheme \<Rightarrow> ('s, 'v) rows \<Rightarrow> 's \<Rightarrow> bool" where
  "call_index_exact E R s \<equiv>
     exact (decode_deferred_call E) CF_DEFERRED_CALL deferred_ics (\<lambda>m. str_bytes (dc_id m))
       (\<lambda>m. set (call_index m)) (table R s)"

lemma dc_id_keep [simp]: "dc_id (call_keep_first_seen p m) = dc_id m"
  by (simp add: call_keep_first_seen_def split: option.splits)

lemma call_index_keep [simp]: "call_index (call_keep_first_seen p m) = call_index m"
  by (simp add: call_keep_first_seen_def call_index_def split: option.splits)

lemma wf_call_keep [simp]: "wf_deferred_call C (call_keep_first_seen p m) \<longleftrightarrow> wf_deferred_call C m"
  by (simp add: call_keep_first_seen_def wf_deferred_call_def split: option.splits)

lemma call_retired_sub:
  assumes "dc_id p = dc_id m" "e \<in> set (call_retired (Some p) m)"
  shows "e \<in> set (call_index p)"
  using assms(2) unfolding call_retired_def call_index_def option.case set_append
  by (auto dest: retired_subset [THEN subsetD])

lemma call_retired_covers:
  assumes "dc_id p = dc_id m"
  shows "set (call_index p) \<subseteq> set (call_retired (Some p) m) \<union> set (call_index m)"
proof -
  let ?k1 = "\<lambda>a. idx_deferred_sender_key (addr_key a) (dc_id m)"
  let ?k2 = "\<lambda>a. idx_deferred_target_key (addr_key a) (dc_id m)"
  let ?k3 = "\<lambda>sl. idx_last_slot_key sl (dc_id m)"
  have "set (entry c ?k1 old) \<subseteq> set (retired c addr_key ?k1 old new) \<union> set (entry c ?k1 new)" for c old new
    by (rule retired_covers) simp
  moreover have "set (entry c ?k2 old) \<subseteq> set (retired c addr_key ?k2 old new) \<union> set (entry c ?k2 new)" for c old new
    by (rule retired_covers) simp
  moreover have "set (entry c ?k3 old) \<subseteq> set (retired c id ?k3 old new) \<union> set (entry c ?k3 new)" for c old new
    by (rule retired_covers) simp
  ultimately show ?thesis
    unfolding call_index_def call_retired_def assms option.case set_append by blast
qed

interpretation call_pool: pool_rows "db_ok E R"
    "decode_deferred_call E" CF_DEFERRED_CALL deferred_ics "\<lambda>m. str_bytes (dc_id m)" "\<lambda>m. set (call_index m)"
    fits_call "table R" "write_deferred_call E" call_keep_first_seen "wf_deferred_call E"
  for E :: "('s, 'v, 'x) ext_scheme" and R
proof (intro pool_rows.intro pool_rows_axioms.intro)
  show "indexed_rows (db_ok E R) (decode_deferred_call E) CF_DEFERRED_CALL deferred_ics
      (\<lambda>m. str_bytes (dc_id m)) (\<lambda>m. set (call_index m)) fits_call"
    by (rule call_index.weaken) (rule db_okD(1))
next
  fix r :: stored_deferred_call and s :: 's
  assume ok: "db_ok E R" and wf: "wf_deferred_call E r" and ex: "call_index_exact E R s"
  let ?prev = "Option.bind (table R s CF_DEFERRED_CALL (str_bytes (dc_id r))) (\<lambda>w. res_ok (decode_deferred_call E w))"
  let ?m = "call_keep_first_seen ?prev r"
  let ?b = "Put CF_DEFERRED_CALL (str_bytes (dc_id ?m)) (encode_deferred_call E ?m) #
    dels (call_retired ?prev ?m) @ puts (call_index ?m) (empty_value E)"
  have dec: "\<exists>q. decode_deferred_call E w = Inr q \<and> dc_id q = dc_id r"
    if "table R s CF_DEFERRED_CALL (str_bytes (dc_id r)) = Some w" for w
    using ex that unfolding exact_def by fastforce
  have read: "get_decoded E s CF_DEFERRED_CALL (str_bytes (dc_id r)) (decode_deferred_call E) = Inr ?prev"
    using dec by (auto simp: get_decoded_ok [OF ok] split: option.splits)
  obtain t where t: "db_write E ?b s = (Inr (), t)" "table R t = apply_batch ?b (table R s)"
    by (rule db_write_ok [OF ok])
  have v: "decode_deferred_call E (encode_deferred_call E ?m) = Inr ?m"
    using deferred_call_codec.dec_enc [OF db_okD(1) [OF ok], of ?m] wf by simp
  have stale: "\<exists>w q. table R s CF_DEFERRED_CALL (str_bytes (dc_id ?m)) = Some w \<and>
      decode_deferred_call E w = Inr q \<and> e \<in> set (call_index q)"
    if e: "e \<in> set (call_retired ?prev ?m)" for e
  proof (cases "table R s CF_DEFERRED_CALL (str_bytes (dc_id r))")
    case None
    with e show ?thesis by (simp add: call_retired_def)
  next
    case (Some w)
    with dec obtain q where "decode_deferred_call E w = Inr q" "dc_id q = dc_id r"
      by blast
    with Some e show ?thesis
      using call_retired_sub [of q ?m e] by simp
  qed
  have covers: "set (call_index q) \<subseteq> set (call_retired ?prev ?m) \<union> set (call_index ?m)"
    if "table R s CF_DEFERRED_CALL (str_bytes (dc_id ?m)) = Some w" "decode_deferred_call E w = Inr q" for w q
    using that dec [of w] call_retired_covers [of q ?m] by auto
  note up = call_index.upsert_row [OF db_okD(1) [OF ok] ex refl v stale covers t(2)]
  have "write_deferred_call E r s = (Inr (), t)"
    using t(1) by (simp add: write_deferred_call_def bnd_def readm_def read Let_def)
  with up v show "\<exists>t v. write_deferred_call E r s = (Inr (), t) \<and> decode_deferred_call E v = Inr ?m \<and>
      table R t CF_DEFERRED_CALL = (table R s CF_DEFERRED_CALL)(str_bytes (dc_id r) \<mapsto> v) \<and>
      call_index_exact E R t"
    by (intro exI [of _ t] exI [of _ "encode_deferred_call E ?m"]) (auto simp: fun_eq_iff)
qed

end
