(* ===== verification/Listings.thy ===== *)
theory Listings
  imports Db_Scan Db_Pool_Laws
begin

text \<open>
  Secondary indexes as queries: on a healthy database whose index is exact, walking the pages of an
  index listing returns, without repetition, exactly the stored rows that have the entry.
\<close>

section \<open>From entries to rows\<close>

lemma visible_in:
  "(k, x) \<in> set (visible sel rows) \<longleftrightarrow> (\<exists>v. (k, v) \<in> set rows \<and> sel k v = Some x)"
  by (induction rows) (auto split: option.splits)

lemma prefix_listing_in:
  "(k, x) \<in> set (prefix_listing rows prefix sel) \<longleftrightarrow>
     (\<exists>v. (k, v) \<in> set rows \<and> starts_with k prefix \<and> sel k v = Some x)"
  by (auto simp: prefix_listing_def visible_in)

lemma distinct_listing:
  assumes "sorted_wrt (<) (map fst xs)" "\<And>k x. (k, x) \<in> set xs \<Longrightarrow> k = f x"
  shows "distinct (map snd (xs :: (bytes \<times> 'a) list))"
proof -
  have "map fst xs = map f (map snd xs)"
    using assms(2) by (auto simp: image_iff)
  moreover have "distinct (map fst xs)"
    using assms(1) by (simp add: strict_sorted_iff)
  ultimately show ?thesis
    by (metis distinct_map)
qed

lemma length_visible_le: "length (visible sel rows) \<le> length rows"
  by (induction rows) (auto split: option.splits intro: le_SucI)

lemma length_prefix_listing: "length (prefix_listing rows prefix sel) \<le> length rows"
  unfolding prefix_listing_def
  by (rule order_trans [OF length_visible_le]) simp

section \<open>Events\<close>

definition event_stored :: "('s, 'v, 'x) ext_scheme \<Rightarrow> ('s, 'v) rows \<Rightarrow> 's \<Rightarrow> stored_sc_event \<Rightarrow> bool" where
  "event_stored E R s e \<longleftrightarrow>
     (\<exists>v. table R s CF_SC_EVENT (event_key_of e) = Some v \<and> decode_sc_event E v = Inr e)"

lemma event_listing:
  assumes "db_ok E R" "event_index_exact E R s" "c \<in> event_ics"
    and entry: "\<And>e i. (c, i) \<in> set (event_index e) \<Longrightarrow> wf_sc_event E e \<Longrightarrow>
      starts_with i prefix \<longleftrightarrow> has e \<and> i = f e"
    and has: "\<And>e. has e \<Longrightarrow> (c, f e) \<in> set (event_index e)"
  defines "xs \<equiv> prefix_listing (R s c) prefix (\<lambda>k v. event_of_key E (table R s) k)"
  shows "(\<forall>e. e \<in> set (map snd xs) \<longleftrightarrow> event_stored E R s e \<and> has e) \<and> distinct (map snd xs)"
proof -
  note ok = db_okD [OF assms(1)]
  define target where "target i = (case parse_idx_event i of Some (p, t, j) \<Rightarrow> sc_event_key p t j | None \<Rightarrow> [])" for i
  have wf: "wf_sc_event E e" if "decode_sc_event E v = Inr e" for e v
    using sc_event_codec.dec_wf [OF ok(1)] that by blast
  have member: "(i, e) \<in> set xs \<longleftrightarrow> event_stored E R s e \<and> (c, i) \<in> set (event_index e) \<and> starts_with i prefix" for i e
  proof
    assume "(i, e) \<in> set xs"
    then obtain v where v: "table R s c i = Some v" "starts_with i prefix" "event_of_key E (table R s) i = Some e"
      by (auto simp: xs_def prefix_listing_in in_rows_iff [OF ok(2)])
    have "table R s c i \<noteq> None"
      using v(1) by simp
    then obtain w q where q: "table R s CF_SC_EVENT (event_key_of q) = Some w" "decode_sc_event E w = Inr q"
        "(c, i) \<in> set (event_index q)"
      by (rule event_index.exact_owner [OF assms(2,3)]) (rule that; assumption)
    then have "event_of_key E (table R s) i = Some q"
      using event_index_parse [OF q(3)] by (simp add: event_of_key_def event_key_of_def)
    with v q show "event_stored E R s e \<and> (c, i) \<in> set (event_index e) \<and> starts_with i prefix"
      by (auto simp: event_stored_def)
  next
    assume e: "event_stored E R s e \<and> (c, i) \<in> set (event_index e) \<and> starts_with i prefix"
    then have "table R s c i \<noteq> None"
      using event_index.exact_entry_iff [OF assms(2,3), of i]
      by (auto simp: event_index.stored_def event_stored_def)
    then obtain v where "(i, v) \<in> set (R s c)"
      using in_rows_iff [OF ok(2)] by blast
    moreover have "event_of_key E (table R s) i = Some e"
      using e event_index_parse [of c i e] by (auto simp: event_of_key_def event_key_of_def event_stored_def)
    ultimately show "(i, e) \<in> set xs"
      using e by (auto simp: xs_def prefix_listing_in)
  qed
  have entries: "(i, e) \<in> set xs \<longleftrightarrow> event_stored E R s e \<and> has e \<and> i = f e" for i e
  proof -
    have "event_stored E R s e \<Longrightarrow> wf_sc_event E e"
      using wf by (auto simp: event_stored_def)
    then show ?thesis
      unfolding member using entry [of i e] has [of e] by blast
  qed
  have "distinct (map snd xs)"
  proof (rule distinct_listing [where f = f])
    show "sorted_wrt (<) (map fst xs)"
      unfolding xs_def by (rule prefix_listing_sorted [OF ok(2)])
  qed (simp add: entries)
  moreover have "e \<in> set (map snd xs) \<longleftrightarrow> event_stored E R s e \<and> has e" for e
  proof -
    have "e \<in> set (map snd xs) \<longleftrightarrow> (\<exists>i. (i, e) \<in> set xs)"
      by force
    then show ?thesis
      unfolding entries by blast
  qed
  ultimately show ?thesis
    by blast
qed

lemma wf_addr_key: "wf_addr C a \<Longrightarrow> wf_addr C b \<Longrightarrow> addr_key a = addr_key b \<longleftrightarrow> a = b"
  by (auto simp: wf_addr_def)

lemma event_addr_entry:
  assumes "wf_addr C a" "wf_addr C b"
  shows "starts_with (event_addr_key e b) (addr_key a) \<longleftrightarrow> b = a"
proof -
  have "length (addr_key b) = length (addr_key a)"
    using assms by (simp add: wf_addr_def)
  then show ?thesis
    using wf_addr_key [OF assms] by (auto simp: event_addr_key_def idx_event_by_addr_def)
qed

lemma emitter_listing:
  assumes "db_ok E R" "event_index_exact E R s" "wf_addr E a"
  shows "(\<forall>e. e \<in> set (map snd (prefix_listing (R s IDX_SC_EVENT_BY_EMITTER) (addr_key a)
        (\<lambda>k v. event_of_key E (table R s) k))) \<longleftrightarrow>
      event_stored E R s e \<and> a \<in> set (ev_emitter_addrs e)) \<and>
    distinct (map snd (prefix_listing (R s IDX_SC_EVENT_BY_EMITTER) (addr_key a)
      (\<lambda>k v. event_of_key E (table R s) k)))"
  by (rule event_listing [OF assms(1,2), where f = "\<lambda>e. event_addr_key e a"])
    (use event_addr_entry [OF assms(3)] in
      \<open>auto simp: event_ics_def event_index_iff wf_sc_event_def list_all_iff\<close>)

lemma caller_listing:
  assumes "db_ok E R" "event_index_exact E R s" "wf_addr E a"
  shows "(\<forall>e. e \<in> set (map snd (prefix_listing (R s IDX_SC_EVENT_BY_CALLER) (addr_key a)
        (\<lambda>k v. event_of_key E (table R s) k))) \<longleftrightarrow>
      event_stored E R s e \<and> a \<in> set (ev_caller_addrs e)) \<and>
    distinct (map snd (prefix_listing (R s IDX_SC_EVENT_BY_CALLER) (addr_key a)
      (\<lambda>k v. event_of_key E (table R s) k)))"
  by (rule event_listing [OF assms(1,2), where f = "\<lambda>e. event_addr_key e a"])
    (use event_addr_entry [OF assms(3)] in
      \<open>auto simp: event_ics_def event_index_iff wf_sc_event_def list_all_iff\<close>)

section \<open>Slots\<close>

definition slot_stored :: "('s, 'v, 'x) ext_scheme \<Rightarrow> ('s, 'v) rows \<Rightarrow> 's \<Rightarrow> slot_state \<Rightarrow> bool" where
  "slot_stored E R s st \<longleftrightarrow>
     (\<exists>v. table R s CF_SLOT (slot_row_key (st_slot st)) = Some v \<and> decode_slot_state E v = Inr st)"

lemma slot_row_key_less: "slot_row_key a < slot_row_key b \<longleftrightarrow> slot_lt a b"
  by (simp add: slot_row_key_def slot_key_less slot_lt_def)

lemma slot_listing_spec:
  assumes "db_ok E R" "slot_table_ok E (table R s)"
  defines "xs \<equiv> slot_listing E (R s CF_SLOT)"
  shows "(\<forall>st. st \<in> set (map snd xs) \<longleftrightarrow> slot_stored E R s st) \<and>
    sorted_wrt (\<lambda>a b. slot_lt (st_slot b) (st_slot a)) (map snd xs)"
proof -
  note ok = db_okD [OF assms(1)]
  have member: "(k, st) \<in> set xs \<longleftrightarrow> slot_stored E R s st \<and> k = slot_row_key (st_slot st)" for k st
  proof -
    have "(k, st) \<in> set xs \<longleftrightarrow> (\<exists>v. table R s CF_SLOT k = Some v \<and> decode_slot_state E v = Inr st)"
      by (simp add: xs_def slot_listing_def visible_in in_rows_iff [OF ok(2)])
    also have "\<dots> \<longleftrightarrow> slot_stored E R s st \<and> k = slot_row_key (st_slot st)"
      using assms(2) unfolding slot_table_ok_def slot_stored_def by fastforce
    finally show ?thesis .
  qed
  have "sorted_wrt (>) (map fst xs)"
    using visible_sorted [OF store_sorted [OF ok(2), of s CF_SLOT]]
    by (simp add: xs_def slot_listing_def sorted_wrt_rev flip: rev_map)
  moreover have "map fst xs = map (\<lambda>st. slot_row_key (st_slot st)) (map snd xs)"
    using member by auto
  ultimately have "sorted_wrt (\<lambda>a b. slot_lt (st_slot b) (st_slot a)) (map snd xs)"
    by (simp only: sorted_wrt_map slot_row_key_less)
  moreover have "st \<in> set (map snd xs) \<longleftrightarrow> slot_stored E R s st" for st
  proof -
    have "st \<in> set (map snd xs) \<longleftrightarrow> (\<exists>k. (k, st) \<in> set xs)"
      by force
    then show ?thesis
      unfolding member by blast
  qed
  ultimately show ?thesis
    by blast
qed

lemma length_slot_listing: "length (slot_listing E rows) \<le> length rows"
  by (simp add: slot_listing_def length_visible_le)

end
