(* ===== verification/Reference.thy ===== *)
theory Reference
  imports Db_Row_Laws
begin

text \<open>
  A concrete instance of the third-party code: a store that keeps the log of its writes and
  reads the rows off it, wire encodings that tag a message with its type, and text encodings
  that reread bytes as characters.  It satisfies every law the development relies on, so the
  laws can hold together, and it evaluates, so the properties are applied to concrete inputs on
  it.
\<close>

section \<open>Encodings\<close>

datatype ref_value =
    VSlotState slot_state_pb | VMetaRow meta_row_pb | VSlot slot_pb
  | VEndorsement stored_endorsement_pb | VDenunciation stored_denunciation_entry_pb
  | VBlock stored_block_pb | VOperation stored_operation_pb | VScEvent stored_sc_event_pb
  | VTransfer stored_transfer_pb | VAsyncMsg stored_async_msg_pb
  | VDeferredCall stored_deferred_call_pb | VRaw bytes

definition ref_crates :: crates where
  "ref_crates =
     \<lparr>b58enc = bytes_str, b58dec = (\<lambda>t. Some (str_bytes t)),
      b64enc = bytes_str, b64dec = (\<lambda>t. Some (str_bytes t)),
      hexenc = bytes_str, hexdec = (\<lambda>t. Some (str_bytes t)),
      sha256 = (\<lambda>b. take 32 (b @ replicate 32 0))\<rparr>"

definition ref_wires :: "ref_value wires" where
  "ref_wires = crates.extend ref_crates (wires.fields
     \<lparr>w_enc = VSlotState, w_dec = (\<lambda>v. case v of VSlotState m \<Rightarrow> Some m | _ \<Rightarrow> None)\<rparr>
     \<lparr>w_enc = VMetaRow, w_dec = (\<lambda>v. case v of VMetaRow m \<Rightarrow> Some m | _ \<Rightarrow> None)\<rparr>
     \<lparr>w_enc = VSlot, w_dec = (\<lambda>v. case v of VSlot m \<Rightarrow> Some m | _ \<Rightarrow> None)\<rparr>
     \<lparr>w_enc = VEndorsement, w_dec = (\<lambda>v. case v of VEndorsement m \<Rightarrow> Some m | _ \<Rightarrow> None)\<rparr>
     \<lparr>w_enc = VDenunciation, w_dec = (\<lambda>v. case v of VDenunciation m \<Rightarrow> Some m | _ \<Rightarrow> None)\<rparr>
     \<lparr>w_enc = VBlock, w_dec = (\<lambda>v. case v of VBlock m \<Rightarrow> Some m | _ \<Rightarrow> None)\<rparr>
     \<lparr>w_enc = VOperation, w_dec = (\<lambda>v. case v of VOperation m \<Rightarrow> Some m | _ \<Rightarrow> None)\<rparr>
     \<lparr>w_enc = VScEvent, w_dec = (\<lambda>v. case v of VScEvent m \<Rightarrow> Some m | _ \<Rightarrow> None)\<rparr>
     \<lparr>w_enc = VTransfer, w_dec = (\<lambda>v. case v of VTransfer m \<Rightarrow> Some m | _ \<Rightarrow> None)\<rparr>
     \<lparr>w_enc = VAsyncMsg, w_dec = (\<lambda>v. case v of VAsyncMsg m \<Rightarrow> Some m | _ \<Rightarrow> None)\<rparr>
     \<lparr>w_enc = VDeferredCall, w_dec = (\<lambda>v. case v of VDeferredCall m \<Rightarrow> Some m | _ \<Rightarrow> None)\<rparr>
     VRaw
     (\<lambda>v. case v of VRaw b \<Rightarrow> b | _ \<Rightarrow> []))"

section \<open>A log-structured store\<close>

fun row_put :: "bytes \<Rightarrow> 'v \<Rightarrow> (bytes \<times> 'v) list \<Rightarrow> (bytes \<times> 'v) list" where
  "row_put k v [] = [(k, v)]"
| "row_put k v ((l, w) # rows) =
     (if k < l then (k, v) # (l, w) # rows
      else if k = l then (k, v) # rows else (l, w) # row_put k v rows)"

definition row_del :: "bytes \<Rightarrow> (bytes \<times> 'v) list \<Rightarrow> (bytes \<times> 'v) list" where
  "row_del k rows = filter (\<lambda>(l, w). l \<noteq> k) rows"

fun row_step :: "cf \<Rightarrow> 'v write_op \<Rightarrow> (bytes \<times> 'v) list \<Rightarrow> (bytes \<times> 'v) list" where
  "row_step c (Put d k v) rows = (if d = c then row_put k v rows else rows)"
| "row_step c (Del d k) rows = (if d = c then row_del k rows else rows)"

definition ref_rows :: "('v batch, 'v) rows" where
  "ref_rows log c = fold (row_step c) log []"

definition ref_ext :: "(ref_value batch, ref_value) ext" where
  "ref_ext = wires.extend ref_wires (ext.fields
     (\<lambda>log c k. Inr (map_of (ref_rows log c) k))
     (\<lambda>log b. (Inr (), log @ b))
     (\<lambda>log c m. map Inr (seek m (ref_rows log c))))"

lemmas ref_defs = ref_crates_def ref_wires_def ref_ext_def crates.defs wires.defs ext.defs

section \<open>It satisfies the laws\<close>

lemma row_put_keys: "fst ` set (row_put k v rows) = insert k (fst ` set rows)"
  by (induction k v rows rule: row_put.induct) auto

lemma row_put_sorted:
  "sorted_wrt (<) (map fst rows) \<Longrightarrow> sorted_wrt (<) (map fst (row_put k v rows))"
proof (induction k v rows rule: row_put.induct)
  case (1 k v)
  then show ?case by simp
next
  case (2 k v l w rows)
  have "\<forall>x \<in> fst ` set (row_put k v rows). l < x" if "l < k"
    using 2 that unfolding row_put_keys by auto
  with 2 show ?case
    by auto
qed

lemma row_put_map: "map_of (row_put k v rows) = (map_of rows)(k \<mapsto> v)"
  by (induction k v rows rule: row_put.induct) auto

lemma row_del_sorted:
  "sorted_wrt (<) (map fst rows) \<Longrightarrow> sorted_wrt (<) (map fst (row_del k rows))"
  by (induction rows) (auto simp: row_del_def)

lemma row_del_map: "map_of (row_del k rows) = (map_of rows)(k := None)"
  by (induction rows) (auto simp: row_del_def)

lemma row_step_sorted:
  "sorted_wrt (<) (map fst rows) \<Longrightarrow> sorted_wrt (<) (map fst (row_step c w rows))"
  by (cases w) (auto simp: row_put_sorted row_del_sorted)

lemma ref_rows_sorted: "sorted_wrt (<) (map fst (ref_rows log c))"
proof -
  have "sorted_wrt (<) (map fst (fold (row_step c) log rows))" if "sorted_wrt (<) (map fst rows)" for rows
    using that by (induction log arbitrary: rows) (auto simp: row_step_sorted)
  then show ?thesis
    by (simp add: ref_rows_def)
qed

lemma ref_table_append: "table ref_rows (log @ b) = apply_batch b (table ref_rows log)"
proof -
  have "(\<lambda>c. map_of (fold (row_step c) b (f c))) = apply_batch b (\<lambda>c. map_of (f c))" for f
  proof (induction b arbitrary: f)
    case Nil
    then show ?case by simp
  next
    case (Cons w b)
    have "(\<lambda>c. map_of (row_step c w (f c))) = apply_op w (\<lambda>c. map_of (f c))"
      by (cases w) (auto simp: row_put_map row_del_map fun_eq_iff)
    then show ?case
      using Cons [of "\<lambda>c. row_step c w (f c)"] by simp
  qed
  from this [of "\<lambda>c. fold (row_step c) log []"] show ?thesis
    by (simp add: table_def [abs_def] ref_rows_def fun_eq_iff)
qed

lemma yields_map_Inr [simp]: "yields (map Inr rows) rows"
  by (induction rows) auto

lemma ref_crates_ok: "crates_ok ref_ext"
proof -
  have "bytes_str b = [] \<longleftrightarrow> b = []" for b
    by (simp add: bytes_str_def)
  then show ?thesis
    by (auto simp: crates_ok_def ref_defs)
qed

lemma ref_wires_ok: "wires_ok ref_ext"
  unfolding wires_ok_def using ref_crates_ok by (simp add: ref_defs wire_ok_def)

lemma ref_store_ok: "store_ok ref_ext ref_rows"
  unfolding store_ok_def
  by (auto simp: ref_defs ref_rows_sorted ref_table_append) (simp add: table_def)

lemma ref_healthy: "healthy ref_ext"
  by (auto simp: healthy_def ref_defs)

lemma ref_db_ok: "db_ok ref_ext ref_rows"
  by (simp add: db_ok_def ref_wires_ok ref_store_ok ref_healthy)

section \<open>Sample identifiers\<close>

definition ref_block :: "u8 \<Rightarrow> block_id" where
  "ref_block n = block_from_hash ref_ext 0 (replicate 32 n)"

definition ref_op :: "u8 \<Rightarrow> operation_id" where
  "ref_op n = op_from_hash ref_ext 0 (replicate 32 n)"

definition ref_endo :: "u8 \<Rightarrow> endorsement_id" where
  "ref_endo n = endo_from_hash ref_ext 0 (replicate 32 n)"

definition ref_addr :: "u8 \<Rightarrow> address" where
  "ref_addr n = user_from_hash ref_ext 0 (replicate 32 n)"

lemma ref_block_wf [simp]: "wf_block_id ref_ext (ref_block n)"
  by (simp add: ref_block_def block_from_hash_def wf_gid_from_hash)

lemma ref_op_wf [simp]: "wf_op_id ref_ext (ref_op n)"
  by (simp add: ref_op_def op_from_hash_def wf_gid_from_hash)

lemma ref_endo_wf [simp]: "wf_endo_id ref_ext (ref_endo n)"
  by (simp add: ref_endo_def endo_from_hash_def wf_gid_from_hash)

lemma ref_addr_wf [simp]: "wf_addr ref_ext (ref_addr n)"
  by (simp add: ref_addr_def user_from_hash_def wf_addr_def Let_def ADDR_KEY_LEN_def)

end
