(* ===== verification/Db_Admin.thy ===== *)
theory Db_Admin
  imports Db_Pool_Laws
begin

text \<open>
  The raw and administrative operations of the database (\<open>db.rs\<close>): counting incomplete slots,
  raw access by family name, bookkeeping strings, clearing a family and rebuilding every
  secondary index from its primary rows.

  \<open>raw_clear\<close> loops until the family is empty, which a store that keeps returning rows never
  is, so it is a partial function; on a healthy store it ends, with the family empty
  (\<open>raw_clear_total\<close>).
\<close>

section \<open>Lossy UTF-8\<close>

text \<open>
  \<open>String::from_utf8_lossy\<close>: every maximal subpart of an ill-formed sequence becomes the
  replacement character, U+FFFD.
\<close>

definition replacement :: bytes where
  "replacement = [0xEF, 0xBF, 0xBD]"

definition is_cont :: "u8 \<Rightarrow> bool" where
  "is_cont b \<longleftrightarrow> 0x80 \<le> b \<and> b \<le> 0xBF"

definition utf8_width :: "u8 \<Rightarrow> nat" where
  "utf8_width b =
     (if b < 0x80 then 1 else if 0xC2 \<le> b \<and> b \<le> 0xDF then 2
      else if 0xE0 \<le> b \<and> b \<le> 0xEF then 3 else if 0xF0 \<le> b \<and> b \<le> 0xF4 then 4 else 0)"

text \<open>Which second bytes a lead byte allows.\<close>

definition second_ok :: "u8 \<Rightarrow> u8 \<Rightarrow> bool" where
  "second_ok lead b \<longleftrightarrow>
     (if lead = 0xE0 then 0xA0 \<le> b \<and> b \<le> 0xBF
      else if lead = 0xED then 0x80 \<le> b \<and> b \<le> 0x9F
      else if lead = 0xF0 then 0x90 \<le> b \<and> b \<le> 0xBF
      else if lead = 0xF4 then 0x80 \<le> b \<and> b \<le> 0x8F
      else is_cont b)"

text \<open>How many of the bytes after the lead byte belong to its sequence.\<close>

definition utf8_follow :: "u8 \<Rightarrow> bytes \<Rightarrow> nat" where
  "utf8_follow lead rest =
     (case rest of
        [] \<Rightarrow> 0
      | b # tail \<Rightarrow>
          if \<not> second_ok lead b then 0
          else 1 + length (takeWhile is_cont (take (utf8_width lead - 2) tail)))"

function utf8_lossy :: "bytes \<Rightarrow> bytes" where
  "utf8_lossy [] = []"
| "utf8_lossy (b # rest) =
     (let w = utf8_width b in
      if w = 0 then replacement @ utf8_lossy rest
      else if w = 1 then b # utf8_lossy rest
      else (let n = utf8_follow b rest in
            (if n = w - 1 then b # take n rest else replacement) @ utf8_lossy (drop n rest)))"
  by pat_completeness auto
termination by (relation "measure length") auto

lemma utf8_lossy_ascii: "(\<And>b. b \<in> set t \<Longrightarrow> b < 0x80) \<Longrightarrow> utf8_lossy t = t"
  by (induction t) (simp_all add: utf8_width_def)

section \<open>Counting and raw access\<close>

fun count_incomplete ::
  "('s, 'v, 'x) ext_scheme \<Rightarrow> streams_expected \<Rightarrow> (error + bytes \<times> 'v) list \<Rightarrow> nat \<Rightarrow> error + nat" where
  "count_incomplete E streams [] n = Inr n"
| "count_incomplete E streams (Inl e # rest) n = Inl e"
| "count_incomplete E streams (Inr (k, v) # rest) n =
     rbind (codec_r (decode_slot_state E v)) (\<lambda>st.
       count_incomplete E streams rest
         (if \<not> is_complete (st_completeness st) (st_is_miss st) streams then n + 1 else n))"

definition count_incomplete_slots ::
  "('s, 'v, 'x) ext_scheme \<Rightarrow> 's \<Rightarrow> streams_expected \<Rightarrow> error + nat" where
  "count_incomplete_slots E s streams =
     count_incomplete E streams (db_iter E s CF_SLOT IterStart) 0"

definition cf_exists :: "string \<Rightarrow> bool" where
  "cf_exists name = is_some (cf_handle name)"

definition raw_get :: "('s, 'v, 'x) ext_scheme \<Rightarrow> 's \<Rightarrow> string \<Rightarrow> bytes \<Rightarrow> error + 'v option" where
  "raw_get E s name k = rbind (cf_by_name name) (\<lambda>c. db_get E s c k)"

definition meta_get_str :: "('s, 'v, 'x) ext_scheme \<Rightarrow> 's \<Rightarrow> string \<Rightarrow> error + string option" where
  "meta_get_str E s key =
     rbind (db_get E s CF_META (str_bytes key)) (\<lambda>r.
       Inr (map_option (\<lambda>v. bytes_str (utf8_lossy (unraw E v))) r))"

definition meta_put_str :: "('s, 'v, 'x) ext_scheme \<Rightarrow> string \<Rightarrow> string \<Rightarrow> ('s, unit) dbm" where
  "meta_put_str E key val = db_put E CF_META (str_bytes key) (raw E (str_bytes val))"

definition raw_page ::
  "('s, 'v, 'x) ext_scheme \<Rightarrow> 's \<Rightarrow> string \<Rightarrow> bytes option \<Rightarrow> bytes option \<Rightarrow> nat \<Rightarrow>
   error + (bytes \<times> 'v) page" where
  "raw_page E s name prefix after limit =
     (if limit = 0 then Inr page_empty
      else rbind (cf_by_name name) (\<lambda>c.
        page_loop (\<lambda>k. case prefix of None \<Rightarrow> True | Some p \<Rightarrow> starts_with k p) after limit
          (\<lambda>k v. Inr (Some (k, v)))
          (db_iter E s c (case (case after of Some a \<Rightarrow> Some a | None \<Rightarrow> prefix) of
                            Some a \<Rightarrow> IterForward a | None \<Rightarrow> IterStart)) [] None))"

text \<open>The closure runs over the snapshot the iterator was opened on.\<close>

fun each_item ::
  "(error + bytes \<times> 'v) list \<Rightarrow> (bytes \<Rightarrow> 'v \<Rightarrow> ('s, unit) dbm) \<Rightarrow> ('s, unit) dbm" where
  "each_item [] f = ret ()"
| "each_item (Inl e # rest) f = fail e"
| "each_item (Inr (k, v) # rest) f = bnd (f k v) (\<lambda>_. each_item rest f)"

definition raw_for_each ::
  "('s, 'v, 'x) ext_scheme \<Rightarrow> string \<Rightarrow> (bytes \<Rightarrow> 'v \<Rightarrow> ('s, unit) dbm) \<Rightarrow> ('s, unit) dbm" where
  "raw_for_each E name f s =
     (case cf_by_name name of
        Inl e \<Rightarrow> (Inl e, s)
      | Inr c \<Rightarrow> each_item (db_iter E s c IterStart) f s)"

section \<open>Clearing a family\<close>

definition CLEAR_BATCH :: nat where "CLEAR_BATCH = 4096"

text \<open>\<open>for item in iter\<close>: at most \<open>n\<close> keys, failing at an iterator error met before.\<close>

fun item_keys :: "nat \<Rightarrow> (error + bytes \<times> 'v) list \<Rightarrow> error + bytes list" where
  "item_keys 0 rs = Inr []"
| "item_keys (Suc n) [] = Inr []"
| "item_keys (Suc n) (Inl e # rest) = Inl e"
| "item_keys (Suc n) (Inr (k, v) # rest) = rbind (item_keys n rest) (\<lambda>ks. Inr (k # ks))"

partial_function (option) clear_loop ::
  "('s, 'v, 'x) ext_scheme \<Rightarrow> cf \<Rightarrow> nat \<Rightarrow> 's \<Rightarrow> ((error + nat) \<times> 's) option" where
  "clear_loop E c n0 s =
     (case item_keys CLEAR_BATCH (db_iter E s c IterStart) of
        Inl e \<Rightarrow> Some (Inl e, s)
      | Inr ks \<Rightarrow>
          if ks = [] then Some (Inr n0, s)
          else (case db_write E (map (Del c) ks) s of
                  (Inl e, t) \<Rightarrow> Some (Inl e, t)
                | (Inr _, t) \<Rightarrow> clear_loop E c (n0 + length ks) t))"

definition raw_clear ::
  "('s, 'v, 'x) ext_scheme \<Rightarrow> string \<Rightarrow> 's \<Rightarrow> ((error + nat) \<times> 's) option" where
  "raw_clear E name s =
     (case cf_by_name name of Inl e \<Rightarrow> Some (Inl e, s) | Inr c \<Rightarrow> clear_loop E c 0 s)"

section \<open>Rebuilding the secondary indexes\<close>

record rebuild_report =
  cleared :: "(string \<times> nat) list"
  replayed :: "(string \<times> nat) list"

definition report_default :: rebuild_report where
  "report_default = \<lparr>cleared = [], replayed = []\<rparr>"

fun all_keys :: "(error + bytes \<times> 'v) list \<Rightarrow> error + bytes list" where
  "all_keys [] = Inr []"
| "all_keys (Inl e # rest) = Inl e"
| "all_keys (Inr (k, v) # rest) = rbind (all_keys rest) (\<lambda>ks. Inr (k # ks))"

definition collect_keys :: "('s, 'v, 'x) ext_scheme \<Rightarrow> 's \<Rightarrow> cf \<Rightarrow> error + bytes list" where
  "collect_keys E s c = all_keys (db_iter E s c IterStart)"

fun clear_cfs ::
  "('s, 'v, 'x) ext_scheme \<Rightarrow> cf list \<Rightarrow> (string \<times> nat) list \<Rightarrow> 's \<Rightarrow>
   ((error + (string \<times> nat) list) \<times> 's) option" where
  "clear_cfs E [] done0 s = Some (Inr done0, s)"
| "clear_cfs E (c # cs) done0 s =
     (case raw_clear E (cf_name c) s of
        None \<Rightarrow> None
      | Some (Inl e, t) \<Rightarrow> Some (Inl e, t)
      | Some (Inr n, t) \<Rightarrow> clear_cfs E cs (done0 @ [(cf_name c, n)]) t)"

text \<open>
  One family: every key of the snapshot whose row is still there is decoded and re-emitted;
  the count is of the rows re-emitted.
\<close>

definition replay ::
  "('s, 'v, 'x) ext_scheme \<Rightarrow> cf \<Rightarrow> ('v \<Rightarrow> codec_error + 'a) \<Rightarrow> (bytes \<Rightarrow> 'a \<Rightarrow> ('s, unit) dbm) \<Rightarrow>
   ('s, string \<times> nat) dbm" where
  "replay E c dec emit =
     bnd (readm (\<lambda>s. collect_keys E s c)) (\<lambda>ks.
     bnd (fold_each (\<lambda>n k.
            bnd (readm (\<lambda>s. db_get E s c k)) (\<lambda>r.
              case r of
                None \<Rightarrow> ret n
              | Some v \<Rightarrow>
                  bnd (lift (codec_r (dec v))) (\<lambda>row.
                  bnd (emit k row) (\<lambda>_. ret (n + 1))))) 0 ks) (\<lambda>n.
     ret (cf_name c, n)))"

definition emit_endorsement ::
  "('s, 'v, 'x) ext_scheme \<Rightarrow> bytes \<Rightarrow> stored_endorsement \<Rightarrow> ('s, unit) dbm" where
  "emit_endorsement E k e =
     bnd (lift (parse_endo_id E (en_id e))) (\<lambda>ident.
       db_put E IDX_ENDORSEMENT_BY_CREATOR
         (idx_endorsement_by_creator (addr_key (en_content_creator_address e))
            (sl_period (en_slot e)) (sl_thread (en_slot e)) (id_key ident)) (empty_value E))"

definition emit_denunciation ::
  "('s, 'v, 'x) ext_scheme \<Rightarrow> bytes \<Rightarrow> stored_denunciation_entry \<Rightarrow> ('s, unit) dbm" where
  "emit_denunciation E k d =
     for_each (denunciation_index d k) (\<lambda>(c, i). db_put E c i (empty_value E))"

definition replay_all :: "('s, 'v, 'x) ext_scheme \<Rightarrow> ('s, (string \<times> nat) list) dbm" where
  "replay_all E =
     bnd (replay E CF_BLOCK (decode_block E) (\<lambda>k. write_block E)) (\<lambda>r1.
     bnd (replay E CF_ENDORSEMENT (decode_endorsement E) (emit_endorsement E)) (\<lambda>r2.
     bnd (replay E CF_OP (decode_operation E) (\<lambda>k. write_op E)) (\<lambda>r3.
     bnd (replay E CF_TRANSFER (decode_transfer E) (\<lambda>k. write_transfer E)) (\<lambda>r4.
     bnd (replay E CF_SC_EVENT (decode_sc_event E) (\<lambda>k. write_sc_event E)) (\<lambda>r5.
     bnd (replay E CF_DENUNCIATION (decode_denunciation_entry E) (emit_denunciation E)) (\<lambda>r6.
     bnd (replay E CF_ASYNC_MSG (decode_async_msg E) (\<lambda>k. write_async_msg E)) (\<lambda>r7.
     bnd (replay E CF_DEFERRED_CALL (decode_deferred_call E) (\<lambda>k. write_deferred_call E)) (\<lambda>r8.
     ret [r1, r2, r3, r4, r5, r6, r7, r8]))))))))"

definition rebuild_secondary_indexes ::
  "('s, 'v, 'x) ext_scheme \<Rightarrow> 's \<Rightarrow> ((error + rebuild_report) \<times> 's) option" where
  "rebuild_secondary_indexes E s =
     (case clear_cfs E SECONDARY_INDEX_CFS [] s of
        None \<Rightarrow> None
      | Some (Inl e, t) \<Rightarrow> Some (Inl e, t)
      | Some (Inr cs, t) \<Rightarrow>
          (case replay_all E t of
             (Inl e, u) \<Rightarrow> Some (Inl e, u)
           | (Inr rs, u) \<Rightarrow> Some (Inr \<lparr>cleared = cs, replayed = rs\<rparr>, u)))"

section \<open>Clearing ends\<close>

lemma item_keys_map: "item_keys n (map Inr rows) = Inr (map fst (take n rows))"
proof (induction rows arbitrary: n)
  case Nil
  then show ?case by (cases n) simp_all
next
  case (Cons a rows)
  then show ?case by (cases n; cases a) simp_all
qed

lemma rows_card: "store_ok E R \<Longrightarrow> length (R s c) = card (dom (table R s c))"
  using store_distinct [of E R s c] distinct_card
  by (fastforce simp: table_def dom_map_of_conv_image_fst)

lemma cf_name_inj [simp]: "cf_name a = cf_name b \<longleftrightarrow> a = b"
  by (cases a; cases b) simp_all

lemma cf_handle_name [simp]: "cf_handle (cf_name c) = Some c"
proof (cases "cf_handle (cf_name c)")
  case None
  then show ?thesis
    using set_ALL_CFS [of c] by (simp add: cf_handle_def find_None_iff)
next
  case (Some d)
  then show ?thesis
    by (auto simp: cf_handle_def find_Some_iff)
qed

lemma clear_loop_total:
  assumes "db_ok E R"
  shows "\<exists>t. clear_loop E c n0 s = Some (Inr (n0 + length (R s c)), t) \<and>
    table R t = (table R s)(c := Map.empty)"
proof (induction "length (R s c)" arbitrary: s n0 rule: less_induct)
  case less
  note ok = db_okD(2) [OF assms]
  let ?ks = "map fst (take CLEAR_BATCH (R s c))"
  have keys: "item_keys CLEAR_BATCH (db_iter E s c IterStart) = Inr ?ks"
    by (simp add: db_iter_ok [OF assms] item_keys_map)
  show ?case
  proof (cases "?ks = []")
    case True
    then have "R s c = []"
      by (simp add: CLEAR_BATCH_def)
    then have "table R s = (table R s)(c := Map.empty)"
      by (simp add: fun_eq_iff table_def)
    with True \<open>R s c = []\<close> keys show ?thesis
      by (intro exI [of _ s]) (simp add: clear_loop.simps)
  next
    case False
    obtain t where t: "db_write E (map (Del c) ?ks) s = (Inr (), t)"
        "table R t = apply_batch (map (Del c) ?ks) (table R s)"
      by (rule db_write_ok [OF assms])
    have tab: "table R t = (table R s)(c := (\<lambda>k. if k \<in> set ?ks then None else table R s c k))"
      unfolding t(2) by (rule apply_dels)
    have "table R t c = (\<lambda>k. if k \<in> set ?ks then None else table R s c k)"
      unfolding tab by (rule fun_upd_same)
    then have "dom (table R t c) = dom (table R s c) - set ?ks"
      by (auto simp del: set_map split: if_splits)
    moreover have sub: "set ?ks \<subseteq> dom (table R s c)"
      by (auto simp: table_def dom_map_of_conv_image_fst dest: in_set_takeD)
    moreover have "distinct ?ks"
      using store_distinct [OF ok, of s c] by (simp add: take_map distinct_take flip: take_map)
    ultimately have len: "length (R t c) = length (R s c) - length ?ks"
      using rows_card [OF ok] by (simp add: card_Diff_subset distinct_card del: length_map set_map list.set_map)
    moreover have "length ?ks \<le> length (R s c)" "0 < length ?ks"
      using False by simp_all
    ultimately have "length (R t c) < length (R s c)" and sum: "n0 + length ?ks + length (R t c) = n0 + length (R s c)"
      by linarith+
    from less.hyps [OF this(1), of "n0 + length ?ks"] obtain u where
      u: "clear_loop E c (n0 + length ?ks) t = Some (Inr (n0 + length (R s c)), u)"
        "table R u = (table R t)(c := Map.empty)"
      unfolding sum by blast
    then have "table R u = (table R s)(c := Map.empty)"
      using tab by simp
    moreover have "clear_loop E c n0 s = Some (Inr (n0 + length (R s c)), u)"
      using keys False t(1) u(1) by (subst clear_loop.simps) simp
    ultimately show ?thesis
      by blast
  qed
qed

lemma raw_clear_ok:
  assumes "db_ok E R"
  shows "\<exists>t. raw_clear E (cf_name c) s = Some (Inr (length (R s c)), t) \<and>
    table R t = (table R s)(c := Map.empty)"
  using clear_loop_total [OF assms, of c 0 s] by (simp add: raw_clear_def cf_by_name_def)

lemma clear_cfs_ok:
  assumes "db_ok E R"
  shows "\<exists>ns t. clear_cfs E cs done0 s = Some (Inr (done0 @ ns), t) \<and>
    (\<forall>c. table R t c = (if c \<in> set cs then Map.empty else table R s c))"
proof (induction cs arbitrary: done0 s)
  case Nil
  then show ?case by simp
next
  case (Cons c cs)
  obtain t where t: "raw_clear E (cf_name c) s = Some (Inr (length (R s c)), t)"
      "table R t = (table R s)(c := Map.empty)"
    using raw_clear_ok [OF assms] by blast
  obtain ns u where "clear_cfs E cs (done0 @ [(cf_name c, length (R s c))]) t =
        Some (Inr ((done0 @ [(cf_name c, length (R s c))]) @ ns), u)"
      "\<forall>d. table R u d = (if d \<in> set cs then Map.empty else table R t d)"
    using Cons.IH by blast
  with t show ?case
    by (intro exI [of _ "(cf_name c, length (R s c)) # ns"] exI [of _ u]) auto
qed

end
