(* ===== verification/Node_Pb.thy ===== *)
theory Node_Pb
  imports Storage_Pb
begin

text \<open>
  The messages the node and the peers send (\<open>massa-proto/.../model/v1/*.proto\<close>,
  \<open>public.proto\<close>, \<open>proto/indexer/v1/peer.proto\<close>), as the protobuf generator presents them.
  A wrapper type such as \<open>StringValue\<close> is an option; a \<open>oneof\<close> is an optional datatype; an enum
  field is the raw number received.  The fields the indexer reads are here, the others are not.
\<close>

section \<open>Blocks, operations, endorsements, denunciations\<close>

record nslot =
  ns_period :: u64
  ns_thread :: u32

record native_amount =
  na_mantissa :: u64
  na_scale :: u32

record n_endorsement =
  ne_slot :: "nslot option"
  ne_index :: u32
  ne_endorsed_block :: string

record signed_endorsement =
  se_content :: "n_endorsement option"
  se_signature :: string
  se_content_creator_pub_key :: string
  se_content_creator_address :: string
  se_secure_hash :: string
  se_serialized_size :: u64

text \<open>Fields of the cases: public key, slot, (index,) hashes, signatures; address, slot, slashed.\<close>

datatype n_denunciation =
    NBlockHeader string "nslot option" string string string string
  | NEndorsement string "nslot option" u32 string string string string
  | NAddress string "nslot option" "native_amount option"

record denunciation_msg =
  dm_entry :: "n_denunciation option"

record block_header =
  bh_current_version :: u32
  bh_announced_version :: "u32 option"
  bh_slot :: "nslot option"
  bh_parents :: "string list"
  bh_operations_hash :: string
  bh_endorsements :: "signed_endorsement list"
  bh_denunciations :: "denunciation_msg list"

record signed_block_header =
  sh_content :: "block_header option"
  sh_signature :: string
  sh_content_creator_pub_key :: string
  sh_content_creator_address :: string
  sh_secure_hash :: string
  sh_serialized_size :: u64

record bytes_entry =
  be_key :: bytes
  be_value :: bytes

datatype op_type =
    OpTransaction string "native_amount option"
  | OpRollBuy' u64
  | OpRollSell' u64
  | OpExecuteSC bytes u64 u64 "bytes_entry list"
  | OpCallSC string string bytes u64 "native_amount option"

record operation_type =
  ot_type :: "op_type option"

record n_operation =
  no_fee :: "native_amount option"
  no_expire_period :: u64
  no_op :: "operation_type option"

record signed_operation =
  so_content :: "n_operation option"
  so_signature :: string
  so_content_creator_pub_key :: string
  so_content_creator_address :: string
  so_secure_hash :: string
  so_serialized_size :: u64

record filled_operation =
  fo_operation_id :: string
  fo_operation :: "signed_operation option"

record filled_block =
  fb_header :: "signed_block_header option"
  fb_operations :: "filled_operation list"

section \<open>Execution output\<close>

datatype 'a set_or_keep = SetTo 'a | Keep

text \<open>An optional message whose \<open>oneof\<close> may be unset.\<close>

type_synonym 'a sok = "'a set_or_keep option option"

record event_context =
  ec_call_stack :: "string list"
  ec_origin_operation_id :: "string option"

record sc_execution_event =
  xe_context :: "event_context option"
  xe_data :: bytes

record executed_ops_entry =
  eo_operation_id :: string
  eo_status :: "i32 option"

record async_message_trigger =
  mt_address :: string
  mt_datastore_key :: "bytes option"

record async_message =
  ms_emission_slot :: "nslot option"
  ms_sender :: string
  ms_destination :: string
  ms_handler :: string
  ms_max_gas :: u64
  ms_fee :: "native_amount option"
  ms_coins :: "native_amount option"
  ms_validity_start :: "nslot option"
  ms_validity_end :: "nslot option"
  ms_data :: bytes
  ms_trigger :: "async_message_trigger option"
  ms_can_be_executed :: bool

record async_message_update =
  up_emission_slot :: "nslot sok"
  up_sender :: "string sok"
  up_destination :: "string sok"
  up_handler :: "string sok"
  up_max_gas :: "u64 sok"
  up_fee :: "u64 sok"
  up_coins :: "u64 sok"
  up_validity_start :: "nslot sok"
  up_validity_end :: "nslot sok"
  up_data :: "bytes sok"
  up_trigger :: "async_message_trigger sok"
  up_can_be_executed :: "bool sok"

datatype async_pool_message = CreatedMessage async_message | UpdatedMessage async_message_update

record async_pool_value =
  pv_type :: i32
  pv_message :: "async_pool_message option"

record async_pool_entry =
  ap_async_message_id :: string
  ap_value :: "async_pool_value option"

record state_changes =
  sc_async_pool_changes :: "async_pool_entry list"
  sc_executed_ops_changes :: "executed_ops_entry list"
  sc_execution_trail_hash_change :: "string sok"

record execution_output =
  xo_slot :: "nslot option"
  xo_block_id :: "string option"
  xo_events :: "sc_execution_event list"
  xo_state_changes :: "state_changes option"

record slot_execution_output =
  so_status :: i32
  so_execution_output :: "execution_output option"

section \<open>Transfers\<close>

datatype n_transfer_value = NRolls u64 | NCoins native_amount | NDeferredCredits native_amount

record n_transfer_value_msg =
  tv_value :: "n_transfer_value option"

datatype n_denunciation_index =
    DiBlockHeader "nslot option"
  | DiEndorsement "nslot option" u32

record denunciation_index_msg =
  di_entry :: "n_denunciation_index option"

record exec_transfer_info =
  et_id :: string
  et_from_address :: "string option"
  et_to_address :: "string option"
  et_value :: "n_transfer_value_msg option"
  et_origin :: i32
  et_operation_id :: "string option"
  et_async_msg_id :: "string option"
  et_deferred_call_id :: "string option"
  et_denunciation_index :: "denunciation_index_msg option"

record transfers_info =
  ti_slot :: "nslot option"
  ti_timestamp :: i64
  ti_block_id :: "string option"
  ti_transfers_info :: "exec_transfer_info list"

section \<open>Peer messages\<close>

record final_slot_parts =
  fp_block :: bool
  fp_exec_output :: bool
  fp_transfers :: bool

record final_slot_request =
  fq_period :: u64
  fq_thread :: u32
  fq_parts :: "final_slot_parts option"

record final_slot_response =
  fr_period :: u64
  fr_thread :: u32
  fr_final_known :: bool
  fr_is_miss :: bool
  fr_execution_trail_hash :: string
  fr_block :: "stored_block_pb option"
  fr_operations :: "stored_operation_pb list"
  fr_endorsements :: "stored_endorsement_pb list"
  fr_sc_events :: "stored_sc_event_pb list"
  fr_executed_op_ids :: "string list"
  fr_sc_event_count :: u32
  fr_async_msgs :: "stored_async_msg_pb list"
  fr_transfers :: "stored_transfer_pb list"
  fr_deferred_calls :: "stored_deferred_call_pb list"
  fr_final_block_id :: string
  fr_completeness_known :: bool
  fr_has_block_body :: bool
  fr_has_exec_output :: bool
  fr_has_transfers :: bool
  fr_parts :: "final_slot_parts option"

definition parts_default :: final_slot_parts where
  "parts_default = \<lparr>fp_block = False, fp_exec_output = False, fp_transfers = False\<rparr>"

definition response_default :: final_slot_response where
  "response_default =
     \<lparr>fr_period = 0, fr_thread = 0, fr_final_known = False, fr_is_miss = False,
      fr_execution_trail_hash = [], fr_block = None, fr_operations = [], fr_endorsements = [],
      fr_sc_events = [], fr_executed_op_ids = [], fr_sc_event_count = 0, fr_async_msgs = [],
      fr_transfers = [], fr_deferred_calls = [], fr_final_block_id = [],
      fr_completeness_known = False, fr_has_block_body = False, fr_has_exec_output = False,
      fr_has_transfers = False, fr_parts = None\<rparr>"

end
