(* ===== verification/Sse.thy ===== *)
theory Sse
  imports Model
begin

text \<open>
  The SSE hub (\<open>sse.rs\<close>): a monotonic id, a bounded ring of the last frames for replay, and the
  broadcast channel, of which the model keeps the frames sent.  Serialising an event to JSON is
  the \<open>serde_json\<close> crate's, a parameter that may fail.  A poisoned lock (a panic while it was
  held) is not modelled.
\<close>

datatype slot_sse_event =
    SlotUpdated slot_state
  | BlockSeen stored_block
  | SlotFinalized slot_state
  | OpSeen stored_operation
  | EventSeen stored_sc_event
  | Heartbeat i64

record sse_frame =
  sf_id :: u64
  sf_data :: string

record sse_hub =
  next_id :: u64
  ring :: "sse_frame list"
  ring_capacity :: nat
  sent :: "sse_frame list"

definition sse_new :: "nat \<Rightarrow> sse_hub" where
  "sse_new capacity = \<lparr>next_id = 1, ring = [], ring_capacity = capacity, sent = []\<rparr>"

definition ring_push :: "nat \<Rightarrow> sse_frame \<Rightarrow> sse_frame list \<Rightarrow> sse_frame list" where
  "ring_push capacity f r = (if length r = capacity then drop 1 r else r) @ [f]"

definition sse_broadcast :: "(slot_sse_event \<Rightarrow> string option) \<Rightarrow> slot_sse_event \<Rightarrow> sse_hub \<Rightarrow> sse_hub" where
  "sse_broadcast json ev h =
     (case json ev of
        None \<Rightarrow> h
      | Some js \<Rightarrow>
          (let f = \<lparr>sf_id = next_id h, sf_data = js\<rparr> in
           h\<lparr>next_id := next_id h + 1,
             ring := ring_push (ring_capacity h) f (ring h),
             sent := sent h @ [f]\<rparr>))"

definition replay_since :: "u64 \<Rightarrow> sse_hub \<Rightarrow> sse_frame list" where
  "replay_since since h = filter (\<lambda>f. since < sf_id f) (ring h)"

section \<open>The ring is the tail of what was sent\<close>

text \<open>
  The invariant of a hub with a positive capacity whose id counter has not wrapped: ids
  count the frames sent, and the ring holds the last \<open>capacity\<close> of them.
\<close>

definition hub_ok :: "sse_hub \<Rightarrow> bool" where
  "hub_ok h \<longleftrightarrow>
     0 < ring_capacity h \<and> length (sent h) < 2 ^ 64 - 1 \<and>
     next_id h = word_of_nat (Suc (length (sent h))) \<and>
     map sf_id (sent h) = map (\<lambda>i. word_of_nat (Suc i)) [0..<length (sent h)] \<and>
     ring h = drop (length (sent h) - ring_capacity h) (sent h)"

lemma hub_ok_new: "0 < capacity \<Longrightarrow> hub_ok (sse_new capacity)"
  by (simp add: hub_ok_def sse_new_def)

lemma ring_push_tail:
  assumes "0 < capacity" "r = drop (length xs - capacity) xs"
  shows "ring_push capacity f r = drop (length (xs @ [f]) - capacity) (xs @ [f])"
proof (cases "capacity \<le> length xs")
  case True
  then have "length r = capacity"
    using assms by simp
  with True assms show ?thesis
    by (simp add: ring_push_def Suc_diff_le)
next
  case False
  then have "r = xs" "length r \<noteq> capacity"
    using assms by simp_all
  with False show ?thesis
    by (simp add: ring_push_def)
qed

lemma hub_ok_broadcast:
  assumes "hub_ok h" "length (sent h) + 2 < 2 ^ 64"
  shows "hub_ok (sse_broadcast json ev h)"
proof (cases "json ev")
  case None
  with assms show ?thesis by (simp add: sse_broadcast_def)
next
  case (Some js)
  have "ring_push (ring_capacity h) f (ring h) =
      drop (length (sent h @ [f]) - ring_capacity h) (sent h @ [f])" for f
    by (rule ring_push_tail) (use assms(1) in \<open>simp_all add: hub_ok_def\<close>)
  with Some assms show ?thesis
    by (simp add: hub_ok_def sse_broadcast_def Let_def)
qed

lemma unat_id: "n < 2 ^ 64 \<Longrightarrow> unat (word_of_nat n :: u64) = n"
  by (simp add: unat_of_nat)

text \<open>A replay returns exactly the frames after \<open>since\<close> that the ring still holds, in order.\<close>

lemma replay_exact:
  assumes "hub_ok h"
  shows "replay_since since h =
    drop (max (unat since) (length (sent h) - ring_capacity h)) (sent h)"
proof -
  let ?n = "length (sent h)"
  have ids: "unat (sf_id (sent h ! i)) = Suc i" if "i < ?n" for i
  proof -
    have "map sf_id (sent h) ! i = word_of_nat (Suc i)"
      using assms that by (simp add: hub_ok_def)
    moreover have "Suc i < 2 ^ 64"
      using that assms unfolding hub_ok_def by linarith
    ultimately show ?thesis
      using that unat_id [of "Suc i"] by (simp del: of_nat_Suc)
  qed
  have "filter (\<lambda>f. since < sf_id f) (drop k (sent h)) = drop (max (unat since) k) (sent h)" if "k \<le> ?n" for k
    using that
  proof (induction "?n - k" arbitrary: k)
    case 0
    then show ?case by simp
  next
    case (Suc m)
    then have k: "k < ?n"
      by simp
    then have step: "drop k (sent h) = sent h ! k # drop (Suc k) (sent h)"
      by (simp add: Cons_nth_drop_Suc)
    have IH: "filter (\<lambda>f. since < sf_id f) (drop (Suc k) (sent h)) = drop (max (unat since) (Suc k)) (sent h)"
      by (rule Suc.hyps) (use Suc in simp_all)
    show ?case
    proof (cases "unat since \<le> k")
      case True
      then have "since < sf_id (sent h ! k)"
        using ids [OF k] by (simp add: word_less_nat_alt)
      with True step IH show ?thesis
        by (simp add: max_def)
    next
      case False
      then have "\<not> since < sf_id (sent h ! k)"
        using ids [OF k] by (simp add: word_less_nat_alt)
      moreover have "max (unat since) (Suc k) = max (unat since) k"
        using False by simp
      ultimately show ?thesis
        using step IH by simp
    qed
  qed
  from this [of "?n - ring_capacity h"] show ?thesis
    using assms by (simp add: replay_since_def hub_ok_def)
qed

end
