(* ===== verification/Ingest_Base.thy ===== *)
theory Ingest_Base
  imports Db_Pool Db_Admin Node_Pb Sse
begin

text \<open>
  The pure part of the ingestion (\<open>ingest.rs\<close>): classification of operations, decoding of the
  node's endorsements, denunciations and events, origins and values of transfers, the
  attribution of a slot's transfers to operations, and the merge of async-pool messages.

  The protobuf and JSON encodings the code hashes or archives are further parameters, in the
  record \<open>node_ext\<close>.  \<open>s.thread as u8\<close> truncates, as \<open>ucast\<close> does.

  At the end, what an ingest handler acts on: the store, the SSE hub and the optional counters, threaded
  through result computations.  The store operations are lifted by \<open>on_db\<close>, so their laws
  and frames carry over; a broadcast or a counter never touches the store.
\<close>

section \<open>Parameters\<close>

record ('s, 'v) node_ext = "('s, 'v) ext" +
  json_denunciation :: "stored_denunciation \<Rightarrow> bytes"
  json_event :: "slot_sse_event \<Rightarrow> string option"
  pb_header :: "signed_block_header \<Rightarrow> bytes"
  pb_operation :: "signed_operation \<Rightarrow> bytes"

section \<open>Slots, hex, addresses\<close>

definition node_slot :: "nslot \<Rightarrow> slot" where
  "node_slot s = Slot (ns_period s) (ucast (ns_thread s))"

definition hex_digit :: "u8 \<Rightarrow> char" where
  "hex_digit n = (''0123456789abcdef'' ! unat n)"

definition hex_encode :: "bytes \<Rightarrow> string" where
  "hex_encode bs = concat (map (\<lambda>b. [hex_digit (drop_bit 4 b), hex_digit (b AND 0x0F)]) bs)"

definition addr_ok :: "'x crates_scheme \<Rightarrow> string \<Rightarrow> address option" where
  "addr_ok C t = res_ok (addr_parse C t)"

definition non_empty :: "string \<Rightarrow> string option" where
  "non_empty t = (if t = [] then None else Some t)"

section \<open>Operations\<close>

definition native_amount_to_nmas :: "native_amount \<Rightarrow> u64" where
  "native_amount_to_nmas a = na_mantissa a"

definition classify_op ::
  "'x crates_scheme \<Rightarrow> operation_type option \<Rightarrow> operation_kind \<times> address option \<times> operation_details" where
  "classify_op C t =
     (case Option.bind t ot_type of
        None \<Rightarrow> (KindUnknown, None, details_default)
      | Some (OpTransaction recipient amount) \<Rightarrow>
          (Transaction, addr_ok C recipient,
           details_default\<lparr>od_amount_nmas := map_option na_mantissa amount,
                           od_recipient_address := Some recipient\<rparr>)
      | Some (OpRollBuy' n) \<Rightarrow> (RollBuy, None, details_default\<lparr>od_roll_count := Some n\<rparr>)
      | Some (OpRollSell' n) \<Rightarrow> (RollSell, None, details_default\<lparr>od_roll_count := Some n\<rparr>)
      | Some (OpExecuteSC data max_coins max_gas datastore) \<Rightarrow>
          (ExecuteSc, None,
           details_default\<lparr>od_bytecode_hex := Some (hex_encode data),
                           od_bytecode_size := Some (word_of_nat (length data)),
                           od_max_coins_nmas := Some max_coins,
                           od_max_gas := Some max_gas,
                           od_datastore_keys := Some (word_of_nat (length datastore)),
                           od_datastore := map (\<lambda>e. \<lparr>ds_key_hex = hex_encode (be_key e),
                                                    ds_value_hex = hex_encode (be_value e)\<rparr>) datastore\<rparr>)
      | Some (OpCallSC target_address target_function parameter max_gas coins) \<Rightarrow>
          (CallSc, addr_ok C target_address,
           details_default\<lparr>od_target_address := Some target_address,
                           od_target_function := Some target_function,
                           od_parameter_hex := Some (hex_encode parameter),
                           od_parameter_len := Some (word_of_nat (length parameter)),
                           od_max_gas := Some max_gas,
                           od_coins_nmas := map_option na_mantissa coins\<rparr>))"

section \<open>Endorsements and denunciations\<close>

definition node_endorsement ::
  "'x crates_scheme \<Rightarrow> signed_endorsement \<Rightarrow> block_id \<Rightarrow> slot \<Rightarrow> i64 \<Rightarrow> stored_endorsement option" where
  "node_endorsement C se including_block including_slot now_ms =
     Option.bind (se_content se) (\<lambda>content.
     Option.bind (ne_slot content) (\<lambda>slot_pb.
     Option.bind (addr_ok C (se_content_creator_address se)) (\<lambda>creator.
       Some \<lparr>en_id = se_secure_hash se,
             en_slot = node_slot slot_pb,
             en_index = ne_index content,
             en_endorsed_block_id = ne_endorsed_block content,
             en_content_creator_pub_key = se_content_creator_pub_key se,
             en_content_creator_address = creator,
             en_signature = se_signature se,
             en_serialized_size = se_serialized_size se,
             en_included_block_id = id_text including_block,
             en_included_slot = including_slot,
             en_first_seen_ts_ms = now_ms\<rparr>)))"

definition slot_or_zero :: "nslot option \<Rightarrow> slot" where
  "slot_or_zero s = unwrap_or (Slot 0 0) (map_option node_slot s)"

definition node_denunciation :: "denunciation_msg \<Rightarrow> stored_denunciation" where
  "node_denunciation d =
     (case dm_entry d of
        Some (NBlockHeader public_key s hash_1 hash_2 signature_1 signature_2) \<Rightarrow>
          DenBlockHeader public_key (slot_or_zero s) hash_1 hash_2 signature_1 signature_2
      | Some (NEndorsement public_key s index hash_1 hash_2 signature_1 signature_2) \<Rightarrow>
          DenEndorsement public_key (slot_or_zero s) index hash_1 hash_2 signature_1 signature_2
      | Some (NAddress address_denounced s slashed) \<Rightarrow>
          DenAddress address_denounced (slot_or_zero s) (unwrap_or 0 (map_option na_mantissa slashed))
      | None \<Rightarrow> DenUnknown)"

definition denunciation_hash :: "('s, 'v, 'x) node_ext_scheme \<Rightarrow> stored_denunciation \<Rightarrow> string" where
  "denunciation_hash E d = hex_encode (sha256 E (json_denunciation E d))"

fun denunciation_slot :: "stored_denunciation \<Rightarrow> slot" where
  "denunciation_slot (DenBlockHeader pk s h1 h2 s1 s2) = s"
| "denunciation_slot (DenEndorsement pk s i h1 h2 s1 s2) = s"
| "denunciation_slot (DenAddress a s n) = s"
| "denunciation_slot DenUnknown = Slot 0 0"

fun denunciation_kind_label :: "stored_denunciation \<Rightarrow> string" where
  "denunciation_kind_label (DenBlockHeader pk s h1 h2 s1 s2) = ''block_header''"
| "denunciation_kind_label (DenEndorsement pk s i h1 h2 s1 s2) = ''endorsement''"
| "denunciation_kind_label (DenAddress a s n) = ''address''"
| "denunciation_kind_label DenUnknown = ''unknown''"

definition denunciation_target_address :: "'x crates_scheme \<Rightarrow> stored_denunciation \<Rightarrow> address option" where
  "denunciation_target_address C d = (case d of DenAddress a s n \<Rightarrow> addr_ok C a | _ \<Rightarrow> None)"

section \<open>Events\<close>

definition extract_event_context ::
  "'x crates_scheme \<Rightarrow> sc_execution_event \<Rightarrow> address list \<times> address list \<times> operation_id option" where
  "extract_event_context C ev =
     (case xe_context ev of
        None \<Rightarrow> ([], [], None)
      | Some ctx \<Rightarrow>
          (let call_stack = List.map_filter (addr_ok C) (ec_call_stack ctx);
               emitters = (if call_stack = [] then [] else [last call_stack]);
               callers = (if call_stack = [] then [] else [hd call_stack])
           in (emitters, callers,
               Option.bind (ec_origin_operation_id ctx) (\<lambda>x. res_ok (op_parse C x)))))"

text \<open>\<open>from_utf8\<close> and its lossy fallback agree where the first succeeds: \<open>utf8_lossy\<close> is both.\<close>

definition stringify_bytes :: "bytes \<Rightarrow> string" where
  "stringify_bytes b = bytes_str (utf8_lossy b)"

definition node_event ::
  "'x crates_scheme \<Rightarrow> slot \<Rightarrow> slot_status \<Rightarrow> nat \<Rightarrow> sc_execution_event \<Rightarrow> stored_sc_event" where
  "node_event C sl status i ev =
     (case extract_event_context C ev of
        (emitters, callers, op_id1) \<Rightarrow>
          \<lparr>ev_slot = sl, ev_index_in_slot = word_of_nat i, ev_data = stringify_bytes (xe_data ev),
           ev_emitter_addrs = emitters, ev_caller_addrs = callers, ev_status = status,
           ev_op_id = op_id1\<rparr>)"

definition node_events ::
  "'x crates_scheme \<Rightarrow> slot \<Rightarrow> slot_status \<Rightarrow> sc_execution_event list \<Rightarrow> stored_sc_event list" where
  "node_events C sl status evs = map (\<lambda>(i, ev). node_event C sl status i ev) (enumerate 0 evs)"

section \<open>Transfers\<close>

definition coin_origin_from_i32 :: "i32 \<Rightarrow> coin_origin" where
  "coin_origin_from_i32 code = unwrap_or (OtherOrigin code) (coin_origin_of_kind code)"

fun is_zero_value :: "transfer_value \<Rightarrow> bool" where
  "is_zero_value (Coins n) \<longleftrightarrow> n = 0"
| "is_zero_value (DeferredCredits n) \<longleftrightarrow> n = 0"
| "is_zero_value (Rolls n) \<longleftrightarrow> n = 0"
| "is_zero_value ValueUnknown \<longleftrightarrow> True"

definition is_reward_origin :: "coin_origin \<Rightarrow> bool" where
  "is_reward_origin o1 \<longleftrightarrow>
     o1 \<in> {BlockReward, EndorsementReward, EndorsedReward, Slash, DeferredCredit}"

definition is_op_child_origin :: "coin_origin \<Rightarrow> bool" where
  "is_op_child_origin o1 \<longleftrightarrow>
     o1 \<in> {AbiCallCoins, AbiTransferCoins, AbiTransferForCoins, AbiSendMsgCoins, AbiSendMsgFees,
           CreateScStorage, DatastoreStorage, SetBytecodeStorage}"

definition show_slot :: "nslot option \<Rightarrow> string" where
  "show_slot s =
     (case s of
        None \<Rightarrow> ''()''
      | Some s \<Rightarrow> ''('' @ show_nat (unat (ns_period s)) @ '','' @ show_nat (unat (ns_thread s)) @ '')'')"

definition format_denunciation_index :: "denunciation_index_msg \<Rightarrow> string" where
  "format_denunciation_index idx =
     (case di_entry idx of
        Some (DiBlockHeader s) \<Rightarrow> ''block_header@'' @ show_slot s
      | Some (DiEndorsement s i) \<Rightarrow> ''endorsement@'' @ show_slot s @ ''#'' @ show_nat (unat i)
      | None \<Rightarrow> ''unknown'')"

definition node_value :: "exec_transfer_info \<Rightarrow> transfer_value" where
  "node_value t =
     (case Option.bind (et_value t) tv_value of
        Some (NRolls n) \<Rightarrow> Rolls n
      | Some (NCoins a) \<Rightarrow> Coins (native_amount_to_nmas a)
      | Some (NDeferredCredits a) \<Rightarrow> DeferredCredits (native_amount_to_nmas a)
      | None \<Rightarrow> ValueUnknown)"

definition node_transfer :: "transfers_info \<Rightarrow> slot \<Rightarrow> i64 \<Rightarrow> u32 \<Rightarrow> exec_transfer_info \<Rightarrow> stored_transfer" where
  "node_transfer resp sl now_ms i t =
     \<lparr>tr_slot = sl, tr_index_in_slot = i, tr_id = et_id t, tr_block_id = ti_block_id resp,
      tr_block_timestamp_ms = ti_timestamp resp,
      tr_from = et_from_address t, tr_to = et_to_address t,
      tr_value = node_value t, tr_origin = coin_origin_from_i32 (et_origin t),
      tr_operation_id = et_operation_id t, tr_async_msg_id = et_async_msg_id t,
      tr_deferred_call_id = et_deferred_call_id t,
      tr_denunciation_index = map_option format_denunciation_index (et_denunciation_index t),
      tr_is_final = True, tr_first_seen_ts_ms = now_ms\<rparr>"

text \<open>Pass 1: decode, drop what carries no value, number what is left.\<close>

fun decode_transfers ::
  "transfers_info \<Rightarrow> slot \<Rightarrow> i64 \<Rightarrow> u32 \<Rightarrow> exec_transfer_info list \<Rightarrow> stored_transfer list" where
  "decode_transfers resp sl now_ms next_idx [] = []"
| "decode_transfers resp sl now_ms next_idx (t # ts) =
     (if is_zero_value (node_value t) then decode_transfers resp sl now_ms next_idx ts
      else node_transfer resp sl now_ms next_idx t #
           decode_transfers resp sl now_ms (next_idx + 1) ts)"

text \<open>Pass 2: attribute the side effects of an operation to it.\<close>

fun infer_operations :: "string option \<Rightarrow> stored_transfer list \<Rightarrow> stored_transfer list" where
  "infer_operations current_op [] = []"
| "infer_operations current_op (r # rs) =
     (if is_some (tr_operation_id r) then r # infer_operations (tr_operation_id r) rs
      else if is_some (tr_async_msg_id r) \<or> is_some (tr_deferred_call_id r) \<or>
              is_some (tr_denunciation_index r)
      then r # infer_operations None rs
      else if is_reward_origin (tr_origin r) then r # infer_operations None rs
      else if is_op_child_origin (tr_origin r) then
        (case current_op of
           Some i \<Rightarrow> r\<lparr>tr_operation_id := Some i\<rparr>
         | None \<Rightarrow> r) # infer_operations current_op rs
      else r # infer_operations current_op rs)"

section \<open>Async messages\<close>

definition node_trigger :: "async_message_trigger \<Rightarrow> async_trigger" where
  "node_trigger t =
     \<lparr>at_address = mt_address t, at_datastore_key_hex = map_option hex_encode (mt_datastore_key t)\<rparr>"

definition non_empty_hex :: "bytes \<Rightarrow> string option" where
  "non_empty_hex b = (if b = [] then None else Some (hex_encode b))"

definition async_msg_from_proto ::
  "'x crates_scheme \<Rightarrow> string \<Rightarrow> async_message \<Rightarrow> slot \<Rightarrow> i64 \<Rightarrow> stored_async_msg" where
  "async_msg_from_proto C i msg sl now_ms =
     \<lparr>am_id = i,
      am_sender = addr_ok C (ms_sender msg),
      am_destination = addr_ok C (ms_destination msg),
      am_handler = non_empty (ms_handler msg),
      am_coins_nmas = unwrap_or 0 (map_option na_mantissa (ms_coins msg)),
      am_max_gas = ms_max_gas msg,
      am_fee_nmas = unwrap_or 0 (map_option na_mantissa (ms_fee msg)),
      am_emission_slot = map_option node_slot (ms_emission_slot msg),
      am_validity_start = map_option node_slot (ms_validity_start msg),
      am_validity_end = map_option node_slot (ms_validity_end msg),
      am_state = Pending,
      am_last_slot = Some sl,
      am_data_hex = non_empty_hex (ms_data msg),
      am_trigger = map_option node_trigger (ms_trigger msg),
      am_can_be_executed = ms_can_be_executed msg,
      am_first_seen_ts_ms = now_ms,
      am_last_updated_ts_ms = now_ms\<rparr>"

text \<open>The row minted for an id not seen before.\<close>

definition async_stub :: "string \<Rightarrow> async_msg_state \<Rightarrow> slot \<Rightarrow> i64 \<Rightarrow> stored_async_msg" where
  "async_stub i state sl now_ms =
     \<lparr>am_id = i, am_sender = None, am_destination = None, am_handler = None, am_coins_nmas = 0,
      am_max_gas = 0, am_fee_nmas = 0, am_emission_slot = None, am_validity_start = None,
      am_validity_end = None, am_state = state, am_last_slot = Some sl, am_data_hex = None,
      am_trigger = None, am_can_be_executed = False, am_first_seen_ts_ms = now_ms,
      am_last_updated_ts_ms = now_ms\<rparr>"

text \<open>One field of an update: \<open>Set\<close> replaces, \<open>Keep\<close> and unset leave.\<close>

definition when_set :: "'a sok \<Rightarrow> ('a \<Rightarrow> 'r \<Rightarrow> 'r) \<Rightarrow> 'r \<Rightarrow> 'r" where
  "when_set c f r = (case c of Some (Some (SetTo v)) \<Rightarrow> f v r | _ \<Rightarrow> r)"

definition apply_async_update ::
  "'x crates_scheme \<Rightarrow> async_message_update \<Rightarrow> stored_async_msg \<Rightarrow> stored_async_msg" where
  "apply_async_update C upd existing =
     (let r1 = when_set (up_emission_slot upd) (\<lambda>v r. r\<lparr>am_emission_slot := Some (node_slot v)\<rparr>) existing;
          r2 = when_set (up_sender upd) (\<lambda>v r. r\<lparr>am_sender := addr_ok C v\<rparr>) r1;
          r3 = when_set (up_destination upd) (\<lambda>v r. r\<lparr>am_destination := addr_ok C v\<rparr>) r2;
          r4 = when_set (up_handler upd) (\<lambda>v r. r\<lparr>am_handler := non_empty v\<rparr>) r3;
          r5 = when_set (up_max_gas upd) (\<lambda>v r. r\<lparr>am_max_gas := v\<rparr>) r4;
          r6 = when_set (up_fee upd) (\<lambda>v r. r\<lparr>am_fee_nmas := v\<rparr>) r5;
          r7 = when_set (up_coins upd) (\<lambda>v r. r\<lparr>am_coins_nmas := v\<rparr>) r6;
          r8 = when_set (up_validity_start upd) (\<lambda>v r. r\<lparr>am_validity_start := Some (node_slot v)\<rparr>) r7;
          r9 = when_set (up_validity_end upd) (\<lambda>v r. r\<lparr>am_validity_end := Some (node_slot v)\<rparr>) r8;
          r10 = when_set (up_data upd) (\<lambda>v r. r\<lparr>am_data_hex := non_empty_hex v\<rparr>) r9;
          r11 = when_set (up_trigger upd) (\<lambda>v r. r\<lparr>am_trigger := Some (node_trigger v)\<rparr>) r10
      in when_set (up_can_be_executed upd) (\<lambda>v r. r\<lparr>am_can_be_executed := v\<rparr>) r11)"

section \<open>State\<close>

text \<open>The counters of \<open>metrics.rs\<close> that the ingest worker bumps.\<close>

record metrics =
  ingest_blocks_total :: u64
  ingest_exec_outputs_total :: u64
  ingest_transfers_total :: u64
  ingest_peer_patches_total :: u64
  ingest_legacy_patches_total :: u64
  ingest_events_dropped_total :: u64
  slots_finalized_total :: u64
  slots_missed_total :: u64
  peer_promoted_final_total :: u64
  peer_divergence_repaired_total :: u64
  peer_divergence_kept_local_total :: u64

record 's world =
  w_db :: 's
  w_sse :: sse_hub
  w_metrics :: "metrics option"

type_synonym ('s, 'a) wm = "('s world, 'a) dbm"

definition on_db :: "('s, 'a) dbm \<Rightarrow> ('s, 'a) wm" where
  "on_db m w = (case m (w_db w) of (r, t) \<Rightarrow> (r, w\<lparr>w_db := t\<rparr>))"

definition rd :: "('s \<Rightarrow> error + 'a) \<Rightarrow> ('s, 'a) wm" where
  "rd f w = (f (w_db w), w)"

definition emit :: "('s, 'v, 'x) node_ext_scheme \<Rightarrow> slot_sse_event \<Rightarrow> ('s, unit) wm" where
  "emit E ev w = (Inr (), w\<lparr>w_sse := sse_broadcast (json_event E) ev (w_sse w)\<rparr>)"

definition bump :: "(metrics \<Rightarrow> metrics) \<Rightarrow> ('s, unit) wm" where
  "bump f w = (Inr (), w\<lparr>w_metrics := map_option f (w_metrics w)\<rparr>)"

definition only_if :: "bool \<Rightarrow> ('s, unit) dbm \<Rightarrow> ('s, unit) dbm" where
  "only_if b m = (if b then m else ret ())"

section \<open>Running\<close>

lemma on_db_run [run_simps]: "m (w_db w) = (r, t) \<Longrightarrow> on_db m w = (r, w\<lparr>w_db := t\<rparr>)"
  by (simp add: on_db_def)

lemma rd_run [run_simps]: "rd f w = (f (w_db w), w)"
  by (simp add: rd_def)

lemma emit_run [run_simps]:
  "emit E ev w = (Inr (), w\<lparr>w_sse := sse_broadcast (json_event E) ev (w_sse w)\<rparr>)"
  by (simp add: emit_def)

lemma bump_run [run_simps]: "bump f w = (Inr (), w\<lparr>w_metrics := map_option f (w_metrics w)\<rparr>)"
  by (simp add: bump_def)

lemma only_if_simps [simp]: "only_if True m = m" "only_if False m = ret ()"
  by (simp_all add: only_if_def)

section \<open>Frames\<close>

definition world_rows :: "('s, 'v) rows \<Rightarrow> ('s world, 'v) rows" where
  "world_rows R w = R (w_db w)"

lemma table_world [simp]: "table (world_rows R) w = table R (w_db w)"
  by (rule ext)+ (simp add: table_def world_rows_def)

abbreviation w_touches :: "('s, 'v) rows \<Rightarrow> cf set \<Rightarrow> ('s, 'a) wm \<Rightarrow> bool" where
  "w_touches R \<equiv> touches (world_rows R)"

lemma touches_on_db [frame_intros]: "touches R cs m \<Longrightarrow> w_touches R cs (on_db m)"
  by (auto simp: touches_def on_db_def split: prod.splits) (metis snd_conv)

lemma touches_rd [frame_intros]: "w_touches R cs (rd f)"
  by (simp add: touches_def rd_def)

lemma touches_emit [frame_intros]: "w_touches R cs (emit E ev)"
  by (simp add: touches_def emit_def)

lemma touches_bump [frame_intros]: "w_touches R cs (bump f)"
  by (simp add: touches_def bump_def)

lemma touches_only_if [frame_intros]: "touches R cs m \<Longrightarrow> touches R cs (only_if b m)"
  by (cases b) (auto intro: frame_intros)

end
