(* ===== verification/Reconcile.thy ===== *)
theory Reconcile
  imports Ingest_Base
begin

text \<open>
  The database steps the live path (\<open>ingest.rs\<close>) and the peer path (\<open>peer/patch.rs\<close>) share:
  async-pool changes, executed operations, the reconciliation of async messages and deferred
  calls from a slot's transfers, the propagation of finality to block rows, and the stub
  for the previous slot.
\<close>

section \<open>Async pool\<close>

definition read_async_or ::
  "('s, 'v, 'x) ext_scheme \<Rightarrow> stored_async_msg \<Rightarrow> ('s, stored_async_msg) dbm" where
  "read_async_or E stub = bnd (readm (\<lambda>s. read_async_msg E s (am_id stub))) (\<lambda>r. ret (unwrap_or stub r))"

definition async_terminal :: "async_msg_state \<Rightarrow> bool" where
  "async_terminal st \<longleftrightarrow> st = AsyncExecuted \<or> st = AsyncCancelled"

definition apply_async_entry ::
  "('s, 'v, 'x) ext_scheme \<Rightarrow> slot \<Rightarrow> i64 \<Rightarrow> async_pool_entry \<Rightarrow> ('s, unit) dbm" where
  "apply_async_entry E sl now_ms entry1 =
     (let i = ap_async_message_id entry1; stub = async_stub i Pending sl now_ms in
      if i = [] then ret ()
      else (case ap_value entry1 of
              None \<Rightarrow> ret ()
            | Some val \<Rightarrow>
                if pv_type val = 1 then
                  (case pv_message val of
                     Some (CreatedMessage msg) \<Rightarrow>
                       write_async_msg E (async_msg_from_proto E i msg sl now_ms)
                   | _ \<Rightarrow> ret ())
                else if pv_type val = 2 then
                  (case pv_message val of
                     Some (UpdatedMessage upd) \<Rightarrow>
                       bnd (read_async_or E stub) (\<lambda>existing.
                         write_async_msg E
                           ((apply_async_update E upd existing)
                              \<lparr>am_last_slot := Some sl, am_last_updated_ts_ms := now_ms\<rparr>))
                   | _ \<Rightarrow> ret ())
                else if pv_type val = 3 then
                  bnd (read_async_or E stub) (\<lambda>existing.
                    write_async_msg E
                      (existing\<lparr>am_state := (if async_terminal (am_state existing) then am_state existing
                                            else Consumed),
                                am_last_slot := Some sl, am_last_updated_ts_ms := now_ms\<rparr>))
                else ret ()))"

definition apply_async_pool_changes ::
  "('s, 'v, 'x) ext_scheme \<Rightarrow> slot \<Rightarrow> async_pool_entry list \<Rightarrow> i64 \<Rightarrow> ('s, unit) dbm" where
  "apply_async_pool_changes E sl entries now_ms = for_each entries (apply_async_entry E sl now_ms)"

fun async_origin_state :: "coin_origin \<Rightarrow> async_msg_state option" where
  "async_origin_state AsyncMsgCoins = Some AsyncExecuted"
| "async_origin_state AsyncMsgCancel = Some AsyncCancelled"
| "async_origin_state _ = None"

definition coins_of :: "transfer_value \<Rightarrow> u64 option" where
  "coins_of v = (case v of Coins n \<Rightarrow> Some n | _ \<Rightarrow> None)"

definition opt_addr :: "'x crates_scheme \<Rightarrow> string option \<Rightarrow> address option" where
  "opt_addr C t = Option.bind t (addr_ok C)"

definition or_else :: "'a option \<Rightarrow> 'a option \<Rightarrow> 'a option" where
  "or_else x y = (case x of None \<Rightarrow> y | Some v \<Rightarrow> Some v)"

definition async_merge_transfer ::
  "'x crates_scheme \<Rightarrow> slot \<Rightarrow> i64 \<Rightarrow> stored_transfer \<Rightarrow> async_msg_state \<Rightarrow> stored_async_msg \<Rightarrow> stored_async_msg" where
  "async_merge_transfer C sl now_ms r new_state existing =
     existing
       \<lparr>am_state := (if am_state existing = Pending \<or> am_state existing = Consumed then new_state
                    else am_state existing),
        am_sender := or_else (am_sender existing) (opt_addr C (tr_from r)),
        am_destination := or_else (am_destination existing) (opt_addr C (tr_to r)),
        am_coins_nmas := (case coins_of (tr_value r) of
                            Some n \<Rightarrow> if am_coins_nmas existing = 0 then n else am_coins_nmas existing
                          | None \<Rightarrow> am_coins_nmas existing),
        am_last_slot := Some sl,
        am_last_updated_ts_ms := now_ms\<rparr>"

definition reconcile_async_row ::
  "('s, 'v, 'x) ext_scheme \<Rightarrow> slot \<Rightarrow> i64 \<Rightarrow> stored_transfer \<Rightarrow> ('s, unit) dbm" where
  "reconcile_async_row E sl now_ms r =
     (case tr_async_msg_id r of
        None \<Rightarrow> ret ()
      | Some i \<Rightarrow>
          (case async_origin_state (tr_origin r) of
             None \<Rightarrow> ret ()
           | Some new_state \<Rightarrow>
               bnd (read_async_or E (async_stub i new_state sl now_ms)) (\<lambda>existing.
                 write_async_msg E (async_merge_transfer E sl now_ms r new_state existing))))"

definition reconcile_async_from_transfers ::
  "('s, 'v, 'x) ext_scheme \<Rightarrow> slot \<Rightarrow> stored_transfer list \<Rightarrow> i64 \<Rightarrow> ('s, unit) dbm" where
  "reconcile_async_from_transfers E sl rs now_ms = for_each rs (reconcile_async_row E sl now_ms)"

section \<open>Deferred calls\<close>

definition call_stub :: "string \<Rightarrow> slot \<Rightarrow> i64 \<Rightarrow> stored_deferred_call" where
  "call_stub i sl now_ms =
     \<lparr>dc_id = i, dc_sender = None, dc_target_address = None, dc_target_function = None,
      dc_parameter_hex = None, dc_coins_nmas = 0, dc_max_gas = 0, dc_target_slot = None,
      dc_registered_slot = None, dc_state = Registered, dc_last_slot = Some sl,
      dc_first_seen_ts_ms = now_ms, dc_last_updated_ts_ms = now_ms\<rparr>"

definition call_terminal :: "deferred_call_state \<Rightarrow> bool" where
  "call_terminal st \<longleftrightarrow> st = CallExecuted \<or> st = CallFailed \<or> st = CallCancelled"

text \<open>The fields an origin fills and the state it proposes; \<open>None\<close> for the other origins.\<close>

fun call_transition ::
  "'x crates_scheme \<Rightarrow> slot \<Rightarrow> stored_transfer \<Rightarrow> coin_origin \<Rightarrow> stored_deferred_call \<Rightarrow>
   (stored_deferred_call \<times> deferred_call_state) option" where
  "call_transition C sl r DeferredCallRegister existing =
     Some (existing\<lparr>dc_registered_slot := or_else (dc_registered_slot existing) (Some sl),
                    dc_sender := or_else (dc_sender existing) (opt_addr C (tr_from r))\<rparr>, Registered)"
| "call_transition C sl r DeferredCallCoins existing =
     Some (existing\<lparr>dc_target_slot := or_else (dc_target_slot existing) (Some sl),
                    dc_target_address := or_else (dc_target_address existing) (opt_addr C (tr_to r))\<rparr>,
           CallExecuted)"
| "call_transition C sl r DeferredCallFail existing = Some (existing, CallFailed)"
| "call_transition C sl r DeferredCallCancel existing = Some (existing, CallCancelled)"
| "call_transition C sl r DeferredCallStorageRefund existing = Some (existing, dc_state existing)"
| "call_transition C sl r _ existing = None"

definition call_merge_transfer ::
  "'x crates_scheme \<Rightarrow> slot \<Rightarrow> i64 \<Rightarrow> stored_transfer \<Rightarrow> stored_deferred_call \<Rightarrow> stored_deferred_call option" where
  "call_merge_transfer C sl now_ms r existing =
     map_option (\<lambda>(d, new_state).
       d\<lparr>dc_coins_nmas := (case coins_of (tr_value r) of
                             Some n \<Rightarrow> if dc_coins_nmas d < n then n else dc_coins_nmas d
                           | None \<Rightarrow> dc_coins_nmas d),
         dc_state := (if call_terminal (dc_state d) then dc_state d else new_state),
         dc_last_slot := Some sl,
         dc_last_updated_ts_ms := now_ms\<rparr>) (call_transition C sl r (tr_origin r) existing)"

definition reconcile_deferred_row ::
  "('s, 'v, 'x) ext_scheme \<Rightarrow> slot \<Rightarrow> i64 \<Rightarrow> stored_transfer \<Rightarrow> ('s, unit) dbm" where
  "reconcile_deferred_row E sl now_ms r =
     (case tr_deferred_call_id r of
        None \<Rightarrow> ret ()
      | Some i \<Rightarrow>
          bnd (readm (\<lambda>s. read_deferred_call E s i)) (\<lambda>found.
            case call_merge_transfer E sl now_ms r (unwrap_or (call_stub i sl now_ms) found) of
              None \<Rightarrow> ret ()
            | Some d \<Rightarrow> write_deferred_call E d))"

definition reconcile_deferred_from_transfers ::
  "('s, 'v, 'x) ext_scheme \<Rightarrow> slot \<Rightarrow> stored_transfer list \<Rightarrow> i64 \<Rightarrow> ('s, unit) dbm" where
  "reconcile_deferred_from_transfers E sl rs now_ms = for_each rs (reconcile_deferred_row E sl now_ms)"

section \<open>Executed operations\<close>

definition exec_status_of_node :: "i32 \<Rightarrow> exec_status option" where
  "exec_status_of_node n = (if n = 1 then Some ExecOk else if n = 2 then Some ExecFailed else None)"

definition settle_exec :: "bool \<Rightarrow> exec_status \<Rightarrow> stored_operation \<Rightarrow> stored_operation option" where
  "settle_exec is_final st op =
     (if is_final then
        (if op_final_exec_status op = None
         then Some (op\<lparr>op_final_exec_status := Some st, op_candidate_exec_status := Some st\<rparr>)
         else None)
      else
        (if op_candidate_exec_status op \<noteq> Some st
         then Some (op\<lparr>op_candidate_exec_status := Some st\<rparr>) else None))"

definition apply_executed_op ::
  "('s, 'v, 'x) ext_scheme \<Rightarrow> bool \<Rightarrow> executed_ops_entry \<Rightarrow> operation_id \<Rightarrow> ('s, unit) dbm" where
  "apply_executed_op E is_final entry1 ident =
     (case exec_status_of_node (unwrap_or 0 (eo_status entry1)) of
        None \<Rightarrow> ret ()
      | Some st \<Rightarrow>
          bnd (readm (\<lambda>s. read_op E s ident)) (\<lambda>found.
            case Option.bind found (settle_exec is_final st) of
              None \<Rightarrow> ret ()
            | Some op \<Rightarrow> write_op E op))"

definition apply_executed_ops_changes ::
  "('s, 'v, 'x) ext_scheme \<Rightarrow> executed_ops_entry list \<Rightarrow> bool \<Rightarrow> ('s, operation_id list) dbm" where
  "apply_executed_ops_changes E entries is_final =
     fold_each (\<lambda>out entry1.
       case op_parse E (eo_operation_id entry1) of
         Inl _ \<Rightarrow> ret out
       | Inr ident \<Rightarrow> bnd (apply_executed_op E is_final entry1 ident) (\<lambda>_. ret (out @ [ident]))) [] entries"

section \<open>Finality of blocks\<close>

definition set_block_status ::
  "('s, 'v, 'x) ext_scheme \<Rightarrow> block_id \<Rightarrow> block_status \<Rightarrow> ('s, unit) dbm" where
  "set_block_status E bid new_status =
     bnd (readm (\<lambda>s. read_block E s bid)) (\<lambda>found.
       case found of
         None \<Rightarrow> ret ()
       | Some b \<Rightarrow>
           if bk_status b \<noteq> new_status then write_block E (b\<lparr>bk_status := new_status\<rparr>) else ret ())"

definition apply_finality_to_blocks ::
  "('s, 'v, 'x) ext_scheme \<Rightarrow> block_id option \<Rightarrow> block_id list \<Rightarrow> ('s, unit) dbm" where
  "apply_finality_to_blocks E final_block_id candidates =
     bnd (for_each candidates (\<lambda>bid.
            set_block_status E bid (if Some bid = final_block_id then BlockFinal else Discarded))) (\<lambda>_.
       case final_block_id of
         None \<Rightarrow> ret ()
       | Some bid \<Rightarrow>
           if bid \<in> set candidates then ret () else set_block_status E bid BlockFinal)"

section \<open>The previous slot\<close>

definition ensure_parent_stub :: "('s, 'v, 'x) ext_scheme \<Rightarrow> slot \<Rightarrow> i64 \<Rightarrow> ('s, unit) dbm" where
  "ensure_parent_stub E sl now_ms =
     (if sl_period sl = 0 then ret ()
      else (let prev = Slot (sl_period sl - 1) (sl_thread sl) in
            bnd (readm (\<lambda>s. read_slot E s (sl_period prev) (sl_thread prev))) (\<lambda>found.
              if is_some found then ret () else write_slot E (fresh prev now_ms))))"

section \<open>Frames\<close>

definition block_cfs :: "cf set" where
  "block_cfs = {CF_BLOCK, IDX_BLOCK_BY_CREATOR, CF_SLOT_CANDIDATE_BLOCK}"

definition op_cfs :: "cf set" where
  "op_cfs = {CF_OP, IDX_OP_BY_CREATOR, IDX_OP_BY_TARGET}"

lemma touches_read_async_or [frame_intros]: "touches R cs (read_async_or E stub)"
  unfolding read_async_or_def by (intro frame_intros)

lemma touches_apply_async_pool_changes [frame_intros]:
  "store_ok E R \<Longrightarrow> async_cfs \<subseteq> cs \<Longrightarrow> touches R cs (apply_async_pool_changes E sl es now)"
  unfolding apply_async_pool_changes_def apply_async_entry_def Let_def
  by (intro frame_intros) (auto intro: frame_intros split: option.splits async_pool_message.splits)

lemma touches_reconcile_async [frame_intros]:
  "store_ok E R \<Longrightarrow> async_cfs \<subseteq> cs \<Longrightarrow> touches R cs (reconcile_async_from_transfers E sl rs now)"
  unfolding reconcile_async_from_transfers_def reconcile_async_row_def
  by (intro frame_intros)

lemma touches_reconcile_deferred [frame_intros]:
  "store_ok E R \<Longrightarrow> deferred_cfs \<subseteq> cs \<Longrightarrow> touches R cs (reconcile_deferred_from_transfers E sl rs now)"
  unfolding reconcile_deferred_from_transfers_def reconcile_deferred_row_def
  by (intro frame_intros)

lemma touches_write_op' [frame_intros]:
  "store_ok E R \<Longrightarrow> op_cfs \<subseteq> cs \<Longrightarrow> touches R cs (write_op E p)"
  by (rule touches_write_op) (auto simp: op_cfs_def)

lemma touches_write_block' [frame_intros]:
  "store_ok E R \<Longrightarrow> block_cfs \<subseteq> cs \<Longrightarrow> touches R cs (write_block E p)"
  by (rule touches_write_block) (auto simp: block_cfs_def)

lemma touches_apply_executed_op [frame_intros]:
  "store_ok E R \<Longrightarrow> op_cfs \<subseteq> cs \<Longrightarrow> touches R cs (apply_executed_op E f e i)"
  unfolding apply_executed_op_def
  by (intro touches_option touches_bnd touches_readm touches_ret touches_write_op')

lemma touches_apply_executed_ops [frame_intros]:
  "store_ok E R \<Longrightarrow> op_cfs \<subseteq> cs \<Longrightarrow> touches R cs (apply_executed_ops_changes E es f)"
  unfolding apply_executed_ops_changes_def
  by (intro touches_fold_each touches_sum touches_bnd touches_ret touches_apply_executed_op)

lemma touches_set_block_status [frame_intros]:
  "store_ok E R \<Longrightarrow> block_cfs \<subseteq> cs \<Longrightarrow> touches R cs (set_block_status E b st)"
  unfolding set_block_status_def
  by (intro touches_option touches_bnd touches_readm touches_ret touches_if touches_write_block')

lemma touches_apply_finality [frame_intros]:
  "store_ok E R \<Longrightarrow> block_cfs \<subseteq> cs \<Longrightarrow> touches R cs (apply_finality_to_blocks E b bs)"
  unfolding apply_finality_to_blocks_def
  by (intro touches_option touches_bnd touches_for_each touches_ret touches_if touches_set_block_status)

lemma touches_ensure_parent_stub [frame_intros]:
  "store_ok E R \<Longrightarrow> CF_SLOT \<in> cs \<Longrightarrow> touches R cs (ensure_parent_stub E sl now)"
  unfolding ensure_parent_stub_def Let_def by (intro frame_intros)

end
