(* ===== verification/Arbiter.thy ===== *)
theory Arbiter
  imports Reconcile
begin

text \<open>
  The chain-linkage arbiter (\<open>peer/patch.rs\<close>): which of two competing FINAL verdicts on a slot the
  later blocks of its thread confirm.  It only reads the database.  The lookaround is
  \<open>512\<close> periods, the walk along parents \<open>64\<close> steps.  \<open>slot.period + 1\<close> wraps, as it does in a release
  build.
\<close>

section \<open>Verdicts\<close>

datatype verdict = Miss | BlockVerdict block_id

definition of_local :: "slot_state \<Rightarrow> verdict option" where
  "of_local st = (if st_is_miss st then Some Miss else map_option BlockVerdict (st_final_block_id st))"

definition of_peer :: "final_slot_response \<Rightarrow> block_id option \<Rightarrow> verdict option" where
  "of_peer resp final_block_id =
     (if fr_is_miss resp then Some Miss else map_option BlockVerdict final_block_id)"

datatype arbitration = AdoptPeer | KeepLocal | Inconclusive

definition LINKAGE_LOOKAROUND :: u64 where "LINKAGE_LOOKAROUND = 512"

section \<open>Ranges of periods\<close>

text \<open>\<open>a..=b\<close> and \<open>(a..b).rev()\<close>.\<close>

definition range_incl :: "u64 \<Rightarrow> u64 \<Rightarrow> u64 list" where
  "range_incl a b = (if a \<le> b then map (\<lambda>i. a + word_of_nat i) [0..<unat (b - a) + 1] else [])"

definition range_rev :: "u64 \<Rightarrow> u64 \<Rightarrow> u64 list" where
  "range_rev a b = (if a < b then map (\<lambda>i. b - 1 - word_of_nat i) [0..<unat (b - a)] else [])"

definition periods_after :: "u64 \<Rightarrow> u64 list" where
  "periods_after p = range_incl (p + 1) (p + LINKAGE_LOOKAROUND)"

definition periods_before :: "u64 \<Rightarrow> u64 list" where
  "periods_before p =
     range_rev (if LINKAGE_LOOKAROUND \<le> p then p - LINKAGE_LOOKAROUND else 0) p"

section \<open>The rows of a thread\<close>

text \<open>The block a row names when it is FINAL and not a miss.\<close>

definition final_block_of :: "slot_state \<Rightarrow> block_id option" where
  "final_block_of st =
     (if st_status st \<noteq> SlotFinal \<or> st_is_miss st then None else st_final_block_id st)"

definition final_at :: "('s, 'v, 'x) ext_scheme \<Rightarrow> 's \<Rightarrow> u8 \<Rightarrow> u64 \<Rightarrow> error + block_id option" where
  "final_at E s thread p =
     rbind (read_slot E s p thread) (\<lambda>r. Inr (Option.bind r final_block_of))"

definition parent_at :: "stored_block \<Rightarrow> u8 \<Rightarrow> block_id option" where
  "parent_at b thread =
     (if unat thread < length (bk_parents b) then Some (bk_parents b ! unat thread) else None)"

fun next_parent_in ::
  "('s, 'v, 'x) ext_scheme \<Rightarrow> 's \<Rightarrow> u8 \<Rightarrow> u64 list \<Rightarrow> error + block_id option" where
  "next_parent_in E s thread [] = Inr None"
| "next_parent_in E s thread (p # ps) =
     rbind (final_at E s thread p) (\<lambda>f.
       case f of
         None \<Rightarrow> next_parent_in E s thread ps
       | Some bid \<Rightarrow>
           rbind (read_block E s bid) (\<lambda>r.
             case r of
               None \<Rightarrow> next_parent_in E s thread ps
             | Some b \<Rightarrow> Inr (parent_at b thread)))"

definition next_parent_link :: "('s, 'v, 'x) ext_scheme \<Rightarrow> 's \<Rightarrow> slot \<Rightarrow> error + block_id option" where
  "next_parent_link E s sl = next_parent_in E s (sl_thread sl) (periods_after (sl_period sl))"

fun first_final_in ::
  "('s, 'v, 'x) ext_scheme \<Rightarrow> 's \<Rightarrow> u8 \<Rightarrow> u64 list \<Rightarrow> error + block_id option" where
  "first_final_in E s thread [] = Inr None"
| "first_final_in E s thread (p # ps) =
     rbind (final_at E s thread p) (\<lambda>f.
       case f of None \<Rightarrow> first_final_in E s thread ps | Some bid \<Rightarrow> Inr (Some bid))"

definition prev_final_block :: "('s, 'v, 'x) ext_scheme \<Rightarrow> 's \<Rightarrow> slot \<Rightarrow> error + block_id option" where
  "prev_final_block E s sl = first_final_in E s (sl_thread sl) (periods_before (sl_period sl))"

fun broken_link_in ::
  "('s, 'v, 'x) ext_scheme \<Rightarrow> 's \<Rightarrow> u8 \<Rightarrow> block_id option \<Rightarrow> u64 list \<Rightarrow> error + block_id option" where
  "broken_link_in E s thread prev [] = Inr None"
| "broken_link_in E s thread prev (p # ps) =
     rbind (final_at E s thread p) (\<lambda>f.
       case f of
         None \<Rightarrow> broken_link_in E s thread prev ps
       | Some bid \<Rightarrow>
           rbind (read_block E s bid) (\<lambda>r.
             case Option.bind r (\<lambda>b. parent_at b thread) of
               None \<Rightarrow> broken_link_in E s thread (Some bid) ps
             | Some par \<Rightarrow>
                 if Some par \<noteq> prev then Inr (Some par)
                 else broken_link_in E s thread (Some bid) ps))"

definition dead_fork_anchor ::
  "('s, 'v, 'x) ext_scheme \<Rightarrow> 's \<Rightarrow> slot \<Rightarrow> verdict \<Rightarrow> error + block_id option" where
  "dead_fork_anchor E s sl local =
     rbind (case local of BlockVerdict b \<Rightarrow> Inr (Some b) | Miss \<Rightarrow> prev_final_block E s sl) (\<lambda>prev.
       broken_link_in E s (sl_thread sl) prev (periods_after (sl_period sl)))"

fun reach_loop ::
  "('s, 'v, 'x) ext_scheme \<Rightarrow> 's \<Rightarrow> block_id \<Rightarrow> u8 \<Rightarrow> nat \<Rightarrow> block_id \<Rightarrow> error + bool" where
  "reach_loop E s target thread 0 cur = Inr False"
| "reach_loop E s target thread (Suc n) cur =
     (if cur = target then Inr True
      else rbind (read_block E s cur) (\<lambda>r.
        case Option.bind r (\<lambda>b. parent_at b thread) of
          None \<Rightarrow> Inr False
        | Some par \<Rightarrow> reach_loop E s target thread n par))"

definition reachable_via_parents ::
  "('s, 'v, 'x) ext_scheme \<Rightarrow> 's \<Rightarrow> block_id \<Rightarrow> block_id \<Rightarrow> u8 \<Rightarrow> error + bool" where
  "reachable_via_parents E s anchor target thread = reach_loop E s target thread 64 anchor"

fun dead_parent_in :: "('s, 'v, 'x) ext_scheme \<Rightarrow> 's \<Rightarrow> block_id list \<Rightarrow> error + bool" where
  "dead_parent_in E s [] = Inr False"
| "dead_parent_in E s (parent # ps) =
     rbind (read_block E s parent) (\<lambda>r.
       case r of
         None \<Rightarrow> dead_parent_in E s ps
       | Some pb \<Rightarrow>
           rbind (read_slot E s (sl_period (bk_slot pb)) (sl_thread (bk_slot pb))) (\<lambda>q.
             case q of
               None \<Rightarrow> dead_parent_in E s ps
             | Some row \<Rightarrow>
                 if st_status row \<noteq> SlotFinal then dead_parent_in E s ps
                 else if st_is_miss row \<or> st_final_block_id row \<noteq> Some parent then Inr True
                 else dead_parent_in E s ps))"

definition block_has_dead_parent :: "('s, 'v, 'x) ext_scheme \<Rightarrow> 's \<Rightarrow> stored_block \<Rightarrow> error + bool" where
  "block_has_dead_parent E s b = dead_parent_in E s (bk_parents b)"

section \<open>Arbitration\<close>

fun arbitrate_in_dead_fork ::
  "('s, 'v, 'x) ext_scheme \<Rightarrow> 's \<Rightarrow> slot \<Rightarrow> verdict \<Rightarrow> verdict \<Rightarrow> block_id \<Rightarrow> error + arbitration" where
  "arbitrate_in_dead_fork E s sl (BlockVerdict x) Miss anchor = Inr AdoptPeer"
| "arbitrate_in_dead_fork E s sl local (BlockVerdict y) anchor =
     (if y = anchor then Inr AdoptPeer
      else rbind (reachable_via_parents E s anchor y (sl_thread sl)) (\<lambda>b.
        Inr (if b then AdoptPeer else Inconclusive)))"
| "arbitrate_in_dead_fork E s sl Miss Miss anchor = Inr KeepLocal"

text \<open>Layer 1: what the parent of the next FINAL block says at once.\<close>

fun immediate_link ::
  "('s, 'v, 'x) ext_scheme \<Rightarrow> 's \<Rightarrow> slot \<Rightarrow> verdict \<Rightarrow> verdict \<Rightarrow> block_id \<Rightarrow> error + arbitration option" where
  "immediate_link E s sl (BlockVerdict x) (BlockVerdict y) next_parent =
     Inr (if next_parent = y then Some AdoptPeer
          else if next_parent = x then Some KeepLocal else None)"
| "immediate_link E s sl Miss (BlockVerdict y) next_parent =
     Inr (if next_parent = y then Some AdoptPeer else None)"
| "immediate_link E s sl (BlockVerdict x) Miss next_parent =
     (if next_parent = x then Inr (Some KeepLocal)
      else rbind (prev_final_block E s sl) (\<lambda>q.
        Inr (if q = Some next_parent then Some AdoptPeer else None)))"
| "immediate_link E s sl Miss Miss next_parent = Inr (Some KeepLocal)"

definition in_fork ::
  "('s, 'v, 'x) ext_scheme \<Rightarrow> 's \<Rightarrow> slot \<Rightarrow> verdict \<Rightarrow> verdict \<Rightarrow> arbitration \<Rightarrow> error + arbitration" where
  "in_fork E s sl local peer otherwise =
     rbind (dead_fork_anchor E s sl local) (\<lambda>a.
       case a of
         Some anchor \<Rightarrow> arbitrate_in_dead_fork E s sl local peer anchor
       | None \<Rightarrow> Inr otherwise)"

definition peer_block_dead ::
  "('s, 'v, 'x) ext_scheme \<Rightarrow> 's \<Rightarrow> verdict \<Rightarrow> stored_block option \<Rightarrow> error + bool" where
  "peer_block_dead E s peer peer_block =
     (case (peer, peer_block) of
        (BlockVerdict y, Some pb) \<Rightarrow>
          if bk_id pb = y then block_has_dead_parent E s pb else Inr False
      | _ \<Rightarrow> Inr False)"

definition local_block_dead :: "('s, 'v, 'x) ext_scheme \<Rightarrow> 's \<Rightarrow> verdict \<Rightarrow> error + bool" where
  "local_block_dead E s local =
     (case local of
        Miss \<Rightarrow> Inr False
      | BlockVerdict x \<Rightarrow>
          rbind (read_block E s x) (\<lambda>r.
            case r of None \<Rightarrow> Inr False | Some lb \<Rightarrow> block_has_dead_parent E s lb))"

definition arbitrate_verdicts ::
  "('s, 'v, 'x) ext_scheme \<Rightarrow> 's \<Rightarrow> slot \<Rightarrow> verdict \<Rightarrow> verdict \<Rightarrow> stored_block option \<Rightarrow>
   error + arbitration" where
  "arbitrate_verdicts E s sl local peer peer_block =
     (if local = peer then Inr KeepLocal
      else rbind (peer_block_dead E s peer peer_block) (\<lambda>pd.
        if pd then Inr KeepLocal
        else rbind (local_block_dead E s local) (\<lambda>ld.
          if ld then Inr AdoptPeer
          else rbind (next_parent_link E s sl) (\<lambda>np.
            case np of
              None \<Rightarrow> Inr Inconclusive
            | Some next_parent \<Rightarrow>
                rbind (immediate_link E s sl local peer next_parent) (\<lambda>im.
                  case im of
                    Some a \<Rightarrow> if a = KeepLocal then in_fork E s sl local peer a else Inr a
                  | None \<Rightarrow> in_fork E s sl local peer Inconclusive)))))"

end
