(* ===== verification/Patch.thy ===== *)
theory Patch
  imports Arbiter
begin

text \<open>
  Applying what another indexer or the legacy archive ships for a FINAL slot
  (\<open>peer/patch.rs\<close>): \<open>apply_peer_patch\<close>, \<open>apply_legacy_patch\<close>, the operator's
  \<open>apply_forced_verdict\<close>, and the parts they apply.  A row that does not decode is logged and
  skipped.
\<close>

section \<open>Outcome\<close>

record patch_outcome =
  became_final :: bool
  block_applied :: bool
  exec_applied :: bool
  transfers_applied :: bool
  trail_mismatch :: bool
  po_empty :: bool
  divergence_repaired :: bool
  divergence_kept_local :: bool

definition outcome_default :: patch_outcome where
  "outcome_default =
     \<lparr>became_final = False, block_applied = False, exec_applied = False, transfers_applied = False,
      trail_mismatch = False, po_empty = False, divergence_repaired = False,
      divergence_kept_local = False\<rparr>"

section \<open>Parts\<close>

text \<open>\<open>decode_or_warn\<close> over a list: the rows that decode, in order.\<close>

definition decode_all :: "('m \<Rightarrow> 'e + 'a) \<Rightarrow> 'm list \<Rightarrow> 'a list" where
  "decode_all f ms = List.map_filter (\<lambda>m. res_ok (f m)) ms"

definition denunciation_entry_of ::
  "('s, 'v, 'x) node_ext_scheme \<Rightarrow> block_id \<Rightarrow> i64 \<Rightarrow> stored_denunciation \<Rightarrow> stored_denunciation_entry" where
  "denunciation_entry_of E bid now_ms d =
     \<lparr>de_hash = denunciation_hash E d,
      de_slot = denunciation_slot d,
      de_kind = denunciation_kind_label d,
      de_denounced_addr = denunciation_target_address E d,
      de_denunciation = d,
      de_included_block_id = Some bid,
      de_included_slot = Some (denunciation_slot d),
      de_first_seen_ts_ms = now_ms\<rparr>"

definition write_denunciations ::
  "('s, 'v, 'x) node_ext_scheme \<Rightarrow> block_id \<Rightarrow> i64 \<Rightarrow> stored_denunciation list \<Rightarrow> ('s, unit) dbm" where
  "write_denunciations E bid now_ms ds =
     for_each ds (\<lambda>d. warn_only (write_denunciation E (denunciation_entry_of E bid now_ms d)))"

text \<open>What a peer's row adds to a local one: a FINAL status and inclusions, when it has none.\<close>

definition merge_op :: "stored_operation \<Rightarrow> stored_operation \<Rightarrow> stored_operation option" where
  "merge_op local op =
     (let fill_status = op_final_exec_status local = None \<and> is_some (op_final_exec_status op);
          l1 = (if fill_status
                then local\<lparr>op_final_exec_status := op_final_exec_status op,
                           op_candidate_exec_status := op_final_exec_status op\<rparr>
                else local);
          fill_inclusions = op_inclusions l1 = [] \<and> op_inclusions op \<noteq> [];
          l2 = (if fill_inclusions then l1\<lparr>op_inclusions := op_inclusions op\<rparr> else l1)
      in if fill_status \<or> fill_inclusions then Some l2 else None)"

definition apply_peer_op :: "('s, 'v, 'x) ext_scheme \<Rightarrow> stored_operation \<Rightarrow> ('s, unit) dbm" where
  "apply_peer_op E op =
     bnd (readm (\<lambda>s. read_op E s (op_id op))) (\<lambda>found.
       case found of
         None \<Rightarrow> write_op E op
       | Some local \<Rightarrow>
           (case merge_op local op of None \<Rightarrow> ret () | Some merged \<Rightarrow> write_op E merged))"

definition apply_block_part ::
  "('s, 'v, 'x) node_ext_scheme \<Rightarrow> final_slot_response \<Rightarrow> i64 \<Rightarrow> ('s, stored_block option) dbm" where
  "apply_block_part E resp now_ms =
     (case Option.bind (fr_block resp) (\<lambda>m. res_ok (block_from_peer_pb E m)) of
        None \<Rightarrow> ret None
      | Some block \<Rightarrow>
          bnd (readm (\<lambda>s. read_block E s (bk_id block))) (\<lambda>found.
          bnd (if is_some found then ret () else write_block E block) (\<lambda>_.
          bnd (for_each (decode_all (operation_from_peer_pb E) (fr_operations resp)) (apply_peer_op E)) (\<lambda>_.
          bnd (for_each (decode_all (endorsement_from_peer_pb E) (fr_endorsements resp))
                 (write_endorsement E)) (\<lambda>_.
          bnd (write_denunciations E (bk_id block) now_ms (bk_denunciations block)) (\<lambda>_.
          ret (Some block)))))))"

definition resp_thread :: "final_slot_response \<Rightarrow> u8" where
  "resp_thread resp = ucast (fr_thread resp)"

definition apply_exec_part :: "('s, 'v, 'x) ext_scheme \<Rightarrow> final_slot_response \<Rightarrow> ('s, unit) dbm" where
  "apply_exec_part E resp =
     bnd (clear_sc_events_for_slot E (fr_period resp) (resp_thread resp)) (\<lambda>_.
     bnd (for_each (decode_all (sc_event_from_peer_pb E) (fr_sc_events resp)) (write_sc_event E)) (\<lambda>_.
     for_each (decode_all (async_msg_from_peer_pb E) (fr_async_msgs resp)) (write_async_msg E)))"

definition apply_transfers_part ::
  "('s, 'v, 'x) ext_scheme \<Rightarrow> final_slot_response \<Rightarrow> i64 \<Rightarrow> ('s, unit) dbm" where
  "apply_transfers_part E resp now_ms =
     (let sl = Slot (fr_period resp) (resp_thread resp);
          decoded_rows = decode_all (transfer_from_peer_pb E) (fr_transfers resp) in
      bnd (clear_transfers_for_slot E (fr_period resp) (resp_thread resp)) (\<lambda>_.
      bnd (for_each decoded_rows (write_transfer E)) (\<lambda>_.
      bnd (for_each (decode_all (deferred_call_from_peer_pb E) (fr_deferred_calls resp))
             (write_deferred_call E)) (\<lambda>_.
      bnd (reconcile_async_from_transfers E sl decoded_rows now_ms) (\<lambda>_.
      reconcile_deferred_from_transfers E sl decoded_rows now_ms)))))"

section \<open>The slot row\<close>

definition load_slot :: "('s, 'v, 'x) ext_scheme \<Rightarrow> slot \<Rightarrow> i64 \<Rightarrow> ('s, slot_state) dbm" where
  "load_slot E sl now_ms =
     bnd (readm (\<lambda>s. read_slot E s (sl_period sl) (sl_thread sl))) (\<lambda>r.
       ret (unwrap_or (fresh sl now_ms) r))"

definition add_candidate :: "block_id \<Rightarrow> slot_state \<Rightarrow> slot_state" where
  "add_candidate bid st =
     (if bid \<in> set (st_candidate_block_ids st) then st
      else st\<lparr>st_candidate_block_ids := st_candidate_block_ids st @ [bid]\<rparr>)"

definition set_body :: "slot_state \<Rightarrow> slot_state" where
  "set_body st = st\<lparr>st_completeness := (st_completeness st)\<lparr>block_body_stored := True\<rparr>\<rparr>"

definition set_exec_final :: "slot_state \<Rightarrow> slot_state" where
  "set_exec_final st = st\<lparr>st_completeness := (st_completeness st)\<lparr>exec_output_final := True\<rparr>\<rparr>"

definition set_transfers :: "slot_state \<Rightarrow> slot_state" where
  "set_transfers st = st\<lparr>st_completeness := (st_completeness st)\<lparr>transfers_stored := True\<rparr>\<rparr>"

definition peer_final_block :: "'x crates_scheme \<Rightarrow> final_slot_response \<Rightarrow> block_id option" where
  "peer_final_block C resp =
     (if fr_final_block_id resp = [] then None else res_ok (block_parse C (fr_final_block_id resp)))"

definition peer_trail :: "final_slot_response \<Rightarrow> string option" where
  "peer_trail resp = non_empty (fr_execution_trail_hash resp)"

definition op_ids_of :: "'x crates_scheme \<Rightarrow> string list \<Rightarrow> operation_id list" where
  "op_ids_of C ts = List.map_filter (\<lambda>t. res_ok (op_parse C t)) ts"

text \<open>Promotion of a slot that is not FINAL yet; legacy data carries no trail hash.\<close>

definition promote ::
  "final_slot_response \<Rightarrow> block_id option \<Rightarrow> string option \<Rightarrow> slot_state \<Rightarrow> slot_state" where
  "promote resp final_block_id trail st =
     (let st1 = st\<lparr>st_status := SlotFinal, st_is_miss := fr_is_miss resp,
                   st_execution_trail_hash := (case trail of None \<Rightarrow> st_execution_trail_hash st
                                               | Some t \<Rightarrow> Some t)\<rparr>
      in case final_block_id of
           Some bid \<Rightarrow>
             if fr_is_miss resp then st1 else add_candidate bid (st1\<lparr>st_final_block_id := Some bid\<rparr>)
         | None \<Rightarrow> st1)"

definition advance_last_final :: "('s, 'v, 'x) ext_scheme \<Rightarrow> slot \<Rightarrow> ('s, unit) dbm" where
  "advance_last_final E sl =
     bnd (readm (read_last_final_slot E)) (\<lambda>r.
       case r of
         Some prev \<Rightarrow> if slot_lt prev sl then update_last_final_slot E sl else ret ()
       | None \<Rightarrow> update_last_final_slot E sl)"

definition adopt_state ::
  "final_slot_response \<Rightarrow> block_id option \<Rightarrow> string option \<Rightarrow> slot_state \<Rightarrow> slot_state" where
  "adopt_state resp peer_block trail st =
     (let st1 = st\<lparr>st_is_miss := fr_is_miss resp,
                   st_final_block_id := (if fr_is_miss resp then None else peer_block)\<rparr>;
          st2 = (case st_final_block_id st1 of None \<Rightarrow> st1 | Some bid \<Rightarrow> add_candidate bid st1)
      in st2\<lparr>st_execution_trail_hash := trail, st_executed_op_ids := [], st_sc_event_count := 0,
             st_completeness := completeness_default\<lparr>block_body_stored := fr_is_miss resp\<rparr>\<rparr>)"

definition adopt_peer_verdict ::
  "('s, 'v, 'x) ext_scheme \<Rightarrow> slot_state \<Rightarrow> final_slot_response \<Rightarrow> block_id option \<Rightarrow> string option \<Rightarrow>
   ('s, slot_state) dbm" where
  "adopt_peer_verdict E st resp peer_block trail =
     bnd (case st_final_block_id st of
            None \<Rightarrow> ret ()
          | Some old \<Rightarrow> set_block_status E old Discarded) (\<lambda>_.
     bnd (clear_sc_events_for_slot E (sl_period (st_slot st)) (sl_thread (st_slot st))) (\<lambda>_.
     bnd (clear_transfers_for_slot E (sl_period (st_slot st)) (sl_thread (st_slot st))) (\<lambda>_.
     ret (adopt_state resp peer_block trail st))))"

section \<open>Legacy patches\<close>

definition legacy_block_step ::
  "('s, 'v, 'x) node_ext_scheme \<Rightarrow> final_slot_response \<Rightarrow> i64 \<Rightarrow> slot_state \<Rightarrow>
   ('s, slot_state \<times> bool) dbm" where
  "legacy_block_step E resp now_ms st =
     bnd (if is_some (fr_block resp) \<and> \<not> block_body_stored (st_completeness st) \<and> \<not> fr_is_miss resp
          then bnd (apply_block_part E resp now_ms) (\<lambda>r.
                 case r of
                   None \<Rightarrow> ret (st, False)
                 | Some block \<Rightarrow> ret (set_body (add_candidate (bk_id block) st), True))
          else ret (st, False)) (\<lambda>(st1, applied).
     ret (if fr_is_miss resp \<and> st_is_miss st1 then set_body st1 else st1, applied))"

definition apply_legacy_db ::
  "('s, 'v, 'x) node_ext_scheme \<Rightarrow> final_slot_response \<Rightarrow> slot \<Rightarrow> i64 \<Rightarrow>
   ('s, slot_state \<times> patch_outcome) dbm" where
  "apply_legacy_db E resp sl now_ms =
     bnd (load_slot E sl now_ms) (\<lambda>st0.
     let became = st_status st0 \<noteq> SlotFinal;
         st1 = (if became then promote resp (peer_final_block E resp) None st0 else st0) in
     bnd (if became then advance_last_final E sl else ret ()) (\<lambda>_.
     bnd (legacy_block_step E resp now_ms st1) (\<lambda>(st2, block_ok).
     let fill_ops = st_executed_op_ids st2 = [] \<and> fr_executed_op_ids resp \<noteq> [];
         st3 = (if fill_ops
                then st2\<lparr>st_executed_op_ids := op_ids_of E (fr_executed_op_ids resp)\<rparr> else st2);
         ts = decode_all (transfer_from_peer_pb E) (fr_transfers resp) in
     bnd (for_each ts (write_transfer E)) (\<lambda>_.
     bnd (if exec_output_final (st_completeness st3) \<and> block_body_stored (st_completeness st3)
          then apply_finality_to_blocks E (st_final_block_id st3) (st_candidate_block_ids st3)
          else ret ()) (\<lambda>_.
     let st4 = st3\<lparr>st_last_updated_ts_ms := now_ms\<rparr> in
     bnd (write_slot E st4) (\<lambda>_.
     bnd (ensure_parent_stub E sl now_ms) (\<lambda>_.
     ret (st4, outcome_default\<lparr>became_final := became, block_applied := block_ok,
                              exec_applied := fill_ops, transfers_applied := ts \<noteq> []\<rparr>))))))))"

definition apply_legacy_patch ::
  "('s, 'v, 'x) node_ext_scheme \<Rightarrow> final_slot_response \<Rightarrow> i64 \<Rightarrow> ('s, patch_outcome) wm" where
  "apply_legacy_patch E resp now_ms =
     (case u8_try_from (fr_thread resp) of
        None \<Rightarrow> ret outcome_default
      | Some thread \<Rightarrow>
          if \<not> fr_final_known resp then ret (outcome_default\<lparr>po_empty := True\<rparr>)
          else bnd (on_db (apply_legacy_db E resp (Slot (fr_period resp) thread) now_ms)) (\<lambda>(st, out).
               bnd (emit E (SlotUpdated st)) (\<lambda>_. ret out)))"

section \<open>Peer patches\<close>

datatype ('a, 'b) flow = Return 'a | Continue 'b

text \<open>Keep the local verdict: only the time of the last update is written.\<close>

definition keep_local ::
  "('s, 'v, 'x) ext_scheme \<Rightarrow> slot_state \<Rightarrow> i64 \<Rightarrow> patch_outcome \<Rightarrow>
   ('s, (patch_outcome, slot_state \<times> patch_outcome) flow) dbm" where
  "keep_local E st now_ms out =
     bnd (write_slot E (st\<lparr>st_last_updated_ts_ms := now_ms\<rparr>)) (\<lambda>_. ret (Return out))"

definition trails_differ :: "slot_state \<Rightarrow> string option \<Rightarrow> bool" where
  "trails_differ st trail =
     (case (st_execution_trail_hash st, trail) of
        (Some existing, Some incoming) \<Rightarrow> existing \<noteq> incoming
      | _ \<Rightarrow> False)"

text \<open>Both sides are FINAL with one verdict: first final wins on the trail hash.\<close>

definition same_verdict ::
  "('s, 'v, 'x) ext_scheme \<Rightarrow> slot_state \<Rightarrow> final_slot_response \<Rightarrow> i64 \<Rightarrow>
   ('s, (patch_outcome, slot_state \<times> patch_outcome) flow) dbm" where
  "same_verdict E st resp now_ms =
     (if trails_differ st (peer_trail resp)
      then keep_local E st now_ms (outcome_default\<lparr>trail_mismatch := True\<rparr>)
      else if st_execution_trail_hash st = None
      then ret (Continue (st\<lparr>st_execution_trail_hash := peer_trail resp\<rparr>, outcome_default))
      else ret (Continue (st, outcome_default)))"

definition reconcile_verdict ::
  "('s, 'v, 'x) ext_scheme \<Rightarrow> final_slot_response \<Rightarrow> slot \<Rightarrow> i64 \<Rightarrow> slot_state \<Rightarrow>
   ('s, (patch_outcome, slot_state \<times> patch_outcome) flow) dbm" where
  "reconcile_verdict E resp sl now_ms st =
     (if st_status st \<noteq> SlotFinal
      then ret (Continue (promote resp (peer_final_block E resp) (peer_trail resp) st,
                          outcome_default\<lparr>became_final := True\<rparr>))
      else (case (of_local st, of_peer resp (peer_final_block E resp)) of
              (Some lv, Some pv) \<Rightarrow>
                if lv = pv then same_verdict E st resp now_ms
                else bnd (readm (\<lambda>s. arbitrate_verdicts E s sl lv pv
                            (Option.bind (fr_block resp) (\<lambda>m. res_ok (block_from_peer_pb E m))))) (\<lambda>a.
                  if a = AdoptPeer
                  then bnd (adopt_peer_verdict E st resp (peer_final_block E resp) (peer_trail resp)) (\<lambda>st1.
                         ret (Continue (st1, outcome_default\<lparr>divergence_repaired := True\<rparr>)))
                  else keep_local E st now_ms
                         (outcome_default\<lparr>divergence_kept_local := True,
                                          trail_mismatch := trails_differ st (peer_trail resp)\<rparr>))
            | _ \<Rightarrow> same_verdict E st resp now_ms))"

definition peer_block_step ::
  "('s, 'v, 'x) node_ext_scheme \<Rightarrow> final_slot_response \<Rightarrow> i64 \<Rightarrow> slot_state \<times> patch_outcome \<Rightarrow>
   ('s, slot_state \<times> patch_outcome) dbm" where
  "peer_block_step E resp now_ms = (\<lambda>(st, out).
     bnd (if is_some (fr_block resp) \<and> \<not> fr_is_miss resp
          then bnd (apply_block_part E resp now_ms) (\<lambda>r.
                 case r of
                   None \<Rightarrow> ret (st, out)
                 | Some block \<Rightarrow>
                     (let st1 = add_candidate (bk_id block) st in
                      if block_body_stored (st_completeness st1) then ret (st1, out)
                      else ret (set_body st1, out\<lparr>block_applied := True\<rparr>)))
          else ret (st, out)) (\<lambda>(st2, out2).
     ret (if fr_is_miss resp then set_body st2 else st2, out2)))"

definition exec_part_present :: "final_slot_response \<Rightarrow> bool" where
  "exec_part_present resp \<longleftrightarrow>
     fr_executed_op_ids resp \<noteq> [] \<or> fr_sc_event_count resp > 0 \<or> fr_sc_events resp \<noteq> [] \<or>
     fr_async_msgs resp \<noteq> []"

definition honoured :: "final_slot_response \<Rightarrow> final_slot_parts" where
  "honoured resp = unwrap_or parts_default (fr_parts resp)"

definition exec_asserted :: "final_slot_response \<Rightarrow> bool" where
  "exec_asserted resp \<longleftrightarrow>
     fr_completeness_known resp \<and> fp_exec_output (honoured resp) \<and> fr_has_exec_output resp"

definition transfers_part_present :: "final_slot_response \<Rightarrow> bool" where
  "transfers_part_present resp \<longleftrightarrow> fr_transfers resp \<noteq> [] \<or> fr_deferred_calls resp \<noteq> []"

definition transfers_asserted :: "final_slot_response \<Rightarrow> bool" where
  "transfers_asserted resp \<longleftrightarrow>
     fr_completeness_known resp \<and> fp_transfers (honoured resp) \<and> fr_has_transfers resp"

definition exec_settled :: "'x crates_scheme \<Rightarrow> final_slot_response \<Rightarrow> slot_state \<Rightarrow> slot_state" where
  "exec_settled C resp st =
     set_exec_final
       (st\<lparr>st_executed_op_ids := (if st_executed_op_ids st = [] then op_ids_of C (fr_executed_op_ids resp)
                                  else st_executed_op_ids st),
           st_sc_event_count := fr_sc_event_count resp\<rparr>)"

definition peer_exec_step ::
  "('s, 'v, 'x) ext_scheme \<Rightarrow> final_slot_response \<Rightarrow> slot_state \<times> patch_outcome \<Rightarrow>
   ('s, slot_state \<times> patch_outcome) dbm" where
  "peer_exec_step E resp = (\<lambda>(st, out).
     if (exec_part_present resp \<or> exec_asserted resp) \<and> \<not> exec_output_final (st_completeness st)
     then bnd (apply_exec_part E resp) (\<lambda>_.
            ret (exec_settled E resp st, out\<lparr>exec_applied := True\<rparr>))
     else ret (st, out))"

definition peer_transfers_step ::
  "('s, 'v, 'x) ext_scheme \<Rightarrow> final_slot_response \<Rightarrow> i64 \<Rightarrow> slot_state \<times> patch_outcome \<Rightarrow>
   ('s, slot_state \<times> patch_outcome) dbm" where
  "peer_transfers_step E resp now_ms = (\<lambda>(st, out).
     if (transfers_part_present resp \<or> transfers_asserted resp) \<and> \<not> transfers_stored (st_completeness st)
     then bnd (apply_transfers_part E resp now_ms) (\<lambda>_.
            ret (set_transfers st, out\<lparr>transfers_applied := True\<rparr>))
     else ret (st, out))"

definition settle_parts ::
  "('s, 'v, 'x) node_ext_scheme \<Rightarrow> final_slot_response \<Rightarrow> slot \<Rightarrow> i64 \<Rightarrow> slot_state \<times> patch_outcome \<Rightarrow>
   ('s, slot_state \<times> patch_outcome) dbm" where
  "settle_parts E resp sl now_ms x0 =
     bnd (if became_final (snd x0) then advance_last_final E sl else ret ()) (\<lambda>_.
     bnd (peer_block_step E resp now_ms x0) (\<lambda>x1.
     bnd (peer_exec_step E resp x1) (\<lambda>x2.
     bnd (peer_transfers_step E resp now_ms x2) (\<lambda>(st, out).
     bnd (apply_finality_to_blocks E (st_final_block_id st) (st_candidate_block_ids st)) (\<lambda>_.
     let st1 = st\<lparr>st_last_updated_ts_ms := now_ms\<rparr> in
     bnd (write_slot E st1) (\<lambda>_.
     bnd (ensure_parent_stub E sl now_ms) (\<lambda>_.
     ret (st1, out))))))))"

definition peer_events :: "slot_state \<Rightarrow> patch_outcome \<Rightarrow> slot_sse_event list" where
  "peer_events st out =
     (if became_final out \<or> divergence_repaired out then [SlotFinalized st] else []) @ [SlotUpdated st]"

definition apply_peer_patch ::
  "('s, 'v, 'x) node_ext_scheme \<Rightarrow> final_slot_response \<Rightarrow> i64 \<Rightarrow> ('s, patch_outcome) wm" where
  "apply_peer_patch E resp now_ms =
     (case u8_try_from (fr_thread resp) of
        None \<Rightarrow> ret outcome_default
      | Some thread \<Rightarrow>
          if \<not> fr_final_known resp then ret (outcome_default\<lparr>po_empty := True\<rparr>)
          else (let sl = Slot (fr_period resp) thread in
            bnd (on_db (load_slot E sl now_ms)) (\<lambda>st0.
            bnd (on_db (reconcile_verdict E resp sl now_ms st0)) (\<lambda>f.
              case f of
                Return out \<Rightarrow> ret out
              | Continue x0 \<Rightarrow>
                  bnd (on_db (settle_parts E resp sl now_ms x0)) (\<lambda>(st, out).
                  bnd (for_each (peer_events st out) (emit E)) (\<lambda>_. ret out))))))"

section \<open>Forced verdicts\<close>

definition forced_target :: "'x crates_scheme \<Rightarrow> final_slot_response \<Rightarrow> error + verdict" where
  "forced_target C resp =
     (if fr_is_miss resp then Inr Miss
      else ok_or (Other ''forced verdict without block id'')
             (map_option BlockVerdict (peer_final_block C resp)))"

definition apply_forced_verdict ::
  "('s, 'v, 'x) node_ext_scheme \<Rightarrow> final_slot_response \<Rightarrow> i64 \<Rightarrow> ('s, bool) wm" where
  "apply_forced_verdict E resp now_ms =
     (case u8_try_from (fr_thread resp) of
        None \<Rightarrow> ret False
      | Some thread \<Rightarrow>
          bnd (on_db (load_slot E (Slot (fr_period resp) thread) now_ms)) (\<lambda>st.
          bnd (lift (forced_target E resp)) (\<lambda>target.
            if st_status st = SlotFinal \<and> of_local st = Some target then ret False
            else
              bnd (on_db (adopt_peer_verdict E st resp (peer_final_block E resp) (peer_trail resp))) (\<lambda>st1.
              let st2 = st1\<lparr>st_status := SlotFinal\<rparr> in
              bnd (on_db (apply_finality_to_blocks E (st_final_block_id st2)
                            (st_candidate_block_ids st2))) (\<lambda>_.
              let st3 = st2\<lparr>st_last_updated_ts_ms := now_ms\<rparr> in
              bnd (on_db (write_slot E st3)) (\<lambda>_.
              bnd (emit E (SlotFinalized st3)) (\<lambda>_.
              bnd (emit E (SlotUpdated st3)) (\<lambda>_.
              ret True))))))))"

end
