(* ===== verification/Ingest.thy ===== *)
theory Ingest
  imports Patch
begin

text \<open>
  The ingest worker (\<open>ingest.rs\<close>): one handler per event kind, dispatch with its counters, and the
  scheduling of the two lanes.  A handler that fails keeps what it wrote before.  The clock is an
  argument, read once per handler.
\<close>

section \<open>Blocks\<close>

definition new_operation ::
  "('s, 'v, 'x) node_ext_scheme \<Rightarrow> operation_id \<Rightarrow> signed_operation \<Rightarrow> slot \<Rightarrow> i64 \<Rightarrow>
   error + stored_operation" where
  "new_operation E ident signed_op sl now_ms =
     rbind (ok_or (Other ''op missing content'') (so_content signed_op)) (\<lambda>content.
       case classify_op E (no_op content) of (kind, target, details) \<Rightarrow>
         rbind (rmap_err Other (addr_parse E (so_content_creator_address signed_op))) (\<lambda>creator.
           Inr \<lparr>op_id = ident, op_creator = creator, op_target = target, op_kind = kind,
                op_expire_period = no_expire_period content,
                op_fee_nmas = unwrap_or 0 (map_option na_mantissa (no_fee content)),
                op_thread = sl_thread sl, op_inclusions = [],
                op_candidate_exec_status = None, op_final_exec_status = None,
                op_details = details, op_signature = so_signature signed_op,
                op_content_creator_pub_key = so_content_creator_pub_key signed_op,
                op_serialized_size = so_serialized_size signed_op,
                op_raw_signed_op_b64 = b64enc E (pb_operation E signed_op),
                op_first_seen_ts_ms = now_ms\<rparr>))"

definition include_op :: "slot \<Rightarrow> block_id \<Rightarrow> stored_operation \<Rightarrow> stored_operation" where
  "include_op sl bid op =
     (let op1 = op\<lparr>op_thread := sl_thread sl\<rparr>; inc = \<lparr>oi_slot = sl, oi_block_id = bid\<rparr> in
      if inc \<in> set (op_inclusions op1) then op1
      else op1\<lparr>op_inclusions := op_inclusions op1 @ [inc]\<rparr>)"

definition filled_op_id :: "'x crates_scheme \<Rightarrow> filled_operation \<Rightarrow> operation_id option" where
  "filled_op_id C fo =
     Option.bind (fo_operation fo) (\<lambda>signed_op.
       let t = (if fo_operation_id fo \<noteq> [] then fo_operation_id fo else so_secure_hash signed_op) in
       if t = [] then None else res_ok (op_parse C t))"

text \<open>One operation of a block: merged into its row and broadcast; the id is collected.\<close>

definition handle_block_op ::
  "('s, 'v, 'x) node_ext_scheme \<Rightarrow> slot \<Rightarrow> block_id \<Rightarrow> i64 \<Rightarrow> operation_id list \<Rightarrow> filled_operation \<Rightarrow>
   ('s, operation_id list) wm" where
  "handle_block_op E sl bid now_ms operation_ids fo =
     (case (fo_operation fo, filled_op_id E fo) of
        (Some signed_op, Some ident) \<Rightarrow>
          bnd (rd (\<lambda>s. read_op E s ident)) (\<lambda>found.
          bnd (lift (case found of Some op \<Rightarrow> Inr op
                     | None \<Rightarrow> new_operation E ident signed_op sl now_ms)) (\<lambda>op.
          let stored1 = include_op sl bid op in
          bnd (on_db (write_op E stored1)) (\<lambda>_.
          bnd (emit E (OpSeen stored1)) (\<lambda>_.
          ret (operation_ids @ [ident])))))
      | _ \<Rightarrow> ret operation_ids)"

definition initial_block_status :: "slot_state \<Rightarrow> block_id \<Rightarrow> block_status" where
  "initial_block_status st bid =
     (if st_status st = SlotFinal
      then (if st_final_block_id st = Some bid then BlockFinal else Discarded)
      else SeenCandidate)"

definition merge_block ::
  "operation_id list \<Rightarrow> stored_endorsement list \<Rightarrow> stored_denunciation list \<Rightarrow> block_status \<Rightarrow>
   stored_block \<Rightarrow> stored_block" where
  "merge_block operation_ids endorsements denunciations status b =
     b\<lparr>bk_operation_ids := (if bk_operation_ids b = [] then operation_ids else bk_operation_ids b),
       bk_endorsements := endorsements,
       bk_endorsement_ids := map en_id endorsements,
       bk_denunciations := denunciations,
       bk_status := (if bk_status b = SeenCandidate then status else bk_status b)\<rparr>"

definition new_block ::
  "('s, 'v, 'x) node_ext_scheme \<Rightarrow> block_id \<Rightarrow> slot \<Rightarrow> address \<Rightarrow> signed_block_header \<Rightarrow> block_header \<Rightarrow>
   operation_id list \<Rightarrow> stored_endorsement list \<Rightarrow> stored_denunciation list \<Rightarrow> block_status \<Rightarrow> i64 \<Rightarrow>
   stored_block" where
  "new_block E bid sl creator header hdr operation_ids endorsements denunciations status now_ms =
     \<lparr>bk_id = bid, bk_slot = sl, bk_creator = creator,
      bk_parents = List.map_filter (\<lambda>t. res_ok (block_parse E t)) (bh_parents hdr),
      bk_operation_ids = operation_ids, bk_endorsements = endorsements,
      bk_endorsement_ids = map en_id endorsements, bk_denunciations = denunciations,
      bk_current_version = bh_current_version hdr, bk_announced_version = bh_announced_version hdr,
      bk_operations_hash = bh_operations_hash hdr, bk_signature = sh_signature header,
      bk_content_creator_pub_key = sh_content_creator_pub_key header,
      bk_serialized_size = sh_serialized_size header,
      bk_raw_signed_header_b64 = b64enc E (pb_header E header),
      bk_status = status, bk_first_seen_ts_ms = now_ms\<rparr>"

record block_frame =
  bf_header :: signed_block_header
  bf_content :: block_header
  bf_id :: block_id
  bf_slot :: slot
  bf_creator :: address

text \<open>The checks on a block frame, in the order of the code.\<close>

definition parse_block_frame :: "'x crates_scheme \<Rightarrow> filled_block \<Rightarrow> error + block_frame" where
  "parse_block_frame C fb =
     rbind (ok_or (Other ''FilledBlock missing header'') (fb_header fb)) (\<lambda>header.
     rbind (ok_or (Other ''SignedBlockHeader missing content'') (sh_content header)) (\<lambda>hdr.
     rbind (if sh_secure_hash header = [] then Inl (Other ''empty block id'')
            else rmap_err Other (block_parse C (sh_secure_hash header))) (\<lambda>bid.
     rbind (ok_or (Other ''block header missing slot'') (bh_slot hdr)) (\<lambda>s.
     rbind (rmap_err Other (addr_parse C (sh_content_creator_address header))) (\<lambda>creator.
     Inr \<lparr>bf_header = header, bf_content = hdr, bf_id = bid, bf_slot = node_slot s,
          bf_creator = creator\<rparr>)))))"

definition seen_block :: "block_id \<Rightarrow> i64 \<Rightarrow> slot_state \<Rightarrow> slot_state" where
  "seen_block bid now_ms st =
     (let st1 = set_body (add_candidate bid st) in
      st1\<lparr>st_last_updated_ts_ms := now_ms,
          st_status := (if st_status st1 = SlotUnknown then SlotCandidate else st_status st1)\<rparr>)"

definition handle_block :: "('s, 'v, 'x) node_ext_scheme \<Rightarrow> filled_block \<Rightarrow> i64 \<Rightarrow> ('s, unit) wm" where
  "handle_block E fb now_ms =
     bnd (lift (parse_block_frame E fb)) (\<lambda>f.
     let hdr = bf_content f; bid = bf_id f; sl = bf_slot f;
         endorsements = List.map_filter (\<lambda>se. node_endorsement E se bid sl now_ms) (bh_endorsements hdr);
         denunciations = map node_denunciation (bh_denunciations hdr) in
     bnd (on_db (for_each endorsements (write_endorsement E))) (\<lambda>_.
     bnd (on_db (write_denunciations E bid now_ms denunciations)) (\<lambda>_.
     bnd (fold_each (handle_block_op E sl bid now_ms) [] (fb_operations fb)) (\<lambda>operation_ids.
     bnd (on_db (load_slot E sl now_ms)) (\<lambda>st.
     let status = initial_block_status st bid in
     bnd (rd (\<lambda>s. read_block E s bid)) (\<lambda>prior.
     let block_row = (case prior of
           Some b \<Rightarrow> merge_block operation_ids endorsements denunciations status b
         | None \<Rightarrow> new_block E bid sl (bf_creator f) (bf_header f) hdr operation_ids endorsements
                     denunciations status now_ms) in
     bnd (on_db (write_block E block_row)) (\<lambda>_.
     bnd (emit E (BlockSeen block_row)) (\<lambda>_.
     let st1 = seen_block bid now_ms st in
     bnd (on_db (write_slot E st1)) (\<lambda>_.
     bnd (on_db (ensure_parent_stub E sl now_ms)) (\<lambda>_.
     emit E (SlotUpdated st1)))))))))))"

section \<open>Execution outputs\<close>

definition frame_trail :: "execution_output \<Rightarrow> string option" where
  "frame_trail exec =
     Option.bind (xo_state_changes exec) (\<lambda>sc.
       case sc_execution_trail_hash_change sc of Some (Some (SetTo t)) \<Rightarrow> Some t | _ \<Rightarrow> None)"

definition store_events ::
  "('s, 'v, 'x) node_ext_scheme \<Rightarrow> stored_sc_event list \<Rightarrow> ('s, unit) wm" where
  "store_events E evs =
     for_each evs (\<lambda>e. bnd (on_db (write_sc_event E e)) (\<lambda>_. emit E (EventSeen e)))"

definition replace_events ::
  "('s, 'v, 'x) node_ext_scheme \<Rightarrow> slot \<Rightarrow> slot_status \<Rightarrow> sc_execution_event list \<Rightarrow> ('s, unit) wm" where
  "replace_events E sl status evs =
     bnd (on_db (clear_sc_events_for_slot E (sl_period sl) (sl_thread sl))) (\<lambda>_.
     store_events E (node_events E sl status evs))"

definition with_ops :: "operation_id list \<Rightarrow> slot_state \<Rightarrow> slot_state" where
  "with_ops ids st =
     (if ids \<noteq> [] \<and> st_executed_op_ids st = [] then st\<lparr>st_executed_op_ids := ids\<rparr> else st)"

text \<open>The operations a frame executed, and on a FINAL frame its async-pool changes.\<close>

definition apply_exec_ops ::
  "('s, 'v, 'x) node_ext_scheme \<Rightarrow> execution_output \<Rightarrow> bool \<Rightarrow> slot_state \<Rightarrow> ('s, slot_state) dbm" where
  "apply_exec_ops E exec is_final st =
     (case xo_state_changes exec of
        None \<Rightarrow> ret st
      | Some sc \<Rightarrow>
          bnd (apply_executed_ops_changes E (sc_executed_ops_changes sc) is_final) (\<lambda>ids.
          ret (with_ops ids st)))"

definition apply_exec_async ::
  "('s, 'v, 'x) node_ext_scheme \<Rightarrow> execution_output \<Rightarrow> slot \<Rightarrow> i64 \<Rightarrow> ('s, unit) dbm" where
  "apply_exec_async E exec sl now_ms =
     (case xo_state_changes exec of
        None \<Rightarrow> ret ()
      | Some sc \<Rightarrow> apply_async_pool_changes E sl (sc_async_pool_changes sc) now_ms)"

text \<open>\<open>existing != incoming\<close> on both hashes, and whether the node names the verdict the row has.\<close>

definition node_same_verdict :: "'x crates_scheme \<Rightarrow> slot_state \<Rightarrow> execution_output \<Rightarrow> bool" where
  "node_same_verdict C st exec \<longleftrightarrow>
     (let node_block = Option.bind (xo_block_id exec) (\<lambda>t. res_ok (block_parse C t)) in
      st_is_miss st = (xo_block_id exec = None) \<and>
      (st_is_miss st \<or> node_block = st_final_block_id st))"

definition complete_final_exec_from_node ::
  "('s, 'v, 'x) node_ext_scheme \<Rightarrow> slot_state \<Rightarrow> execution_output \<Rightarrow> i64 \<Rightarrow> ('s, unit) wm" where
  "complete_final_exec_from_node E st exec now_ms =
     (let sl = st_slot st;
          st1 = (if st_execution_trail_hash st = None
                 then st\<lparr>st_execution_trail_hash := frame_trail exec\<rparr> else st) in
      bnd (replace_events E sl SlotFinal (xo_events exec)) (\<lambda>_.
      let st2 = set_exec_final (st1\<lparr>st_sc_event_count := word_of_nat (length (xo_events exec))\<rparr>) in
      bnd (on_db (apply_exec_ops E exec True st2)) (\<lambda>st3.
      bnd (on_db (apply_exec_async E exec sl now_ms)) (\<lambda>_.
      bnd (on_db (apply_finality_to_blocks E (st_final_block_id st3) (st_candidate_block_ids st3))) (\<lambda>_.
      let st4 = st3\<lparr>st_last_updated_ts_ms := now_ms\<rparr> in
      bnd (on_db (write_slot E st4)) (\<lambda>_.
      emit E (SlotUpdated st4)))))))"

text \<open>The verdict of a FINAL frame; a block id that does not parse leaves the old one.\<close>

definition final_verdict :: "'x crates_scheme \<Rightarrow> execution_output \<Rightarrow> slot_state \<Rightarrow> slot_state" where
  "final_verdict C exec st =
     (let st1 = (set_exec_final st)\<lparr>st_is_miss := (xo_block_id exec = None)\<rparr> in
      case Option.bind (xo_block_id exec) (\<lambda>t. res_ok (block_parse C t)) of
        None \<Rightarrow> st1
      | Some bid \<Rightarrow> st1\<lparr>st_final_block_id := Some bid\<rparr>)"

definition set_exec_candidate :: "slot_state \<Rightarrow> slot_state" where
  "set_exec_candidate st = st\<lparr>st_completeness := (st_completeness st)\<lparr>exec_output_candidate := True\<rparr>\<rparr>"

definition count_finalized :: "slot_state \<Rightarrow> metrics \<Rightarrow> metrics" where
  "count_finalized st m =
     (let m1 = m\<lparr>slots_finalized_total := slots_finalized_total m + 1\<rparr> in
      if st_is_miss st then m1\<lparr>slots_missed_total := slots_missed_total m1 + 1\<rparr> else m1)"

definition apply_exec_frame ::
  "('s, 'v, 'x) node_ext_scheme \<Rightarrow> slot \<Rightarrow> bool \<Rightarrow> execution_output \<Rightarrow> i64 \<Rightarrow> slot_state \<Rightarrow> ('s, unit) wm" where
  "apply_exec_frame E sl is_final exec now_ms st =
     (let st1 = st\<lparr>st_status := (if is_final then SlotFinal else SlotCandidate),
                   st_execution_trail_hash := (case frame_trail exec of
                       None \<Rightarrow> st_execution_trail_hash st | Some h \<Rightarrow> Some h)\<rparr> in
      bnd (replace_events E sl (st_status st1) (xo_events exec)) (\<lambda>_.
      let st2 = st1\<lparr>st_sc_event_count := word_of_nat (length (xo_events exec))\<rparr>;
          st3 = (if is_final then final_verdict E exec st2 else set_exec_candidate st2) in
      bnd (on_db (if is_final
                  then bnd (update_last_final_slot E sl) (\<lambda>_.
                         apply_finality_to_blocks E (st_final_block_id st3) (st_candidate_block_ids st3))
                  else update_last_candidate_slot E sl)) (\<lambda>_.
      bnd (on_db (apply_exec_ops E exec is_final st3)) (\<lambda>st4.
      bnd (on_db (if is_final then apply_exec_async E exec sl now_ms else ret ())) (\<lambda>_.
      let st5 = st4\<lparr>st_last_updated_ts_ms := now_ms\<rparr> in
      bnd (on_db (write_slot E st5)) (\<lambda>_.
      bnd (on_db (if is_final then ensure_parent_stub E sl now_ms else ret ())) (\<lambda>_.
      bnd (if is_final
           then bnd (emit E (SlotFinalized st5)) (\<lambda>_. bump (count_finalized st5))
           else ret ()) (\<lambda>_.
      emit E (SlotUpdated st5)))))))))"

definition handle_exec ::
  "('s, 'v, 'x) node_ext_scheme \<Rightarrow> slot_execution_output \<Rightarrow> i64 \<Rightarrow> ('s, unit) wm" where
  "handle_exec E outer now_ms =
     bnd (lift (ok_or (Other ''SlotExecutionOutput missing execution_output'') (so_execution_output outer))) (\<lambda>exec.
     bnd (lift (ok_or (Other ''execution_output missing slot'') (xo_slot exec))) (\<lambda>s.
     let sl = node_slot s; is_final = (so_status outer = 2); is_candidate = (so_status outer = 1) in
     if \<not> is_final \<and> \<not> is_candidate then ret ()
     else
       bnd (on_db (load_slot E sl now_ms)) (\<lambda>st.
         if st_status st = SlotFinal then
           (if \<not> is_final then ret ()
            else if trails_differ st (frame_trail exec) then ret ()
            else if \<not> node_same_verdict E st exec then ret ()
            else if exec_output_final (st_completeness st) then ret ()
            else complete_final_exec_from_node E st exec now_ms)
         else apply_exec_frame E sl is_final exec now_ms st)))"

section \<open>Transfers\<close>

definition mark_transfers ::
  "('s, 'v, 'x) node_ext_scheme \<Rightarrow> slot \<Rightarrow> i64 \<Rightarrow> ('s, unit) wm" where
  "mark_transfers E sl now_ms =
     bnd (rd (\<lambda>s. read_slot E s (sl_period sl) (sl_thread sl))) (\<lambda>r.
       case r of
         Some st \<Rightarrow>
           if transfers_stored (st_completeness st) then ret ()
           else (let st1 = (set_transfers st)\<lparr>st_last_updated_ts_ms := now_ms\<rparr> in
                 bnd (on_db (write_slot E st1)) (\<lambda>_. emit E (SlotUpdated st1)))
       | None \<Rightarrow>
           (let st1 = set_transfers (fresh sl now_ms) in
            bnd (on_db (write_slot E st1)) (\<lambda>_. emit E (SlotUpdated st1))))"

definition slot_transfers :: "transfers_info \<Rightarrow> slot \<Rightarrow> i64 \<Rightarrow> stored_transfer list" where
  "slot_transfers resp sl now_ms =
     infer_operations None (decode_transfers resp sl now_ms 0 (ti_transfers_info resp))"

definition handle_transfers ::
  "('s, 'v, 'x) node_ext_scheme \<Rightarrow> transfers_info \<Rightarrow> i64 \<Rightarrow> ('s, unit) wm" where
  "handle_transfers E resp now_ms =
     bnd (lift (ok_or (Other ''NewTransfersInfoServerResponse missing slot'') (ti_slot resp))) (\<lambda>s.
     let sl = node_slot s; rs = slot_transfers resp sl now_ms in
     bnd (on_db (clear_transfers_for_slot E (sl_period sl) (sl_thread sl))) (\<lambda>_.
     bnd (on_db (for_each rs (write_transfer E))) (\<lambda>_.
     bnd (on_db (reconcile_async_from_transfers E sl rs now_ms)) (\<lambda>_.
     bnd (on_db (reconcile_deferred_from_transfers E sl rs now_ms)) (\<lambda>_.
     mark_transfers E sl now_ms)))))"

section \<open>Dispatch\<close>

datatype event =
    Block filled_block
  | Exec slot_execution_output
  | Transfers transfers_info
  | PeerPatch final_slot_response
  | LegacyPatch final_slot_response
  | ForcedVerdict final_slot_response
  | Tick

text \<open>An error is logged; \<open>on_err\<close> and \<open>on_ok\<close> update the counters.\<close>

definition finish :: "('s, 'a) wm \<Rightarrow> (metrics \<Rightarrow> metrics) \<Rightarrow> ('a \<Rightarrow> metrics \<Rightarrow> metrics) \<Rightarrow>
    's world \<Rightarrow> 's world" where
  "finish m on_err on_ok w =
     (case m w of
        (Inl e, w1) \<Rightarrow> w1\<lparr>w_metrics := map_option on_err (w_metrics w1)\<rparr>
      | (Inr x, w1) \<Rightarrow> w1\<lparr>w_metrics := map_option (on_ok x) (w_metrics w1)\<rparr>)"

definition count_dropped :: "metrics \<Rightarrow> metrics" where
  "count_dropped m = m\<lparr>ingest_events_dropped_total := ingest_events_dropped_total m + 1\<rparr>"

definition count_patch :: "patch_outcome \<Rightarrow> metrics \<Rightarrow> metrics" where
  "count_patch out m =
     m\<lparr>ingest_peer_patches_total := ingest_peer_patches_total m + 1,
       peer_promoted_final_total :=
         peer_promoted_final_total m + of_bool (became_final out),
       peer_divergence_repaired_total :=
         peer_divergence_repaired_total m + of_bool (divergence_repaired out),
       peer_divergence_kept_local_total :=
         peer_divergence_kept_local_total m + of_bool (divergence_kept_local out)\<rparr>"

fun handle :: "('s, 'v, 'x) node_ext_scheme \<Rightarrow> i64 \<Rightarrow> event \<Rightarrow> 's world \<Rightarrow> 's world" where
  "handle E now_ms (Block fb) =
     finish (handle_block E fb now_ms) count_dropped
       (\<lambda>_ m. m\<lparr>ingest_blocks_total := ingest_blocks_total m + 1\<rparr>)"
| "handle E now_ms (Exec out) =
     finish (handle_exec E out now_ms) count_dropped
       (\<lambda>_ m. m\<lparr>ingest_exec_outputs_total := ingest_exec_outputs_total m + 1\<rparr>)"
| "handle E now_ms (Transfers resp) =
     finish (handle_transfers E resp now_ms) count_dropped
       (\<lambda>_ m. m\<lparr>ingest_transfers_total := ingest_transfers_total m + 1\<rparr>)"
| "handle E now_ms (PeerPatch resp) =
     finish (apply_peer_patch E resp now_ms) count_dropped count_patch"
| "handle E now_ms (LegacyPatch resp) =
     finish (apply_legacy_patch E resp now_ms) count_dropped
       (\<lambda>_ m. m\<lparr>ingest_legacy_patches_total := ingest_legacy_patches_total m + 1\<rparr>)"
| "handle E now_ms (ForcedVerdict resp) =
     finish (apply_forced_verdict E resp now_ms) id
       (\<lambda>changed m. if changed
          then m\<lparr>peer_divergence_repaired_total := peer_divergence_repaired_total m + 1\<rparr> else m)"
| "handle E now_ms Tick = (\<lambda>w. snd (emit E (Heartbeat now_ms) w))"

section \<open>Lanes\<close>

text \<open>
  A lane is the queue of a channel and whether its senders are still there; \<open>None\<close> is a retired
  lane.  \<open>worker_step\<close> is one \<open>step\<close> when it does not have to wait: the biased \<open>select!\<close> takes the
  live lane whenever it is ready, and the bulk lane otherwise.  A lane that is empty and open
  is not ready; when no lane is ready the step waits, which is \<open>None\<close>.
\<close>

record lane =
  queue :: "event list"
  closed :: bool

record 's worker =
  live_rx :: "lane option"
  bulk_rx :: "lane option"
  wk_world :: "'s world"

text \<open>\<open>recv\<close>: \<open>None\<close> waits, \<open>Some None\<close> says the channel is closed and drained.\<close>

definition recv :: "lane \<Rightarrow> (event \<times> lane) option option" where
  "recv l =
     (case queue l of
        ev # rest \<Rightarrow> Some (Some (ev, l\<lparr>queue := rest\<rparr>))
      | [] \<Rightarrow> if closed l then Some None else None)"

definition recv_lane :: "lane option \<Rightarrow> (event \<times> lane) option option" where
  "recv_lane l = (case l of Some l \<Rightarrow> recv l | None \<Rightarrow> None)"

datatype 's step_result = Waits | Stopped | Stepped "'s worker" "event option"

definition worker_step ::
  "('s, 'v, 'x) node_ext_scheme \<Rightarrow> i64 \<Rightarrow> 's worker \<Rightarrow> 's step_result" where
  "worker_step E now_ms k =
     (case recv_lane (live_rx k) of
        Some (Some (ev, l)) \<Rightarrow>
          Stepped (k\<lparr>live_rx := Some l, wk_world := handle E now_ms ev (wk_world k)\<rparr>) (Some ev)
      | Some None \<Rightarrow> Stepped (k\<lparr>live_rx := None\<rparr>) None
      | None \<Rightarrow>
          (case recv_lane (bulk_rx k) of
             Some (Some (ev, l)) \<Rightarrow>
               Stepped (k\<lparr>bulk_rx := Some l, wk_world := handle E now_ms ev (wk_world k)\<rparr>) (Some ev)
           | Some None \<Rightarrow> Stepped (k\<lparr>bulk_rx := None\<rparr>) None
           | None \<Rightarrow> if live_rx k = None \<and> bulk_rx k = None then Stopped else Waits))"

end
