(* ===== verification/Slot_Sets.thy ===== *)
theory Slot_Sets
  imports Ingest
begin

text \<open>
  Events and transfers are replaced slot by slot: the rows of the slot are cleared and the new ones
  written, each under the slot and its index.  \<open>slot_set\<close> is that contract; from it, the slot holds
  exactly the new rows afterwards, every other slot its old ones, and the indexes stay exact.
\<close>

section \<open>The contract\<close>

text \<open>The row under a key, and the rows a list puts under its keys.\<close>

definition row_at :: "('v \<Rightarrow> codec_error + 'r) \<Rightarrow> (bytes \<Rightarrow> 'v option) \<Rightarrow> bytes \<Rightarrow> 'r option" where
  "row_at dec F k = Option.bind (F k) (\<lambda>w. res_ok (dec w))"

definition keyed :: "('r \<Rightarrow> bytes) \<Rightarrow> 'r list \<Rightarrow> bytes \<Rightarrow> 'r option" where
  "keyed key_of rs = map_of (map (\<lambda>r. (key_of r, r)) rs)"

locale slot_set =
  fixes ok :: bool
    and tab :: "'s \<Rightarrow> 'v tables"
    and prim :: cf
    and dec :: "'v \<Rightarrow> codec_error + 'r"
    and good :: "'s \<Rightarrow> bool"
    and wf :: "'r \<Rightarrow> bool"
    and key_of :: "'r \<Rightarrow> bytes"
    and slot_of :: "'r \<Rightarrow> slot"
    and clear :: "u64 \<Rightarrow> u8 \<Rightarrow> ('s, unit) dbm"
    and put_row :: "'r \<Rightarrow> ('s, unit) dbm"
  assumes key_slot: "starts_with (key_of r) (slot_key p t) \<longleftrightarrow> slot_of r = Slot p t"
    and clears: "ok \<Longrightarrow> good s \<Longrightarrow> \<exists>t. clear p th s = (Inr (), t) \<and> good t \<and>
      (\<forall>k. tab t prim k = (if starts_with k (slot_key p th) then None else tab s prim k))"
    and puts: "ok \<Longrightarrow> wf r \<Longrightarrow> good s \<Longrightarrow> tab s prim (key_of r) = None \<Longrightarrow>
      \<exists>t v. put_row r s = (Inr (), t) \<and> dec v = Inr r \<and> good t \<and>
        tab t prim = (tab s prim)(key_of r \<mapsto> v)"
begin

lemma puts_all:
  assumes ok
  shows "(\<And>r. r \<in> set rs \<Longrightarrow> wf r \<and> tab s prim (key_of r) = None) \<Longrightarrow> distinct (map key_of rs) \<Longrightarrow>
    good s \<Longrightarrow> \<exists>t. for_each rs put_row s = (Inr (), t) \<and> good t \<and>
      (\<forall>k. row_at dec (tab t prim) k = (case keyed key_of rs k of Some r \<Rightarrow> Some r | None \<Rightarrow> row_at dec (tab s prim) k))"
proof (induction rs arbitrary: s)
  case Nil
  then show ?case by (simp add: ret_def keyed_def)
next
  case (Cons r rs)
  obtain t v where t: "put_row r s = (Inr (), t)" "dec v = Inr r" "good t"
      "tab t prim = (tab s prim)(key_of r \<mapsto> v)"
    using puts [OF assms, of r s] Cons.prems by auto
  have "wf q \<and> tab t prim (key_of q) = None" if "q \<in> set rs" for q
    using Cons.prems(1) [of q] Cons.prems(2) that t(4) by (metis (no_types, lifting) distinct.simps(2)
        fun_upd_other image_eqI list.set_intros(2) list.set_map list.simps(9))
  from Cons.IH [OF this _ t(3)] Cons.prems(2) obtain u where
    u: "for_each rs put_row t = (Inr (), u)" "good u"
      "\<And>k. row_at dec (tab u prim) k = (case keyed key_of rs k of Some r \<Rightarrow> Some r | None \<Rightarrow> row_at dec (tab t prim) k)"
    by auto
  have "keyed key_of rs (key_of r) = None"
    using Cons.prems(2) by (auto simp: keyed_def map_of_eq_None_iff comp_def)
  moreover have "row_at dec (tab t prim) k = (if k = key_of r then Some r else row_at dec (tab s prim) k)" for k
    using t(2,4) by (simp add: row_at_def)
  ultimately have "row_at dec (tab u prim) k = (case keyed key_of (r # rs) k of Some r \<Rightarrow> Some r | None \<Rightarrow> row_at dec (tab s prim) k)" for k
    using u(3) [of k] by (simp add: keyed_def split: option.splits)
  with t(1) u(1,2) show ?case
    by (auto simp: bnd_def)
qed

lemma replace_slot:
  assumes ok "good s" "distinct (map key_of rs)" "\<And>r. r \<in> set rs \<Longrightarrow> wf r \<and> slot_of r = Slot p th"
  obtains t where "bnd (clear p th) (\<lambda>_. for_each rs put_row) s = (Inr (), t)" "good t"
    "\<And>k. row_at dec (tab t prim) k = (if starts_with k (slot_key p th) then keyed key_of rs k else row_at dec (tab s prim) k)"
proof -
  obtain t where t: "clear p th s = (Inr (), t)" "good t"
      "\<And>k. tab t prim k = (if starts_with k (slot_key p th) then None else tab s prim k)"
    using clears [OF assms(1,2)] by blast
  have "wf r \<and> tab t prim (key_of r) = None" if "r \<in> set rs" for r
    using assms(4) [OF that] key_slot [of r p th] t(3) by simp
  from puts_all [OF assms(1) this assms(3) t(2)] obtain u where
    u: "for_each rs put_row t = (Inr (), u)" "good u"
      "\<And>k. row_at dec (tab u prim) k = (case keyed key_of rs k of Some r \<Rightarrow> Some r | None \<Rightarrow> row_at dec (tab t prim) k)"
    by blast
  have "keyed key_of rs k = None" if "\<not> starts_with k (slot_key p th)" for k
    using assms(4) key_slot [of _ p th] that by (auto simp: keyed_def map_of_eq_None_iff)
  then have "row_at dec (tab u prim) k = (if starts_with k (slot_key p th) then keyed key_of rs k else row_at dec (tab s prim) k)" for k
    using u(3) [of k] t(3) by (auto simp: row_at_def split: option.splits)
  with t u show ?thesis
    by (intro that [of u]) (simp_all add: bnd_def)
qed

end

interpretation transfer_set: slot_set "db_ok E R" "table R" CF_TRANSFER "decode_transfer E"
    "transfer_index_exact E R" wf_transfer transfer_key_of tr_slot "clear_transfers_for_slot E"
    "write_transfer E"
  for E :: "('s, 'v, 'x) ext_scheme" and R
proof
  show "starts_with (transfer_key_of r) (slot_key p t) \<longleftrightarrow> tr_slot r = Slot p t" for r p t
    by (cases "tr_slot r") (simp add: transfer_key_of_def transfer_key_def Slot_def)
  show "\<exists>t. clear_transfers_for_slot E p th s = (Inr (), t) \<and> transfer_index_exact E R t \<and>
      (\<forall>k. table R t CF_TRANSFER k =
        (if starts_with k (slot_key p th) then None else table R s CF_TRANSFER k))"
    if "db_ok E R" "transfer_index_exact E R s" for s p th
    by (rule clear_transfers [OF that(1), of p th s]) (use that(2) in blast)
  show "\<exists>t v. write_transfer E r s = (Inr (), t) \<and> decode_transfer E v = Inr r \<and>
      transfer_index_exact E R t \<and> table R t CF_TRANSFER = (table R s CF_TRANSFER)(transfer_key_of r \<mapsto> v)"
    if "db_ok E R" "wf_transfer r" "transfer_index_exact E R s"
      "table R s CF_TRANSFER (transfer_key_of r) = None" for r s
    using write_transfer_exact [OF that] by fast
qed

interpretation event_set: slot_set "db_ok E R" "table R" CF_SC_EVENT "decode_sc_event E"
    "event_index_exact E R" "wf_sc_event E" event_key_of ev_slot "clear_sc_events_for_slot E"
    "write_sc_event E"
  for E :: "('s, 'v, 'x) ext_scheme" and R
proof
  show "starts_with (event_key_of r) (slot_key p t) \<longleftrightarrow> ev_slot r = Slot p t" for r p t
    by (cases "ev_slot r") (simp add: event_key_of_def Slot_def)
  show "\<exists>t. clear_sc_events_for_slot E p th s = (Inr (), t) \<and> event_index_exact E R t \<and>
      (\<forall>k. table R t CF_SC_EVENT k =
        (if starts_with k (slot_key p th) then None else table R s CF_SC_EVENT k))"
    if "db_ok E R" "event_index_exact E R s" for s p th
    by (rule clear_sc_events [OF that(1), of p th s]) (use that(2) in blast)
  show "\<exists>t v. write_sc_event E r s = (Inr (), t) \<and> decode_sc_event E v = Inr r \<and>
      event_index_exact E R t \<and> table R t CF_SC_EVENT = (table R s CF_SC_EVENT)(event_key_of r \<mapsto> v)"
    if "db_ok E R" "wf_sc_event E r" "event_index_exact E R s"
      "table R s CF_SC_EVENT (event_key_of r) = None" for r s
    using write_sc_event_exact [OF that] by fast
qed

section \<open>Listing a slot's transfers\<close>

lemma prefix_rows_decoded:
  "(\<And>k v. (k, v) \<in> set rows \<Longrightarrow> starts_with k p \<Longrightarrow> f k v = Inr (g k v)) \<Longrightarrow>
   prefix_rows p f (map Inr rows) =
     Inr (map (\<lambda>(k, v). g k v) (takeWhile (\<lambda>(k, v). starts_with k p) rows))"
  by (induction rows) fastforce+

text \<open>With the rows of a slot known by key, the listing returns them in key order.\<close>

lemma list_transfers:
  assumes "db_ok E R"
    and at: "\<And>k. starts_with k (slot_key p th) \<Longrightarrow> table R s CF_TRANSFER k = None \<or>
      row_at (decode_transfer E) (table R s CF_TRANSFER) k \<noteq> None"
    and rows: "\<And>k. starts_with k (slot_key p th) \<Longrightarrow> row_at (decode_transfer E) (table R s CF_TRANSFER) k = keyed transfer_key_of rs k"
    and sorted: "sorted_wrt (<) (map transfer_key_of rs)"
    and slots: "\<And>r. r \<in> set rs \<Longrightarrow> tr_slot r = Slot p th"
  shows "iter_transfers_for_slot E s p th = Inr rs"
proof -
  let ?p = "slot_key p th"
  let ?xs = "filter (\<lambda>(k, v). starts_with k ?p) (R s CF_TRANSFER)"
  let ?g = "\<lambda>k v. projr (decode_transfer E v)"
  note ok = db_okD [OF assms(1)]
  have mem: "table R s CF_TRANSFER k = Some v" if "(k, v) \<in> set (R s CF_TRANSFER)" for k v
    using that in_rows_iff [OF ok(2)] by blast
  have dec: "decode_transfer E v = Inr (the (keyed transfer_key_of rs k))"
    if "(k, v) \<in> set (R s CF_TRANSFER)" "starts_with k ?p" for k v
    using at [OF that(2)] rows [OF that(2)] mem [OF that(1)]
    by (auto simp: row_at_def bind_eq_Some_conv res_ok_def split: sum.splits)
  have "iter_transfers_for_slot E s p th = Inr (map (\<lambda>(k, v). ?g k v) ?xs)"
    unfolding iter_transfers_for_slot_def Let_def db_iter_ok [OF assms(1)]
    by (subst prefix_rows_decoded [where g = ?g])
      (use dec store_sorted [OF ok(2), of s CF_TRANSFER] in \<open>auto simp: takeWhile_prefix\<close>)
  also have "map (\<lambda>(k, v). ?g k v) ?xs = map (\<lambda>k. the (keyed transfer_key_of rs k)) (map fst ?xs)"
    using dec by auto
  also have "map fst ?xs = map transfer_key_of rs"
  proof (rule sorted_distinct_set_unique)
    have "sorted_wrt (<) (map fst ?xs)"
      using store_sorted [OF ok(2), of s CF_TRANSFER] by (simp add: sorted_wrt_map sorted_wrt_filter)
    then show "sorted (map fst ?xs)" "distinct (map fst ?xs)"
      by (simp_all add: strict_sorted_iff)
    show "sorted (map transfer_key_of rs)" "distinct (map transfer_key_of rs)"
      using sorted by (simp_all add: strict_sorted_iff)
    have "k \<in> set (map fst ?xs) \<longleftrightarrow> starts_with k ?p \<and> table R s CF_TRANSFER k \<noteq> None" for k
      by (force simp: table_None_iff)
    moreover have "table R s CF_TRANSFER k \<noteq> None \<longleftrightarrow> keyed transfer_key_of rs k \<noteq> None"
      if "starts_with k ?p" for k
      unfolding rows [OF that, symmetric] using at [OF that] by (auto simp: row_at_def bind_eq_Some_conv)
    moreover have "keyed transfer_key_of rs k \<noteq> None \<longleftrightarrow> k \<in> set (map transfer_key_of rs)" for k
      by (simp add: keyed_def map_of_eq_None_iff image_image)
    moreover have "starts_with (transfer_key_of r) ?p" if "r \<in> set rs" for r
      using slots [OF that] by (simp add: transfer_set.key_slot)
    ultimately show "set (map fst ?xs) = set (map transfer_key_of rs)"
      by fastforce
  qed
  also have "map (\<lambda>k. the (keyed transfer_key_of rs k)) (map transfer_key_of rs) = rs"
  proof -
    have "keyed transfer_key_of rs (transfer_key_of r) = Some r" if "r \<in> set rs" for r
      using that sorted by (auto simp: keyed_def strict_sorted_iff comp_def intro!: map_of_is_SomeI)
    then show ?thesis
      by (simp add: map_idI)
  qed
  finally show ?thesis .
qed

end
