(* ===== verification/Props_Storage.thy ===== *)
theory Props_Storage
  imports Listings Reference Db_Admin Slot_Sets Sse
begin

text \<open>
  The properties of the storage layer: identifiers, key layouts and stored values, then reads after writes,
  listings, indexes and administration, each stated over the model's operations and proved from the component
  laws, with a witness on the concrete store of \<open>Reference\<close>.
\<close>

section \<open>Identifiers\<close>

text \<open>
  C13.  For block, operation and endorsement ids and for addresses, a text is accepted with
  a result exactly when the result is a well-formed id whose display is that text: nothing is normalised,
  and every well-formed id can be read back.
\<close>

theorem ids_parse_iff_display:
  assumes "crates_ok C"
  shows "(block_parse C t = Inr b \<longleftrightarrow> wf_block_id C b \<and> id_text b = t) \<and>
    (op_parse C t = Inr i \<longleftrightarrow> wf_op_id C i \<and> id_text i = t) \<and>
    (endo_parse C t = Inr e \<longleftrightarrow> wf_endo_id C e \<and> id_text e = t) \<and>
    (addr_parse C t = Inr a \<longleftrightarrow> wf_addr C a \<and> known_category a \<and> addr_text a = t)"
  using block_display.parse_iff [OF assms] op_display.parse_iff [OF assms]
    endo_display.parse_iff [OF assms] addr_display.parse_iff [OF assms]
  by simp

theorem ids_parse_iff_display_witness:
  "block_parse ref_ext (id_text (ref_block 7)) = Inr (ref_block 7)"
  using ids_parse_iff_display [OF ref_crates_ok, of "id_text (ref_block 7)" "ref_block 7"] by simp

section \<open>Keys\<close>

text \<open>
  Slot keys and event keys are read back from their bytes, and the byte order of the
  store is the chronological order of slots (and of events within a slot); reversed keys have the
  opposite order.
\<close>

theorem keys_order_chronologically:
  "decode_slot_key (slot_key p t) = Some (p, t) \<and>
   decode_rslot_key (rslot_key p t) = Some (p, t) \<and>
   decode_slot_indexed_key (sc_event_key p t i) = Some (p, t, i) \<and>
   (slot_key p t < slot_key q u) = slot_lt (Slot p t) (Slot q u) \<and>
   (rslot_key p t < rslot_key q u) = slot_lt (Slot q u) (Slot p t) \<and>
   (sc_event_key p t i < sc_event_key q u j) =
     (slot_lt (Slot p t) (Slot q u) \<or> Slot p t = Slot q u \<and> i < j)"
proof -
  have lt: "slot_lt (Slot a b) (Slot c d) \<longleftrightarrow> older (a, b) (c, d)" for a b c d
    by (simp add: slot_lt_def older_def)
  show ?thesis
    using slot_layout.parse_build [of "(p, t)"] rslot_layout.parse_build [of "(p, t)"]
      event_layout.parse_build [of "(p, t, i)"] slot_layout.build_less [of "(p, t)" "(q, u)"]
      rslot_layout.build_less [of "(p, t)" "(q, u)"] event_layout.build_less [of "(p, t, i)" "(q, u, j)"]
    by (simp add: lt)
qed

section \<open>Rows\<close>



text \<open>
  Conversely, whatever bytes are stored, a row that decodes is well formed, so it can be
  written again and is read back unchanged: no read can produce a row the codec would lose.
\<close>

theorem decoded_rows_storable:
  assumes "wires_ok W"
  shows "(decode_slot_state W v = Inr st \<longrightarrow> decode_slot_state W (encode_slot_state W st) = Inr st) \<and>
    (decode_endorsement W v = Inr en \<longrightarrow> rbind (encode_endorsement W en) (decode_endorsement W) = Inr en) \<and>
    (decode_block W v = Inr b \<longrightarrow> rbind (encode_block W b) (decode_block W) = Inr b) \<and>
    (decode_operation W v = Inr p \<longrightarrow> rbind (encode_operation W p) (decode_operation W) = Inr p) \<and>
    (decode_sc_event W v = Inr ev \<longrightarrow> rbind (encode_sc_event W ev) (decode_sc_event W) = Inr ev) \<and>
    (decode_transfer W v = Inr tr \<longrightarrow> decode_transfer W (encode_transfer W tr) = Inr tr) \<and>
    (decode_async_msg W v = Inr am \<longrightarrow> decode_async_msg W (encode_async_msg W am) = Inr am) \<and>
    (decode_deferred_call W v = Inr dc \<longrightarrow> decode_deferred_call W (encode_deferred_call W dc) = Inr dc)"
proof (intro conjI impI)
  show "decode_slot_state W v = Inr st \<Longrightarrow> decode_slot_state W (encode_slot_state W st) = Inr st"
    using slot_state_codec.dec_enc [OF assms] slot_state_codec.dec_wf [OF assms] by blast
  show "decode_transfer W v = Inr tr \<Longrightarrow> decode_transfer W (encode_transfer W tr) = Inr tr"
    using transfer_codec.dec_enc [OF assms] transfer_codec.dec_wf [OF assms] by blast
  show "decode_async_msg W v = Inr am \<Longrightarrow> decode_async_msg W (encode_async_msg W am) = Inr am"
    using async_msg_codec.dec_enc [OF assms] async_msg_codec.dec_wf [OF assms] by blast
  show "decode_deferred_call W v = Inr dc \<Longrightarrow> decode_deferred_call W (encode_deferred_call W dc) = Inr dc"
    using deferred_call_codec.dec_enc [OF assms] deferred_call_codec.dec_wf [OF assms] by blast
qed (rule endorsement_codec.dec_roundtrip [OF assms endorsement_codec.dec_wf [OF assms]]
    block_codec.dec_roundtrip [OF assms block_codec.dec_wf [OF assms]]
    operation_codec.dec_roundtrip [OF assms operation_codec.dec_wf [OF assms]]
    sc_event_codec.dec_roundtrip [OF assms sc_event_codec.dec_wf [OF assms]]; assumption)+

theorem decoded_rows_storable_witness:
  "\<exists>st. decode_slot_state ref_ext (encode_slot_state ref_ext (fresh (Slot 5 3) 7)) = Inr st \<and>
    decode_slot_state ref_ext (encode_slot_state ref_ext st) = Inr st"
proof -
  have "wf_slot_state ref_ext (fresh (Slot 5 3) 7)"
    by (simp add: fresh_def wf_slot_state_def)
  then have "decode_slot_state ref_ext (encode_slot_state ref_ext (fresh (Slot 5 3) 7)) = Inr (fresh (Slot 5 3) 7)"
    using slot_state_codec.dec_enc [OF ref_wires_ok] by simp
  with decoded_rows_storable [OF ref_wires_ok] show ?thesis
    by blast
qed

section \<open>Slots\<close>

definition ref_slot :: "u64 \<Rightarrow> u8 \<Rightarrow> slot_state" where
  "ref_slot p t = fresh (Slot p t) 7"

lemma ref_slot_wf [simp]: "wf_slot_state ref_ext (ref_slot p t)"
  by (simp add: ref_slot_def fresh_def wf_slot_state_def)

text \<open>
  Writing a slot row succeeds, the row is what the database reads back for that slot from then
  on, and no other slot and no other column family changes.
\<close>

theorem slot_read_after_write:
  assumes "db_ok E R" "wf_slot_state E st"
  shows "\<exists>t. write_slot E st s = (Inr (), t) \<and>
    read_slot E t (sl_period (st_slot st)) (sl_thread (st_slot st)) = Inr (Some st) \<and>
    (\<forall>sl. sl \<noteq> st_slot st \<longrightarrow>
      read_slot E t (sl_period sl) (sl_thread sl) = read_slot E s (sl_period sl) (sl_thread sl)) \<and>
    (\<forall>c. c \<noteq> CF_SLOT \<longrightarrow> table R t c = table R s c)"
proof -
  obtain t where t: "write_slot E st s = (Inr (), t)"
      "\<And>sl. read_slot E t (sl_period sl) (sl_thread sl) =
        (if sl = st_slot st then Inr (Some st) else read_slot E s (sl_period sl) (sl_thread sl))"
    using slot_rows.put_get [OF assms] by blast
  moreover have "touches R {CF_SLOT} (write_slot E st)"
    using db_okD(2) [OF assms(1)] by (intro frame_intros) simp_all
  ultimately show ?thesis
    using touchesD [of R "{CF_SLOT}"] by fastforce
qed

theorem slot_read_after_write_witness:
  "\<exists>t. write_slot ref_ext (ref_slot 5 3) [] = (Inr (), t) \<and>
    read_slot ref_ext t 5 3 = Inr (Some (ref_slot 5 3)) \<and>
    read_slot ref_ext t 5 4 = Inr None"
proof -
  have "read_slot ref_ext [] 5 4 = Inr None"
    by (simp add: read_slot_def get_decoded_ok [OF ref_db_ok] table_def ref_rows_def)
  then show ?thesis
    using slot_read_after_write [OF ref_db_ok ref_slot_wf, of 5 3 "[]"]
    by (auto simp: ref_slot_def fresh_def dest!: spec [of _ "Slot 5 4"])
qed

text \<open>
  A client that walks the pages of the slot listing, whatever the page size, gets every stored
  slot row exactly once, the newest slot first, after at most one page more than there are rows.
\<close>

theorem slots_walk_newest_first:
  assumes "db_ok E R" "slot_table_ok E (table R s)" "0 < limit" "length (R s CF_SLOT) < fuel"
  shows "\<exists>sts. walk (\<lambda>after. iter_slots_desc E s after limit) fuel None = Inr sts \<and>
    sorted_wrt (\<lambda>a b. slot_lt (st_slot b) (st_slot a)) sts \<and>
    (\<forall>st. st \<in> set sts \<longleftrightarrow> slot_stored E R s st)"
proof -
  have "length (slot_listing E (R s CF_SLOT)) < fuel"
    by (rule le_less_trans [OF length_slot_listing assms(4)])
  then show ?thesis
    using slot_pages.walk_all [of E R s limit fuel] slot_listing_spec [OF assms(1,2)] assms(1-3) by blast
qed

definition ref_slots :: "ref_value batch" where
  "ref_slots = map (\<lambda>p. Put CF_SLOT (slot_row_key (Slot p 3)) (encode_slot_state ref_ext (ref_slot p 3))) [5, 9, 7]"

lemma ref_slot_slot [simp]: "st_slot (ref_slot p t) = Slot p t"
  by (simp add: ref_slot_def fresh_def)

lemma ref_slot_decode: "decode_slot_state ref_ext (encode_slot_state ref_ext (ref_slot p t)) = Inr (ref_slot p t)"
  using slot_state_codec.dec_enc [OF ref_wires_ok ref_slot_wf] by simp

lemma ref_slots_rows: "ref_rows ref_slots CF_SLOT =
    map (\<lambda>p. (slot_row_key (Slot p 3), encode_slot_state ref_ext (ref_slot p 3))) [5, 7, 9]"
  by (simp add: ref_rows_def ref_slots_def slot_row_key_less slot_lt_def)

lemma ref_slots_ok: "slot_table_ok ref_ext (table ref_rows ref_slots)"
proof -
  have "slot_row_key (Slot p 3) \<le> max_slot_key" if "p \<in> {5, 7, 9}" for p
    using that by (auto simp: slot_row_key_def max_slot_key_def less_imp_le slot_key_less)
  then show ?thesis
    unfolding slot_table_ok_def by (auto simp: table_def ref_slots_rows ref_slot_decode split: if_splits)
qed

lemma ref_slots_stored: "p \<in> {5, 7, 9} \<Longrightarrow> slot_stored ref_ext ref_rows ref_slots (ref_slot p 3)"
  using slot_row_key_less [of "Slot 5 3" "Slot 7 3"] slot_row_key_less [of "Slot 7 3" "Slot 9 3"]
    slot_row_key_less [of "Slot 5 3" "Slot 9 3"]
  by (auto simp: slot_stored_def table_def ref_slots_rows ref_slot_decode slot_lt_def)

theorem slots_walk_newest_first_witness:
  "\<exists>sts. walk (\<lambda>after. iter_slots_desc ref_ext ref_slots after 1) 4 None = Inr sts \<and>
    sorted_wrt (\<lambda>a b. slot_lt (st_slot b) (st_slot a)) sts \<and> ref_slot 7 3 \<in> set sts"
  using slots_walk_newest_first [OF ref_db_ok ref_slots_ok, of 1 4] ref_slots_stored [of 7]
  by (auto simp: ref_slots_rows)

section \<open>Administration\<close>

text \<open>
  Clearing a column family by its name ends, removes every row of that family whatever their
  number, reports how many there were, and touches nothing else.
\<close>

theorem raw_clear_total:
  assumes "db_ok E R"
  shows "\<exists>t. raw_clear E (cf_name c) s = Some (Inr (card (dom (table R s c))), t) \<and>
    table R t = (table R s)(c := Map.empty)"
  using raw_clear_ok [OF assms, of c s] rows_card [OF db_okD(2) [OF assms], of s c] by simp

theorem raw_clear_total_witness:
  "\<exists>t. raw_clear ref_ext ''cf_slot'' ref_slots = Some (Inr 3, t) \<and> table ref_rows t CF_SLOT = Map.empty"
proof -
  have "length (ref_rows ref_slots CF_SLOT) = 3" if "\<And>a b. slot_row_key a < slot_row_key b \<longleftrightarrow> slot_lt a b"
    by (simp add: ref_rows_def ref_slots_def that slot_lt_def)
  then show ?thesis
    using raw_clear_total [OF ref_db_ok, of CF_SLOT ref_slots] rows_card [OF ref_store_ok, of ref_slots CF_SLOT]
    by (auto simp: slot_row_key_less)
qed

text \<open>
  The schema check stamps a new database and accepts it from then on; a database stamped
  with another version, or with something that is not a number, is refused and left as it is.
\<close>

theorem schema_version_gate:
  assumes "db_ok E R"
  shows "case table R s CF_META meta_SCHEMA_VERSION of
      None \<Rightarrow> \<exists>t. ensure_schema_version E s = (Inr (), t) \<and> ensure_schema_version E t = (Inr (), t)
    | Some v \<Rightarrow> ensure_schema_version E s =
        ((case parse_u32 (bytes_str (unraw E v)) of
            None \<Rightarrow> Inl bad_schema_error
          | Some n \<Rightarrow> if n = SCHEMA_VERSION then Inr () else Inl (schema_mismatch_error n)), s)"
proof -
  have check: "ensure_schema_version E s =
      ((case parse_u32 (bytes_str (unraw E v)) of
          None \<Rightarrow> Inl bad_schema_error
        | Some n \<Rightarrow> if n = SCHEMA_VERSION then Inr () else Inl (schema_mismatch_error n)), s)"
    if "table R s CF_META meta_SCHEMA_VERSION = Some v" for s v
    using that by (simp add: ensure_schema_version_def bnd_def readm_def lift_def db_get_ok [OF assms]
        ret_def fail_def split: option.split)
  show ?thesis
  proof (cases "table R s CF_META meta_SCHEMA_VERSION")
    case None
    obtain t where t: "ensure_schema_version E s = (Inr (), t)"
        "table R t CF_META meta_SCHEMA_VERSION = Some (raw E (str_bytes (show_nat (unat SCHEMA_VERSION))))"
    proof -
      let ?v = "raw E (str_bytes (show_nat (unat SCHEMA_VERSION)))"
      obtain t where "db_write E [Put CF_META meta_SCHEMA_VERSION ?v] s = (Inr (), t)"
          "table R t = apply_batch [Put CF_META meta_SCHEMA_VERSION ?v] (table R s)"
        by (rule db_write_ok [OF assms])
      with None that [of t] show ?thesis
        by (simp add: ensure_schema_version_def bnd_def readm_def db_get_ok [OF assms] db_put_def)
    qed
    have "show_nat (unat SCHEMA_VERSION) = ''2''"
      by (simp add: SCHEMA_VERSION_def show_nat.simps char_of_def bit_0)
    moreover have "parse_u32 ''2'' = Some SCHEMA_VERSION"
      by (simp add: parse_u32_def digit_value_def SCHEMA_VERSION_def)
    ultimately have "parse_u32 (show_nat (unat SCHEMA_VERSION)) = Some SCHEMA_VERSION"
      by simp
    then have "ensure_schema_version E t = (Inr (), t)"
      using check [OF t(2)] wires_okD(13) [OF db_okD(1) [OF assms]] by simp
    with t(1) None show ?thesis
      by simp
  next
    case (Some v)
    with check [OF Some] show ?thesis
      by simp
  qed
qed

theorem schema_version_gate_witness:
  "ensure_schema_version ref_ext [Put CF_META meta_SCHEMA_VERSION (VRaw (str_bytes ''1''))] =
     (Inl (schema_mismatch_error 1), [Put CF_META meta_SCHEMA_VERSION (VRaw (str_bytes ''1''))])"
proof -
  have "table ref_rows [Put CF_META meta_SCHEMA_VERSION (VRaw (str_bytes ''1''))] CF_META meta_SCHEMA_VERSION =
      Some (VRaw (str_bytes ''1''))"
    by (simp add: table_def ref_rows_def)
  moreover have "parse_u32 ''1'' = Some 1" "1 \<noteq> SCHEMA_VERSION"
    by (simp_all add: parse_u32_def digit_value_def SCHEMA_VERSION_def)
  moreover have "unraw ref_ext (VRaw b) = b" for b
    by (simp add: ref_defs)
  ultimately show ?thesis
    using schema_version_gate [OF ref_db_ok, of "[Put CF_META meta_SCHEMA_VERSION (VRaw (str_bytes ''1''))]"]
    by simp
qed

section \<open>The SSE hub\<close>

lemma hub_run:
  "hub_ok h \<Longrightarrow> length (sent h) + length evs + 2 < 2 ^ 64 \<Longrightarrow>
   hub_ok (fold (sse_broadcast json) evs h) \<and>
   ring_capacity (fold (sse_broadcast json) evs h) = ring_capacity h \<and>
   map sf_data (sent (fold (sse_broadcast json) evs h)) = map sf_data (sent h) @ List.map_filter json evs"
proof (induction evs arbitrary: h)
  case Nil
  then show ?case by (simp add: List.map_filter_simps)
next
  case (Cons ev evs)
  let ?h = "sse_broadcast json ev h"
  have "hub_ok ?h"
    by (rule hub_ok_broadcast) (use Cons.prems in auto)
  moreover have "length (sent ?h) \<le> Suc (length (sent h))" "ring_capacity ?h = ring_capacity h"
      "map sf_data (sent ?h) = map sf_data (sent h) @ List.map_filter json [ev]"
    by (simp_all add: sse_broadcast_def Let_def List.map_filter_simps split: option.split)
  ultimately show ?case
    using Cons.IH [of ?h] Cons.prems(2) by (simp add: List.map_filter_simps split: option.split)
qed

text \<open>
  Whatever events a hub broadcast, a subscriber that resumes after an id is replayed exactly
  the frames after that id which the ring can still hold, in the order they were sent, and the
  frames sent are the events that serialise.
\<close>

theorem replay_after_broadcasts:
  assumes "0 < capacity" "length evs + 2 < 2 ^ 64" "h = fold (sse_broadcast json) evs (sse_new capacity)"
  shows "replay_since since h = drop (max (unat since) (length (sent h) - capacity)) (sent h) \<and>
    map sf_data (sent h) = List.map_filter json evs"
proof -
  have "sent (sse_new capacity) = []" "ring_capacity (sse_new capacity) = capacity"
    by (simp_all add: sse_new_def)
  then have "hub_ok h" "ring_capacity h = capacity" "map sf_data (sent h) = List.map_filter json evs"
    using hub_run [OF hub_ok_new [OF assms(1)], of evs json] assms(2,3) by simp_all
  then show ?thesis
    using replay_exact [of h since] by simp
qed

theorem replay_after_broadcasts_witness:
  "map sf_id (replay_since 1 (fold (sse_broadcast (\<lambda>_. Some ''tick'')) [Heartbeat 1, Heartbeat 2, Heartbeat 3] (sse_new 2))) = [2, 3]"
proof -
  let ?h = "fold (sse_broadcast (\<lambda>_. Some ''tick'')) [Heartbeat 1, Heartbeat 2, Heartbeat 3] (sse_new 2)"
  have "replay_since 1 ?h = drop (max (unat (1 :: u64)) (length (sent ?h) - 2)) (sent ?h)"
    using replay_after_broadcasts [of 2 "[Heartbeat 1, Heartbeat 2, Heartbeat 3]" ?h "\<lambda>_. Some ''tick''" 1] by simp
  also have "map sf_id \<dots> = [2, 3]"
    by code_simp
  finally show ?thesis .
qed

end
