(* ===== verification/Slot_Laws.thy ===== *)
theory Slot_Laws
  imports Ingest
begin

text \<open>
  How slot rows evolve.  \<open>advances a b\<close> is what every writer but the arbiter and the operator may
  do to a row: its slot and first sighting stay, candidates, completeness and status only grow, and
  once it is FINAL the verdict and a known trail hash never change.  \<open>kept\<close> lifts it
  to the slot table.

  The statements hold whatever the store returns: a handler that fails half-way has advanced
  the rows it touched and left the others.  They are Hoare triples with a postcondition for
  success and one for failure.

  After the laws of rows come the steps of the handlers against the slot table: what each step between loading
  a row and writing it leaves alone, and the triples of loading, writing and stubbing.
\<close>

section \<open>Triples\<close>

definition hoare ::
  "('s \<Rightarrow> bool) \<Rightarrow> ('s, 'a) dbm \<Rightarrow> ('a \<Rightarrow> 's \<Rightarrow> bool) \<Rightarrow> ('s \<Rightarrow> bool) \<Rightarrow> bool" where
  "hoare P m Q X \<longleftrightarrow>
     (\<forall>s. P s \<longrightarrow> (case m s of (Inl e, t) \<Rightarrow> X t | (Inr x, t) \<Rightarrow> Q x t))"

named_theorems hoare_intros "triples of the handlers' steps"

lemma hoareD: "hoare P m Q X \<Longrightarrow> P s \<Longrightarrow> m s = (Inr x, t) \<Longrightarrow> Q x t"
  by (fastforce simp: hoare_def)

lemma hoareD_err: "hoare P m Q X \<Longrightarrow> P s \<Longrightarrow> m s = (Inl e, t) \<Longrightarrow> X t"
  by (fastforce simp: hoare_def)

lemma hoare_weaken:
  "hoare P m Q X \<Longrightarrow> (\<And>s. P' s \<Longrightarrow> P s) \<Longrightarrow> (\<And>x s. Q x s \<Longrightarrow> Q' x s) \<Longrightarrow>
   (\<And>s. X s \<Longrightarrow> X' s) \<Longrightarrow> hoare P' m Q' X'"
  by (fastforce simp: hoare_def split: prod.splits sum.splits)

lemma hoare_bnd:
  "hoare P m Q X \<Longrightarrow> (\<And>x. hoare (Q x) (f x) S X) \<Longrightarrow> hoare P (bnd m f) S X"
  by (fastforce simp: hoare_def bnd_def split: prod.splits sum.splits)

lemma hoare_ret: "(\<And>s. P s \<Longrightarrow> Q x s) \<Longrightarrow> hoare P (ret x) Q X"
  by (simp add: hoare_def ret_def)

lemma hoare_lift: "(\<And>s x. P s \<Longrightarrow> r = Inr x \<Longrightarrow> Q x s) \<Longrightarrow> (\<And>s. P s \<Longrightarrow> X s) \<Longrightarrow> hoare P (lift r) Q X"
  by (cases r) (simp_all add: hoare_def fail_def ret_def)

lemma hoare_readm:
  "(\<And>s x. P s \<Longrightarrow> f s = Inr x \<Longrightarrow> Q x s) \<Longrightarrow> (\<And>s. P s \<Longrightarrow> X s) \<Longrightarrow> hoare P (readm f) Q X"
  by (auto simp: hoare_def readm_def split: sum.splits)

lemma hoare_if:
  "(b \<Longrightarrow> hoare P m Q X) \<Longrightarrow> (\<not> b \<Longrightarrow> hoare P n Q X) \<Longrightarrow> hoare P (if b then m else n) Q X"
  by simp

lemma hoare_option:
  "(v = None \<Longrightarrow> hoare P m Q X) \<Longrightarrow> (\<And>x. v = Some x \<Longrightarrow> hoare P (f x) Q X) \<Longrightarrow>
   hoare P (case v of None \<Rightarrow> m | Some x \<Rightarrow> f x) Q X"
  by (cases v) simp_all

lemma hoare_pre: "(\<And>s. P s \<Longrightarrow> A) \<Longrightarrow> (A \<Longrightarrow> hoare P m Q X) \<Longrightarrow> hoare P m Q X"
  by (auto simp: hoare_def)

lemma hoare_on_db:
  "hoare P m Q X \<Longrightarrow>
   hoare (\<lambda>w. P (w_db w)) (on_db m) (\<lambda>x w. Q x (w_db w)) (\<lambda>w. X (w_db w))"
  by (fastforce simp: hoare_def on_db_def split: prod.splits sum.splits)

text \<open>A step that leaves a family alone keeps every assertion about it.\<close>

lemma hoare_frame:
  assumes "touches R cs m" "c \<notin> cs"
  shows "hoare (\<lambda>s. P (table R s c)) m (\<lambda>_ s. P (table R s c)) (\<lambda>s. P (table R s c))"
  using touchesD [OF assms(1) _ assms(2)]
  by (fastforce simp: hoare_def split: prod.splits sum.splits)

section \<open>Rows\<close>

fun rank :: "slot_status \<Rightarrow> nat" where
  "rank SlotUnknown = 0"
| "rank SlotCandidate = 1"
| "rank SlotFinal = 2"

definition same_final :: "slot_state \<Rightarrow> slot_state \<Rightarrow> bool" where
  "same_final a b \<longleftrightarrow>
     st_is_miss b = st_is_miss a \<and> st_final_block_id b = st_final_block_id a \<and>
     (st_execution_trail_hash a \<noteq> None \<longrightarrow> st_execution_trail_hash b = st_execution_trail_hash a)"

definition advances :: "slot_state \<Rightarrow> slot_state \<Rightarrow> bool" where
  "advances a b \<longleftrightarrow>
     st_slot b = st_slot a \<and> st_first_seen_ts_ms b = st_first_seen_ts_ms a \<and>
     set (st_candidate_block_ids a) \<subseteq> set (st_candidate_block_ids b) \<and>
     completeness_le (st_completeness a) (st_completeness b) \<and>
     rank (st_status a) \<le> rank (st_status b) \<and>
     (st_status a = SlotFinal \<longrightarrow> same_final a b)"

lemma rank_Final [simp]: "rank x \<le> 2" "2 \<le> rank x \<longleftrightarrow> x = SlotFinal"
  by (cases x; simp)+

lemma advances_refl [simp]: "advances a a"
  by (simp add: advances_def same_final_def)

lemma advances_final: "advances a b \<Longrightarrow> st_status a = SlotFinal \<Longrightarrow> st_status b = SlotFinal"
  using rank_Final(2) [of "st_status b"] by (simp add: advances_def)

lemma advances_trans: "advances a b \<Longrightarrow> advances b c \<Longrightarrow> advances a c"
  using advances_final [of a b]
  by (auto simp: advances_def same_final_def dest: completeness_le_trans)

type_synonym 'v slot_table = "bytes \<Rightarrow> 'v option"

definition slot_at :: "('v, 'x) wires_scheme \<Rightarrow> 'v slot_table \<Rightarrow> slot \<Rightarrow> slot_state option" where
  "slot_at W F sl = Option.bind (F (slot_row_key sl)) (\<lambda>v. res_ok (decode_slot_state W v))"

text \<open>Every row decodes to the slot of its key.\<close>

definition slots_ok :: "('v, 'x) wires_scheme \<Rightarrow> 'v slot_table \<Rightarrow> bool" where
  "slots_ok W F \<longleftrightarrow>
     (\<forall>k v. F k = Some v \<longrightarrow> (\<exists>st. decode_slot_state W v = Inr st \<and> slot_row_key (st_slot st) = k))"

definition kept ::
  "('v, 'x) wires_scheme \<Rightarrow> (slot \<Rightarrow> bool) \<Rightarrow> 'v slot_table \<Rightarrow> 'v slot_table \<Rightarrow> bool" where
  "kept W sel F G \<longleftrightarrow>
     slots_ok W G \<and>
     (\<forall>sl a. sel sl \<and> slot_at W F sl = Some a \<longrightarrow> (\<exists>b. slot_at W G sl = Some b \<and> advances a b))"

lemma slot_at_slot: "slots_ok W F \<Longrightarrow> slot_at W F sl = Some st \<Longrightarrow> st_slot st = sl"
  by (fastforce simp: slots_ok_def slot_at_def bind_eq_Some_conv)

lemma slot_at_wf: "wires_ok W \<Longrightarrow> slot_at W F sl = Some st \<Longrightarrow> wf_slot_state W st"
  by (auto simp: slot_at_def bind_eq_Some_conv intro: slot_state_codec.dec_wf)

lemma kept_refl: "slots_ok W F \<Longrightarrow> kept W sel F F"
  by (auto simp: kept_def)

lemma kept_trans: "kept W sel F G \<Longrightarrow> kept W sel G H \<Longrightarrow> kept W sel F H"
  unfolding kept_def by (meson advances_trans)

section \<open>Encoding a row\<close>

definition wf_row :: "'x crates_scheme \<Rightarrow> slot_state \<Rightarrow> bool" where
  "wf_row C st \<longleftrightarrow>
     wf_opt (wf_block_id C) (st_final_block_id st) \<and>
     list_all (wf_block_id C) (st_candidate_block_ids st) \<and>
     list_all (wf_op_id C) (st_executed_op_ids st)"

definition norm :: "slot_state \<Rightarrow> slot_state" where
  "norm st = (if st_execution_trail_hash st = Some [] then st\<lparr>st_execution_trail_hash := None\<rparr> else st)"

lemma norm_simps [simp]:
  "st_slot (norm st) = st_slot st" "st_status (norm st) = st_status st"
  "st_is_miss (norm st) = st_is_miss st" "st_final_block_id (norm st) = st_final_block_id st"
  "st_candidate_block_ids (norm st) = st_candidate_block_ids st"
  "st_completeness (norm st) = st_completeness st"
  "st_first_seen_ts_ms (norm st) = st_first_seen_ts_ms st"
  by (simp_all add: norm_def)

lemma encode_norm: "encode_slot_state W (norm st) = encode_slot_state W st"
  by (simp add: encode_slot_state_def slot_state_to_pb_def norm_def)

lemma wf_slot_row: "wf_slot_state C st \<Longrightarrow> wf_row C st"
  by (simp add: wf_slot_state_def wf_row_def)

lemma wf_row_norm: "wf_row C st \<Longrightarrow> wf_slot_state C (norm st)"
  by (simp add: wf_slot_state_def wf_row_def norm_def)

lemma decode_encode_row:
  "wires_ok W \<Longrightarrow> wf_row W st \<Longrightarrow> decode_slot_state W (encode_slot_state W st) = Inr (norm st)"
  using slot_state_codec.dec_enc [of W "norm st"] wf_row_norm [of W st]
  by (simp add: encode_norm)

lemma wf_row_fresh [simp]: "wf_row C (fresh sl now)"
  by (simp add: fresh_def wf_row_def)

lemma advances_norm:
  assumes "advances a b" "st_execution_trail_hash a \<noteq> Some []"
  shows "advances a (norm b)"
  using assms by (auto simp: advances_def same_final_def norm_def)

section \<open>Loading and writing a row\<close>

definition next_row :: "'x crates_scheme \<Rightarrow> slot_state \<Rightarrow> slot_state \<Rightarrow> bool" where
  "next_row C a b \<longleftrightarrow> wf_row C b \<and> advances a b"

lemma next_row_trans: "next_row C a b \<Longrightarrow> next_row C b c \<Longrightarrow> next_row C a c"
  by (auto simp: next_row_def intro: advances_trans)

text \<open>The state a handler works on is the row of its slot, or a fresh one.\<close>

definition holds_row :: "('v, 'x) wires_scheme \<Rightarrow> slot \<Rightarrow> slot_state \<Rightarrow> 'v slot_table \<Rightarrow> bool" where
  "holds_row W sl st F \<longleftrightarrow>
     st_slot st = sl \<and> wf_slot_state W st \<and> (slot_at W F sl = Some st \<or> slot_at W F sl = None)"

lemma kept_put:
  assumes "wires_ok W" "kept W sel F0 F" "slot_at W F (st_slot b) = None \<or>
      (\<exists>a. slot_at W F (st_slot b) = Some a \<and> (sel (st_slot b) \<longrightarrow> advances a b))" "wf_row W b"
  shows "kept W sel F0 (F(slot_row_key (st_slot b) \<mapsto> encode_slot_state W b))"
proof (rule kept_trans [OF assms(2)])
  let ?G = "F(slot_row_key (st_slot b) \<mapsto> encode_slot_state W b)"
  have ok: "slots_ok W F"
    using assms(2) by (simp add: kept_def)
  have at: "slot_at W ?G sl = (if sl = st_slot b then Some (norm b) else slot_at W F sl)" for sl
    using decode_encode_row [OF assms(1,4)] by (auto simp: slot_at_def)
  have "slots_ok W ?G"
    using ok decode_encode_row [OF assms(1,4)] by (auto simp: slots_ok_def)
  moreover have "advances a (norm b)" if "slot_at W F (st_slot b) = Some a" "sel (st_slot b)" for a
    using assms(3) that slot_at_wf [OF assms(1) that(1)]
    by (intro advances_norm) (auto simp: wf_slot_state_def)
  ultimately show "kept W sel F ?G"
    unfolding kept_def at by auto
qed

lemma table_put: "store_ok E R \<Longrightarrow> db_put E c k v s = (Inr u, t) \<Longrightarrow> table R t c = (table R s c)(k \<mapsto> v)"
  by (auto simp: db_put_def dest!: db_write_Inr)

lemma table_put_err: "store_ok E R \<Longrightarrow> db_put E c k v s = (Inl e, t) \<Longrightarrow> table R t = table R s"
  by (auto simp: db_put_def dest!: db_write_Inl)

lemma read_slot_at:
  assumes "store_ok E R" "slots_ok E (table R s CF_SLOT)"
    and "read_slot E s (sl_period sl) (sl_thread sl) = Inr r"
  shows "r = slot_at E (table R s CF_SLOT) sl"
proof -
  obtain q where q: "db_get E s CF_SLOT (slot_row_key sl) = Inr q"
    using assms(3) unfolding read_slot_def get_decoded_def slot_row_key_def rbind_eq_Inr by blast
  then have t: "q = table R s CF_SLOT (slot_row_key sl)"
    by (rule db_get_Inr [OF assms(1)])
  show ?thesis
  proof (cases q)
    case None
    with q t assms(3) show ?thesis
      by (simp add: read_slot_def get_decoded_def slot_at_def slot_row_key_def)
  next
    case (Some v)
    then obtain st where "decode_slot_state E v = Inr st"
      using assms(2) t unfolding slots_ok_def by metis
    with Some q t assms(3) show ?thesis
      by (simp add: read_slot_def get_decoded_def slot_at_def slot_row_key_def)
  qed
qed

section \<open>Steps off the slot table\<close>

abbreviation off_slot :: "('s, 'v) rows \<Rightarrow> ('s, 'a) dbm \<Rightarrow> bool" where
  "off_slot R \<equiv> touches R (- {CF_SLOT})"

lemma cfs_off_slot [simp]:
  "CF_SLOT \<notin> async_cfs" "CF_SLOT \<notin> deferred_cfs" "CF_SLOT \<notin> event_cfs"
  "CF_SLOT \<notin> transfer_cfs" "CF_SLOT \<notin> denunciation_cfs" "CF_SLOT \<notin> block_cfs"
  "CF_SLOT \<notin> op_cfs"
  by (simp_all add: async_cfs_def deferred_cfs_def event_cfs_def transfer_cfs_def
      denunciation_cfs_def block_cfs_def op_cfs_def)

lemma write_cf_concat_rows:
  assumes "\<And>k v. write_cf ` set (f k v) \<subseteq> cs"
  shows "prefix_rows p (\<lambda>k v. Inr (f k v)) rs = Inr xs \<Longrightarrow> write_cf ` set (concat xs) \<subseteq> cs"
proof (induction rs arbitrary: xs)
  case Nil
  then show ?case by simp
next
  case (Cons r rs)
  show ?case
  proof (cases r)
    case (Inl e)
    with Cons.prems show ?thesis by simp
  next
    case (Inr kv)
    obtain k v where kv: "kv = (k, v)"
      by (cases kv)
    show ?thesis
    proof (cases "starts_with k p")
      case False
      with Cons.prems Inr kv show ?thesis by simp
    next
      case True
      then obtain ys where ys: "prefix_rows p (\<lambda>k v. Inr (f k v)) rs = Inr ys" "xs = f k v # ys"
        using Cons.prems Inr kv by (auto simp: rbind_eq_Inr)
      with Cons.IH [OF ys(1)] assms [of k v] show ?thesis
        by (simp add: image_Un)
    qed
  qed
qed

lemma touches_clear:
  assumes "store_ok E R" "\<And>k v. write_cf ` set (f k v) \<subseteq> cs"
  shows "touches R cs (bnd (readm (\<lambda>s. prefix_rows p (\<lambda>k v. Inr (f k v)) (db_iter E s c m)))
    (\<lambda>rows. if rows \<noteq> [] then db_write E (concat rows) else ret ()))"
  unfolding touches_def
proof (intro allI impI)
  fix s d assume d: "d \<notin> cs"
  let ?r = "prefix_rows p (\<lambda>k v. Inr (f k v)) (db_iter E s c m) :: error + _"
  show "table R (snd (bnd (readm (\<lambda>s. prefix_rows p (\<lambda>k v. Inr (f k v)) (db_iter E s c m)))
      (\<lambda>rows. if rows \<noteq> [] then db_write E (concat rows) else ret ()) s)) d = table R s d"
  proof (cases ?r)
    case (Inl e)
    then show ?thesis by (simp add: bnd_def readm_def)
  next
    case (Inr xs)
    have "touches R cs (db_write E (concat xs))"
      by (rule touches_write [OF assms(1) write_cf_concat_rows [OF assms(2) Inr]])
    then have "table R (snd (db_write E (concat xs) s)) d = table R s d"
      using d unfolding touches_def by blast
    with Inr show ?thesis
      by (simp add: bnd_def readm_def ret_def)
  qed
qed

lemma touches_clear_sc_events [frame_intros]:
  "store_ok E R \<Longrightarrow> event_cfs \<subseteq> cs \<Longrightarrow> touches R cs (clear_sc_events_for_slot E p t)"
  unfolding clear_sc_events_for_slot_def Let_def
  by (rule touches_clear)
    (auto simp: clear_event_row_def event_cfs_def split: sum.splits dest: event_index_cfs)

lemma touches_clear_transfers [frame_intros]:
  "store_ok E R \<Longrightarrow> transfer_cfs \<subseteq> cs \<Longrightarrow> touches R cs (clear_transfers_for_slot E p t)"
  unfolding clear_transfers_for_slot_def Let_def
  by (rule touches_clear)
    (auto simp: clear_transfer_row_def transfer_cfs_def split: sum.splits dest: transfer_index_cfs)

lemma off_load_slot [frame_intros]: "touches R cs (load_slot E sl now)"
  unfolding load_slot_def by (intro frame_intros)

lemma off_write_denunciations [frame_intros]:
  "store_ok E R \<Longrightarrow> denunciation_cfs \<subseteq> cs \<Longrightarrow> touches R cs (write_denunciations E b now ds)"
  unfolding write_denunciations_def by (intro frame_intros)

lemma off_apply_peer_op [frame_intros]: "store_ok E R \<Longrightarrow> op_cfs \<subseteq> cs \<Longrightarrow> touches R cs (apply_peer_op E q)"
  unfolding apply_peer_op_def
  by (intro touches_bnd touches_readm touches_option touches_write_op' touches_ret)

lemma off_apply_block_part [frame_intros]: "store_ok E R \<Longrightarrow> off_slot R (apply_block_part E resp now)"
  unfolding apply_block_part_def
  by (intro touches_bnd touches_readm touches_option touches_ret touches_if touches_for_each
      touches_write_block' off_apply_peer_op touches_write_endorsement off_write_denunciations) simp_all

lemma off_apply_exec_part [frame_intros]: "store_ok E R \<Longrightarrow> off_slot R (apply_exec_part E resp)"
  unfolding apply_exec_part_def
  by (intro touches_bnd touches_for_each touches_clear_sc_events touches_write_sc_event
      touches_write_async_msg) simp_all

lemma off_apply_transfers_part [frame_intros]:
  "store_ok E R \<Longrightarrow> off_slot R (apply_transfers_part E resp now)"
  unfolding apply_transfers_part_def Let_def
  by (intro touches_bnd touches_for_each touches_clear_transfers touches_write_transfer
      touches_write_deferred_call touches_reconcile_async touches_reconcile_deferred) simp_all

lemma off_advance_last_final [frame_intros]: "store_ok E R \<Longrightarrow> off_slot R (advance_last_final E sl)"
  unfolding advance_last_final_def
  by (intro touches_bnd touches_readm touches_option touches_if touches_ret
      touches_update_last_final_slot) simp_all

lemma off_adopt_peer_verdict [frame_intros]:
  "store_ok E R \<Longrightarrow> off_slot R (adopt_peer_verdict E st resp b t)"
  unfolding adopt_peer_verdict_def
  by (intro touches_bnd touches_option touches_ret touches_set_block_status touches_clear_sc_events
      touches_clear_transfers) simp_all

lemma off_apply_finality [frame_intros]: "store_ok E R \<Longrightarrow> off_slot R (apply_finality_to_blocks E b bs)"
  by (rule touches_apply_finality) simp_all

lemma off_apply_exec_ops [frame_intros]: "store_ok E R \<Longrightarrow> off_slot R (apply_exec_ops E x f st)"
  unfolding apply_exec_ops_def
  by (intro touches_option touches_bnd touches_ret touches_apply_executed_ops) simp_all

lemma off_apply_exec_async [frame_intros]: "store_ok E R \<Longrightarrow> off_slot R (apply_exec_async E x sl now)"
  unfolding apply_exec_async_def
  by (intro touches_option touches_ret touches_apply_async_pool_changes) simp_all

lemma off_replace_events [frame_intros]:
  "store_ok E R \<Longrightarrow> off_slot (world_rows R) (replace_events E sl st evs)"
  unfolding replace_events_def store_events_def
  by (intro touches_bnd touches_for_each touches_on_db touches_emit touches_clear_sc_events
      touches_write_sc_event) simp_all

lemma off_handle_block_op [frame_intros]:
  "store_ok E R \<Longrightarrow> off_slot (world_rows R) (handle_block_op E sl b now ids fo)"
  unfolding handle_block_op_def Let_def
  by (auto split: option.splits intro!: touches_bnd touches_rd touches_lift touches_on_db touches_emit
      touches_ret touches_write_op')

section \<open>Loading, writing, stubbing\<close>

text \<open>The assertions: the table since \<open>F0\<close>, and the row a handler has loaded.\<close>

definition slots_inv ::
  "('v, 'x) wires_scheme \<Rightarrow> ('s, 'v) rows \<Rightarrow> (slot \<Rightarrow> bool) \<Rightarrow> 'v slot_table \<Rightarrow> 's \<Rightarrow> bool" where
  "slots_inv E R sel F0 s \<longleftrightarrow> kept E sel F0 (table R s CF_SLOT)"

definition row_inv ::
  "('v, 'x) wires_scheme \<Rightarrow> ('s, 'v) rows \<Rightarrow> (slot \<Rightarrow> bool) \<Rightarrow> 'v slot_table \<Rightarrow> slot \<Rightarrow> slot_state \<Rightarrow>
   's \<Rightarrow> bool" where
  "row_inv E R sel F0 sl st s \<longleftrightarrow> slots_inv E R sel F0 s \<and> holds_row E sl st (table R s CF_SLOT)"

lemma holds_row_loaded:
  assumes "wires_ok W" "slots_ok W F"
  shows "holds_row W sl (unwrap_or (fresh sl now) (slot_at W F sl)) F"
proof (cases "slot_at W F sl")
  case None
  then show ?thesis
    by (simp add: holds_row_def fresh_def wf_slot_state_def)
next
  case (Some st)
  with slot_at_wf [OF assms(1) Some] slot_at_slot [OF assms(2) Some] show ?thesis
    by (simp add: holds_row_def)
qed

lemma hoare_read_slot:
  assumes "store_ok E R"
  shows "hoare (slots_inv E R sel F0) (readm (\<lambda>s. read_slot E s (sl_period sl) (sl_thread sl)))
    (\<lambda>r s. slots_inv E R sel F0 s \<and> r = slot_at E (table R s CF_SLOT) sl) (slots_inv E R sel F0)"
  by (rule hoare_readm) (auto simp: slots_inv_def kept_def intro: read_slot_at [OF assms])

lemma hoare_load_slot:
  assumes "store_ok E R" "wires_ok E"
  shows "hoare (slots_inv E R sel F0) (load_slot E sl now) (row_inv E R sel F0 sl) (slots_inv E R sel F0)"
  unfolding load_slot_def
proof (rule hoare_bnd [OF hoare_read_slot [OF assms(1)]])
  show "hoare (\<lambda>s. slots_inv E R sel F0 s \<and> r = slot_at E (table R s CF_SLOT) sl)
      (ret (unwrap_or (fresh sl now) r)) (row_inv E R sel F0 sl) (slots_inv E R sel F0)" for r
    by (rule hoare_ret)
      (auto simp: row_inv_def slots_inv_def kept_def intro: holds_row_loaded [OF assms(2)])
qed

lemma hoare_write_slot:
  assumes "store_ok E R" "wires_ok E" "wf_row E b" "st_slot b = sl" "sel sl \<Longrightarrow> advances st b"
  shows "hoare (row_inv E R sel F0 sl st) (write_slot E b) (\<lambda>_. slots_inv E R sel F0) (slots_inv E R sel F0)"
  unfolding hoare_def
proof (intro allI impI)
  fix s assume L: "row_inv E R sel F0 sl st s"
  obtain r t where w: "write_slot E b s = (r, t)"
    by (cases "write_slot E b s")
  show "case write_slot E b s of (Inl e, t) \<Rightarrow> slots_inv E R sel F0 t | (Inr x, t) \<Rightarrow> slots_inv E R sel F0 t"
  proof (cases r)
    case (Inl e)
    with w have "table R t = table R s"
      using table_put_err [OF assms(1)] by (auto simp: write_slot_def)
    with w L Inl show ?thesis
      by (simp add: row_inv_def slots_inv_def)
  next
    case (Inr u)
    then have "table R t CF_SLOT =
        (table R s CF_SLOT)(slot_row_key (st_slot b) \<mapsto> encode_slot_state E b)"
      using w table_put [OF assms(1)] by (auto simp: write_slot_def)
    moreover have "kept E sel F0 ((table R s CF_SLOT)(slot_row_key (st_slot b) \<mapsto> encode_slot_state E b))"
      by (rule kept_put [OF assms(2) _ _ assms(3)])
        (use L assms(4,5) in \<open>auto simp: row_inv_def slots_inv_def holds_row_def\<close>)
    ultimately show ?thesis
      using w Inr by (simp add: slots_inv_def)
  qed
qed

lemma hoare_ensure_parent_stub:
  assumes "store_ok E R" "wires_ok E"
  shows "hoare (slots_inv E R sel F0) (ensure_parent_stub E sl now) (\<lambda>_. slots_inv E R sel F0)
    (slots_inv E R sel F0)"
  unfolding ensure_parent_stub_def Let_def
proof (rule hoare_if)
  let ?p = "Slot (sl_period sl - 1) (sl_thread sl)"
  show "hoare (slots_inv E R sel F0) (bnd (readm (\<lambda>s. read_slot E s (sl_period ?p) (sl_thread ?p)))
      (\<lambda>found. if is_some found then ret () else write_slot E (fresh ?p now)))
      (\<lambda>_. slots_inv E R sel F0) (slots_inv E R sel F0)"
  proof (rule hoare_bnd [OF hoare_read_slot [OF assms(1)]])
    fix r
    have "hoare (row_inv E R sel F0 ?p (fresh ?p now)) (write_slot E (fresh ?p now))
        (\<lambda>_. slots_inv E R sel F0) (slots_inv E R sel F0)"
      by (rule hoare_write_slot [OF assms]) (simp_all add: fresh_def wf_row_def)
    then have "hoare (\<lambda>s. slots_inv E R sel F0 s \<and> None = slot_at E (table R s CF_SLOT) ?p)
        (write_slot E (fresh ?p now)) (\<lambda>_. slots_inv E R sel F0) (slots_inv E R sel F0)"
      by (rule hoare_weaken) (auto simp: row_inv_def holds_row_def fresh_def wf_slot_state_def)
    then show "hoare (\<lambda>s. slots_inv E R sel F0 s \<and> r = slot_at E (table R s CF_SLOT) ?p)
        (if is_some r then ret () else write_slot E (fresh ?p now))
        (\<lambda>_. slots_inv E R sel F0) (slots_inv E R sel F0)"
      by (cases r) (auto intro: hoare_ret)
  qed
qed (simp add: hoare_ret)

lemma hoare_off:
  "off_slot R m \<Longrightarrow> hoare (slots_inv E R sel F0) m (\<lambda>_. slots_inv E R sel F0) (slots_inv E R sel F0)"
  using hoare_frame [where P = "kept E sel F0" and c = CF_SLOT and cs = "- {CF_SLOT}"]
  unfolding slots_inv_def [abs_def] by fast

lemma hoare_off_row:
  assumes "off_slot R m"
  shows "hoare (row_inv E R sel F0 sl st) m (\<lambda>_. row_inv E R sel F0 sl st) (slots_inv E R sel F0)"
  by (rule hoare_weaken [OF hoare_frame [OF assms, where c = CF_SLOT
        and P = "\<lambda>F. kept E sel F0 F \<and> holds_row E sl st F"]])
    (auto simp: row_inv_def slots_inv_def)

section \<open>Chaining\<close>

text \<open>What a computation is known to return.\<close>

definition gives :: "('s, 'a) dbm \<Rightarrow> ('a \<Rightarrow> bool) \<Rightarrow> bool" where
  "gives m G \<longleftrightarrow> (\<forall>s x t. m s = (Inr x, t) \<longrightarrow> G x)"

lemma gives_any: "gives m (\<lambda>_. True)"
  by (simp add: gives_def)

lemma gives_ret: "G x \<Longrightarrow> gives (ret x) G"
  by (simp add: gives_def ret_def)

lemma gives_lift: "(\<And>x. r = Inr x \<Longrightarrow> G x) \<Longrightarrow> gives (lift r) G"
  by (simp add: gives_def lift_def)

lemma gives_bnd: "gives m F \<Longrightarrow> (\<And>x. F x \<Longrightarrow> gives (f x) G) \<Longrightarrow> gives (bnd m f) G"
  unfolding gives_def bnd_Inr by meson

lemma gives_readm: "(\<And>s x. f s = Inr x \<Longrightarrow> G x) \<Longrightarrow> gives (readm f) G"
  by (simp add: gives_def readm_def)

lemma gives_rd: "(\<And>s x. f s = Inr x \<Longrightarrow> G x) \<Longrightarrow> gives (rd f) G"
  by (simp add: gives_def rd_def)

lemma gives_on_db: "gives m G \<Longrightarrow> gives (on_db m) G"
  by (fastforce simp: gives_def on_db_def split: prod.splits)

lemma gives_fold_each:
  assumes "\<And>b x. I b \<Longrightarrow> gives (f b x) I"
  shows "I b \<Longrightarrow> gives (fold_each f b xs) I"
proof (induction xs arbitrary: b)
  case (Cons x xs)
  then show ?case
    using assms by (auto intro: gives_bnd)
qed (simp add: gives_ret)

lemma slots_inv_world [simp]: "slots_inv W (world_rows R) sel F0 w = slots_inv W R sel F0 (w_db w)"
  by (simp add: slots_inv_def)

lemma row_inv_world [simp]: "row_inv W (world_rows R) sel F0 sl st w = row_inv W R sel F0 sl st (w_db w)"
  by (simp add: row_inv_def)

lemma inv_then:
  assumes "hoare (slots_inv W R sel F0) m (\<lambda>_. slots_inv W R sel F0) (slots_inv W R sel F0)"
    and "gives m G" "\<And>x. G x \<Longrightarrow> hoare (slots_inv W R sel F0) (f x) S (slots_inv W R sel F0)"
  shows "hoare (slots_inv W R sel F0) (bnd m f) S (slots_inv W R sel F0)"
proof (rule hoare_bnd)
  show "hoare (slots_inv W R sel F0) m (\<lambda>x s. slots_inv W R sel F0 s \<and> G x) (slots_inv W R sel F0)"
    using assms(1,2) by (fastforce simp: hoare_def gives_def split: prod.splits sum.splits)
  show "hoare (\<lambda>s. slots_inv W R sel F0 s \<and> G x) (f x) S (slots_inv W R sel F0)" for x
    by (rule hoare_pre [where A = "G x"]) (auto intro: hoare_weaken [OF assms(3)])
qed

lemma off_then:
  assumes "off_slot R m" "gives m G"
    and "\<And>x. G x \<Longrightarrow> hoare (slots_inv W R sel F0) (f x) S (slots_inv W R sel F0)"
  shows "hoare (slots_inv W R sel F0) (bnd m f) S (slots_inv W R sel F0)"
  by (rule inv_then [OF hoare_off [OF assms(1)] assms(2,3)])

lemma row_then:
  assumes "off_slot R m" "gives m G"
    and "\<And>x. G x \<Longrightarrow> hoare (row_inv W R sel F0 sl st) (f x) S (slots_inv W R sel F0)"
  shows "hoare (row_inv W R sel F0 sl st) (bnd m f) S (slots_inv W R sel F0)"
proof (rule hoare_bnd)
  show "hoare (row_inv W R sel F0 sl st) m (\<lambda>x s. row_inv W R sel F0 sl st s \<and> G x) (slots_inv W R sel F0)"
    using hoare_off_row [OF assms(1), of W sel F0 sl st] assms(2)
    by (fastforce simp: hoare_def gives_def split: prod.splits sum.splits)
  show "hoare (\<lambda>s. row_inv W R sel F0 sl st s \<and> G x) (f x) S (slots_inv W R sel F0)" for x
    by (rule hoare_pre [where A = "G x"]) (auto intro: hoare_weaken [OF assms(3)])
qed

lemma load_then:
  assumes "store_ok E R" "wires_ok E"
    and "\<And>st. st_slot st = sl \<Longrightarrow> wf_slot_state E st \<Longrightarrow>
      hoare (row_inv E R sel F0 sl st) (f st) S (slots_inv E R sel F0)"
  shows "hoare (slots_inv E R sel F0) (bnd (load_slot E sl now) f) S (slots_inv E R sel F0)"
proof (rule hoare_bnd [OF hoare_load_slot [OF assms(1,2)]])
  show "hoare (row_inv E R sel F0 sl st) (f st) S (slots_inv E R sel F0)" for st
  proof (rule hoare_pre [where A = "st_slot st = sl \<and> wf_slot_state E st"])
    show "st_slot st = sl \<and> wf_slot_state E st" if "row_inv E R sel F0 sl st s" for s
      using that by (simp add: row_inv_def holds_row_def)
  qed (simp add: assms(3))
qed

lemma write_then:
  assumes "store_ok E R" "wires_ok E" "wf_row E b" "st_slot b = sl" "sel sl \<Longrightarrow> advances st b"
    and "hoare (slots_inv E R sel F0) (f ()) S (slots_inv E R sel F0)"
  shows "hoare (row_inv E R sel F0 sl st) (bnd (write_slot E b) f) S (slots_inv E R sel F0)"
  by (rule hoare_bnd, rule hoare_write_slot [OF assms(1-5)]) (auto intro: assms(6))

lemma row_done:
  "hoare (slots_inv W R sel F0) m S (slots_inv W R sel F0) \<Longrightarrow>
   hoare (row_inv W R sel F0 sl st) m S (slots_inv W R sel F0)"
  by (erule hoare_weaken) (auto simp: row_inv_def)

text \<open>The same over the world.\<close>

lemma hoare_inv_on_db:
  "hoare (slots_inv W R sel F0) m (\<lambda>_. slots_inv W R sel F0) (slots_inv W R sel F0) \<Longrightarrow>
   hoare (slots_inv W (world_rows R) sel F0) (on_db m) (\<lambda>_. slots_inv W (world_rows R) sel F0)
     (slots_inv W (world_rows R) sel F0)"
  by (drule hoare_on_db) (simp add: slots_inv_world [abs_def])

lemma load_then_world:
  assumes "store_ok E R" "wires_ok E"
    and "\<And>st. st_slot st = sl \<Longrightarrow> wf_slot_state E st \<Longrightarrow>
      hoare (row_inv E (world_rows R) sel F0 sl st) (f st) S (slots_inv E (world_rows R) sel F0)"
  shows "hoare (slots_inv E (world_rows R) sel F0) (bnd (on_db (load_slot E sl now)) f) S
    (slots_inv E (world_rows R) sel F0)"
proof (rule hoare_bnd)
  show "hoare (slots_inv E (world_rows R) sel F0) (on_db (load_slot E sl now))
      (\<lambda>st w. row_inv E (world_rows R) sel F0 sl st w \<and> st_slot st = sl \<and> wf_slot_state E st)
      (slots_inv E (world_rows R) sel F0)"
    using hoare_on_db [OF hoare_load_slot [OF assms(1,2), of sel F0 sl now]]
    by (rule hoare_weaken) (auto simp: row_inv_def holds_row_def)
  show "hoare (\<lambda>w. row_inv E (world_rows R) sel F0 sl st w \<and> st_slot st = sl \<and> wf_slot_state E st)
      (f st) S (slots_inv E (world_rows R) sel F0)" for st
    by (rule hoare_pre [where A = "st_slot st = sl \<and> wf_slot_state E st"])
      (auto intro: hoare_weaken [OF assms(3)])
qed

lemma write_then_world:
  assumes "store_ok E R" "wires_ok E" "wf_row E b" "st_slot b = sl" "sel sl \<Longrightarrow> advances st b"
    and "hoare (slots_inv E (world_rows R) sel F0) (f ()) S (slots_inv E (world_rows R) sel F0)"
  shows "hoare (row_inv E (world_rows R) sel F0 sl st) (bnd (on_db (write_slot E b)) f) S
    (slots_inv E (world_rows R) sel F0)"
proof (rule hoare_bnd)
  show "hoare (row_inv E (world_rows R) sel F0 sl st) (on_db (write_slot E b))
      (\<lambda>_. slots_inv E (world_rows R) sel F0) (slots_inv E (world_rows R) sel F0)"
    using hoare_on_db [OF hoare_write_slot [OF assms(1-5), where ?F0.0 = F0]]
    by (rule hoare_weaken) simp_all
qed (auto intro: assms(6))

end
