(* ===== verification/Slot_Handlers.thy ===== *)
theory Slot_Handlers
  imports Slot_Laws
begin

text \<open>
  Every handler but the arbiter's adoption and the operator's verdict only advances slot rows,
  whether it succeeds or fails, on any store: blocks, execution outputs, transfers and
  legacy patches.  A peer patch advances every row but the one of its slot, and that one too unless
  the arbiter adopts the peer; a forced verdict touches no other row.
\<close>

section \<open>The pure steps on a row\<close>

lemma next_row_refl: "wf_slot_state C st \<Longrightarrow> next_row C st st"
  by (simp add: next_row_def wf_slot_row)

lemma next_row_candidate: "next_row C a b \<Longrightarrow> wf_block_id C bid \<Longrightarrow> next_row C a (add_candidate bid b)"
  by (auto simp: next_row_def add_candidate_def wf_row_def advances_def same_final_def)

lemma next_row_body: "next_row C a b \<Longrightarrow> next_row C a (set_body b)"
  by (auto simp: next_row_def set_body_def wf_row_def advances_def same_final_def completeness_le_def)

lemma next_row_exec: "next_row C a b \<Longrightarrow> next_row C a (set_exec_final b)"
  by (auto simp: next_row_def set_exec_final_def wf_row_def advances_def same_final_def completeness_le_def)

lemma next_row_exec_candidate: "next_row C a b \<Longrightarrow> next_row C a (set_exec_candidate b)"
  by (auto simp: next_row_def set_exec_candidate_def wf_row_def advances_def same_final_def
      completeness_le_def)

lemma next_row_transfers: "next_row C a b \<Longrightarrow> next_row C a (set_transfers b)"
  by (auto simp: next_row_def set_transfers_def wf_row_def advances_def same_final_def completeness_le_def)

lemma next_row_ts: "next_row C a b \<Longrightarrow> next_row C a (b\<lparr>st_last_updated_ts_ms := t\<rparr>)"
  by (auto simp: next_row_def wf_row_def advances_def same_final_def)

lemma next_row_count: "next_row C a b \<Longrightarrow> next_row C a (b\<lparr>st_sc_event_count := n\<rparr>)"
  by (auto simp: next_row_def wf_row_def advances_def same_final_def)

lemma next_row_ops: "next_row C a b \<Longrightarrow> list_all (wf_op_id C) ids \<Longrightarrow>
    next_row C a (b\<lparr>st_executed_op_ids := ids\<rparr>)"
  by (auto simp: next_row_def wf_row_def advances_def same_final_def)

lemma next_row_with_ops: "next_row C a b \<Longrightarrow> list_all (wf_op_id C) ids \<Longrightarrow> next_row C a (with_ops ids b)"
  by (simp add: with_ops_def next_row_ops)

lemma next_row_candidate_status:
  "next_row C a b \<Longrightarrow> st_status b = SlotUnknown \<Longrightarrow> next_row C a (b\<lparr>st_status := SlotCandidate\<rparr>)"
  using advances_final [of a b]
  by (auto simp: next_row_def wf_row_def advances_def same_final_def)

lemma next_row_trail:
  "next_row C a b \<Longrightarrow> st_execution_trail_hash b = None \<Longrightarrow>
   next_row C a (b\<lparr>st_execution_trail_hash := t\<rparr>)"
  by (auto simp: next_row_def wf_row_def advances_def same_final_def)

lemmas next_row_steps = next_row_candidate next_row_body next_row_exec next_row_exec_candidate
  next_row_transfers next_row_ts next_row_count next_row_with_ops

lemma next_row_slot: "next_row C a b \<Longrightarrow> st_slot b = st_slot a"
  by (simp add: next_row_def advances_def)

text \<open>While the row is not FINAL the verdict is free.\<close>

lemma next_row_verdict:
  assumes "next_row C a b" "st_status a \<noteq> SlotFinal" "wf_opt (wf_block_id C) fin"
  shows "next_row C a (b\<lparr>st_status := SlotFinal, st_is_miss := m, st_final_block_id := fin,
    st_execution_trail_hash := t\<rparr>)"
  using assms by (simp add: next_row_def wf_row_def advances_def)

lemma block_parse_wf: "crates_ok C \<Longrightarrow> block_parse C t = Inr b \<Longrightarrow> wf_block_id C b"
  by (simp add: block_parse_def parse_gid_Inr)

lemma op_parse_wf: "crates_ok C \<Longrightarrow> op_parse C t = Inr i \<Longrightarrow> wf_op_id C i"
  by (simp add: op_parse_def parse_gid_Inr)

lemma op_ids_wf: "crates_ok C \<Longrightarrow> list_all (wf_op_id C) (op_ids_of C ts)"
  by (auto simp: op_ids_of_def list_all_iff List.map_filter_def op_parse_wf split: option.splits)

lemma peer_final_block_wf: "crates_ok C \<Longrightarrow> wf_opt (wf_block_id C) (peer_final_block C resp)"
  by (auto simp: wf_opt_def peer_final_block_def block_parse_wf split: option.splits if_splits)

lemma next_row_promote:
  assumes "crates_ok C" "wf_slot_state C st" "st_status st \<noteq> SlotFinal"
  shows "next_row C st (promote resp (peer_final_block C resp) trail st)"
proof -
  let ?pf = "if fr_is_miss resp then None else peer_final_block C resp"
  let ?fin = "case ?pf of None \<Rightarrow> st_final_block_id st | Some b \<Rightarrow> Some b"
  let ?t = "case trail of None \<Rightarrow> st_execution_trail_hash st | Some t \<Rightarrow> Some t"
  let ?b = "st\<lparr>st_status := SlotFinal, st_is_miss := fr_is_miss resp, st_final_block_id := ?fin,
    st_execution_trail_hash := ?t\<rparr>"
  have wf: "wf_block_id C b" if "?pf = Some b" for b
    using peer_final_block_wf [OF assms(1), of resp] that by (simp split: if_splits)
  then have "wf_opt (wf_block_id C) ?fin"
    using assms(2) by (auto simp: wf_slot_state_def split: option.splits)
  then have "next_row C st ?b"
    by (rule next_row_verdict [OF next_row_refl [OF assms(2)] assms(3)])
  then have "next_row C st (case ?pf of None \<Rightarrow> ?b | Some b \<Rightarrow> add_candidate b ?b)"
    using wf next_row_candidate [of C st ?b] by (cases ?pf) auto
  also have "(case ?pf of None \<Rightarrow> ?b | Some b \<Rightarrow> add_candidate b ?b) =
      promote resp (peer_final_block C resp) trail st"
    by (cases st; cases trail; cases "peer_final_block C resp"; cases "fr_is_miss resp") (simp_all add: promote_def Let_def)
  finally show ?thesis .
qed

lemma next_row_final_verdict:
  assumes "crates_ok C" "wf_slot_state C st" "st_status st \<noteq> SlotFinal"
  shows "next_row C st (final_verdict C exec (st\<lparr>st_status := SlotFinal, st_execution_trail_hash := t,
    st_sc_event_count := n\<rparr>))"
proof -
  let ?b = "Option.bind (xo_block_id exec) (\<lambda>t. res_ok (block_parse C t))"
  let ?fin = "case ?b of None \<Rightarrow> st_final_block_id st | Some bid \<Rightarrow> Some bid"
  have "wf_opt (wf_block_id C) ?fin"
    using assms(2) by (auto simp: wf_slot_state_def bind_eq_Some_conv block_parse_wf [OF assms(1)]
        split: option.splits)
  from next_row_exec [OF next_row_count [OF next_row_verdict [OF next_row_refl [OF assms(2)] assms(3) this]]]
  have "next_row C st (set_exec_final (st\<lparr>st_status := SlotFinal, st_is_miss := (xo_block_id exec = None),
      st_final_block_id := ?fin, st_execution_trail_hash := t, st_sc_event_count := n\<rparr>))" .
  also have "set_exec_final (st\<lparr>st_status := SlotFinal, st_is_miss := (xo_block_id exec = None),
      st_final_block_id := ?fin, st_execution_trail_hash := t, st_sc_event_count := n\<rparr>) =
    final_verdict C exec (st\<lparr>st_status := SlotFinal, st_execution_trail_hash := t, st_sc_event_count := n\<rparr>)"
    by (cases st; cases ?b) (simp_all add: final_verdict_def set_exec_final_def Let_def)
  finally show ?thesis .
qed

section \<open>Handlers\<close>

lemma inv_emit:
  "hoare (slots_inv W (world_rows R) sel F0) (emit E ev) (\<lambda>_. slots_inv W (world_rows R) sel F0)
     (slots_inv W (world_rows R) sel F0)"
  by (rule hoare_off) (rule touches_emit)

lemma inv_ret:
  "hoare (slots_inv W R sel F0) (ret x) (\<lambda>_. slots_inv W R sel F0) (slots_inv W R sel F0)"
  by (rule hoare_ret) simp

lemma inv_stub:
  "store_ok E R \<Longrightarrow> wires_ok E \<Longrightarrow>
   hoare (slots_inv E (world_rows R) sel F0) (on_db (ensure_parent_stub E sl now))
     (\<lambda>_. slots_inv E (world_rows R) sel F0) (slots_inv E (world_rows R) sel F0)"
  by (rule hoare_inv_on_db) (rule hoare_ensure_parent_stub)

lemma block_frame_wf:
  assumes "crates_ok C" "parse_block_frame C fb = Inr f"
  shows "wf_block_id C (bf_id f)"
  using assms by (auto simp: parse_block_frame_def rbind_eq_Inr block_parse_wf split: if_splits)

lemma next_row_seen:
  assumes "wf_slot_state C st" "wf_block_id C bid"
  shows "next_row C st (seen_block bid now st)"
proof -
  let ?b = "(set_body (add_candidate bid st))\<lparr>st_last_updated_ts_ms := now\<rparr>"
  have b: "next_row C st ?b"
    by (intro next_row_steps next_row_refl assms)
  show ?thesis
  proof (cases "st_status ?b = SlotUnknown")
    case True
    then show ?thesis
      using next_row_candidate_status [OF b True] by (simp add: seen_block_def Let_def)
  next
    case False
    then have "seen_block bid now st = ?b"
      by (simp add: seen_block_def Let_def)
    with b show ?thesis by simp
  qed
qed

text \<open>The rules that run a handler against the assertions.\<close>

lemma lift_then:
  "(\<And>x. r = Inr x \<Longrightarrow> hoare (slots_inv W R sel F0) (f x) S (slots_inv W R sel F0)) \<Longrightarrow>
   hoare (slots_inv W R sel F0) (bnd (lift r) f) S (slots_inv W R sel F0)"
  by (rule off_then [OF touches_lift gives_lift]) auto

lemma off_next:
  "off_slot R m \<Longrightarrow> (\<And>x. hoare (slots_inv W R sel F0) (f x) S (slots_inv W R sel F0)) \<Longrightarrow>
   hoare (slots_inv W R sel F0) (bnd m f) S (slots_inv W R sel F0)"
  by (erule off_then [OF _ gives_any])

lemma row_next:
  "off_slot R m \<Longrightarrow> (\<And>x. hoare (row_inv W R sel F0 sl st) (f x) S (slots_inv W R sel F0)) \<Longrightarrow>
   hoare (row_inv W R sel F0 sl st) (bnd m f) S (slots_inv W R sel F0)"
  by (erule row_then [OF _ gives_any])

lemma stub_then:
  assumes "store_ok E R" "wires_ok E"
    and "\<And>x. hoare (slots_inv E (world_rows R) sel F0) (f x) S (slots_inv E (world_rows R) sel F0)"
  shows "hoare (slots_inv E (world_rows R) sel F0) (bnd (on_db (ensure_parent_stub E sl now)) f) S
    (slots_inv E (world_rows R) sel F0)"
  by (rule inv_then [OF inv_stub [OF assms(1,2)] gives_any]) (rule assms(3))

lemma put_then:
  assumes "store_ok E R" "wires_ok E" "next_row E st b" "st_slot st = sl"
    and "hoare (slots_inv E (world_rows R) sel F0) (f ()) S (slots_inv E (world_rows R) sel F0)"
  shows "hoare (row_inv E (world_rows R) sel F0 sl st) (bnd (on_db (write_slot E b)) f) S
    (slots_inv E (world_rows R) sel F0)"
proof (rule write_then_world)
  show "wf_row E b" "st_slot b = sl" "advances st b"
    using assms(3,4) by (simp_all add: next_row_def advances_def)
qed (use assms in simp_all)

lemma hoare_handle_block:
  assumes "store_ok E R" "wires_ok E"
  shows "hoare (slots_inv E (world_rows R) sel F0) (handle_block E fb now)
    (\<lambda>_. slots_inv E (world_rows R) sel F0) (slots_inv E (world_rows R) sel F0)"
  unfolding handle_block_def Let_def
  apply (rule lift_then)
  subgoal premises p for f
  proof -
    have bid: "wf_block_id E (bf_id f)"
      by (rule block_frame_wf [OF wires_okD(1) [OF assms(2)] p])
    show ?thesis
      by (intro off_next [OF touches_on_db] off_next [OF touches_fold_each] load_then_world [OF assms]
          row_next put_then [OF assms] stub_then [OF assms] next_row_seen bid inv_emit
          touches_for_each touches_on_db touches_emit touches_rd touches_write_endorsement
          off_write_denunciations off_handle_block_op touches_write_block') 
        (simp_all add: assms)
  qed
  done

lemma gives_executed_ops:
  "crates_ok E \<Longrightarrow> gives (apply_executed_ops_changes E es f) (list_all (wf_op_id E))"
  unfolding apply_executed_ops_changes_def
  by (rule gives_fold_each)
    (auto simp: op_parse_wf split: sum.splits intro!: gives_ret gives_bnd [OF gives_any])

lemma gives_exec_ops:
  assumes "crates_ok E"
  shows "gives (apply_exec_ops E exec f st) (\<lambda>st'. \<exists>ids. list_all (wf_op_id E) ids \<and> st' = with_ops ids st)"
proof (cases "xo_state_changes exec")
  case None
  have "st = with_ops [] st"
    by (simp add: with_ops_def)
  then show ?thesis
    using None by (auto simp: apply_exec_ops_def intro!: gives_ret exI [of _ "[]"])
next
  case (Some sc)
  then show ?thesis
    by (auto simp: apply_exec_ops_def intro!: gives_ret gives_bnd [OF gives_executed_ops [OF assms]])
qed

lemma exec_ops_then:
  assumes "store_ok E R" "wires_ok E" "next_row E st st1"
    and "\<And>st2. next_row E st st2 \<Longrightarrow>
      hoare (row_inv E (world_rows R) sel F0 sl st) (f st2) S (slots_inv E (world_rows R) sel F0)"
  shows "hoare (row_inv E (world_rows R) sel F0 sl st) (bnd (on_db (apply_exec_ops E exec fin st1)) f) S
    (slots_inv E (world_rows R) sel F0)"
proof (rule row_then [where G = "\<lambda>st'. \<exists>ids. list_all (wf_op_id E) ids \<and> st' = with_ops ids st1"])
  show "off_slot (world_rows R) (on_db (apply_exec_ops E exec fin st1))"
    using assms(1) by (intro touches_on_db off_apply_exec_ops) simp
  show "gives (on_db (apply_exec_ops E exec fin st1)) (\<lambda>st'. \<exists>ids. list_all (wf_op_id E) ids \<and> st' = with_ops ids st1)"
    using wires_okD(1) [OF assms(2)] by (simp add: gives_on_db gives_exec_ops)
qed (auto intro: assms(4) next_row_with_ops [OF assms(3)])

lemma hoare_complete_final:
  assumes "store_ok E R" "wires_ok E" "wf_slot_state E st" "st_slot st = sl"
  shows "hoare (row_inv E (world_rows R) sel F0 sl st) (complete_final_exec_from_node E st exec now)
    (\<lambda>_. slots_inv E (world_rows R) sel F0) (slots_inv E (world_rows R) sel F0)"
proof -
  let ?st1 = "if st_execution_trail_hash st = None
    then st\<lparr>st_execution_trail_hash := frame_trail exec\<rparr> else st"
  have st1: "next_row E st ?st1"
    using next_row_trail [OF next_row_refl [OF assms(3)]] next_row_refl [OF assms(3)] by simp
  have st2: "next_row E st (set_exec_final (?st1\<lparr>st_sc_event_count := n\<rparr>))" for n
    by (intro next_row_exec next_row_count st1)
  show ?thesis
    unfolding complete_final_exec_from_node_def Let_def
    by (intro row_next [OF off_replace_events] exec_ops_then [OF assms(1,2) st2]
        row_next [OF touches_on_db] put_then [OF assms(1,2)] next_row_ts inv_emit
        off_apply_exec_async off_apply_finality) (simp_all add: assms)
qed

lemma hoare_apply_exec_frame:
  assumes "store_ok E R" "wires_ok E" "wf_slot_state E st" "st_slot st = sl" "st_status st \<noteq> SlotFinal"
  shows "hoare (row_inv E (world_rows R) sel F0 sl st) (apply_exec_frame E sl is_final exec now st)
    (\<lambda>_. slots_inv E (world_rows R) sel F0) (slots_inv E (world_rows R) sel F0)"
proof -
  let ?t = "case frame_trail exec of None \<Rightarrow> st_execution_trail_hash st | Some h \<Rightarrow> Some h"
  let ?st1 = "st\<lparr>st_status := (if is_final then SlotFinal else SlotCandidate), st_execution_trail_hash := ?t\<rparr>"
  let ?st3 = "\<lambda>n. if is_final then final_verdict E exec (?st1\<lparr>st_sc_event_count := n\<rparr>)
    else set_exec_candidate (?st1\<lparr>st_sc_event_count := n\<rparr>)"
  have st3: "next_row E st (?st3 n)" for n
  proof (cases is_final)
    case True
    then show ?thesis
      using next_row_final_verdict [OF wires_okD(1) [OF assms(2)] assms(3,5)] by simp
  next
    case False
    have "rank (st_status st) \<le> 1"
      using assms(5) by (cases "st_status st") simp_all
    then have "next_row E st ?st1"
      using assms(3,5) False by (simp add: next_row_def wf_row_def advances_def wf_slot_state_def)
    then have "next_row E st (set_exec_candidate (?st1\<lparr>st_sc_event_count := n\<rparr>))"
      by (intro next_row_exec_candidate next_row_count)
    with False show ?thesis by simp
  qed
  show ?thesis
    unfolding apply_exec_frame_def Let_def
    by (intro row_next [OF off_replace_events] exec_ops_then [OF assms(1,2) st3]
        row_next [OF touches_on_db] put_then [OF assms(1,2)] next_row_ts
        off_next [OF touches_if] inv_emit touches_if touches_bnd touches_ret touches_emit touches_bump
        off_apply_exec_async off_apply_finality touches_update_last_final_slot
        touches_update_last_candidate_slot)
      (auto simp: assms intro!: inv_then [OF inv_stub [OF assms(1,2)] gives_any] off_next
        touches_ret touches_bnd touches_emit touches_bump inv_emit touches_on_db touches_update_last_final_slot
        touches_update_last_candidate_slot off_apply_finality off_apply_exec_async)
qed

lemma hoare_handle_exec:
  assumes "store_ok E R" "wires_ok E"
  shows "hoare (slots_inv E (world_rows R) sel F0) (handle_exec E outer now)
    (\<lambda>_. slots_inv E (world_rows R) sel F0) (slots_inv E (world_rows R) sel F0)"
  unfolding handle_exec_def Let_def
  by (intro lift_then hoare_if load_then_world [OF assms] inv_ret row_done [OF inv_ret]
      hoare_complete_final [OF assms] hoare_apply_exec_frame [OF assms])

lemma rd_on_db: "rd f = on_db (readm f)"
  by (rule ext) (simp add: rd_def on_db_def readm_def)

text \<open>Reading a row, and going on with the row or without one.\<close>

lemma read_then:
  assumes "store_ok E R" "wires_ok E"
    and "\<And>st. st_slot st = sl \<Longrightarrow> wf_slot_state E st \<Longrightarrow>
      hoare (row_inv E (world_rows R) sel F0 sl st) (f (Some st)) S (slots_inv E (world_rows R) sel F0)"
    and "hoare (row_inv E (world_rows R) sel F0 sl (fresh sl now)) (f None) S
      (slots_inv E (world_rows R) sel F0)"
  shows "hoare (slots_inv E (world_rows R) sel F0)
    (bnd (rd (\<lambda>s. read_slot E s (sl_period sl) (sl_thread sl))) f) S (slots_inv E (world_rows R) sel F0)"
proof (rule hoare_bnd)
  let ?I = "slots_inv E (world_rows R) sel F0"
  show "hoare ?I (rd (\<lambda>s. read_slot E s (sl_period sl) (sl_thread sl)))
      (\<lambda>r w. ?I w \<and> r = slot_at E (table R (w_db w) CF_SLOT) sl) ?I"
    unfolding rd_on_db
    by (rule hoare_weaken [OF hoare_on_db [OF hoare_read_slot [OF assms(1), of sel F0 sl]]]) simp_all
  show "hoare (\<lambda>w. ?I w \<and> r = slot_at E (table R (w_db w) CF_SLOT) sl) (f r) S ?I" for r
  proof (cases r)
    case None
    show ?thesis
      unfolding None
      by (rule hoare_weaken [OF assms(4)])
        (auto simp: row_inv_def holds_row_def fresh_def wf_slot_state_def)
  next
    case (Some st)
    show ?thesis
    proof (rule hoare_pre [where A = "st_slot st = sl \<and> wf_slot_state E st"])
      show "st_slot st = sl \<and> wf_slot_state E st"
        if "?I w \<and> r = slot_at E (table R (w_db w) CF_SLOT) sl" for w
        using that Some slot_at_slot slot_at_wf [OF assms(2)]
        by (metis kept_def slots_inv_def table_world)
      assume st: "st_slot st = sl \<and> wf_slot_state E st"
      then show "hoare (\<lambda>w. ?I w \<and> r = slot_at E (table R (w_db w) CF_SLOT) sl) (f r) S ?I"
        unfolding Some
        by (intro hoare_weaken [OF assms(3)]) (auto simp: row_inv_def holds_row_def)
    qed
  qed
qed

lemma hoare_mark_transfers:
  assumes "store_ok E R" "wires_ok E"
  shows "hoare (slots_inv E (world_rows R) sel F0) (mark_transfers E sl now)
    (\<lambda>_. slots_inv E (world_rows R) sel F0) (slots_inv E (world_rows R) sel F0)"
  unfolding mark_transfers_def Let_def
  by (rule read_then [OF assms, where now = now])
    (auto intro!: hoare_if row_done [OF inv_ret] put_then [OF assms] next_row_ts next_row_transfers
      next_row_refl inv_emit simp: fresh_def wf_slot_state_def)

lemma hoare_handle_transfers:
  assumes "store_ok E R" "wires_ok E"
  shows "hoare (slots_inv E (world_rows R) sel F0) (handle_transfers E resp now)
    (\<lambda>_. slots_inv E (world_rows R) sel F0) (slots_inv E (world_rows R) sel F0)"
  unfolding handle_transfers_def Let_def
  by (intro lift_then off_next [OF touches_on_db] hoare_mark_transfers [OF assms]
      touches_clear_transfers touches_for_each touches_write_transfer touches_reconcile_async
      touches_reconcile_deferred) (simp_all add: assms)

section \<open>Patches\<close>

lemma put_then_db:
  assumes "store_ok E R" "wires_ok E" "next_row E st b" "st_slot st = sl"
    and "hoare (slots_inv E R sel F0) (f ()) S (slots_inv E R sel F0)"
  shows "hoare (row_inv E R sel F0 sl st) (bnd (write_slot E b) f) S (slots_inv E R sel F0)"
proof (rule write_then)
  show "wf_row E b" "st_slot b = sl" "advances st b"
    using assms(3,4) by (simp_all add: next_row_def advances_def)
qed (use assms in simp_all)

lemma stub_then_db:
  assumes "store_ok E R" "wires_ok E"
    and "\<And>x. hoare (slots_inv E R sel F0) (f x) S (slots_inv E R sel F0)"
  shows "hoare (slots_inv E R sel F0) (bnd (ensure_parent_stub E sl now) f) S (slots_inv E R sel F0)"
  by (rule inv_then [OF hoare_ensure_parent_stub [OF assms(1,2)] gives_any]) (rule assms(3))

lemma peer_block_wf: "block_from_peer_pb C m = Inr b \<Longrightarrow> wf_block_id C (bk_id b)"
  by (auto simp: block_from_peer_pb_def rbind_eq_Inr intro: decode_wf)

lemma gives_block_part:
  "gives (apply_block_part E resp now) (\<lambda>r. \<forall>b. r = Some b \<longrightarrow> wf_block_id E (bk_id b))"
  unfolding apply_block_part_def
  by (auto split: option.splits simp: bind_eq_Some_conv intro!: gives_ret gives_bnd [OF gives_any]
      intro: peer_block_wf)

lemma gives_legacy_block:
  assumes "next_row E st st1"
  shows "gives (legacy_block_step E resp now st1) (\<lambda>(st2, b). next_row E st st2)"
proof -
  have part: "gives (bnd (apply_block_part E resp now) (\<lambda>r. case r of None \<Rightarrow> ret (st1, False)
      | Some block \<Rightarrow> ret (set_body (add_candidate (bk_id block) st1), True))) (\<lambda>(st2, b). next_row E st st2)"
    by (rule gives_bnd [OF gives_block_part])
      (auto split: option.splits intro!: gives_ret next_row_body next_row_candidate assms)
  show ?thesis
    unfolding legacy_block_step_def
    by (rule gives_bnd [where F = "\<lambda>(st2, b). next_row E st st2"])
      (use part assms in \<open>auto intro!: gives_ret next_row_body\<close>)
qed

lemma off_legacy_block: "store_ok E R \<Longrightarrow> off_slot R (legacy_block_step E resp now st)"
  unfolding legacy_block_step_def
  by (intro touches_bnd touches_if touches_ret) 
    (auto split: prod.splits option.splits intro: touches_ret off_apply_block_part)

lemma hoare_apply_legacy_db:
  assumes "store_ok E R" "wires_ok E"
  shows "hoare (slots_inv E R sel F0) (apply_legacy_db E resp sl now)
    (\<lambda>_. slots_inv E R sel F0) (slots_inv E R sel F0)"
  unfolding apply_legacy_db_def Let_def
proof (rule load_then [OF assms], goal_cases)
  case (1 st)
  note crates = wires_okD(1) [OF assms(2)]
  let ?st1 = "if st_status st \<noteq> SlotFinal then promote resp (peer_final_block E resp) None st else st"
  let ?ops = "\<lambda>st2. if st_executed_op_ids st2 = [] \<and> fr_executed_op_ids resp \<noteq> []
    then st2\<lparr>st_executed_op_ids := op_ids_of E (fr_executed_op_ids resp)\<rparr> else st2"
  have st1: "next_row E st ?st1"
    using next_row_promote [OF crates 1(2)] next_row_refl [OF 1(2)] by simp
  have ops: "next_row E st (?ops st2)" if "next_row E st st2" for st2
    using next_row_ops [OF that op_ids_wf [OF crates]] that by simp
  show ?case
    apply (rule row_next)
    subgoal
      using assms(1) by (intro touches_if off_advance_last_final touches_ret)
    apply (rule row_then [OF off_legacy_block [OF assms(1)] gives_legacy_block [OF st1]])
    apply (simp only: split_paired_all prod.case)
    apply (intro row_next [OF touches_for_each] row_next [OF touches_if] put_then_db [OF assms _ 1(1)]
        stub_then_db [OF assms] next_row_ts ops inv_ret touches_write_transfer off_apply_finality
        touches_ret)
    by (simp_all add: assms(1))
qed

lemma on_db_then:
  "hoare (slots_inv W R sel F0) m (\<lambda>_. slots_inv W R sel F0) (slots_inv W R sel F0) \<Longrightarrow>
   (\<And>x. hoare (slots_inv W (world_rows R) sel F0) (f x) S (slots_inv W (world_rows R) sel F0)) \<Longrightarrow>
   hoare (slots_inv W (world_rows R) sel F0) (bnd (on_db m) f) S (slots_inv W (world_rows R) sel F0)"
  by (rule inv_then [OF hoare_inv_on_db gives_any])

lemma hoare_apply_legacy_patch:
  assumes "store_ok E R" "wires_ok E"
  shows "hoare (slots_inv E (world_rows R) sel F0) (apply_legacy_patch E resp now)
    (\<lambda>_. slots_inv E (world_rows R) sel F0) (slots_inv E (world_rows R) sel F0)"
  unfolding apply_legacy_patch_def
  by (intro hoare_option hoare_if inv_ret on_db_then hoare_apply_legacy_db [OF assms])
    (auto split: prod.splits intro!: off_next touches_emit inv_ret)

end
