(* ===== verification/Slot_Peer.thy ===== *)
theory Slot_Peer
  imports Slot_Handlers
begin

text \<open>
  Peer patches and forced verdicts against the slot table.  Every row advances, except the row of
  the patched slot when the arbiter adopts the peer's verdict (\<open>adopts\<close>) or the operator forces
  one.
\<close>

section \<open>Steps that may replace the verdict\<close>

text \<open>\<open>g\<close> says that the row must only advance.\<close>

definition step_row :: "'x crates_scheme \<Rightarrow> bool \<Rightarrow> slot_state \<Rightarrow> slot_state \<Rightarrow> bool" where
  "step_row C g a b \<longleftrightarrow> wf_row C b \<and> st_slot b = st_slot a \<and> (g \<longrightarrow> advances a b)"

lemma step_row_next: "next_row C a b \<Longrightarrow> step_row C g a b"
  by (simp add: step_row_def next_row_def advances_def)

lemma step_row_trans: "step_row C g a b \<Longrightarrow> next_row C b c \<Longrightarrow> step_row C g a c"
  using next_row_slot [of C b c] by (auto simp: step_row_def next_row_def dest: advances_trans)

lemma next_row_id: "step_row C g a b \<Longrightarrow> next_row C b b"
  by (simp add: step_row_def next_row_def)

lemma step_candidate: "step_row C g a b \<Longrightarrow> wf_block_id C bid \<Longrightarrow> step_row C g a (add_candidate bid b)"
  by (rule step_row_trans, assumption, rule next_row_candidate, erule next_row_id)

lemma step_body: "step_row C g a b \<Longrightarrow> step_row C g a (set_body b)"
  by (rule step_row_trans, assumption, rule next_row_body, erule next_row_id)

lemma step_transfers: "step_row C g a b \<Longrightarrow> step_row C g a (set_transfers b)"
  by (rule step_row_trans, assumption, rule next_row_transfers, erule next_row_id)

lemma step_ts: "step_row C g a b \<Longrightarrow> step_row C g a (b\<lparr>st_last_updated_ts_ms := t\<rparr>)"
  by (rule step_row_trans, assumption, rule next_row_ts, erule next_row_id)

lemma step_exec_settled:
  assumes "crates_ok C" "step_row C g a b"
  shows "step_row C g a (exec_settled C resp b)"
proof (rule step_row_trans [OF assms(2)])
  have ids: "list_all (wf_op_id C) (if st_executed_op_ids b = [] then op_ids_of C (fr_executed_op_ids resp)
      else st_executed_op_ids b)"
    using assms(2) op_ids_wf [OF assms(1)] by (simp add: step_row_def wf_row_def)
  show "next_row C b (exec_settled C resp b)"
    using next_row_exec [OF next_row_count [OF next_row_ops [OF next_row_id [OF assms(2)] ids]]]
    by (simp add: exec_settled_def)
qed

lemma step_adopt:
  assumes "crates_ok C" "wf_slot_state C st"
  shows "step_row C False st (adopt_state resp (peer_final_block C resp) trail st)"
  using peer_final_block_wf [OF assms(1), of resp] assms(2)
  by (auto simp: adopt_state_def step_row_def wf_row_def wf_slot_state_def Let_def add_candidate_def
      split: option.splits)

section \<open>The verdict step\<close>

text \<open>The arbiter adopts the peer's verdict on this row, in this store.\<close>

definition adopts_from ::
  "('s, 'v, 'x) ext_scheme \<Rightarrow> final_slot_response \<Rightarrow> slot \<Rightarrow> slot_state \<Rightarrow> 's \<Rightarrow> bool" where
  "adopts_from E resp sl st s \<longleftrightarrow>
     st_status st = SlotFinal \<and>
     (\<exists>lv pv. of_local st = Some lv \<and> of_peer resp (peer_final_block E resp) = Some pv \<and> lv \<noteq> pv \<and>
        arbitrate_verdicts E s sl lv pv
          (Option.bind (fr_block resp) (\<lambda>m. res_ok (block_from_peer_pb E m))) = Inr AdoptPeer)"

definition flow_inv ::
  "('s, 'v, 'x) ext_scheme \<Rightarrow> ('s, 'v) rows \<Rightarrow> (slot \<Rightarrow> bool) \<Rightarrow> 'v slot_table \<Rightarrow> slot \<Rightarrow> slot_state \<Rightarrow>
   (patch_outcome, slot_state \<times> patch_outcome) flow \<Rightarrow> 's \<Rightarrow> bool" where
  "flow_inv E R sel F0 sl st f s \<longleftrightarrow>
     (case f of
        Return out \<Rightarrow> slots_inv E R sel F0 s
      | Continue x \<Rightarrow> row_inv E R sel F0 sl st s \<and> step_row E (sel sl) st (fst x))"

lemma hoare_keep_local:
  assumes "store_ok E R" "wires_ok E" "wf_slot_state E st" "st_slot st = sl"
  shows "hoare (row_inv E R sel F0 sl st) (keep_local E st now out) (flow_inv E R sel F0 sl st)
    (slots_inv E R sel F0)"
  unfolding keep_local_def
  by (rule put_then_db [OF assms(1,2) next_row_ts [OF next_row_refl [OF assms(3)]] assms(4)])
    (simp add: hoare_ret flow_inv_def)

lemma hoare_same_verdict:
  assumes "store_ok E R" "wires_ok E" "wf_slot_state E st" "st_slot st = sl"
  shows "hoare (row_inv E R sel F0 sl st) (same_verdict E st resp now) (flow_inv E R sel F0 sl st)
    (slots_inv E R sel F0)"
  unfolding same_verdict_def
  by (intro hoare_if hoare_keep_local [OF assms] hoare_ret)
    (auto simp: flow_inv_def intro!: step_row_next next_row_trail next_row_refl assms(3))

lemma hoare_reconcile_verdict:
  assumes "store_ok E R" "wires_ok E" "wf_slot_state E st" "st_slot st = sl"
    and adopt: "sel sl \<Longrightarrow> \<not> adopts_from E resp sl st s0"
  shows "hoare (\<lambda>s. row_inv E R sel F0 sl st s \<and> s = s0) (reconcile_verdict E resp sl now st)
    (flow_inv E R sel F0 sl st) (slots_inv E R sel F0)"
proof (cases "st_status st = SlotFinal")
  case False
  have "step_row E (sel sl) st (promote resp (peer_final_block E resp) (peer_trail resp) st)"
    by (rule step_row_next) (rule next_row_promote [OF wires_okD(1) [OF assms(2)] assms(3) False])
  with False show ?thesis
    by (auto simp: reconcile_verdict_def flow_inv_def intro!: hoare_ret)
next
  case True
  note same = hoare_same_verdict [OF assms(1-4), of sel F0 resp now]
  show ?thesis
  proof (cases "\<exists>lv pv. of_local st = Some lv \<and> of_peer resp (peer_final_block E resp) = Some pv \<and> lv \<noteq> pv")
    case False
    then have "reconcile_verdict E resp sl now st = same_verdict E st resp now"
      using True by (auto simp: reconcile_verdict_def split: option.splits)
    with same show ?thesis
      by (auto elim: hoare_weaken)
  next
    case (True)
    then obtain lv pv where v: "of_local st = Some lv" "of_peer resp (peer_final_block E resp) = Some pv" "lv \<noteq> pv"
      by blast
    let ?arb = "\<lambda>s. arbitrate_verdicts E s sl lv pv
      (Option.bind (fr_block resp) (\<lambda>m. res_ok (block_from_peer_pb E m)))"
    have run: "reconcile_verdict E resp sl now st = bnd (readm ?arb) (\<lambda>a.
        if a = AdoptPeer
        then bnd (adopt_peer_verdict E st resp (peer_final_block E resp) (peer_trail resp)) (\<lambda>st1.
               ret (Continue (st1, outcome_default\<lparr>divergence_repaired := True\<rparr>)))
        else keep_local E st now
               (outcome_default\<lparr>divergence_kept_local := True,
                                trail_mismatch := trails_differ st (peer_trail resp)\<rparr>))"
      using v \<open>st_status st = SlotFinal\<close> by (simp add: reconcile_verdict_def)
    have adopt': "hoare (row_inv E R sel F0 sl st)
        (bnd (adopt_peer_verdict E st resp (peer_final_block E resp) (peer_trail resp)) (\<lambda>st1.
           ret (Continue (st1, outcome_default\<lparr>divergence_repaired := True\<rparr>))))
        (flow_inv E R sel F0 sl st) (slots_inv E R sel F0)" if "\<not> sel sl"
    proof (rule row_then [where G = "\<lambda>st1. step_row E False st st1"])
      show "off_slot R (adopt_peer_verdict E st resp (peer_final_block E resp) (peer_trail resp))"
        by (rule off_adopt_peer_verdict [OF assms(1)])
      show "gives (adopt_peer_verdict E st resp (peer_final_block E resp) (peer_trail resp)) (step_row E False st)"
        unfolding adopt_peer_verdict_def
        by (intro gives_bnd [OF gives_any] gives_ret step_adopt wires_okD(1) assms(2,3))
    qed (use that in \<open>auto simp: hoare_ret flow_inv_def\<close>)
    show ?thesis
      unfolding run
    proof (rule hoare_bnd)
      show "hoare (\<lambda>s. row_inv E R sel F0 sl st s \<and> s = s0) (readm ?arb)
          (\<lambda>a s. row_inv E R sel F0 sl st s \<and> ?arb s0 = Inr a) (slots_inv E R sel F0)"
        by (rule hoare_readm) (auto simp: row_inv_def)
      show "hoare (\<lambda>s. row_inv E R sel F0 sl st s \<and> ?arb s0 = Inr a)
          (if a = AdoptPeer
           then bnd (adopt_peer_verdict E st resp (peer_final_block E resp) (peer_trail resp)) (\<lambda>st1.
                  ret (Continue (st1, outcome_default\<lparr>divergence_repaired := True\<rparr>)))
           else keep_local E st now
                  (outcome_default\<lparr>divergence_kept_local := True,
                                   trail_mismatch := trails_differ st (peer_trail resp)\<rparr>))
          (flow_inv E R sel F0 sl st) (slots_inv E R sel F0)" for a
      proof (cases "a = AdoptPeer")
        case True
        show ?thesis
        proof (rule hoare_pre [where A = "\<not> sel sl"])
          show "\<not> sel sl" if "row_inv E R sel F0 sl st s \<and> ?arb s0 = Inr a" for s
            using that adopt v True \<open>st_status st = SlotFinal\<close> unfolding adopts_from_def by blast
        qed (use True adopt' in \<open>auto elim!: hoare_weaken\<close>)
      next
        case False
        then show ?thesis
          by (auto intro!: hoare_weaken [OF hoare_keep_local [OF assms(1-4)]])
      qed
    qed
  qed
qed

section \<open>The parts\<close>

lemma step_row_put:
  assumes "store_ok E R" "wires_ok E" "step_row E (sel sl) st b" "st_slot st = sl"
    and "hoare (slots_inv E R sel F0) (f ()) S (slots_inv E R sel F0)"
  shows "hoare (row_inv E R sel F0 sl st) (bnd (write_slot E b) f) S (slots_inv E R sel F0)"
  by (rule write_then [OF assms(1,2)]) (use assms in \<open>auto simp: step_row_def\<close>)

lemma gives_peer_block:
  assumes "step_row E g a st"
  shows "gives (peer_block_step E resp now (st, out)) (\<lambda>(st', _). step_row E g a st')"
proof -
  have part: "gives (bnd (apply_block_part E resp now) (\<lambda>r. case r of None \<Rightarrow> ret (st, out)
      | Some block \<Rightarrow>
          (let st1 = add_candidate (bk_id block) st in
           if block_body_stored (st_completeness st1) then ret (st1, out)
           else ret (set_body st1, out\<lparr>block_applied := True\<rparr>)))) (\<lambda>(st', _). step_row E g a st')"
    by (rule gives_bnd [OF gives_block_part])
      (auto simp: Let_def split: option.splits intro!: gives_ret step_body step_candidate assms)
  show ?thesis
    unfolding peer_block_step_def prod.case
    by (rule gives_bnd [where F = "\<lambda>(st', _). step_row E g a st'"])
      (use part assms in \<open>auto intro!: gives_ret step_body\<close>)
qed

lemma gives_peer_exec:
  assumes "crates_ok E" "step_row E g a st"
  shows "gives (peer_exec_step E resp (st, out)) (\<lambda>(st', _). step_row E g a st')"
  unfolding peer_exec_step_def
  by (auto intro!: gives_bnd [OF gives_any] gives_ret step_exec_settled assms)

lemma gives_peer_transfers:
  assumes "step_row E g a st"
  shows "gives (peer_transfers_step E resp now (st, out)) (\<lambda>(st', _). step_row E g a st')"
  unfolding peer_transfers_step_def
  by (auto intro!: gives_bnd [OF gives_any] gives_ret step_transfers assms)

lemma off_peer_block: "store_ok E R \<Longrightarrow> off_slot R (peer_block_step E resp now x)"
  unfolding peer_block_step_def split_beta
  by (intro touches_bnd touches_if touches_ret)
    (auto simp: Let_def split: option.splits intro: touches_ret off_apply_block_part)

lemma off_peer_exec: "store_ok E R \<Longrightarrow> off_slot R (peer_exec_step E resp x)"
  unfolding peer_exec_step_def split_beta
  by (intro touches_if touches_bnd touches_ret off_apply_exec_part)

lemma off_peer_transfers: "store_ok E R \<Longrightarrow> off_slot R (peer_transfers_step E resp now x)"
  unfolding peer_transfers_step_def split_beta
  by (intro touches_if touches_bnd touches_ret off_apply_transfers_part)

lemma hoare_settle_parts:
  assumes "store_ok E R" "wires_ok E" "st_slot st = sl" "step_row E (sel sl) st (fst x0)"
  shows "hoare (row_inv E R sel F0 sl st) (settle_parts E resp sl now x0)
    (\<lambda>_. slots_inv E R sel F0) (slots_inv E R sel F0)"
proof -
  note crates = wires_okD(1) [OF assms(2)]
  obtain st0 out0 where x0: "x0 = (st0, out0)"
    by (cases x0)
  have st0: "step_row E (sel sl) st st0"
    using assms(4) x0 by simp
  show ?thesis
    unfolding settle_parts_def Let_def x0
    apply (rule row_next)
    subgoal
      using assms(1) by (intro touches_if off_advance_last_final touches_ret)
    apply (rule row_then [OF off_peer_block [OF assms(1)] gives_peer_block [OF st0]])
    apply (simp only: split_paired_all prod.case)
    apply (rule row_then [OF off_peer_exec [OF assms(1)] gives_peer_exec [OF crates]], assumption)
    apply (simp only: split_paired_all prod.case)
    apply (rule row_then [OF off_peer_transfers [OF assms(1)] gives_peer_transfers], assumption)
    apply (simp only: split_paired_all prod.case)
    apply (rule row_next [OF off_apply_finality [OF assms(1)]])
    apply (rule step_row_put [OF assms(1,2) step_ts assms(3)], assumption)
    apply (rule stub_then_db [OF assms(1,2)])
    apply (rule inv_ret)
    done
qed

section \<open>Peer patches and forced verdicts\<close>

text \<open>The patched slot, and whether the arbiter adopts the peer on its row in this store.\<close>

definition patch_slot :: "final_slot_response \<Rightarrow> slot option" where
  "patch_slot resp = map_option (Slot (fr_period resp)) (u8_try_from (fr_thread resp))"

definition adopts ::
  "('s, 'v, 'x) ext_scheme \<Rightarrow> ('s, 'v) rows \<Rightarrow> final_slot_response \<Rightarrow> 's \<Rightarrow> bool" where
  "adopts E R resp s \<longleftrightarrow>
     (\<exists>sl st. patch_slot resp = Some sl \<and> slot_at E (table R s CF_SLOT) sl = Some st \<and>
        adopts_from E resp sl st s)"

text \<open>The slots a peer patch must not take back.\<close>

definition peer_sel ::
  "('s, 'v, 'x) ext_scheme \<Rightarrow> ('s, 'v) rows \<Rightarrow> final_slot_response \<Rightarrow> 's \<Rightarrow> slot \<Rightarrow> bool" where
  "peer_sel E R resp s sl \<longleftrightarrow> \<not> (patch_slot resp = Some sl \<and> adopts E R resp s)"

lemma hoare_load_unchanged:
  assumes "store_ok E R" "wires_ok E"
  shows "hoare (\<lambda>s. slots_inv E R sel F0 s \<and> s = s0) (load_slot E sl now)
    (\<lambda>st s. row_inv E R sel F0 sl st s \<and> s = s0 \<and>
       (st_status st = SlotFinal \<longrightarrow> slot_at E (table R s0 CF_SLOT) sl = Some st))
    (slots_inv E R sel F0)"
  unfolding load_slot_def
proof (rule hoare_bnd)
  show "hoare (\<lambda>s. slots_inv E R sel F0 s \<and> s = s0)
      (readm (\<lambda>s. read_slot E s (sl_period sl) (sl_thread sl)))
      (\<lambda>r s. slots_inv E R sel F0 s \<and> s = s0 \<and> r = slot_at E (table R s CF_SLOT) sl)
      (slots_inv E R sel F0)"
    by (rule hoare_readm) (auto simp: slots_inv_def kept_def intro: read_slot_at [OF assms(1)])
  show "hoare (\<lambda>s. slots_inv E R sel F0 s \<and> s = s0 \<and> r = slot_at E (table R s CF_SLOT) sl)
      (ret (unwrap_or (fresh sl now) r))
      (\<lambda>st s. row_inv E R sel F0 sl st s \<and> s = s0 \<and>
         (st_status st = SlotFinal \<longrightarrow> slot_at E (table R s0 CF_SLOT) sl = Some st))
      (slots_inv E R sel F0)" for r
  proof (rule hoare_ret, intro conjI impI)
    fix s assume s: "slots_inv E R sel F0 s \<and> s = s0 \<and> r = slot_at E (table R s CF_SLOT) sl"
    then show "row_inv E R sel F0 sl (unwrap_or (fresh sl now) r) s"
      by (auto simp: row_inv_def slots_inv_def kept_def intro: holds_row_loaded [OF assms(2)])
    show "s = s0"
      using s by simp
    assume "st_status (unwrap_or (fresh sl now) r) = SlotFinal"
    with s show "slot_at E (table R s0 CF_SLOT) sl = Some (unwrap_or (fresh sl now) r)"
      by (cases "slot_at E (table R s0 CF_SLOT) sl") (auto simp: fresh_def)
  qed
qed

lemma hoare_verdict_step:
  assumes "store_ok E R" "wires_ok E" "patch_slot resp = Some sl" "sel = peer_sel E R resp s0"
  shows "hoare (\<lambda>s. row_inv E R sel F0 sl st s \<and> s = s0 \<and>
       (st_status st = SlotFinal \<longrightarrow> slot_at E (table R s0 CF_SLOT) sl = Some st))
     (reconcile_verdict E resp sl now st)
     (\<lambda>f s. flow_inv E R sel F0 sl st f s \<and> st_slot st = sl) (slots_inv E R sel F0)"
proof (rule hoare_pre [where A = "wf_slot_state E st \<and> st_slot st = sl \<and> (sel sl \<longrightarrow> \<not> adopts_from E resp sl st s0)"])
  show "wf_slot_state E st \<and> st_slot st = sl \<and> (sel sl \<longrightarrow> \<not> adopts_from E resp sl st s0)"
    if "row_inv E R sel F0 sl st s \<and> s = s0 \<and>
       (st_status st = SlotFinal \<longrightarrow> slot_at E (table R s0 CF_SLOT) sl = Some st)" for s
    using that assms(3,4)
    by (auto simp: row_inv_def holds_row_def peer_sel_def adopts_def adopts_from_def)
  assume A: "wf_slot_state E st \<and> st_slot st = sl \<and> (sel sl \<longrightarrow> \<not> adopts_from E resp sl st s0)"
  show "hoare (\<lambda>s. row_inv E R sel F0 sl st s \<and> s = s0 \<and>
       (st_status st = SlotFinal \<longrightarrow> slot_at E (table R s0 CF_SLOT) sl = Some st))
     (reconcile_verdict E resp sl now st)
     (\<lambda>f s. flow_inv E R sel F0 sl st f s \<and> st_slot st = sl) (slots_inv E R sel F0)"
    by (rule hoare_weaken [OF hoare_reconcile_verdict [OF assms(1,2)]]) (use A in auto)
qed

lemma hoare_apply_peer_patch:
  assumes "store_ok E R" "wires_ok E" "sel = peer_sel E R resp s0"
  shows "hoare (\<lambda>w. slots_inv E (world_rows R) sel F0 w \<and> w_db w = s0) (apply_peer_patch E resp now)
    (\<lambda>_. slots_inv E (world_rows R) sel F0) (slots_inv E (world_rows R) sel F0)"
proof (cases "u8_try_from (fr_thread resp)")
  case None
  then show ?thesis
    by (auto simp: apply_peer_patch_def intro!: hoare_ret)
next
  case (Some thread)
  let ?sl = "Slot (fr_period resp) thread" and ?I = "slots_inv E (world_rows R) sel F0"
  let ?L = "\<lambda>st w. row_inv E R sel F0 ?sl st (w_db w) \<and> w_db w = s0 \<and>
       (st_status st = SlotFinal \<longrightarrow> slot_at E (table R s0 CF_SLOT) ?sl = Some st)"
  let ?V = "\<lambda>st f w. flow_inv E R sel F0 ?sl st f (w_db w) \<and> st_slot st = ?sl"
  have sl: "patch_slot resp = Some ?sl"
    by (simp add: patch_slot_def Some)
  have load: "hoare (\<lambda>w. ?I w \<and> w_db w = s0) (on_db (load_slot E ?sl now)) ?L ?I"
    using hoare_on_db [OF hoare_load_unchanged [OF assms(1,2), of sel F0 s0 ?sl now]]
    by (simp add: slots_inv_world [abs_def])
  have verdict: "hoare (?L st) (on_db (reconcile_verdict E resp ?sl now st)) (?V st) ?I" for st
    using hoare_on_db [OF hoare_verdict_step [OF assms(1,2) sl assms(3), of F0 st now]]
    by (simp add: slots_inv_world [abs_def])
  have rest: "hoare (?V st f) (case f of Return out \<Rightarrow> ret out
      | Continue x0 \<Rightarrow> bnd (on_db (settle_parts E resp ?sl now x0)) (\<lambda>(st, out).
                  bnd (for_each (peer_events st out) (emit E)) (\<lambda>_. ret out))) (\<lambda>_. ?I) ?I" for st f
  proof (cases f)
    case (Return out)
    then show ?thesis
      by (auto simp: flow_inv_def intro!: hoare_ret)
  next
    case (Continue x0)
    show ?thesis
    proof (rule hoare_pre [where A = "step_row E (sel ?sl) st (fst x0) \<and> st_slot st = ?sl"])
      assume A: "step_row E (sel ?sl) st (fst x0) \<and> st_slot st = ?sl"
      have "hoare (\<lambda>w. row_inv E R sel F0 ?sl st (w_db w)) (on_db (settle_parts E resp ?sl now x0)) (\<lambda>_. ?I) ?I"
        using hoare_on_db [OF hoare_settle_parts [OF assms(1,2), of st ?sl sel x0 F0 resp now]] A
        by (simp add: slots_inv_world [abs_def])
      then have "hoare (\<lambda>w. row_inv E R sel F0 ?sl st (w_db w))
          (bnd (on_db (settle_parts E resp ?sl now x0)) (\<lambda>(st, out).
             bnd (for_each (peer_events st out) (emit E)) (\<lambda>_. ret out))) (\<lambda>_. ?I) ?I"
        by (rule hoare_bnd)
          (auto split: prod.splits intro!: off_next touches_for_each touches_emit inv_ret)
      then show ?thesis
        unfolding Continue flow.case by (rule hoare_weaken) (auto simp: flow_inv_def)
    qed (auto simp: flow_inv_def Continue)
  qed
  have "hoare (\<lambda>w. ?I w \<and> w_db w = s0)
      (bnd (on_db (load_slot E ?sl now)) (\<lambda>st0. bnd (on_db (reconcile_verdict E resp ?sl now st0)) (\<lambda>f.
         case f of Return out \<Rightarrow> ret out
         | Continue x0 \<Rightarrow> bnd (on_db (settle_parts E resp ?sl now x0)) (\<lambda>(st, out).
                  bnd (for_each (peer_events st out) (emit E)) (\<lambda>_. ret out))))) (\<lambda>_. ?I) ?I"
    by (rule hoare_bnd [OF load], rule hoare_bnd [OF verdict], rule rest)
  then show ?thesis
    by (auto simp: apply_peer_patch_def Some Let_def intro!: hoare_ret)
qed

lemma hoare_apply_forced_verdict:
  assumes "store_ok E R" "wires_ok E" "sel = (\<lambda>sl. patch_slot resp \<noteq> Some sl)"
  shows "hoare (slots_inv E (world_rows R) sel F0) (apply_forced_verdict E resp now)
    (\<lambda>_. slots_inv E (world_rows R) sel F0) (slots_inv E (world_rows R) sel F0)"
proof (cases "u8_try_from (fr_thread resp)")
  case None
  then show ?thesis
    by (auto simp: apply_forced_verdict_def intro!: hoare_ret)
next
  case (Some thread)
  let ?sl = "Slot (fr_period resp) thread" and ?I = "slots_inv E (world_rows R) sel F0"
  have sel: "\<not> sel ?sl"
    by (simp add: assms(3) patch_slot_def Some)
  have adopt: "gives (on_db (adopt_peer_verdict E st resp (peer_final_block E resp) (peer_trail resp)))
      (step_row E False st)" if "wf_slot_state E st" for st
    unfolding adopt_peer_verdict_def
    by (intro gives_on_db gives_bnd [OF gives_any] gives_ret step_adopt wires_okD(1) assms(2) that)
  have put: "hoare (row_inv E (world_rows R) sel F0 ?sl st)
      (bnd (on_db (write_slot E (st1\<lparr>st_status := SlotFinal, st_last_updated_ts_ms := now\<rparr>))) f) S ?I"
    if "st_slot st = ?sl" "step_row E False st st1" "hoare ?I (f ()) S ?I" for st st1 f S
    by (rule write_then_world [OF assms(1,2)])
      (use that sel in \<open>auto simp: step_row_def wf_row_def\<close>)
  show ?thesis
    unfolding apply_forced_verdict_def Some option.case Let_def
    apply (rule load_then_world [OF assms(1,2)])
    apply (rule row_next [OF touches_lift])
    apply (rule hoare_if)
     apply (rule row_done [OF inv_ret])
    apply (rule row_then [OF touches_on_db [OF off_adopt_peer_verdict] adopt])
      apply (simp add: assms(1))
     apply assumption
    apply (rule row_next [OF touches_on_db [OF off_apply_finality]])
     apply (simp add: assms(1))
    apply (rule put [simplified], assumption, assumption)
    apply (intro off_next [OF touches_emit] inv_ret)
    done
qed

end
