(* ===== verification/Worker.thy ===== *)
theory Worker
  imports Slot_Peer
begin

text \<open>
  The runs of the ingest worker: handled events, and what the producers do to the lanes between two
  steps.  Over any run a slot row only advances, unless an event overrides it; a worker
  whose producers are gone handles what is queued, the live lane first, and stops.
\<close>

section \<open>One event\<close>

text \<open>What the runs need of a handler's triple: the assertion afterwards, whatever the outcome.\<close>

lemma finish_inv:
  assumes "hoare P m (\<lambda>_. slots_inv E (world_rows R) sel F0) (slots_inv E (world_rows R) sel F0)" "P w"
  shows "slots_inv E R sel F0 (w_db (finish m f g w))"
proof -
  obtain r t where m: "m w = (r, t)"
    by (cases "m w")
  have "slots_inv E R sel F0 (w_db t)"
    using hoareD [OF assms(1,2)] hoareD_err [OF assms(1,2)] m by (cases r) auto
  with m show ?thesis
    by (cases r) (simp_all add: finish_def)
qed

text \<open>The events that may replace the verdict of a slot.\<close>

definition overrides ::
  "('s, 'v, 'x) ext_scheme \<Rightarrow> ('s, 'v) rows \<Rightarrow> slot \<Rightarrow> 's world \<Rightarrow> event \<Rightarrow> bool" where
  "overrides E R sl w ev \<longleftrightarrow>
     (case ev of
        PeerPatch resp \<Rightarrow> patch_slot resp = Some sl \<and> adopts E R resp (w_db w)
      | ForcedVerdict resp \<Rightarrow> patch_slot resp = Some sl
      | _ \<Rightarrow> False)"

abbreviation slot_rows_of :: "('s, 'v) rows \<Rightarrow> 's world \<Rightarrow> 'v slot_table" where
  "slot_rows_of R w \<equiv> table R (w_db w) CF_SLOT"

lemma handle_kept:
  assumes "store_ok E R" "wires_ok E" "slots_ok E (slot_rows_of R w)"
  shows "kept E (\<lambda>sl. \<not> overrides E R sl w ev) (slot_rows_of R w) (slot_rows_of R (handle E now ev w))"
proof -
  let ?F = "slot_rows_of R w" and ?sel = "\<lambda>sl. \<not> overrides E R sl w ev"
  have start: "slots_inv E R sel ?F (w_db w)" for sel
    using kept_refl [OF assms(3)] by (simp add: slots_inv_def)
  have "slots_inv E R ?sel ?F (w_db (handle E now ev w))"
  proof (cases ev)
    case (PeerPatch resp)
    have "?sel = peer_sel E R resp (w_db w)"
      by (rule ext) (simp add: PeerPatch overrides_def peer_sel_def)
    from finish_inv [OF hoare_apply_peer_patch [OF assms(1,2) this]] start show ?thesis
      by (simp add: PeerPatch)
  next
    case (ForcedVerdict resp)
    have "?sel = (\<lambda>sl. patch_slot resp \<noteq> Some sl)"
      by (rule ext) (simp add: ForcedVerdict overrides_def)
    from finish_inv [OF hoare_apply_forced_verdict [OF assms(1,2) this]] start show ?thesis
      by (simp add: ForcedVerdict)
  next
    case Tick
    then show ?thesis
      using start by (simp add: emit_def)
  qed (auto simp: start intro!: finish_inv [OF hoare_handle_block [OF assms(1,2)]]
      finish_inv [OF hoare_handle_exec [OF assms(1,2)]]
      finish_inv [OF hoare_handle_transfers [OF assms(1,2)]]
      finish_inv [OF hoare_apply_legacy_patch [OF assms(1,2)]])
  then show ?thesis
    by (simp add: slots_inv_def)
qed

section \<open>Runs\<close>

text \<open>
  A run from \<open>k\<close> to \<open>k'\<close>: the worker steps, a producer sends to an open lane or drops its last
  sender.  The trace holds each handled event with the clock and the world it met, newest first.
\<close>

definition send :: "event \<Rightarrow> lane \<Rightarrow> lane" where
  "send ev l = l\<lparr>queue := queue l @ [ev]\<rparr>"

inductive run ::
  "('s, 'v, 'x) node_ext_scheme \<Rightarrow> 's worker \<Rightarrow> (event \<times> 's world) list \<Rightarrow> 's worker \<Rightarrow> bool"
  for E k where
  start: "run E k [] k"
| handled: "run E k tr k1 \<Longrightarrow> worker_step E now k1 = Stepped k2 (Some ev) \<Longrightarrow>
    run E k ((ev, wk_world k1) # tr) k2"
| retired: "run E k tr k1 \<Longrightarrow> worker_step E now k1 = Stepped k2 None \<Longrightarrow> run E k tr k2"
| live_sent: "run E k tr k1 \<Longrightarrow> live_rx k1 = Some l \<Longrightarrow> \<not> closed l \<Longrightarrow>
    run E k tr (k1\<lparr>live_rx := Some (send ev l)\<rparr>)"
| bulk_sent: "run E k tr k1 \<Longrightarrow> bulk_rx k1 = Some l \<Longrightarrow> \<not> closed l \<Longrightarrow>
    run E k tr (k1\<lparr>bulk_rx := Some (send ev l)\<rparr>)"
| live_closed: "run E k tr k1 \<Longrightarrow> live_rx k1 = Some l \<Longrightarrow>
    run E k tr (k1\<lparr>live_rx := Some (l\<lparr>closed := True\<rparr>)\<rparr>)"
| bulk_closed: "run E k tr k1 \<Longrightarrow> bulk_rx k1 = Some l \<Longrightarrow>
    run E k tr (k1\<lparr>bulk_rx := Some (l\<lparr>closed := True\<rparr>)\<rparr>)"

lemma step_handled:
  "worker_step E now k = Stepped k' (Some ev) \<Longrightarrow> wk_world k' = handle E now ev (wk_world k)"
  by (auto simp: worker_step_def split: option.splits prod.splits if_splits)

lemma step_retired: "worker_step E now k = Stepped k' None \<Longrightarrow> wk_world k' = wk_world k"
  by (auto simp: worker_step_def split: option.splits prod.splits if_splits)

lemma run_kept:
  assumes "store_ok E R" "wires_ok E"
  shows "run E k tr k' \<Longrightarrow> slots_ok E (slot_rows_of R (wk_world k)) \<Longrightarrow>
    kept E (\<lambda>sl. \<forall>(ev, w) \<in> set tr. \<not> overrides E R sl w ev)
      (slot_rows_of R (wk_world k)) (slot_rows_of R (wk_world k'))"
proof (induction rule: run.induct)
  case (handled tr k1 now k2 ev)
  let ?sel = "\<lambda>sl. \<forall>(ev, w) \<in> set ((ev, wk_world k1) # tr). \<not> overrides E R sl w ev"
  have a: "kept E ?sel (slot_rows_of R (wk_world k)) (slot_rows_of R (wk_world k1))"
    using handled by (auto simp: kept_def)
  have "slots_ok E (slot_rows_of R (wk_world k1))"
    using a by (simp add: kept_def)
  from handle_kept [OF assms this, of ev now]
  have "kept E ?sel (slot_rows_of R (wk_world k1)) (slot_rows_of R (wk_world k2))"
    using step_handled [OF handled.hyps(2)] by (auto simp: kept_def)
  with a show ?case
    by (rule kept_trans)
qed (auto simp: kept_refl dest: step_retired)

section \<open>Scheduling\<close>

lemma step_live:
  "live_rx k = Some l \<Longrightarrow> queue l = ev # evs \<Longrightarrow>
   worker_step E now k = Stepped (k\<lparr>live_rx := Some (l\<lparr>queue := evs\<rparr>),
     wk_world := handle E now ev (wk_world k)\<rparr>) (Some ev)"
  by (simp add: worker_step_def recv_lane_def recv_def)

lemma step_bulk:
  "recv_lane (live_rx k) = None \<Longrightarrow> bulk_rx k = Some l \<Longrightarrow> queue l = ev # evs \<Longrightarrow>
   worker_step E now k = Stepped (k\<lparr>bulk_rx := Some (l\<lparr>queue := evs\<rparr>),
     wk_world := handle E now ev (wk_world k)\<rparr>) (Some ev)"
  by (simp add: worker_step_def recv_lane_def recv_def)

text \<open>
  \<open>run\<close>: the loop over \<open>step\<close>, one clock reading per step; \<open>None\<close> says that it waits or that
  the readings ran out.  The events it handled are returned in order.
\<close>

fun worker_loop ::
  "('s, 'v, 'x) node_ext_scheme \<Rightarrow> i64 list \<Rightarrow> 's worker \<Rightarrow> ('s worker \<times> event list) option" where
  "worker_loop E [] k = None"
| "worker_loop E (now # clocks) k =
     (case worker_step E now k of
        Stopped \<Rightarrow> Some (k, [])
      | Waits \<Rightarrow> None
      | Stepped k' ev \<Rightarrow>
          map_option (\<lambda>(k2, evs). (k2, case ev of None \<Rightarrow> evs | Some e \<Rightarrow> e # evs))
            (worker_loop E clocks k'))"

definition handle_all :: "('s, 'v, 'x) node_ext_scheme \<Rightarrow> (i64 \<times> event) list \<Rightarrow> 's world \<Rightarrow> 's world" where
  "handle_all E evs w = fold (\<lambda>(now, ev). handle E now ev) evs w"

lemma handle_all_simps [simp]:
  "handle_all E [] w = w" "handle_all E ((now, ev) # evs) w = handle_all E evs (handle E now ev w)"
  by (simp_all add: handle_all_def)

lemma loop_stopped:
  "live_rx k = None \<Longrightarrow> bulk_rx k = None \<Longrightarrow> worker_loop E (now # clocks) k = Some (k, [])"
  by (simp add: worker_step_def recv_lane_def)

lemma loop_bulk:
  "live_rx k = None \<Longrightarrow> bulk_rx k = Some l \<Longrightarrow> closed l \<Longrightarrow> length (queue l) + 2 \<le> length clocks \<Longrightarrow>
   worker_loop E clocks k =
     Some (k\<lparr>bulk_rx := None, wk_world := handle_all E (zip clocks (queue l)) (wk_world k)\<rparr>, queue l)"
proof (induction "queue l" arbitrary: l clocks k)
  case Nil
  then obtain a b rest where clocks: "clocks = a # b # rest"
    by (auto simp: Suc_le_length_iff numeral_2_eq_2)
  have "worker_step E a k = Stepped (k\<lparr>bulk_rx := None\<rparr>) None"
    using Nil by (simp add: worker_step_def recv_lane_def recv_def)
  with Nil show ?case
    by (simp add: clocks loop_stopped del: worker_loop.simps(2) add: worker_loop.simps(2) [of E a])
next
  case (Cons ev evs)
  then obtain a rest where clocks: "clocks = a # rest"
    by (cases clocks) auto
  let ?k = "k\<lparr>bulk_rx := Some (l\<lparr>queue := evs\<rparr>), wk_world := handle E a ev (wk_world k)\<rparr>"
  have step: "worker_step E a k = Stepped ?k (Some ev)"
    by (rule step_bulk) (use Cons in \<open>simp_all add: recv_lane_def\<close>)
  have "worker_loop E rest ?k = Some (?k\<lparr>bulk_rx := None,
      wk_world := handle_all E (zip rest evs) (wk_world ?k)\<rparr>, evs)"
    using Cons.hyps(1) [of "l\<lparr>queue := evs\<rparr>" ?k rest] Cons.prems Cons.hyps(2) [symmetric] clocks by simp
  with step Cons.hyps(2) [symmetric] show ?case
    by (simp add: clocks)
qed

lemma loop_live:
  "live_rx k = Some l \<Longrightarrow> closed l \<Longrightarrow> bulk_rx k = Some b \<Longrightarrow> closed b \<Longrightarrow>
   length (queue l) + length (queue b) + 3 \<le> length clocks \<Longrightarrow>
   worker_loop E clocks k =
     Some (k\<lparr>live_rx := None, bulk_rx := None,
             wk_world := handle_all E (zip clocks (queue l) @
                zip (drop (Suc (length (queue l))) clocks) (queue b)) (wk_world k)\<rparr>, queue l @ queue b)"
proof (induction "queue l" arbitrary: l clocks k)
  case Nil
  then obtain a rest where clocks: "clocks = a # rest"
    by (cases clocks) auto
  have step: "worker_step E a k = Stepped (k\<lparr>live_rx := None\<rparr>) None"
    using Nil by (simp add: worker_step_def recv_lane_def recv_def)
  have "worker_loop E rest (k\<lparr>live_rx := None\<rparr>) = Some (k\<lparr>live_rx := None, bulk_rx := None,
      wk_world := handle_all E (zip rest (queue b)) (wk_world k)\<rparr>, queue b)"
    using loop_bulk [of "k\<lparr>live_rx := None\<rparr>" b rest E] Nil clocks by simp
  with step Nil.hyps show ?case
    by (simp add: clocks)
next
  case (Cons ev evs)
  then obtain a rest where clocks: "clocks = a # rest"
    by (cases clocks) auto
  let ?k = "k\<lparr>live_rx := Some (l\<lparr>queue := evs\<rparr>), wk_world := handle E a ev (wk_world k)\<rparr>"
  have step: "worker_step E a k = Stepped ?k (Some ev)"
    by (rule step_live) (use Cons in simp_all)
  have "worker_loop E rest ?k = Some (?k\<lparr>live_rx := None, bulk_rx := None,
      wk_world := handle_all E (zip rest evs @ zip (drop (Suc (length evs)) rest) (queue b)) (wk_world ?k)\<rparr>,
      evs @ queue b)"
    using Cons.hyps(1) [of "l\<lparr>queue := evs\<rparr>" ?k rest] Cons.prems Cons.hyps(2) [symmetric] clocks by simp
  with step Cons.hyps(2) [symmetric] show ?case
    by (simp add: clocks)
qed

end
