(* ===== verification/Reference_Node.thy ===== *)
theory Reference_Node
  imports Worker Reference
begin

text \<open>
  The instance of \<open>Reference\<close> with the encodings the ingestion adds, and sample inputs: a
  database with one slot row, and the frames the properties are applied to.
\<close>

section \<open>The instance\<close>

definition ref_node :: "(ref_value batch, ref_value) node_ext" where
  "ref_node = ext.extend ref_ext (node_ext.fields
     (\<lambda>_. []) (\<lambda>ev. case ev of Heartbeat n \<Rightarrow> Some ''tick'' | _ \<Rightarrow> Some ''slot'') (\<lambda>_. []) (\<lambda>_. []))"

lemmas ref_node_defs = ref_node_def ref_defs node_ext.defs

lemma ref_node_crates_ok: "crates_ok ref_node"
proof -
  have "bytes_str b = [] \<longleftrightarrow> b = []" for b
    by (simp add: bytes_str_def)
  then show ?thesis
    by (auto simp: crates_ok_def ref_node_defs)
qed

lemma ref_node_wires_ok: "wires_ok ref_node"
  unfolding wires_ok_def using ref_node_crates_ok by (simp add: ref_node_defs wire_ok_def)

lemma ref_node_store_ok: "store_ok ref_node ref_rows"
  unfolding store_ok_def
  by (auto simp: ref_node_defs ref_rows_sorted ref_table_append) (simp add: table_def)

lemma ref_node_healthy: "healthy ref_node"
  by (auto simp: healthy_def ref_node_defs)

lemma ref_node_ok: "db_ok ref_node ref_rows"
  by (simp add: db_ok_def ref_node_wires_ok ref_node_store_ok ref_node_healthy)

lemmas ref_node_laws = ref_node_store_ok ref_node_wires_ok

section \<open>Sample states\<close>

definition nblock :: "u8 \<Rightarrow> block_id" where
  "nblock n = block_from_hash ref_node 0 (replicate 32 n)"

lemma nblock_wf [simp]: "wf_block_id ref_node (nblock n)"
  by (simp add: nblock_def block_from_hash_def wf_gid_from_hash)

definition ref_world :: "ref_value batch \<Rightarrow> ref_value batch world" where
  "ref_world s = \<lparr>w_db = s, w_sse = sse_new 4, w_metrics = None\<rparr>"

text \<open>Slot \<open>(5, 3)\<close> is FINAL, with a block and a trail hash.\<close>

definition ref_final :: slot_state where
  "ref_final = (fresh (Slot 5 3) 7)
     \<lparr>st_status := SlotFinal, st_final_block_id := Some (nblock 1),
      st_candidate_block_ids := [nblock 1], st_execution_trail_hash := Some ''trail''\<rparr>"

definition ref_log :: "ref_value batch" where
  "ref_log = [Put CF_SLOT (slot_row_key (Slot 5 3)) (encode_slot_state ref_node ref_final)]"

lemma ref_final_wf: "wf_slot_state ref_node ref_final"
  by (simp add: ref_final_def fresh_def wf_slot_state_def)

lemma ref_log_row: "table ref_rows ref_log CF_SLOT =
    [slot_row_key (Slot 5 3) \<mapsto> encode_slot_state ref_node ref_final]"
  by (rule ext) (simp add: table_def ref_rows_def ref_log_def)

lemma ref_log_decode: "decode_slot_state ref_node (encode_slot_state ref_node ref_final) = Inr ref_final"
  using slot_state_codec.dec_enc [OF ref_node_wires_ok ref_final_wf] by simp

lemma ref_log_at: "slot_at ref_node (table ref_rows ref_log CF_SLOT) (Slot 5 3) = Some ref_final"
  by (simp add: slot_at_def ref_log_row ref_log_decode)

lemma ref_log_slots: "slots_ok ref_node (table ref_rows ref_log CF_SLOT)"
  by (auto simp: slots_ok_def ref_log_row ref_log_decode split: if_splits)
    (simp add: ref_final_def fresh_def)

end
