(* ===== verification/Pool_Laws.thy ===== *)
theory Pool_Laws
  imports Slot_Sets Db_Pool_Laws
begin

text \<open>
  Async messages and deferred calls as state machines: on a healthy database whose pool indexes are
  exact, pool changes and the reconciliation with a slot's transfers succeed, keep the indexes
  exact, and move each row along its life cycle.  A terminal state is never left,
  but for an async message set anew.
\<close>

section \<open>Async rows\<close>

definition async_at :: "('s, 'v, 'x) ext_scheme \<Rightarrow> ('s, 'v) rows \<Rightarrow> 's \<Rightarrow> string \<Rightarrow> stored_async_msg option" where
  "async_at E R s i = row_at (decode_async_msg E) (table R s CF_ASYNC_MSG) (str_bytes i)"

lemma async_at_exact:
  assumes "db_ok E R" "async_index_exact E R s"
  shows "read_async_msg E s i = Inr (async_at E R s i)"
    and "async_at E R s i = Some m \<Longrightarrow> wf_async_msg E m \<and> am_id m = i"
proof -
  have dec: "\<exists>m. decode_async_msg E v = Inr m \<and> am_id m = i"
    if "table R s CF_ASYNC_MSG (str_bytes i) = Some v" for v
    using assms(2) that unfolding exact_def by fastforce
  show "read_async_msg E s i = Inr (async_at E R s i)"
    using dec by (auto simp: read_async_msg_def async_at_def row_at_def get_decoded_ok [OF assms(1)]
        split: option.splits)
  show "async_at E R s i = Some m \<Longrightarrow> wf_async_msg E m \<and> am_id m = i"
    using dec async_msg_codec.dec_wf [OF db_okD(1) [OF assms(1)]]
    by (fastforce simp: async_at_def row_at_def bind_eq_Some_conv)
qed

lemma write_async:
  assumes "db_ok E R" "async_index_exact E R s" "wf_async_msg E m"
  obtains t where "write_async_msg E m s = (Inr (), t)" "async_index_exact E R t"
    "\<And>j. async_at E R t j = (if j = am_id m
      then Some (async_keep_first_seen (async_at E R s j) m) else async_at E R s j)"
proof -
  obtain t v where "write_async_msg E m s = (Inr (), t)" "async_index_exact E R t"
      "decode_async_msg E v = Inr (async_keep_first_seen (async_at E R s (am_id m)) m)"
      "table R t CF_ASYNC_MSG = (table R s CF_ASYNC_MSG)(str_bytes (am_id m) \<mapsto> v)"
    using async_pool.upsert [OF assms(1,3,2)] unfolding async_at_def row_at_def by blast
  then show ?thesis
    by (intro that [of t]) (auto simp: async_at_def row_at_def)
qed

text \<open>Load a row or a stub, change it, write it.\<close>

lemma change_async:
  assumes "db_ok E R" "async_index_exact E R s" "wf_async_msg E stub" "am_id stub = i"
    and g: "\<And>x. wf_async_msg E x \<Longrightarrow> am_id x = i \<Longrightarrow> wf_async_msg E (g x) \<and> am_id (g x) = i"
  obtains t where "bnd (read_async_or E stub) (\<lambda>x. write_async_msg E (g x)) s = (Inr (), t)"
    "async_index_exact E R t"
    "\<And>j. async_at E R t j = (if j = i
      then Some (async_keep_first_seen (async_at E R s i) (g (unwrap_or stub (async_at E R s i))))
      else async_at E R s j)"
proof -
  let ?x = "unwrap_or stub (async_at E R s i)"
  have x: "wf_async_msg E ?x" "am_id ?x = i"
    using assms(3,4) async_at_exact(2) [OF assms(1,2), of i] by (cases "async_at E R s i"; simp)+
  have read: "read_async_or E stub s = (Inr ?x, s)"
    by (simp add: read_async_or_def bnd_def readm_def ret_def assms(4) async_at_exact(1) [OF assms(1,2)])
  obtain t where "write_async_msg E (g ?x) s = (Inr (), t)" "async_index_exact E R t"
      "\<And>j. async_at E R t j = (if j = am_id (g ?x)
        then Some (async_keep_first_seen (async_at E R s j) (g ?x)) else async_at E R s j)"
    using write_async [OF assms(1,2), of "g ?x"] g [OF x] by blast
  then show ?thesis
    using read g [OF x] by (intro that [of t]) (simp_all add: bnd_def)
qed

lemma wf_addr_ok: "crates_ok C \<Longrightarrow> addr_ok C u = Some a \<Longrightarrow> wf_addr C a"
  using addr_display.parse_wf [of C u a] by (auto simp: addr_ok_def res_ok_def split: sum.splits)

lemma wf_opt_addr: "crates_ok C \<Longrightarrow> wf_opt (wf_addr C) (opt_addr C t)"
  by (cases "opt_addr C t") (auto simp: opt_addr_def bind_eq_Some_conv wf_addr_ok)

lemma wf_opt_addr_ok: "crates_ok C \<Longrightarrow> wf_opt (wf_addr C) (addr_ok C t)"
  by (cases "addr_ok C t") (auto simp: wf_addr_ok)

lemma wf_or_else: "wf_opt P x \<Longrightarrow> wf_opt P y \<Longrightarrow> wf_opt P (or_else x y)"
  by (cases x) (simp_all add: or_else_def)

lemma wf_async_stub [simp]: "wf_async_msg C (async_stub i st sl now)" "am_id (async_stub i st sl now) = i"
  by (simp_all add: wf_async_msg_def async_stub_def)

lemma wf_async_merge:
  "crates_ok C \<Longrightarrow> wf_async_msg C x \<Longrightarrow> wf_async_msg C (async_merge_transfer C sl now r st x)"
  by (auto simp: wf_async_msg_def async_merge_transfer_def intro: wf_or_else wf_opt_addr)

lemma am_id_merge [simp]: "am_id (async_merge_transfer C sl now r st x) = am_id x"
  by (simp add: async_merge_transfer_def)

section \<open>Reconciliation of async messages\<close>

text \<open>What a transfer says of a message, and the state a message is left in.\<close>

definition async_outcome :: "string \<Rightarrow> stored_transfer \<Rightarrow> async_msg_state option" where
  "async_outcome i r =
     (if tr_async_msg_id r = Some i then async_origin_state (tr_origin r) else None)"

fun async_settled :: "async_msg_state option \<Rightarrow> async_msg_state option \<Rightarrow> async_msg_state option" where
  "async_settled old None = old"
| "async_settled None (Some new) = Some new"
| "async_settled (Some old) (Some new) = Some (if async_terminal old then old else new)"

lemma merge_state:
  "am_state (async_merge_transfer C sl now r new x) =
     (if async_terminal (am_state x) then am_state x else new)"
  by (cases "am_state x") (simp_all add: async_merge_transfer_def async_terminal_def)

lemma am_state_keep [simp]: "am_state (async_keep_first_seen p m) = am_state m"
  by (simp add: async_keep_first_seen_def split: option.splits)

lemma async_origin_terminal: "async_origin_state o1 = Some st \<Longrightarrow> async_terminal st"
  by (cases o1) (auto simp: async_terminal_def)

lemma reconcile_async_row_run:
  assumes "db_ok E R" "async_index_exact E R s"
  obtains t where "reconcile_async_row E sl now r s = (Inr (), t)" "async_index_exact E R t"
    "\<And>i. map_option am_state (async_at E R t i) =
      async_settled (map_option am_state (async_at E R s i)) (async_outcome i r)"
proof (cases "tr_async_msg_id r")
  case None
  then show ?thesis
    using assms(2) by (intro that [of s]) (simp_all add: reconcile_async_row_def ret_def async_outcome_def)
next
  case (Some i)
  show ?thesis
  proof (cases "async_origin_state (tr_origin r)")
    case None
    with Some show ?thesis
      using assms(2) by (intro that [of s]) (simp_all add: reconcile_async_row_def ret_def async_outcome_def)
  next
    case (Some st)
    obtain t where t: "bnd (read_async_or E (async_stub i st sl now))
          (\<lambda>x. write_async_msg E (async_merge_transfer E sl now r st x)) s = (Inr (), t)"
        "async_index_exact E R t"
        "\<And>j. async_at E R t j = (if j = i then Some (async_keep_first_seen (async_at E R s i)
            (async_merge_transfer E sl now r st (unwrap_or (async_stub i st sl now) (async_at E R s i))))
          else async_at E R s j)"
      by (rule change_async [OF assms, where g = "async_merge_transfer E sl now r st" and i = i
            and stub = "async_stub i st sl now"])
        (simp_all add: wf_async_merge db_okD [OF assms(1)])
    have "map_option am_state (async_at E R t j) =
        async_settled (map_option am_state (async_at E R s j)) (async_outcome j r)" for j
      using t(3) [of j] \<open>tr_async_msg_id r = Some i\<close> Some async_origin_terminal [OF Some]
      by (cases "async_at E R s j") (simp_all add: async_outcome_def merge_state async_stub_def unwrap_or_def)
    with t(1,2) show ?thesis
      by (intro that [of t]) (simp_all add: reconcile_async_row_def \<open>tr_async_msg_id r = Some i\<close> Some)
  qed
qed

lemma reconcile_async_run:
  assumes "db_ok E R"
  shows "async_index_exact E R s \<Longrightarrow>
    \<exists>t. reconcile_async_from_transfers E sl rs now s = (Inr (), t) \<and> async_index_exact E R t \<and>
      (\<forall>i. map_option am_state (async_at E R t i) =
        fold (\<lambda>r st. async_settled st (async_outcome i r)) rs (map_option am_state (async_at E R s i)))"
proof (induction rs arbitrary: s)
  case Nil
  then show ?case by (simp add: reconcile_async_from_transfers_def ret_def)
next
  case (Cons r rs)
  obtain t where t: "reconcile_async_row E sl now r s = (Inr (), t)" "async_index_exact E R t"
      "\<And>i. map_option am_state (async_at E R t i) =
        async_settled (map_option am_state (async_at E R s i)) (async_outcome i r)"
    by (rule reconcile_async_row_run [OF assms Cons.prems, where sl = sl and now = now and r = r])
      (rule that; simp)
  from Cons.IH [OF t(2)] show ?case
    using t by (auto simp: reconcile_async_from_transfers_def bnd_def)
qed

lemma fold_settled_terminal:
  "async_terminal old \<Longrightarrow> fold (\<lambda>r st. async_settled st (f r)) rs (Some old) = Some old"
proof (induction rs)
  case (Cons r rs)
  then show ?case
    by (cases "f r") simp_all
qed simp

lemma async_outcome_terminal: "async_outcome i r = Some st \<Longrightarrow> async_terminal st"
  by (auto simp: async_outcome_def dest: async_origin_terminal split: if_splits)

text \<open>The first transfer that says how a message ended decides, unless it had ended before.\<close>

lemma fold_settled:
  "fold (\<lambda>r st. async_settled st (async_outcome i r)) rs old =
     async_settled old (case List.map_filter (async_outcome i) rs of [] \<Rightarrow> None | st # _ \<Rightarrow> Some st)"
proof (induction rs arbitrary: old)
  case Nil
  then show ?case by (simp add: List.map_filter_simps)
next
  case (Cons r rs)
  show ?case
  proof (cases "async_outcome i r")
    case None
    with Cons show ?thesis by (simp add: List.map_filter_simps)
  next
    case (Some st)
    note t = async_outcome_terminal [OF Some]
    have "async_settled old (Some st) = Some st' \<Longrightarrow> async_terminal st'" for st'
      using t by (cases old) (auto split: if_splits)
    then show ?thesis
      using Some fold_settled_terminal [of _ "async_outcome i" rs]
      by (cases old) (simp_all add: List.map_filter_simps)
  qed
qed

section \<open>Pool changes\<close>

text \<open>An entry that sets a message anew.\<close>

definition sets_anew :: "string \<Rightarrow> async_pool_entry \<Rightarrow> bool" where
  "sets_anew i e \<longleftrightarrow> ap_async_message_id e = i \<and> (\<exists>v. ap_value e = Some v \<and> pv_type v = 1)"

lemma when_set_keeps:
  "(\<And>v r. am_id (g v r) = am_id r) \<Longrightarrow> am_id (when_set c g r) = am_id r"
  "(\<And>v r. am_state (g v r) = am_state r) \<Longrightarrow> am_state (when_set c g r) = am_state r"
  "(\<And>v r. wf_async_msg C r \<Longrightarrow> wf_async_msg C (g v r)) \<Longrightarrow> wf_async_msg C r \<Longrightarrow>
    wf_async_msg C (when_set c g r)"
  by (auto simp: when_set_def split: option.splits set_or_keep.splits)

lemma update_keeps [simp]:
  "am_id (apply_async_update C upd x) = am_id x" "am_state (apply_async_update C upd x) = am_state x"
  by (simp_all add: apply_async_update_def Let_def when_set_keeps(1,2))

lemma update_wf: "crates_ok C \<Longrightarrow> wf_async_msg C x \<Longrightarrow> wf_async_msg C (apply_async_update C upd x)"
  unfolding apply_async_update_def Let_def
  by (intro when_set_keeps(3)) (simp_all add: wf_async_msg_def wf_opt_addr_ok)

lemma wf_async_fields [simp]:
  "wf_async_msg C (m\<lparr>am_last_slot := a\<rparr>) = wf_async_msg C m"
  "wf_async_msg C (m\<lparr>am_last_updated_ts_ms := b\<rparr>) = wf_async_msg C m"
  "wf_async_msg C (m\<lparr>am_state := st\<rparr>) = wf_async_msg C m"
  by (simp_all add: wf_async_msg_def)

lemma from_proto_wf:
  "crates_ok C \<Longrightarrow> wf_async_msg C (async_msg_from_proto C i msg sl now)"
  by (simp add: async_msg_from_proto_def wf_async_msg_def wf_opt_addr_ok)

lemma apply_async_entry_run:
  assumes "db_ok E R" "async_index_exact E R s"
  obtains t where "apply_async_entry E sl now e s = (Inr (), t)" "async_index_exact E R t"
    "\<And>i m. async_at E R s i = Some m \<Longrightarrow> \<not> sets_anew i e \<Longrightarrow>
      \<exists>m'. async_at E R t i = Some m' \<and>
        (am_state m' = am_state m \<or> am_state m' = Consumed \<and> \<not> async_terminal (am_state m))"
proof -
  let ?i = "ap_async_message_id e"
  let ?stub = "async_stub ?i Pending sl now"
  let ?post = "\<lambda>t. async_index_exact E R t \<and> (\<forall>i m. async_at E R s i = Some m \<longrightarrow> \<not> sets_anew i e \<longrightarrow>
      (\<exists>m'. async_at E R t i = Some m' \<and>
        (am_state m' = am_state m \<or> am_state m' = Consumed \<and> \<not> async_terminal (am_state m))))"
  have skip: "\<exists>t. ret () s = (Inr (), t) \<and> ?post t"
    using assms(2) by (simp add: ret_def)
  have create: "\<exists>t. write_async_msg E (async_msg_from_proto E ?i msg sl now) s = (Inr (), t) \<and> ?post t"
    if "ap_value e = Some v" "pv_type v = 1" for v msg
  proof -
    let ?m = "async_msg_from_proto E ?i msg sl now"
    obtain t where t: "write_async_msg E ?m s = (Inr (), t)" "async_index_exact E R t"
        "\<And>j. async_at E R t j = (if j = am_id ?m
          then Some (async_keep_first_seen (async_at E R s j) ?m) else async_at E R s j)"
      by (rule write_async [OF assms from_proto_wf [OF db_okD(4) [OF assms(1)], of ?i msg sl now]])
        (rule that; blast)
    have "am_id ?m = ?i"
      by (simp add: async_msg_from_proto_def)
    with t that show ?thesis
      by (auto simp: sets_anew_def)
  qed
  have change: "\<exists>t. bnd (read_async_or E ?stub) (\<lambda>x. write_async_msg E (g x)) s = (Inr (), t) \<and> ?post t"
    if g: "\<And>x. wf_async_msg E x \<Longrightarrow> am_id x = ?i \<Longrightarrow> wf_async_msg E (g x) \<and> am_id (g x) = ?i"
      "\<And>x. am_state (g x) = am_state x \<or> am_state (g x) = Consumed \<and> \<not> async_terminal (am_state x)" for g
  proof -
    obtain t where t: "bnd (read_async_or E ?stub) (\<lambda>x. write_async_msg E (g x)) s = (Inr (), t)"
        "async_index_exact E R t"
        "\<And>j. async_at E R t j = (if j = ?i
          then Some (async_keep_first_seen (async_at E R s ?i) (g (unwrap_or ?stub (async_at E R s ?i))))
          else async_at E R s j)"
      by (rule change_async [OF assms, where g = g and i = ?i and stub = ?stub]) (use g(1) in simp_all)
    have "\<exists>m'. async_at E R t i = Some m' \<and>
        (am_state m' = am_state m \<or> am_state m' = Consumed \<and> \<not> async_terminal (am_state m))"
      if "async_at E R s i = Some m" for i m
      using t(3) [of i] g(2) [of m] that by (cases "i = ?i") (auto simp: unwrap_or_def)
    with t(1,2) show ?thesis
      by blast
  qed
  have update: "\<exists>t. bnd (read_async_or E ?stub) (\<lambda>x. write_async_msg E
      ((apply_async_update E u x)\<lparr>am_last_slot := Some sl, am_last_updated_ts_ms := now\<rparr>)) s = (Inr (), t) \<and> ?post t" for u
    by (rule change) (simp_all add: update_wf db_okD [OF assms(1)])
  have delete: "\<exists>t. bnd (read_async_or E ?stub) (\<lambda>x. write_async_msg E
      (x\<lparr>am_state := (if async_terminal (am_state x) then am_state x else Consumed),
         am_last_slot := Some sl, am_last_updated_ts_ms := now\<rparr>)) s = (Inr (), t) \<and> ?post t"
    by (rule change) simp_all
  have "\<exists>t. apply_async_entry E sl now e s = (Inr (), t) \<and> ?post t"
  proof (cases "?i = [] \<or> ap_value e = None")
    case True
    with skip show ?thesis
      by (auto simp: apply_async_entry_def Let_def)
  next
    case False
    then obtain v where v: "?i \<noteq> []" "ap_value e = Some v"
      by auto
    consider (set) "pv_type v = 1" | (upd) "pv_type v = 2" | (del) "pv_type v = 3"
      | (other) "pv_type v \<notin> {1, 2, 3}"
      by blast
    then show ?thesis
    proof cases
      case set
      show ?thesis
      proof (cases "\<exists>msg. pv_message v = Some (CreatedMessage msg)")
        case True
        with create [OF v(2) set] v set show ?thesis
          by (auto simp: apply_async_entry_def Let_def)
      next
        case False
        with skip v set show ?thesis
          by (auto simp: apply_async_entry_def Let_def split: option.split async_pool_message.split)
      qed
    next
      case upd
      show ?thesis
      proof (cases "\<exists>u. pv_message v = Some (UpdatedMessage u)")
        case True
        with update v upd show ?thesis
          by (auto simp: apply_async_entry_def Let_def)
      next
        case False
        with skip v upd show ?thesis
          by (auto simp: apply_async_entry_def Let_def split: option.split async_pool_message.split)
      qed
    next
      case del
      with delete v show ?thesis
        by (simp add: apply_async_entry_def Let_def)
    next
      case other
      with skip v show ?thesis
        by (simp add: apply_async_entry_def Let_def)
    qed
  qed
  then show ?thesis
    using that by blast
qed

lemma apply_async_pool_run:
  assumes "db_ok E R"
  shows "async_index_exact E R s \<Longrightarrow>
    \<exists>t. apply_async_pool_changes E sl es now s = (Inr (), t) \<and> async_index_exact E R t \<and>
      (\<forall>i m. async_at E R s i = Some m \<longrightarrow> (\<forall>e \<in> set es. \<not> sets_anew i e) \<longrightarrow>
        (\<exists>m'. async_at E R t i = Some m' \<and>
          (am_state m' = am_state m \<or> am_state m' = Consumed \<and> \<not> async_terminal (am_state m))))"
proof (induction es arbitrary: s)
  case Nil
  then show ?case by (simp add: apply_async_pool_changes_def ret_def)
next
  case (Cons e es)
  let ?step = "\<lambda>s t e. \<forall>i m. async_at E R s i = Some m \<longrightarrow> \<not> sets_anew i e \<longrightarrow>
      (\<exists>m'. async_at E R t i = Some m' \<and>
        (am_state m' = am_state m \<or> am_state m' = Consumed \<and> \<not> async_terminal (am_state m)))"
  obtain t where t: "apply_async_entry E sl now e s = (Inr (), t)" "async_index_exact E R t" "?step s t e"
    by (rule apply_async_entry_run [OF assms Cons.prems, where sl = sl and now = now and e = e]) blast
  obtain u where u: "apply_async_pool_changes E sl es now t = (Inr (), u)" "async_index_exact E R u"
      "\<forall>i m. async_at E R t i = Some m \<longrightarrow> (\<forall>e \<in> set es. \<not> sets_anew i e) \<longrightarrow>
        (\<exists>m'. async_at E R u i = Some m' \<and>
          (am_state m' = am_state m \<or> am_state m' = Consumed \<and> \<not> async_terminal (am_state m)))"
    using Cons.IH [OF t(2)] by blast
  have "\<exists>m'. async_at E R u i = Some m' \<and>
      (am_state m' = am_state m \<or> am_state m' = Consumed \<and> \<not> async_terminal (am_state m))"
    if row: "async_at E R s i = Some m" and others: "\<forall>e \<in> set (e # es). \<not> sets_anew i e" for i m
  proof -
    have "\<not> sets_anew i e" "\<forall>e \<in> set es. \<not> sets_anew i e"
      using others by simp_all
    note quiet = this
    obtain m1 where m1: "async_at E R t i = Some m1"
        "am_state m1 = am_state m \<or> am_state m1 = Consumed \<and> \<not> async_terminal (am_state m)"
      using t(3) row quiet(1) by blast
    moreover obtain m2 where "async_at E R u i = Some m2"
        "am_state m2 = am_state m1 \<or> am_state m2 = Consumed \<and> \<not> async_terminal (am_state m1)"
      using u(3) m1(1) quiet(2) by blast
    ultimately show ?thesis
      by auto
  qed
  with t(1) u(1,2) show ?case
    by (simp add: apply_async_pool_changes_def bnd_def)
qed

section \<open>Deferred calls\<close>

definition call_at :: "('s, 'v, 'x) ext_scheme \<Rightarrow> ('s, 'v) rows \<Rightarrow> 's \<Rightarrow> string \<Rightarrow> stored_deferred_call option" where
  "call_at E R s i = row_at (decode_deferred_call E) (table R s CF_DEFERRED_CALL) (str_bytes i)"

lemma call_at_exact:
  assumes "db_ok E R" "call_index_exact E R s"
  shows "read_deferred_call E s i = Inr (call_at E R s i)"
    and "call_at E R s i = Some m \<Longrightarrow> wf_deferred_call E m \<and> dc_id m = i"
proof -
  have dec: "\<exists>m. decode_deferred_call E v = Inr m \<and> dc_id m = i"
    if "table R s CF_DEFERRED_CALL (str_bytes i) = Some v" for v
    using assms(2) that unfolding exact_def by fastforce
  show "read_deferred_call E s i = Inr (call_at E R s i)"
    using dec by (auto simp: read_deferred_call_def call_at_def row_at_def get_decoded_ok [OF assms(1)]
        split: option.splits)
  show "call_at E R s i = Some m \<Longrightarrow> wf_deferred_call E m \<and> dc_id m = i"
    using dec deferred_call_codec.dec_wf [OF db_okD(1) [OF assms(1)]]
    by (fastforce simp: call_at_def row_at_def bind_eq_Some_conv)
qed

lemma write_call:
  assumes "db_ok E R" "call_index_exact E R s" "wf_deferred_call E m"
  obtains t where "write_deferred_call E m s = (Inr (), t)" "call_index_exact E R t"
    "\<And>j. call_at E R t j = (if j = dc_id m
      then Some (call_keep_first_seen (call_at E R s j) m) else call_at E R s j)"
proof -
  obtain t v where "write_deferred_call E m s = (Inr (), t)" "call_index_exact E R t"
      "decode_deferred_call E v = Inr (call_keep_first_seen (call_at E R s (dc_id m)) m)"
      "table R t CF_DEFERRED_CALL = (table R s CF_DEFERRED_CALL)(str_bytes (dc_id m) \<mapsto> v)"
    using call_pool.upsert [OF assms(1,3,2)] unfolding call_at_def row_at_def by blast
  then show ?thesis
    by (intro that [of t]) (auto simp: call_at_def row_at_def)
qed

text \<open>What an origin says of a call: nothing, its state, or only that it exists.\<close>

fun call_origin_state :: "coin_origin \<Rightarrow> deferred_call_state option option" where
  "call_origin_state DeferredCallRegister = Some (Some Registered)"
| "call_origin_state DeferredCallCoins = Some (Some CallExecuted)"
| "call_origin_state DeferredCallFail = Some (Some CallFailed)"
| "call_origin_state DeferredCallCancel = Some (Some CallCancelled)"
| "call_origin_state DeferredCallStorageRefund = Some None"
| "call_origin_state _ = None"

definition call_settled ::
  "string \<Rightarrow> stored_transfer \<Rightarrow> deferred_call_state option \<Rightarrow> deferred_call_state option" where
  "call_settled i r old =
     (if tr_deferred_call_id r = Some i
      then (case call_origin_state (tr_origin r) of
              None \<Rightarrow> old
            | Some new \<Rightarrow>
                (let st = unwrap_or Registered old
                 in Some (if call_terminal st then st else unwrap_or st new)))
      else old)"

lemma call_merge_spec:
  "call_merge_transfer C sl now r x = None \<longleftrightarrow> call_origin_state (tr_origin r) = None"
  "call_merge_transfer C sl now r x = Some d \<Longrightarrow> call_origin_state (tr_origin r) = Some new \<Longrightarrow>
     dc_id d = dc_id x \<and>
     dc_state d = (if call_terminal (dc_state x) then dc_state x else unwrap_or (dc_state x) new)"
  by (cases "tr_origin r"; auto simp: call_merge_transfer_def)+

lemma wf_call_merge:
  assumes "crates_ok C" "wf_deferred_call C x" "call_merge_transfer C sl now r x = Some d"
  shows "wf_deferred_call C d"
proof -
  obtain y st where y: "call_transition C sl r (tr_origin r) x = Some (y, st)"
    using assms(3) by (auto simp: call_merge_transfer_def)
  then have "wf_deferred_call C y"
    using assms(1,2) by (cases "tr_origin r") (auto simp: wf_deferred_call_def intro!: wf_or_else wf_opt_addr)
  with y assms(3) show ?thesis
    by (auto simp: call_merge_transfer_def wf_deferred_call_def)
qed

lemma dc_state_keep [simp]: "dc_state (call_keep_first_seen p m) = dc_state m"
  by (simp add: call_keep_first_seen_def split: option.splits)

lemma reconcile_deferred_row_run:
  assumes "db_ok E R" "call_index_exact E R s"
  shows "\<exists>t. reconcile_deferred_row E sl now r s = (Inr (), t) \<and> call_index_exact E R t \<and>
    (\<forall>i. map_option dc_state (call_at E R t i) = call_settled i r (map_option dc_state (call_at E R s i)))"
proof (cases "tr_deferred_call_id r")
  case None
  then show ?thesis
    using assms(2) by (simp add: reconcile_deferred_row_def ret_def call_settled_def)
next
  case (Some i)
  let ?x = "unwrap_or (call_stub i sl now) (call_at E R s i)"
  have x: "wf_deferred_call E ?x" "dc_id ?x = i" "dc_state ?x = unwrap_or Registered (map_option dc_state (call_at E R s i))"
    using call_at_exact(2) [OF assms, of i]
    by (cases "call_at E R s i"; simp add: call_stub_def wf_deferred_call_def)+
  have read: "read_deferred_call E s i = Inr (call_at E R s i)"
    by (rule call_at_exact(1) [OF assms])
  show ?thesis
  proof (cases "call_merge_transfer E sl now r ?x")
    case None
    then have "call_origin_state (tr_origin r) = None"
      by (simp add: call_merge_spec(1))
    with None Some assms(2) show ?thesis
      by (simp add: reconcile_deferred_row_def bnd_def readm_def read ret_def call_settled_def)
  next
    case (Some d)
    obtain new where new: "call_origin_state (tr_origin r) = Some new"
      using Some call_merge_spec(1) [of E sl now r ?x] by fastforce
    have d: "wf_deferred_call E d" "dc_id d = i"
        "dc_state d = (if call_terminal (dc_state ?x) then dc_state ?x else unwrap_or (dc_state ?x) new)"
      using wf_call_merge [OF db_okD(4) [OF assms(1)] x(1) Some] call_merge_spec(2) [OF Some new] x(2) by simp_all
    obtain t where t: "write_deferred_call E d s = (Inr (), t)" "call_index_exact E R t"
        "\<And>j. call_at E R t j = (if j = dc_id d
          then Some (call_keep_first_seen (call_at E R s j) d) else call_at E R s j)"
      by (rule write_call [OF assms d(1)]) (rule that; blast)
    have "map_option dc_state (call_at E R t j) = call_settled j r (map_option dc_state (call_at E R s j))" for j
      using t(3) [of j] d x(3) \<open>tr_deferred_call_id r = Some i\<close> new
      by (cases "j = i") (simp_all add: call_settled_def Let_def)
    with t(1,2) Some \<open>tr_deferred_call_id r = Some i\<close> show ?thesis
      by (simp add: reconcile_deferred_row_def bnd_def readm_def read)
  qed
qed

lemma reconcile_deferred_run:
  assumes "db_ok E R"
  shows "call_index_exact E R s \<Longrightarrow>
    \<exists>t. reconcile_deferred_from_transfers E sl rs now s = (Inr (), t) \<and> call_index_exact E R t \<and>
      (\<forall>i. map_option dc_state (call_at E R t i) =
        fold (call_settled i) rs (map_option dc_state (call_at E R s i)))"
proof (induction rs arbitrary: s)
  case Nil
  then show ?case by (simp add: reconcile_deferred_from_transfers_def ret_def)
next
  case (Cons r rs)
  from reconcile_deferred_row_run [OF assms Cons.prems, of sl now r] obtain t where
    t: "reconcile_deferred_row E sl now r s = (Inr (), t)" "call_index_exact E R t"
      "\<And>i. map_option dc_state (call_at E R t i) = call_settled i r (map_option dc_state (call_at E R s i))"
    by blast
  from Cons.IH [OF t(2)] show ?case
    using t by (auto simp: reconcile_deferred_from_transfers_def bnd_def)
qed

lemma fold_call_terminal:
  "call_terminal st \<Longrightarrow> fold (call_settled i) rs (Some st) = Some st"
proof (induction rs)
  case (Cons r rs)
  then show ?case
    by (cases "call_origin_state (tr_origin r)") (simp_all add: call_settled_def unwrap_or_def)
qed simp

end
