(* ===== verification/Transfer_Laws.thy ===== *)
theory Transfer_Laws
  imports Pool_Laws Worker
begin

text \<open>
  What \<open>handle_transfers\<close> derives from the node's transfer list: which transfers it keeps, how it
  numbers them, and to which operation it attributes each.
\<close>

section \<open>Pass 1\<close>

definition carries_value :: "exec_transfer_info \<Rightarrow> bool" where
  "carries_value t \<longleftrightarrow> \<not> is_zero_value (node_value t)"

lemma decode_transfers_eq:
  "decode_transfers resp sl now n ts =
     map (\<lambda>(i, t). node_transfer resp sl now (n + word_of_nat i) t)
       (enumerate 0 (filter carries_value ts))"
proof (induction ts arbitrary: n)
  case Nil
  then show ?case by simp
next
  case (Cons t ts)
  have shift: "enumerate (Suc 0) xs = map (\<lambda>(i, t). (Suc i, t)) (enumerate 0 xs)" for xs :: "exec_transfer_info list"
    by (rule nth_equalityI) (auto simp: nth_enumerate_eq)
  show ?case
    using Cons [of "n + 1"] Cons [of n]
    by (simp add: carries_value_def shift add.assoc comp_def split_beta)
qed

section \<open>Pass 2\<close>

text \<open>The transfers that set or end the operation a child transfer is attributed to.\<close>

definition marks :: "stored_transfer \<Rightarrow> bool" where
  "marks r \<longleftrightarrow> is_some (tr_operation_id r) \<or> is_some (tr_async_msg_id r) \<or>
     is_some (tr_deferred_call_id r) \<or> is_some (tr_denunciation_index r) \<or> is_reward_origin (tr_origin r)"

definition active_op :: "string option \<Rightarrow> stored_transfer list \<Rightarrow> string option" where
  "active_op current rs =
     (case filter marks rs of [] \<Rightarrow> current | ms \<Rightarrow> tr_operation_id (last ms))"

definition attributed :: "string option \<Rightarrow> stored_transfer \<Rightarrow> stored_transfer" where
  "attributed current r =
     (if \<not> marks r \<and> is_op_child_origin (tr_origin r) then r\<lparr>tr_operation_id := current\<rparr> else r)"

lemma infer_operations_Cons:
  "infer_operations current (r # rs) =
     attributed current r # infer_operations (if marks r then tr_operation_id r else current) rs"
proof -
  have same: "r\<lparr>tr_operation_id := None\<rparr> = r" if "tr_operation_id r = None"
    using that by (cases r) simp
  show ?thesis
  proof (cases "tr_operation_id r")
    case None
    with same show ?thesis
      by (cases current) (simp_all add: attributed_def marks_def is_some_def)
  next
    case (Some i)
    then show ?thesis
      by (simp add: attributed_def marks_def is_some_def)
  qed
qed

lemma active_op_Cons:
  "active_op current (r # rs) = active_op (if marks r then tr_operation_id r else current) rs"
  by (auto simp: active_op_def split: list.splits)

lemma length_infer [simp]: "length (infer_operations current rs) = length rs"
  by (induction rs arbitrary: current) (simp_all add: infer_operations_Cons del: infer_operations.simps(2))

lemma infer_operations_nth:
  "i < length rs \<Longrightarrow>
   infer_operations current rs ! i = attributed (active_op current (take i rs)) (rs ! i)"
proof (induction rs arbitrary: current i)
  case Nil
  then show ?case by simp
next
  case (Cons r rs)
  show ?case
  proof (cases i)
    case 0
    then show ?thesis
      by (simp add: infer_operations_Cons active_op_def del: infer_operations.simps)
  next
    case (Suc j)
    then show ?thesis
      using Cons by (simp add: infer_operations_Cons active_op_Cons del: infer_operations.simps)
  qed
qed

lemma attributed_simps [simp]:
  "tr_slot (attributed c r) = tr_slot r" "tr_index_in_slot (attributed c r) = tr_index_in_slot r"
  "tr_origin (attributed c r) = tr_origin r" "tr_id (attributed c r) = tr_id r"
  "tr_async_msg_id (attributed c r) = tr_async_msg_id r"
  "tr_value (attributed c r) = tr_value r"
  by (simp_all add: attributed_def)

section \<open>The transfers of a slot\<close>

lemma slot_transfers_nth:
  assumes "i < length (slot_transfers resp sl now)"
  shows "\<exists>c. slot_transfers resp sl now ! i =
    attributed c (node_transfer resp sl now (word_of_nat i) (filter carries_value (ti_transfers_info resp) ! i))"
  using assms by (simp add: slot_transfers_def infer_operations_nth decode_transfers_eq nth_enumerate_eq) blast

lemma length_slot_transfers:
  "length (slot_transfers resp sl now) = length (filter carries_value (ti_transfers_info resp))"
  by (simp add: slot_transfers_def decode_transfers_eq)

lemma coin_origin_wf: "coin_origin_from_i32 n \<noteq> OtherOrigin 0"
proof (cases "n = 0")
  case True
  have "coin_origin_of_kind 0 = Some Unspecified"
    by (simp add: coin_origin_of_kind_def coin_origin_kinds_def)
  with True show ?thesis
    by (simp add: coin_origin_from_i32_def)
next
  case False
  have "OtherOrigin 0 \<notin> set coin_origin_kinds"
    by (simp add: coin_origin_kinds_def)
  then have "coin_origin_of_kind n \<noteq> Some (OtherOrigin 0)"
    unfolding coin_origin_of_kind_def by (metis nth_mem option.inject option.distinct(1))
  with False show ?thesis
    by (cases "coin_origin_of_kind n") (simp_all add: coin_origin_from_i32_def)
qed

lemma slot_transfers_rows:
  assumes "r \<in> set (slot_transfers resp sl now)"
  shows "wf_transfer r" "tr_slot r = sl"
  using assms coin_origin_wf
  by (auto simp: in_set_conv_nth wf_transfer_def node_transfer_def dest!: slot_transfers_nth)

lemma slot_transfers_sorted:
  assumes "length (slot_transfers resp sl now) < 2 ^ 32"
  shows "sorted_wrt (<) (map transfer_key_of (slot_transfers resp sl now))"
proof -
  let ?rs = "slot_transfers resp sl now"
  have "transfer_key_of (?rs ! i) < transfer_key_of (?rs ! j)" if "i < j" "j < length ?rs" for i j
  proof -
    have "(word_of_nat i :: u32) < word_of_nat j"
      using that assms by (simp add: word_less_nat_alt unat_of_nat)
    then show ?thesis
      using slot_transfers_nth [of i resp sl now] slot_transfers_nth [of j resp sl now] that
      by (auto simp: transfer_key_of_def transfer_key_def node_transfer_def sc_event_key_def
          append_less_append u32_be_less)
  qed
  then show ?thesis
    by (simp add: sorted_wrt_iff_nth_less)
qed

section \<open>The handler\<close>

lemma read_slot_ok:
  "db_ok E R \<Longrightarrow> slots_ok E (table R s CF_SLOT) \<Longrightarrow>
   read_slot E s (sl_period sl) (sl_thread sl) = Inr (slot_at E (table R s CF_SLOT) sl)"
  by (auto simp: read_slot_def slot_at_def get_decoded_ok slots_ok_def simp flip: slot_row_key_def
      split: option.splits) fastforce

lemma write_slot_ok:
  assumes "db_ok E R" "wf_slot_state E st" "slots_ok E (table R s CF_SLOT)"
  obtains t where "write_slot E st s = (Inr (), t)" "slots_ok E (table R t CF_SLOT)"
    "\<And>sl. slot_at E (table R t CF_SLOT) sl = (if sl = st_slot st then Some st else slot_at E (table R s CF_SLOT) sl)"
    "\<And>c. c \<noteq> CF_SLOT \<Longrightarrow> table R t c = table R s c"
proof -
  obtain t where t: "write_slot E st s = (Inr (), t)"
    using slot_rows.put_get [OF assms(1,2)] by blast
  then have tab: "table R t CF_SLOT = (table R s CF_SLOT)(slot_row_key (st_slot st) \<mapsto> encode_slot_state E st)"
    using table_put [OF db_okD(2) [OF assms(1)]] by (auto simp: write_slot_def)
  have dec: "decode_slot_state E (encode_slot_state E st) = Inr st"
    using slot_state_codec.dec_enc [OF db_okD(1) [OF assms(1)] assms(2)] by simp
  have "touches R {CF_SLOT} (write_slot E st)"
    using db_okD(2) [OF assms(1)] by (intro frame_intros) simp_all
  then have "table R t c = table R s c" if "c \<noteq> CF_SLOT" for c
    using touchesD [of R "{CF_SLOT}"] t that by blast
  moreover have "slots_ok E (table R t CF_SLOT)"
    using assms(3) dec by (auto simp: slots_ok_def tab)
  moreover have "slot_at E (table R t CF_SLOT) sl =
      (if sl = st_slot st then Some st else slot_at E (table R s CF_SLOT) sl)" for sl
    using dec by (auto simp: slot_at_def tab)
  ultimately show ?thesis
    using t by (intro that [of t])
qed

lemma mark_transfers_run:
  assumes "db_ok E R" "slots_ok E (table R (w_db w) CF_SLOT)"
  shows "\<exists>w' st. mark_transfers E sl now w = (Inr (), w') \<and> slots_ok E (table R (w_db w') CF_SLOT) \<and>
    slot_at E (table R (w_db w') CF_SLOT) sl = Some st \<and> transfers_stored (st_completeness st) \<and>
    (\<forall>c. c \<noteq> CF_SLOT \<longrightarrow> table R (w_db w') c = table R (w_db w) c)"
proof -
  let ?st = "unwrap_or (fresh sl now) (slot_at E (table R (w_db w) CF_SLOT) sl)"
  let ?new = "set_transfers ?st\<lparr>st_last_updated_ts_ms := now\<rparr>"
  have read: "rd (\<lambda>s. read_slot E s (sl_period sl) (sl_thread sl)) w =
      (Inr (slot_at E (table R (w_db w) CF_SLOT) sl), w)"
    by (simp add: rd_def read_slot_ok [OF assms])
  have st: "wf_slot_state E ?st" "st_slot ?st = sl"
    using holds_row_loaded [OF db_okD(1) [OF assms(1)] assms(2), of sl now] by (simp_all add: holds_row_def)
  show ?thesis
  proof (cases "\<exists>st. slot_at E (table R (w_db w) CF_SLOT) sl = Some st \<and> transfers_stored (st_completeness st)")
    case True
    then show ?thesis
      using read assms(2) by (auto simp: mark_transfers_def bnd_def ret_def)
  next
    case False
    have wf: "wf_slot_state E ?new"
      using st(1) by (simp add: wf_slot_state_def set_transfers_def)
    obtain t where t: "write_slot E ?new (w_db w) = (Inr (), t)" "slots_ok E (table R t CF_SLOT)"
        "\<And>x. slot_at E (table R t CF_SLOT) x = (if x = st_slot ?new then Some ?new else slot_at E (table R (w_db w) CF_SLOT) x)"
        "\<And>c. c \<noteq> CF_SLOT \<Longrightarrow> table R t c = table R (w_db w) c"
      by (rule write_slot_ok [OF assms(1) wf assms(2)]) (rule that; (assumption | simp only:))
    have "mark_transfers E sl now w = bnd (on_db (write_slot E ?new)) (\<lambda>_. emit E (SlotUpdated ?new)) w"
      using False read
      by (cases "slot_at E (table R (w_db w) CF_SLOT) sl")
        (auto simp: mark_transfers_def bnd_def Let_def set_transfers_def fresh_def)
    moreover have "slot_at E (table R t CF_SLOT) sl = Some ?new" "transfers_stored (st_completeness ?new)"
      using t(3) [of sl] st(2) by (simp_all add: set_transfers_def)
    ultimately show ?thesis
      using t(1,2,4) by (simp add: bnd_def on_db_def emit_def)
  qed
qed

text \<open>The state the handlers keep: every row decodes, and the indexes are exact.\<close>

definition db_good :: "('s, 'v, 'x) ext_scheme \<Rightarrow> ('s, 'v) rows \<Rightarrow> 's \<Rightarrow> bool" where
  "db_good E R s \<longleftrightarrow>
     slots_ok E (table R s CF_SLOT) \<and> transfer_index_exact E R s \<and> event_index_exact E R s \<and>
     async_index_exact E R s \<and> call_index_exact E R s"

lemma keeps_exact:
  assumes "touches R cs m" "m s = (r, t)"
  shows "cs \<inter> insert CF_TRANSFER transfer_ics = {} \<Longrightarrow> transfer_index_exact E R s \<Longrightarrow> transfer_index_exact E R t"
    "cs \<inter> insert CF_SC_EVENT event_ics = {} \<Longrightarrow> event_index_exact E R s \<Longrightarrow> event_index_exact E R t"
    "cs \<inter> insert CF_ASYNC_MSG async_ics = {} \<Longrightarrow> async_index_exact E R s \<Longrightarrow> async_index_exact E R t"
    "cs \<inter> insert CF_DEFERRED_CALL deferred_ics = {} \<Longrightarrow> call_index_exact E R s \<Longrightarrow> call_index_exact E R t"
    "CF_SLOT \<notin> cs \<Longrightarrow> slots_ok E (table R s CF_SLOT) \<Longrightarrow> slots_ok E (table R t CF_SLOT)"
proof -
  have same: "table R t c = table R s c" if "c \<notin> cs" for c
    by (rule touchesD [OF assms that])
  show "cs \<inter> insert CF_TRANSFER transfer_ics = {} \<Longrightarrow> transfer_index_exact E R s \<Longrightarrow> transfer_index_exact E R t"
    by (rule transfer_index.exact_other [where T = "table R s"]) (use same in auto)
  show "cs \<inter> insert CF_SC_EVENT event_ics = {} \<Longrightarrow> event_index_exact E R s \<Longrightarrow> event_index_exact E R t"
    by (rule event_index.exact_other [where T = "table R s"]) (use same in auto)
  show "cs \<inter> insert CF_ASYNC_MSG async_ics = {} \<Longrightarrow> async_index_exact E R s \<Longrightarrow> async_index_exact E R t"
    by (rule async_index.exact_other [where T = "table R s"]) (use same in auto)
  show "cs \<inter> insert CF_DEFERRED_CALL deferred_ics = {} \<Longrightarrow> call_index_exact E R s \<Longrightarrow> call_index_exact E R t"
    by (rule call_index.exact_other [where T = "table R s"]) (use same in auto)
  show "CF_SLOT \<notin> cs \<Longrightarrow> slots_ok E (table R s CF_SLOT) \<Longrightarrow> slots_ok E (table R t CF_SLOT)"
    by (simp add: same)
qed

lemma cfs_ics:
  "CF_SLOT \<notin> transfer_cfs" "transfer_cfs \<inter> insert CF_SC_EVENT event_ics = {}"
  "transfer_cfs \<inter> insert CF_ASYNC_MSG async_ics = {}" "transfer_cfs \<inter> insert CF_DEFERRED_CALL deferred_ics = {}"
  "async_cfs \<inter> insert CF_TRANSFER transfer_ics = {}" "async_cfs \<inter> insert CF_SC_EVENT event_ics = {}"
  "async_cfs \<inter> insert CF_DEFERRED_CALL deferred_ics = {}" "CF_SLOT \<notin> async_cfs"
  "deferred_cfs \<inter> insert CF_TRANSFER transfer_ics = {}" "deferred_cfs \<inter> insert CF_SC_EVENT event_ics = {}"
  "deferred_cfs \<inter> insert CF_ASYNC_MSG async_ics = {}" "CF_SLOT \<notin> deferred_cfs"
  "{CF_SLOT} \<inter> insert CF_TRANSFER transfer_ics = {}" "{CF_SLOT} \<inter> insert CF_SC_EVENT event_ics = {}"
  "{CF_SLOT} \<inter> insert CF_ASYNC_MSG async_ics = {}" "{CF_SLOT} \<inter> insert CF_DEFERRED_CALL deferred_ics = {}"
  by (simp_all add: transfer_cfs_def async_cfs_def deferred_cfs_def event_ics_def transfer_ics_def
      async_ics_def deferred_ics_def)

text \<open>Clear, write, reconcile: what \<open>handle_transfers\<close> does to the database before the slot row.\<close>

definition store_transfers ::
  "('s, 'v, 'x) ext_scheme \<Rightarrow> slot \<Rightarrow> stored_transfer list \<Rightarrow> i64 \<Rightarrow> ('s, unit) dbm" where
  "store_transfers E sl rs now =
     bnd (bnd (clear_transfers_for_slot E (sl_period sl) (sl_thread sl)) (\<lambda>_. for_each rs (write_transfer E))) (\<lambda>_.
     bnd (reconcile_async_from_transfers E sl rs now) (\<lambda>_.
     reconcile_deferred_from_transfers E sl rs now))"

lemma handle_transfers_eq:
  "ti_slot resp = Some ns \<Longrightarrow> handle_transfers E resp now =
     bnd (on_db (store_transfers E (node_slot ns) (slot_transfers resp (node_slot ns) now) now))
       (\<lambda>_. mark_transfers E (node_slot ns) now)"
  by (rule ext)
    (simp add: handle_transfers_def store_transfers_def bnd_def on_db_def lift_def Let_def ret_def
      split: prod.split sum.split)

lemma store_transfers_run:
  assumes "db_ok E R" "db_good E R s" "sorted_wrt (<) (map transfer_key_of rs)"
    and "\<And>r. r \<in> set rs \<Longrightarrow> wf_transfer r \<and> tr_slot r = sl"
  shows "\<exists>t. store_transfers E sl rs now s = (Inr (), t) \<and> db_good E R t \<and>
    table R t CF_SLOT = table R s CF_SLOT \<and>
    (\<forall>k. row_at (decode_transfer E) (table R t CF_TRANSFER) k =
      (if starts_with k (slot_key (sl_period sl) (sl_thread sl)) then keyed transfer_key_of rs k
       else row_at (decode_transfer E) (table R s CF_TRANSFER) k)) \<and>
    (\<forall>i. map_option am_state (async_at E R t i) =
      fold (\<lambda>r st. async_settled st (async_outcome i r)) rs (map_option am_state (async_at E R s i))) \<and>
    (\<forall>i. map_option dc_state (call_at E R t i) = fold (call_settled i) rs (map_option dc_state (call_at E R s i)))"
proof -
  note ok = db_okD [OF assms(1)]
  let ?puts = "bnd (clear_transfers_for_slot E (sl_period sl) (sl_thread sl)) (\<lambda>_. for_each rs (write_transfer E))"
  have distinct: "distinct (map transfer_key_of rs)"
    using assms(3) by (simp add: strict_sorted_iff)
  have good: "slots_ok E (table R s CF_SLOT)" "transfer_index_exact E R s" "event_index_exact E R s"
      "async_index_exact E R s" "call_index_exact E R s"
    using assms(2) by (simp_all add: db_good_def)
  obtain s1 where s1: "?puts s = (Inr (), s1)" "transfer_index_exact E R s1"
      "\<And>k. row_at (decode_transfer E) (table R s1 CF_TRANSFER) k =
        (if starts_with k (slot_key (sl_period sl) (sl_thread sl)) then keyed transfer_key_of rs k
         else row_at (decode_transfer E) (table R s CF_TRANSFER) k)"
    by (rule transfer_set.replace_slot [OF assms(1) good(2) distinct, where p = "sl_period sl" and th = "sl_thread sl"])
      (use assms(4) in \<open>auto simp del: if_split\<close>)
  have t1: "touches R transfer_cfs ?puts"
    using ok(2) by (intro touches_bnd touches_clear_transfers touches_for_each touches_write_transfer) simp_all
  note good1 = s1(2) keeps_exact(2-5) [OF t1 s1(1)]
  obtain s2 where s2: "reconcile_async_from_transfers E sl rs now s1 = (Inr (), s2)" "async_index_exact E R s2"
      "\<And>i. map_option am_state (async_at E R s2 i) =
        fold (\<lambda>r st. async_settled st (async_outcome i r)) rs (map_option am_state (async_at E R s1 i))"
    using reconcile_async_run [OF assms(1), of s1 sl rs now] good1(3) good cfs_ics by blast
  have t2: "touches R async_cfs (reconcile_async_from_transfers E sl rs now)"
    using ok(2) by (intro touches_reconcile_async) simp_all
  note good2 = s2(2) keeps_exact(1,2,4,5) [OF t2 s2(1)]
  obtain s3 where s3: "reconcile_deferred_from_transfers E sl rs now s2 = (Inr (), s3)" "call_index_exact E R s3"
      "\<And>i. map_option dc_state (call_at E R s3 i) = fold (call_settled i) rs (map_option dc_state (call_at E R s2 i))"
    using reconcile_deferred_run [OF assms(1), of s2 sl rs now] good1 good2 good cfs_ics by blast
  have t3: "touches R deferred_cfs (reconcile_deferred_from_transfers E sl rs now)"
    using ok(2) by (intro touches_reconcile_deferred) simp_all
  note good3 = s3(2) keeps_exact(1,2,3,5) [OF t3 s3(1)]
  have run: "store_transfers E sl rs now s = (Inr (), s3)"
    unfolding store_transfers_def by (subst bnd_run, rule s1(1), subst bnd_run, rule s2(1), rule s3(1))
  have frame: "c \<notin> transfer_cfs \<Longrightarrow> table R s1 c = table R s c" "c \<notin> async_cfs \<Longrightarrow> table R s2 c = table R s1 c"
      "c \<notin> deferred_cfs \<Longrightarrow> table R s3 c = table R s2 c" for c
    by (rule touchesD [OF t1 s1(1)] touchesD [OF t2 s2(1)] touchesD [OF t3 s3(1)], assumption)+
  have "CF_TRANSFER \<notin> async_cfs" "CF_TRANSFER \<notin> deferred_cfs" "CF_ASYNC_MSG \<notin> transfer_cfs"
      "CF_ASYNC_MSG \<notin> deferred_cfs" "CF_DEFERRED_CALL \<notin> transfer_cfs" "CF_DEFERRED_CALL \<notin> async_cfs"
    by (simp_all add: transfer_cfs_def async_cfs_def deferred_cfs_def)
  then have rows: "table R s3 CF_TRANSFER = table R s1 CF_TRANSFER" "async_at E R s3 = async_at E R s2"
      "async_at E R s1 = async_at E R s" "call_at E R s2 = call_at E R s"
    by (simp_all add: frame async_at_def [abs_def] call_at_def [abs_def])
  have "db_good E R s3"
    unfolding db_good_def using good1 good2 good3 good cfs_ics by blast
  moreover have "table R s3 CF_SLOT = table R s CF_SLOT"
    by (simp add: frame cfs_ics)
  ultimately show ?thesis
    using run s1(3) s2(3) s3(3) by (intro exI [of _ s3]) (simp add: rows)
qed

lemma list_slot_transfers:
  assumes "db_ok E R" "transfer_index_exact E R s" "sorted_wrt (<) (map transfer_key_of rs)"
    and "\<And>r. r \<in> set rs \<Longrightarrow> tr_slot r = sl"
    and "\<And>k. starts_with k (slot_key (sl_period sl) (sl_thread sl)) \<Longrightarrow>
      row_at (decode_transfer E) (table R s CF_TRANSFER) k = keyed transfer_key_of rs k"
  shows "iter_transfers_for_slot E s (sl_period sl) (sl_thread sl) = Inr rs"
proof (rule list_transfers [OF assms(1) _ assms(5,3)])
  show "table R s CF_TRANSFER k = None \<or> row_at (decode_transfer E) (table R s CF_TRANSFER) k \<noteq> None" for k
    using assms(2) unfolding exact_def row_at_def by (cases "table R s CF_TRANSFER k") fastforce+
qed (use assms(4) in auto)

lemma handle_transfers_run:
  assumes "db_ok E R" "db_good E R (w_db w)" "ti_slot resp = Some ns" "sl = node_slot ns"
    and "length (slot_transfers resp sl now) < 2 ^ 32"
  shows "\<exists>w' st. handle_transfers E resp now w = (Inr (), w') \<and> db_good E R (w_db w') \<and>
    iter_transfers_for_slot E (w_db w') (sl_period sl) (sl_thread sl) = Inr (slot_transfers resp sl now) \<and>
    (\<forall>k. \<not> starts_with k (slot_key (sl_period sl) (sl_thread sl)) \<longrightarrow>
      row_at (decode_transfer E) (table R (w_db w') CF_TRANSFER) k =
      row_at (decode_transfer E) (table R (w_db w) CF_TRANSFER) k) \<and>
    (\<forall>i. map_option am_state (async_at E R (w_db w') i) =
      fold (\<lambda>r st. async_settled st (async_outcome i r)) (slot_transfers resp sl now)
        (map_option am_state (async_at E R (w_db w) i))) \<and>
    (\<forall>i. map_option dc_state (call_at E R (w_db w') i) =
      fold (call_settled i) (slot_transfers resp sl now) (map_option dc_state (call_at E R (w_db w) i))) \<and>
    slot_at E (table R (w_db w') CF_SLOT) sl = Some st \<and> transfers_stored (st_completeness st)"
proof -
  let ?rs = "slot_transfers resp sl now"
  note sorted = slot_transfers_sorted [OF assms(5)]
  obtain t where t: "store_transfers E sl ?rs now (w_db w) = (Inr (), t)" "db_good E R t"
      "\<And>k. row_at (decode_transfer E) (table R t CF_TRANSFER) k =
        (if starts_with k (slot_key (sl_period sl) (sl_thread sl)) then keyed transfer_key_of ?rs k
         else row_at (decode_transfer E) (table R (w_db w) CF_TRANSFER) k)"
      "\<forall>i. map_option am_state (async_at E R t i) =
        fold (\<lambda>r st. async_settled st (async_outcome i r)) ?rs (map_option am_state (async_at E R (w_db w) i))"
      "\<forall>i. map_option dc_state (call_at E R t i) =
        fold (call_settled i) ?rs (map_option dc_state (call_at E R (w_db w) i))"
    using store_transfers_run [OF assms(1,2) sorted, of sl now] slot_transfers_rows by blast
  let ?w = "w\<lparr>w_db := t\<rparr>"
  have "slots_ok E (table R (w_db ?w) CF_SLOT)"
    using t(2) by (simp add: db_good_def)
  then obtain w' st where w': "mark_transfers E sl now ?w = (Inr (), w')" "slots_ok E (table R (w_db w') CF_SLOT)"
      "slot_at E (table R (w_db w') CF_SLOT) sl = Some st" "transfers_stored (st_completeness st)"
      and same: "\<And>c. c \<noteq> CF_SLOT \<Longrightarrow> table R (w_db w') c = table R t c"
    using mark_transfers_run [OF assms(1), of ?w sl now] by auto
  have "store_transfers E sl ?rs now (w_db w) = (Inr (), t) \<Longrightarrow> handle_transfers E resp now w = (Inr (), w')"
    using w'(1) by (simp add: handle_transfers_eq [OF assms(3)] flip: assms(4)) (simp add: bnd_def on_db_def)
  then have run: "handle_transfers E resp now w = (Inr (), w')"
    using t(1) by blast
  have good: "db_good E R (w_db w')"
    using t(2) w'(2) same by (simp add: db_good_def exact_def event_ics_def transfer_ics_def async_ics_def deferred_ics_def)
  have list: "iter_transfers_for_slot E (w_db w') (sl_period sl) (sl_thread sl) = Inr ?rs"
    by (rule list_slot_transfers [OF assms(1) _ sorted])
      (use good t(3) same slot_transfers_rows in \<open>auto simp: db_good_def\<close>)
  have "async_at E R (w_db w') = async_at E R t" "call_at E R (w_db w') = call_at E R t"
    by (simp_all add: async_at_def [abs_def] call_at_def [abs_def] same)
  with run good list w'(3,4) t(3-5) same show ?thesis
    by (intro exI [of _ w'] exI [of _ st]) simp
qed

end
