(* ===== verification/Settle_Laws.thy ===== *)
theory Settle_Laws
  imports Transfer_Laws
begin

text \<open>
  Operations and blocks as FINAL execution outputs settle them: a row is read, changed if it has to
  be, and written back.  \<open>row_store\<close> is the contract of such rows; from it, the statuses that
  \<open>apply_executed_ops_changes\<close> and \<open>apply_finality_to_blocks\<close> leave on a healthy database
  all of whose rows decode.
\<close>

section \<open>Rows that are read, changed and written back\<close>

definition rows_ok :: "('v \<Rightarrow> codec_error + 'r) \<Rightarrow> ('r \<Rightarrow> bytes) \<Rightarrow> (bytes \<Rightarrow> 'v option) \<Rightarrow> bool" where
  "rows_ok dec key_of F \<longleftrightarrow> (\<forall>k v. F k = Some v \<longrightarrow> (\<exists>r. dec v = Inr r \<and> key_of r = k))"

lemma rows_ok_at: "rows_ok dec key_of F \<Longrightarrow> row_at dec F k = Some r \<Longrightarrow> key_of r = k"
  by (fastforce simp: rows_ok_def row_at_def bind_eq_Some_conv)

definition change_row ::
  "('s \<Rightarrow> bytes \<Rightarrow> error + 'r option) \<Rightarrow> ('r \<Rightarrow> ('s, unit) dbm) \<Rightarrow> bytes \<Rightarrow> ('r \<Rightarrow> 'r option) \<Rightarrow>
   ('s, unit) dbm" where
  "change_row get_row put_row k f = bnd (readm (\<lambda>s. get_row s k)) (\<lambda>found.
     case Option.bind found f of None \<Rightarrow> ret () | Some r \<Rightarrow> put_row r)"

locale row_store =
  fixes ok :: bool
    and tab :: "'s \<Rightarrow> 'v tables"
    and prim :: cf
    and dec :: "'v \<Rightarrow> codec_error + 'r"
    and wf :: "'r \<Rightarrow> bool"
    and key_of :: "'r \<Rightarrow> bytes"
    and get_row :: "'s \<Rightarrow> bytes \<Rightarrow> error + 'r option"
    and put_row :: "'r \<Rightarrow> ('s, unit) dbm"
  assumes gets: "ok \<Longrightarrow> rows_ok dec key_of (tab s prim) \<Longrightarrow> get_row s k = Inr (row_at dec (tab s prim) k)"
    and dec_wf: "ok \<Longrightarrow> dec v = Inr r \<Longrightarrow> wf r"
    and puts: "ok \<Longrightarrow> wf r \<Longrightarrow> \<exists>t v. put_row r s = (Inr (), t) \<and> dec v = Inr r \<and>
      tab t prim = (tab s prim)(key_of r \<mapsto> v)"
begin

lemma change_run:
  assumes ok "rows_ok dec key_of (tab s prim)"
    and f: "\<And>r r'. wf r \<Longrightarrow> f r = Some r' \<Longrightarrow> wf r' \<and> key_of r' = key_of r"
  shows "\<exists>t. change_row get_row put_row k f s = (Inr (), t) \<and> rows_ok dec key_of (tab t prim) \<and>
    (\<forall>j. row_at dec (tab t prim) j =
      (if j = k then map_option (\<lambda>r. unwrap_or r (f r)) (row_at dec (tab s prim) k)
       else row_at dec (tab s prim) j))"
proof (cases "Option.bind (row_at dec (tab s prim) k) f")
  case None
  then have "change_row get_row put_row k f s = (Inr (), s)"
    using gets [OF assms(1,2)] by (simp add: change_row_def bnd_def readm_def ret_def)
  moreover have "map_option (\<lambda>r. unwrap_or r (f r)) (row_at dec (tab s prim) k) = row_at dec (tab s prim) k"
    using None by (cases "row_at dec (tab s prim) k") (simp_all add: unwrap_or_def)
  ultimately show ?thesis
    using assms(2) by (intro exI [of _ s]) simp
next
  case (Some r')
  then obtain r where r: "row_at dec (tab s prim) k = Some r" "f r = Some r'"
    by (auto simp: bind_eq_Some_conv)
  have "wf r"
    using r(1) dec_wf [OF assms(1)] by (auto simp: row_at_def bind_eq_Some_conv)
  then have r': "wf r'" "key_of r' = k"
    using f r(2) rows_ok_at [OF assms(2) r(1)] by auto
  obtain t v where t: "put_row r' s = (Inr (), t)" "dec v = Inr r'"
      "tab t prim = (tab s prim)(key_of r' \<mapsto> v)"
    using puts [OF assms(1) r'(1)] by blast
  have "change_row get_row put_row k f s = (Inr (), t)"
    using t(1) Some gets [OF assms(1,2)] by (simp add: change_row_def bnd_def readm_def)
  with t r r' assms(2) show ?thesis
    by (intro exI [of _ t]) (auto simp: row_at_def rows_ok_def unwrap_or_def)
qed

end

lemma get_decoded_rows:
  assumes "db_ok E R" "rows_ok dec key_of (table R s c)"
  shows "get_decoded E s c k dec = Inr (row_at dec (table R s c) k)"
  using assms by (fastforce simp: get_decoded_ok rows_ok_def row_at_def split: option.splits)

lemma put_row_table:
  assumes "db_ok E R" "c \<notin> write_cf ` set rest"
  obtains t where "db_write E (Put c k v # rest) s = (Inr (), t)" "table R t c = (table R s c)(k \<mapsto> v)"
proof -
  obtain t where "db_write E (Put c k v # rest) s = (Inr (), t)"
      "table R t = apply_batch (Put c k v # rest) (table R s)"
    by (rule db_write_ok [OF assms(1)])
  then show ?thesis
    using that assms(2) by (simp add: apply_batch_other fun_eq_iff)
qed

interpretation op_store: row_store "db_ok E R" "table R" CF_OP "decode_operation E" "wf_operation E"
    "\<lambda>p. id_key (op_id p)" "\<lambda>s k. get_decoded E s CF_OP k (decode_operation E)" "write_op E"
  for E :: "('s, 'v, 'x) ext_scheme" and R
proof (unfold_locales, rule get_decoded_rows, assumption, assumption, rule operation_codec.dec_wf,
    rule db_okD(1), assumption, assumption)
  fix r :: stored_operation and s :: 's
  assume db: "db_ok E R" and wf: "wf_operation E r"
  obtain v where v: "encode_operation E r = Inr v" "decode_operation E v = Inr r"
    using operation_codec.enc_dec [OF db_okD(1) [OF db] wf] by blast
  have batch: "op_batch E r v = Put CF_OP (id_key (op_id r)) v # tl (op_batch E r v)"
      "CF_OP \<notin> write_cf ` set (tl (op_batch E r v))"
    by (auto simp: op_batch_def Let_def split: list.splits option.splits)
  obtain t where "db_write E (op_batch E r v) s = (Inr (), t)"
      "table R t CF_OP = (table R s CF_OP)(id_key (op_id r) \<mapsto> v)"
    using put_row_table [OF db batch(2), of "id_key (op_id r)" v s] batch(1) by metis
  with v show "\<exists>t v. write_op E r s = (Inr (), t) \<and> decode_operation E v = Inr r \<and>
      table R t CF_OP = (table R s CF_OP)(id_key (op_id r) \<mapsto> v)"
    by (auto simp: write_op_def)
qed

interpretation block_store: row_store "db_ok E R" "table R" CF_BLOCK "decode_block E" "wf_block E"
    "\<lambda>b. id_key (bk_id b)" "\<lambda>s k. get_decoded E s CF_BLOCK k (decode_block E)" "write_block E"
  for E :: "('s, 'v, 'x) ext_scheme" and R
proof (unfold_locales, rule get_decoded_rows, assumption, assumption, rule block_codec.dec_wf,
    rule db_okD(1), assumption, assumption)
  fix r :: stored_block and s :: 's
  assume db: "db_ok E R" and wf: "wf_block E r"
  obtain v where v: "encode_block E r = Inr v" "decode_block E v = Inr r"
    using block_codec.enc_dec [OF db_okD(1) [OF db] wf] by blast
  have batch: "block_batch E r v = Put CF_BLOCK (id_key (bk_id r)) v # tl (block_batch E r v)"
      "CF_BLOCK \<notin> write_cf ` set (tl (block_batch E r v))"
    by (auto simp: block_batch_def Let_def)
  obtain t where "db_write E (block_batch E r v) s = (Inr (), t)"
      "table R t CF_BLOCK = (table R s CF_BLOCK)(id_key (bk_id r) \<mapsto> v)"
    using put_row_table [OF db batch(2), of "id_key (bk_id r)" v s] batch(1) by metis
  with v show "\<exists>t v. write_block E r s = (Inr (), t) \<and> decode_block E v = Inr r \<and>
      table R t CF_BLOCK = (table R s CF_BLOCK)(id_key (bk_id r) \<mapsto> v)"
    by (auto simp: write_block_def)
qed

section \<open>Operations\<close>

abbreviation ops_ok :: "('s, 'v, 'x) ext_scheme \<Rightarrow> ('s, 'v) rows \<Rightarrow> 's \<Rightarrow> bool" where
  "ops_ok E R s \<equiv> rows_ok (decode_operation E) (\<lambda>p. id_key (op_id p)) (table R s CF_OP)"

abbreviation blocks_ok :: "('s, 'v, 'x) ext_scheme \<Rightarrow> ('s, 'v) rows \<Rightarrow> 's \<Rightarrow> bool" where
  "blocks_ok E R s \<equiv> rows_ok (decode_block E) (\<lambda>b. id_key (bk_id b)) (table R s CF_BLOCK)"

definition op_at :: "('s, 'v, 'x) ext_scheme \<Rightarrow> ('s, 'v) rows \<Rightarrow> 's \<Rightarrow> operation_id \<Rightarrow> stored_operation option" where
  "op_at E R s i = row_at (decode_operation E) (table R s CF_OP) (id_key i)"

definition block_at :: "('s, 'v, 'x) ext_scheme \<Rightarrow> ('s, 'v) rows \<Rightarrow> 's \<Rightarrow> block_id \<Rightarrow> stored_block option" where
  "block_at E R s i = row_at (decode_block E) (table R s CF_BLOCK) (id_key i)"

text \<open>What an entry says of an operation, and what that does to its row.\<close>

definition exec_said :: "'x crates_scheme \<Rightarrow> operation_id \<Rightarrow> executed_ops_entry \<Rightarrow> exec_status option" where
  "exec_said C i e =
     (case op_parse C (eo_operation_id e) of
        Inl _ \<Rightarrow> None
      | Inr j \<Rightarrow> if id_key j = id_key i then exec_status_of_node (unwrap_or 0 (eo_status e)) else None)"

definition settled :: "bool \<Rightarrow> exec_status option \<Rightarrow> stored_operation \<Rightarrow> stored_operation" where
  "settled f said p = (case said of None \<Rightarrow> p | Some st \<Rightarrow> unwrap_or p (settle_exec f st p))"

lemma settled_None [simp]: "settled f None = (\<lambda>p. p)"
  by (simp add: settled_def fun_eq_iff)

lemma settled_Some: "settled f (Some st) = (\<lambda>p. unwrap_or p (settle_exec f st p))"
  by (simp add: settled_def fun_eq_iff)

lemma settle_exec_wf:
  "wf_operation C p \<Longrightarrow> settle_exec f st p = Some q \<Longrightarrow> wf_operation C q \<and> op_id q = op_id p"
  by (auto simp: settle_exec_def wf_operation_def split: if_splits)

lemma apply_executed_op_run:
  assumes "db_ok E R" "ops_ok E R s" "op_parse E (eo_operation_id e) = Inr j"
  shows "\<exists>t. apply_executed_op E f e j s = (Inr (), t) \<and> ops_ok E R t \<and>
    (\<forall>i. op_at E R t i = map_option (settled f (exec_said E i e)) (op_at E R s i))"
proof (cases "exec_status_of_node (unwrap_or 0 (eo_status e))")
  case None
  then have "exec_said E i e = None" for i
    using assms(3) by (simp add: exec_said_def)
  with None assms(2) show ?thesis
    by (simp add: apply_executed_op_def ret_def settled_def option.map_ident)
next
  case (Some st)
  have settle': "wf_operation E r' \<and> id_key (op_id r') = id_key (op_id r)"
    if "wf_operation E r" "settle_exec f st r = Some r'" for r r'
    using settle_exec_wf [OF that] by simp
  obtain t where t: "change_row (\<lambda>s k. get_decoded E s CF_OP k (decode_operation E)) (write_op E) (id_key j) (settle_exec f st) s = (Inr (), t)" "ops_ok E R t"
      "\<And>k. row_at (decode_operation E) (table R t CF_OP) k =
        (if k = id_key j then map_option (\<lambda>r. unwrap_or r (settle_exec f st r))
           (row_at (decode_operation E) (table R s CF_OP) (id_key j))
         else row_at (decode_operation E) (table R s CF_OP) k)"
    using op_store.change_run [OF assms(1,2), where f = "settle_exec f st" and k = "id_key j", OF settle']
    by blast
  have "apply_executed_op E f e j = change_row (\<lambda>s k. get_decoded E s CF_OP k (decode_operation E)) (write_op E) (id_key j) (settle_exec f st)"
    by (simp add: apply_executed_op_def Some change_row_def read_op_def)
  moreover have "op_at E R t i = map_option (settled f (exec_said E i e)) (op_at E R s i)" for i
    using t(3) [of "id_key i"] assms(3) Some
    by (simp add: op_at_def exec_said_def settled_Some option.map_ident)
  ultimately show ?thesis
    using t(1,2) by (intro exI [of _ t]) simp
qed

lemma apply_executed_ops_run:
  assumes "db_ok E R"
  shows "ops_ok E R s \<Longrightarrow>
    \<exists>t. fold_each (\<lambda>out e. case op_parse E (eo_operation_id e) of
        Inl _ \<Rightarrow> ret out
      | Inr i \<Rightarrow> bnd (apply_executed_op E f e i) (\<lambda>_. ret (out @ [i]))) out es s =
      (Inr (out @ List.map_filter (\<lambda>e. res_ok (op_parse E (eo_operation_id e))) es), t) \<and> ops_ok E R t \<and>
    (\<forall>i. op_at E R t i = map_option (fold (\<lambda>e. settled f (exec_said E i e)) es) (op_at E R s i))"
proof (induction es arbitrary: s out)
  case Nil
  then show ?case by (simp add: ret_def List.map_filter_simps option.map_ident)
next
  case (Cons e es)
  show ?case
  proof (cases "op_parse E (eo_operation_id e)")
    case (Inl err)
    then have "exec_said E i e = None" for i
      by (simp add: exec_said_def)
    with Inl Cons.IH [OF Cons.prems, of out] show ?thesis
      by (simp add: List.map_filter_simps)
  next
    case (Inr j)
    obtain t where t: "apply_executed_op E f e j s = (Inr (), t)" "ops_ok E R t"
        "\<And>i. op_at E R t i = map_option (settled f (exec_said E i e)) (op_at E R s i)"
      using apply_executed_op_run [OF assms Cons.prems Inr] by blast
    from Cons.IH [OF t(2), of "out @ [j]"] show ?thesis
      using t Inr by (simp add: List.map_filter_simps bnd_def ret_def option.map_comp comp_def)
  qed
qed

text \<open>The first FINAL status stands; on a FINAL frame the candidate status follows it.\<close>

lemma fold_settled_final:
  "op_final_exec_status (fold (\<lambda>e. settled True (exec_said C i e)) es p) =
     (case op_final_exec_status p of
        Some st \<Rightarrow> Some st
      | None \<Rightarrow> (case List.map_filter (exec_said C i) es of [] \<Rightarrow> None | st # _ \<Rightarrow> Some st))"
proof (induction es arbitrary: p)
  case Nil
  then show ?case by (simp add: List.map_filter_simps split: option.split)
next
  case (Cons e es)
  show ?case
  proof (cases "exec_said C i e")
    case None
    with Cons show ?thesis by (simp add: List.map_filter_simps split: option.split)
  next
    case (Some st)
    then have "op_final_exec_status (settled True (exec_said C i e) p) =
        (case op_final_exec_status p of Some st \<Rightarrow> Some st | None \<Rightarrow> Some st)"
      by (simp add: settled_def settle_exec_def unwrap_or_def split: option.split)
    with Some Cons show ?thesis
      by (simp add: List.map_filter_simps split: option.split)
  qed
qed

section \<open>Blocks\<close>

definition with_status :: "block_status \<Rightarrow> stored_block \<Rightarrow> stored_block" where
  "with_status st b = b\<lparr>bk_status := st\<rparr>"

lemma set_block_status_run:
  assumes "db_ok E R" "blocks_ok E R s"
  shows "\<exists>t. set_block_status E bid st s = (Inr (), t) \<and> blocks_ok E R t \<and>
    (\<forall>i. block_at E R t i = (if id_key i = id_key bid then map_option (with_status st) (block_at E R s i)
       else block_at E R s i))"
proof -
  let ?f = "\<lambda>b. if bk_status b \<noteq> st then Some (with_status st b) else None"
  have f: "unwrap_or b (?f b) = with_status st b" for b
    by (cases b) (simp add: with_status_def)
  have wf: "wf_block E r' \<and> id_key (bk_id r') = id_key (bk_id r)" if "wf_block E r" "?f r = Some r'" for r r'
    using that by (auto simp: wf_block_def with_status_def split: if_splits)
  obtain t where t: "change_row (\<lambda>s k. get_decoded E s CF_BLOCK k (decode_block E)) (write_block E) (id_key bid) ?f s = (Inr (), t)" "blocks_ok E R t"
      "\<And>k. row_at (decode_block E) (table R t CF_BLOCK) k =
        (if k = id_key bid then map_option (\<lambda>r. unwrap_or r (?f r)) (row_at (decode_block E) (table R s CF_BLOCK) (id_key bid))
         else row_at (decode_block E) (table R s CF_BLOCK) k)"
    using block_store.change_run [OF assms, where f = ?f and k = "id_key bid", OF wf] by blast
  have "set_block_status E bid st = change_row (\<lambda>s k. get_decoded E s CF_BLOCK k (decode_block E)) (write_block E) (id_key bid) ?f"
    by (auto simp: set_block_status_def change_row_def read_block_def with_status_def fun_eq_iff
        bnd_def readm_def split: option.split sum.split)
  moreover have "block_at E R t i = (if id_key i = id_key bid then map_option (with_status st) (block_at E R s i)
       else block_at E R s i)" for i
    using t(3) [of "id_key i"] by (simp add: block_at_def f)
  ultimately show ?thesis
    using t(1,2) by (intro exI [of _ t]) simp
qed

lemma with_status_twice [simp]: "with_status st (with_status st' b) = with_status st b"
  by (simp add: with_status_def)

definition final_status :: "block_id option \<Rightarrow> block_id list \<Rightarrow> block_id \<Rightarrow> stored_block \<Rightarrow> stored_block" where
  "final_status fin cs i =
     (if Some i = fin then with_status BlockFinal
      else if i \<in> set cs then with_status Discarded else (\<lambda>b. b))"

lemma mark_candidates_run:
  assumes "db_ok E R"
  shows "blocks_ok E R s \<Longrightarrow> list_all (wf_block_id E) cs \<Longrightarrow>
    \<exists>t. for_each cs (\<lambda>bid. set_block_status E bid (if Some bid = fin then BlockFinal else Discarded)) s =
        (Inr (), t) \<and> blocks_ok E R t \<and>
      (\<forall>i. wf_block_id E i \<longrightarrow> block_at E R t i =
        (if i \<in> set cs then map_option (final_status fin cs i) (block_at E R s i) else block_at E R s i))"
proof (induction cs arbitrary: s)
  case Nil
  then show ?case by (simp add: ret_def)
next
  case (Cons c cs)
  let ?st = "if Some c = fin then BlockFinal else Discarded"
  obtain t where t: "set_block_status E c ?st s = (Inr (), t)" "blocks_ok E R t"
      "\<And>i. block_at E R t i = (if id_key i = id_key c then map_option (with_status ?st) (block_at E R s i)
        else block_at E R s i)"
    using set_block_status_run [OF assms(1) Cons.prems(1)] by metis
  obtain u where u: "for_each cs (\<lambda>bid. set_block_status E bid (if Some bid = fin then BlockFinal else Discarded)) t =
        (Inr (), u)" "blocks_ok E R u"
      "\<And>i. wf_block_id E i \<Longrightarrow> block_at E R u i =
        (if i \<in> set cs then map_option (final_status fin cs i) (block_at E R t i) else block_at E R t i)"
    using Cons.IH [OF t(2)] Cons.prems(2) by auto
  have "block_at E R u i = (if i \<in> set (c # cs) then map_option (final_status fin (c # cs) i) (block_at E R s i)
      else block_at E R s i)" if "wf_block_id E i" for i
  proof -
    have "id_key i = id_key c \<longleftrightarrow> i = c"
      using that Cons.prems(2) by (simp add: wf_gid_eq)
    with u(3) [OF that] t(3) [of i] show ?thesis
      by (auto simp: final_status_def option.map_comp comp_def)
  qed
  with t(1) u(1,2) show ?case
    by (simp add: bnd_def)
qed

lemma apply_finality_run:
  assumes "db_ok E R" "blocks_ok E R s" "list_all (wf_block_id E) cs" "wf_opt (wf_block_id E) fin"
  shows "\<exists>t. apply_finality_to_blocks E fin cs s = (Inr (), t) \<and> blocks_ok E R t \<and>
    (\<forall>i. wf_block_id E i \<longrightarrow> block_at E R t i = map_option (final_status fin cs i) (block_at E R s i))"
proof -
  obtain t where t: "for_each cs (\<lambda>bid. set_block_status E bid (if Some bid = fin then BlockFinal else Discarded)) s =
        (Inr (), t)" "blocks_ok E R t"
      "\<And>i. wf_block_id E i \<Longrightarrow> block_at E R t i =
        (if i \<in> set cs then map_option (final_status fin cs i) (block_at E R s i) else block_at E R s i)"
    using mark_candidates_run [OF assms(1-3), of fin] by blast
  show ?thesis
  proof (cases "\<exists>b. fin = Some b \<and> b \<notin> set cs")
    case True
    then obtain b where b: "fin = Some b" "b \<notin> set cs" by blast
    obtain u where u: "set_block_status E b BlockFinal t = (Inr (), u)" "blocks_ok E R u"
        "\<And>i. block_at E R u i = (if id_key i = id_key b then map_option (with_status BlockFinal) (block_at E R t i)
          else block_at E R t i)"
      using set_block_status_run [OF assms(1) t(2)] by metis
    have "block_at E R u i = map_option (final_status fin cs i) (block_at E R s i)" if "wf_block_id E i" for i
    proof -
      have "id_key i = id_key b \<longleftrightarrow> i = b"
        using that assms(4) b by (simp add: wf_gid_eq)
      with u(3) [of i] t(3) [OF that] b show ?thesis
        by (auto simp: final_status_def option.map_ident)
    qed
    with t(1) u(1,2) b show ?thesis
      by (simp add: apply_finality_to_blocks_def bnd_def)
  next
    case False
    have "block_at E R t i = map_option (final_status fin cs i) (block_at E R s i)" if "wf_block_id E i" for i
      using t(3) [OF that] False by (auto simp: final_status_def option.map_ident)
    with t(1,2) False show ?thesis
      by (auto simp: apply_finality_to_blocks_def bnd_def ret_def split: option.split)
  qed
qed

end
