(* ===== verification/Exec_Laws.thy ===== *)
theory Exec_Laws
  imports Settle_Laws
begin

text \<open>
  What a FINAL execution output does to a healthy database: \<open>apply_exec_frame\<close> run step by
  step, each step with what it establishes and the column families it leaves alone.
\<close>

section \<open>Events\<close>

text \<open>The broadcasts between the writes do not matter to the database.\<close>

lemma store_events_run:
  "for_each evs (write_sc_event E) (w_db w) = (Inr (), t) \<Longrightarrow>
   \<exists>w'. store_events E evs w = (Inr (), w') \<and> w_db w' = t"
proof (induction evs arbitrary: w)
  case Nil
  then show ?case by (simp add: store_events_def ret_def)
next
  case (Cons e evs)
  obtain s1 where s1: "write_sc_event E e (w_db w) = (Inr (), s1)" "for_each evs (write_sc_event E) s1 = (Inr (), t)"
    using Cons.prems by (auto simp: bnd_Inr)
  let ?w = "w\<lparr>w_db := s1, w_sse := sse_broadcast (json_event E) (EventSeen e) (w_sse w)\<rparr>"
  obtain w' where "store_events E evs ?w = (Inr (), w')" "w_db w' = t"
    using Cons.IH [of ?w] s1(2) by auto
  then show ?case
    using s1(1) by (intro exI [of _ w']) (simp add: store_events_def bnd_def on_db_def emit_def)
qed

lemma node_event_simps [simp]:
  "ev_slot (node_event C sl st i e) = sl" "ev_index_in_slot (node_event C sl st i e) = word_of_nat i"
  "ev_status (node_event C sl st i e) = st" "ev_data (node_event C sl st i e) = stringify_bytes (xe_data e)"
  by (simp_all add: node_event_def split: prod.split)

lemma list_all_map_filter:
  "(\<And>x y. f x = Some y \<Longrightarrow> P y) \<Longrightarrow> list_all P (List.map_filter f xs)"
  by (auto simp: list_all_iff List.map_filter_def)

lemma node_event_wf: "crates_ok C \<Longrightarrow> wf_sc_event C (node_event C sl st i e)"
proof -
  assume C: "crates_ok C"
  have all: "list_all (wf_addr C) (List.map_filter (addr_ok C) ts)" for ts
    by (rule list_all_map_filter) (rule wf_addr_ok [OF C])
  have "list_all P [last xs]" "list_all P [hd xs]" if "list_all P xs" "xs \<noteq> []" for P :: "address \<Rightarrow> bool" and xs
    using that by (simp_all add: list_all_iff)
  note ends = this [OF all]
  have "wf_opt (wf_op_id C) (Option.bind t (\<lambda>x. res_ok (op_parse C x)))" for t
    by (cases t) (auto simp: res_ok_def op_parse_wf [OF C] split: sum.split)
  then show ?thesis
    using ends by (auto simp: wf_sc_event_def node_event_def extract_event_context_def Let_def
        split: option.split)
qed

lemma node_events_rows:
  assumes "length evs < 2 ^ 32"
  shows "distinct (map event_key_of (node_events C sl st evs))"
    and "crates_ok C \<Longrightarrow> r \<in> set (node_events C sl st evs) \<Longrightarrow> wf_sc_event C r \<and> ev_slot r = sl"
proof -
  have "event_key_of (node_event C sl st i e) \<noteq> event_key_of (node_event C sl st j f)"
    if "i < j" "j < length evs" for i j e f
  proof -
    have "(word_of_nat i :: u32) \<noteq> word_of_nat j"
      using that assms by (simp add: word_eq_iff_unsigned unat_of_nat flip: word_unat_eq_iff)
        (simp add: word_unat_eq_iff unat_of_nat)
    then show ?thesis
      by (simp add: event_key_of_def sc_event_key_def)
  qed
  then show "distinct (map event_key_of (node_events C sl st evs))"
    by (auto simp: distinct_conv_nth node_events_def nth_enumerate_eq)
      (metis linorder_neqE_nat)
  show "wf_sc_event C r \<and> ev_slot r = sl" if "crates_ok C" "r \<in> set (node_events C sl st evs)"
    using that by (auto simp: node_events_def node_event_wf)
qed

definition slot_events :: "('s, 'v, 'x) ext_scheme \<Rightarrow> ('s, 'v) rows \<Rightarrow> 's \<Rightarrow> slot \<Rightarrow> bytes \<Rightarrow> stored_sc_event option" where
  "slot_events E R s sl k =
     (if starts_with k (slot_key (sl_period sl) (sl_thread sl))
      then row_at (decode_sc_event E) (table R s CF_SC_EVENT) k else None)"

lemma replace_events_run:
  assumes "db_ok E R" "event_index_exact E R (w_db w)" "length evs < 2 ^ 32"
  shows "\<exists>w'. replace_events E sl st evs w = (Inr (), w') \<and> event_index_exact E R (w_db w') \<and>
    slot_events E R (w_db w') sl = keyed event_key_of (node_events E sl st evs) \<and>
    (\<forall>c. c \<notin> event_cfs \<longrightarrow> table R (w_db w') c = table R (w_db w) c)"
proof -
  let ?rs = "node_events E sl st evs"
  let ?puts = "bnd (clear_sc_events_for_slot E (sl_period sl) (sl_thread sl)) (\<lambda>_. for_each ?rs (write_sc_event E))"
  note ok = db_okD [OF assms(1)]
  have rows: "wf_sc_event E r \<and> ev_slot r = Slot (sl_period sl) (sl_thread sl)" if "r \<in> set ?rs" for r
    using node_events_rows(2) [OF assms(3) ok(4) that] by simp
  obtain t where t: "?puts (w_db w) = (Inr (), t)" "event_index_exact E R t"
      "\<And>k. row_at (decode_sc_event E) (table R t CF_SC_EVENT) k =
        (if starts_with k (slot_key (sl_period sl) (sl_thread sl)) then keyed event_key_of ?rs k
         else row_at (decode_sc_event E) (table R (w_db w) CF_SC_EVENT) k)"
    by (rule event_set.replace_slot [OF assms(1,2) node_events_rows(1) [OF assms(3), of E sl st] rows])
      (assumption, rule that, (assumption | simp only:)+)
  obtain s1 where s1: "clear_sc_events_for_slot E (sl_period sl) (sl_thread sl) (w_db w) = (Inr (), s1)"
      "for_each ?rs (write_sc_event E) s1 = (Inr (), t)"
    using t(1) by (auto simp: bnd_Inr)
  obtain w' where w': "store_events E ?rs (w\<lparr>w_db := s1\<rparr>) = (Inr (), w')" "w_db w' = t"
    using store_events_run [of ?rs E "w\<lparr>w_db := s1\<rparr>" t] s1(2) by auto
  have run: "replace_events E sl st evs w = (Inr (), w')"
    using s1(1) w'(1) by (simp add: replace_events_def bnd_def on_db_def)
  have touch: "touches R event_cfs ?puts"
    using ok(2) by (intro frame_intros) simp_all
  have frame: "c \<notin> event_cfs \<Longrightarrow> table R t c = table R (w_db w) c" for c
    by (rule touchesD [OF touch t(1)])
  have "keyed event_key_of ?rs k = None" if "\<not> starts_with k (slot_key (sl_period sl) (sl_thread sl))" for k
    using rows event_set.key_slot [of _ "sl_period sl" "sl_thread sl"] that
    by (auto simp: keyed_def map_of_eq_None_iff)
  then have "slot_events E R t sl = keyed event_key_of ?rs"
    using t(3) by (auto simp: slot_events_def fun_eq_iff)
  with run w'(2) t(2) frame show ?thesis
    by auto
qed

section \<open>Operations, pool, parent slot\<close>

definition said_ops :: "execution_output \<Rightarrow> executed_ops_entry list" where
  "said_ops exec = (case xo_state_changes exec of None \<Rightarrow> [] | Some sc \<Rightarrow> sc_executed_ops_changes sc)"

definition executed_ids :: "'x crates_scheme \<Rightarrow> execution_output \<Rightarrow> operation_id list" where
  "executed_ids C exec = List.map_filter (\<lambda>e. res_ok (op_parse C (eo_operation_id e))) (said_ops exec)"

lemma with_ops_Nil [simp]: "with_ops [] st = st"
  by (simp add: with_ops_def)

lemma apply_exec_ops_run:
  assumes "db_ok E R" "ops_ok E R s"
  shows "\<exists>t. apply_exec_ops E exec f st s = (Inr (with_ops (executed_ids E exec) st), t) \<and> ops_ok E R t \<and>
    (\<forall>i. op_at E R t i = map_option (fold (\<lambda>e. settled f (exec_said E i e)) (said_ops exec)) (op_at E R s i))"
proof (cases "xo_state_changes exec")
  case None
  with assms(2) show ?thesis
    by (simp add: apply_exec_ops_def executed_ids_def said_ops_def List.map_filter_simps ret_def option.map_id)
next
  case (Some sc)
  from apply_executed_ops_run [OF assms, where out = "[]" and f = f and es = "sc_executed_ops_changes sc"] obtain t where
    "apply_executed_ops_changes E (sc_executed_ops_changes sc) f s =
      (Inr (List.map_filter (\<lambda>e. res_ok (op_parse E (eo_operation_id e))) (sc_executed_ops_changes sc)), t)"
    "ops_ok E R t"
    "\<forall>i. op_at E R t i =
      map_option (fold (\<lambda>e. settled f (exec_said E i e)) (sc_executed_ops_changes sc)) (op_at E R s i)"
    unfolding apply_executed_ops_changes_def by auto
  with Some show ?thesis
    by (intro exI [of _ t]) (simp add: apply_exec_ops_def executed_ids_def said_ops_def bnd_def ret_def)
qed

lemma apply_exec_async_run:
  assumes "db_ok E R" "async_index_exact E R s"
  shows "\<exists>t. apply_exec_async E exec sl now s = (Inr (), t) \<and> async_index_exact E R t"
proof (cases "xo_state_changes exec")
  case None
  with assms(2) show ?thesis by (simp add: apply_exec_async_def ret_def)
next
  case (Some sc)
  from apply_async_pool_run [OF assms, of sl "sc_async_pool_changes sc" now] show ?thesis
    unfolding apply_exec_async_def Some option.case by blast
qed

definition parent_of :: "slot \<Rightarrow> slot option" where
  "parent_of sl = (if sl_period sl = 0 then None else Some (Slot (sl_period sl - 1) (sl_thread sl)))"

lemma ensure_parent_stub_run:
  assumes "db_ok E R" "slots_ok E (table R s CF_SLOT)"
  shows "\<exists>t. ensure_parent_stub E sl now s = (Inr (), t) \<and> slots_ok E (table R t CF_SLOT) \<and>
    (\<forall>x. slot_at E (table R t CF_SLOT) x =
      (if parent_of sl = Some x \<and> slot_at E (table R s CF_SLOT) x = None then Some (fresh x now)
       else slot_at E (table R s CF_SLOT) x)) \<and>
    (\<forall>c. c \<noteq> CF_SLOT \<longrightarrow> table R t c = table R s c)"
proof (cases "sl_period sl = 0")
  case True
  with assms(2) show ?thesis
    by (simp add: ensure_parent_stub_def parent_of_def ret_def)
next
  case False
  let ?p = "Slot (sl_period sl - 1) (sl_thread sl)"
  have read: "read_slot E s (sl_period ?p) (sl_thread ?p) = Inr (slot_at E (table R s CF_SLOT) ?p)"
    by (rule read_slot_ok [OF assms])
  show ?thesis
  proof (cases "slot_at E (table R s CF_SLOT) ?p")
    case None
    have wf: "wf_slot_state E (fresh ?p now)"
      by (simp add: fresh_def wf_slot_state_def)
    obtain t where t: "write_slot E (fresh ?p now) s = (Inr (), t)" "slots_ok E (table R t CF_SLOT)"
        "\<And>x. slot_at E (table R t CF_SLOT) x = (if x = st_slot (fresh ?p now) then Some (fresh ?p now)
          else slot_at E (table R s CF_SLOT) x)"
        "\<And>c. c \<noteq> CF_SLOT \<Longrightarrow> table R t c = table R s c"
      by (rule write_slot_ok [OF assms(1) wf assms(2)]) (rule that; (assumption | simp only:))
    have "ensure_parent_stub E sl now s = (Inr (), t)"
      using False read None t(1) by (simp add: ensure_parent_stub_def bnd_def readm_def Let_def)
    moreover have "slot_at E (table R t CF_SLOT) x =
        (if parent_of sl = Some x \<and> slot_at E (table R s CF_SLOT) x = None then Some (fresh x now)
         else slot_at E (table R s CF_SLOT) x)" for x
      using t(3) [of x] None False by (auto simp: parent_of_def fresh_def)
    ultimately show ?thesis
      using t(2,4) by (intro exI [of _ t]) simp
  next
    case (Some st)
    then have "ensure_parent_stub E sl now s = (Inr (), s)"
      using False read by (simp add: ensure_parent_stub_def bnd_def readm_def Let_def ret_def)
    moreover have "\<not> (parent_of sl = Some x \<and> slot_at E (table R s CF_SLOT) x = None)" for x
      using Some False by (auto simp: parent_of_def)
    ultimately show ?thesis
      using assms(2) by (intro exI [of _ s]) simp
  qed
qed

lemma update_last_final_run:
  assumes "db_ok E R"
  shows "\<exists>t. update_last_final_slot E sl s = (Inr (), t) \<and> (\<forall>c. c \<noteq> CF_META \<longrightarrow> table R t c = table R s c)"
proof -
  obtain t where "db_write E [Put CF_META meta_LAST_FINAL_SLOT (encode_slot E sl)] s = (Inr (), t)"
      "table R t CF_META = (table R s CF_META)(meta_LAST_FINAL_SLOT \<mapsto> encode_slot E sl)"
    by (rule put_row_table [OF assms, where c = CF_META and rest = "[]" and s = s
          and k = meta_LAST_FINAL_SLOT and v = "encode_slot E sl"]) (simp_all add: that)
  moreover have touch: "touches R {CF_META} (update_last_final_slot E sl)"
    using db_okD(2) [OF assms] by (intro frame_intros) simp_all
  ultimately show ?thesis
    using touchesD [OF touch] by (auto simp: update_last_final_slot_def db_put_def)
qed

section \<open>A FINAL frame\<close>

definition exec_good :: "('s, 'v, 'x) ext_scheme \<Rightarrow> ('s, 'v) rows \<Rightarrow> 's \<Rightarrow> bool" where
  "exec_good E R s \<longleftrightarrow> db_good E R s \<and> ops_ok E R s \<and> blocks_ok E R s"

text \<open>The row a FINAL frame leaves.\<close>

definition exec_row :: "'x crates_scheme \<Rightarrow> execution_output \<Rightarrow> i64 \<Rightarrow> slot_state \<Rightarrow> slot_state" where
  "exec_row C exec now st =
     (with_ops (executed_ids C exec) (final_verdict C exec
        (st\<lparr>st_status := SlotFinal,
            st_execution_trail_hash := (case frame_trail exec of
                None \<Rightarrow> st_execution_trail_hash st | Some h \<Rightarrow> Some h),
            st_sc_event_count := word_of_nat (length (xo_events exec))\<rparr>)))\<lparr>st_last_updated_ts_ms := now\<rparr>"

lemma with_ops_simps [simp]:
  "st_slot (with_ops ids st) = st_slot st" "st_final_block_id (with_ops ids st) = st_final_block_id st"
  "st_candidate_block_ids (with_ops ids st) = st_candidate_block_ids st"
  "st_status (with_ops ids st) = st_status st" "st_is_miss (with_ops ids st) = st_is_miss st"
  "st_execution_trail_hash (with_ops ids st) = st_execution_trail_hash st"
  "st_completeness (with_ops ids st) = st_completeness st"
  "st_sc_event_count (with_ops ids st) = st_sc_event_count st"
  by (simp_all add: with_ops_def)

lemma final_verdict_simps [simp]:
  "st_slot (final_verdict C exec st) = st_slot st"
  "st_candidate_block_ids (final_verdict C exec st) = st_candidate_block_ids st"
  "st_status (final_verdict C exec st) = st_status st"
  "st_is_miss (final_verdict C exec st) = (xo_block_id exec = None)"
  "st_execution_trail_hash (final_verdict C exec st) = st_execution_trail_hash st"
  "st_executed_op_ids (final_verdict C exec st) = st_executed_op_ids st"
  "exec_output_final (st_completeness (final_verdict C exec st))"
  "st_sc_event_count (final_verdict C exec st) = st_sc_event_count st"
  by (simp_all add: final_verdict_def Let_def set_exec_final_def split: option.split)

lemma final_verdict_block:
  "st_final_block_id (final_verdict C exec st) =
     (case Option.bind (xo_block_id exec) (\<lambda>t. res_ok (block_parse C t)) of
        None \<Rightarrow> st_final_block_id st | Some b \<Rightarrow> Some b)"
  by (simp add: final_verdict_def Let_def set_exec_final_def split: option.split)

lemma exec_row_simps [simp]:
  "st_slot (exec_row C exec now st) = st_slot st" "st_status (exec_row C exec now st) = SlotFinal"
  "st_is_miss (exec_row C exec now st) = (xo_block_id exec = None)"
  "st_candidate_block_ids (exec_row C exec now st) = st_candidate_block_ids st"
  "exec_output_final (st_completeness (exec_row C exec now st))"
  "st_sc_event_count (exec_row C exec now st) = word_of_nat (length (xo_events exec))"
  by (simp_all add: exec_row_def)

lemma exec_row_block:
  "st_final_block_id (exec_row C exec now st) =
     (case Option.bind (xo_block_id exec) (\<lambda>t. res_ok (block_parse C t)) of
        None \<Rightarrow> st_final_block_id st | Some b \<Rightarrow> Some b)"
  by (simp add: exec_row_def final_verdict_block split: option.split)

lemma exec_row_wf:
  assumes "crates_ok C" "wf_slot_state C st" "frame_trail exec \<noteq> Some []"
  shows "wf_slot_state C (exec_row C exec now st)"
proof -
  have "wf_opt (wf_block_id C) (st_final_block_id (exec_row C exec now st))"
    using assms(1,2) by (auto simp: exec_row_block wf_slot_state_def bind_eq_Some_conv
        block_parse_wf split: option.split)
  moreover have "list_all (wf_op_id C) (st_executed_op_ids (exec_row C exec now st))"
  proof -
    have "list_all (wf_op_id C) (executed_ids C exec)"
      unfolding executed_ids_def by (rule list_all_map_filter) (simp add: op_parse_wf [OF assms(1)])
    with assms(2) show ?thesis
      by (simp add: exec_row_def with_ops_def wf_slot_state_def)
  qed
  ultimately show ?thesis
    using assms(2,3) by (auto simp: wf_slot_state_def) (auto simp: exec_row_def split: option.splits)
qed

lemma parent_not_self [simp]: "parent_of sl \<noteq> Some sl"
proof -
  have "Slot (sl_period sl - 1) (sl_thread sl) = sl \<longleftrightarrow> sl_period sl - 1 = sl_period sl"
    by (metis Slot_eta Slot_eq)
  then show ?thesis
    by (simp add: parent_of_def)
qed

lemma cfs_apart:
  "CF_SLOT \<notin> event_cfs" "CF_OP \<notin> event_cfs" "CF_BLOCK \<notin> event_cfs"
  "CF_SC_EVENT \<notin> block_cfs" "CF_OP \<notin> block_cfs" "CF_SC_EVENT \<notin> op_cfs" "CF_BLOCK \<notin> op_cfs"
  "CF_SC_EVENT \<notin> async_cfs" "CF_OP \<notin> async_cfs" "CF_BLOCK \<notin> async_cfs" "CF_SLOT \<notin> async_cfs"
  "CF_SLOT \<notin> block_cfs" "CF_SLOT \<notin> op_cfs"
  by (simp_all add: event_cfs_def block_cfs_def op_cfs_def async_cfs_def)

lemma exact_frames:
  "(event_cfs \<union> {CF_META} \<union> block_cfs \<union> op_cfs \<union> {CF_SLOT}) \<inter> insert CF_TRANSFER transfer_ics = {}"
  "(event_cfs \<union> {CF_META} \<union> block_cfs \<union> op_cfs \<union> {CF_SLOT}) \<inter> insert CF_ASYNC_MSG async_ics = {}"
  "(event_cfs \<union> {CF_META} \<union> block_cfs \<union> op_cfs \<union> {CF_SLOT}) \<inter> insert CF_DEFERRED_CALL deferred_ics = {}"
  "({CF_META} \<union> block_cfs \<union> op_cfs \<union> {CF_SLOT}) \<inter> insert CF_SC_EVENT event_ics = {}"
  by (simp_all add: event_cfs_def block_cfs_def op_cfs_def event_ics_def transfer_ics_def
      async_ics_def deferred_ics_def)

lemma same_exact:
  "(\<And>c. c \<in> insert CF_TRANSFER transfer_ics \<Longrightarrow> table R t c = table R s c) \<Longrightarrow>
     transfer_index_exact E R s \<Longrightarrow> transfer_index_exact E R t"
  "(\<And>c. c \<in> insert CF_SC_EVENT event_ics \<Longrightarrow> table R t c = table R s c) \<Longrightarrow>
     event_index_exact E R s \<Longrightarrow> event_index_exact E R t"
  "(\<And>c. c \<in> insert CF_ASYNC_MSG async_ics \<Longrightarrow> table R t c = table R s c) \<Longrightarrow>
     async_index_exact E R s \<Longrightarrow> async_index_exact E R t"
  "(\<And>c. c \<in> insert CF_DEFERRED_CALL deferred_ics \<Longrightarrow> table R t c = table R s c) \<Longrightarrow>
     call_index_exact E R s \<Longrightarrow> call_index_exact E R t"
  by (rule transfer_index.exact_other event_index.exact_other async_index.exact_other
      call_index.exact_other; (assumption | blast))+

lemma apply_exec_frame_steps:
  assumes "replace_events E sl SlotFinal (xo_events exec) w = (Inr (), w1)"
    and "update_last_final_slot E sl (w_db w1) = (Inr (), s2)"
    and "apply_finality_to_blocks E (st_final_block_id row) (st_candidate_block_ids row) s2 = (Inr (), s3)"
    and "apply_exec_ops E exec True st3 s3 = (Inr st4, s4)"
    and "apply_exec_async E exec sl now s4 = (Inr (), s5)"
    and "write_slot E row s5 = (Inr (), s6)"
    and "ensure_parent_stub E sl now s6 = (Inr (), s7)"
    and "st3 = final_verdict E exec (st\<lparr>st_status := SlotFinal,
            st_execution_trail_hash := (case frame_trail exec of
                None \<Rightarrow> st_execution_trail_hash st | Some h \<Rightarrow> Some h),
            st_sc_event_count := word_of_nat (length (xo_events exec))\<rparr>)"
    and "row = st4\<lparr>st_last_updated_ts_ms := now\<rparr>" "st4 = with_ops ids st3"
  shows "\<exists>w'. apply_exec_frame E sl True exec now st w = (Inr (), w') \<and> w_db w' = s7"
proof -
  have ids: "st_final_block_id row = st_final_block_id st3" "st_candidate_block_ids row = st_candidate_block_ids st3"
    by (simp_all add: assms(9,10))
  have fin: "on_db (bnd (update_last_final_slot E sl) (\<lambda>_.
      apply_finality_to_blocks E (st_final_block_id st3) (st_candidate_block_ids st3))) w1 = (Inr (), w1\<lparr>w_db := s3\<rparr>)"
    using assms(2,3) by (simp add: on_db_def bnd_def ids)
  have "apply_exec_frame E sl True exec now st w =
    bnd (emit E (SlotFinalized row)) (\<lambda>_. bnd (bump (count_finalized row)) (\<lambda>_. emit E (SlotUpdated row)))
      (w1\<lparr>w_db := s7\<rparr>)"
    unfolding apply_exec_frame_def Let_def if_True
    by (subst bnd_run, simp add: assms(1), subst bnd_run, simp add: fin flip: assms(8),
        subst bnd_run, simp add: on_db_def assms(4) flip: assms(8),
        subst bnd_run, simp add: on_db_def assms(5),
        subst bnd_run, simp add: on_db_def assms(6) flip: assms(9),
        subst bnd_run, simp add: on_db_def assms(7))
      (simp add: bnd_def emit_def bump_def flip: assms(9))
  then show ?thesis
    by (simp add: bnd_def emit_def bump_def)
qed

lemma apply_exec_frame_run:
  fixes now :: i64
  assumes "db_ok E R" "exec_good E R (w_db w)" "wf_slot_state E st" "st_slot st = sl"
    and "frame_trail exec \<noteq> Some []" "length (xo_events exec) < 2 ^ 32"
  defines "row \<equiv> exec_row E exec now st"
  shows "\<exists>w'. apply_exec_frame E sl True exec now st w = (Inr (), w') \<and> exec_good E R (w_db w') \<and>
    (\<forall>x. slot_at E (table R (w_db w') CF_SLOT) x =
      (if x = sl then Some row
       else if parent_of sl = Some x \<and> slot_at E (table R (w_db w) CF_SLOT) x = None then Some (fresh x now)
       else slot_at E (table R (w_db w) CF_SLOT) x)) \<and>
    slot_events E R (w_db w') sl = keyed event_key_of (node_events E sl SlotFinal (xo_events exec)) \<and>
    (\<forall>i. op_at E R (w_db w') i =
      map_option (fold (\<lambda>e. settled True (exec_said E i e)) (said_ops exec)) (op_at E R (w_db w) i)) \<and>
    (\<forall>i. wf_block_id E i \<longrightarrow> block_at E R (w_db w') i =
      map_option (final_status (st_final_block_id row) (st_candidate_block_ids row) i) (block_at E R (w_db w) i))"
proof -
  note ok = db_okD [OF assms(1)]
  let ?st3 = "final_verdict E exec (st\<lparr>st_status := SlotFinal,
            st_execution_trail_hash := (case frame_trail exec of
                None \<Rightarrow> st_execution_trail_hash st | Some h \<Rightarrow> Some h),
            st_sc_event_count := word_of_nat (length (xo_events exec))\<rparr>)"
  have row: "row = (with_ops (executed_ids E exec) ?st3)\<lparr>st_last_updated_ts_ms := now\<rparr>"
    by (simp add: row_def exec_row_def)
  have wf: "wf_slot_state E row"
    unfolding row_def by (rule exec_row_wf [OF ok(4) assms(3,5)])
  have good: "slots_ok E (table R (w_db w) CF_SLOT)" "transfer_index_exact E R (w_db w)"
      "event_index_exact E R (w_db w)" "async_index_exact E R (w_db w)" "call_index_exact E R (w_db w)"
      "ops_ok E R (w_db w)" "blocks_ok E R (w_db w)"
    using assms(2) by (simp_all add: exec_good_def db_good_def)
  obtain w1 where w1: "replace_events E sl SlotFinal (xo_events exec) w = (Inr (), w1)"
      "event_index_exact E R (w_db w1)"
      "slot_events E R (w_db w1) sl = keyed event_key_of (node_events E sl SlotFinal (xo_events exec))"
      and f1: "\<And>c. c \<notin> event_cfs \<Longrightarrow> table R (w_db w1) c = table R (w_db w) c"
    using replace_events_run [OF assms(1) good(3) assms(6), of sl SlotFinal] by blast
  obtain s2 where s2: "update_last_final_slot E sl (w_db w1) = (Inr (), s2)"
      and f2: "\<And>c. c \<noteq> CF_META \<Longrightarrow> table R s2 c = table R (w_db w1) c"
    using update_last_final_run [OF assms(1)] by blast
  have b2: "blocks_ok E R s2" "block_at E R s2 = block_at E R (w_db w)"
    using good(7) by (simp_all add: block_at_def [abs_def] f1 f2 cfs_apart)
  obtain s3 where s3: "apply_finality_to_blocks E (st_final_block_id row) (st_candidate_block_ids row) s2 = (Inr (), s3)"
      "blocks_ok E R s3"
      "\<And>i. wf_block_id E i \<Longrightarrow> block_at E R s3 i =
        map_option (final_status (st_final_block_id row) (st_candidate_block_ids row) i) (block_at E R s2 i)"
    using apply_finality_run [OF assms(1) b2(1)] wf unfolding wf_slot_state_def by blast
  have "touches R block_cfs (apply_finality_to_blocks E (st_final_block_id row) (st_candidate_block_ids row))"
    using ok(2) by (rule touches_apply_finality) simp
  note f3 = touchesD [OF this s3(1)]
  have o3: "ops_ok E R s3" "op_at E R s3 = op_at E R (w_db w)"
    using good(6) by (simp_all add: op_at_def [abs_def] f1 f2 f3 cfs_apart)
  obtain s4 where s4: "apply_exec_ops E exec True ?st3 s3 = (Inr (with_ops (executed_ids E exec) ?st3), s4)"
      "ops_ok E R s4"
      "\<And>i. op_at E R s4 i =
        map_option (fold (\<lambda>e. settled True (exec_said E i e)) (said_ops exec)) (op_at E R s3 i)"
    using apply_exec_ops_run [OF assms(1) o3(1)] by blast
  have "touches R op_cfs (apply_exec_ops E exec True ?st3)"
    using ok(2) unfolding apply_exec_ops_def
    by (intro touches_option touches_bnd touches_ret touches_apply_executed_ops) simp_all
  note f4 = touchesD [OF this s4(1)]
  have a4: "async_index_exact E R s4"
    by (rule same_exact(3) [OF _ good(4)])
      (auto simp: f1 f2 f3 f4 event_cfs_def block_cfs_def op_cfs_def async_ics_def)
  obtain s5 where s5: "apply_exec_async E exec sl now s4 = (Inr (), s5)" "async_index_exact E R s5"
    using apply_exec_async_run [OF assms(1) a4] by blast
  have "touches R async_cfs (apply_exec_async E exec sl now)"
    using ok(2) unfolding apply_exec_async_def
    by (intro touches_option touches_ret touches_apply_async_pool_changes) simp_all
  note f5 = touchesD [OF this s5(1)]
  have slots: "table R s5 CF_SLOT = table R (w_db w) CF_SLOT"
    by (simp add: f1 f2 f3 f4 f5 cfs_apart)
  have slots5: "slots_ok E (table R s5 CF_SLOT)"
    by (simp add: slots good(1))
  obtain s6 where s6: "write_slot E row s5 = (Inr (), s6)" "slots_ok E (table R s6 CF_SLOT)"
      "\<And>x. slot_at E (table R s6 CF_SLOT) x = (if x = st_slot row then Some row else slot_at E (table R s5 CF_SLOT) x)"
      and f6: "\<And>c. c \<noteq> CF_SLOT \<Longrightarrow> table R s6 c = table R s5 c"
    by (rule write_slot_ok [OF assms(1) wf slots5]) (rule that; (assumption | simp only:))
  obtain s7 where s7: "ensure_parent_stub E sl now s6 = (Inr (), s7)" "slots_ok E (table R s7 CF_SLOT)"
      "\<And>x. slot_at E (table R s7 CF_SLOT) x =
        (if parent_of sl = Some x \<and> slot_at E (table R s6 CF_SLOT) x = None then Some (fresh x now)
         else slot_at E (table R s6 CF_SLOT) x)"
      and f7: "\<And>c. c \<noteq> CF_SLOT \<Longrightarrow> table R s7 c = table R s6 c"
    using ensure_parent_stub_run [OF assms(1) s6(2)] by metis
  obtain w' where w': "apply_exec_frame E sl True exec now st w = (Inr (), w')" "w_db w' = s7"
    using apply_exec_frame_steps [OF w1(1) s2 s3(1) s4(1) s5(1) s6(1) s7(1) refl row refl] by blast
  have tabs: "table R s7 c = table R (w_db w1) c" if "c \<notin> {CF_META, CF_SLOT} \<union> block_cfs \<union> op_cfs \<union> async_cfs" for c
    using that by (simp add: f2 f3 f4 f5 f6 f7)
  have "exec_good E R s7"
    unfolding exec_good_def db_good_def
  proof (intro conjI)
    show "transfer_index_exact E R s7"
      by (rule same_exact(1) [OF _ good(2)])
        (auto simp: tabs f1 event_cfs_def block_cfs_def op_cfs_def async_cfs_def transfer_ics_def)
    show "event_index_exact E R s7"
      by (rule same_exact(2) [OF _ w1(2)])
        (auto simp: tabs block_cfs_def op_cfs_def async_cfs_def event_ics_def)
    show "async_index_exact E R s7"
      by (rule same_exact(3) [OF _ s5(2)]) (auto simp: f6 f7 async_ics_def)
    show "call_index_exact E R s7"
      by (rule same_exact(4) [OF _ good(5)])
        (auto simp: tabs f1 event_cfs_def block_cfs_def op_cfs_def async_cfs_def deferred_ics_def)
    show "ops_ok E R s7" "blocks_ok E R s7"
      using s4(2) s3(2) by (simp_all add: f4 f5 f6 f7 cfs_apart)
  qed (rule s7(2))
  moreover have "slot_events E R s7 sl = slot_events E R (w_db w1) sl"
  proof -
    have "table R s7 CF_SC_EVENT = table R (w_db w1) CF_SC_EVENT"
      by (rule tabs) (simp add: cfs_apart)
    then show ?thesis
      by (simp only: slot_events_def [abs_def])
  qed
  moreover have "op_at E R s7 = op_at E R s4" "block_at E R s7 = block_at E R s3"
    by (simp_all add: op_at_def [abs_def] block_at_def [abs_def] f4 f5 f6 f7 cfs_apart)
  moreover have "st_slot row = sl"
    by (simp add: row_def assms(4))
  ultimately show ?thesis
    using w' w1(3) s3(3) s4(3) s6(3) s7(3) b2(2) o3(2)
    by (intro exI [of _ w']) (simp add: slots)
qed

end
