(* ===== verification/Props_Effects.thy ===== *)
theory Props_Effects
  imports Reference_Node Exec_Laws
begin

text \<open>
  The properties of what the handlers store: the transfers of a slot, async messages and deferred calls,
  executed operations and block statuses; and of whole runs of the ingest worker.
\<close>

section \<open>Sample frames\<close>

lemma ref_empty_good: "db_good ref_node ref_rows []"
  by (simp add: db_good_def slots_ok_def exact_def table_def ref_rows_def)

definition ref_info :: "string \<Rightarrow> u64 \<Rightarrow> i32 \<Rightarrow> string option \<Rightarrow> string option \<Rightarrow> exec_transfer_info" where
  "ref_info i n origin op msg =
     \<lparr>et_id = i, et_from_address = None, et_to_address = None,
      et_value = Some \<lparr>tv_value = Some (NRolls n)\<rparr>, et_origin = origin, et_operation_id = op,
      et_async_msg_id = msg, et_deferred_call_id = None, et_denunciation_index = None\<rparr>"

text \<open>An operation's transfer, an empty one, a side effect of the operation, an executed message.\<close>

definition ref_transfers :: transfers_info where
  "ref_transfers =
     \<lparr>ti_slot = Some \<lparr>ns_period = 5, ns_thread = 3\<rparr>, ti_timestamp = 11, ti_block_id = None,
      ti_transfers_info =
        [ref_info ''a'' 2 24 (Some ''op'') None, ref_info ''b'' 0 24 None None,
         ref_info ''c'' 3 17 None None, ref_info ''d'' 4 26 None (Some ''msg'')]\<rparr>"

section \<open>Transfers of a slot\<close>

text \<open>
  C5.  The rows derived from a transfer list are the value-carrying transfers of the node, in the
  node's order, numbered from 0 without gaps; a row with an operation, message, call or
  denunciation of its own, or with a reward origin, keeps its operation id, and an ABI side effect without one
  is attributed to the operation of the last such row before it.
\<close>

theorem transfer_rows_described:
  "slot_transfers resp sl now =
     (let kept = filter (\<lambda>t. \<not> is_zero_value (node_value t)) (ti_transfers_info resp);
          rows = map (\<lambda>i. node_transfer resp sl now (word_of_nat i) (kept ! i)) [0..<length kept]
      in map (\<lambda>i. attributed (active_op None (take i rows)) (rows ! i)) [0..<length rows])"
proof -
  define kept where "kept = filter carries_value (ti_transfers_info resp)"
  define rows where "rows = map (\<lambda>i. node_transfer resp sl now (word_of_nat i) (kept ! i)) [0..<length kept]"
  have "decode_transfers resp sl now 0 (ti_transfers_info resp) = rows"
    by (rule nth_equalityI) (simp_all add: rows_def decode_transfers_eq nth_enumerate_eq flip: kept_def)
  then have "slot_transfers resp sl now = infer_operations None rows"
    by (simp add: slot_transfers_def)
  also have "\<dots> = map (\<lambda>i. attributed (active_op None (take i rows)) (rows ! i)) [0..<length rows]"
    by (rule nth_equalityI) (simp_all add: infer_operations_nth)
  finally show ?thesis
    by (simp add: Let_def rows_def kept_def carries_value_def [abs_def])
qed

text \<open>
  C6.  A transfer frame succeeds on a healthy database: afterwards the slot lists exactly the rows
  derived from the frame, whatever it listed before, the rows of every other slot are untouched,
  the indexes stay exact, and the slot is marked as having its transfers.
\<close>

theorem transfers_replaced:
  assumes "db_ok E R" "db_good E R (w_db w)" "ti_slot resp = Some ns" "sl = node_slot ns"
    and "length (ti_transfers_info resp) < 2 ^ 32"
  shows "\<exists>w' st. handle_transfers E resp now w = (Inr (), w') \<and> db_good E R (w_db w') \<and>
    iter_transfers_for_slot E (w_db w') (sl_period sl) (sl_thread sl) = Inr (slot_transfers resp sl now) \<and>
    (\<forall>k. \<not> starts_with k (slot_key (sl_period sl) (sl_thread sl)) \<longrightarrow>
      row_at (decode_transfer E) (table R (w_db w') CF_TRANSFER) k =
      row_at (decode_transfer E) (table R (w_db w) CF_TRANSFER) k) \<and>
    slot_at E (table R (w_db w') CF_SLOT) sl = Some st \<and> transfers_stored (st_completeness st)"
proof -
  have "length (slot_transfers resp sl now) < 2 ^ 32"
    using assms(5) le_less_trans [OF length_filter_le] by (simp add: length_slot_transfers)
  from handle_transfers_run [OF assms(1-4) this] show ?thesis
    by blast
qed

theorem transfers_replaced_witness:
  "\<exists>w'. handle_transfers ref_node ref_transfers 9 (ref_world []) = (Inr (), w') \<and>
    map_sum id (map tr_operation_id) (iter_transfers_for_slot ref_node (w_db w') 5 3) =
      Inr [Some ''op'', Some ''op'', None]"
proof -
  have frame: "ti_slot ref_transfers = Some \<lparr>ns_period = 5, ns_thread = 3\<rparr>"
      "length (ti_transfers_info ref_transfers) < 2 ^ 32"
    by (simp_all add: ref_transfers_def)
  have "db_good ref_node ref_rows (w_db (ref_world []))" "Slot 5 3 = node_slot \<lparr>ns_period = 5, ns_thread = 3\<rparr>"
    by (simp_all add: ref_world_def node_slot_def ref_empty_good)
  note run = transfers_replaced [OF ref_node_ok this(1) frame(1) this(2) frame(2), of 9]
  have "map tr_operation_id (slot_transfers ref_transfers (Slot 5 3) 9) = [Some ''op'', Some ''op'', None]"
    by code_simp
  with run show ?thesis
    by auto
qed

section \<open>Async messages and deferred calls\<close>

text \<open>
  C39.  A transfer frame settles the async messages it mentions: a message that has not ended takes
  the state of the first transfer that executed or cancelled it, a message that has ended keeps its state,
  and a message no such transfer mentions keeps its state.
\<close>

theorem async_outcomes_settle:
  assumes "db_ok E R" "db_good E R (w_db w)" "ti_slot resp = Some ns" "sl = node_slot ns"
    and "length (ti_transfers_info resp) < 2 ^ 32"
  shows "\<exists>w'. handle_transfers E resp now w = (Inr (), w') \<and>
    (\<forall>i. map_option am_state (async_at E R (w_db w') i) =
      async_settled (map_option am_state (async_at E R (w_db w) i))
        (case List.map_filter (async_outcome i) (slot_transfers resp sl now) of
           [] \<Rightarrow> None | st # _ \<Rightarrow> Some st))"
proof -
  have "length (slot_transfers resp sl now) < 2 ^ 32"
    using assms(5) le_less_trans [OF length_filter_le] by (simp add: length_slot_transfers)
  from handle_transfers_run [OF assms(1-4) this] show ?thesis
    by (simp only: fold_settled) blast
qed

theorem async_outcomes_settle_witness:
  "\<exists>w'. handle_transfers ref_node ref_transfers 9 (ref_world []) = (Inr (), w') \<and>
    map_option am_state (async_at ref_node ref_rows (w_db w') ''msg'') = Some AsyncExecuted"
proof -
  have frame: "ti_slot ref_transfers = Some \<lparr>ns_period = 5, ns_thread = 3\<rparr>"
      "length (ti_transfers_info ref_transfers) < 2 ^ 32"
    by (simp_all add: ref_transfers_def)
  have w: "db_good ref_node ref_rows (w_db (ref_world []))" "Slot 5 3 = node_slot \<lparr>ns_period = 5, ns_thread = 3\<rparr>"
      "w_db (ref_world []) = []"
    by (simp_all add: ref_world_def node_slot_def ref_empty_good)
  have "List.map_filter (async_outcome ''msg'') (slot_transfers ref_transfers (Slot 5 3) 9) = [AsyncExecuted]"
    by code_simp
  moreover have "async_at ref_node ref_rows [] ''msg'' = None"
    by (simp add: async_at_def row_at_def table_def ref_rows_def)
  ultimately show ?thesis
    using async_outcomes_settle [OF ref_node_ok w(1) frame(1) w(2) frame(2), of 9] w(3)
    by (auto dest!: spec [of _ "''msg''"])
qed

text \<open>
  C40.  A transfer frame moves each deferred call along its life cycle, one transfer after the other;
  in particular a call that was executed, failed or was cancelled keeps that state.
\<close>

theorem deferred_calls_advance:
  assumes "db_ok E R" "db_good E R (w_db w)" "ti_slot resp = Some ns" "sl = node_slot ns"
    and "length (ti_transfers_info resp) < 2 ^ 32"
  shows "\<exists>w'. handle_transfers E resp now w = (Inr (), w') \<and>
    (\<forall>i. map_option dc_state (call_at E R (w_db w') i) =
      fold (call_settled i) (slot_transfers resp sl now) (map_option dc_state (call_at E R (w_db w) i))) \<and>
    (\<forall>i c. call_at E R (w_db w) i = Some c \<longrightarrow> call_terminal (dc_state c) \<longrightarrow>
      map_option dc_state (call_at E R (w_db w') i) = Some (dc_state c))"
proof -
  have "length (slot_transfers resp sl now) < 2 ^ 32"
    using assms(5) le_less_trans [OF length_filter_le] by (simp add: length_slot_transfers)
  from handle_transfers_run [OF assms(1-4) this] obtain w' where
    "handle_transfers E resp now w = (Inr (), w')"
    "\<forall>i. map_option dc_state (call_at E R (w_db w') i) =
      fold (call_settled i) (slot_transfers resp sl now) (map_option dc_state (call_at E R (w_db w) i))"
    by blast
  then show ?thesis
    by (intro exI [of _ w']) (simp add: fold_call_terminal)
qed

definition ref_calls :: transfers_info where
  "ref_calls =
     \<lparr>ti_slot = Some \<lparr>ns_period = 5, ns_thread = 3\<rparr>, ti_timestamp = 11, ti_block_id = None,
      ti_transfers_info =
        [(ref_info ''a'' 2 5 None None)\<lparr>et_deferred_call_id := Some ''call''\<rparr>,
         (ref_info ''b'' 2 3 None None)\<lparr>et_deferred_call_id := Some ''call''\<rparr>,
         (ref_info ''c'' 2 4 None None)\<lparr>et_deferred_call_id := Some ''call''\<rparr>]\<rparr>"

theorem deferred_calls_advance_witness:
  "\<exists>w'. handle_transfers ref_node ref_calls 9 (ref_world []) = (Inr (), w') \<and>
    map_option dc_state (call_at ref_node ref_rows (w_db w') ''call'') = Some CallCancelled"
proof -
  have frame: "ti_slot ref_calls = Some \<lparr>ns_period = 5, ns_thread = 3\<rparr>"
      "length (ti_transfers_info ref_calls) < 2 ^ 32"
    by (simp_all add: ref_calls_def)
  have w: "db_good ref_node ref_rows (w_db (ref_world []))" "Slot 5 3 = node_slot \<lparr>ns_period = 5, ns_thread = 3\<rparr>"
      "w_db (ref_world []) = []"
    by (simp_all add: ref_world_def node_slot_def ref_empty_good)
  have "fold (call_settled ''call'') (slot_transfers ref_calls (Slot 5 3) 9) None = Some CallCancelled"
    by code_simp
  moreover have "call_at ref_node ref_rows [] ''call'' = None"
    by (simp add: call_at_def row_at_def table_def ref_rows_def)
  ultimately show ?thesis
    using deferred_calls_advance [OF ref_node_ok w(1) frame(1) w(2) frame(2), of 9] w(3)
    by (auto dest!: spec [of _ "''call''"])
qed

section \<open>Runs\<close>

text \<open>
  C1.  Over any run of the ingest worker, with whatever the producers send on both lanes, whatever
  fails in the store, and whatever order the frames arrive in, the row of a slot only advances: it
  stays in the database, its status, candidates and completeness only grow, and a FINAL verdict and its
  trail hash never change, unless an operator's verdict on that slot or a peer patch that the
  chain-linkage arbiter adopts was handled.
\<close>

theorem final_verdicts_stand:
  assumes "store_ok E R" "wires_ok E"
    and "slots_ok E (table R (w_db (wk_world k)) CF_SLOT)"
    and "run E k tr k'"
    and "slot_at E (table R (w_db (wk_world k)) CF_SLOT) sl = Some st"
    and "\<forall>(ev, w) \<in> set tr. \<not> overrides E R sl w ev"
  shows "\<exists>st'. slot_at E (table R (w_db (wk_world k')) CF_SLOT) sl = Some st' \<and> advances st st' \<and>
    (st_status st = SlotFinal \<longrightarrow> st_status st' = SlotFinal \<and> of_local st' = of_local st)"
proof -
  obtain st' where "slot_at E (table R (w_db (wk_world k')) CF_SLOT) sl = Some st'" "advances st st'"
    using run_kept [OF assms(1,2,4,3)] assms(5,6) unfolding kept_def by blast
  moreover from this have "of_local st' = of_local st" if "st_status st = SlotFinal"
    using that by (simp add: advances_def same_final_def of_local_def)
  ultimately show ?thesis
    using advances_final by blast
qed

definition ref_worker :: "event list \<Rightarrow> event list \<Rightarrow> ref_value batch worker" where
  "ref_worker live bulk =
     \<lparr>live_rx = Some \<lparr>queue = live, closed = False\<rparr>, bulk_rx = Some \<lparr>queue = bulk, closed = False\<rparr>,
      wk_world = ref_world ref_log\<rparr>"

definition ref_candidate_frame :: slot_execution_output where
  "ref_candidate_frame = \<lparr>so_status = 1, so_execution_output = None\<rparr>"

theorem final_verdicts_stand_witness:
  "\<exists>tr k' st'. run ref_node (ref_worker [Exec ref_candidate_frame] []) tr k' \<and> length tr = 1 \<and>
    slot_at ref_node (table ref_rows (w_db (wk_world k')) CF_SLOT) (Slot 5 3) = Some st' \<and>
    of_local st' = Some (BlockVerdict (nblock 1))"
proof -
  let ?k = "ref_worker [Exec ref_candidate_frame] []"
  let ?k' = "?k\<lparr>live_rx := Some \<lparr>queue = [], closed = False\<rparr>,
    wk_world := handle ref_node 9 (Exec ref_candidate_frame) (wk_world ?k)\<rparr>"
  have "worker_step ref_node 9 ?k = Stepped ?k' (Some (Exec ref_candidate_frame))"
    using step_live [where k = ?k and now = 9 and E = ref_node] by (simp add: ref_worker_def)
  then have run: "run ref_node ?k [(Exec ref_candidate_frame, wk_world ?k)] ?k'"
    by (rule run.handled [OF run.start])
  have db: "w_db (wk_world ?k) = ref_log"
    by (simp add: ref_worker_def ref_world_def)
  from final_verdicts_stand [OF ref_node_laws _ run, where sl = "Slot 5 3" and st = ref_final]
  obtain st' where "slot_at ref_node (table ref_rows (w_db (wk_world ?k')) CF_SLOT) (Slot 5 3) = Some st'"
      "of_local st' = of_local ref_final"
    unfolding db by (auto simp: ref_log_at ref_log_slots overrides_def ref_final_def)
  with run show ?thesis
    by (auto simp: of_local_def ref_final_def fresh_def intro!: exI)
qed

text \<open>
  C4.  A worker whose producers are gone handles every queued event and then stops: first the
  live lane in order, then the bulk lane in order, with three clock readings more than there
  are events.
\<close>

theorem worker_drains:
  assumes "live_rx k = Some \<lparr>queue = live, closed = True\<rparr>" "bulk_rx k = Some \<lparr>queue = bulk, closed = True\<rparr>"
    and "length live + length bulk + 3 \<le> length clocks"
  shows "worker_loop E clocks k =
    Some (k\<lparr>live_rx := None, bulk_rx := None,
            wk_world := handle_all E (zip clocks live @ zip (drop (Suc (length live)) clocks) bulk)
              (wk_world k)\<rparr>, live @ bulk)"
  using loop_live [OF assms(1) _ assms(2)] assms(3) by simp

theorem worker_drains_witness:
  "worker_loop ref_node [1, 2, 3, 4, 5]
     \<lparr>live_rx = Some \<lparr>queue = [Tick], closed = True\<rparr>, bulk_rx = Some \<lparr>queue = [Tick], closed = True\<rparr>,
      wk_world = ref_world ref_log\<rparr> =
   Some (\<lparr>live_rx = None, bulk_rx = None,
      wk_world = handle_all ref_node [(1, Tick), (3, Tick)] (ref_world ref_log)\<rparr>, [Tick, Tick])"
  by (subst worker_drains [where live = "[Tick]" and bulk = "[Tick]"]) simp_all

end
