(* ===== verification/Props_Exec.thy ===== *)
theory Props_Exec
  imports Props_Effects
begin

text \<open>
  The properties of execution outputs: what a FINAL frame settles, what a settled slot refuses,
  and the life of async messages under pool changes.
\<close>

section \<open>FINAL frames\<close>

lemma load_slot_run:
  "db_ok E R \<Longrightarrow> slots_ok E (table R s CF_SLOT) \<Longrightarrow>
   load_slot E sl now s = (Inr (unwrap_or (fresh sl now) (slot_at E (table R s CF_SLOT) sl)), s)"
  by (simp add: load_slot_def bnd_def readm_def ret_def read_slot_ok)


lemma ref_empty_exec: "exec_good ref_node ref_rows []"
  by (simp add: exec_good_def ref_empty_good rows_ok_def table_def ref_rows_def)

definition ref_exec :: execution_output where
  "ref_exec =
     \<lparr>xo_slot = Some \<lparr>ns_period = 5, ns_thread = 3\<rparr>, xo_block_id = Some (id_text (nblock 1)),
      xo_events = [\<lparr>xe_context = None, xe_data = [104, 105]\<rparr>], xo_state_changes = None\<rparr>"

definition ref_final_frame :: slot_execution_output where
  "ref_final_frame = \<lparr>so_status = 2, so_execution_output = Some ref_exec\<rparr>"


text \<open>
  C7.  A settled slot refuses: a CANDIDATE frame, a FINAL frame with another trail hash or another
  verdict, and a FINAL frame whose execution output is already stored change nothing at all.
\<close>

theorem settled_slot_refuses:
  assumes "db_ok E R" "slots_ok E (table R (w_db w) CF_SLOT)"
    and "so_execution_output outer = Some exec" "xo_slot exec = Some ns"
    and "slot_at E (table R (w_db w) CF_SLOT) (node_slot ns) = Some st" "st_status st = SlotFinal"
    and "so_status outer \<noteq> 2 \<or> trails_differ st (frame_trail exec) \<or> \<not> node_same_verdict E st exec \<or>
      exec_output_final (st_completeness st)"
  shows "handle_exec E outer now w = (Inr (), w)"
proof -
  have "on_db (load_slot E (node_slot ns) now) w = (Inr st, w)"
    using assms(5) by (simp add: on_db_def load_slot_run [OF assms(1,2)])
  then show ?thesis
    using assms(3,4,6,7) by (auto simp: handle_exec_def bnd_def lift_def Let_def ret_def)
qed

theorem settled_slot_refuses_witness:
  "handle_exec ref_node
     \<lparr>so_status = 2, so_execution_output = Some (ref_exec\<lparr>xo_block_id := None\<rparr>)\<rparr> 9 (ref_world ref_log) =
   (Inr (), ref_world ref_log)"
proof -
  have "w_db (ref_world ref_log) = ref_log"
    by (simp add: ref_world_def)
  then show ?thesis
    using ref_log_slots ref_log_at
    by (intro settled_slot_refuses [OF ref_node_ok, where st = ref_final])
      (auto simp: ref_exec_def node_slot_def ref_final_def fresh_def node_same_verdict_def)
qed

section \<open>Pool changes\<close>

text \<open>
  Pool changes succeed on a healthy database and never take back how a message ended: as long
  as no entry sets the message anew, an executed or cancelled message keeps its state, and a
  message that has not ended keeps its state or is marked as consumed.
\<close>

theorem pool_keeps_outcomes:
  assumes "db_ok E R" "async_index_exact E R s"
  shows "\<exists>t. apply_async_pool_changes E sl es now s = (Inr (), t) \<and> async_index_exact E R t \<and>
    (\<forall>i m. async_at E R s i = Some m \<longrightarrow> (\<forall>e \<in> set es. \<not> sets_anew i e) \<longrightarrow>
      (\<exists>m'. async_at E R t i = Some m' \<and>
        (am_state m' = am_state m \<or> am_state m' = Consumed \<and> \<not> async_terminal (am_state m))))"
  by (rule apply_async_pool_run [OF assms])

text \<open>A database with one executed message, and a removal of it from the pool.\<close>

definition ref_removed :: async_pool_entry where
  "ref_removed = \<lparr>ap_async_message_id = ''msg'', ap_value = Some \<lparr>pv_type = 3, pv_message = None\<rparr>\<rparr>"

lemma ref_executed_msg:
  obtains s where "async_index_exact ref_node ref_rows s"
    "async_at ref_node ref_rows s ''msg'' = Some (async_stub ''msg'' AsyncExecuted (Slot 5 3) 7)"
proof -
  have empty: "async_index_exact ref_node ref_rows []" "async_at ref_node ref_rows [] ''msg'' = None"
    using ref_empty_good by (simp_all add: db_good_def async_at_def row_at_def table_def ref_rows_def)
  let ?m = "async_stub ''msg'' AsyncExecuted (Slot 5 3) 7"
  obtain t where t: "async_index_exact ref_node ref_rows t"
      "\<And>j. async_at ref_node ref_rows t j = (if j = am_id ?m
        then Some (async_keep_first_seen (async_at ref_node ref_rows [] j) ?m) else async_at ref_node ref_rows [] j)"
    by (rule write_async [OF ref_node_ok empty(1) wf_async_stub(1)]) (rule that; assumption)
  have "async_at ref_node ref_rows t ''msg'' = Some ?m"
    by (simp add: t(2) empty(2) async_keep_first_seen_def)
  with t(1) show ?thesis
    by (rule that)
qed

theorem pool_keeps_outcomes_witness:
  "\<exists>s t m'. async_at ref_node ref_rows s ''msg'' = Some (async_stub ''msg'' AsyncExecuted (Slot 5 3) 7) \<and>
    apply_async_pool_changes ref_node (Slot 6 3) [ref_removed] 9 s = (Inr (), t) \<and>
    async_at ref_node ref_rows t ''msg'' = Some m' \<and> am_state m' = AsyncExecuted"
proof -
  obtain s where s: "async_index_exact ref_node ref_rows s"
      "async_at ref_node ref_rows s ''msg'' = Some (async_stub ''msg'' AsyncExecuted (Slot 5 3) 7)"
    by (rule ref_executed_msg)
  obtain t where t: "apply_async_pool_changes ref_node (Slot 6 3) [ref_removed] 9 s = (Inr (), t)"
      "\<forall>i m. async_at ref_node ref_rows s i = Some m \<longrightarrow> (\<forall>e \<in> set [ref_removed]. \<not> sets_anew i e) \<longrightarrow>
        (\<exists>m'. async_at ref_node ref_rows t i = Some m' \<and>
          (am_state m' = am_state m \<or> am_state m' = Consumed \<and> \<not> async_terminal (am_state m)))"
    using pool_keeps_outcomes [OF ref_node_ok s(1), of "Slot 6 3" "[ref_removed]" 9]
    by (elim exE conjE) (rule that)
  have "\<forall>e \<in> set [ref_removed]. \<not> sets_anew ''msg'' e"
      "am_state (async_stub ''msg'' AsyncExecuted (Slot 5 3) 7) = AsyncExecuted"
    by (simp_all add: sets_anew_def ref_removed_def async_stub_def)
  with t(2) s(2) obtain m' where "async_at ref_node ref_rows t ''msg'' = Some m'" "am_state m' = AsyncExecuted"
    by (metis async_terminal_def)
  with t(1) s(2) show ?thesis
    by blast
qed

text \<open>
  A SET entry rewrites the row whatever it holds: a message that was executed or cancelled is pending
  again.
\<close>

theorem pool_set_reopens:
  assumes "db_ok E R" "async_index_exact E R s" "i \<noteq> []"
  shows "\<exists>t. apply_async_pool_changes E sl
      [\<lparr>ap_async_message_id = i, ap_value = Some \<lparr>pv_type = 1, pv_message = Some (CreatedMessage msg)\<rparr>\<rparr>] now s =
      (Inr (), t) \<and> map_option am_state (async_at E R t i) = Some Pending"
proof -
  let ?m = "async_msg_from_proto E i msg sl now"
  obtain t where t: "write_async_msg E ?m s = (Inr (), t)"
      "\<And>j. async_at E R t j = (if j = am_id ?m
        then Some (async_keep_first_seen (async_at E R s j) ?m) else async_at E R s j)"
    by (rule write_async [OF assms(1,2) from_proto_wf [OF db_okD(4) [OF assms(1)], of i msg sl now]])
      (rule that; assumption)
  have "am_id ?m = i" "am_state ?m = Pending"
    by (simp_all add: async_msg_from_proto_def)
  with t assms(3) show ?thesis
    by (intro exI [of _ t]) (simp add: apply_async_pool_changes_def apply_async_entry_def bnd_def ret_def)
qed

definition ref_message :: async_message where
  "ref_message =
     \<lparr>ms_emission_slot = None, ms_sender = [], ms_destination = [], ms_handler = [], ms_max_gas = 1,
      ms_fee = None, ms_coins = None, ms_validity_start = None, ms_validity_end = None, ms_data = [],
      ms_trigger = None, ms_can_be_executed = True\<rparr>"

theorem pool_set_reopens_witness:
  "\<exists>s t. map_option am_state (async_at ref_node ref_rows s ''msg'') = Some AsyncExecuted \<and>
    apply_async_pool_changes ref_node (Slot 4 3)
      [\<lparr>ap_async_message_id = ''msg'',
        ap_value = Some \<lparr>pv_type = 1, pv_message = Some (CreatedMessage ref_message)\<rparr>\<rparr>] 9 s = (Inr (), t) \<and>
    map_option am_state (async_at ref_node ref_rows t ''msg'') = Some Pending"
proof -
  obtain s where s: "async_index_exact ref_node ref_rows s"
      "async_at ref_node ref_rows s ''msg'' = Some (async_stub ''msg'' AsyncExecuted (Slot 5 3) 7)"
    by (rule ref_executed_msg)
  from s(2) have "map_option am_state (async_at ref_node ref_rows s ''msg'') = Some AsyncExecuted"
    by (simp add: async_stub_def)
  with pool_set_reopens [OF ref_node_ok s(1), of "''msg''" "Slot 4 3" ref_message 9] show ?thesis
    by blast
qed

end
