(* ===== verification/Arbiter_Laws.thy ===== *)
theory Arbiter_Laws
  imports Settle_Laws
begin

text \<open>
  The chain-linkage arbiter over a healthy database: what it reads as a view of the rows, and the
  evidence behind its verdicts.
\<close>

section \<open>The view\<close>

definition view_ok :: "('s, 'v, 'x) ext_scheme \<Rightarrow> ('s, 'v) rows \<Rightarrow> 's \<Rightarrow> bool" where
  "view_ok E R s \<longleftrightarrow> db_ok E R \<and> slots_ok E (table R s CF_SLOT) \<and> blocks_ok E R s"

definition final_in :: "('s, 'v, 'x) ext_scheme \<Rightarrow> ('s, 'v) rows \<Rightarrow> 's \<Rightarrow> u8 \<Rightarrow> u64 \<Rightarrow> block_id option" where
  "final_in E R s thread p = Option.bind (slot_at E (table R s CF_SLOT) (Slot p thread)) final_block_of"

definition parent_in :: "('s, 'v, 'x) ext_scheme \<Rightarrow> ('s, 'v) rows \<Rightarrow> 's \<Rightarrow> u8 \<Rightarrow> block_id \<Rightarrow> block_id option" where
  "parent_in E R s thread b = Option.bind (block_at E R s b) (\<lambda>r. parent_at r thread)"

lemma read_slot_view:
  "view_ok E R s \<Longrightarrow> read_slot E s p t = Inr (slot_at E (table R s CF_SLOT) (Slot p t))"
  using read_slot_ok [of E R s "Slot p t"] by (simp add: view_ok_def)

lemma read_block_view: "view_ok E R s \<Longrightarrow> read_block E s b = Inr (block_at E R s b)"
  using block_store.gets [of E R s "id_key b"] by (simp add: view_ok_def read_block_def block_at_def)

lemma final_at_view: "view_ok E R s \<Longrightarrow> final_at E s t p = Inr (final_in E R s t p)"
  by (simp add: final_at_def read_slot_view final_in_def)

section \<open>Parents\<close>

definition linked :: "('s, 'v, 'x) ext_scheme \<Rightarrow> ('s, 'v) rows \<Rightarrow> 's \<Rightarrow> u8 \<Rightarrow> block_id \<Rightarrow> block_id \<Rightarrow> bool" where
  "linked E R s thread b c \<longleftrightarrow> parent_in E R s thread b = Some c"

abbreviation descends :: "('s, 'v, 'x) ext_scheme \<Rightarrow> ('s, 'v) rows \<Rightarrow> 's \<Rightarrow> u8 \<Rightarrow> block_id \<Rightarrow> block_id \<Rightarrow> bool" where
  "descends E R s thread \<equiv> (linked E R s thread)\<^sup>*\<^sup>*"

lemma reach_loop_total:
  assumes "view_ok E R s"
  shows "\<exists>b. reach_loop E s target t n cur = Inr b \<and> (b \<longrightarrow> descends E R s t cur target)"
proof (induction n arbitrary: cur)
  case 0
  show ?case by (intro exI [of _ False]) simp
next
  case (Suc n)
  show ?case
  proof (cases "parent_in E R s t cur")
    case None
    then have "Option.bind (block_at E R s cur) (\<lambda>r. parent_at r t) = None"
      by (simp add: parent_in_def)
    then show ?thesis
      by (intro exI [of _ "cur = target"]) (simp add: read_block_view [OF assms])
  next
    case (Some par)
    then have "Option.bind (block_at E R s cur) (\<lambda>r. parent_at r t) = Some par" "linked E R s t cur par"
      by (simp_all add: parent_in_def linked_def)
    moreover obtain b where "reach_loop E s target t n par = Inr b" "b \<longrightarrow> descends E R s t par target"
      using Suc.IH by blast
    ultimately show ?thesis
      by (auto simp: read_block_view [OF assms] intro: converse_rtranclp_into_rtranclp)
  qed
qed

text \<open>A block is dead when one of its parents lost its slot.\<close>

definition lost :: "('s, 'v, 'x) ext_scheme \<Rightarrow> ('s, 'v) rows \<Rightarrow> 's \<Rightarrow> block_id \<Rightarrow> bool" where
  "lost E R s b \<longleftrightarrow>
     (\<exists>r row. block_at E R s b = Some r \<and> slot_at E (table R s CF_SLOT) (bk_slot r) = Some row \<and>
        st_status row = SlotFinal \<and> final_block_of row \<noteq> Some b)"

lemma dead_parent_in_view:
  assumes "view_ok E R s"
  shows "dead_parent_in E s ps = Inr (\<exists>b \<in> set ps. lost E R s b)"
proof (induction ps)
  case Nil
  then show ?case by simp
next
  case (Cons b ps)
  have slot: "Slot (sl_period sl) (sl_thread sl) = sl" for sl
    by (rule Slot_eta)
  show ?case
    using Cons
    by (auto simp: read_block_view [OF assms] read_slot_view [OF assms] slot lost_def final_block_of_def
        split: option.split)
qed

definition block_lost :: "('s, 'v, 'x) ext_scheme \<Rightarrow> ('s, 'v) rows \<Rightarrow> 's \<Rightarrow> stored_block \<Rightarrow> bool" where
  "block_lost E R s b \<longleftrightarrow> (\<exists>p \<in> set (bk_parents b). lost E R s p)"

lemma block_has_dead_parent_view: "view_ok E R s \<Longrightarrow> block_has_dead_parent E s b = Inr (block_lost E R s b)"
  by (simp add: block_has_dead_parent_def dead_parent_in_view block_lost_def)

section \<open>Links after the slot\<close>

text \<open>A FINAL block of the thread at one of the periods, with its parent in the thread.\<close>

definition names_parent :: "('s, 'v, 'x) ext_scheme \<Rightarrow> ('s, 'v) rows \<Rightarrow> 's \<Rightarrow> u8 \<Rightarrow> u64 list \<Rightarrow> block_id \<Rightarrow> bool" where
  "names_parent E R s t ps par \<longleftrightarrow>
     (\<exists>p \<in> set ps. \<exists>b. final_in E R s t p = Some b \<and> parent_in E R s t b = Some par)"

lemma names_parent_Cons:
  "names_parent E R s t ps par \<Longrightarrow> names_parent E R s t (p # ps) par"
  by (auto simp: names_parent_def)

lemma next_parent_in_view:
  assumes "view_ok E R s"
  shows "\<exists>r. next_parent_in E s t ps = Inr r \<and> (\<forall>par. r = Some par \<longrightarrow> names_parent E R s t ps par)"
proof (induction ps)
  case Nil
  then show ?case by simp
next
  case (Cons p ps)
  note skip = names_parent_Cons [of E R s t ps _ p]
  show ?case
  proof (cases "final_in E R s t p")
    case None
    with Cons skip show ?thesis
      by (fastforce simp: final_at_view [OF assms])
  next
    case (Some b)
    show ?thesis
    proof (cases "block_at E R s b")
      case None
      with Some Cons skip show ?thesis
        by (fastforce simp: final_at_view [OF assms] read_block_view [OF assms])
    next
      case blk: (Some r)
      with Some show ?thesis
        by (auto simp: final_at_view [OF assms] read_block_view [OF assms] names_parent_def parent_in_def)
    qed
  qed
qed

lemma broken_link_in_view:
  assumes "view_ok E R s"
  shows "\<exists>r. broken_link_in E s t prev ps = Inr r \<and> (\<forall>par. r = Some par \<longrightarrow> names_parent E R s t ps par)"
proof (induction ps arbitrary: prev)
  case Nil
  then show ?case by simp
next
  case (Cons p ps)
  note skip = names_parent_Cons [of E R s t ps _ p]
  show ?case
  proof (cases "final_in E R s t p")
    case None
    with Cons [of prev] skip show ?thesis
      by (fastforce simp: final_at_view [OF assms])
  next
    case (Some b)
    obtain r where r: "broken_link_in E s t (Some b) ps = Inr r" "\<forall>par. r = Some par \<longrightarrow> names_parent E R s t ps par"
      using Cons by blast
    have here: "names_parent E R s t (p # ps) par" if "parent_in E R s t b = Some par" for par
      using that Some by (auto simp: names_parent_def)
    show ?thesis
    proof (cases "parent_in E R s t b")
      case None
      then have "Option.bind (block_at E R s b) (\<lambda>r. parent_at r t) = None"
        by (simp add: parent_in_def)
      with Some r skip show ?thesis
        by (auto simp: final_at_view [OF assms] read_block_view [OF assms])
    next
      case par: (Some par)
      then have "Option.bind (block_at E R s b) (\<lambda>r. parent_at r t) = Some par"
        by (simp add: parent_in_def)
      with Some r skip here [OF par] show ?thesis
        by (auto simp: final_at_view [OF assms] read_block_view [OF assms])
    qed
  qed
qed

lemma first_final_total: "view_ok E R s \<Longrightarrow> \<exists>r. first_final_in E s t ps = Inr r"
  by (induction ps) (auto simp: final_at_view split: option.split)

section \<open>The verdict\<close>

text \<open>What the arbiter must have seen to give up the local verdict for the peer's.\<close>

definition local_lost :: "('s, 'v, 'x) ext_scheme \<Rightarrow> ('s, 'v) rows \<Rightarrow> 's \<Rightarrow> verdict \<Rightarrow> bool" where
  "local_lost E R s local \<longleftrightarrow>
     (\<exists>x b. local = BlockVerdict x \<and> block_at E R s x = Some b \<and> block_lost E R s b)"

definition peer_lost :: "('s, 'v, 'x) ext_scheme \<Rightarrow> ('s, 'v) rows \<Rightarrow> 's \<Rightarrow> verdict \<Rightarrow> stored_block option \<Rightarrow> bool" where
  "peer_lost E R s peer shipped \<longleftrightarrow>
     (\<exists>b. shipped = Some b \<and> peer = BlockVerdict (bk_id b) \<and> block_lost E R s b)"

definition confirmed :: "('s, 'v, 'x) ext_scheme \<Rightarrow> ('s, 'v) rows \<Rightarrow> 's \<Rightarrow> slot \<Rightarrow> verdict \<Rightarrow> bool" where
  "confirmed E R s sl peer \<longleftrightarrow>
     (\<exists>par. names_parent E R s (sl_thread sl) (periods_after (sl_period sl)) par \<and>
        (case peer of BlockVerdict y \<Rightarrow> descends E R s (sl_thread sl) par y | Miss \<Rightarrow> True))"

lemma in_fork_view:
  assumes "view_ok E R s" "local \<noteq> peer"
  shows "\<exists>a. in_fork E s sl local peer otherwise = Inr a \<and>
    (a = AdoptPeer \<longrightarrow> otherwise = AdoptPeer \<or> confirmed E R s sl peer)"
proof -
  obtain prev where prev: "(case local of BlockVerdict b \<Rightarrow> Inr (Some b) | Miss \<Rightarrow> prev_final_block E s sl) = Inr prev"
    using first_final_total [OF assms(1)] by (cases local) (auto simp: prev_final_block_def)
  obtain r where r: "broken_link_in E s (sl_thread sl) prev (periods_after (sl_period sl)) = Inr r"
      "\<And>par. r = Some par \<Longrightarrow> names_parent E R s (sl_thread sl) (periods_after (sl_period sl)) par"
    using broken_link_in_view [OF assms(1)] by blast
  have anchor: "dead_fork_anchor E s sl local = Inr r"
    using prev r(1) by (simp add: dead_fork_anchor_def)
  show ?thesis
  proof (cases r)
    case None
    with anchor show ?thesis by (simp add: in_fork_def)
  next
    case (Some par)
    obtain b where b: "reachable_via_parents E s par y (sl_thread sl) = Inr b"
        "b \<Longrightarrow> descends E R s (sl_thread sl) par y" if "peer = BlockVerdict y" for y
      using reach_loop_total [OF assms(1)] unfolding reachable_via_parents_def
      by (metis verdict.inject)
    have "\<exists>a. arbitrate_in_dead_fork E s sl local peer par = Inr a \<and> (a = AdoptPeer \<longrightarrow> confirmed E R s sl peer)"
    proof (cases peer)
      case Miss
      with assms(2) r(2) [OF Some] show ?thesis
        by (cases local) (auto simp: confirmed_def)
    next
      case (BlockVerdict y)
      note b [OF BlockVerdict]
      with BlockVerdict r(2) [OF Some] show ?thesis
        by (cases local) (auto simp: confirmed_def)
    qed
    with Some anchor show ?thesis
      by (auto simp: in_fork_def)
  qed
qed

lemma immediate_link_view:
  assumes "view_ok E R s" "local \<noteq> peer"
    and "names_parent E R s (sl_thread sl) (periods_after (sl_period sl)) par"
  shows "\<exists>im. immediate_link E s sl local peer par = Inr im \<and>
    (im = Some AdoptPeer \<longrightarrow> confirmed E R s sl peer)"
proof -
  obtain q where "prev_final_block E s sl = Inr q"
    using first_final_total [OF assms(1)] unfolding prev_final_block_def by blast
  with assms(2,3) show ?thesis
    by (cases local; cases peer) (auto simp: confirmed_def)
qed

lemma arbitrate_view:
  assumes "view_ok E R s"
  shows "\<exists>a. arbitrate_verdicts E s sl local peer shipped = Inr a \<and>
    (a = AdoptPeer \<longrightarrow> local \<noteq> peer \<and> \<not> peer_lost E R s peer shipped \<and>
      (local_lost E R s local \<or> confirmed E R s sl peer))"
proof (cases "local = peer")
  case True
  then show ?thesis by (simp add: arbitrate_verdicts_def)
next
  case False
  have pd: "peer_block_dead E s peer shipped = Inr (peer_lost E R s peer shipped)"
    using block_has_dead_parent_view [OF assms]
    by (auto simp: peer_block_dead_def peer_lost_def split: verdict.split option.split)
  have ld: "local_block_dead E s local = Inr (local_lost E R s local)"
    using block_has_dead_parent_view [OF assms]
    by (auto simp: local_block_dead_def local_lost_def read_block_view [OF assms]
        split: verdict.split option.split)
  obtain np where np: "next_parent_link E s sl = Inr np"
      "\<And>par. np = Some par \<Longrightarrow> names_parent E R s (sl_thread sl) (periods_after (sl_period sl)) par"
    using next_parent_in_view [OF assms] unfolding next_parent_link_def by blast
  show ?thesis
  proof (cases "peer_lost E R s peer shipped \<or> local_lost E R s local \<or> np = None")
    case True
    with False pd ld np(1) show ?thesis
      by (auto simp: arbitrate_verdicts_def)
  next
    case rest: False
    then obtain par where par: "np = Some par" by blast
    obtain im where im: "immediate_link E s sl local peer par = Inr im"
        "im = Some AdoptPeer \<longrightarrow> confirmed E R s sl peer"
      using immediate_link_view [OF assms False np(2) [OF par]] by blast
    obtain a b where "in_fork E s sl local peer KeepLocal = Inr a" "a = AdoptPeer \<longrightarrow> confirmed E R s sl peer"
        "in_fork E s sl local peer Inconclusive = Inr b" "b = AdoptPeer \<longrightarrow> confirmed E R s sl peer"
      using in_fork_view [OF assms False, of sl KeepLocal] in_fork_view [OF assms False, of sl Inconclusive]
      by blast
    with False rest pd ld np(1) par im show ?thesis
      by (cases im) (auto simp: arbitrate_verdicts_def)
  qed
qed

end
