(* ===== verification/Props_Peer.thy ===== *)
theory Props_Peer
  imports Reference_Node Arbiter_Laws
begin

text \<open>
  The properties of the peer layer: when the arbiter gives up a local verdict.
\<close>

section \<open>The arbiter\<close>


lemma ref_node_view: "view_ok ref_node ref_rows []"
  by (simp add: view_ok_def ref_node_ok slots_ok_def rows_ok_def table_def ref_rows_def)


text \<open>The two periods after a slot, and the rest of the lookaround.\<close>

lemma periods_after_two:
  assumes "unat p < 2 ^ 64 - 512"
  obtains ps where "periods_after p = (p + 1) # (p + 2) # ps"
proof -
  have "p + 1 \<le> p + 512" "unat (p + 512 - (p + 1)) = 511"
    using assms by (simp_all add: word_le_nat_alt unat_word_ariths)
  then have "periods_after p = map (\<lambda>i. p + 1 + word_of_nat i) [0..<512]"
    by (simp add: periods_after_def range_incl_def LINKAGE_LOOKAROUND_def)
  also have "[0..<512] = 0 # 1 # [2..<512]"
    by (simp add: upt_rec)
  finally show ?thesis
    by (intro that) (simp add: add.assoc)
qed

text \<open>
  A miss a peer claims is adopted over the block of a live chain: when the next FINAL block of
  the thread and the one after it both name the local block as their parent, so that the
  block between them is the one the chain dropped, the arbiter still gives the local block up.
\<close>

theorem dead_successor_costs_live_block:
  assumes "view_ok E R s" "unat (sl_period sl) < 2 ^ 64 - 512"
    and "final_in E R s (sl_thread sl) (sl_period sl + 1) = Some n1"
    and "final_in E R s (sl_thread sl) (sl_period sl + 2) = Some n2"
    and "parent_in E R s (sl_thread sl) n1 = Some x" "parent_in E R s (sl_thread sl) n2 = Some x"
    and "n1 \<noteq> x" "\<not> local_lost E R s (BlockVerdict x)"
  shows "arbitrate_verdicts E s sl (BlockVerdict x) Miss shipped = Inr AdoptPeer"
proof -
  note view = final_at_view [OF assms(1)] read_block_view [OF assms(1)]
  obtain ps where ps: "periods_after (sl_period sl) = (sl_period sl + 1) # (sl_period sl + 2) # ps"
    by (rule periods_after_two [OF assms(2)])
  obtain b1 b2 where b: "block_at E R s n1 = Some b1" "parent_at b1 (sl_thread sl) = Some x"
      "block_at E R s n2 = Some b2" "parent_at b2 (sl_thread sl) = Some x"
    using assms(5,6) by (auto simp: parent_in_def bind_eq_Some_conv)
  have "next_parent_link E s sl = Inr (Some x)"
    using assms(3) b by (simp add: next_parent_link_def ps view)
  moreover have "dead_fork_anchor E s sl (BlockVerdict x) = Inr (Some x)"
    using assms(3,4,7) b by (simp add: dead_fork_anchor_def ps view)
  moreover have "local_block_dead E s (BlockVerdict x) = Inr False"
    using assms(8) block_has_dead_parent_view [OF assms(1)]
    by (auto simp: local_block_dead_def local_lost_def view split: option.split)
  moreover have "peer_block_dead E s Miss shipped = Inr False"
    by (simp add: peer_block_dead_def)
  ultimately show ?thesis
    by (simp add: arbitrate_verdicts_def in_fork_def)
qed

text \<open>A chain on thread 3: the block of slot 5 is the parent of the blocks of slots 6 and 7.\<close>

definition ref_settled :: "u64 \<Rightarrow> u8 \<Rightarrow> slot_state" where
  "ref_settled p n = (fresh (Slot p 3) 7)\<lparr>st_status := SlotFinal, st_final_block_id := Some (nblock n)\<rparr>"

definition ref_child :: "u64 \<Rightarrow> u8 \<Rightarrow> stored_block" where
  "ref_child p n =
     \<lparr>bk_id = nblock n, bk_slot = Slot p 3, bk_creator = user_from_hash ref_node 0 (replicate 32 1),
      bk_parents = replicate 32 (nblock 1), bk_operation_ids = [], bk_endorsements = [],
      bk_endorsement_ids = [], bk_denunciations = [], bk_current_version = 1,
      bk_announced_version = None, bk_operations_hash = [], bk_signature = [],
      bk_content_creator_pub_key = [], bk_serialized_size = 0, bk_raw_signed_header_b64 = [],
      bk_status = BlockFinal, bk_first_seen_ts_ms = 7\<rparr>"

definition ref_chain :: "ref_value batch" where
  "ref_chain =
     map (\<lambda>(p, n). Put CF_SLOT (slot_row_key (Slot p 3)) (encode_slot_state ref_node (ref_settled p n)))
       [(5, 1), (6, 2), (7, 3)] @
     map (\<lambda>(p, n). Put CF_BLOCK (id_key (nblock n)) (projr (encode_block ref_node (ref_child p n))))
       [(6, 2), (7, 3)]"

lemma nblock_key [simp]: "id_key (nblock m) = id_key (nblock n) \<longleftrightarrow> m = n"
  by (simp add: nblock_def block_from_hash_def gid_from_hash_def)

lemma nblock_eq [simp]: "nblock m = nblock n \<longleftrightarrow> m = n"
  using nblock_key by metis

lemma ref_chain_decode:
  "decode_slot_state ref_node (encode_slot_state ref_node (ref_settled p n)) = Inr (ref_settled p n)"
  "decode_block ref_node (projr (encode_block ref_node (ref_child p n))) = Inr (ref_child p n)"
proof -
  have "wf_slot_state ref_node (ref_settled p n)"
    by (simp add: ref_settled_def fresh_def wf_slot_state_def)
  then show "decode_slot_state ref_node (encode_slot_state ref_node (ref_settled p n)) = Inr (ref_settled p n)"
    using slot_state_codec.dec_enc [OF ref_node_wires_ok] by simp
  have "wf_addr ref_node (user_from_hash ref_node 0 (replicate 32 1))"
    by (simp add: user_from_hash_def wf_addr_def Let_def ADDR_KEY_LEN_def)
  then have "wf_block ref_node (ref_child p n)"
    by (simp add: ref_child_def wf_block_def wf_payload_def list_all_iff)
  then show "decode_block ref_node (projr (encode_block ref_node (ref_child p n))) = Inr (ref_child p n)"
    using block_codec.enc_dec [OF ref_node_wires_ok] by fastforce
qed

lemma ref_chain_tables:
  "table ref_rows ref_chain CF_SLOT =
     [slot_row_key (Slot 5 3) \<mapsto> encode_slot_state ref_node (ref_settled 5 1),
      slot_row_key (Slot 6 3) \<mapsto> encode_slot_state ref_node (ref_settled 6 2),
      slot_row_key (Slot 7 3) \<mapsto> encode_slot_state ref_node (ref_settled 7 3)]"
  "table ref_rows ref_chain CF_BLOCK =
     [id_key (nblock 2) \<mapsto> projr (encode_block ref_node (ref_child 6 2)),
      id_key (nblock 3) \<mapsto> projr (encode_block ref_node (ref_child 7 3))]"
proof -
  have "table ref_rows ref_chain = apply_batch ref_chain (table ref_rows [])"
    using ref_table_append [of "[]" ref_chain] by simp
  note log = this
  have none: "table ref_rows [] c = Map.empty" for c :: cf
    by (simp add: table_def ref_rows_def)
  show "table ref_rows ref_chain CF_SLOT =
     [slot_row_key (Slot 5 3) \<mapsto> encode_slot_state ref_node (ref_settled 5 1),
      slot_row_key (Slot 6 3) \<mapsto> encode_slot_state ref_node (ref_settled 6 2),
      slot_row_key (Slot 7 3) \<mapsto> encode_slot_state ref_node (ref_settled 7 3)]"
    "table ref_rows ref_chain CF_BLOCK =
     [id_key (nblock 2) \<mapsto> projr (encode_block ref_node (ref_child 6 2)),
      id_key (nblock 3) \<mapsto> projr (encode_block ref_node (ref_child 7 3))]"
    by (simp_all add: log) (simp_all add: ref_chain_def none)
qed

lemma ref_chain_view: "view_ok ref_node ref_rows ref_chain"
proof -
  have "st_slot (ref_settled p n) = Slot p 3" "bk_id (ref_child p n) = nblock n" for p n
    by (simp_all add: ref_settled_def fresh_def ref_child_def)
  then show ?thesis
    by (auto simp: view_ok_def ref_node_ok slots_ok_def rows_ok_def ref_chain_tables ref_chain_decode
        split: if_splits)
qed

theorem dead_successor_costs_live_block_witness:
  "arbitrate_verdicts ref_node ref_chain (Slot 5 3) (BlockVerdict (nblock 1)) Miss None = Inr AdoptPeer"
proof (rule dead_successor_costs_live_block [OF ref_chain_view, where ?n1.0 = "nblock 2" and ?n2.0 = "nblock 3"])
  have row: "slot_row_key (Slot p 3) = slot_row_key (Slot q 3) \<longleftrightarrow> p = q" for p q
    by (simp add: slot_row_key_inj)
  have final: "final_in ref_node ref_rows ref_chain 3 6 = Some (nblock 2)"
      "final_in ref_node ref_rows ref_chain 3 7 = Some (nblock 3)"
    by (simp_all add: final_in_def slot_at_def ref_chain_tables row ref_chain_decode)
      (simp_all add: final_block_of_def ref_settled_def fresh_def)
  then show "final_in ref_node ref_rows ref_chain (sl_thread (Slot 5 3)) (sl_period (Slot 5 3) + 1) = Some (nblock 2)"
    "final_in ref_node ref_rows ref_chain (sl_thread (Slot 5 3)) (sl_period (Slot 5 3) + 2) = Some (nblock 3)"
    by simp_all
  have "parent_in ref_node ref_rows ref_chain 3 (nblock n) = Some (nblock 1)" if "n = 2 \<or> n = 3" for n
    using that by (auto simp: parent_in_def block_at_def row_at_def ref_chain_tables ref_chain_decode)
      (simp_all add: parent_at_def ref_child_def)
  then show "parent_in ref_node ref_rows ref_chain (sl_thread (Slot 5 3)) (nblock 2) = Some (nblock 1)"
    "parent_in ref_node ref_rows ref_chain (sl_thread (Slot 5 3)) (nblock 3) = Some (nblock 1)"
    by simp_all
  show "\<not> local_lost ref_node ref_rows ref_chain (BlockVerdict (nblock 1))"
    by (simp add: local_lost_def block_at_def row_at_def ref_chain_tables)
qed simp_all

end
