(* ===== verification/Session.thy ===== *)
theory Session
  imports Node_Pb Result
begin

text \<open>
  The bridge of a sync session (\<open>peer/session.rs\<close>): requests that wait for their answer are
  kept in \<open>pending\<close> under a correlation id of the process-wide counter \<open>CORR_IDS\<close>, and each
  waits on a one-shot channel.  The asynchronous \<open>get_final_slot\<close> is the sequence of its steps: the
  request is registered and sent, the send may fail, and then the caller is woken by an
  answer, by the closing of the channel, or by the timeout; in between, the reader task of the
  session calls \<open>complete\<close> and \<open>fail_pending\<close>, and other bridges draw correlation ids.
\<close>

section \<open>Messages\<close>

record session_hello =
  sh_peer_id :: string
  sh_network :: string
  sh_build_version :: string
  sh_schema_version :: u32
  sh_advertise_url :: string

datatype session_body =
    Hello session_hello
  | SlotRequest final_slot_request
  | SlotResponse final_slot_response

record session_message =
  sm_id :: u64
  sm_body :: "session_body option"

definition make_hello :: "string \<Rightarrow> string \<Rightarrow> string \<Rightarrow> u32 \<Rightarrow> string \<Rightarrow> session_message" where
  "make_hello peer network build schema url =
     \<lparr>sm_id = 0,
      sm_body = Some (Hello \<lparr>sh_peer_id = peer, sh_network = network, sh_build_version = build,
                             sh_schema_version = schema, sh_advertise_url = url\<rparr>)\<rparr>"

definition slot_request_msg :: "u64 \<Rightarrow> u64 \<Rightarrow> u8 \<Rightarrow> final_slot_parts \<Rightarrow> session_message" where
  "slot_request_msg corr period thread parts =
     \<lparr>sm_id = corr,
      sm_body = Some (SlotRequest \<lparr>fq_period = period, fq_thread = ucast thread,
                                   fq_parts = Some parts\<rparr>)\<rparr>"

section \<open>The bridge\<close>

text \<open>
  The state of a one-shot channel as its receiver sees it, and the bridge.  \<open>channel\<close> holds the
  channel of each request that has not returned yet, \<open>outbox\<close> what was sent to the remote,
  and \<open>returned\<close> what \<open>get_final_slot\<close> returned, by correlation id.
\<close>

datatype oneshot = Waiting | Answered final_slot_response | Cancelled

record session_bridge =
  bridge_id :: u64
  bridge_peer_id :: string
  pending :: "u64 list"
  channel :: "u64 \<Rightarrow> oneshot option"
  outbox :: "session_message list"
  returned :: "(u64 \<times> (error + final_slot_response)) list"

definition bridge_new :: "u64 \<Rightarrow> string \<Rightarrow> session_bridge" where
  "bridge_new i peer =
     \<lparr>bridge_id = i, bridge_peer_id = peer, pending = [], channel = (\<lambda>_. None), outbox = [],
      returned = []\<rparr>"

definition session_error :: "string \<Rightarrow> string \<Rightarrow> error" where
  "session_error peer what = Other (''peer '' @ peer @ '' sync session '' @ what)"

definition give_back :: "u64 \<Rightarrow> error + final_slot_response \<Rightarrow> session_bridge \<Rightarrow> session_bridge" where
  "give_back c r b = b\<lparr>channel := (channel b)(c := None), returned := returned b @ [(c, r)]\<rparr>"

definition forget :: "u64 \<Rightarrow> session_bridge \<Rightarrow> session_bridge" where
  "forget c b = b\<lparr>pending := removeAll c (pending b)\<rparr>"

text \<open>\<open>get_final_slot\<close> up to its first wait: the id is drawn, the waiter registered, the request sent.\<close>

definition open_request ::
  "u64 \<Rightarrow> u64 \<Rightarrow> u8 \<Rightarrow> final_slot_parts \<Rightarrow> bool \<Rightarrow> session_bridge \<Rightarrow> session_bridge" where
  "open_request corr period thread parts sent b =
     (let b1 = b\<lparr>pending := corr # pending b, channel := (channel b)(corr := Some Waiting)\<rparr> in
      if sent then b1\<lparr>outbox := outbox b1 @ [slot_request_msg corr period thread parts]\<rparr>
      else give_back corr (Inl (session_error (bridge_peer_id b) ''closed'')) (forget corr b1))"

text \<open>\<open>get_final_slot\<close> after its wait: the channel resolved, or the timeout fired first.\<close>

definition wake :: "u64 \<Rightarrow> session_bridge \<Rightarrow> session_bridge" where
  "wake c b =
     (case channel b c of
        Some (Answered r) \<Rightarrow> give_back c (Inr r) b
      | Some Cancelled \<Rightarrow> give_back c (Inl (session_error (bridge_peer_id b) ''cancelled'')) b
      | _ \<Rightarrow> b)"

definition time_out :: "u64 \<Rightarrow> session_bridge \<Rightarrow> session_bridge" where
  "time_out c b =
     (case channel b c of
        Some Waiting \<Rightarrow>
          give_back c (Inl (session_error (bridge_peer_id b) ''timed out'')) (forget c b)
      | _ \<Rightarrow> b)"

definition complete :: "u64 \<Rightarrow> final_slot_response \<Rightarrow> session_bridge \<Rightarrow> session_bridge" where
  "complete i resp b =
     (if i \<in> set (pending b)
      then (forget i b)\<lparr>channel := (channel b)(i := map_option (\<lambda>_. Answered resp) (channel b i))\<rparr>
      else b)"

definition fail_pending :: "session_bridge \<Rightarrow> session_bridge" where
  "fail_pending b =
     b\<lparr>pending := [],
       channel := (\<lambda>i. if i \<in> set (pending b) then map_option (\<lambda>_. Cancelled) (channel b i)
                       else channel b i)\<rparr>"

section \<open>Steps of the session\<close>

datatype bridge_step =
    Request u64 u8 final_slot_parts bool
  | OtherBridge
  | Complete u64 final_slot_response
  | FailPending
  | Wake u64
  | TimeOut u64

text \<open>The state of a run: the next value of \<open>CORR_IDS\<close>, and the bridge.\<close>

fun bridge_do :: "bridge_step \<Rightarrow> u64 \<times> session_bridge \<Rightarrow> u64 \<times> session_bridge" where
  "bridge_do (Request p t parts sent) (n, b) = (n + 1, open_request n p t parts sent b)"
| "bridge_do OtherBridge (n, b) = (n + 1, b)"
| "bridge_do (Complete i r) (n, b) = (n, complete i r b)"
| "bridge_do FailPending (n, b) = (n, fail_pending b)"
| "bridge_do (Wake c) (n, b) = (n, wake c b)"
| "bridge_do (TimeOut c) (n, b) = (n, time_out c b)"

definition bridge_run :: "bridge_step list \<Rightarrow> u64 \<times> session_bridge \<Rightarrow> u64 \<times> session_bridge" where
  "bridge_run steps s = fold bridge_do steps s"

end
