(* ===== verification/Registry.thy ===== *)
theory Registry
  imports Session "HOL-Library.AList"
begin

text \<open>
  The registry of logical peers (\<open>peer/registry.rs\<close>).  A hash map is the list of its entries in
  the order its iterator happens to visit them; a session is shared (\<open>Arc<SessionBridge>\<close>), so the
  registry holds its handle, the process-wide unique bridge id.  Instants are milliseconds.
\<close>

section \<open>State\<close>

record peer_routes =
  urls :: "string list"
  sessions :: "u64 list"

record peer_registry =
  inner :: "(string \<times> peer_routes) list"
  demoted_urls :: "(string \<times> nat) list"

definition URL_DEMOTE_TTL :: nat where
  "URL_DEMOTE_TTL = 30 * 60 * 1000"

definition routes_default :: peer_routes where
  "routes_default = \<lparr>urls = [], sessions = []\<rparr>"

definition registry_new :: peer_registry where
  "registry_new = \<lparr>inner = [], demoted_urls = []\<rparr>"

definition routes_empty :: "peer_routes \<Rightarrow> bool" where
  "routes_empty e \<longleftrightarrow> sessions e = [] \<and> urls e = []"

text \<open>\<open>if !xs.iter().any(|y| y == &x) { xs.push(x) }\<close>\<close>

definition push_new :: "'a \<Rightarrow> 'a list \<Rightarrow> 'a list" where
  "push_new x xs = (if x \<in> set xs then xs else xs @ [x])"

text \<open>\<open>entry(k).or_default()\<close> followed by an update in place.\<close>

definition upsert ::
  "string \<Rightarrow> (peer_routes \<Rightarrow> peer_routes) \<Rightarrow> (string \<times> peer_routes) list \<Rightarrow> (string \<times> peer_routes) list" where
  "upsert k f m = AList.update k (f (unwrap_or routes_default (map_of m k))) m"

text \<open>\<open>get_mut(k)\<close>, an update in place, and the removal of an entry it emptied.\<close>

definition shrink ::
  "string \<Rightarrow> (peer_routes \<Rightarrow> peer_routes) \<Rightarrow> (string \<times> peer_routes) list \<Rightarrow> (string \<times> peer_routes) list" where
  "shrink k f m =
     (case map_of m k of
        None \<Rightarrow> m
      | Some e \<Rightarrow> if routes_empty (f e) then AList.delete k m else AList.update k (f e) m)"

section \<open>Operations\<close>

definition has_any :: "peer_registry \<Rightarrow> bool" where
  "has_any g \<longleftrightarrow> inner g \<noteq> []"

definition peer_ids :: "peer_registry \<Rightarrow> string list" where
  "peer_ids g = map fst (inner g)"

definition registry_get :: "string \<Rightarrow> peer_registry \<Rightarrow> peer_routes option" where
  "registry_get p g = map_of (inner g) p"

definition is_demoted :: "nat \<Rightarrow> string \<Rightarrow> peer_registry \<Rightarrow> bool \<times> peer_registry" where
  "is_demoted now url g =
     (let d = filter (\<lambda>(_, until). until > now) (demoted_urls g)
      in (url \<in> fst ` set d, g\<lparr>demoted_urls := d\<rparr>))"

definition add_url :: "nat \<Rightarrow> string \<Rightarrow> string \<Rightarrow> peer_registry \<Rightarrow> peer_registry" where
  "add_url now peer url g =
     (if peer = [] \<or> url = [] then g
      else (case is_demoted now url g of (dem, g1) \<Rightarrow>
        if dem then g1
        else g1\<lparr>inner := upsert peer (\<lambda>e. e\<lparr>urls := push_new url (urls e)\<rparr>) (inner g1)\<rparr>))"

definition remove_url :: "nat \<Rightarrow> string \<Rightarrow> string \<Rightarrow> peer_registry \<Rightarrow> peer_registry" where
  "remove_url now peer url g =
     (if peer = [] \<or> url = [] then g
      else \<lparr>inner = shrink peer (\<lambda>e. e\<lparr>urls := removeAll url (urls e)\<rparr>) (inner g),
            demoted_urls = AList.update url (now + URL_DEMOTE_TTL) (demoted_urls g)\<rparr>)"

definition set_session :: "string \<Rightarrow> u64 \<Rightarrow> peer_registry \<Rightarrow> peer_registry" where
  "set_session peer bridge g =
     (if peer = [] then g
      else g\<lparr>inner := upsert peer (\<lambda>e. e\<lparr>sessions := push_new bridge (sessions e)\<rparr>) (inner g)\<rparr>)"

definition clear_session_by_id :: "string \<Rightarrow> u64 \<Rightarrow> peer_registry \<Rightarrow> peer_registry" where
  "clear_session_by_id peer bridge g =
     g\<lparr>inner := shrink peer (\<lambda>e. e\<lparr>sessions := removeAll bridge (sessions e)\<rparr>) (inner g)\<rparr>"

definition clear_session_by_bridge_id :: "u64 \<Rightarrow> peer_registry \<Rightarrow> peer_registry" where
  "clear_session_by_bridge_id bridge g =
     (let m = map (\<lambda>(k, e). (k, e\<lparr>sessions := removeAll bridge (sessions e)\<rparr>)) (inner g)
      in g\<lparr>inner := filter (\<lambda>(k, e). \<not> routes_empty e) m\<rparr>)"

definition merge_routes :: "peer_routes \<Rightarrow> peer_routes \<Rightarrow> peer_routes" where
  "merge_routes old e =
     \<lparr>urls = fold push_new (urls old) (urls e), sessions = fold push_new (sessions old) (sessions e)\<rparr>"

definition migrate_peer_id :: "string \<Rightarrow> string \<Rightarrow> peer_registry \<Rightarrow> peer_registry" where
  "migrate_peer_id from to g =
     (if from = [] \<or> to = [] \<or> from = to then g
      else (case map_of (inner g) from of
        None \<Rightarrow> g
      | Some old \<Rightarrow> g\<lparr>inner := upsert to (merge_routes old) (AList.delete from (inner g))\<rparr>))"

section \<open>Runs\<close>

datatype registry_op =
    AddUrl string string
  | RemoveUrl string string
  | SetSession string u64
  | ClearById string u64
  | ClearByBridge u64
  | Migrate string string

text \<open>An operation at the time it reads the clock.\<close>

fun registry_do :: "nat \<times> registry_op \<Rightarrow> peer_registry \<Rightarrow> peer_registry" where
  "registry_do (now, AddUrl p u) g = add_url now p u g"
| "registry_do (now, RemoveUrl p u) g = remove_url now p u g"
| "registry_do (now, SetSession p b) g = set_session p b g"
| "registry_do (now, ClearById p b) g = clear_session_by_id p b g"
| "registry_do (now, ClearByBridge b) g = clear_session_by_bridge_id b g"
| "registry_do (now, Migrate f t) g = migrate_peer_id f t g"

section \<open>The routes of a registry, as relations\<close>

definition url_of :: "(string \<times> peer_routes) list \<Rightarrow> string \<Rightarrow> string set" where
  "url_of m p = (case map_of m p of None \<Rightarrow> {} | Some e \<Rightarrow> set (urls e))"

definition session_of :: "(string \<times> peer_routes) list \<Rightarrow> string \<Rightarrow> u64 set" where
  "session_of m p = (case map_of m p of None \<Rightarrow> {} | Some e \<Rightarrow> set (sessions e))"

definition entry_ok :: "string \<times> peer_routes \<Rightarrow> bool" where
  "entry_ok = (\<lambda>(k, e). k \<noteq> [] \<and> \<not> routes_empty e \<and> distinct (urls e) \<and> [] \<notin> set (urls e) \<and>
     distinct (sessions e))"

definition registry_ok :: "peer_registry \<Rightarrow> bool" where
  "registry_ok g \<longleftrightarrow> distinct (map fst (inner g)) \<and> (\<forall>x \<in> set (inner g). entry_ok x) \<and>
     distinct (map fst (demoted_urls g))"

lemma set_push_new [simp]: "set (push_new x xs) = insert x (set xs)"
  by (auto simp: push_new_def)

lemma push_new_nonempty [simp]: "push_new x xs \<noteq> []" "[] \<noteq> push_new x xs"
  by (auto simp: push_new_def)

lemma distinct_push_new [simp]: "distinct (push_new x xs) = distinct xs"
  by (simp add: push_new_def)

lemma set_fold_push_new [simp]: "set (fold push_new ys xs) = set ys \<union> set xs"
  by (induction ys arbitrary: xs) auto

lemma distinct_fold_push_new [simp]: "distinct (fold push_new ys xs) = distinct xs"
  by (induction ys arbitrary: xs) auto

lemma map_of_upsert: "map_of (upsert k f m) = (map_of m)(k \<mapsto> f (unwrap_or routes_default (map_of m k)))"
  by (simp add: upsert_def update_conv')

lemma map_of_shrink:
  "map_of (shrink k f m) =
     (case map_of m k of None \<Rightarrow> map_of m
      | Some e \<Rightarrow> (map_of m)(k := if routes_empty (f e) then None else Some (f e)))"
  by (simp add: shrink_def update_conv' delete_conv' split: option.split)

lemma distinct_upsert [simp]: "distinct (map fst m) \<Longrightarrow> distinct (map fst (upsert k f m))"
  by (simp add: upsert_def distinct_update)

lemma distinct_shrink [simp]: "distinct (map fst m) \<Longrightarrow> distinct (map fst (shrink k f m))"
  by (auto simp: shrink_def distinct_update distinct_delete split: option.splits)

lemma entry_ok_map_of:
  "distinct (map fst m) \<Longrightarrow> (\<forall>x \<in> set m. entry_ok x) \<longleftrightarrow> (\<forall>k e. map_of m k = Some e \<longrightarrow> entry_ok (k, e))"
  by (metis map_of_SomeD map_of_is_SomeI surj_pair)

lemma registry_okI:
  assumes "distinct (map fst (inner g))" "\<And>k e. map_of (inner g) k = Some e \<Longrightarrow> entry_ok (k, e)"
    and "distinct (map fst (demoted_urls g))"
  shows "registry_ok g"
  unfolding registry_ok_def using assms entry_ok_map_of [OF assms(1)] by simp

lemma registry_okD:
  assumes "registry_ok g"
  shows "distinct (map fst (inner g))" "map_of (inner g) k = Some e \<Longrightarrow> entry_ok (k, e)"
    and "distinct (map fst (demoted_urls g))"
proof -
  note ok = assms [unfolded registry_ok_def]
  from ok show d: "distinct (map fst (inner g))" by (rule conjunct1)
  from ok show "distinct (map fst (demoted_urls g))" by (elim conjE)
  from ok entry_ok_map_of [OF d] show "map_of (inner g) k = Some e \<Longrightarrow> entry_ok (k, e)" by simp
qed

end
