(* ===== verification/Service.thy ===== *)
theory Service
  imports Registry Db_Pool Db_Scan
begin

text \<open>
  The peer service (\<open>peer/service.rs\<close>): the answers to health probes, to requests for one FINAL
  slot and for a range of them, and both ends of the sync session's message loop.  A result is
  \<open>None\<close> where the code panics (the conversions of rows that were just encoded).  The channel a
  stream is sent through is the list of the items sent; a consumer that hangs up sees a prefix of it.
\<close>

section \<open>Messages\<close>

record health_request =
  hq_caller_peer_id :: string
  hq_caller_network :: string
  hq_advertise_url :: string

record health_response =
  hr_peer_id :: string
  hr_network :: string
  hr_build_version :: string
  hr_last_final_period :: u64
  hr_last_final_thread :: u32
  hr_now_ms :: i64
  hr_schema_version :: u32

record stream_final_slots_request =
  fs_from_period :: u64
  fs_from_thread :: u32
  fs_to_period :: u64
  fs_to_thread :: u32
  fs_parts :: "final_slot_parts option"
  fs_limit :: u32

datatype status =
    InvalidArgument string
  | FailedPrecondition string string
  | Internal error

record peer_service =
  ps_peer_id :: string
  ps_network :: string
  ps_build_version :: string
  ps_advertise_url :: string
  ps_stream_limit_cap :: u32

definition service_new :: "string \<Rightarrow> string \<Rightarrow> string \<Rightarrow> string \<Rightarrow> peer_service" where
  "service_new peer network build url =
     \<lparr>ps_peer_id = peer, ps_network = network, ps_build_version = build, ps_advertise_url = url,
      ps_stream_limit_cap = 512\<rparr>"

text \<open>\<open>u8::try_from\<close>\<close>

definition u8_try :: "u32 \<Rightarrow> u8 option" where
  "u8_try x = (if unat x < 256 then Some (ucast x) else None)"

text \<open>\<open>?\<close> where the computation may also panic.\<close>

definition sbind :: "('e + 'a) option \<Rightarrow> ('a \<Rightarrow> ('e + 'b) option) \<Rightarrow> ('e + 'b) option" where
  "sbind m f = (case m of None \<Rightarrow> None | Some (Inl e) \<Rightarrow> Some (Inl e) | Some (Inr x) \<Rightarrow> f x)"

text \<open>Conversions that must succeed, and conversions whose errors are logged.\<close>

definition ship_all :: "('a \<Rightarrow> 'm option) \<Rightarrow> 'a list \<Rightarrow> ('e + 'm list) option" where
  "ship_all f xs = map_option Inr (those (map f xs))"

definition ship_ok :: "('a \<Rightarrow> 'd + 'm) \<Rightarrow> 'a list \<Rightarrow> 'm list" where
  "ship_ok f xs = List.map_filter (\<lambda>x. res_ok (f x)) xs"

section \<open>One slot\<close>

definition unknown_slot :: "u64 \<Rightarrow> u32 \<Rightarrow> final_slot_response" where
  "unknown_slot period thread = response_default\<lparr>fr_period := period, fr_thread := thread\<rparr>"

definition slot_head :: "slot_state \<Rightarrow> final_slot_parts \<Rightarrow> final_slot_response" where
  "slot_head st parts =
     response_default\<lparr>
       fr_period := sl_period (st_slot st),
       fr_thread := ucast (sl_thread (st_slot st)),
       fr_final_known := True,
       fr_is_miss := st_is_miss st,
       fr_execution_trail_hash := unwrap_or [] (st_execution_trail_hash st),
       fr_final_block_id := unwrap_or [] (map_option id_text (st_final_block_id st)),
       fr_completeness_known := True,
       fr_has_block_body := (st_is_miss st \<or> block_body_stored (st_completeness st)),
       fr_has_exec_output := exec_output_final (st_completeness st),
       fr_has_transfers := transfers_stored (st_completeness st),
       fr_parts := Some parts\<rparr>"

definition ship_block ::
  "('s, 'v, 'x) ext_scheme \<Rightarrow> 's \<Rightarrow> slot_state \<Rightarrow> final_slot_response \<Rightarrow> error + final_slot_response" where
  "ship_block E s st resp =
     (case st_final_block_id st of
        None \<Rightarrow> Inr resp
      | Some bid \<Rightarrow> rbind (read_block E s bid) (\<lambda>found.
          case found of
            None \<Rightarrow> Inr resp
          | Some block \<Rightarrow> rbind (collect (read_op E s) (bk_operation_ids block)) (\<lambda>ops.
              Inr (resp\<lparr>fr_block := res_ok (block_to_peer_pb E block),
                        fr_endorsements := ship_ok (endorsement_to_peer_pb E) (bk_endorsements block),
                        fr_operations := ship_ok (operation_to_peer_pb E)
                          (List.map_filter id ops)\<rparr>))))"

definition ship_exec ::
  "('s, 'v, 'x) ext_scheme \<Rightarrow> 's \<Rightarrow> slot_state \<Rightarrow> final_slot_response \<Rightarrow> (error + final_slot_response) option" where
  "ship_exec E s st resp =
     (let sl = st_slot st in
      sbind (Some (iter_sc_events_for_slot E s (sl_period sl) (sl_thread sl) None 10000)) (\<lambda>events.
      sbind (Some (iter_async_msgs_by_last_slot E s (sl_period sl) (sl_thread sl) 10000)) (\<lambda>msgs.
      sbind (ship_all (async_msg_to_peer_pb E) msgs) (\<lambda>ms.
      Some (Inr (resp\<lparr>fr_executed_op_ids := map id_text (st_executed_op_ids st),
                      fr_sc_event_count := st_sc_event_count st,
                      fr_sc_events := ship_ok (sc_event_to_peer_pb E) (items events),
                      fr_async_msgs := ms\<rparr>))))))"

definition ship_transfers ::
  "('s, 'v, 'x) ext_scheme \<Rightarrow> 's \<Rightarrow> slot_state \<Rightarrow> final_slot_response \<Rightarrow> (error + final_slot_response) option" where
  "ship_transfers E s st resp =
     (let sl = st_slot st in
      sbind (Some (iter_transfers_for_slot E s (sl_period sl) (sl_thread sl))) (\<lambda>transfers.
      sbind (ship_all (transfer_to_peer_pb E) transfers) (\<lambda>ts.
      sbind (Some (iter_deferred_calls_by_last_slot E s (sl_period sl) (sl_thread sl) 10000)) (\<lambda>calls.
      sbind (ship_all (deferred_call_to_peer_pb E) calls) (\<lambda>ds.
      Some (Inr (resp\<lparr>fr_transfers := ts, fr_deferred_calls := ds\<rparr>)))))))"

definition build_final_slot_response_from_state ::
  "('s, 'v, 'x) ext_scheme \<Rightarrow> 's \<Rightarrow> slot_state \<Rightarrow> final_slot_parts \<Rightarrow> (error + final_slot_response) option" where
  "build_final_slot_response_from_state E s st parts =
     (if st_status st \<noteq> SlotFinal
      then Some (Inr (unknown_slot (sl_period (st_slot st)) (ucast (sl_thread (st_slot st)))))
      else
        sbind (Some (if fp_block parts \<and> \<not> st_is_miss st then ship_block E s st (slot_head st parts)
                     else Inr (slot_head st parts))) (\<lambda>r1.
        sbind (if fp_exec_output parts then ship_exec E s st r1 else Some (Inr r1)) (\<lambda>r2.
        if fp_transfers parts then ship_transfers E s st r2 else Some (Inr r2))))"

definition build_final_slot_response ::
  "('s, 'v, 'x) ext_scheme \<Rightarrow> 's \<Rightarrow> u64 \<Rightarrow> u8 \<Rightarrow> final_slot_parts \<Rightarrow> (error + final_slot_response) option" where
  "build_final_slot_response E s period thread parts =
     sbind (Some (read_slot E s period thread)) (\<lambda>found.
       case found of
         None \<Rightarrow> Some (Inr (unknown_slot period (ucast thread)))
       | Some st \<Rightarrow> build_final_slot_response_from_state E s st parts)"

section \<open>The calls\<close>

definition internal :: "(error + 'a) option \<Rightarrow> (status + 'a) option" where
  "internal m = map_option (rmap_err Internal) m"

text \<open>\<open>get_health\<close>: the answer, and the registry with the caller's reverse url.\<close>

definition health_caller_ok :: "peer_service \<Rightarrow> health_request \<Rightarrow> bool" where
  "health_caller_ok sv rq \<longleftrightarrow> hq_caller_peer_id rq \<noteq> [] \<and> hq_caller_peer_id rq \<noteq> ps_peer_id sv \<and>
     (hq_caller_network rq = [] \<or> hq_caller_network rq = ps_network sv)"

definition get_health ::
  "('s, 'v, 'x) ext_scheme \<Rightarrow> peer_service \<Rightarrow> 's \<Rightarrow> nat \<Rightarrow> i64 \<Rightarrow> health_request \<Rightarrow> peer_registry \<Rightarrow>
   (status + health_response) \<times> peer_registry" where
  "get_health E sv s now now_ms rq g =
     (let g1 = (if health_caller_ok sv rq \<and> hq_advertise_url rq \<noteq> []
                then add_url now (hq_caller_peer_id rq) (hq_advertise_url rq) g else g) in
      (rbind (rmap_err Internal (read_last_final_slot E s)) (\<lambda>found.
         let last = unwrap_or (Slot 0 0) found in
         Inr \<lparr>hr_peer_id = ps_peer_id sv, hr_network = ps_network sv,
              hr_build_version = ps_build_version sv, hr_last_final_period = sl_period last,
              hr_last_final_thread = ucast (sl_thread last), hr_now_ms = now_ms,
              hr_schema_version = SCHEMA_VERSION\<rparr>),
       g1))"

definition get_final_slot ::
  "('s, 'v, 'x) ext_scheme \<Rightarrow> 's \<Rightarrow> final_slot_request \<Rightarrow> (status + final_slot_response) option" where
  "get_final_slot E s rq =
     (case u8_try (fq_thread rq) of
        None \<Rightarrow> Some (Inl (InvalidArgument ''thread > 255''))
      | Some thread \<Rightarrow>
          internal (build_final_slot_response E s (fq_period rq) thread
            (unwrap_or parts_default (fq_parts rq))))"

text \<open>The body of the streaming task, over the rows of the page it read.\<close>

definition slot_before :: "slot \<Rightarrow> slot \<Rightarrow> bool" where
  "slot_before a b \<longleftrightarrow> sl_period a < sl_period b \<or> sl_period a = sl_period b \<and> sl_thread a < sl_thread b"

fun stream_rows ::
  "('s, 'v, 'x) ext_scheme \<Rightarrow> 's \<Rightarrow> slot \<Rightarrow> final_slot_parts \<Rightarrow> slot_state list \<Rightarrow>
   (status + final_slot_response) list" where
  "stream_rows E s from parts [] = []"
| "stream_rows E s from parts (st # sts) =
     (if slot_before (st_slot st) from then []
      else if st_status st \<noteq> SlotFinal then stream_rows E s from parts sts
      else (case build_final_slot_response_from_state E s st parts of
              None \<Rightarrow> []
            | Some (Inl e) \<Rightarrow> [Inl (Internal e)]
            | Some (Inr r) \<Rightarrow> Inr r # stream_rows E s from parts sts))"

definition stream_limit :: "peer_service \<Rightarrow> u32 \<Rightarrow> nat" where
  "stream_limit sv limit =
     unat (if limit = 0 then ps_stream_limit_cap sv else min limit (ps_stream_limit_cap sv))"

definition stream_final_slots ::
  "('s, 'v, 'x) ext_scheme \<Rightarrow> peer_service \<Rightarrow> 's \<Rightarrow> stream_final_slots_request \<Rightarrow>
   status + (status + final_slot_response) list" where
  "stream_final_slots E sv s rq =
     rbind (ok_or (InvalidArgument ''from_thread > 255'') (u8_try (fs_from_thread rq))) (\<lambda>ft.
     rbind (ok_or (InvalidArgument ''to_thread > 255'') (u8_try (fs_to_thread rq))) (\<lambda>tt.
     let from = Slot (fs_from_period rq) ft; to = Slot (fs_to_period rq) tt in
     if slot_before to from then Inl (InvalidArgument ''from > to'')
     else Inr
       (case iter_slots_desc E s (Some (slot_key (sl_period to) (sl_thread to) @ [0]))
               (stream_limit sv (fs_limit rq)) of
          Inl e \<Rightarrow> [Inl (Internal e)]
        | Inr p \<Rightarrow> stream_rows E s from (unwrap_or parts_default (fs_parts rq)) (items p))))"

section \<open>Sync sessions\<close>

text \<open>
  The opening of a session by a remote: the first item of its stream must be a hello from
  another peer of the network, which is answered with our own, and the bridge is registered.
\<close>

definition session_hello_of :: "peer_service \<Rightarrow> (unit + session_message) option \<Rightarrow> status + session_hello" where
  "session_hello_of sv first =
     (case first of
        None \<Rightarrow> Inl (InvalidArgument ''sync session: empty stream'')
      | Some (Inl _) \<Rightarrow> Inl (InvalidArgument ''sync session: '')
      | Some (Inr msg) \<Rightarrow>
          (case sm_body msg of
             Some (Hello h) \<Rightarrow>
               if sh_peer_id h = [] then Inl (InvalidArgument ''sync session: empty peer_id'')
               else if sh_network h \<noteq> [] \<and> sh_network h \<noteq> ps_network sv
               then Inl (FailedPrecondition (sh_network h) (ps_network sv))
               else if sh_peer_id h = ps_peer_id sv
               then Inl (InvalidArgument ''sync session: self-dial refused'')
               else Inr h
           | _ \<Rightarrow> Inl (InvalidArgument ''sync session: first message must be SessionHello'')))"

definition sync_session ::
  "peer_service \<Rightarrow> nat \<Rightarrow> u64 \<Rightarrow> (unit + session_message) option \<Rightarrow> peer_registry \<Rightarrow>
   (status + session_message \<times> session_bridge) \<times> peer_registry" where
  "sync_session sv now bridge first g =
     (case session_hello_of sv first of
        Inl e \<Rightarrow> (Inl e, g)
      | Inr h \<Rightarrow>
          (let g1 = (if sh_advertise_url h \<noteq> [] then add_url now (sh_peer_id h) (sh_advertise_url h) g
                     else g) in
           (Inr (make_hello (ps_peer_id sv) (ps_network sv) (ps_build_version sv)
                   SCHEMA_VERSION (ps_advertise_url sv),
                 bridge_new bridge (sh_peer_id h)),
            set_session (sh_peer_id h) bridge g1)))"

text \<open>
  One inbound message of an open session: the replies sent, and the bridge.  \<open>None\<close> is a panic,
  which ends the session task.
\<close>

definition serve_request ::
  "('s, 'v, 'x) ext_scheme \<Rightarrow> 's \<Rightarrow> final_slot_request \<Rightarrow> final_slot_response option option" where
  "serve_request E s rq =
     (case u8_try (fq_thread rq) of
        None \<Rightarrow> Some None
      | Some thread \<Rightarrow>
          map_option (\<lambda>r. Some (case r of Inr resp \<Rightarrow> resp | Inl _ \<Rightarrow> unknown_slot (fq_period rq) (fq_thread rq)))
            (build_final_slot_response E s (fq_period rq) thread (unwrap_or parts_default (fq_parts rq))))"

definition session_message_in ::
  "('s, 'v, 'x) ext_scheme \<Rightarrow> 's \<Rightarrow> session_message \<Rightarrow> session_bridge \<Rightarrow>
   (session_message list \<times> session_bridge) option" where
  "session_message_in E s msg b =
     (case sm_body msg of
        Some (SlotRequest rq) \<Rightarrow>
          map_option (\<lambda>reply.
            (case reply of
               None \<Rightarrow> []
             | Some resp \<Rightarrow> [\<lparr>sm_id = sm_id msg, sm_body = Some (SlotResponse resp)\<rparr>], b))
            (serve_request E s rq)
      | Some (SlotResponse resp) \<Rightarrow> Some ([], complete (sm_id msg) resp b)
      | _ \<Rightarrow> Some ([], b))"

text \<open>When the connection ends: waiters are cancelled and the bridge leaves the registry.\<close>

definition session_closed :: "session_bridge \<times> peer_registry \<Rightarrow> session_bridge \<times> peer_registry" where
  "session_closed = (\<lambda>(b, g). (fail_pending b, clear_session_by_bridge_id (bridge_id b) g))"

end
