(* ===== verification/Backfill.thy ===== *)
theory Backfill
  imports Arbiter Service
begin

text \<open>
  The backfill walker (\<open>peer/backfill.rs\<close>): which slots it asks peers for, how it fills a window of
  slots from range streams and single fetches, and how a sweep walks from the head to genesis.
  Pauses are left out.  What the peers answer, and what the database holds when it is read, are
  inputs; the ingest channel is the list of the events sent and the number of uses it survives.
\<close>

section \<open>Configuration\<close>

record backfill_config =
  bc_expected_streams :: streams_expected
  bc_parts :: final_slot_parts
  bc_thread_count :: u8
  bc_range_periods :: u64
  bc_range_limit :: u32
  bc_range_sparse_threshold :: nat
  bc_stale_candidate_periods :: u64
  bc_recent_incomplete_periods :: u64
  bc_recheck_ranges :: "(u64 \<times> u64) list"
  bc_max_remote_head_lead :: u64
  bc_recheck_sweeps :: u32

definition backfill_default :: backfill_config where
  "backfill_default =
     \<lparr>bc_expected_streams = streams_all,
      bc_parts = \<lparr>fp_block = True, fp_exec_output = True, fp_transfers = True\<rparr>,
      bc_thread_count = 32, bc_range_periods = 16, bc_range_limit = 512,
      bc_range_sparse_threshold = 24, bc_stale_candidate_periods = 64,
      bc_recent_incomplete_periods = 1350, bc_recheck_ranges = [],
      bc_max_remote_head_lead = 50000, bc_recheck_sweeps = 3\<rparr>"

definition sat_sub :: "'a::len word \<Rightarrow> 'a word \<Rightarrow> 'a word" where
  "sat_sub a b = (if b \<le> a then a - b else 0)"

definition sat_add :: "'a::len word \<Rightarrow> 'a word \<Rightarrow> 'a word" where
  "sat_add a b = (if a \<le> a + b then a + b else - 1)"

section \<open>What to ask for\<close>

record sweep_ctx =
  sc_head :: u64
  sc_recheck_ranges :: "(u64 \<times> u64) list"

definition in_recheck :: "sweep_ctx \<Rightarrow> u64 \<Rightarrow> bool" where
  "in_recheck sweep period \<longleftrightarrow> (\<exists>(lo, hi) \<in> set (sc_recheck_ranges sweep). lo \<le> period \<and> period \<le> hi)"

datatype fetch_reason = Gap | StaleCandidate | SuspiciousMiss | RecentIncomplete | Recheck

definition all_enabled :: "streams_expected \<Rightarrow> final_slot_parts \<Rightarrow> final_slot_parts option" where
  "all_enabled enabled requestable =
     (let parts = \<lparr>fp_block = se_filled_blocks enabled \<and> fp_block requestable,
                   fp_exec_output = se_slot_execution_outputs enabled \<and> fp_exec_output requestable,
                   fp_transfers = se_transfers enabled \<and> fp_transfers requestable\<rparr> in
      if fp_block parts \<or> fp_exec_output parts \<or> fp_transfers parts then Some parts else None)"

definition needs_fetch :: "slot_state option \<Rightarrow> backfill_config \<Rightarrow> sweep_ctx \<Rightarrow>
    (final_slot_parts \<times> fetch_reason) option" where
  "needs_fetch row cfg sweep =
     (let enabled = bc_expected_streams cfg; requestable = bc_parts cfg;
          ask = (\<lambda>reason. map_option (\<lambda>p. (p, reason)) (all_enabled enabled requestable)) in
      case row of
        None \<Rightarrow> ask Gap
      | Some st \<Rightarrow>
          (let age = sat_sub (sc_head sweep) (sl_period (st_slot st)); c = st_completeness st in
           case st_status st of
             SlotUnknown \<Rightarrow> ask Gap
           | SlotCandidate \<Rightarrow>
               if bc_stale_candidate_periods cfg \<le> age then ask StaleCandidate else None
           | SlotFinal \<Rightarrow>
               if in_recheck sweep (sl_period (st_slot st)) then ask Recheck
               else if \<not> st_is_miss st \<and> \<not> block_body_stored c then ask Gap
               else if st_is_miss st \<and> st_candidate_block_ids st \<noteq> [] then ask SuspiciousMiss
               else if age \<le> bc_recent_incomplete_periods cfg
               then (let parts = \<lparr>fp_block = False,
                         fp_exec_output = se_slot_execution_outputs enabled \<and>
                           fp_exec_output requestable \<and> \<not> exec_output_final c,
                         fp_transfers = se_transfers enabled \<and> fp_transfers requestable \<and>
                           \<not> transfers_stored c\<rparr> in
                     if fp_exec_output parts \<or> fp_transfers parts then Some (parts, RecentIncomplete)
                     else None)
               else None))"

section \<open>Counters and the ingest channel\<close>

record backfill_metrics =
  backfill_passes_total :: u64
  backfill_rpcs_total :: u64
  backfill_range_streams_total :: u64
  backfill_slots_filled_total :: u64
  backfill_stale_candidates_total :: u64
  backfill_suspicious_misses_total :: u64
  backfill_recent_incomplete_total :: u64
  backfill_recheck_total :: u64

fun reason_count :: "fetch_reason \<Rightarrow> backfill_metrics \<Rightarrow> backfill_metrics" where
  "reason_count Gap m = m"
| "reason_count StaleCandidate m =
     m\<lparr>backfill_stale_candidates_total := backfill_stale_candidates_total m + 1\<rparr>"
| "reason_count SuspiciousMiss m =
     m\<lparr>backfill_suspicious_misses_total := backfill_suspicious_misses_total m + 1\<rparr>"
| "reason_count RecentIncomplete m =
     m\<lparr>backfill_recent_incomplete_total := backfill_recent_incomplete_total m + 1\<rparr>"
| "reason_count Recheck m = m\<lparr>backfill_recheck_total := backfill_recheck_total m + 1\<rparr>"

definition count_rpc :: "backfill_metrics \<Rightarrow> backfill_metrics" where
  "count_rpc m = m\<lparr>backfill_rpcs_total := backfill_rpcs_total m + 1\<rparr>"

definition count_stream :: "backfill_metrics \<Rightarrow> backfill_metrics" where
  "count_stream m = (count_rpc m)\<lparr>backfill_range_streams_total := backfill_range_streams_total m + 1\<rparr>"

definition count_filled :: "backfill_metrics \<Rightarrow> backfill_metrics" where
  "count_filled m = m\<lparr>backfill_slots_filled_total := backfill_slots_filled_total m + 1\<rparr>"

record event_tx =
  tx_alive :: nat
  tx_sent :: "final_slot_response list"
  tx_metrics :: "backfill_metrics option"

definition tally :: "(backfill_metrics \<Rightarrow> backfill_metrics) \<Rightarrow> event_tx \<Rightarrow> event_tx" where
  "tally f tx = tx\<lparr>tx_metrics := map_option f (tx_metrics tx)\<rparr>"

text \<open>\<open>tx.is_closed()\<close>, and \<open>tx.send(Event::PeerPatch(resp))\<close> with its success.\<close>

definition tx_is_closed :: "event_tx \<Rightarrow> bool \<times> event_tx" where
  "tx_is_closed tx = (tx_alive tx = 0, tx\<lparr>tx_alive := tx_alive tx - 1\<rparr>)"

definition tx_send :: "final_slot_response \<Rightarrow> event_tx \<Rightarrow> bool \<times> event_tx" where
  "tx_send resp tx =
     (if tx_alive tx = 0 then (False, tx)
      else (True, tx\<lparr>tx_alive := tx_alive tx - 1, tx_sent := tx_sent tx @ [resp]\<rparr>))"

section \<open>Filling a window from range streams\<close>

definition response_is_empty_for_parts :: "final_slot_response \<Rightarrow> bool" where
  "response_is_empty_for_parts resp =
     (if fr_block resp \<noteq> None \<or> fr_operations resp \<noteq> [] \<or> fr_sc_events resp \<noteq> [] \<or>
         fr_executed_op_ids resp \<noteq> [] \<or> fr_async_msgs resp \<noteq> [] \<or> fr_transfers resp \<noteq> [] \<or>
         fr_deferred_calls resp \<noteq> []
      then False
      else (let honoured = unwrap_or parts_default (fr_parts resp) in
            \<not> (fr_completeness_known resp \<and>
                (fp_exec_output honoured \<and> fr_has_exec_output resp \<or>
                 fp_transfers honoured \<and> fr_has_transfers resp \<or>
                 fp_block honoured \<and> fr_has_block_body resp))))"

definition window_parts :: "backfill_config \<Rightarrow> final_slot_parts" where
  "window_parts cfg =
     \<lparr>fp_block = se_filled_blocks (bc_expected_streams cfg) \<and> fp_block (bc_parts cfg),
      fp_exec_output = se_slot_execution_outputs (bc_expected_streams cfg) \<and> fp_exec_output (bc_parts cfg),
      fp_transfers = se_transfers (bc_expected_streams cfg) \<and> fp_transfers (bc_parts cfg)\<rparr>"

text \<open>
  One message of a stream: a response, a transport error, or nothing within the timeout.  The
  list of messages ends where the stream does.
\<close>

datatype stream_item = Message final_slot_response | StreamError | Stalled

type_synonym slot_id = "u64 \<times> u8"

definition wanted :: "bool \<Rightarrow> slot_id set \<Rightarrow> final_slot_response \<Rightarrow> slot_id option" where
  "wanted skip_empty remaining resp =
     (if \<not> fr_final_known resp then None
      else (case u8_try (fr_thread resp) of
              None \<Rightarrow> None
            | Some t \<Rightarrow>
                if (fr_period resp, t) \<notin> remaining then None
                else if skip_empty \<and> response_is_empty_for_parts resp then None
                else Some (fr_period resp, t)))"

fun consume_stream :: "bool \<Rightarrow> stream_item list \<Rightarrow> slot_id set \<Rightarrow> event_tx \<Rightarrow> bool \<times> slot_id set \<times> event_tx" where
  "consume_stream skip_empty [] remaining tx = (True, remaining, tx)"
| "consume_stream skip_empty (StreamError # rest) remaining tx = (True, remaining, tx)"
| "consume_stream skip_empty (Stalled # rest) remaining tx = (True, remaining, tx)"
| "consume_stream skip_empty (Message resp # rest) remaining tx =
     (case wanted skip_empty remaining resp of
        None \<Rightarrow> consume_stream skip_empty rest remaining tx
      | Some k \<Rightarrow>
          (case tx_send resp (tally count_filled tx) of
             (False, tx1) \<Rightarrow> (False, remaining - {k}, tx1)
           | (True, tx1) \<Rightarrow> consume_stream skip_empty rest (remaining - {k}) tx1))"

text \<open>The peers are tried in turn, each with the stream it offers, if any.\<close>

fun range_fill_peers :: "bool \<Rightarrow> (error + stream_item list) list \<Rightarrow> slot_id set \<Rightarrow> event_tx \<Rightarrow>
    bool \<times> slot_id set \<times> event_tx" where
  "range_fill_peers skip_empty [] remaining tx = (True, remaining, tx)"
| "range_fill_peers skip_empty (stream # rest) remaining tx =
     (if remaining = {} then (True, remaining, tx)
      else (case tx_is_closed tx of
              (True, tx1) \<Rightarrow> (False, remaining, tx1)
            | (False, tx1) \<Rightarrow>
                (case stream of
                   Inl e \<Rightarrow> range_fill_peers skip_empty rest remaining (tally count_stream tx1)
                 | Inr msgs \<Rightarrow>
                     (case consume_stream skip_empty msgs remaining (tally count_stream tx1) of
                        (False, remaining1, tx2) \<Rightarrow> (False, remaining1, tx2)
                      | (True, remaining1, tx2) \<Rightarrow> range_fill_peers skip_empty rest remaining1 tx2))))"

definition range_fill_window_opts :: "bool \<Rightarrow> (error + stream_item list) list \<Rightarrow> slot_id list \<Rightarrow> event_tx \<Rightarrow>
    bool \<times> slot_id list \<times> event_tx" where
  "range_fill_window_opts skip_empty streams needy tx =
     (case range_fill_peers skip_empty streams (set needy) tx of
        (False, remaining, tx1) \<Rightarrow> (False, needy, tx1)
      | (True, remaining, tx1) \<Rightarrow> (True, filter (\<lambda>k. k \<in> remaining) needy, tx1))"

definition range_fill_window :: "(error + stream_item list) list \<Rightarrow> slot_id list \<Rightarrow> event_tx \<Rightarrow>
    bool \<times> slot_id list \<times> event_tx" where
  "range_fill_window = range_fill_window_opts False"

section \<open>One slot\<close>

definition visit_slot ::
  "('s, 'v, 'x) ext_scheme \<Rightarrow> 's \<Rightarrow> (final_slot_parts \<Rightarrow> error + final_slot_response option) \<Rightarrow>
   backfill_config \<Rightarrow> sweep_ctx \<Rightarrow> u64 \<Rightarrow> u8 \<Rightarrow> event_tx \<Rightarrow> bool \<times> event_tx" where
  "visit_slot E s fetch cfg sweep period thread tx =
     (case read_slot E s period thread of
        Inl e \<Rightarrow> (True, tx)
      | Inr row \<Rightarrow>
          (case needs_fetch row cfg sweep of
             None \<Rightarrow> (True, tx)
           | Some (needed, reason) \<Rightarrow>
               (let tx1 = tally count_rpc tx in
                case fetch needed of
                  Inr (Some resp) \<Rightarrow>
                    if fr_final_known resp then tx_send resp (tally count_filled tx1) else (True, tx1)
                | _ \<Rightarrow> (True, tx1))))"

section \<open>A sweep\<close>

text \<open>
  What the walker meets: the database when a window is scanned and when a slot is visited, the
  streams the peers offer for a window, and the answers to a fetch.
\<close>

record 's surroundings =
  db_scan :: "u64 \<times> u64 \<Rightarrow> 's"
  db_visit :: "slot_id \<Rightarrow> 's"
  range_streams :: "u64 \<times> u64 \<Rightarrow> (error + stream_item list) list"
  fetch_slot :: "slot_id \<Rightarrow> final_slot_parts \<Rightarrow> error + final_slot_response option"

definition window_slots :: "u8 \<Rightarrow> u64 \<times> u64 \<Rightarrow> slot_id list" where
  "window_slots threads = (\<lambda>(lo, hi).
     concat (map (\<lambda>p. map (\<lambda>i. (p, word_of_nat i)) [0..<unat threads]) (rev (range_incl lo hi))))"

text \<open>The local scan of a window: the slots to fetch, and the counters of the reasons.\<close>

fun scan_slots ::
  "('s, 'v, 'x) ext_scheme \<Rightarrow> 's \<Rightarrow> backfill_config \<Rightarrow> sweep_ctx \<Rightarrow> slot_id list \<Rightarrow> event_tx \<Rightarrow>
   slot_id list \<times> event_tx" where
  "scan_slots E s cfg sweep [] tx = ([], tx)"
| "scan_slots E s cfg sweep ((p, t) # rest) tx =
     (case read_slot E s p t of
        Inl e \<Rightarrow> scan_slots E s cfg sweep rest tx
      | Inr row \<Rightarrow>
          (case needs_fetch row cfg sweep of
             None \<Rightarrow> scan_slots E s cfg sweep rest tx
           | Some (parts, reason) \<Rightarrow>
               (case scan_slots E s cfg sweep rest (tally (reason_count reason) tx) of
                  (needy, tx1) \<Rightarrow> ((p, t) # needy, tx1))))"

fun visit_slots ::
  "('s, 'v, 'x) ext_scheme \<Rightarrow> 's surroundings \<Rightarrow> backfill_config \<Rightarrow> sweep_ctx \<Rightarrow> slot_id list \<Rightarrow> event_tx \<Rightarrow>
   bool \<times> event_tx" where
  "visit_slots E env cfg sweep [] tx = (True, tx)"
| "visit_slots E env cfg sweep ((p, t) # rest) tx =
     (case visit_slot E (db_visit env (p, t)) (fetch_slot env (p, t)) cfg sweep p t tx of
        (False, tx1) \<Rightarrow> (False, tx1)
      | (True, tx1) \<Rightarrow> visit_slots E env cfg sweep rest tx1)"

definition window_step ::
  "('s, 'v, 'x) ext_scheme \<Rightarrow> 's surroundings \<Rightarrow> backfill_config \<Rightarrow> sweep_ctx \<Rightarrow> u64 \<times> u64 \<Rightarrow> event_tx \<Rightarrow>
   bool \<times> event_tx" where
  "window_step E env cfg sweep win tx =
     (case scan_slots E (db_scan env win) cfg sweep (window_slots (bc_thread_count cfg) win) tx of
        (needy, tx1) \<Rightarrow>
          if needy = [] then (True, tx1)
          else
            (case (if bc_range_sparse_threshold cfg \<le> length needy
                   then range_fill_window (range_streams env win) needy tx1
                   else (True, needy, tx1)) of
               (False, needy1, tx2) \<Rightarrow> (False, tx2)
             | (True, needy1, tx2) \<Rightarrow>
                 if needy1 \<noteq> [] \<and> length needy1 < bc_range_sparse_threshold cfg
                 then visit_slots E env cfg sweep needy1 tx2
                 else (True, tx2)))"

text \<open>The windows of a sweep, from the head down to period 0.\<close>

definition win_lo :: "u64 \<Rightarrow> u64 \<Rightarrow> u64" where
  "win_lo range_periods period = sat_sub period (sat_sub range_periods 1)"

lemma win_lo_le: "win_lo rp period \<le> period"
  by (simp add: win_lo_def sat_sub_def word_sub_le)

function windows :: "u64 \<Rightarrow> u64 \<Rightarrow> (u64 \<times> u64) list" where
  "windows rp period =
     (win_lo rp period, period) #
       (if win_lo rp period = 0 then [] else windows rp (win_lo rp period - 1))"
  by auto
termination
proof (relation "measure (\<lambda>(rp, period). unat period)")
  fix rp period :: u64 assume "win_lo rp period \<noteq> 0"
  then have "unat (win_lo rp period - 1) < unat (win_lo rp period)"
    by (simp add: unat_gt_0 unat_minus_one)
  also have "\<dots> \<le> unat period"
    using win_lo_le [of rp period] by (simp add: word_le_nat_alt)
  finally show "((rp, win_lo rp period - 1), rp, period) \<in> measure (\<lambda>(rp, period). unat period)" by simp
qed simp

declare windows.simps [simp del]

fun sweep_windows ::
  "('s, 'v, 'x) ext_scheme \<Rightarrow> 's surroundings \<Rightarrow> backfill_config \<Rightarrow> sweep_ctx \<Rightarrow> (u64 \<times> u64) list \<Rightarrow> event_tx \<Rightarrow>
   bool \<times> event_tx" where
  "sweep_windows E env cfg sweep [] tx = (True, tx)"
| "sweep_windows E env cfg sweep (win # rest) tx =
     (case tx_is_closed tx of
        (True, tx1) \<Rightarrow> (False, tx1)
      | (False, tx1) \<Rightarrow>
          (case window_step E env cfg sweep win tx1 of
             (False, tx2) \<Rightarrow> (False, tx2)
           | (True, tx2) \<Rightarrow> sweep_windows E env cfg sweep rest tx2))"

definition sweep_head :: "backfill_config \<Rightarrow> u64 \<Rightarrow> u64 option \<Rightarrow> u64" where
  "sweep_head cfg local_head best =
     (case best of
        Some remote \<Rightarrow>
          if local_head < remote then min remote (sat_add local_head (bc_max_remote_head_lead cfg))
          else local_head
      | None \<Rightarrow> local_head)"

text \<open>The recheck ranges stay armed for the first sweeps.\<close>

definition recheck_new :: "backfill_config \<Rightarrow> (u64 \<times> u64) list \<times> u32" where
  "recheck_new cfg = (bc_recheck_ranges cfg, if bc_recheck_ranges cfg = [] then 0 else bc_recheck_sweeps cfg)"

definition recheck_swept :: "(u64 \<times> u64) list \<times> u32 \<Rightarrow> (u64 \<times> u64) list \<times> u32" where
  "recheck_swept = (\<lambda>(ranges, left).
     if ranges = [] then (ranges, left)
     else (let left1 = sat_sub left 1 in if left1 = 0 then ([], left1) else (ranges, left1)))"

datatype round = Closed | Idles | Swept "(u64 \<times> u64) list \<times> u32"

text \<open>One turn of the worker's loop.\<close>

definition backfill_round ::
  "('s, 'v, 'x) ext_scheme \<Rightarrow> 's \<Rightarrow> bool \<Rightarrow> u64 option \<Rightarrow> 's surroundings \<Rightarrow> backfill_config \<Rightarrow>
   (u64 \<times> u64) list \<times> u32 \<Rightarrow> event_tx \<Rightarrow> round \<times> event_tx" where
  "backfill_round E s pool_empty best env cfg recheck tx =
     (case tx_is_closed tx of
        (True, tx1) \<Rightarrow> (Closed, tx1)
      | (False, tx1) \<Rightarrow>
          if pool_empty then (Idles, tx1)
          else (case read_last_final_slot E s of
                  Inr (Some sl) \<Rightarrow>
                    (let head = sweep_head cfg (sl_period sl) best;
                         tx2 = tally (\<lambda>m. m\<lparr>backfill_passes_total := backfill_passes_total m + 1\<rparr>) tx1 in
                     case sweep_windows E env cfg \<lparr>sc_head = head, sc_recheck_ranges = fst recheck\<rparr>
                            (windows (bc_range_periods cfg) head) tx2 of
                       (False, tx3) \<Rightarrow> (Closed, tx3)
                     | (True, tx3) \<Rightarrow> (Swept (recheck_swept recheck), tx3))
                | _ \<Rightarrow> (Idles, tx1)))"

end
