(* ===== verification/Backfill_Laws.thy ===== *)
theory Backfill_Laws
  imports Backfill
begin

text \<open>
  The backfill walker against its purpose: which slots are left alone, that a window forwards every
  missing slot at most once and only leaves those no peer supplied, and that the windows of a
  sweep cover the periods from the head to 0 once each.
\<close>

section \<open>Range streams\<close>

definition supplies :: "bool \<Rightarrow> final_slot_response \<Rightarrow> slot_id \<Rightarrow> bool" where
  "supplies skip_empty resp k \<longleftrightarrow> fr_final_known resp \<and> fr_period resp = fst k \<and>
     u8_try (fr_thread resp) = Some (snd k) \<and> \<not> (skip_empty \<and> response_is_empty_for_parts resp)"

lemma wanted_iff: "wanted skip remaining resp = Some k \<longleftrightarrow> supplies skip resp k \<and> k \<in> remaining"
  by (cases k) (auto simp: wanted_def supplies_def split: option.splits)

lemma wanted_None: "wanted skip remaining resp = None \<longleftrightarrow> (\<forall>k \<in> remaining. \<not> supplies skip resp k)"
  using wanted_iff [of skip remaining resp] by (cases "wanted skip remaining resp") auto

lemma supplies_key: "supplies skip resp k \<Longrightarrow> supplies skip resp j \<Longrightarrow> k = j"
  by (cases k; cases j) (auto simp: supplies_def)

text \<open>The responses a stream delivers before it ends.\<close>

fun received :: "stream_item list \<Rightarrow> final_slot_response list" where
  "received (Message resp # rest) = resp # received rest"
| "received _ = []"

text \<open>What was forwarded: one response for each of a set of slots that were missing.\<close>

definition forwards :: "bool \<Rightarrow> slot_id set \<Rightarrow> slot_id set \<Rightarrow> event_tx \<Rightarrow> event_tx \<Rightarrow> bool" where
  "forwards skip_empty before after tx tx' \<longleftrightarrow>
     (\<exists>rs ks. tx_sent tx' = tx_sent tx @ rs \<and> list_all2 (supplies skip_empty) rs ks \<and> distinct ks \<and>
        set ks \<subseteq> before \<and> after = before - set ks)"

lemma forwards_refl: "tx_sent tx' = tx_sent tx \<Longrightarrow> forwards skip b b tx tx'"
  by (simp add: forwards_def)

lemma forwards_trans:
  assumes "forwards skip a b tx tx'" "forwards skip b c tx' tx''"
  shows "forwards skip a c tx tx''"
proof -
  obtain rs ks where 1: "tx_sent tx' = tx_sent tx @ rs" "list_all2 (supplies skip) rs ks" "distinct ks"
      "set ks \<subseteq> a" "b = a - set ks"
    using assms(1) by (auto simp: forwards_def)
  obtain rs' ks' where 2: "tx_sent tx'' = tx_sent tx' @ rs'" "list_all2 (supplies skip) rs' ks'"
      "distinct ks'" "set ks' \<subseteq> b" "c = b - set ks'"
    using assms(2) by (auto simp: forwards_def)
  have "distinct (ks @ ks')" "set (ks @ ks') \<subseteq> a" "c = a - set (ks @ ks')"
    using 1 2 by auto
  moreover have "list_all2 (supplies skip) (rs @ rs') (ks @ ks')"
    using 1(2) 2(2) by (rule list_all2_appendI)
  ultimately show ?thesis
    unfolding forwards_def using 1(1) 2(1) by (intro exI [of _ "rs @ rs'"] exI [of _ "ks @ ks'"]) simp
qed

lemma forwards_one:
  "supplies skip resp k \<Longrightarrow> k \<in> before \<Longrightarrow> tx_sent tx' = tx_sent tx @ [resp] \<Longrightarrow>
   forwards skip before (before - {k}) tx tx'"
  unfolding forwards_def by (intro exI [of _ "[resp]"] exI [of _ "[k]"]) simp

lemma tally_simps [simp]: "tx_sent (tally f tx) = tx_sent tx" "tx_alive (tally f tx) = tx_alive tx"
  by (simp_all add: tally_def)

lemma tx_send_cases:
  obtains "tx_alive tx = 0" "tx_send resp tx = (False, tx)"
  | "tx_alive tx > 0" "fst (tx_send resp tx)" "tx_sent (snd (tx_send resp tx)) = tx_sent tx @ [resp]"
    "tx_alive (snd (tx_send resp tx)) = tx_alive tx - 1"
  by (cases "tx_alive tx = 0") (simp_all add: tx_send_def)

lemma consume_forwards:
  "consume_stream skip msgs remaining tx = (ok, remaining', tx') \<Longrightarrow>
   (ok \<longrightarrow> forwards skip remaining remaining' tx tx' \<and>
     (\<forall>resp \<in> set (received msgs). \<forall>k \<in> remaining'. \<not> supplies skip resp k)) \<and>
   (\<exists>left. forwards skip remaining left tx tx')"
proof (induction skip msgs remaining tx rule: consume_stream.induct)
  case (4 skip resp rest remaining tx)
  show ?case
  proof (cases "wanted skip remaining resp")
    case None
    have sub: "forwards skip remaining remaining' tx tx' \<Longrightarrow> remaining' \<subseteq> remaining"
      by (auto simp: forwards_def)
    from 4 None show ?thesis
      using wanted_None [of skip remaining resp] sub by auto
  next
    case (Some k)
    then have k: "supplies skip resp k" "k \<in> remaining" by (simp_all add: wanted_iff)
    let ?tx = "tally count_filled tx"
    show ?thesis
    proof (cases "tx_alive tx = 0")
      case True
      with 4(3) Some show ?thesis
        by (auto simp: tx_send_def intro!: exI [of _ remaining] forwards_refl)
    next
      case False
      obtain tx1 where tx1: "tx_send resp ?tx = (True, tx1)" "tx_sent tx1 = tx_sent tx @ [resp]"
        using False by (auto simp: tx_send_def)
      have run: "consume_stream skip rest (remaining - {k}) tx1 = (ok, remaining', tx')"
        using 4(3) Some tx1(1) by simp
      note IH = 4(2) [OF Some tx1(1) [symmetric] refl run]
      have one: "forwards skip remaining (remaining - {k}) tx tx1"
        by (rule forwards_one [OF k tx1(2)])
      have sub: "forwards skip (remaining - {k}) remaining' tx1 tx' \<Longrightarrow> remaining' \<subseteq> remaining - {k}"
        by (auto simp: forwards_def)
      have "ok \<Longrightarrow> \<forall>j \<in> remaining'. \<not> supplies skip resp j"
        using IH sub supplies_key [OF k(1)] by blast
      then show ?thesis
        using IH forwards_trans [OF one] by auto
    qed
  qed
qed (auto intro!: forwards_refl exI)

lemma range_fill_forwards:
  "range_fill_peers skip streams remaining tx = (ok, remaining', tx') \<Longrightarrow>
   (ok \<longrightarrow> forwards skip remaining remaining' tx tx' \<and>
     (\<forall>msgs resp k. Inr msgs \<in> set streams \<longrightarrow> resp \<in> set (received msgs) \<longrightarrow> k \<in> remaining' \<longrightarrow>
        \<not> supplies skip resp k)) \<and>
   (\<exists>left. forwards skip remaining left tx tx')"
proof (induction streams arbitrary: remaining tx)
  case Nil
  then show ?case by (auto intro!: forwards_refl exI)
next
  case (Cons stream rest)
  show ?case
  proof (cases "remaining = {}")
    case True
    with Cons.prems show ?thesis by (auto intro!: forwards_refl exI)
  next
    case False
    obtain tx1 where tx1: "tx_is_closed tx = (tx_alive tx = 0, tx1)" "tx_sent tx1 = tx_sent tx"
      by (simp add: tx_is_closed_def)
    let ?tx = "tally count_stream tx1"
    have same: "forwards skip a a tx ?tx" for a by (rule forwards_refl) (simp add: tx1)
    have sub: "forwards skip a b t u \<Longrightarrow> b \<subseteq> a" for a b t u by (auto simp: forwards_def)
    show ?thesis
    proof (cases "tx_alive tx = 0")
      case True
      with Cons.prems False tx1 show ?thesis by (auto intro!: forwards_refl exI)
    next
      case alive: False
      show ?thesis
      proof (cases stream)
        case (Inl e)
        with Cons.prems False alive tx1(1) have "range_fill_peers skip rest remaining ?tx = (ok, remaining', tx')"
          by simp
        from Cons.IH [OF this] show ?thesis
          using forwards_trans [OF same] Inl by auto
      next
        case (Inr msgs)
        obtain ok1 r1 tx2 where c: "consume_stream skip msgs remaining ?tx = (ok1, r1, tx2)"
          by (cases "consume_stream skip msgs remaining ?tx") auto
        note C = consume_forwards [OF c]
        show ?thesis
        proof (cases ok1)
          case True
          with Cons.prems False alive tx1(1) Inr c have run: "range_fill_peers skip rest r1 tx2 = (ok, remaining', tx')"
            by simp
          have f: "forwards skip remaining r1 tx tx2"
            using C True forwards_trans [OF same] by blast
          have here: "ok \<Longrightarrow> resp \<in> set (received msgs) \<Longrightarrow> k \<in> remaining' \<Longrightarrow> \<not> supplies skip resp k" for resp k
            using C True Cons.IH [OF run] sub by blast
          from Cons.IH [OF run] show ?thesis
            using forwards_trans [OF f] here Inr by auto
        next
          case nok: False
          with Cons.prems False alive tx1(1) Inr c have "\<not> ok" "tx' = tx2" by simp_all
          then show ?thesis using C forwards_trans [OF same] by blast
        qed
      qed
    qed
  qed
qed

text \<open>An ingest channel that outlives the window is never found closed.\<close>

lemma consume_alive:
  assumes "finite remaining" "card remaining \<le> tx_alive tx"
    and "consume_stream skip msgs remaining tx = (ok, remaining', tx')"
  shows "ok \<and> card remaining' + tx_alive tx \<le> card remaining + tx_alive tx' \<and> finite remaining'"
  using assms
proof (induction skip msgs remaining tx rule: consume_stream.induct)
  case (4 skip resp rest remaining tx)
  show ?case
  proof (cases "wanted skip remaining resp")
    case None
    with 4 show ?thesis by simp
  next
    case (Some k)
    then have k: "k \<in> remaining" by (simp add: wanted_iff)
    then have c: "card remaining = Suc (card (remaining - {k}))"
      using 4(3) by (rule card.remove [rotated])
    then have "tx_alive tx \<noteq> 0" using 4(4) by simp
    then obtain tx1 where tx1: "tx_send resp (tally count_filled tx) = (True, tx1)" "tx_alive tx1 = tx_alive tx - 1"
      by (auto simp: tx_send_def)
    have run: "consume_stream skip rest (remaining - {k}) tx1 = (ok, remaining', tx')"
      using 4(5) Some tx1(1) by simp
    have "finite (remaining - {k})" "card (remaining - {k}) \<le> tx_alive tx1"
      using 4(3,4) c tx1(2) by simp_all
    from 4(2) [OF Some tx1(1) [symmetric] refl this run] show ?thesis
      using c tx1(2) 4(4) by auto
  qed
qed auto

lemma range_fill_alive:
  assumes "finite remaining" "card remaining + length streams \<le> tx_alive tx"
    and "range_fill_peers skip streams remaining tx = (ok, remaining', tx')"
  shows ok
  using assms
proof (induction streams arbitrary: remaining tx)
  case (Cons stream rest)
  show ?case
  proof (cases "remaining = {}")
    case True
    with Cons.prems show ?thesis by simp
  next
    case False
    let ?tx = "tally count_stream (tx\<lparr>tx_alive := tx_alive tx - 1\<rparr>)"
    have closed: "tx_is_closed tx = (False, tx\<lparr>tx_alive := tx_alive tx - 1\<rparr>)"
      using Cons.prems(2) by (simp add: tx_is_closed_def)
    have alive: "card remaining + length rest \<le> tx_alive ?tx" using Cons.prems(2) by simp
    show ?thesis
    proof (cases stream)
      case (Inl e)
      with Cons.prems False closed have "range_fill_peers skip rest remaining ?tx = (ok, remaining', tx')" by simp
      from Cons.IH [OF Cons.prems(1) alive this] show ?thesis .
    next
      case (Inr msgs)
      obtain ok1 r1 tx2 where c: "consume_stream skip msgs remaining ?tx = (ok1, r1, tx2)"
        by (cases "consume_stream skip msgs remaining ?tx") auto
      have "card remaining \<le> tx_alive ?tx" using alive by simp
      note C = consume_alive [OF Cons.prems(1) this c]
      then have "range_fill_peers skip rest r1 tx2 = (ok, remaining', tx')"
        using Cons.prems False closed Inr c by simp
      moreover have "finite r1" "card r1 + length rest \<le> tx_alive tx2" using C alive by auto
      ultimately show ?thesis using Cons.IH by blast
    qed
  qed
qed simp

section \<open>Windows\<close>

lemma range_incl_upt: "range_incl a b = map word_of_nat [unat a..<unat b + 1]"
proof (cases "a \<le> b")
  case True
  then have "unat (b - a) + 1 = unat b + 1 - unat a"
    by (simp add: unat_sub Suc_diff_le word_le_nat_alt)
  then have "range_incl a b = map (\<lambda>i. a + word_of_nat i) [0..<unat b + 1 - unat a]"
    using True by (simp add: range_incl_def)
  also have "\<dots> = map word_of_nat (map (\<lambda>i. i + unat a) [0..<unat b + 1 - unat a])"
    by (simp add: add.commute)
  also have "map (\<lambda>i. i + unat a) [0..<unat b + 1 - unat a] = [unat a..<unat b + 1]"
    using True by (simp add: map_add_upt word_le_nat_alt)
  finally show ?thesis .
next
  case False
  then show ?thesis by (simp add: range_incl_def word_le_nat_alt)
qed

lemma windows_cover: "concat (map (\<lambda>(lo, hi). rev (range_incl lo hi)) (windows rp period)) = rev (range_incl 0 period)"
proof (induction rp period rule: windows.induct)
  case (1 rp period)
  let ?lo = "win_lo rp period"
  show ?case
  proof (cases "?lo = 0")
    case True
    then show ?thesis by (subst windows.simps) simp
  next
    case False
    have lo: "unat (?lo - 1) + 1 = unat ?lo"
      using False by (simp add: unat_minus_one unat_gt_0)
    have "unat ?lo \<le> unat period + 1"
      using win_lo_le [of rp period] by (simp add: word_le_nat_alt)
    then have "[0..<unat period + 1] = [0..<unat ?lo] @ [unat ?lo..<unat period + 1]"
      using upt_add_eq_append [of 0 "unat ?lo" "unat period + 1 - unat ?lo"] by simp
    then have "rev (range_incl 0 period) = rev (range_incl ?lo period) @ rev (range_incl 0 (?lo - 1))"
      unfolding range_incl_upt lo by simp
    with 1 [OF False] False show ?thesis by (subst windows.simps) simp
  qed
qed

lemma windows_small: "(lo, hi) \<in> set (windows rp period) \<Longrightarrow> lo \<le> hi \<and> unat hi - unat lo < max 1 (unat rp)"
proof (induction rp period rule: windows.induct)
  case (1 rp period)
  have "unat period - unat (win_lo rp period) < max 1 (unat rp)"
  proof (cases "rp = 0")
    case True
    then show ?thesis by (simp add: win_lo_def sat_sub_def)
  next
    case False
    then have "unat (sat_sub rp 1) = unat rp - 1" "0 < unat rp"
      by (simp_all add: sat_sub_def unat_minus_one word_le_nat_alt unat_gt_0 Suc_le_eq)
    then show ?thesis
      by (auto simp: win_lo_def sat_sub_def unat_sub word_le_nat_alt split: if_splits)
  qed
  with 1 win_lo_le [of rp period] show ?case
    by (subst (asm) (2) windows.simps) (auto split: if_splits)
qed

section \<open>What is asked for\<close>

definition settled_row :: "backfill_config \<Rightarrow> sweep_ctx \<Rightarrow> slot_state \<Rightarrow> bool" where
  "settled_row cfg sweep st \<longleftrightarrow>
     (let age = sat_sub (sc_head sweep) (sl_period (st_slot st)); ask = window_parts cfg in
      case st_status st of
        SlotUnknown \<Rightarrow> False
      | SlotCandidate \<Rightarrow> age < bc_stale_candidate_periods cfg
      | SlotFinal \<Rightarrow>
          \<not> in_recheck sweep (sl_period (st_slot st)) \<and>
          (if st_is_miss st then st_candidate_block_ids st = [] else block_body_stored (st_completeness st)) \<and>
          (age \<le> bc_recent_incomplete_periods cfg \<longrightarrow>
             (fp_exec_output ask \<longrightarrow> exec_output_final (st_completeness st)) \<and>
             (fp_transfers ask \<longrightarrow> transfers_stored (st_completeness st))))"

lemma all_enabled_window:
  "all_enabled (bc_expected_streams cfg) (bc_parts cfg) =
     (if window_parts cfg = parts_default then None else Some (window_parts cfg))"
  by (auto simp: all_enabled_def window_parts_def parts_default_def Let_def)

text \<open>The decision in full, for a configuration that asks for anything at all.\<close>

lemma needs_fetch_decides:
  assumes "window_parts cfg \<noteq> parts_default"
  shows "needs_fetch row cfg sweep = None \<longleftrightarrow> (\<exists>st. row = Some st \<and> settled_row cfg sweep st)"
proof (cases row)
  case None
  with assms show ?thesis by (simp add: needs_fetch_def all_enabled_window)
next
  case (Some st)
  with assms show ?thesis
    by (cases "st_status st")
      (auto simp: needs_fetch_def settled_row_def all_enabled_window Let_def not_le,
        auto simp: window_parts_def parts_default_def)
qed

lemma needs_fetch_parts:
  assumes "needs_fetch row cfg sweep = Some (parts, reason)"
  shows "parts \<noteq> parts_default \<and>
    (fp_block parts \<longrightarrow> fp_block (window_parts cfg)) \<and>
    (fp_exec_output parts \<longrightarrow> fp_exec_output (window_parts cfg)) \<and>
    (fp_transfers parts \<longrightarrow> fp_transfers (window_parts cfg)) \<and>
    (reason \<noteq> RecentIncomplete \<longrightarrow> parts = window_parts cfg)"
  using assms
  by (auto simp: needs_fetch_def all_enabled_window Let_def parts_default_def split: option.splits
      slot_status.splits if_splits) (auto simp: window_parts_def)

end
