(* ===== verification/Props_Backfill.thy ===== *)
theory Props_Backfill
  imports Backfill_Laws
begin

text \<open>
  The properties of the backfill walker.
\<close>

section \<open>Filling a window\<close>

text \<open>
  C14.  Filling a window from the streams of the peers, on an ingest channel that stays open long
  enough, comes to an end and forwards exactly one FINAL response for each slot that left the
  missing list, each of them missing before; a slot is left in the list only if no stream
  delivered it.
\<close>

theorem window_fill_supplies:
  assumes "card (set needy) + length streams \<le> tx_alive tx"
  shows "\<exists>needy' tx' rs ks. range_fill_window_opts skip streams needy tx = (True, needy', tx') \<and>
    tx_sent tx' = tx_sent tx @ rs \<and> list_all2 (supplies skip) rs ks \<and> distinct ks \<and>
    set ks \<subseteq> set needy \<and> needy' = filter (\<lambda>k. k \<notin> set ks) needy \<and>
    (\<forall>msgs resp k. Inr msgs \<in> set streams \<longrightarrow> resp \<in> set (received msgs) \<longrightarrow> k \<in> set needy' \<longrightarrow>
       \<not> supplies skip resp k)"
proof -
  obtain ok left tx' where run: "range_fill_peers skip streams (set needy) tx = (ok, left, tx')"
    by (cases "range_fill_peers skip streams (set needy) tx") auto
  have ok: "ok" by (rule range_fill_alive [OF finite_set assms run])
  note spec = range_fill_forwards [OF run]
  obtain rs ks where f: "tx_sent tx' = tx_sent tx @ rs" "list_all2 (supplies skip) rs ks" "distinct ks"
      "set ks \<subseteq> set needy" "left = set needy - set ks"
    using spec ok by (auto simp: forwards_def)
  have "range_fill_window_opts skip streams needy tx = (True, filter (\<lambda>k. k \<in> left) needy, tx')"
    using run ok by (simp add: range_fill_window_opts_def)
  moreover have "filter (\<lambda>k. k \<in> left) needy = filter (\<lambda>k. k \<notin> set ks) needy"
    using f(5) by (auto intro: filter_cong)
  moreover have "set (filter (\<lambda>k. k \<notin> set ks) needy) \<subseteq> left" using f(5) by auto
  ultimately show ?thesis
    using f(1-4) spec ok by (intro exI [of _ "filter (\<lambda>k. k \<notin> set ks) needy"] exI [of _ tx'] exI [of _ rs]
        exI [of _ ks]) auto
qed

definition ref_answer :: "u64 \<Rightarrow> u32 \<Rightarrow> bool \<Rightarrow> final_slot_response" where
  "ref_answer p t known = response_default\<lparr>fr_period := p, fr_thread := t, fr_final_known := known\<rparr>"

definition ref_streams :: "(error + stream_item list) list" where
  "ref_streams = [Inl (Other ''down''), Inr [Message (ref_answer 7 1 True), Message (ref_answer 7 1 True),
     Message (ref_answer 6 2 False), Stalled, Message (ref_answer 6 2 True)]]"

theorem window_fill_supplies_witness:
  "\<exists>needy' tx'. range_fill_window_opts False ref_streams [(7, 1), (6, 2)]
       \<lparr>tx_alive = 9, tx_sent = [], tx_metrics = None\<rparr> = (True, needy', tx') \<and> length (tx_sent tx') \<le> 2"
proof -
  let ?tx = "\<lparr>tx_alive = 9, tx_sent = [], tx_metrics = None\<rparr>"
  have "card (set [(7 :: u64, 1 :: u8), (6, 2)]) + length ref_streams \<le> tx_alive ?tx"
    by (simp add: ref_streams_def)
  from window_fill_supplies [OF this, of False]
  obtain needy' tx' rs ks where r: "range_fill_window_opts False ref_streams [(7, 1), (6, 2)] ?tx = (True, needy', tx')"
      "tx_sent tx' = [] @ rs" "list_all2 (supplies False) rs ks" "distinct ks" "set ks \<subseteq> {(7, 1), (6, 2)}"
    by auto
  have "card (set ks) \<le> card {(7 :: u64, 1 :: u8), (6, 2)}" by (rule card_mono) (use r(5) in simp_all)
  then have "length (tx_sent tx') \<le> 2"
    using r(2,3,4) list_all2_lengthD [OF r(3)] by (simp add: distinct_card)
  with r(1) show ?thesis by blast
qed

section \<open>Sweeps\<close>

text \<open>
  C15.  A sweep ends, and its windows visit every period from the head down to 0 exactly once, in
  that order, in windows of at most the configured number of periods.
\<close>

theorem sweep_covers_periods:
  "concat (map (\<lambda>(lo, hi). rev (range_incl lo hi)) (windows range_periods head)) =
     map word_of_nat (rev [0..<unat head + 1]) \<and>
   list_all (\<lambda>(lo, hi). lo \<le> hi \<and> unat hi - unat lo < max 1 (unat range_periods)) (windows range_periods head)"
  using windows_cover [of range_periods head] windows_small [of _ _ range_periods head]
  by (auto simp: range_incl_upt rev_map list_all_iff)

text \<open>
  With anything enabled at all, the walker passes over a row exactly when it is settled: a candidate the
  stream may still finalise, or a FINAL row outside the recheck ranges with its block (or an undisputed
  miss) that has every enabled part or is too old to be asked about again.  What it asks for is never empty, only
  enabled parts, and everything enabled unless the row only lacks recent parts.
\<close>

theorem walker_asks_unsettled:
  assumes "window_parts cfg \<noteq> parts_default"
  shows "case needs_fetch row cfg sweep of
      None \<Rightarrow> \<exists>st. row = Some st \<and> settled_row cfg sweep st
    | Some (parts, reason) \<Rightarrow> \<not> (\<exists>st. row = Some st \<and> settled_row cfg sweep st) \<and> parts \<noteq> parts_default \<and>
        (fp_block parts \<longrightarrow> fp_block (window_parts cfg)) \<and>
        (fp_exec_output parts \<longrightarrow> fp_exec_output (window_parts cfg)) \<and>
        (fp_transfers parts \<longrightarrow> fp_transfers (window_parts cfg)) \<and>
        (reason \<noteq> RecentIncomplete \<longrightarrow> parts = window_parts cfg)"
proof (cases "needs_fetch row cfg sweep")
  case None
  then show ?thesis using needs_fetch_decides [OF assms, of row sweep] by (simp only: option.case simp_thms)
next
  case (Some a)
  obtain parts reason where a: "a = (parts, reason)" by force
  from needs_fetch_parts [OF Some [unfolded a]] needs_fetch_decides [OF assms, of row sweep] Some show ?thesis
    by (simp add: a)
qed

theorem walker_asks_unsettled_witness:
  "needs_fetch (Some ((fresh (Slot 5 3) 7)\<lparr>st_status := SlotCandidate\<rparr>)) backfill_default
     \<lparr>sc_head = 6, sc_recheck_ranges = []\<rparr> = None"
proof -
  let ?st = "(fresh (Slot 5 3) 7)\<lparr>st_status := SlotCandidate\<rparr>"
  let ?sweep = "\<lparr>sc_head = 6, sc_recheck_ranges = []\<rparr>"
  have "window_parts backfill_default \<noteq> parts_default"
    by (simp add: window_parts_def backfill_default_def streams_all_def parts_default_def)
  moreover have "settled_row backfill_default ?sweep ?st"
    by (simp add: settled_row_def fresh_def backfill_default_def sat_sub_def)
  ultimately show ?thesis
    using walker_asks_unsettled [of backfill_default "Some ?st" ?sweep]
    by (auto split: option.splits)
qed

lemma recheck_step:
  "ranges \<noteq> [] \<Longrightarrow> recheck_swept (ranges, left) = (if unat left \<le> 1 then [] else ranges, sat_sub left 1)"
  "unat (sat_sub left 1) = unat (left :: u32) - 1"
proof -
  show u: "unat (sat_sub left 1) = unat left - 1"
    by (cases "left = 0") (simp_all add: sat_sub_def word_le_nat_alt unat_minus_one unat_gt_0 Suc_le_eq)
  then have "sat_sub left 1 = 0 \<longleftrightarrow> unat left \<le> 1" by (simp add: unat_eq_0 [symmetric])
  then show "ranges \<noteq> [] \<Longrightarrow> recheck_swept (ranges, left) = (if unat left \<le> 1 then [] else ranges, sat_sub left 1)"
    by (simp add: recheck_swept_def Let_def)
qed

lemma recheck_after:
  assumes "ranges \<noteq> []"
  shows "\<exists>left'. (recheck_swept ^^ n) (ranges, left) = (if n < max 1 (unat left) then ranges else [], left') \<and>
    unat left' = unat left - n"
proof (induction n)
  case (Suc n)
  then obtain left' where l: "(recheck_swept ^^ n) (ranges, left) = (if n < max 1 (unat left) then ranges else [], left')"
      "unat left' = unat left - n" by blast
  show ?case
  proof (cases "n < max 1 (unat left)")
    case True
    with l assms have "(recheck_swept ^^ Suc n) (ranges, left) =
        (if unat left' \<le> 1 then [] else ranges, sat_sub left' 1)"
      by (simp add: recheck_step(1))
    moreover have "unat left' \<le> 1 \<longleftrightarrow> \<not> Suc n < max 1 (unat left)" using l(2) True by auto
    ultimately show ?thesis using l(2) recheck_step(2) [of left'] by auto
  next
    case False
    with l show ?thesis by (auto simp: recheck_swept_def)
  qed
qed simp

text \<open>
  Operator recheck ranges stay armed for exactly the configured number of completed sweeps (for one
  when that number is 0), and for none after that.
\<close>

theorem recheck_disarms:
  "fst ((recheck_swept ^^ n) (recheck_new cfg)) =
     (if n < max 1 (unat (bc_recheck_sweeps cfg)) then bc_recheck_ranges cfg else [])"
proof (cases "bc_recheck_ranges cfg = []")
  case True
  have "(recheck_swept ^^ n) ([], left) = ([], left)" for left
    by (induction n) (simp_all add: recheck_swept_def)
  with True show ?thesis by (simp add: recheck_new_def)
next
  case False
  with recheck_after [OF False, of n "bc_recheck_sweeps cfg"] show ?thesis
    by (auto simp: recheck_new_def)
qed

end
