(* ===== verification/Pool.thy ===== *)
theory Pool
  imports Backfill
begin

text \<open>
  The outbound pool of peers (\<open>peer/client.rs\<close>): one peer, then \<open>PeerPool\<close> itself with the configured peers, the
  handles of advertised urls, the choice of logical peers, and fetches over the routes to one of them.

  The network is an input: what a dial, a call or the clock gives at each step, the steps being numbered by
  \<open>tick\<close>.  A shared value (the registry, the process-wide bridge ids) is part of the state that is
  passed along, next to the handle of one peer or to the whole pool.  The task of an open session is the
  sequence of the messages it handles and its end.
\<close>

section \<open>The state of one peer\<close>

record local_peer_identity =
  li_peer_id :: string
  li_network :: string
  li_build_version :: string
  li_advertise_url :: string

record peer_handle =
  ph_name :: string
  ph_url :: string
  ph_connected :: bool
  ph_last_health :: "(health_response \<times> nat) option"
  ph_remote_peer_id :: "string option"
  ph_session_started :: bool
  ph_open_sync_session :: bool

record shared =
  sh_registry :: peer_registry
  sh_tick :: nat
  sh_next_bridge :: u64

record network =
  dial :: "nat \<Rightarrow> string \<Rightarrow> error + unit"
  rpc_health :: "nat \<Rightarrow> string \<Rightarrow> health_request \<Rightarrow> error + health_response"
  rpc_final_slot :: "nat \<Rightarrow> string \<Rightarrow> final_slot_request \<Rightarrow> error + final_slot_response"
  rpc_stream :: "nat \<Rightarrow> string \<Rightarrow> stream_final_slots_request \<Rightarrow> error + stream_item list"
  rpc_session :: "nat \<Rightarrow> string \<Rightarrow> session_message \<Rightarrow> error + unit"
  session_slot :: "nat \<Rightarrow> u64 \<Rightarrow> u64 \<Rightarrow> u8 \<Rightarrow> final_slot_parts \<Rightarrow> error + final_slot_response"
  clock :: "nat \<Rightarrow> nat"

definition HEALTH_CACHE_TTL :: nat where
  "HEALTH_CACHE_TTL = 30 * 1000"

type_synonym 'a handle_m = "(peer_handle \<times> shared, 'a) dbm"

text \<open>One step of the network at a handle, and changes of the handle and of the registry.\<close>

definition ask :: "(nat \<Rightarrow> error + 'a) \<Rightarrow> 'a handle_m" where
  "ask f = (\<lambda>(h, sh). (f (sh_tick sh), h, sh\<lparr>sh_tick := sh_tick sh + 1\<rparr>))"

definition on_handle :: "(peer_handle \<Rightarrow> peer_handle) \<Rightarrow> unit handle_m" where
  "on_handle f = (\<lambda>(h, sh). (Inr (), f h, sh))"

definition on_registry :: "(peer_registry \<Rightarrow> peer_registry) \<Rightarrow> unit handle_m" where
  "on_registry f = (\<lambda>(h, sh). (Inr (), h, sh\<lparr>sh_registry := f (sh_registry sh)\<rparr>))"

definition the_handle :: "peer_handle handle_m" where
  "the_handle = (\<lambda>(h, sh). (Inr h, h, sh))"

definition now_at :: "network \<Rightarrow> nat handle_m" where
  "now_at net = (\<lambda>(h, sh). (Inr (clock net (sh_tick sh)), h, sh))"

text \<open>\<open>match m { Ok(x) => f(x), Err(e) => g(e) }\<close>\<close>

definition on_result :: "('s, 'a) dbm \<Rightarrow> ('a \<Rightarrow> ('s, 'b) dbm) \<Rightarrow> (error \<Rightarrow> ('s, 'b) dbm) \<Rightarrow> ('s, 'b) dbm" where
  "on_result m f g s = (case m s of (Inr x, t) \<Rightarrow> f x t | (Inl e, t) \<Rightarrow> g e t)"

section \<open>One peer\<close>

definition handle_fresh :: "string \<Rightarrow> string \<Rightarrow> bool \<Rightarrow> peer_handle" where
  "handle_fresh name url open_session =
     \<lparr>ph_name = name, ph_url = url, ph_connected = False, ph_last_health = None, ph_remote_peer_id = None,
      ph_session_started = False, ph_open_sync_session = open_session\<rparr>"

definition new_with_session :: "network \<Rightarrow> string \<Rightarrow> string \<Rightarrow> bool \<Rightarrow> shared \<Rightarrow> peer_handle \<times> shared" where
  "new_with_session net name url open_session sh =
     (handle_fresh name url open_session,
      sh\<lparr>sh_registry := add_url (clock net (sh_tick sh)) name url (sh_registry sh)\<rparr>)"

definition connect :: "network \<Rightarrow> unit handle_m" where
  "connect net = bnd the_handle (\<lambda>h.
     if ph_connected h then ret ()
     else bnd (ask (\<lambda>t. dial net t (ph_url h))) (\<lambda>_. on_handle (\<lambda>h. h\<lparr>ph_connected := True\<rparr>)))"

definition drop_client :: "unit handle_m" where
  "drop_client = on_handle (\<lambda>h. h\<lparr>ph_connected := False\<rparr>)"

definition client_health_request :: "local_peer_identity \<Rightarrow> health_request" where
  "client_health_request li =
     \<lparr>hq_caller_peer_id = li_peer_id li, hq_caller_network = li_network li,
      hq_advertise_url = li_advertise_url li\<rparr>"

definition local_hello :: "local_peer_identity \<Rightarrow> session_message" where
  "local_hello li = make_hello (li_peer_id li) (li_network li) (li_build_version li) SCHEMA_VERSION (li_advertise_url li)"

definition session_flag :: "bool \<Rightarrow> unit handle_m" where
  "session_flag b = on_handle (\<lambda>h. h\<lparr>ph_session_started := b\<rparr>)"

text \<open>A fresh bridge id.\<close>

definition next_bridge :: "u64 handle_m" where
  "next_bridge = (\<lambda>(h, sh). (Inr (sh_next_bridge sh), h, sh\<lparr>sh_next_bridge := sh_next_bridge sh + 1\<rparr>))"

definition ensure_sync_session :: "network \<Rightarrow> local_peer_identity \<Rightarrow> unit handle_m" where
  "ensure_sync_session net li = bnd the_handle (\<lambda>h.
     if \<not> ph_open_sync_session h then ret ()
     else if ph_session_started h then ret ()
     else bnd (session_flag True) (\<lambda>_.
       on_result (connect net)
         (\<lambda>_. let remote = unwrap_or (ph_name h) (ph_remote_peer_id h) in
           bnd next_bridge (\<lambda>bridge.
           bnd (on_registry (set_session remote bridge)) (\<lambda>_.
           on_result (ask (\<lambda>t. rpc_session net t (ph_url h) (local_hello li)))
             (\<lambda>_. ret ())
             (\<lambda>_. bnd (on_registry (clear_session_by_id remote bridge)) (\<lambda>_.
                  bnd (session_flag False) (\<lambda>_. drop_client))))))
         (\<lambda>_. session_flag False)))"

text \<open>The session task: a hello of the remote, and the end of the connection.\<close>

definition session_hello_in :: "network \<Rightarrow> string \<Rightarrow> session_hello \<Rightarrow> string handle_m" where
  "session_hello_in net peer hello =
     (if sh_peer_id hello \<noteq> [] \<and> sh_peer_id hello \<noteq> peer
      then bnd the_handle (\<lambda>h.
           bnd (now_at net) (\<lambda>now.
           bnd (on_registry (\<lambda>g.
             let g1 = migrate_peer_id (ph_name h) (sh_peer_id hello) (migrate_peer_id peer (sh_peer_id hello) g)
             in if sh_advertise_url hello \<noteq> [] then add_url now (sh_peer_id hello) (sh_advertise_url hello) g1
                else g1)) (\<lambda>_.
           bnd (on_handle (\<lambda>h. h\<lparr>ph_remote_peer_id := Some (sh_peer_id hello)\<rparr>)) (\<lambda>_.
           ret (sh_peer_id hello)))))
      else ret peer)"

definition session_ended :: "u64 \<Rightarrow> unit handle_m" where
  "session_ended bridge =
     bnd (on_registry (clear_session_by_bridge_id bridge)) (\<lambda>_.
     bnd drop_client (\<lambda>_. session_flag False))"

definition learn_identity :: "network \<Rightarrow> health_response \<Rightarrow> unit handle_m" where
  "learn_identity net resp = bnd the_handle (\<lambda>h.
     if hr_peer_id resp = [] then ret ()
     else bnd (on_handle (\<lambda>h. h\<lparr>ph_remote_peer_id := Some (hr_peer_id resp)\<rparr>)) (\<lambda>_.
          bnd (now_at net) (\<lambda>now.
          on_registry (\<lambda>g.
            let g1 = (case ph_remote_peer_id h of
                        None \<Rightarrow> g | Some old \<Rightarrow> migrate_peer_id old (hr_peer_id resp) g);
                g2 = (if ph_name h \<noteq> hr_peer_id resp then migrate_peer_id (ph_name h) (hr_peer_id resp) g1 else g1)
            in add_url now (hr_peer_id resp) (ph_url h) g2))))"

definition health :: "network \<Rightarrow> local_peer_identity \<Rightarrow> health_response handle_m" where
  "health net li = bnd the_handle (\<lambda>h. bnd (now_at net) (\<lambda>now.
     case (case ph_last_health h of
             Some (resp, at) \<Rightarrow> if now - at < HEALTH_CACHE_TTL then Some resp else None
           | None \<Rightarrow> None) of
       Some resp \<Rightarrow> bnd (ensure_sync_session net li) (\<lambda>_. ret resp)
     | None \<Rightarrow>
         bnd (connect net) (\<lambda>_.
         on_result (ask (\<lambda>t. rpc_health net t (ph_url h) (client_health_request li)))
           (\<lambda>resp.
             bnd (learn_identity net resp) (\<lambda>_.
             bnd (now_at net) (\<lambda>at.
             bnd (on_handle (\<lambda>h. h\<lparr>ph_last_health := Some (resp, at)\<rparr>)) (\<lambda>_.
             bnd (ensure_sync_session net li) (\<lambda>_. ret resp)))))
           (\<lambda>e. bnd drop_client (\<lambda>_. fail e)))))"

definition handle_get_final_slot :: "network \<Rightarrow> u64 \<Rightarrow> u8 \<Rightarrow> final_slot_parts \<Rightarrow> final_slot_response handle_m" where
  "handle_get_final_slot net period thread parts = bnd the_handle (\<lambda>h.
     bnd (connect net) (\<lambda>_.
     on_result (ask (\<lambda>t. rpc_final_slot net t (ph_url h)
         \<lparr>fq_period = period, fq_thread = ucast thread, fq_parts = Some parts\<rparr>))
       ret (\<lambda>e. bnd drop_client (\<lambda>_. fail e))))"

definition handle_stream_final_slots ::
  "network \<Rightarrow> slot_id \<Rightarrow> slot_id \<Rightarrow> final_slot_parts \<Rightarrow> u32 \<Rightarrow> stream_item list handle_m" where
  "handle_stream_final_slots net from to parts limit = bnd the_handle (\<lambda>h.
     bnd (connect net) (\<lambda>_.
     on_result (ask (\<lambda>t. rpc_stream net t (ph_url h)
         \<lparr>fs_from_period = fst from, fs_from_thread = ucast (snd from), fs_to_period = fst to,
          fs_to_thread = ucast (snd to), fs_parts = Some parts, fs_limit = limit\<rparr>))
       ret (\<lambda>e. bnd drop_client (\<lambda>_. fail e))))"

section \<open>The pool\<close>

record pool =
  pl_peers :: "peer_handle list"
  pl_dynamic :: "(string \<times> peer_handle) list"
  pl_shared :: shared
  pl_local :: local_peer_identity
  pl_expected_network :: string
  pl_route_rr :: u64

type_synonym 'a pool_m = "(pool, 'a) dbm"

text \<open>Running an operation of one configured handle, or of the handle of a url.\<close>

definition on_peer :: "nat \<Rightarrow> 'a handle_m \<Rightarrow> 'a pool_m" where
  "on_peer i m pl =
     (case m (pl_peers pl ! i, pl_shared pl) of
        (r, h, sh) \<Rightarrow> (r, pl\<lparr>pl_peers := (pl_peers pl)[i := h], pl_shared := sh\<rparr>))"

definition on_dynamic :: "string \<Rightarrow> 'a handle_m \<Rightarrow> 'a pool_m" where
  "on_dynamic url m pl =
     (case map_of (pl_dynamic pl) url of
        None \<Rightarrow> (Inl (Other ''no handle''), pl)
      | Some h \<Rightarrow>
          (case m (h, pl_shared pl) of
             (r, h', sh) \<Rightarrow> (r, pl\<lparr>pl_dynamic := AList.update url h' (pl_dynamic pl), pl_shared := sh\<rparr>)))"

definition pool_registry :: "(peer_registry \<Rightarrow> peer_registry) \<Rightarrow> unit pool_m" where
  "pool_registry f pl = (Inr (), pl\<lparr>pl_shared := (pl_shared pl)\<lparr>sh_registry := f (sh_registry (pl_shared pl))\<rparr>\<rparr>)"

definition pool_ask :: "(nat \<Rightarrow> error + 'a) \<Rightarrow> 'a pool_m" where
  "pool_ask f pl = (f (sh_tick (pl_shared pl)),
     pl\<lparr>pl_shared := (pl_shared pl)\<lparr>sh_tick := sh_tick (pl_shared pl) + 1\<rparr>\<rparr>)"

definition pool_now :: "network \<Rightarrow> pool \<Rightarrow> nat" where
  "pool_now net pl = clock net (sh_tick (pl_shared pl))"

definition get_pool :: "(pool \<Rightarrow> 'a) \<Rightarrow> 'a pool_m" where
  "get_pool f pl = (Inr (f pl), pl)"

text \<open>\<open>for peer in self.peers.iter()\<close>, over the indices of the peers.\<close>

definition peer_indices :: "nat list pool_m" where
  "peer_indices = get_pool (\<lambda>pl. [0..<length (pl_peers pl)])"

section \<open>Building the pool\<close>

fun pool_handles :: "network \<Rightarrow> (string \<times> string) list \<Rightarrow> shared \<Rightarrow> peer_handle list \<times> shared" where
  "pool_handles net [] sh = ([], sh)"
| "pool_handles net ((name, url) # cfgs) sh =
     (case new_with_session net name url True sh of
        (h, sh1) \<Rightarrow> (case pool_handles net cfgs sh1 of (hs, sh2) \<Rightarrow> (h # hs, sh2)))"

definition pool_new :: "network \<Rightarrow> (string \<times> string) list \<Rightarrow> local_peer_identity \<Rightarrow> shared \<Rightarrow> string \<Rightarrow> pool" where
  "pool_new net cfgs li sh expected =
     (case pool_handles net cfgs sh of
        (hs, sh1) \<Rightarrow> \<lparr>pl_peers = hs, pl_dynamic = [], pl_shared = sh1, pl_local = li,
                      pl_expected_network = expected, pl_route_rr = 0\<rparr>)"

definition pool_is_empty :: "pool \<Rightarrow> bool" where
  "pool_is_empty pl \<longleftrightarrow> pl_peers pl = [] \<and> \<not> has_any (sh_registry (pl_shared pl))"

section \<open>Health\<close>

definition peer_health :: "network \<Rightarrow> nat \<Rightarrow> health_response pool_m" where
  "peer_health net i = bnd (get_pool pl_local) (\<lambda>li. on_peer i (health net li))"

definition network_ok :: "string \<Rightarrow> health_response \<Rightarrow> bool" where
  "network_ok expected h \<longleftrightarrow> hr_network h = expected \<or> expected = []"

definition best_remote_final_period :: "network \<Rightarrow> u64 option pool_m" where
  "best_remote_final_period net = bnd peer_indices (fold_each (\<lambda>best i.
     on_result (peer_health net i)
       (\<lambda>h. bnd (get_pool pl_expected_network) (\<lambda>expected.
         ret (if network_ok expected h
              then Some (case best of None \<Rightarrow> hr_last_final_period h
                         | Some b \<Rightarrow> max b (hr_last_final_period h))
              else best)))
       (\<lambda>e. ret best)) None)"

text \<open>One turn of \<open>maintain_sessions\<close>, with the back-off that follows, in seconds.\<close>

definition maintain_round :: "network \<Rightarrow> nat \<Rightarrow> nat pool_m" where
  "maintain_round net backoff =
     bnd peer_indices (\<lambda>is.
     bnd (fold_each (\<lambda>any_ok i.
            on_result (peer_health net i)
              (\<lambda>h. bnd (get_pool pl_local) (\<lambda>li. bnd (on_peer i (ensure_sync_session net li)) (\<lambda>_. ret True)))
              (\<lambda>e. ret any_ok)) False is) (\<lambda>any_ok.
     ret (if any_ok \<or> is = [] then 2 else min (backoff * 2) 30)))"

section \<open>Logical peers\<close>

definition lcg :: "u64 \<Rightarrow> u64" where
  "lcg seed = seed * 6364136223846793005 + 1442695040888963407"

definition list_swap :: "'a list \<Rightarrow> nat \<Rightarrow> nat \<Rightarrow> 'a list" where
  "list_swap xs i j = xs[i := xs ! j, j := xs ! i]"

text \<open>The loop index runs from the last position down to 1.\<close>

fun shuffle_from :: "nat \<Rightarrow> u64 \<Rightarrow> 'a list \<Rightarrow> 'a list" where
  "shuffle_from 0 seed xs = xs"
| "shuffle_from (Suc i) seed xs =
     (let seed1 = lcg seed; j = unat (drop_bit 33 seed1) mod (Suc i + 1)
      in shuffle_from i seed1 (list_swap xs (Suc i) j))"

definition shuffled :: "u64 \<Rightarrow> 'a list \<Rightarrow> 'a list" where
  "shuffled seed xs = shuffle_from (length xs - 1) seed xs"

definition push_logical :: "string \<Rightarrow> string \<Rightarrow> string list \<Rightarrow> string list" where
  "push_logical me i ids = (if i \<noteq> me \<and> i \<noteq> [] then push_new i ids else ids)"

definition known_aliases :: "peer_handle list \<Rightarrow> string set" where
  "known_aliases hs = {ph_name h |h. h \<in> set hs \<and> ph_remote_peer_id h \<noteq> None}"

definition logical_list :: "string \<Rightarrow> peer_handle list \<Rightarrow> string list \<Rightarrow> string list" where
  "logical_list me hs registered =
     (let ids1 = fold (\<lambda>h. push_logical me (unwrap_or (ph_name h) (ph_remote_peer_id h))) hs []
      in fold (\<lambda>i ids. if i \<in> known_aliases hs then ids else push_logical me i ids) registered ids1)"

definition logical_peer_ids :: "network \<Rightarrow> u64 \<Rightarrow> string list pool_m" where
  "logical_peer_ids net seed =
     bnd peer_indices (\<lambda>is.
     bnd (for_each is (\<lambda>i. on_result (peer_health net i) (\<lambda>_. ret ()) (\<lambda>_. ret ()))) (\<lambda>_.
     get_pool (\<lambda>pl. shuffled seed
       (logical_list (li_peer_id (pl_local pl)) (pl_peers pl) (peer_ids (sh_registry (pl_shared pl)))))))"

section \<open>Routes\<close>

datatype peer_route = UnaryUrl string | SessionRoute u64

definition handle_serves :: "string \<Rightarrow> peer_handle \<Rightarrow> bool" where
  "handle_serves peer h \<longleftrightarrow> unwrap_or (ph_name h) (ph_remote_peer_id h) = peer \<or> ph_name h = peer"

definition static_urls :: "string \<Rightarrow> pool \<Rightarrow> string list" where
  "static_urls peer pl = fold push_new (map ph_url (filter (handle_serves peer) (pl_peers pl))) []"

definition route_urls :: "string \<Rightarrow> pool \<Rightarrow> string list" where
  "route_urls peer pl =
     fold push_new (case registry_get peer (sh_registry (pl_shared pl)) of None \<Rightarrow> [] | Some e \<Rightarrow> urls e)
       (static_urls peer pl)"

definition peer_routes_of :: "string \<Rightarrow> pool \<Rightarrow> peer_route list" where
  "peer_routes_of peer pl =
     map UnaryUrl (route_urls peer pl) @
     map SessionRoute (case registry_get peer (sh_registry (pl_shared pl)) of None \<Rightarrow> [] | Some e \<Rightarrow> sessions e)"

definition is_static :: "string \<Rightarrow> pool \<Rightarrow> bool" where
  "is_static url pl \<longleftrightarrow> (\<exists>h \<in> set (pl_peers pl). ph_url h = url)"

text \<open>The handle of a url, made on first use, and its network checked.\<close>

definition handle_for_url :: "network \<Rightarrow> string \<Rightarrow> string \<Rightarrow> unit pool_m" where
  "handle_for_url net peer url =
     bnd (get_pool (\<lambda>pl. map_of (pl_dynamic pl) url)) (\<lambda>found.
     bnd (if is_some found then ret ()
          else (\<lambda>pl. case new_with_session net peer url False (pl_shared pl) of
                  (h, sh) \<Rightarrow> (Inr (), pl\<lparr>pl_dynamic := AList.update url h (pl_dynamic pl), pl_shared := sh\<rparr>))) (\<lambda>_.
     bnd (get_pool pl_expected_network) (\<lambda>expected.
     if expected = [] then ret ()
     else bnd (get_pool pl_local) (\<lambda>li.
          bnd (on_dynamic url (health net li)) (\<lambda>h.
          if hr_network h \<noteq> expected
          then fail (Other (''peer '' @ peer @ '' network mismatch: '' @ hr_network h))
          else ret ())))))"

definition unary_via_url ::
  "network \<Rightarrow> string \<Rightarrow> string \<Rightarrow> u64 \<Rightarrow> u8 \<Rightarrow> final_slot_parts \<Rightarrow> final_slot_response pool_m" where
  "unary_via_url net peer url period thread parts =
     bnd (handle_for_url net peer url) (\<lambda>_. on_dynamic url (handle_get_final_slot net period thread parts))"

text \<open>The start of the rotation.\<close>

definition next_start :: "nat \<Rightarrow> nat pool_m" where
  "next_start n pl = (Inr (unat (pl_route_rr pl) mod n), pl\<lparr>pl_route_rr := pl_route_rr pl + 1\<rparr>)"

definition demote_failed :: "network \<Rightarrow> string \<Rightarrow> string \<Rightarrow> unit pool_m" where
  "demote_failed net peer url pl =
     (if is_static url pl then ret () pl
      else pool_registry (remove_url (pool_now net pl) peer url) pl)"

section \<open>Fetching\<close>

fun try_routes ::
  "network \<Rightarrow> string \<Rightarrow> u64 \<Rightarrow> u8 \<Rightarrow> final_slot_parts \<Rightarrow> peer_route list \<Rightarrow> bool \<Rightarrow> error option \<Rightarrow>
   final_slot_response option pool_m" where
  "try_routes net peer period thread parts [] reached last_err =
     (if reached then ret None
      else (case last_err of None \<Rightarrow> ret None | Some e \<Rightarrow> fail e))"
| "try_routes net peer period thread parts (UnaryUrl url # rest) reached last_err =
     on_result (unary_via_url net peer url period thread parts)
       (\<lambda>r. if fr_final_known r then ret (Some r)
            else try_routes net peer period thread parts rest True last_err)
       (\<lambda>e. bnd (demote_failed net peer url) (\<lambda>_.
            try_routes net peer period thread parts rest reached (Some e)))"
| "try_routes net peer period thread parts (SessionRoute b # rest) reached last_err =
     on_result (pool_ask (\<lambda>t. session_slot net t b period thread parts))
       (\<lambda>r. if fr_final_known r then ret (Some r)
            else try_routes net peer period thread parts rest True last_err)
       (\<lambda>e. try_routes net peer period thread parts rest reached (Some e))"

text \<open>The refresh of the configured handles of the peer: False when one is on another network.\<close>

fun refresh_static :: "network \<Rightarrow> string \<Rightarrow> nat list \<Rightarrow> bool pool_m" where
  "refresh_static net peer [] = ret True"
| "refresh_static net peer (i # is) =
     bnd (get_pool (\<lambda>pl. (handle_serves peer (pl_peers pl ! i), pl_expected_network pl))) (\<lambda>(serves_it, expected).
     if \<not> serves_it then refresh_static net peer is
     else on_result (peer_health net i)
       (\<lambda>h. if expected \<noteq> [] \<and> hr_network h \<noteq> expected then ret False else refresh_static net peer is)
       (\<lambda>e. refresh_static net peer is))"

definition fetch_from_logical_peer ::
  "network \<Rightarrow> string \<Rightarrow> u64 \<Rightarrow> u8 \<Rightarrow> final_slot_parts \<Rightarrow> final_slot_response option pool_m" where
  "fetch_from_logical_peer net peer period thread parts =
     bnd peer_indices (\<lambda>is.
     bnd (refresh_static net peer is) (\<lambda>right_network.
     if \<not> right_network then ret None
     else bnd (get_pool (peer_routes_of peer)) (\<lambda>routes.
          if routes = [] then ret None
          else bnd (next_start (length routes)) (\<lambda>start.
               try_routes net peer period thread parts (rotate start routes) False None))))"

fun fetch_from_peers ::
  "network \<Rightarrow> u64 \<Rightarrow> u8 \<Rightarrow> final_slot_parts \<Rightarrow> string list \<Rightarrow> string set \<Rightarrow> error option \<Rightarrow>
   final_slot_response option pool_m" where
  "fetch_from_peers net period thread parts [] tried last_err =
     (case last_err of None \<Rightarrow> ret None | Some e \<Rightarrow> fail e)"
| "fetch_from_peers net period thread parts (peer # rest) tried last_err =
     (if peer \<in> tried then fetch_from_peers net period thread parts rest tried last_err
      else on_result (fetch_from_logical_peer net peer period thread parts)
        (\<lambda>r. case r of
               Some resp \<Rightarrow> if fr_final_known resp then ret (Some resp)
                 else fetch_from_peers net period thread parts rest (insert peer tried) last_err
             | None \<Rightarrow> fetch_from_peers net period thread parts rest (insert peer tried) last_err)
        (\<lambda>e. fetch_from_peers net period thread parts rest (insert peer tried) (Some e)))"

definition fetch_final_slot ::
  "network \<Rightarrow> u64 \<Rightarrow> u64 \<Rightarrow> u8 \<Rightarrow> final_slot_parts \<Rightarrow> final_slot_response option pool_m" where
  "fetch_final_slot net seed period thread parts =
     bnd (logical_peer_ids net seed) (\<lambda>logical.
     if logical = [] then ret None else fetch_from_peers net period thread parts logical {} None)"

fun try_streams ::
  "network \<Rightarrow> string \<Rightarrow> slot_id \<Rightarrow> slot_id \<Rightarrow> final_slot_parts \<Rightarrow> u32 \<Rightarrow> string list \<Rightarrow> error option \<Rightarrow>
   stream_item list pool_m" where
  "try_streams net peer from to parts limit [] last_err =
     fail (unwrap_or (Other (''peer '' @ peer @ '': range stream failed'')) last_err)"
| "try_streams net peer from to parts limit (url # rest) last_err =
     on_result (handle_for_url net peer url)
       (\<lambda>_. on_result (on_dynamic url (handle_stream_final_slots net from to parts limit))
          ret
          (\<lambda>e. bnd (demote_failed net peer url) (\<lambda>_.
               try_streams net peer from to parts limit rest (Some e))))
       (\<lambda>e. try_streams net peer from to parts limit rest (Some e))"

definition stream_range_from_peer ::
  "network \<Rightarrow> string \<Rightarrow> slot_id \<Rightarrow> slot_id \<Rightarrow> final_slot_parts \<Rightarrow> u32 \<Rightarrow> stream_item list pool_m" where
  "stream_range_from_peer net peer from to parts limit =
     bnd (get_pool (route_urls peer)) (\<lambda>us.
     if us = [] then fail (Other (''peer '' @ peer @ '': no unary route for range stream''))
     else bnd (next_start (length us)) (\<lambda>start.
          try_streams net peer from to parts limit (rotate start us) None))"

end
