(* ===== verification/Registry_Laws.thy ===== *)
theory Registry_Laws
  imports Registry
begin

text \<open>
  The registry against its specification: a set of links between peers and the routes to them.  Every
  operation is a simple change of that set, an entry exists exactly where there is a
  link, and a demoted url is refused until its time is over.
\<close>

section \<open>The specification\<close>

record peer_links =
  link_urls :: "(string \<times> string) set"
  link_sessions :: "(string \<times> u64) set"
  blocked :: "string \<Rightarrow> nat"

definition no_links :: peer_links where
  "no_links = \<lparr>link_urls = {}, link_sessions = {}, blocked = (\<lambda>_. 0)\<rparr>"

definition renamed :: "string \<Rightarrow> string \<Rightarrow> (string \<times> 'a) set \<Rightarrow> (string \<times> 'a) set" where
  "renamed f t = image (\<lambda>(p, x). (if p = f then t else p, x))"

fun links_do :: "nat \<times> registry_op \<Rightarrow> peer_links \<Rightarrow> peer_links" where
  "links_do (now, AddUrl p u) l =
     (if p = [] \<or> u = [] \<or> now < blocked l u then l
      else l\<lparr>link_urls := insert (p, u) (link_urls l)\<rparr>)"
| "links_do (now, RemoveUrl p u) l =
     (if p = [] \<or> u = [] then l
      else l\<lparr>link_urls := link_urls l - {(p, u)},
             blocked := (blocked l)(u := now + URL_DEMOTE_TTL)\<rparr>)"
| "links_do (now, SetSession p b) l =
     (if p = [] then l else l\<lparr>link_sessions := insert (p, b) (link_sessions l)\<rparr>)"
| "links_do (now, ClearById p b) l = l\<lparr>link_sessions := link_sessions l - {(p, b)}\<rparr>"
| "links_do (now, ClearByBridge b) l = l\<lparr>link_sessions := link_sessions l - UNIV \<times> {b}\<rparr>"
| "links_do (now, Migrate f t) l =
     (if f = [] \<or> t = [] \<or> f = t then l
      else l\<lparr>link_urls := renamed f t (link_urls l), link_sessions := renamed f t (link_sessions l)\<rparr>)"

text \<open>The links a registry holds, and the instants until which it blocks a url.\<close>

definition url_links :: "peer_registry \<Rightarrow> (string \<times> string) set" where
  "url_links g = {(p, u). u \<in> url_of (inner g) p}"

definition session_links :: "peer_registry \<Rightarrow> (string \<times> u64) set" where
  "session_links g = {(p, b). b \<in> session_of (inner g) p}"

definition blocks :: "peer_registry \<Rightarrow> string \<Rightarrow> nat \<Rightarrow> bool" where
  "blocks g u t \<longleftrightarrow> (\<exists>until. map_of (demoted_urls g) u = Some until \<and> t < until)"

section \<open>The operations on links\<close>

lemma url_of_upsert:
  "url_of (upsert k f m) p = (if p = k then set (urls (f (unwrap_or routes_default (map_of m k)))) else url_of m p)"
  by (simp add: url_of_def map_of_upsert)

lemma session_of_upsert:
  "session_of (upsert k f m) p =
     (if p = k then set (sessions (f (unwrap_or routes_default (map_of m k)))) else session_of m p)"
  by (simp add: session_of_def map_of_upsert)

lemma url_of_shrink:
  "url_of (shrink k f m) p =
     (case map_of m k of None \<Rightarrow> url_of m p
      | Some e \<Rightarrow> if p = k then set (urls (f e)) else url_of m p)"
  by (auto simp: url_of_def map_of_shrink routes_empty_def split: option.splits)

lemma session_of_shrink:
  "session_of (shrink k f m) p =
     (case map_of m k of None \<Rightarrow> session_of m p
      | Some e \<Rightarrow> if p = k then set (sessions (f e)) else session_of m p)"
  by (auto simp: session_of_def map_of_shrink routes_empty_def split: option.splits)

lemma of_default:
  "set (urls (unwrap_or routes_default (map_of m k))) = url_of m k"
  "set (sessions (unwrap_or routes_default (map_of m k))) = session_of m k"
  by (simp_all add: url_of_def session_of_def routes_default_def split: option.splits)

lemma of_Some:
  "map_of m k = Some e \<Longrightarrow> url_of m k = set (urls e)"
  "map_of m k = Some e \<Longrightarrow> session_of m k = set (sessions e)"
  "map_of m k = None \<Longrightarrow> url_of m k = {}"
  "map_of m k = None \<Longrightarrow> session_of m k = {}"
  by (simp_all add: url_of_def session_of_def)

lemmas of_simps = url_of_upsert session_of_upsert url_of_shrink session_of_shrink of_default

lemma map_of_kept:
  "distinct (map fst m) \<Longrightarrow>
   map_of (filter (\<lambda>(k, e). P e) (map (\<lambda>(k, e). (k, f e)) m)) k =
     (case map_of m k of None \<Rightarrow> None | Some e \<Rightarrow> if P (f e) then Some (f e) else None)"
  by (induction m) (auto split: option.splits simp: map_of_eq_None_iff image_iff)

lemma inner_cleared:
  "distinct (map fst (inner g)) \<Longrightarrow>
   map_of (inner (clear_session_by_bridge_id b g)) k =
     (case map_of (inner g) k of None \<Rightarrow> None
      | Some e \<Rightarrow> let e' = e\<lparr>sessions := removeAll b (sessions e)\<rparr> in if routes_empty e' then None else Some e')"
  unfolding clear_session_by_bridge_id_def Let_def by (simp add: map_of_kept split: option.split)

lemma inner_migrated:
  "f \<noteq> [] \<Longrightarrow> t \<noteq> [] \<Longrightarrow> f \<noteq> t \<Longrightarrow> map_of (inner g) f = Some old \<Longrightarrow>
   map_of (inner (migrate_peer_id f t g)) =
     (map_of (inner g))(f := None, t \<mapsto> merge_routes old (unwrap_or routes_default (map_of (inner g) t)))"
  by (simp add: migrate_peer_id_def map_of_upsert delete_conv' fun_upd_twist)

lemma is_demoted_fst:
  assumes "distinct (map fst (demoted_urls g))"
  shows "fst (is_demoted now u g) = blocks g u now"
  using assms by (force simp: is_demoted_def blocks_def Let_def)

lemma inner_is_demoted [simp]: "inner (snd (is_demoted now u g)) = inner g"
  by (simp add: is_demoted_def Let_def)

lemma blocks_is_demoted:
  assumes "distinct (map fst (demoted_urls g))" "now \<le> t"
  shows "blocks (snd (is_demoted now u g)) v t = blocks g v t"
proof -
  have "distinct (map fst (filter (\<lambda>(_, until). until > now) (demoted_urls g)))"
    using assms(1) by (simp add: distinct_map_filter)
  with assms show ?thesis by (auto simp: is_demoted_def blocks_def Let_def)
qed

lemma distinct_is_demoted:
  "distinct (map fst (demoted_urls g)) \<Longrightarrow> distinct (map fst (demoted_urls (snd (is_demoted now u g))))"
  by (simp add: is_demoted_def Let_def distinct_map_filter)

section \<open>The invariant\<close>

lemma registry_ok_upsert:
  assumes "registry_ok g" "entry_ok (k, f (unwrap_or routes_default (map_of (inner g) k)))"
  shows "registry_ok (g\<lparr>inner := upsert k f (inner g)\<rparr>)"
  by (rule registry_okI) (use assms registry_okD [OF assms(1)] in \<open>auto simp: map_of_upsert split: if_splits\<close>)

lemma registry_ok_shrink:
  assumes "registry_ok g" "\<And>e. entry_ok (k, e) \<Longrightarrow> \<not> routes_empty (f e) \<Longrightarrow> entry_ok (k, f e)"
  shows "registry_ok (g\<lparr>inner := shrink k f (inner g)\<rparr>)"
  by (rule registry_okI)
    (use assms(2) registry_okD [OF assms(1)] in \<open>auto simp: map_of_shrink split: if_splits option.splits\<close>)

lemma entry_ok_routes:
  fixes k :: string
  assumes "registry_ok g"
  defines "e \<equiv> unwrap_or routes_default (map_of (inner g) k)"
  shows "distinct (urls e) \<and> [] \<notin> set (urls e) \<and> distinct (sessions e)"
  using registry_okD(2) [OF assms(1), of k]
  by (cases "map_of (inner g) k") (auto simp: e_def routes_default_def entry_ok_def)

lemma registry_ok_demoted:
  "registry_ok g \<Longrightarrow> distinct (map fst d) \<Longrightarrow> registry_ok (g\<lparr>demoted_urls := d\<rparr>)"
  by (simp add: registry_ok_def)

lemma registry_ok_is_demoted: "registry_ok g \<Longrightarrow> registry_ok (snd (is_demoted now u g))"
  using distinct_is_demoted [of g now u] by (simp add: registry_ok_def)

lemma registry_ok_add_url:
  assumes "registry_ok g"
  shows "registry_ok (add_url now p u g)"
proof -
  let ?g = "snd (is_demoted now u g)"
  have g: "registry_ok ?g" by (rule registry_ok_is_demoted [OF assms])
  have "p \<noteq> [] \<Longrightarrow> u \<noteq> [] \<Longrightarrow>
      registry_ok (?g\<lparr>inner := upsert p (\<lambda>e. e\<lparr>urls := push_new u (urls e)\<rparr>) (inner ?g)\<rparr>)"
    by (rule registry_ok_upsert [OF g])
      (use entry_ok_routes [OF g, of p] in \<open>simp add: entry_ok_def routes_empty_def del: inner_is_demoted\<close>)
  moreover obtain dem g1 where d: "is_demoted now u g = (dem, g1)" by force
  moreover have "inner g1 = inner g" using inner_is_demoted [of now u g] d by simp
  ultimately show ?thesis using assms g by (simp add: add_url_def)
qed

lemma registry_ok_set_session:
  assumes "registry_ok g"
  shows "registry_ok (set_session p b g)"
proof -
  have "p \<noteq> [] \<Longrightarrow>
      registry_ok (g\<lparr>inner := upsert p (\<lambda>e. e\<lparr>sessions := push_new b (sessions e)\<rparr>) (inner g)\<rparr>)"
    by (rule registry_ok_upsert [OF assms])
      (use entry_ok_routes [OF assms, of p] in \<open>simp add: entry_ok_def routes_empty_def\<close>)
  with assms show ?thesis by (simp add: set_session_def)
qed

lemma registry_ok_remove_url: "registry_ok g \<Longrightarrow> registry_ok (remove_url now p u g)"
proof -
  assume g: "registry_ok g"
  have "registry_ok (g\<lparr>inner := shrink p (\<lambda>e. e\<lparr>urls := removeAll u (urls e)\<rparr>) (inner g)\<rparr>)"
    by (rule registry_ok_shrink [OF g]) (auto simp: entry_ok_def distinct_removeAll)
  from registry_ok_demoted [OF this, of "AList.update u (now + URL_DEMOTE_TTL) (demoted_urls g)"] g
  show ?thesis by (simp add: remove_url_def registry_ok_def distinct_update)
qed

lemma registry_ok_clear_by_id: "registry_ok g \<Longrightarrow> registry_ok (clear_session_by_id p b g)"
  unfolding clear_session_by_id_def
  by (erule registry_ok_shrink) (auto simp: entry_ok_def distinct_removeAll)

lemma registry_ok_clear_by_bridge:
  assumes "registry_ok g"
  shows "registry_ok (clear_session_by_bridge_id b g)"
proof (rule registry_okI)
  note d = registry_okD [OF assms]
  show "entry_ok (k, e)" if "map_of (inner (clear_session_by_bridge_id b g)) k = Some e" for k e
    using that d(2) [of k] unfolding inner_cleared [OF d(1)]
    by (auto simp: Let_def entry_ok_def distinct_removeAll split: option.splits if_splits)
  have "map fst (map (\<lambda>(k, e). (k, e\<lparr>sessions := removeAll b (sessions e)\<rparr>)) (inner g)) = map fst (inner g)"
    by auto
  then have "distinct (map fst (map (\<lambda>(k, e). (k, e\<lparr>sessions := removeAll b (sessions e)\<rparr>)) (inner g)))"
    using d(1) by metis
  from distinct_map_filter [OF this] show "distinct (map fst (inner (clear_session_by_bridge_id b g)))"
    by (simp add: clear_session_by_bridge_id_def)
  show "distinct (map fst (demoted_urls (clear_session_by_bridge_id b g)))"
    using d(3) by (simp add: clear_session_by_bridge_id_def)
qed

lemma registry_ok_migrate:
  assumes "registry_ok g"
  shows "registry_ok (migrate_peer_id f t g)"
proof (cases "f = [] \<or> t = [] \<or> f = t \<or> map_of (inner g) f = None")
  case True
  with assms show ?thesis by (auto simp: migrate_peer_id_def)
next
  case False
  then obtain old where old: "map_of (inner g) f = Some old" and n: "f \<noteq> []" "t \<noteq> []" "f \<noteq> t" by blast
  note d = registry_okD [OF assms]
  have e: "entry_ok (t, merge_routes old (unwrap_or routes_default (map_of (inner g) t)))"
    using d(2) [OF old] entry_ok_routes [OF assms, of t] n
    by (auto simp: entry_ok_def merge_routes_def routes_empty_def)
      (metis Un_empty_left empty_set set_empty2 set_fold_push_new sup_eq_bot_iff)+
  show ?thesis
  proof (rule registry_okI)
    show "entry_ok (k, r)" if "map_of (inner (migrate_peer_id f t g)) k = Some r" for k r
      using that e d(2) [of k] unfolding inner_migrated [OF n old] by (auto split: if_splits)
    show "distinct (map fst (inner (migrate_peer_id f t g)))"
      using d(1) n old by (simp add: migrate_peer_id_def distinct_delete)
    show "distinct (map fst (demoted_urls (migrate_peer_id f t g)))"
      using d(3) n old by (simp add: migrate_peer_id_def)
  qed
qed

section \<open>The simulation\<close>

text \<open>A registry at a time implements links: later instants cannot tell them apart.\<close>

definition implements :: "nat \<Rightarrow> peer_registry \<Rightarrow> peer_links \<Rightarrow> bool" where
  "implements now g l \<longleftrightarrow> registry_ok g \<and> url_links g = link_urls l \<and>
     session_links g = link_sessions l \<and> (\<forall>u t. now \<le> t \<longrightarrow> blocks g u t = (t < blocked l u))"

lemma implements_new: "implements now registry_new no_links"
  by (simp add: implements_def registry_new_def no_links_def registry_ok_def url_links_def
      session_links_def url_of_def session_of_def blocks_def)

lemma implements_later: "implements now g l \<Longrightarrow> now \<le> t \<Longrightarrow> implements t g l"
  by (auto simp: implements_def)

lemma implementsD:
  assumes "implements now g l"
  shows "registry_ok g" "link_urls l = url_links g" "link_sessions l = session_links g"
    and "now \<le> t \<Longrightarrow> (t < blocked l u) = blocks g u t"
  using assms by (simp_all add: implements_def)

lemma implements_add_url:
  assumes "implements now g l"
  shows "implements now (add_url now p u g) (links_do (now, AddUrl p u) l)"
proof -
  note i = implementsD [OF assms]
  note d = registry_okD(3) [OF i(1)]
  have b: "fst (is_demoted now u g) = (now < blocked l u)"
    using is_demoted_fst [OF d] i(4) [of now u] by simp
  obtain g1 where g1: "is_demoted now u g = (now < blocked l u, g1)"
    using b by (cases "is_demoted now u g") simp
  have in1: "inner g1 = inner g" using inner_is_demoted [of now u g] g1 by simp
  have bl: "now \<le> t \<Longrightarrow> blocks g1 v t = (t < blocked l v)" for v t
    using blocks_is_demoted [OF d, of now t u v] g1 i(4) by simp
  have ok: "registry_ok (add_url now p u g)" by (rule registry_ok_add_url [OF i(1)])
  show ?thesis
    unfolding implements_def using ok i(2,3) i(4) bl
    by (auto simp: add_url_def g1 in1 url_links_def session_links_def of_simps blocks_def split: if_splits)
qed

lemma implements_remove_url:
  assumes "implements now g l"
  shows "implements now (remove_url now p u g) (links_do (now, RemoveUrl p u) l)"
proof -
  note i = implementsD [OF assms]
  have "registry_ok (remove_url now p u g)" by (rule registry_ok_remove_url [OF i(1)])
  then show ?thesis
    unfolding implements_def using i(2,3) i(4)
    by (auto simp: remove_url_def url_links_def session_links_def of_simps of_Some blocks_def update_conv'
        split: option.splits if_splits)
qed

lemma implements_sessions:
  assumes "implements now g l"
  shows "implements now (set_session p b g) (links_do (now, SetSession p b) l)"
    and "implements now (clear_session_by_id p b g) (links_do (now, ClearById p b) l)"
proof -
  note i = implementsD [OF assms]
  have "registry_ok (set_session p b g)" by (rule registry_ok_set_session [OF i(1)])
  then show "implements now (set_session p b g) (links_do (now, SetSession p b) l)"
    unfolding implements_def using i(2,3) i(4)
    by (auto simp: set_session_def url_links_def session_links_def of_simps blocks_def split: if_splits)
  have "registry_ok (clear_session_by_id p b g)" by (rule registry_ok_clear_by_id [OF i(1)])
  then show "implements now (clear_session_by_id p b g) (links_do (now, ClearById p b) l)"
    unfolding implements_def using i(2,3) i(4)
    by (auto simp: clear_session_by_id_def url_links_def session_links_def of_simps of_Some blocks_def
        split: option.splits if_splits)
qed

lemma removeAll_Nil: "removeAll b xs = [] \<Longrightarrow> set xs \<subseteq> {b}"
  by (metis Diff_eq_empty_iff empty_set set_removeAll)

lemma implements_clear_by_bridge:
  assumes "implements now g l"
  shows "implements now (clear_session_by_bridge_id b g) (links_do (now, ClearByBridge b) l)"
proof -
  note i = implementsD [OF assms]
  note m = inner_cleared [OF registry_okD(1) [OF i(1)]]
  have "url_of (inner (clear_session_by_bridge_id b g)) p = url_of (inner g) p"
      "session_of (inner (clear_session_by_bridge_id b g)) p = session_of (inner g) p - {b}" for p
    unfolding url_of_def session_of_def m
    by (simp_all add: Let_def routes_empty_def removeAll_Nil split: option.split)
  moreover have "demoted_urls (clear_session_by_bridge_id b g) = demoted_urls g"
    by (simp add: clear_session_by_bridge_id_def)
  moreover have "registry_ok (clear_session_by_bridge_id b g)" by (rule registry_ok_clear_by_bridge [OF i(1)])
  ultimately show ?thesis
    unfolding implements_def using i(2,3) i(4) by (auto simp: url_links_def session_links_def blocks_def)
qed

lemma implements_migrate:
  assumes "implements now g l"
  shows "implements now (migrate_peer_id f t g) (links_do (now, Migrate f t) l)"
proof (cases "f = [] \<or> t = [] \<or> f = t")
  case True
  with assms show ?thesis by (auto simp: migrate_peer_id_def)
next
  case False
  then have n: "f \<noteq> []" "t \<noteq> []" "f \<noteq> t" by auto
  note i = implementsD [OF assms]
  have url: "url_of (inner (migrate_peer_id f t g)) p =
      (if p = f then {} else if p = t then url_of (inner g) f \<union> url_of (inner g) t else url_of (inner g) p)" and
    ses: "session_of (inner (migrate_peer_id f t g)) p =
      (if p = f then {} else if p = t then session_of (inner g) f \<union> session_of (inner g) t
       else session_of (inner g) p)" for p
  proof -
    let ?U = "\<lambda>p. url_of (inner (migrate_peer_id f t g)) p =
      (if p = f then {} else if p = t then url_of (inner g) f \<union> url_of (inner g) t else url_of (inner g) p)"
    let ?S = "\<lambda>p. session_of (inner (migrate_peer_id f t g)) p =
      (if p = f then {} else if p = t then session_of (inner g) f \<union> session_of (inner g) t
       else session_of (inner g) p)"
    have "?U p \<and> ?S p"
    proof (cases "map_of (inner g) f")
      case None
      with n show ?thesis by (simp add: migrate_peer_id_def of_Some)
    next
      case (Some old)
      note m = inner_migrated [OF n Some]
      show ?thesis
        using n Some unfolding url_of_def session_of_def m
        by (auto simp: merge_routes_def routes_default_def split: option.splits)
    qed
    then show "?U p" "?S p" by simp_all
  qed
  have r: "{(p, x). x \<in> (if p = f then {} else if p = t then A f \<union> A t else A p)} = renamed f t {(p, x). x \<in> A p}"
    for A :: "string \<Rightarrow> 'x set"
    using n by (auto simp: renamed_def image_iff split: if_splits)
  have "registry_ok (migrate_peer_id f t g)" by (rule registry_ok_migrate [OF i(1)])
  moreover have "demoted_urls (migrate_peer_id f t g) = demoted_urls g"
    by (simp add: migrate_peer_id_def split: option.split)
  ultimately show ?thesis
    unfolding implements_def using n i(2,3) i(4)
    by (simp add: blocks_def url_links_def session_links_def url ses r)
qed

lemma implements_do:
  assumes "implements now g l"
  shows "implements now (registry_do (now, op) g) (links_do (now, op) l)"
  using implements_add_url [OF assms] implements_remove_url [OF assms] implements_sessions [OF assms]
    implements_clear_by_bridge [OF assms] implements_migrate [OF assms]
  by (cases op) simp_all

lemma implements_run:
  assumes "implements now g l" "sorted (map fst ops)" "\<forall>t \<in> fst ` set ops. now \<le> t"
  shows "\<exists>later. implements later (fold registry_do ops g) (fold links_do ops l)"
  using assms
proof (induction ops arbitrary: now g l)
  case (Cons op ops)
  obtain t f where op: "op = (t, f)" by force
  have "implements t (registry_do op g) (links_do op l)"
    using implements_do [OF implements_later [OF Cons.prems(1)], of t f] Cons.prems(3) op by simp
  with Cons.IH Cons.prems(2) op show ?case by simp
qed auto

text \<open>An entry exists exactly where there is a link.\<close>

lemma peer_ids_links:
  assumes "registry_ok g"
  shows "set (peer_ids g) = fst ` url_links g \<union> fst ` session_links g" "distinct (peer_ids g)"
proof -
  note d = registry_okD [OF assms]
  have mem: "p \<in> set (peer_ids g) \<longleftrightarrow> map_of (inner g) p \<noteq> None" for p
    by (simp add: peer_ids_def map_of_eq_None_iff)
  have "map_of (inner g) p \<noteq> None \<longleftrightarrow> url_of (inner g) p \<noteq> {} \<or> session_of (inner g) p \<noteq> {}" for p
    using d(2) [of p] by (cases "map_of (inner g) p") (auto simp: of_Some entry_ok_def routes_empty_def)
  moreover have "p \<in> fst ` url_links g \<longleftrightarrow> url_of (inner g) p \<noteq> {}"
      "p \<in> fst ` session_links g \<longleftrightarrow> session_of (inner g) p \<noteq> {}" for p
    by (auto simp: url_links_def session_links_def image_iff)
  ultimately show "set (peer_ids g) = fst ` url_links g \<union> fst ` session_links g"
    by (intro set_eqI) (simp only: mem Un_iff)
  show "distinct (peer_ids g)" using d(1) by (simp add: peer_ids_def)
qed

section \<open>Demoted urls\<close>

text \<open>A url no peer lists stays out of the links while it is blocked.\<close>

definition shunned :: "nat \<Rightarrow> string \<Rightarrow> peer_links \<Rightarrow> bool" where
  "shunned lim u l \<longleftrightarrow> lim \<le> blocked l u \<and> u \<notin> snd ` link_urls l"

lemma shunned_do:
  assumes "shunned lim u l" "now < lim" "lim \<le> now + URL_DEMOTE_TTL"
  shows "shunned lim u (links_do (now, op) l)"
  using assms by (cases op) (auto simp: shunned_def renamed_def image_iff)

lemma shunned_run:
  assumes "shunned lim u l" "\<forall>t \<in> fst ` set ops. t < lim \<and> lim \<le> t + URL_DEMOTE_TTL"
  shows "shunned lim u (fold links_do ops l)"
  using assms
proof (induction ops arbitrary: l)
  case (Cons op ops)
  then show ?case using shunned_do [of lim u l "fst op" "snd op"] by simp
qed simp

end
