(* ===== verification/Peer_Pool_Laws.thy ===== *)
theory Peer_Pool_Laws
  imports Pool Registry_Laws Slot_Laws "HOL-Library.Multiset"
begin

text \<open>
  What every operation of the outbound pool keeps, whatever the network does: the registry's
  invariant, the configuration of the peers, and that a configured url is never demoted.  And what a fetch
  returns.
\<close>

section \<open>Stability\<close>

definition stable :: "('s \<Rightarrow> bool) \<Rightarrow> ('s, 'a) dbm \<Rightarrow> bool" where
  "stable P m \<longleftrightarrow> (\<forall>s. P s \<longrightarrow> P (snd (m s)))"

named_theorems stable_intros "what the operations of the pool keep"

lemma stableI: "(\<And>s. P s \<Longrightarrow> P (snd (m s))) \<Longrightarrow> stable P m"
  by (simp add: stable_def)

lemma stableD: "stable P m \<Longrightarrow> P s \<Longrightarrow> m s = (r, t) \<Longrightarrow> P t"
  by (fastforce simp: stable_def)

lemma stable_ret [stable_intros]: "stable P (ret x)"
  by (simp add: stable_def ret_def)

lemma stable_fail [stable_intros]: "stable P (fail e)"
  by (simp add: stable_def fail_def)

lemma stable_bnd [stable_intros]:
  assumes "stable P m" "\<And>x. stable P (f x)"
  shows "stable P (bnd m f)"
proof (rule stableI)
  fix s assume s: "P s"
  obtain r t where m: "m s = (r, t)" by force
  have "P t" using assms(1) s m by (rule stableD)
  then show "P (snd (bnd m f s))"
    using m assms(2) by (cases r) (simp_all add: bnd_def stable_def)
qed

lemma stable_on_result [stable_intros]:
  assumes "stable P m" "\<And>x. stable P (f x)" "\<And>e. stable P (g e)"
  shows "stable P (on_result m f g)"
proof (rule stableI)
  fix s assume s: "P s"
  obtain r t where m: "m s = (r, t)" by force
  have "P t" using assms(1) s m by (rule stableD)
  then show "P (snd (on_result m f g s))"
    using m assms(2,3) by (cases r) (simp_all add: on_result_def stable_def)
qed

lemma stable_if [stable_intros]: "stable P m \<Longrightarrow> stable P n \<Longrightarrow> stable P (if b then m else n)"
  by simp

lemma stable_option [stable_intros]:
  "stable P m \<Longrightarrow> (\<And>x. stable P (f x)) \<Longrightarrow> stable P (case v of None \<Rightarrow> m | Some x \<Rightarrow> f x)"
  by (cases v) simp_all

lemma stable_pair [stable_intros]: "(\<And>x y. stable P (f x y)) \<Longrightarrow> stable P (case v of (x, y) \<Rightarrow> f x y)"
  by (cases v) simp

lemma stable_let [stable_intros]: "stable P (f x) \<Longrightarrow> stable P (let y = x in f y)"
  by simp

lemma stable_fold_each [stable_intros]: "(\<And>b x. stable P (f b x)) \<Longrightarrow> stable P (fold_each f b xs)"
  by (induction xs arbitrary: b) (simp_all add: stable_intros)

lemma stable_for_each [stable_intros]: "(\<And>x. stable P (f x)) \<Longrightarrow> stable P (for_each xs f)"
  by (induction xs) (simp_all add: stable_intros)

lemma stable_get_pool [stable_intros]: "stable P (get_pool f)"
  by (simp add: stable_def get_pool_def)

lemma stable_peer_indices [stable_intros]: "stable P peer_indices"
  unfolding peer_indices_def by (rule stable_get_pool)

lemma stable_the_handle [stable_intros]: "stable P the_handle"
  by (auto simp: stable_def the_handle_def)

lemma stable_now_at [stable_intros]: "stable P (now_at net)"
  by (auto simp: stable_def now_at_def)

section \<open>The registry under the pool\<close>

definition registry_kept :: "string set \<Rightarrow> peer_registry \<Rightarrow> bool" where
  "registry_kept us g \<longleftrightarrow> registry_ok g \<and> (\<forall>u \<in> us. u \<notin> fst ` set (demoted_urls g))"

lemma demoted_is_demoted: "set (demoted_urls (snd (is_demoted now u g))) \<subseteq> set (demoted_urls g)"
  by (auto simp: is_demoted_def Let_def)

lemma demoted_add_url: "set (demoted_urls (add_url now p u g)) \<subseteq> set (demoted_urls g)"
  by (auto simp: add_url_def is_demoted_def Let_def)

lemma registry_kept_add_url [stable_intros]:
  assumes "registry_kept us g"
  shows "registry_kept us (add_url now p u g)"
proof -
  have "registry_ok (add_url now p u g)"
    using assms by (simp add: registry_kept_def registry_ok_add_url)
  moreover have "fst ` set (demoted_urls (add_url now p u g)) \<subseteq> fst ` set (demoted_urls g)"
    by (rule image_mono [OF demoted_add_url])
  ultimately show ?thesis using assms unfolding registry_kept_def by blast
qed

lemma registry_kept_migrate [stable_intros]: "registry_kept us g \<Longrightarrow> registry_kept us (migrate_peer_id f t g)"
  using registry_ok_migrate [of g f t]
  by (auto simp: registry_kept_def migrate_peer_id_def split: option.splits)

lemma registry_kept_set_session [stable_intros]: "registry_kept us g \<Longrightarrow> registry_kept us (set_session p b g)"
  using registry_ok_set_session [of g p b] by (auto simp: registry_kept_def set_session_def)

lemma registry_kept_clear [stable_intros]:
  "registry_kept us g \<Longrightarrow> registry_kept us (clear_session_by_id p b g)"
  "registry_kept us g \<Longrightarrow> registry_kept us (clear_session_by_bridge_id b g)"
  using registry_ok_clear_by_id [of g p b] registry_ok_clear_by_bridge [of g b]
  by (auto simp: registry_kept_def clear_session_by_id_def clear_session_by_bridge_id_def)

lemma registry_kept_remove_url:
  assumes "registry_kept us g" "u \<notin> us"
  shows "registry_kept us (remove_url now p u g)"
proof -
  have "registry_ok (remove_url now p u g)"
    using assms by (simp add: registry_kept_def registry_ok_remove_url)
  moreover have "fst ` set (demoted_urls (remove_url now p u g)) \<subseteq> insert u (fst ` set (demoted_urls g))"
    by (auto simp: remove_url_def dom_update [unfolded dom_map_of_conv_image_fst])
  ultimately show ?thesis using assms unfolding registry_kept_def by blast
qed

section \<open>Handles\<close>

definition handle_kept :: "string set \<Rightarrow> string \<Rightarrow> string \<Rightarrow> peer_handle \<times> shared \<Rightarrow> bool" where
  "handle_kept us name url = (\<lambda>(h, sh). ph_name h = name \<and> ph_url h = url \<and> registry_kept us (sh_registry sh))"

lemma stable_ask [stable_intros]: "stable (handle_kept us n u) (ask f)"
  by (auto simp: stable_def ask_def handle_kept_def)

lemma stable_on_handle [stable_intros]:
  "(\<And>h. ph_name (f h) = ph_name h \<and> ph_url (f h) = ph_url h) \<Longrightarrow> stable (handle_kept us n u) (on_handle f)"
  by (auto simp: stable_def on_handle_def handle_kept_def)

lemma stable_on_registry [stable_intros]:
  "(\<And>g. registry_kept us g \<Longrightarrow> registry_kept us (f g)) \<Longrightarrow> stable (handle_kept us n u) (on_registry f)"
  by (auto simp: stable_def on_registry_def handle_kept_def)

lemma stable_next_bridge [stable_intros]: "stable (handle_kept us n u) next_bridge"
  by (auto simp: stable_def next_bridge_def handle_kept_def)

lemma stable_connect [stable_intros]: "stable (handle_kept us n u) (connect net)"
  unfolding connect_def by (intro stable_intros) simp

lemma stable_drop [stable_intros]: "stable (handle_kept us n u) drop_client"
  unfolding drop_client_def by (intro stable_intros) simp

lemma stable_flag [stable_intros]: "stable (handle_kept us n u) (session_flag b)"
  unfolding session_flag_def by (intro stable_intros) simp

lemma stable_ensure [stable_intros]: "stable (handle_kept us n u) (ensure_sync_session net li)"
  unfolding ensure_sync_session_def Let_def by (intro stable_intros)

lemma stable_hello [stable_intros]: "stable (handle_kept us n u) (session_hello_in net p hello)"
  unfolding session_hello_in_def Let_def by (intro stable_intros) (auto intro!: stable_intros)

lemma stable_ended [stable_intros]: "stable (handle_kept us n u) (session_ended b)"
  unfolding session_ended_def by (intro stable_intros)

lemma stable_learn [stable_intros]: "stable (handle_kept us n u) (learn_identity net resp)"
  unfolding learn_identity_def Let_def
  by (intro stable_intros) (auto intro!: stable_intros split: option.split)

lemma stable_health [stable_intros]: "stable (handle_kept us n u) (health net li)"
  unfolding health_def by (intro stable_intros) simp

lemma stable_handle_get [stable_intros]: "stable (handle_kept us n u) (handle_get_final_slot net p t parts)"
  unfolding handle_get_final_slot_def by (intro stable_intros)

lemma stable_handle_stream [stable_intros]:
  "stable (handle_kept us n u) (handle_stream_final_slots net a b parts limit)"
  unfolding handle_stream_final_slots_def by (intro stable_intros)

section \<open>The pool\<close>

text \<open>The configuration of the peers, and the registry with their urls.\<close>

definition pool_kept :: "(string \<times> string) list \<Rightarrow> pool \<Rightarrow> bool" where
  "pool_kept cfgs pl \<longleftrightarrow> map (\<lambda>h. (ph_name h, ph_url h)) (pl_peers pl) = cfgs \<and>
     registry_kept (snd ` set cfgs) (sh_registry (pl_shared pl))"

lemma pool_kept_static: "pool_kept cfgs pl \<Longrightarrow> is_static url pl \<longleftrightarrow> url \<in> snd ` set cfgs"
  by (auto simp: pool_kept_def is_static_def image_iff)

lemma stable_on_peer [stable_intros]:
  assumes "\<And>us n u. stable (handle_kept us n u) m"
  shows "stable (pool_kept cfgs) (on_peer i m)"
proof (rule stableI)
  fix pl assume pl: "pool_kept cfgs pl"
  let ?h = "pl_peers pl ! i"
  obtain r h sh where m: "m (?h, pl_shared pl) = (r, h, sh)" by (metis prod_cases3)
  have "handle_kept (snd ` set cfgs) (ph_name ?h) (ph_url ?h) (?h, pl_shared pl)"
    using pl by (simp add: handle_kept_def pool_kept_def)
  then have "handle_kept (snd ` set cfgs) (ph_name ?h) (ph_url ?h) (h, sh)"
    by (rule stableD [OF assms _ m])
  then have h: "ph_name h = ph_name ?h" "ph_url h = ph_url ?h" "registry_kept (snd ` set cfgs) (sh_registry sh)"
    by (simp_all add: handle_kept_def)
  have "map (\<lambda>h. (ph_name h, ph_url h)) ((pl_peers pl)[i := h]) = map (\<lambda>h. (ph_name h, ph_url h)) (pl_peers pl)"
    using h(1,2) by (cases "i < length (pl_peers pl)") (simp_all add: map_update list_update_same_conv list_update_beyond)
  with pl h(3) show "pool_kept cfgs (snd (on_peer i m pl))"
    by (simp add: on_peer_def m pool_kept_def)
qed

lemma stable_on_dynamic [stable_intros]:
  assumes "\<And>us n u. stable (handle_kept us n u) m"
  shows "stable (pool_kept cfgs) (on_dynamic url m)"
proof (rule stableI)
  fix pl assume pl: "pool_kept cfgs pl"
  show "pool_kept cfgs (snd (on_dynamic url m pl))"
  proof (cases "map_of (pl_dynamic pl) url")
    case None
    with pl show ?thesis by (simp add: on_dynamic_def)
  next
    case (Some h0)
    obtain r h sh where m: "m (h0, pl_shared pl) = (r, h, sh)" by (metis prod_cases3)
    have "handle_kept (snd ` set cfgs) (ph_name h0) (ph_url h0) (h0, pl_shared pl)"
      using pl by (simp add: handle_kept_def pool_kept_def)
    then have "handle_kept (snd ` set cfgs) (ph_name h0) (ph_url h0) (h, sh)"
      by (rule stableD [OF assms _ m])
    with pl Some m show ?thesis by (simp add: on_dynamic_def pool_kept_def handle_kept_def)
  qed
qed

lemma stable_pool_ask [stable_intros]: "stable (pool_kept cfgs) (pool_ask f)"
  by (simp add: stable_def pool_ask_def pool_kept_def)

lemma stable_next_start [stable_intros]: "stable (pool_kept cfgs) (next_start n)"
  by (simp add: stable_def next_start_def pool_kept_def)

lemma stable_demote [stable_intros]: "stable (pool_kept cfgs) (demote_failed net p u)"
proof (rule stableI)
  fix pl assume pl: "pool_kept cfgs pl"
  show "pool_kept cfgs (snd (demote_failed net p u pl))"
    using pl pool_kept_static [OF pl, of u]
    by (auto simp: demote_failed_def ret_def pool_registry_def pool_kept_def intro: registry_kept_remove_url)
qed

lemma stable_peer_health [stable_intros]: "stable (pool_kept cfgs) (peer_health net i)"
  unfolding peer_health_def by (intro stable_intros)

lemma stable_best [stable_intros]: "stable (pool_kept cfgs) (best_remote_final_period net)"
  unfolding best_remote_final_period_def by (intro stable_intros)

lemma stable_maintain [stable_intros]: "stable (pool_kept cfgs) (maintain_round net backoff)"
  unfolding maintain_round_def by (intro stable_intros)

lemma stable_logical [stable_intros]: "stable (pool_kept cfgs) (logical_peer_ids net seed)"
  unfolding logical_peer_ids_def by (intro stable_intros)

lemma stable_new_dynamic [stable_intros]:
  "stable (pool_kept cfgs) (\<lambda>pl. case new_with_session net p u b (pl_shared pl) of
     (h, sh) \<Rightarrow> (Inr (), pl\<lparr>pl_dynamic := AList.update u h (pl_dynamic pl), pl_shared := sh\<rparr>))"
  by (auto simp: stable_def new_with_session_def pool_kept_def intro: stable_intros)

lemma stable_handle_for_url [stable_intros]: "stable (pool_kept cfgs) (handle_for_url net p u)"
  unfolding handle_for_url_def by (intro stable_intros)

lemma stable_unary [stable_intros]: "stable (pool_kept cfgs) (unary_via_url net p u period t parts)"
  unfolding unary_via_url_def by (intro stable_intros)

lemma stable_try_routes [stable_intros]: "stable (pool_kept cfgs) (try_routes net p period t parts rs reached e)"
  by (induction net p period t parts rs reached e rule: try_routes.induct)
    (simp_all add: stable_intros)

lemma stable_refresh [stable_intros]: "stable (pool_kept cfgs) (refresh_static net p is)"
  by (induction net p "is" rule: refresh_static.induct) (auto intro!: stable_intros)

lemma stable_fetch_logical [stable_intros]: "stable (pool_kept cfgs) (fetch_from_logical_peer net p period t parts)"
  unfolding fetch_from_logical_peer_def by (intro stable_intros)

lemma stable_fetch_peers [stable_intros]: "stable (pool_kept cfgs) (fetch_from_peers net period t parts ps tried e)"
  by (induction net period t parts ps tried e rule: fetch_from_peers.induct)
    (auto intro!: stable_intros split: option.split)

lemma stable_fetch [stable_intros]: "stable (pool_kept cfgs) (fetch_final_slot net seed period t parts)"
  unfolding fetch_final_slot_def by (intro stable_intros)

lemma stable_try_streams [stable_intros]: "stable (pool_kept cfgs) (try_streams net p a b parts limit us e)"
  by (induction net p a b parts limit us e rule: try_streams.induct) (auto intro!: stable_intros)

lemma stable_stream [stable_intros]: "stable (pool_kept cfgs) (stream_range_from_peer net p a b parts limit)"
  unfolding stream_range_from_peer_def by (intro stable_intros)

text \<open>A new pool.\<close>

lemma pool_handles_kept:
  "registry_kept us (sh_registry sh) \<Longrightarrow> pool_handles net cfgs sh = (hs, sh') \<Longrightarrow>
   map (\<lambda>h. (ph_name h, ph_url h)) hs = cfgs \<and> registry_kept us (sh_registry sh')"
proof (induction cfgs arbitrary: sh hs sh')
  case (Cons c cfgs)
  obtain n u where c: "c = (n, u)" by force
  let ?sh = "snd (new_with_session net n u True sh)"
  have k: "registry_kept us (sh_registry ?sh)"
    using Cons.prems(1) by (simp add: new_with_session_def registry_kept_add_url)
  obtain hs1 sh1 where r: "pool_handles net cfgs ?sh = (hs1, sh1)" by force
  with Cons.prems(2) c have "hs = fst (new_with_session net n u True sh) # hs1" "sh' = sh1"
    by (simp_all split: prod.splits)
  with Cons.IH [OF k r] c show ?case by (simp add: new_with_session_def handle_fresh_def)
qed simp

lemma pool_new_kept:
  assumes "registry_kept (snd ` set cfgs) (sh_registry sh)"
  shows "pool_kept cfgs (pool_new net cfgs li sh expected)"
proof -
  obtain hs sh' where r: "pool_handles net cfgs sh = (hs, sh')" by force
  from pool_handles_kept [OF assms r] r show ?thesis
    by (simp add: pool_new_def pool_kept_def)
qed

section \<open>Shuffling and logical peers\<close>

lemma mset_swap: "i < length xs \<Longrightarrow> j < length xs \<Longrightarrow> mset (list_swap xs i j) = mset xs"
  unfolding list_swap_def by (rule mset_swap)

lemma mset_shuffle_from: "i < length xs \<or> i = 0 \<Longrightarrow> mset (shuffle_from i seed xs) = mset xs"
proof (induction i arbitrary: seed xs)
  case (Suc i)
  let ?j = "unat (drop_bit 33 (lcg seed)) mod (Suc i + 1)"
  have i: "Suc i < length xs" using Suc.prems by simp
  have "?j < Suc i + 1" by (rule mod_less_divisor) simp
  then have j: "?j < length xs" using i by linarith
  have "length (list_swap xs (Suc i) ?j) = length xs" by (simp add: list_swap_def)
  then show ?case
    using Suc.IH [of "list_swap xs (Suc i) ?j" "lcg seed"] i mset_swap [OF i j]
    by (simp add: Let_def)
qed simp

lemma mset_shuffled: "mset (shuffled seed xs) = mset xs"
  unfolding shuffled_def by (rule mset_shuffle_from) auto

definition listed :: "string \<Rightarrow> peer_handle list \<Rightarrow> string list \<Rightarrow> string set" where
  "listed me hs registered =
     ((\<lambda>h. unwrap_or (ph_name h) (ph_remote_peer_id h)) ` set hs \<union> (set registered - known_aliases hs)) - {me, []}"

lemma fold_push_logical:
  assumes "distinct ids" "me \<notin> set ids" "[] \<notin> set ids"
  shows "distinct (fold (\<lambda>x ids. if skip x then ids else push_logical me (f x) ids) xs ids) \<and>
    set (fold (\<lambda>x ids. if skip x then ids else push_logical me (f x) ids) xs ids) =
      set ids \<union> (f ` {x \<in> set xs. \<not> skip x} - {me, []})"
  using assms
proof (induction xs arbitrary: ids)
  case (Cons x xs)
  let ?ids = "if skip x then ids else push_logical me (f x) ids"
  have "distinct ?ids" "me \<notin> set ?ids" "[] \<notin> set ?ids"
    using Cons.prems by (auto simp: push_logical_def)
  from Cons.IH [OF this] show ?case by (auto simp: push_logical_def)
qed simp

lemma logical_list_listed:
  "distinct (logical_list me hs registered) \<and> set (logical_list me hs registered) = listed me hs registered"
proof -
  let ?f = "\<lambda>h. unwrap_or (ph_name h) (ph_remote_peer_id h)"
  let ?ids = "fold (\<lambda>h. push_logical me (?f h)) hs []"
  have 1: "distinct ?ids \<and> set ?ids = ?f ` set hs - {me, []}"
    using fold_push_logical [of "[]" me "\<lambda>_. False" ?f hs] by simp
  then show ?thesis
    using fold_push_logical [of ?ids me "\<lambda>i. i \<in> known_aliases hs" "\<lambda>i. i" registered]
    by (auto simp: logical_list_def listed_def Let_def)
qed

lemma for_each_total:
  assumes "\<And>x s. fst (f x s) = Inr ()"
  shows "fst (for_each xs f s) = Inr ()"
proof (induction xs arbitrary: s)
  case (Cons x xs)
  obtain t where "f x s = (Inr (), t)" using assms [of x s] by (metis prod.collapse)
  with Cons show ?case by (simp add: bnd_def)
qed (simp add: ret_def)

lemma logical_peer_ids_run:
  "\<exists>ids pl'. logical_peer_ids net seed pl = (Inr ids, pl') \<and> distinct ids \<and>
     set ids = listed (li_peer_id (pl_local pl')) (pl_peers pl') (peer_ids (sh_registry (pl_shared pl')))"
proof -
  let ?m = "for_each [0..<length (pl_peers pl)] (\<lambda>i. on_result (peer_health net i) (\<lambda>_. ret ()) (\<lambda>_. ret ()))"
  have "fst (?m pl) = Inr ()"
    by (rule for_each_total) (auto simp: on_result_def ret_def split: prod.splits sum.splits)
  then obtain pl' where m: "?m pl = (Inr (), pl')" by (metis prod.collapse)
  let ?ids = "logical_list (li_peer_id (pl_local pl')) (pl_peers pl') (peer_ids (sh_registry (pl_shared pl')))"
  have "logical_peer_ids net seed pl = (Inr (shuffled seed ?ids), pl')"
    using m by (simp add: logical_peer_ids_def peer_indices_def get_pool_def bnd_def)
  moreover have "distinct (shuffled seed ?ids)" "set (shuffled seed ?ids) = set ?ids"
    using mset_shuffled [of seed ?ids] logical_list_listed by (metis mset_eq_imp_distinct_iff, metis set_mset_mset)
  ultimately show ?thesis using logical_list_listed by blast
qed

section \<open>Fetching\<close>

lemma on_result_Inr:
  assumes "on_result m f g s = (Inr y, t)"
  obtains x u where "m s = (Inr x, u)" "f x u = (Inr y, t)"
  | e u where "m s = (Inl e, u)" "g e u = (Inr y, t)"
  using assms by (auto simp: on_result_def split: prod.splits sum.splits)

lemma try_routes_final:
  "try_routes net p period t parts rs reached e pl = (Inr (Some r), pl') \<Longrightarrow> fr_final_known r"
proof (induction net p period t parts rs reached e arbitrary: pl rule: try_routes.induct)
  case (1 net peer period thread parts reached last_err)
  then show ?case by (auto simp: ret_def fail_def split: if_splits option.splits)
next
  case (2 net peer period thread parts url rest reached last_err)
  from 2(3) show ?case
    by (simp only: try_routes.simps)
      (erule on_result_Inr; use 2(1,2) in \<open>fastforce simp: ret_def bnd_Inr split: if_splits\<close>)
next
  case (3 net peer period thread parts b rest reached last_err)
  from 3(3) show ?case
    by (simp only: try_routes.simps)
      (erule on_result_Inr; use 3(1,2) in \<open>fastforce simp: ret_def split: if_splits\<close>)
qed

lemma fetch_peers_final:
  "fetch_from_peers net period t parts ps tried e pl = (Inr (Some r), pl') \<Longrightarrow> fr_final_known r"
proof (induction net period t parts ps tried e arbitrary: pl rule: fetch_from_peers.induct)
  case (1 net period thread parts tried last_err)
  then show ?case by (auto simp: ret_def fail_def split: option.splits)
next
  case (2 net period thread parts peer rest tried last_err)
  show ?case
  proof (cases "peer \<in> tried")
    case True
    with 2 show ?thesis by simp
  next
    case False
    from 2(5) False have "on_result (fetch_from_logical_peer net peer period thread parts)
        (\<lambda>r. case r of
               Some resp \<Rightarrow> if fr_final_known resp then ret (Some resp)
                 else fetch_from_peers net period thread parts rest (insert peer tried) last_err
             | None \<Rightarrow> fetch_from_peers net period thread parts rest (insert peer tried) last_err)
        (\<lambda>e. fetch_from_peers net period thread parts rest (insert peer tried) (Some e)) pl = (Inr (Some r), pl')"
      by simp
    then show ?thesis
      by (rule on_result_Inr)
        (use 2(2-4) False in \<open>fastforce simp: ret_def split: option.splits if_splits\<close>)+
  qed
qed

lemma fetch_final:
  "fetch_final_slot net seed period t parts pl = (Inr (Some r), pl') \<Longrightarrow> fr_final_known r"
  by (auto simp: fetch_final_slot_def bnd_Inr ret_def split: if_splits intro: fetch_peers_final)

section \<open>The network of a peer\<close>

text \<open>Only a health call changes what a handle remembers of the peer's health.\<close>

definition remembers :: "(health_response \<times> nat) option \<Rightarrow> peer_handle \<times> shared \<Rightarrow> bool" where
  "remembers x = (\<lambda>(h, sh). ph_last_health h = x)"

named_theorems remember_intros

lemma remember_ask [remember_intros]: "stable (remembers x) (ask f)"
  by (auto simp: stable_def ask_def remembers_def)

lemma remember_on_handle [remember_intros]:
  "(\<And>h. ph_last_health (f h) = ph_last_health h) \<Longrightarrow> stable (remembers x) (on_handle f)"
  by (auto simp: stable_def on_handle_def remembers_def)

lemma remember_on_registry [remember_intros]: "stable (remembers x) (on_registry f)"
  by (auto simp: stable_def on_registry_def remembers_def)

lemma remember_next_bridge [remember_intros]: "stable (remembers x) next_bridge"
  by (auto simp: stable_def next_bridge_def remembers_def)

lemma remember_steps [remember_intros]:
  "stable (remembers x) (connect net)" "stable (remembers x) drop_client" "stable (remembers x) (session_flag b)"
  unfolding connect_def drop_client_def session_flag_def
  by (intro stable_intros remember_intros; simp)+

lemma remember_ensure [remember_intros]: "stable (remembers x) (ensure_sync_session net li)"
  unfolding ensure_sync_session_def Let_def
  by (intro stable_ret stable_bnd stable_on_result stable_if stable_the_handle remember_intros)

lemma remember_get [remember_intros]: "stable (remembers x) (handle_get_final_slot net p t parts)"
  unfolding handle_get_final_slot_def
  by (intro stable_ret stable_fail stable_bnd stable_on_result stable_the_handle remember_intros)

lemma health_remembered:
  assumes "health net li (h, sh) = (Inr resp, h', sh')"
  shows "\<exists>at. ph_last_health h' = Some (resp, at)"
proof -
  let ?cached = "case ph_last_health h of
      Some (resp, at) \<Rightarrow> if clock net (sh_tick sh) - at < HEALTH_CACHE_TTL then Some resp else None | None \<Rightarrow> None"
  have ensured: "ph_last_health h2 = ph_last_health h1"
    if "ensure_sync_session net li (h1, sh1) = (Inr (), h2, sh2)" for h1 sh1 h2 sh2
    using stableD [OF remember_ensure _ that] by (simp add: remembers_def)
  show ?thesis
  proof (cases ?cached)
    case (Some r)
    then obtain at where "ph_last_health h = Some (r, at)"
      by (auto split: option.splits prod.splits if_splits)
    moreover have "bnd (ensure_sync_session net li) (\<lambda>_. ret r) (h, sh) = (Inr resp, h', sh')"
      using assms Some by (simp add: health_def the_handle_def now_at_def bnd_def)
    ultimately show ?thesis using ensured by (auto simp: bnd_Inr ret_def)
  next
    case None
    then have "bnd (connect net) (\<lambda>_.
         on_result (ask (\<lambda>t. rpc_health net t (ph_url h) (client_health_request li)))
           (\<lambda>resp. bnd (learn_identity net resp) (\<lambda>_.
             bnd (now_at net) (\<lambda>at.
             bnd (on_handle (\<lambda>h. h\<lparr>ph_last_health := Some (resp, at)\<rparr>)) (\<lambda>_.
             bnd (ensure_sync_session net li) (\<lambda>_. ret resp)))))
           (\<lambda>e. bnd drop_client (\<lambda>_. fail e))) (h, sh) = (Inr resp, h', sh')"
      using assms by (simp add: health_def the_handle_def now_at_def bnd_def)
    then obtain u where "on_result (ask (\<lambda>t. rpc_health net t (ph_url h) (client_health_request li)))
           (\<lambda>resp. bnd (learn_identity net resp) (\<lambda>_.
             bnd (now_at net) (\<lambda>at.
             bnd (on_handle (\<lambda>h. h\<lparr>ph_last_health := Some (resp, at)\<rparr>)) (\<lambda>_.
             bnd (ensure_sync_session net li) (\<lambda>_. ret resp)))))
           (\<lambda>e. bnd drop_client (\<lambda>_. fail e)) u = (Inr resp, h', sh')"
      by (auto simp: bnd_Inr)
    then show ?thesis
    proof (rule on_result_Inr)
      fix r v assume "bnd (learn_identity net r) (\<lambda>_. bnd (now_at net) (\<lambda>at.
             bnd (on_handle (\<lambda>h. h\<lparr>ph_last_health := Some (r, at)\<rparr>)) (\<lambda>_.
             bnd (ensure_sync_session net li) (\<lambda>_. ret r)))) v = (Inr resp, h', sh')"
      then show ?thesis
        using ensured by (auto simp: bnd_Inr ret_def on_handle_def now_at_def)
    next
      fix e v assume "bnd drop_client (\<lambda>_. fail e) v = (Inr resp, h', sh')"
      then show ?thesis by (auto simp: bnd_Inr fail_def)
    qed
  qed
qed

lemma unary_network:
  assumes "unary_via_url net p url period t parts pl = (Inr r, pl')" "pl_expected_network pl \<noteq> []"
  shows "\<exists>h resp at. map_of (pl_dynamic pl') url = Some h \<and> ph_last_health h = Some (resp, at) \<and>
    hr_network resp = pl_expected_network pl"
proof -
  let ?expected = "pl_expected_network pl"
  obtain pl1 where h: "handle_for_url net p url pl = (Inr (), pl1)"
      "on_dynamic url (handle_get_final_slot net period t parts) pl1 = (Inr r, pl')"
    using assms(1) by (auto simp: unary_via_url_def bnd_Inr)
  let ?rest = "bnd (get_pool pl_local) (\<lambda>li. bnd (on_dynamic url (health net li)) (\<lambda>h.
          if hr_network h \<noteq> ?expected
          then fail (Other (''peer '' @ p @ '' network mismatch: '' @ hr_network h))
          else ret ()))"
  have "\<exists>pl0. pl_expected_network pl0 = ?expected \<and> ?rest pl0 = (Inr (), pl1)"
  proof (cases "is_some (map_of (pl_dynamic pl) url)")
    case True
    then show ?thesis
      by (intro exI [of _ pl]) (use h(1) assms(2) in \<open>simp add: handle_for_url_def get_pool_def bnd_def ret_def\<close>)
  next
    case False
    obtain h0 sh0 where n: "new_with_session net p url False (pl_shared pl) = (h0, sh0)" by force
    show ?thesis
      by (intro exI [of _ "pl\<lparr>pl_dynamic := AList.update url h0 (pl_dynamic pl), pl_shared := sh0\<rparr>"])
        (use False n h(1) assms(2) in \<open>simp add: handle_for_url_def get_pool_def bnd_def ret_def\<close>)
  qed
  then obtain pl0 where pl0: "?rest pl0 = (Inr (), pl1)" by blast
  obtain resp where "on_dynamic url (health net (pl_local pl0)) pl0 = (Inr resp, pl1)" "hr_network resp = ?expected"
    using pl0 by (auto simp: bnd_Inr get_pool_def ret_def fail_def split: if_splits)
  then obtain h1 at where h1: "map_of (pl_dynamic pl1) url = Some h1" "ph_last_health h1 = Some (resp, at)"
      "hr_network resp = ?expected"
    by (auto simp: on_dynamic_def update_conv' split: option.splits prod.splits dest!: health_remembered)
  then obtain h2 sh2 where g: "handle_get_final_slot net period t parts (h1, pl_shared pl1) = (Inr r, h2, sh2)"
      "map_of (pl_dynamic pl') url = Some h2"
    using h(2) by (auto simp: on_dynamic_def update_conv' split: prod.splits)
  have "remembers (Some (resp, at)) (h2, sh2)"
    using stableD [OF remember_get _ g(1)] h1(2) by (simp add: remembers_def)
  with g(2) h1(3) show ?thesis by (auto simp: remembers_def)
qed

end
