(* ===== verification/Session_Laws.thy ===== *)
theory Session_Laws
  imports Session
begin

text \<open>
  The invariant of a session bridge: the pending requests are exactly those whose channel is
  still open, every correlation id in use was drawn before, and a request that has returned is
  neither pending nor waited on.
\<close>

definition bridge_ok :: "u64 \<times> session_bridge \<Rightarrow> bool" where
  "bridge_ok = (\<lambda>(n, b).
     (\<forall>c. c \<in> set (pending b) \<longleftrightarrow> channel b c = Some Waiting) \<and>
     (\<forall>c. channel b c \<noteq> None \<longrightarrow> c < n) \<and>
     (\<forall>c \<in> fst ` set (returned b). c < n \<and> channel b c = None) \<and>
     distinct (map fst (returned b)))"

lemma bridge_okI:
  assumes "\<And>c. c \<in> set (pending b) \<longleftrightarrow> channel b c = Some Waiting"
    and "\<And>c. channel b c \<noteq> None \<Longrightarrow> c < n"
    and "\<And>c. c \<in> fst ` set (returned b) \<Longrightarrow> c < n \<and> channel b c = None"
    and "distinct (map fst (returned b))"
  shows "bridge_ok (n, b)"
  using assms by (simp add: bridge_ok_def)

lemma bridge_okD:
  assumes "bridge_ok (n, b)"
  shows "c \<in> set (pending b) \<longleftrightarrow> channel b c = Some Waiting"
    and "channel b c \<noteq> None \<Longrightarrow> c < n"
    and "c \<in> fst ` set (returned b) \<Longrightarrow> c < n \<and> channel b c = None"
    and "distinct (map fst (returned b))"
  using assms by (auto simp: bridge_ok_def)

lemma bridge_ok_new [simp]: "bridge_ok (n, bridge_new i p)"
  by (simp add: bridge_ok_def bridge_new_def)

text \<open>Handing a result to a caller keeps the invariant.\<close>

lemma bridge_ok_give_back:
  assumes "bridge_ok (n, b)" "channel b c \<noteq> None"
  shows "bridge_ok (n, give_back c r (forget c b))"
proof (rule bridge_okI)
  fix d
  show "d \<in> set (pending (give_back c r (forget c b))) \<longleftrightarrow>
      channel (give_back c r (forget c b)) d = Some Waiting"
    using bridge_okD(1) [OF assms(1), of d] by (auto simp: give_back_def forget_def)
  show "d < n" if "channel (give_back c r (forget c b)) d \<noteq> None"
    using that bridge_okD(2) [OF assms(1), of d] by (auto simp: give_back_def forget_def split: if_splits)
  show "d < n \<and> channel (give_back c r (forget c b)) d = None"
    if "d \<in> fst ` set (returned (give_back c r (forget c b)))"
  proof (cases "d = c")
    case True
    then show ?thesis using bridge_okD(2) [OF assms] by (simp add: give_back_def forget_def)
  next
    case False
    then have "d \<in> fst ` set (returned b)" using that by (auto simp: give_back_def forget_def)
    then show ?thesis using bridge_okD(3) [OF assms(1)] False by (simp add: give_back_def forget_def)
  qed
  have "c \<notin> fst ` set (returned b)" using bridge_okD(3) [OF assms(1), of c] assms(2) by blast
  then show "distinct (map fst (returned (give_back c r (forget c b))))"
    using bridge_okD(4) [OF assms(1)] by (simp add: give_back_def forget_def)
qed

lemma bridge_ok_later: "bridge_ok (n, b) \<Longrightarrow> n \<le> m \<Longrightarrow> bridge_ok (m, b)"
  by (auto simp: bridge_ok_def dest: order.strict_trans2)

lemma forget_idle: "c \<notin> set (pending b) \<Longrightarrow> forget c b = b"
  by (simp add: forget_def)

lemma bridge_ok_do:
  assumes "bridge_ok (n, b)" "n < n + 1"
  shows "bridge_ok (bridge_do st (n, b))"
proof (cases st)
  case (Request p t parts sent)
  let ?b1 = "b\<lparr>pending := n # pending b, channel := (channel b)(n := Some Waiting)\<rparr>"
  have n: "n \<notin> fst ` set (returned b)"
    using bridge_okD(3) [OF assms(1), of n] by blast
  have less: "d < n \<Longrightarrow> d < n + 1" for d
    using assms(2) by (rule order.strict_trans[rotated])
  have ok: "bridge_ok (n + 1, ?b1)"
  proof (rule bridge_okI)
    fix d
    show "d \<in> set (pending ?b1) \<longleftrightarrow> channel ?b1 d = Some Waiting"
      using bridge_okD(1) [OF assms(1), of d] by simp
    show "d < n + 1" if "channel ?b1 d \<noteq> None"
      using that bridge_okD(2) [OF assms(1), of d] assms(2) less by (cases "d = n") simp_all
    show "d < n + 1 \<and> channel ?b1 d = None" if "d \<in> fst ` set (returned ?b1)"
      using that bridge_okD(3) [OF assms(1), of d] n less by auto
    show "distinct (map fst (returned ?b1))" using bridge_okD(4) [OF assms(1)] by simp
  qed
  show ?thesis
  proof (cases sent)
    case True
    with ok show ?thesis using Request by (simp add: open_request_def bridge_ok_def)
  next
    case False
    with bridge_ok_give_back [OF ok, of n] show ?thesis
      using Request by (simp add: open_request_def)
  qed
next
  case OtherBridge
  with assms show ?thesis using bridge_ok_later [OF assms(1), of "n + 1"] by simp
next
  case (Complete i r)
  with assms(1) show ?thesis by (auto simp: complete_def forget_def bridge_ok_def)
next
  case FailPending
  with assms(1) show ?thesis by (auto simp: fail_pending_def bridge_ok_def)
next
  case (Wake c)
  show ?thesis
  proof (cases "\<exists>r. channel b c = Some (Answered r) \<or> channel b c = Some Cancelled")
    case True
    then have "c \<notin> set (pending b)" using bridge_okD(1) [OF assms(1), of c] by auto
    with True bridge_ok_give_back [OF assms(1), of c] show ?thesis
      using Wake by (auto simp: wake_def forget_idle)
  next
    case False
    with assms(1) Wake show ?thesis by (auto simp: wake_def split: option.splits oneshot.splits)
  qed
next
  case (TimeOut c)
  with assms(1) bridge_ok_give_back [OF assms(1), of c] show ?thesis
    by (auto simp: time_out_def split: option.splits oneshot.splits)
qed

lemma fst_bridge_do: "fst (bridge_do st (n, b)) = n \<or> fst (bridge_do st (n, b)) = n + 1"
  by (cases st) simp_all

lemma bridge_ok_run:
  assumes "bridge_ok s" "unat (fst s) + length steps < 2 ^ 64"
  shows "bridge_ok (bridge_run steps s)"
  using assms
proof (induction steps arbitrary: s)
  case (Cons st steps)
  obtain n b where s: "s = (n, b)" by force
  have n: "unat (n + 1) = unat n + 1"
    using Cons.prems(2) s by (simp add: unat_plus_simple [THEN iffD1] unat_word_ariths)
  then have "n < n + 1" by (simp add: word_less_nat_alt)
  with Cons.prems(1) s have "bridge_ok (bridge_do st s)" by (simp add: bridge_ok_do)
  moreover have "unat (fst (bridge_do st s)) + length steps < 2 ^ 64"
    using Cons.prems(2) s n fst_bridge_do [of st n b] by auto
  ultimately show ?case using Cons.IH by (simp add: bridge_run_def)
qed (simp add: bridge_run_def)

section \<open>Where answers come from\<close>

text \<open>An answer a channel holds, or a caller got, was completed while its request was pending.\<close>

definition completed_in :: "bridge_step list \<Rightarrow> u64 \<times> session_bridge \<Rightarrow> u64 \<Rightarrow> final_slot_response \<Rightarrow> bool" where
  "completed_in steps s c r \<longleftrightarrow>
     (\<exists>pre post. steps = pre @ Complete c r # post \<and> c \<in> set (pending (snd (bridge_run pre s))))"

lemma completed_in_snoc: "completed_in steps s c r \<Longrightarrow> completed_in (steps @ [st]) s c r"
  by (force simp: completed_in_def)

lemma completed_in_now:
  "c \<in> set (pending (snd (bridge_run steps s))) \<Longrightarrow> completed_in (steps @ [Complete c r]) s c r"
  by (force simp: completed_in_def)

lemma bridge_run_snoc: "bridge_run (steps @ [st]) s = bridge_do st (bridge_run steps s)"
  by (simp add: bridge_run_def)

lemma answers_completed:
  assumes "channel (snd s) = Map.empty" "returned (snd s) = []"
  shows "(channel (snd (bridge_run steps s)) c = Some (Answered r) \<longrightarrow> completed_in steps s c r) \<and>
    ((c, Inr r) \<in> set (returned (snd (bridge_run steps s))) \<longrightarrow> completed_in steps s c r)"
proof (induction steps rule: rev_induct)
  case Nil
  with assms show ?case by (simp add: bridge_run_def)
next
  case (snoc st steps)
  obtain n b where b: "bridge_run steps s = (n, b)" by force
  have IH: "channel b c = Some (Answered r) \<Longrightarrow> completed_in (steps @ [st]) s c r"
      "(c, Inr r) \<in> set (returned b) \<Longrightarrow> completed_in (steps @ [st]) s c r"
    using snoc.IH b by (simp_all add: completed_in_snoc)
  have now: "st = Complete c r \<Longrightarrow> c \<in> set (pending b) \<Longrightarrow> completed_in (steps @ [st]) s c r"
    using completed_in_now [of c steps s r] b by simp
  show ?case unfolding bridge_run_snoc b
    using IH now
    by (cases st) (auto simp: open_request_def give_back_def forget_def complete_def fail_pending_def
        wake_def time_out_def Let_def split: if_splits option.splits oneshot.splits)
qed

section \<open>Closing a session\<close>

lemma wake_resolved:
  assumes "\<forall>c. channel b c \<noteq> Some Waiting"
  shows "channel (wake c b) = (channel b)(c := None)"
  using assms by (auto simp: wake_def give_back_def split: option.splits oneshot.splits)

lemma wake_all:
  assumes "\<forall>c. channel b c \<noteq> Some Waiting"
  shows "channel (snd (bridge_run (map Wake cs) (n, b))) = (channel b) |` (- set cs)"
  using assms
proof (induction cs arbitrary: b)
  case Nil
  then show ?case by (auto simp: bridge_run_def restrict_map_def)
next
  case (Cons c cs)
  have "\<forall>d. channel (wake c b) d \<noteq> Some Waiting" using Cons.prems by (simp add: wake_resolved)
  from Cons.IH [OF this] show ?case
    using wake_resolved [OF Cons.prems, of c]
    by (auto simp: bridge_run_def restrict_map_def)
qed

lemma fail_pending_resolves:
  "bridge_ok (n, b) \<Longrightarrow> \<forall>c. channel (fail_pending b) c \<noteq> Some Waiting"
  by (auto simp: fail_pending_def bridge_ok_def)

end
