(* ===== verification/Service_Laws.thy ===== *)
theory Service_Laws
  imports Service Exec_Laws Listings
begin

text \<open>
  What the peer service ships: every row that is well-formed survives the conversion to its
  peer message and back, so that the lists of a response are read by the receiver as the rows of
  the server's own listings.
\<close>

section \<open>Rows over the wire\<close>

locale peer_rows =
  fixes ok :: bool
    and to_pb :: "'a \<Rightarrow> 'm option"
    and from_pb :: "'m \<Rightarrow> codec_error + 'a"
    and wf :: "'a \<Rightarrow> bool"
  assumes shipped: "ok \<Longrightarrow> wf x \<Longrightarrow> \<exists>m. to_pb x = Some m \<and> from_pb m = Inr x"
begin

lemma map_filter_shipped: "ok \<Longrightarrow> \<forall>x \<in> set xs. wf x \<Longrightarrow> decode_all from_pb (List.map_filter to_pb xs) = xs"
proof (induction xs)
  case (Cons x xs)
  then obtain m where "to_pb x = Some m" "from_pb m = Inr x" using shipped [of x] by auto
  with Cons show ?case by (simp add: decode_all_def)
qed (simp add: decode_all_def)

lemma those_shipped:
  "ok \<Longrightarrow> \<forall>x \<in> set xs. wf x \<Longrightarrow> \<exists>ms. those (map to_pb xs) = Some ms \<and> decode_all from_pb ms = xs"
proof (induction xs)
  case (Cons x xs)
  then obtain ms where "those (map to_pb xs) = Some ms" "decode_all from_pb ms = xs" by auto
  moreover obtain m where "to_pb x = Some m" "from_pb m = Inr x"
    using Cons.prems shipped [of x] by auto
  ultimately show ?case by (simp add: decode_all_def)
qed (simp add: decode_all_def)

lemma ship_all_shipped:
  assumes ok "\<forall>x \<in> set xs. wf x"
  obtains ms where "ship_all to_pb xs = Some (Inr ms)" "decode_all from_pb ms = xs"
  using those_shipped [OF assms] by (auto simp: ship_all_def)

end

text \<open>A row that goes through its stored bytes.\<close>

lemma wire_dec: "wire_ok w \<Longrightarrow> w_dec w (w_enc w p) = Some p"
  by (simp add: wire_ok_def)

interpretation shipped_block: peer_rows "wires_ok W" "\<lambda>b. res_ok (block_to_peer_pb W b)"
    "block_from_peer_pb W" "wf_block W"
  for W :: "('v, 'x) wires_scheme"
proof
  fix x assume "wires_ok W" "wf_block W x"
  then obtain p where "block_to_peer_pb W x = Inr p" "block_from_peer_pb W p = Inr x"
    using block_pb_round [of W x] by (auto simp: wires_okD)
  then show "\<exists>m. res_ok (block_to_peer_pb W x) = Some m \<and> block_from_peer_pb W m = Inr x" by simp
qed

interpretation shipped_endorsement: peer_rows "wires_ok W" "\<lambda>e. res_ok (endorsement_to_peer_pb W e)"
    "endorsement_from_peer_pb W" "wf_endorsement W"
  for W :: "('v, 'x) wires_scheme"
proof
  fix x assume "wires_ok W" "wf_endorsement W x"
  then obtain p where "endorsement_to_pb W x = Inr p" "endorsement_from_pb W p = Inr x"
    using endorsement_pb_round [of W x] by (auto simp: wires_okD)
  then show "\<exists>m. res_ok (endorsement_to_peer_pb W x) = Some m \<and> endorsement_from_peer_pb W m = Inr x"
    by (simp add: endorsement_to_peer_pb_def endorsement_from_peer_pb_def)
qed

interpretation shipped_operation: peer_rows "wires_ok W" "\<lambda>p. res_ok (operation_to_peer_pb W p)"
    "operation_from_peer_pb W" "wf_operation W"
  for W :: "('v, 'x) wires_scheme"
proof
  fix x assume a: "wires_ok W" "wf_operation W x"
  then obtain v where v: "encode_operation W x = Inr v" "decode_operation W v = Inr x"
    using operation_codec.enc_dec by blast
  obtain p where "v = w_enc (wr_operation W) p"
    using v(1) by (auto simp: encode_operation_def rbind_eq_Inr)
  with v a show "\<exists>m. res_ok (operation_to_peer_pb W x) = Some m \<and> operation_from_peer_pb W m = Inr x"
    by (simp add: operation_to_peer_pb_def operation_from_peer_pb_def wires_okD)
qed

interpretation shipped_event: peer_rows "wires_ok W" "\<lambda>e. res_ok (sc_event_to_peer_pb W e)"
    "sc_event_from_peer_pb W" "wf_sc_event W"
  for W :: "('v, 'x) wires_scheme"
proof
  fix x assume a: "wires_ok W" "wf_sc_event W x"
  then obtain v where v: "encode_sc_event W x = Inr v" "decode_sc_event W v = Inr x"
    using sc_event_codec.enc_dec by blast
  obtain p where "v = w_enc (wr_sc_event W) p"
    using v(1) by (auto simp: encode_sc_event_def rbind_eq_Inr)
  with v a show "\<exists>m. res_ok (sc_event_to_peer_pb W x) = Some m \<and> sc_event_from_peer_pb W m = Inr x"
    by (simp add: sc_event_to_peer_pb_def sc_event_from_peer_pb_def wires_okD)
qed

interpretation shipped_transfer: peer_rows "wires_ok W" "transfer_to_peer_pb W"
    "transfer_from_peer_pb W" wf_transfer
  for W :: "('v, 'x) wires_scheme"
proof
  fix x assume a: "wires_ok W" "wf_transfer x"
  then have "decode_transfer W (encode_transfer W x) = Inr x"
    using transfer_codec.enc_dec [of W x] by auto
  moreover obtain p where "encode_transfer W x = w_enc (wr_transfer W) p" by (simp add: encode_transfer_def)
  ultimately show "\<exists>m. transfer_to_peer_pb W x = Some m \<and> transfer_from_peer_pb W m = Inr x"
    using a by (simp add: transfer_to_peer_pb_def transfer_from_peer_pb_def wires_okD wire_dec)
qed

interpretation shipped_async: peer_rows "wires_ok W" "async_msg_to_peer_pb W"
    "async_msg_from_peer_pb W" "wf_async_msg W"
  for W :: "('v, 'x) wires_scheme"
proof
  fix x assume a: "wires_ok W" "wf_async_msg W x"
  then have "decode_async_msg W (encode_async_msg W x) = Inr x"
    using async_msg_codec.enc_dec [of W x] by auto
  moreover obtain p where "encode_async_msg W x = w_enc (wr_async_msg W) p" by (simp add: encode_async_msg_def)
  ultimately show "\<exists>m. async_msg_to_peer_pb W x = Some m \<and> async_msg_from_peer_pb W m = Inr x"
    using a by (simp add: async_msg_to_peer_pb_def async_msg_from_peer_pb_def wires_okD wire_dec)
qed

interpretation shipped_call: peer_rows "wires_ok W" "deferred_call_to_peer_pb W"
    "deferred_call_from_peer_pb W" "wf_deferred_call W"
  for W :: "('v, 'x) wires_scheme"
proof
  fix x assume a: "wires_ok W" "wf_deferred_call W x"
  then have "decode_deferred_call W (encode_deferred_call W x) = Inr x"
    using deferred_call_codec.enc_dec [of W x] by auto
  moreover obtain p where "encode_deferred_call W x = w_enc (wr_deferred_call W) p"
    by (simp add: encode_deferred_call_def)
  ultimately show "\<exists>m. deferred_call_to_peer_pb W x = Some m \<and> deferred_call_from_peer_pb W m = Inr x"
    using a by (simp add: deferred_call_to_peer_pb_def deferred_call_from_peer_pb_def wires_okD wire_dec)
qed

section \<open>The listings the service reads\<close>

lemma prefix_rows_total:
  assumes "\<And>k v. (k, v) \<in> set rows \<Longrightarrow> \<exists>x. f k v = Inr x \<and> P x"
  shows "\<exists>xs. prefix_rows p f (map Inr rows) = Inr xs \<and> (\<forall>x \<in> set xs. P x)"
  using assms
proof (induction rows)
  case (Cons r rows)
  obtain k v where "r = (k, v)" by (cases r)
  moreover from this obtain x where "f k v = Inr x" "P x" using Cons.prems by auto
  moreover obtain xs where "prefix_rows p f (map Inr rows) = Inr xs" "\<forall>x \<in> set xs. P x"
    using Cons by auto
  ultimately show ?case by simp
qed simp

lemma last_slot_loop_total:
  assumes "db_ok E R" "\<And>v x. dec v = Inr x \<Longrightarrow> P x" "\<forall>x \<in> set out. P x"
  shows "\<exists>xs. last_slot_loop E s prim dec prefix limit (map Inr rows) out = Inr xs \<and> (\<forall>x \<in> set xs. P x)"
  using assms(3)
proof (induction rows arbitrary: out)
  case (Cons r rows)
  obtain k v where r: "r = (k, v)" by (cases r)
  show ?case
  proof (cases "table R s prim (drop (length prefix) k)")
    case None
    with Cons r show ?thesis by (simp add: deref_ok [OF assms(1)])
  next
    case (Some w)
    show ?thesis
    proof (cases "dec w")
      case (Inl e)
      with Cons r Some show ?thesis by (simp add: deref_ok [OF assms(1)])
    next
      case (Inr x)
      with assms(2) have "\<forall>y \<in> set (out @ [x]). P y" using Cons.prems by auto
      with Cons.IH [OF this] Cons.prems r Some Inr show ?thesis by (simp add: deref_ok [OF assms(1)])
    qed
  qed
qed simp

lemma iter_by_last_slot_total:
  assumes "db_ok E R" "\<And>v x. dec v = Inr x \<Longrightarrow> P x"
  shows "\<exists>xs. iter_by_last_slot E s idx prim p t limit dec = Inr xs \<and> (\<forall>x \<in> set xs. P x)"
proof (cases "limit = 0")
  case False
  have "\<exists>xs. last_slot_loop E s prim dec (idx_by_rslot_prefix p t) limit
      (map Inr (seek (IterForward (idx_by_rslot_prefix p t)) (R s idx))) [] = Inr xs \<and> (\<forall>x \<in> set xs. P x)"
    by (rule last_slot_loop_total [OF assms(1)]) (use assms(2) in simp_all)
  with False show ?thesis
    unfolding iter_by_last_slot_def Let_def db_iter_ok [OF assms(1)] by (simp only: if_False)
qed (simp add: iter_by_last_slot_def)

lemma async_by_last_slot_total:
  assumes "db_ok E R"
  shows "\<exists>xs. iter_async_msgs_by_last_slot E s p t limit = Inr xs \<and> (\<forall>x \<in> set xs. wf_async_msg E x)"
  unfolding iter_async_msgs_by_last_slot_def
  by (rule iter_by_last_slot_total [OF assms]) (rule async_msg_codec.dec_wf [OF db_okD(1) [OF assms]])

lemma calls_by_last_slot_total:
  assumes "db_ok E R"
  shows "\<exists>xs. iter_deferred_calls_by_last_slot E s p t limit = Inr xs \<and> (\<forall>x \<in> set xs. wf_deferred_call E x)"
  unfolding iter_deferred_calls_by_last_slot_def
  by (rule iter_by_last_slot_total [OF assms]) (rule deferred_call_codec.dec_wf [OF db_okD(1) [OF assms]])

lemma transfers_for_slot_total:
  assumes "db_ok E R" "transfer_index_exact E R s"
  shows "\<exists>xs. iter_transfers_for_slot E s p t = Inr xs \<and> (\<forall>x \<in> set xs. wf_transfer x)"
proof -
  have "\<exists>x. codec_r (decode_transfer E v) = Inr x \<and> wf_transfer x" if "(k, v) \<in> set (R s CF_TRANSFER)" for k v
  proof -
    have "table R s CF_TRANSFER k = Some v" using that in_rows_iff [OF db_okD(2) [OF assms(1)]] by blast
    then obtain x where "decode_transfer E v = Inr x" using assms(2) unfolding exact_def by blast
    then show ?thesis using transfer_codec.dec_wf [of E v x] db_okD(1) [OF assms(1)] by simp
  qed
  then show ?thesis
    unfolding iter_transfers_for_slot_def Let_def db_iter_ok [OF assms(1)]
    by (intro prefix_rows_total) auto
qed

text \<open>The events of a slot, in the order of their keys, up to a limit.\<close>

definition events_at :: "('s, 'v, 'x) ext_scheme \<Rightarrow> ('s, 'v) rows \<Rightarrow> 's \<Rightarrow> slot \<Rightarrow> stored_sc_event list" where
  "events_at E R s sl =
     map snd (prefix_listing (R s CF_SC_EVENT) (slot_key (sl_period sl) (sl_thread sl))
       (\<lambda>k v. res_ok (decode_sc_event E v)))"

lemma events_for_slot_total:
  assumes "db_ok E R" "event_index_exact E R s" "0 < limit"
  shows "\<exists>p. iter_sc_events_for_slot E s (sl_period sl) (sl_thread sl) None limit = Inr p \<and>
    items p = take limit (events_at E R s sl) \<and> (\<forall>x \<in> set (items p). wf_sc_event E x)"
proof -
  let ?prefix = "slot_key (sl_period sl) (sl_thread sl)"
  let ?sel = "\<lambda>k v. res_ok (decode_sc_event E v)"
  note ok = db_okD [OF assms(1)]
  have dec: "\<exists>x. decode_sc_event E v = Inr x" if "(k, v) \<in> set (R s CF_SC_EVENT)" for k v
    using that assms(2) in_rows_iff [OF ok(2)] unfolding exact_def by blast
  have "iter_sc_events_for_slot E s (sl_period sl) (sl_thread sl) None limit =
      page_loop (\<lambda>k. starts_with k ?prefix) None limit (\<lambda>k v. keep (codec_r (decode_sc_event E v)))
        (map Inr (seek (IterForward ?prefix) (R s CF_SC_EVENT))) [] None"
    using assms(3) by (simp add: iter_sc_events_for_slot_def scan_prefix_def db_iter_ok [OF assms(1)])
  also have "\<dots> = page_loop (\<lambda>k. starts_with k ?prefix) None limit (\<lambda>k v. Inr (?sel k v))
        (map Inr (seek (IterForward ?prefix) (R s CF_SC_EVENT))) [] None"
    by (rule page_loop_cong) (use dec in \<open>fastforce simp: keep_def\<close>)
  also have "\<dots> = scan_prefix E s CF_SC_EVENT ?prefix None limit (\<lambda>k v. Inr (?sel k v))"
    using assms(3) by (simp add: scan_prefix_def db_iter_ok [OF assms(1)])
  finally have scan: "iter_sc_events_for_slot E s (sl_period sl) (sl_thread sl) None limit = \<dots>" .
  have "\<exists>p. scan_prefix E s CF_SC_EVENT ?prefix None limit (\<lambda>k v. Inr (?sel k v)) = Inr p \<and>
      full_page limit (past (<) None (prefix_listing (R s CF_SC_EVENT) ?prefix ?sel)) p"
    by (rule scan_prefix_page [OF assms(1,3)]) simp_all
  then obtain p where p: "iter_sc_events_for_slot E s (sl_period sl) (sl_thread sl) None limit = Inr p"
      "full_page limit (past (<) None (prefix_listing (R s CF_SC_EVENT) ?prefix ?sel)) p"
    unfolding scan by blast
  have items: "items p = take limit (events_at E R s sl)"
    using p(2) by (simp add: full_page_def past_def events_at_def take_map)
  moreover have "wf_sc_event E x" if "x \<in> set (items p)" for x
  proof -
    have "x \<in> set (events_at E R s sl)" using that items set_take_subset by fastforce
    then show ?thesis
      using sc_event_codec.dec_wf [OF ok(1)] by (auto simp: events_at_def prefix_listing_in)
  qed
  ultimately show ?thesis using p(1) by blast
qed

section \<open>One slot\<close>

definition block_of :: "('s, 'v, 'x) ext_scheme \<Rightarrow> ('s, 'v) rows \<Rightarrow> 's \<Rightarrow> slot_state \<Rightarrow> stored_block option" where
  "block_of E R s st = Option.bind (st_final_block_id st) (block_at E R s)"

text \<open>What a response says of a FINAL slot row, part by part.\<close>

definition serves_head :: "slot_state \<Rightarrow> final_slot_parts \<Rightarrow> final_slot_response \<Rightarrow> bool" where
  "serves_head st parts r \<longleftrightarrow>
     fr_period r = sl_period (st_slot st) \<and> fr_thread r = ucast (sl_thread (st_slot st)) \<and>
     fr_final_known r \<and> fr_is_miss r = st_is_miss st \<and>
     fr_execution_trail_hash r = unwrap_or [] (st_execution_trail_hash st) \<and>
     fr_final_block_id r = unwrap_or [] (map_option id_text (st_final_block_id st)) \<and>
     fr_completeness_known r \<and>
     fr_has_block_body r = (st_is_miss st \<or> block_body_stored (st_completeness st)) \<and>
     fr_has_exec_output r = exec_output_final (st_completeness st) \<and>
     fr_has_transfers r = transfers_stored (st_completeness st) \<and> fr_parts r = Some parts"

definition serves_block :: "('s, 'v, 'x) ext_scheme \<Rightarrow> ('s, 'v) rows \<Rightarrow> 's \<Rightarrow> stored_block option \<Rightarrow>
    final_slot_response \<Rightarrow> bool" where
  "serves_block E R s blk r \<longleftrightarrow>
     Option.bind (fr_block r) (\<lambda>m. res_ok (block_from_peer_pb E m)) = blk \<and>
     decode_all (endorsement_from_peer_pb E) (fr_endorsements r) =
       (case blk of None \<Rightarrow> [] | Some b \<Rightarrow> bk_endorsements b) \<and>
     decode_all (operation_from_peer_pb E) (fr_operations r) =
       (case blk of None \<Rightarrow> [] | Some b \<Rightarrow> List.map_filter (op_at E R s) (bk_operation_ids b))"

definition serves_exec :: "('s, 'v, 'x) ext_scheme \<Rightarrow> ('s, 'v) rows \<Rightarrow> 's \<Rightarrow> slot_state \<Rightarrow>
    final_slot_response \<Rightarrow> bool" where
  "serves_exec E R s st r \<longleftrightarrow>
     fr_executed_op_ids r = map id_text (st_executed_op_ids st) \<and>
     fr_sc_event_count r = st_sc_event_count st \<and>
     decode_all (sc_event_from_peer_pb E) (fr_sc_events r) = take 10000 (events_at E R s (st_slot st)) \<and>
     iter_async_msgs_by_last_slot E s (sl_period (st_slot st)) (sl_thread (st_slot st)) 10000 =
       Inr (decode_all (async_msg_from_peer_pb E) (fr_async_msgs r))"

definition serves_transfers :: "('s, 'v, 'x) ext_scheme \<Rightarrow> 's \<Rightarrow> slot_state \<Rightarrow> final_slot_response \<Rightarrow> bool" where
  "serves_transfers E s st r \<longleftrightarrow>
     iter_transfers_for_slot E s (sl_period (st_slot st)) (sl_thread (st_slot st)) =
       Inr (decode_all (transfer_from_peer_pb E) (fr_transfers r)) \<and>
     iter_deferred_calls_by_last_slot E s (sl_period (st_slot st)) (sl_thread (st_slot st)) 10000 =
       Inr (decode_all (deferred_call_from_peer_pb E) (fr_deferred_calls r))"

text \<open>A part that was not asked for is absent.\<close>

definition no_exec :: "final_slot_response \<Rightarrow> bool" where
  "no_exec r \<longleftrightarrow> fr_executed_op_ids r = [] \<and> fr_sc_event_count r = 0 \<and> fr_sc_events r = [] \<and> fr_async_msgs r = []"

definition no_transfers :: "final_slot_response \<Rightarrow> bool" where
  "no_transfers r \<longleftrightarrow> fr_transfers r = [] \<and> fr_deferred_calls r = []"

definition serves :: "('s, 'v, 'x) ext_scheme \<Rightarrow> ('s, 'v) rows \<Rightarrow> 's \<Rightarrow> slot_state \<Rightarrow> final_slot_parts \<Rightarrow>
    final_slot_response \<Rightarrow> bool" where
  "serves E R s st parts r \<longleftrightarrow> serves_head st parts r \<and>
     serves_block E R s (if fp_block parts \<and> \<not> st_is_miss st then block_of E R s st else None) r \<and>
     (if fp_exec_output parts then serves_exec E R s st r else no_exec r) \<and>
     (if fp_transfers parts then serves_transfers E s st r else no_transfers r)"

lemma collect_read_op:
  assumes "db_ok E R" "ops_ok E R s"
  shows "collect (read_op E s) is = Inr (map (op_at E R s) is)"
  by (induction "is") (simp_all add: read_op_def get_decoded_rows [OF assms] op_at_def)

lemma map_filter_id: "List.map_filter id (map f xs) = List.map_filter f xs"
  by (simp add: List.map_filter_def comp_def filter_map)

lemma ship_block_run:
  assumes "db_ok E R" "ops_ok E R s" "blocks_ok E R s"
  shows "\<exists>blk es ops. ship_block E s st (slot_head st parts) =
      Inr (slot_head st parts\<lparr>fr_block := blk, fr_endorsements := es, fr_operations := ops\<rparr>) \<and>
    serves_block E R s (block_of E R s st)
      (slot_head st parts\<lparr>fr_block := blk, fr_endorsements := es, fr_operations := ops\<rparr>)"
proof (cases "block_of E R s st")
  case None
  then have "ship_block E s st (slot_head st parts) = Inr (slot_head st parts)"
    by (auto simp: ship_block_def block_of_def read_block_def get_decoded_rows [OF assms(1,3)] block_at_def
        split: option.split)
  moreover have h: "slot_head st parts\<lparr>fr_block := None, fr_endorsements := [], fr_operations := []\<rparr> = slot_head st parts"
    by (simp add: slot_head_def response_default_def)
  moreover have "serves_block E R s None (slot_head st parts)"
    by (simp add: serves_block_def slot_head_def response_default_def decode_all_def)
  ultimately show ?thesis
    unfolding None by (intro exI [of _ None] exI [of _ "[]"]) (simp only: simp_thms)
next
  case (Some b)
  then obtain bid where bid: "st_final_block_id st = Some bid" "block_at E R s bid = Some b"
    by (auto simp: block_of_def bind_eq_Some_conv)
  note W = db_okD(1) [OF assms(1)]
  have wf: "wf_block E b"
    using bid(2) block_codec.dec_wf [OF W] by (auto simp: block_at_def row_at_def bind_eq_Some_conv)
  obtain m where m: "res_ok (block_to_peer_pb E b) = Some m" "block_from_peer_pb E m = Inr b"
    using shipped_block.shipped [OF W wf] by blast
  let ?ops = "List.map_filter (op_at E R s) (bk_operation_ids b)"
  have wfs: "\<forall>x \<in> set (bk_endorsements b). wf_endorsement E x" "\<forall>x \<in> set ?ops. wf_operation E x"
  proof -
    show "\<forall>x \<in> set (bk_endorsements b). wf_endorsement E x"
      using wf by (simp add: wf_block_def list_all_iff)
    have "wf_operation E x" if "op_at E R s i = Some x" for i x
      using that operation_codec.dec_wf [OF W] by (auto simp: op_at_def row_at_def bind_eq_Some_conv)
    then show "\<forall>x \<in> set ?ops. wf_operation E x" by (auto simp: map_filter_def)
  qed
  have "ship_block E s st (slot_head st parts) =
      Inr (slot_head st parts\<lparr>fr_block := Some m,
        fr_endorsements := ship_ok (endorsement_to_peer_pb E) (bk_endorsements b),
        fr_operations := ship_ok (operation_to_peer_pb E) ?ops\<rparr>)"
    using bid m(1)
    by (simp add: ship_block_def read_block_def get_decoded_rows [OF assms(1,3)] block_at_def
        collect_read_op [OF assms(1,2)] map_filter_id)
  moreover have "serves_block E R s (Some b) (slot_head st parts\<lparr>fr_block := Some m,
        fr_endorsements := ship_ok (endorsement_to_peer_pb E) (bk_endorsements b),
        fr_operations := ship_ok (operation_to_peer_pb E) ?ops\<rparr>)"
    using m(2) shipped_endorsement.map_filter_shipped [OF W wfs(1)]
      shipped_operation.map_filter_shipped [OF W wfs(2)]
    by (simp add: serves_block_def ship_ok_def)
  ultimately show ?thesis unfolding Some by blast
qed

lemma ship_exec_run:
  assumes "db_ok E R" "event_index_exact E R s"
  shows "\<exists>ids n es ms. ship_exec E s st r =
      Some (Inr (r\<lparr>fr_executed_op_ids := ids, fr_sc_event_count := n, fr_sc_events := es, fr_async_msgs := ms\<rparr>)) \<and>
    serves_exec E R s st
      (r\<lparr>fr_executed_op_ids := ids, fr_sc_event_count := n, fr_sc_events := es, fr_async_msgs := ms\<rparr>)"
proof -
  let ?sl = "st_slot st"
  note W = db_okD(1) [OF assms(1)]
  obtain p where p: "iter_sc_events_for_slot E s (sl_period ?sl) (sl_thread ?sl) None 10000 = Inr p"
      "items p = take 10000 (events_at E R s ?sl)" "\<forall>x \<in> set (items p). wf_sc_event E x"
    using events_for_slot_total [OF assms, of 10000 ?sl] by auto
  obtain xs where xs: "iter_async_msgs_by_last_slot E s (sl_period ?sl) (sl_thread ?sl) 10000 = Inr xs"
      "\<forall>x \<in> set xs. wf_async_msg E x"
    using async_by_last_slot_total [OF assms(1)] by blast
  obtain ms where ms: "ship_all (async_msg_to_peer_pb E) xs = (Some (Inr ms) :: (error + _) option)"
      "decode_all (async_msg_from_peer_pb E) ms = xs"
    by (rule shipped_async.ship_all_shipped [OF W xs(2)]) (rule that; assumption)
  have "ship_exec E s st r = Some (Inr (r\<lparr>fr_executed_op_ids := map id_text (st_executed_op_ids st),
      fr_sc_event_count := st_sc_event_count st,
      fr_sc_events := ship_ok (sc_event_to_peer_pb E) (items p), fr_async_msgs := ms\<rparr>))"
    using p(1) xs(1) ms(1) by (simp add: ship_exec_def sbind_def)
  moreover have "serves_exec E R s st (r\<lparr>fr_executed_op_ids := map id_text (st_executed_op_ids st),
      fr_sc_event_count := st_sc_event_count st,
      fr_sc_events := ship_ok (sc_event_to_peer_pb E) (items p), fr_async_msgs := ms\<rparr>)"
    using xs(1) ms(2) p(2) shipped_event.map_filter_shipped [OF W p(3)]
    by (simp add: serves_exec_def ship_ok_def)
  ultimately show ?thesis by (intro exI conjI)
qed

lemma ship_transfers_run:
  assumes "db_ok E R" "transfer_index_exact E R s"
  shows "\<exists>ts ds. ship_transfers E s st r = Some (Inr (r\<lparr>fr_transfers := ts, fr_deferred_calls := ds\<rparr>)) \<and>
    serves_transfers E s st (r\<lparr>fr_transfers := ts, fr_deferred_calls := ds\<rparr>)"
proof -
  let ?sl = "st_slot st"
  note W = db_okD(1) [OF assms(1)]
  obtain xs where xs: "iter_transfers_for_slot E s (sl_period ?sl) (sl_thread ?sl) = Inr xs"
      "\<forall>x \<in> set xs. wf_transfer x"
    using transfers_for_slot_total [OF assms] by blast
  obtain ts where ts: "ship_all (transfer_to_peer_pb E) xs = (Some (Inr ts) :: (error + _) option)"
      "decode_all (transfer_from_peer_pb E) ts = xs"
    by (rule shipped_transfer.ship_all_shipped [OF W xs(2)]) (rule that; assumption)
  obtain cs where cs: "iter_deferred_calls_by_last_slot E s (sl_period ?sl) (sl_thread ?sl) 10000 = Inr cs"
      "\<forall>x \<in> set cs. wf_deferred_call E x"
    using calls_by_last_slot_total [OF assms(1)] by blast
  obtain ds where ds: "ship_all (deferred_call_to_peer_pb E) cs = (Some (Inr ds) :: (error + _) option)"
      "decode_all (deferred_call_from_peer_pb E) ds = cs"
    by (rule shipped_call.ship_all_shipped [OF W cs(2)]) (rule that; assumption)
  have "ship_transfers E s st r = Some (Inr (r\<lparr>fr_transfers := ts, fr_deferred_calls := ds\<rparr>))"
    using xs(1) ts(1) cs(1) ds(1) by (simp add: ship_transfers_def sbind_def)
  moreover have "serves_transfers E s st (r\<lparr>fr_transfers := ts, fr_deferred_calls := ds\<rparr>)"
    using xs(1) ts(2) cs(1) ds(2) by (simp add: serves_transfers_def)
  ultimately show ?thesis by (intro exI conjI)
qed

lemma serves_absent:
  "serves_block E R s None (slot_head st parts)" "no_exec (slot_head st parts)" "no_transfers (slot_head st parts)"
  "serves_head st parts (slot_head st parts)"
  by (simp_all add: serves_block_def no_exec_def no_transfers_def serves_head_def slot_head_def
      response_default_def decode_all_def)

lemma build_serves:
  assumes "db_ok E R" "exec_good E R s" "st_status st = SlotFinal"
  shows "\<exists>r. build_final_slot_response_from_state E s st parts = Some (Inr r) \<and> serves E R s st parts r"
proof -
  have good: "ops_ok E R s" "blocks_ok E R s" "event_index_exact E R s" "transfer_index_exact E R s"
    using assms(2) by (simp_all add: exec_good_def db_good_def)
  let ?blk = "if fp_block parts \<and> \<not> st_is_miss st then block_of E R s st else None"
  have "\<exists>r1. (if fp_block parts \<and> \<not> st_is_miss st then ship_block E s st (slot_head st parts)
        else Inr (slot_head st parts)) = Inr r1 \<and>
      serves_head st parts r1 \<and> serves_block E R s ?blk r1 \<and> no_exec r1 \<and> no_transfers r1"
  proof (cases "fp_block parts \<and> \<not> st_is_miss st")
    case True
    obtain blk es ops where s: "ship_block E s st (slot_head st parts) =
        Inr (slot_head st parts\<lparr>fr_block := blk, fr_endorsements := es, fr_operations := ops\<rparr>)"
      "serves_block E R s (block_of E R s st)
        (slot_head st parts\<lparr>fr_block := blk, fr_endorsements := es, fr_operations := ops\<rparr>)"
      using ship_block_run [OF assms(1) good(1,2), of st parts] by (elim exE conjE) (rule that)
    show ?thesis
      by (rule exI [of _ "slot_head st parts\<lparr>fr_block := blk, fr_endorsements := es, fr_operations := ops\<rparr>"])
        (use True s serves_absent [where st = st and parts = parts] in
          \<open>simp_all add: serves_head_def no_exec_def no_transfers_def\<close>)
  next
    case False
    show ?thesis
      by (rule exI [of _ "slot_head st parts"]) (use False serves_absent [where st = st and parts = parts] in \<open>auto simp: serves_block_def\<close>)
  qed
  then obtain r1 where r1: "(if fp_block parts \<and> \<not> st_is_miss st then ship_block E s st (slot_head st parts)
        else Inr (slot_head st parts)) = Inr r1"
      "serves_head st parts r1" "serves_block E R s ?blk r1" "no_exec r1" "no_transfers r1"
    by (elim exE conjE) (rule that)
  have "\<exists>r2. (if fp_exec_output parts then ship_exec E s st r1 else Some (Inr r1)) = Some (Inr r2) \<and>
      serves_head st parts r2 \<and> serves_block E R s ?blk r2 \<and>
      (if fp_exec_output parts then serves_exec E R s st r2 else no_exec r2) \<and> no_transfers r2"
  proof (cases "fp_exec_output parts")
    case True
    obtain ids n es ms where s: "ship_exec E s st r1 =
        Some (Inr (r1\<lparr>fr_executed_op_ids := ids, fr_sc_event_count := n, fr_sc_events := es, fr_async_msgs := ms\<rparr>))"
      "serves_exec E R s st
        (r1\<lparr>fr_executed_op_ids := ids, fr_sc_event_count := n, fr_sc_events := es, fr_async_msgs := ms\<rparr>)"
      using ship_exec_run [OF assms(1) good(3), of st r1] by (elim exE conjE) (rule that)
    show ?thesis
      by (rule exI [of _ "r1\<lparr>fr_executed_op_ids := ids, fr_sc_event_count := n, fr_sc_events := es, fr_async_msgs := ms\<rparr>"])
        (use True s r1(2-) in \<open>simp_all add: serves_head_def no_transfers_def serves_block_def\<close>)
  next
    case False
    show ?thesis by (rule exI [of _ r1]) (use False r1(2-) in auto)
  qed
  then obtain r2 where r2: "(if fp_exec_output parts then ship_exec E s st r1 else Some (Inr r1)) = Some (Inr r2)"
      "serves_head st parts r2" "serves_block E R s ?blk r2"
      "if fp_exec_output parts then serves_exec E R s st r2 else no_exec r2" "no_transfers r2"
    by (elim exE conjE) (rule that)
  have "\<exists>r3. (if fp_transfers parts then ship_transfers E s st r2 else Some (Inr r2)) = Some (Inr r3) \<and>
      serves E R s st parts r3"
  proof (cases "fp_transfers parts")
    case True
    obtain ts ds where s: "ship_transfers E s st r2 = Some (Inr (r2\<lparr>fr_transfers := ts, fr_deferred_calls := ds\<rparr>))"
      "serves_transfers E s st (r2\<lparr>fr_transfers := ts, fr_deferred_calls := ds\<rparr>)"
      using ship_transfers_run [OF assms(1) good(4), of st r2] by (elim exE conjE) (rule that)
    show ?thesis
      by (rule exI [of _ "r2\<lparr>fr_transfers := ts, fr_deferred_calls := ds\<rparr>"])
        (use True s r2(2-) in \<open>simp_all add: serves_def serves_head_def serves_block_def serves_exec_def no_exec_def
            split: if_splits\<close>)
  next
    case False
    show ?thesis by (rule exI [of _ r2]) (use False r2(2-) in \<open>auto simp: serves_def\<close>)
  qed
  then obtain r3 where r3: "(if fp_transfers parts then ship_transfers E s st r2 else Some (Inr r2)) = Some (Inr r3)"
      "serves E R s st parts r3"
    by (elim exE conjE) (rule that)
  show ?thesis
    unfolding build_final_slot_response_from_state_def
    using assms(3) r1(1) r2(1) r3 by (simp add: sbind_def)
qed

lemma read_slot_good:
  assumes "db_ok E R" "exec_good E R s"
  shows "read_slot E s p t = Inr (slot_at E (table R s CF_SLOT) (Slot p t))"
  using read_slot_ok [OF assms(1), of s "Slot p t"] assms(2) by (simp add: exec_good_def db_good_def)

lemma build_slot_run:
  assumes "db_ok E R" "exec_good E R s"
  shows "\<exists>r. build_final_slot_response E s p t parts = Some (Inr r) \<and>
    (case slot_at E (table R s CF_SLOT) (Slot p t) of
       Some st \<Rightarrow> if st_status st = SlotFinal then serves E R s st parts r else r = unknown_slot p (ucast t)
     | None \<Rightarrow> r = unknown_slot p (ucast t))"
proof (cases "slot_at E (table R s CF_SLOT) (Slot p t)")
  case None
  then show ?thesis
    by (simp add: build_final_slot_response_def read_slot_good [OF assms] sbind_def)
next
  case (Some st)
  then have "st_slot st = Slot p t"
    using assms(2) slot_at_slot [OF _ Some] by (simp add: exec_good_def db_good_def)
  with Some build_serves [OF assms, of st parts] show ?thesis
    by (auto simp: build_final_slot_response_def read_slot_good [OF assms] sbind_def
        build_final_slot_response_from_state_def)
qed

section \<open>Ranges\<close>

text \<open>The FINAL rows among the newest rows at or below a slot.\<close>

definition rows_below :: "('s, 'v, 'x) ext_scheme \<Rightarrow> ('s, 'v) rows \<Rightarrow> 's \<Rightarrow> slot \<Rightarrow> slot_state list" where
  "rows_below E R s to =
     filter (\<lambda>st. \<not> slot_before to (st_slot st)) (map snd (slot_listing E (R s CF_SLOT)))"

lemma slot_before_iff: "slot_before a b \<longleftrightarrow> slot_lt a b"
  by (cases a; cases b) (auto simp: slot_before_def slot_lt_def)

lemma stream_rows_run:
  assumes "db_ok E R" "exec_good E R s"
  shows "\<exists>rs. stream_rows E s from parts sts = map Inr rs \<and>
    list_all2 (\<lambda>st r. serves E R s st parts r)
      (filter (\<lambda>st. st_status st = SlotFinal) (takeWhile (\<lambda>st. \<not> slot_before (st_slot st) from) sts)) rs"
proof (induction sts)
  case (Cons st sts)
  then obtain rs where rs: "stream_rows E s from parts sts = map Inr rs"
      "list_all2 (\<lambda>st r. serves E R s st parts r)
        (filter (\<lambda>st. st_status st = SlotFinal) (takeWhile (\<lambda>st. \<not> slot_before (st_slot st) from) sts)) rs"
    by blast
  show ?case
  proof (cases "\<not> slot_before (st_slot st) from \<and> st_status st = SlotFinal")
    case True
    then obtain r where "build_final_slot_response_from_state E s st parts = Some (Inr r)" "serves E R s st parts r"
      using build_serves [OF assms, of st parts] by blast
    with True rs show ?thesis by (intro exI [of _ "r # rs"]) simp
  next
    case False
    with rs show ?thesis by auto
  qed
qed simp

lemma page_below:
  assumes "db_ok E R" "slot_table_ok E (table R s)" "0 < limit"
  shows "\<exists>p. iter_slots_desc E s (Some (slot_row_key to @ [0])) limit = Inr p \<and>
    items p = take limit (rows_below E R s to)"
proof -
  let ?a = "slot_row_key to @ [0]"
  have key: "k = slot_row_key (st_slot st)" if m: "(k, st) \<in> set (slot_listing E (R s CF_SLOT))" for k st
  proof -
    obtain v where "table R s CF_SLOT k = Some v" "decode_slot_state E v = Inr st"
      using m in_rows_iff [OF db_okD(2) [OF assms(1)]] by (auto simp: slot_listing_def visible_in)
    then show ?thesis using assms(2) unfolding slot_table_ok_def by fastforce
  qed
  have "past (>) (Some ?a) (slot_listing E (R s CF_SLOT)) =
      filter (\<lambda>(k, st). \<not> slot_before to (st_slot st)) (slot_listing E (R s CF_SLOT))"
    unfolding past_def option.case
  proof (rule filter_cong [OF refl], clarify)
    fix k st assume "(k, st) \<in> set (slot_listing E (R s CF_SLOT))"
    then have k: "k = slot_row_key (st_slot st)" by (rule key)
    have "length k = length (slot_row_key to)" by (simp add: k slot_row_key_def key_simps)
    then have "(?a > k) = (k \<le> slot_row_key to)" by (rule below_successor)
    then show "(?a > k) = (\<not> slot_before to (st_slot st))"
      by (simp add: k slot_before_iff flip: slot_row_key_less)
        (metis leD leI)
  qed
  moreover have "map snd (filter (\<lambda>(k, st). \<not> slot_before to (st_slot st)) xs) =
      filter (\<lambda>st. \<not> slot_before to (st_slot st)) (map snd xs)" for xs :: "(bytes \<times> slot_state) list"
    by (induction xs) auto
  ultimately have "map snd (past (>) (Some ?a) (slot_listing E (R s CF_SLOT))) = rows_below E R s to"
    by (simp only: rows_below_def)
  moreover obtain p where "iter_slots_desc E s (Some ?a) limit = Inr p"
      "full_page limit (past (>) (Some ?a) (slot_listing E (R s CF_SLOT))) p"
    using iter_slots_page [OF assms, of "Some ?a"] by blast
  ultimately show ?thesis by (auto simp: full_page_def simp flip: take_map)
qed

lemma takeWhile_sorted:
  "sorted_wrt (\<lambda>a b. f b \<longrightarrow> f a) xs \<Longrightarrow> takeWhile f xs = filter f xs"
  by (induction xs) (auto simp: filter_empty_conv)

lemma stream_range_run:
  assumes "db_ok E R" "exec_good E R s" "slot_table_ok E (table R s)"
    and "u8_try (fs_from_thread rq) = Some ft" "u8_try (fs_to_thread rq) = Some tt"
  defines "from \<equiv> Slot (fs_from_period rq) ft" and "to \<equiv> Slot (fs_to_period rq) tt"
  assumes "\<not> slot_before to from" "0 < stream_limit sv (fs_limit rq)"
  shows "\<exists>rs. stream_final_slots E sv s rq = Inr (map Inr rs) \<and>
    list_all2 (\<lambda>st r. serves E R s st (unwrap_or parts_default (fs_parts rq)) r)
      (filter (\<lambda>st. st_status st = SlotFinal \<and> \<not> slot_before (st_slot st) from)
        (take (stream_limit sv (fs_limit rq)) (rows_below E R s to))) rs"
proof -
  let ?n = "stream_limit sv (fs_limit rq)"
  let ?parts = "unwrap_or parts_default (fs_parts rq)"
  let ?page = "take ?n (rows_below E R s to)"
  obtain p where p: "iter_slots_desc E s (Some (slot_row_key to @ [0])) ?n = Inr p" "items p = ?page"
    using page_below [OF assms(1,3,9), of to] by blast
  obtain rs where rs: "stream_rows E s from ?parts ?page = map Inr rs"
      "list_all2 (\<lambda>st r. serves E R s st ?parts r)
        (filter (\<lambda>st. st_status st = SlotFinal) (takeWhile (\<lambda>st. \<not> slot_before (st_slot st) from) ?page)) rs"
    using stream_rows_run [OF assms(1,2)] by blast
  have "sorted_wrt (\<lambda>a b. slot_lt (st_slot b) (st_slot a)) (rows_below E R s to)"
    using slot_listing_spec [OF assms(1,3)] by (simp add: rows_below_def sorted_wrt_filter)
  then have "sorted_wrt (\<lambda>a b. slot_lt (st_slot b) (st_slot a)) ?page"
    by (rule sorted_wrt_take)
  then have "sorted_wrt (\<lambda>a b. \<not> slot_before (st_slot b) from \<longrightarrow> \<not> slot_before (st_slot a) from) ?page"
    by (rule sorted_wrt_mono_rel [rotated]) (auto simp: slot_before_iff simp flip: slot_row_key_less)
  then have "takeWhile (\<lambda>st. \<not> slot_before (st_slot st) from) ?page =
      filter (\<lambda>st. \<not> slot_before (st_slot st) from) ?page"
    by (rule takeWhile_sorted)
  with rs(2) have "list_all2 (\<lambda>st r. serves E R s st ?parts r)
      (filter (\<lambda>st. st_status st = SlotFinal \<and> \<not> slot_before (st_slot st) from) ?page) rs"
    by (simp add: filter_filter conj_commute)
  moreover have "stream_final_slots E sv s rq = Inr (map Inr rs)"
    using assms(4,5,8) p rs(1)
    by (simp add: stream_final_slots_def from_def to_def slot_row_key_def)
  ultimately show ?thesis by blast
qed

end
