(* ===== verification/Props_Transport.thy ===== *)
theory Props_Transport
  imports Peer_Pool_Laws Session_Laws Registry_Laws Service_Laws Reference_Node
begin

text \<open>
  The properties of the peer transport: the outbound pool, sessions, the registry of peers, and what the service
  answers.
\<close>

section \<open>A sample network\<close>

text \<open>Two configured peers that are reached; the second is known under another name.\<close>

definition ref_net :: network where
  "ref_net =
     \<lparr>dial = (\<lambda>t u. Inr ()),
      rpc_health = (\<lambda>t u q. Inr \<lparr>hr_peer_id = (if u = ''http://b'' then ''bob'' else ''ann''),
        hr_network = ''net'', hr_build_version = [], hr_last_final_period = 9, hr_last_final_thread = 0,
        hr_now_ms = 0, hr_schema_version = 2\<rparr>),
      rpc_final_slot = (\<lambda>t u q. Inr (response_default\<lparr>fr_period := fq_period q, fr_final_known := u = ''http://b''\<rparr>)),
      rpc_stream = (\<lambda>t u q. Inr []), rpc_session = (\<lambda>t u m. Inr ()),
      session_slot = (\<lambda>t b p th parts. Inl (Other [])), clock = (\<lambda>t. t)\<rparr>"

definition ref_local :: local_peer_identity where
  "ref_local = \<lparr>li_peer_id = ''me'', li_network = ''net'', li_build_version = [], li_advertise_url = []\<rparr>"

definition ref_cfgs :: "(string \<times> string) list" where
  "ref_cfgs = [(''a'', ''http://a''), (''b'', ''http://b'')]"

definition ref_shared :: shared where
  "ref_shared = \<lparr>sh_registry = registry_new, sh_tick = 0, sh_next_bridge = 1\<rparr>"

definition ref_pool :: pool where
  "ref_pool = pool_new ref_net ref_cfgs ref_local ref_shared ''net''"

lemma ref_pool_kept: "pool_kept ref_cfgs ref_pool"
  unfolding ref_pool_def
  by (rule pool_new_kept) (simp add: ref_shared_def registry_new_def registry_kept_def registry_ok_def)

section \<open>What every operation keeps\<close>

lemma stable_after: "stable P m \<Longrightarrow> P s \<Longrightarrow> P (snd (m s))"
  by (simp add: stable_def)

text \<open>
  C21.  Whatever the network does, probing, maintaining and fetching keep the pool sound: the registry's
  invariant, the configured peers with their names and urls, and that no configured url is ever
  demoted, so that it stays a route to try.
\<close>

theorem pool_stays_sound:
  assumes "pool_kept cfgs pl"
  shows "pool_kept cfgs (snd (fetch_final_slot net seed period t parts pl)) \<and>
    pool_kept cfgs (snd (stream_range_from_peer net p a b parts limit pl)) \<and>
    pool_kept cfgs (snd (best_remote_final_period net pl)) \<and>
    pool_kept cfgs (snd (maintain_round net backoff pl)) \<and>
    pool_kept cfgs (snd (on_peer i (session_hello_in net q hello) pl)) \<and>
    pool_kept cfgs (snd (on_peer i (session_ended bridge) pl))"
  by (intro conjI)
    (rule stable_after [OF stable_fetch assms] stable_after [OF stable_stream assms]
      stable_after [OF stable_best assms] stable_after [OF stable_maintain assms]
      stable_after [OF stable_on_peer [OF stable_hello] assms]
      stable_after [OF stable_on_peer [OF stable_ended] assms])+

theorem pool_stays_sound_witness:
  "registry_ok (sh_registry (pl_shared (snd (fetch_final_slot ref_net 1 5 3 parts_default ref_pool))))"
  using pool_stays_sound [OF ref_pool_kept] by (simp add: pool_kept_def registry_kept_def)

section \<open>Logical peers\<close>

text \<open>
  The peers a fetch contacts are found without fail, and each remote is listed once: every configured peer under
  its learned id, or its name while that is unknown, and every other registered id, but no alias of
  a learned peer, not ourselves and not an empty id.
\<close>

theorem logical_peers_listed_once:
  "\<exists>ids pl'. logical_peer_ids net seed pl = (Inr ids, pl') \<and> distinct ids \<and>
     set ids = ((\<lambda>h. unwrap_or (ph_name h) (ph_remote_peer_id h)) ` set (pl_peers pl') \<union>
       (set (peer_ids (sh_registry (pl_shared pl'))) - known_aliases (pl_peers pl'))) -
       {li_peer_id (pl_local pl'), []}"
  using logical_peer_ids_run [of net seed pl] by (simp add: listed_def)

section \<open>Fetching\<close>

text \<open>
  C22.  What a fetch returns is always a FINAL answer, and an answer that came over a url was given
  by a peer whose latest health, as the pool remembers it, is on the expected network.
\<close>

theorem fetched_answers_final:
  "(fetch_final_slot net seed period t parts pl = (Inr (Some r), pl') \<longrightarrow> fr_final_known r) \<and>
   (unary_via_url net p url period t parts pl = (Inr r, pl') \<longrightarrow> pl_expected_network pl \<noteq> [] \<longrightarrow>
     (\<exists>h resp at. map_of (pl_dynamic pl') url = Some h \<and> ph_last_health h = Some (resp, at) \<and>
        hr_network resp = pl_expected_network pl))"
  using fetch_final [of net seed period t parts pl r pl'] unary_network [of net p url period t parts pl r pl']
  by blast

theorem fetched_answers_final_witness:
  "\<exists>r pl'. unary_via_url ref_net ''bob'' ''http://b'' 5 3 parts_default ref_pool = (Inr r, pl') \<and>
     map_option ph_last_health (map_of (pl_dynamic pl') ''http://b'') \<noteq> Some None"
proof -
  have "isl (fst (unary_via_url ref_net ''bob'' ''http://b'' 5 3 parts_default ref_pool)) = False"
    by code_simp
  then obtain r pl' where u: "unary_via_url ref_net ''bob'' ''http://b'' 5 3 parts_default ref_pool = (Inr r, pl')"
    by (cases "unary_via_url ref_net ''bob'' ''http://b'' 5 3 parts_default ref_pool") (auto simp: isl_def, metis old.sum.exhaust)
  have "pl_expected_network ref_pool \<noteq> []"
    by (simp add: ref_pool_def pool_new_def split: prod.split)
  with u fetched_answers_final [of ref_net 0 5 3 parts_default ref_pool r pl' "''bob''" "''http://b''"]
  show ?thesis by auto
qed

section \<open>Sessions\<close>

text \<open>
  C16.  Whatever happens to a session, in whatever order, as long as fewer than \<open>2 ^ 64\<close> correlation ids are
  drawn: a request returns at most once, an answer it returns is one that was completed under its
  own id while it was pending, and the pending requests are those still waiting.
\<close>

theorem session_answers_once:
  assumes "unat n + length steps < 2 ^ 64" "bridge_run steps (n, bridge_new i peer) = (n', b)"
  shows "distinct (map fst (returned b)) \<and>
    (\<forall>c r. (c, Inr r) \<in> set (returned b) \<longrightarrow> completed_in steps (n, bridge_new i peer) c r) \<and>
    (\<forall>c. c \<in> set (pending b) \<longleftrightarrow> channel b c = Some Waiting)"
proof -
  have "bridge_ok (n', b)"
    using bridge_ok_run [of "(n, bridge_new i peer)" steps] assms by simp
  moreover have "(c, Inr r) \<in> set (returned b) \<Longrightarrow> completed_in steps (n, bridge_new i peer) c r" for c r
    using answers_completed [of "(n, bridge_new i peer)" steps c r] assms(2) by (simp add: bridge_new_def)
  ultimately show ?thesis by (auto simp: bridge_ok_def)
qed

definition ref_steps :: "bridge_step list" where
  "ref_steps = [Request 5 3 parts_default True, OtherBridge, Request 6 3 parts_default True,
     Complete 9 response_default, Wake 9, Complete 9 response_default, TimeOut 11, Complete 11 response_default]"

theorem session_answers_once_witness:
  "\<exists>n b. bridge_run ref_steps (9, bridge_new 1 ''p'') = (n, b) \<and>
     map fst (returned b) = [9, 11] \<and> completed_in ref_steps (9, bridge_new 1 ''p'') 9 response_default"
proof -
  obtain n b where b: "bridge_run ref_steps (9, bridge_new 1 ''p'') = (n, b)" by force
  have r: "returned (snd (bridge_run ref_steps (9, bridge_new 1 ''p''))) =
      [(9, Inr response_default), (11, Inl (session_error ''p'' ''timed out''))]"
    by (simp add: bridge_run_def ref_steps_def bridge_new_def open_request_def complete_def wake_def
        time_out_def give_back_def forget_def)
  have "unat (9 :: u64) + length ref_steps < 2 ^ 64" by (simp add: ref_steps_def)
  from session_answers_once [OF this b] r b show ?thesis by auto
qed

text \<open>
  When the connection of a session ends, no request is left hanging: the pending set is
  empty, the registry of peers no longer offers the session, and every caller that is woken returns.
\<close>

theorem closed_session_releases:
  assumes "unat n + length steps < 2 ^ 64" "bridge_run steps (n, bridge_new i peer) = (n', b)"
    and "session_closed (b, g) = (b', g')" "registry_ok g"
  shows "pending b' = [] \<and> (\<forall>p. bridge_id b \<notin> session_of (inner g') p) \<and>
    (\<forall>cs c. c \<in> set cs \<longrightarrow> channel (snd (bridge_run (map Wake cs) (n', b'))) c = None)"
proof -
  have b': "b' = fail_pending b" "g' = clear_session_by_bridge_id (bridge_id b) g"
    using assms(3) by (simp_all add: session_closed_def)
  have "bridge_ok (n', b)"
    using bridge_ok_run [of "(n, bridge_new i peer)" steps] assms by simp
  then have w: "\<forall>c. channel b' c \<noteq> Some Waiting"
    unfolding b' by (rule fail_pending_resolves)
  have "bridge_id b \<notin> session_of (inner g') p" for p
    unfolding b' session_of_def inner_cleared [OF registry_okD(1) [OF assms(4)]]
    by (auto simp: Let_def split: option.splits)
  then show ?thesis
    using wake_all [OF w, of _ n'] by (auto simp: b' fail_pending_def restrict_map_def)
qed

theorem closed_session_releases_witness:
  "\<exists>b'. fst (session_closed (snd (bridge_run ref_steps (9, bridge_new 1 ''p'')), registry_new)) = b' \<and>
     channel (snd (bridge_run (map Wake [9, 11]) (12, b'))) 11 = None"
proof -
  obtain n b where b: "bridge_run ref_steps (9, bridge_new 1 ''p'') = (n, b)" by force
  obtain b' g' where c: "session_closed (b, registry_new) = (b', g')" by force
  have "n = 12" using b by (simp add: bridge_run_def ref_steps_def)
  have "unat (9 :: u64) + length ref_steps < 2 ^ 64" by (simp add: ref_steps_def)
  moreover have "registry_ok registry_new" by (simp add: registry_ok_def registry_new_def)
  ultimately have "channel (snd (bridge_run (map Wake [9, 11]) (12, b'))) 11 = None"
    using closed_session_releases [OF _ b c] \<open>n = 12\<close> by (metis list.set_intros)
  with b c show ?thesis by simp
qed

section \<open>The registry\<close>

text \<open>
  C20.  Over any sequence of operations at times that do not decrease, the registry is the set of links its
  specification says: the urls and sessions of every peer, without duplicates, with an entry
  exactly for the peers that have a route, and a url refused exactly while it is blocked.
\<close>

theorem registry_refines_links:
  assumes "sorted (map fst ops)"
    and "g = fold registry_do ops registry_new" "l = fold links_do ops no_links"
  shows "registry_ok g \<and> url_links g = link_urls l \<and> session_links g = link_sessions l \<and>
    set (peer_ids g) = fst ` link_urls l \<union> fst ` link_sessions l \<and> distinct (peer_ids g) \<and>
    (\<exists>later. \<forall>u t. later \<le> t \<longrightarrow> blocks g u t = (t < blocked l u))"
proof -
  obtain later where i: "implements later g l"
    using implements_run [OF implements_new [of 0] assms(1)] assms(2,3) by auto
  show ?thesis
    using i peer_ids_links [OF implementsD(1) [OF i]] by (auto simp: implements_def)
qed

definition ref_ops :: "(nat \<times> registry_op) list" where
  "ref_ops = [(1, AddUrl ''cfg'' ''http://a''), (2, SetSession ''real'' 7), (3, Migrate ''cfg'' ''real''),
     (4, RemoveUrl ''real'' ''http://a''), (5, AddUrl ''real'' ''http://a'')]"

theorem registry_refines_links_witness:
  "url_links (fold registry_do ref_ops registry_new) = {} \<and>
   session_links (fold registry_do ref_ops registry_new) = {(''real'', 7)}"
proof -
  have "sorted (map fst ref_ops)" by (simp add: ref_ops_def)
  from registry_refines_links [OF this refl refl] show ?thesis
    by (simp add: ref_ops_def no_links_def renamed_def URL_DEMOTE_TTL_def)
qed

text \<open>
  A url that was dropped from the last peer listing it stays out of the registry for the whole
  of its time: no operation of any kind, on any peer, brings it back before.
\<close>

theorem demoted_url_stays_out:
  assumes "sorted (map fst (ops @ (now, RemoveUrl p u) # later))" "p \<noteq> []" "u \<noteq> []"
    and "\<forall>q. q \<noteq> p \<longrightarrow> u \<notin> url_of (inner (fold registry_do ops registry_new)) q"
    and "\<forall>t \<in> fst ` set later. t < now + URL_DEMOTE_TTL"
  shows "u \<notin> url_of (inner (fold registry_do (ops @ (now, RemoveUrl p u) # later) registry_new)) q"
proof -
  let ?l = "links_do (now, RemoveUrl p u) (fold links_do ops no_links)"
  have sorted: "sorted (map fst ops)" "\<forall>t \<in> fst ` set later. now \<le> t"
    using assms(1) by (auto simp: sorted_append)
  obtain t0 where i0: "implements t0 (fold registry_do ops registry_new) (fold links_do ops no_links)"
    using implements_run [OF implements_new [of 0] sorted(1)] by auto
  have "shunned (now + URL_DEMOTE_TTL) u ?l"
    using assms(2-4) implementsD(2) [OF i0] by (auto simp: shunned_def url_links_def)
  then have s: "shunned (now + URL_DEMOTE_TTL) u (fold links_do later ?l)"
    by (rule shunned_run) (use assms(5) sorted(2) in auto)
  obtain t1 where i1: "implements t1 (fold registry_do (ops @ (now, RemoveUrl p u) # later) registry_new)
      (fold links_do (ops @ (now, RemoveUrl p u) # later) no_links)"
    using implements_run [OF implements_new [of 0] assms(1)] by auto
  have eq: "fold links_do (ops @ (now, RemoveUrl p u) # later) no_links = fold links_do later ?l"
    by (simp only: fold_append fold.simps comp_apply)
  have "u \<notin> snd ` url_links (fold registry_do (ops @ (now, RemoveUrl p u) # later) registry_new)"
    using s unfolding implementsD(2) [OF i1, symmetric] eq by (rule shunned_def [THEN iffD1, THEN conjunct2])
  then show ?thesis by (force simp: url_links_def)
qed

theorem demoted_url_stays_out_witness:
  "''http://a'' \<notin> url_of (inner (fold registry_do ref_ops registry_new)) ''real''"
proof -
  let ?ops = "take 3 ref_ops"
  have all: "ref_ops = ?ops @ (4, RemoveUrl ''real'' ''http://a'') # drop 4 ref_ops"
    by (simp add: ref_ops_def)
  have inner: "inner (fold registry_do ?ops registry_new) = [(''real'', \<lparr>urls = [''http://a''], sessions = [7]\<rparr>)]"
    by (simp add: ref_ops_def registry_new_def add_url_def set_session_def migrate_peer_id_def is_demoted_def
        upsert_def routes_default_def push_new_def merge_routes_def)
  have "''http://a'' \<notin> url_of (inner (fold registry_do
      (?ops @ (4, RemoveUrl ''real'' ''http://a'') # drop 4 ref_ops) registry_new)) ''real''"
  proof (rule demoted_url_stays_out)
    show "\<forall>q. q \<noteq> ''real'' \<longrightarrow> ''http://a'' \<notin> url_of (inner (fold registry_do ?ops registry_new)) q"
      unfolding inner by (simp add: url_of_def)
  qed (simp_all add: ref_ops_def URL_DEMOTE_TTL_def)
  then show ?thesis unfolding all [symmetric] .
qed

section \<open>The service\<close>

text \<open>
  C18.  A request for one slot is always answered on a healthy database: with \<open>final_known\<close> false
  when there is no FINAL row, and otherwise with the verdict of the row and, for exactly the parts
  asked for, lists the receiver decodes to the block and its stored operations, the events and messages of the
  slot, and its transfers and calls.
\<close>

theorem served_slot_described:
  assumes "db_ok E R" "exec_good E R s"
  shows "\<exists>r. build_final_slot_response E s p t parts = Some (Inr r) \<and>
    (case slot_at E (table R s CF_SLOT) (Slot p t) of
       Some st \<Rightarrow> if st_status st = SlotFinal then serves E R s st parts r else r = unknown_slot p (ucast t)
     | None \<Rightarrow> r = unknown_slot p (ucast t))"
  by (rule build_slot_run [OF assms])

lemma ref_log_table: "c \<noteq> CF_SLOT \<Longrightarrow> table ref_rows ref_log c = Map.empty"
  by (rule ext) (simp add: table_def ref_rows_def ref_log_def)

lemma ref_log_good: "exec_good ref_node ref_rows ref_log"
  by (simp add: exec_good_def db_good_def ref_log_slots exact_def rows_ok_def ref_log_table
      transfer_ics_def event_ics_def async_ics_def deferred_ics_def)

lemma ref_final_fields:
  "st_slot ref_final = Slot 5 3" "st_status ref_final = SlotFinal"
  "st_execution_trail_hash ref_final = Some ''trail''" "st_final_block_id ref_final = Some (nblock 1)"
  by (simp_all add: ref_final_def fresh_def)

theorem served_slot_described_witness:
  "\<exists>r. build_final_slot_response ref_node ref_log 5 3 parts_default = Some (Inr r) \<and>
     fr_final_known r \<and> fr_execution_trail_hash r = ''trail'' \<and> fr_final_block_id r = id_text (nblock 1)"
  using served_slot_described [OF ref_node_ok ref_log_good, of 5 3 parts_default]
  by (auto simp: ref_log_at ref_final_fields serves_def serves_head_def)

text \<open>
  C19.  A range request is answered, newest slot first, with every FINAL row of the range among
  the newest rows at or below its upper end, as many as the limit admits, each described as a request for
  that slot would.
\<close>

theorem stream_range_complete:
  assumes "db_ok E R" "exec_good E R s" "slot_table_ok E (table R s)"
    and "u8_try (fs_from_thread rq) = Some ft" "u8_try (fs_to_thread rq) = Some tt"
    and "from = Slot (fs_from_period rq) ft" "to = Slot (fs_to_period rq) tt"
    and "\<not> slot_before to from" "0 < stream_limit sv (fs_limit rq)"
  shows "\<exists>rs. stream_final_slots E sv s rq = Inr (map Inr rs) \<and>
    list_all2 (\<lambda>st r. serves E R s st (unwrap_or parts_default (fs_parts rq)) r)
      (filter (\<lambda>st. st_status st = SlotFinal \<and> \<not> slot_before (st_slot st) from)
        (take (stream_limit sv (fs_limit rq)) (rows_below E R s to))) rs"
  using stream_range_run [OF assms(1-5), of sv] assms(6-9) by simp

theorem stream_range_complete_witness:
  "\<exists>r. stream_final_slots ref_node (service_new ''me'' ''net'' ''1'' []) ref_log
       \<lparr>fs_from_period = 4, fs_from_thread = 0, fs_to_period = 6, fs_to_thread = 31, fs_parts = None,
        fs_limit = 0\<rparr> = Inr [Inr r] \<and> fr_period r = 5"
proof -
  let ?rq = "\<lparr>fs_from_period = 4, fs_from_thread = 0, fs_to_period = 6, fs_to_thread = 31, fs_parts = None,
        fs_limit = 0\<rparr>"
  let ?sv = "service_new ''me'' ''net'' ''1'' []"
  note slot = ref_final_fields
  have ok: "slot_table_ok ref_node (table ref_rows ref_log)"
    by (simp add: slot_table_ok_def ref_log_row ref_log_decode slot)
      (simp add: slot_row_key_def max_slot_key_def less_imp_le slot_key_less)
  have "slot_listing ref_node (ref_rows ref_log CF_SLOT) = [(slot_row_key (Slot 5 3), ref_final)]"
    by (simp add: slot_listing_def ref_rows_def ref_log_def ref_log_decode)
  then have below: "rows_below ref_node ref_rows ref_log (Slot 6 31) = [ref_final]"
    by (simp add: rows_below_def slot slot_before_def)
  have lim: "stream_limit ?sv 0 = 512"
    by (simp add: stream_limit_def service_new_def)
  have "\<exists>rs. stream_final_slots ref_node ?sv ref_log ?rq = Inr (map Inr rs) \<and>
    list_all2 (\<lambda>st r. serves ref_node ref_rows ref_log st (unwrap_or parts_default (fs_parts ?rq)) r)
      (filter (\<lambda>st. st_status st = SlotFinal \<and> \<not> slot_before (st_slot st) (Slot 4 0))
        (take (stream_limit ?sv (fs_limit ?rq)) (rows_below ref_node ref_rows ref_log (Slot 6 31)))) rs"
    by (rule stream_range_complete [OF ref_node_ok ref_log_good ok, where ft = 0 and tt = 31])
      (simp_all add: u8_try_def slot_before_def lim)
  then show ?thesis
    unfolding below by (auto simp: lim slot slot_before_def list_all2_Cons1 serves_def serves_head_def)
qed

text \<open>
  C17.  A slot pulled over a session, from end to end: the request a caller opens is answered by
  the remote's session with what its database says of the slot, under the caller's correlation
  id, and the caller returns exactly that answer.
\<close>

theorem session_pull_end_to_end:
  assumes "db_ok E R" "exec_good E R s" "bridge_ok (n, b)" "opened = open_request n p t parts True b"
  shows "\<exists>r. session_message_in E s (slot_request_msg n p t parts) far =
      Some ([\<lparr>sm_id = n, sm_body = Some (SlotResponse r)\<rparr>], far) \<and>
    (case slot_at E (table R s CF_SLOT) (Slot p t) of
       Some st \<Rightarrow> if st_status st = SlotFinal then serves E R s st parts r else r = unknown_slot p (ucast t)
     | None \<Rightarrow> r = unknown_slot p (ucast t)) \<and>
    session_message_in E' s' \<lparr>sm_id = n, sm_body = Some (SlotResponse r)\<rparr> opened =
      Some ([], complete n r opened) \<and>
    returned (wake n (complete n r opened)) = returned b @ [(n, Inr r)]"
proof -
  obtain r where r: "build_final_slot_response E s p t parts = Some (Inr r)"
      "case slot_at E (table R s CF_SLOT) (Slot p t) of
         Some st \<Rightarrow> if st_status st = SlotFinal then serves E R s st parts r else r = unknown_slot p (ucast t)
       | None \<Rightarrow> r = unknown_slot p (ucast t)"
    using build_slot_run [OF assms(1,2), of p t parts] by (elim exE conjE) (rule that)
  have "u8_try (ucast t) = Some t"
    using unsigned_less [of t, where ?'a = nat] by (simp add: u8_try_def unsigned_ucast_eq take_bit_nat_eq_self take_bit_word_eq_self)
  then have "session_message_in E s (slot_request_msg n p t parts) far =
      Some ([\<lparr>sm_id = n, sm_body = Some (SlotResponse r)\<rparr>], far)"
    using r(1) by (simp add: session_message_in_def slot_request_msg_def serve_request_def)
  moreover have "returned (wake n (complete n r opened)) = returned b @ [(n, Inr r)]"
    by (simp add: assms(4) open_request_def complete_def wake_def give_back_def forget_def)
  ultimately show ?thesis
    using r(2) by (intro exI [of _ r]) (simp add: session_message_in_def)
qed

theorem session_pull_end_to_end_witness:
  "\<exists>r. session_message_in ref_node ref_log (slot_request_msg 9 5 3 parts_default) (bridge_new 2 ''a'') =
      Some ([\<lparr>sm_id = 9, sm_body = Some (SlotResponse r)\<rparr>], bridge_new 2 ''a'') \<and> fr_final_known r"
proof -
  have "bridge_ok (9, bridge_new 1 ''b'')" by simp
  from session_pull_end_to_end [OF ref_node_ok ref_log_good this refl,
      of 5 3 parts_default "bridge_new 2 ''a''" ref_node "[]"]
  show ?thesis
    by (auto simp: ref_log_at ref_final_fields serves_def serves_head_def)
qed

end
