(* ===== verification/Ddb.thy ===== *)
theory Ddb
  imports Ingest_Base
begin

text \<open>
  The DynamoDB client of the legacy archive (\<open>legacy/ddb.rs\<close>, \<open>legacy/config.rs\<close>, \<open>legacy/sigv4.rs\<close>): attribute
  values, rows, the calls as the archive answers them, the runtime configuration, the conversion of a
  Unix time to the UTC date a request is signed with, and the AWS Signature V4 signer.  Numbers arrive as decimal texts.  A hash
  map is an association list without repeated keys.  SHA-256 is the field of \<open>crates\<close>, HMAC a further
  parameter \<open>hmac\<close>.
\<close>

section \<open>Attribute values and rows\<close>

datatype attribute_value =
  AttributeValue
    (av_s: "string option") (av_n: "string option") (av_b: "string option")
    (av_bool: "bool option") (av_null: "bool option")
    (av_m: "(string \<times> attribute_value) list option") (av_l: "attribute_value list option")

type_synonym item = "(string \<times> attribute_value) list"

definition av_default :: attribute_value where
  "av_default = AttributeValue None None None None None None None"

definition s_str :: "string \<Rightarrow> attribute_value" where
  "s_str t = AttributeValue (Some t) None None None None None None"

definition n_num :: "nat \<Rightarrow> attribute_value" where
  "n_num n = AttributeValue None (Some (show_nat n)) None None None None None"

definition av_bytes :: "'x crates_scheme \<Rightarrow> attribute_value \<Rightarrow> bytes option" where
  "av_bytes C v = Option.bind (av_b v) (b64dec C)"

section \<open>Calls\<close>

datatype ddb_error = Status nat string | Transport string | DdbParse string

record query_output =
  qo_items :: "item list"
  qo_last_evaluated_key :: "item option"
  qo_count :: i64

record query_request =
  qr_table_name :: string
  qr_index_name :: "string option"
  qr_key_condition_expression :: string
  qr_expression_attribute_names :: "(string \<times> string) list"
  qr_expression_attribute_values :: "(string \<times> attribute_value) list"
  qr_limit :: "nat option"
  qr_exclusive_start_key :: "item option"
  qr_scan_index_forward :: "bool option"
  qr_consistent_read :: "bool option"

definition query_default :: query_request where
  "query_default =
     \<lparr>qr_table_name = [], qr_index_name = None, qr_key_condition_expression = [],
      qr_expression_attribute_names = [], qr_expression_attribute_values = [], qr_limit = None,
      qr_exclusive_start_key = None, qr_scan_index_forward = None, qr_consistent_read = None\<rparr>"

record batch_get_item_output =
  bg_responses :: "(string \<times> item list) list"
  bg_unprocessed_keys :: "(string \<times> item list) list"

text \<open>The remote service: what \<open>GetItem\<close>, \<open>Query\<close> and \<open>BatchGetItem\<close> answer.\<close>

record ddb_client =
  get_item :: "string \<Rightarrow> item \<Rightarrow> ddb_error + item option"
  ddb_query :: "query_request \<Rightarrow> ddb_error + query_output"
  batch_get :: "string \<Rightarrow> item list \<Rightarrow> ddb_error + batch_get_item_output"

section \<open>Configuration\<close>

record legacy_ddb_cfg =
  lc_region :: string
  lc_blocks_table :: string
  lc_operations_table :: string
  lc_max_period :: "u64 option"

definition endpoint :: "legacy_ddb_cfg \<Rightarrow> string" where
  "endpoint cfg = ''https://dynamodb.'' @ lc_region cfg @ ''.amazonaws.com''"

definition within_window :: "legacy_ddb_cfg \<Rightarrow> u64 \<Rightarrow> bool" where
  "within_window cfg period = (case lc_max_period cfg of Some m \<Rightarrow> period \<le> m | None \<Rightarrow> True)"

section \<open>Numbers in texts\<close>

text \<open>
  \<open>str::parse\<close> for the integer types: an optional sign, at least one digit, and a value within
  the type's range.  Only a signed type accepts a minus sign.
\<close>

fun parse_dec :: "nat \<Rightarrow> nat \<Rightarrow> string \<Rightarrow> nat option" where
  "parse_dec bound acc [] = Some acc"
| "parse_dec bound acc (c # cs) =
     (case digit_value c of
        None \<Rightarrow> None
      | Some d \<Rightarrow> if acc * 10 + d < bound then parse_dec bound (acc * 10 + d) cs else None)"

definition parse_unsigned :: "nat \<Rightarrow> string \<Rightarrow> nat option" where
  "parse_unsigned bound t =
     (let digits = (case t of c # cs \<Rightarrow> if c = CHR ''+'' then cs else t | [] \<Rightarrow> t)
      in if digits = [] then None else parse_dec bound 0 digits)"

definition parse_u64 :: "string \<Rightarrow> u64 option" where
  "parse_u64 t = map_option word_of_nat (parse_unsigned (2 ^ 64) t)"

definition parse_i64 :: "string \<Rightarrow> i64 option" where
  "parse_i64 t =
     (case t of
        c # cs \<Rightarrow>
          if c = CHR ''-''
          then if cs = [] then None
               else map_option (\<lambda>n. - word_of_nat n) (parse_dec (2 ^ 63 + 1) 0 cs)
          else map_option word_of_nat (parse_unsigned (2 ^ 63) t)
      | [] \<Rightarrow> None)"

section \<open>Dates\<close>

text \<open>
  The civil date of a day number, by eras of 400 years that start in March.  For a time from 0 on
  every intermediate value is non-negative and far below \<open>2 ^ 63\<close>; only the final year is cut to
  32 bits.
\<close>

definition era_of :: "nat \<Rightarrow> nat \<times> nat" where
  "era_of day = (let z = day + 719468; era = z div 146097 in (era, z - era * 146097))"

definition year_of_era :: "nat \<Rightarrow> nat" where
  "year_of_era doe = (doe - doe div 1460 + doe div 36524 - doe div 146096) div 365"

definition day_of_year :: "nat \<Rightarrow> nat \<Rightarrow> nat" where
  "day_of_year doe yoe = doe - (365 * yoe + yoe div 4 - yoe div 100)"

definition month_day :: "nat \<Rightarrow> nat \<times> nat" where
  "month_day doy =
     (let mp = (5 * doy + 2) div 153
      in (if mp < 10 then mp + 3 else mp - 9, doy - (153 * mp + 2) div 5 + 1))"

definition civil_from_days :: "nat \<Rightarrow> nat \<times> nat \<times> nat" where
  "civil_from_days day =
     (case era_of day of
        (era, doe) \<Rightarrow>
          (let yoe = year_of_era doe; y = yoe + era * 400
           in case month_day (day_of_year doe yoe) of (m, d) \<Rightarrow> (if m \<le> 2 then y + 1 else y, m, d)))"

definition epoch_to_utc :: "i64 \<Rightarrow> i32 \<times> nat \<times> nat \<times> nat \<times> nat \<times> nat" where
  "epoch_to_utc secs =
     (let s = nat (max (sint secs) 0); r = s mod 86400
      in case civil_from_days (s div 86400) of
           (y, m, d) \<Rightarrow> (word_of_nat y, m, d, r div 3600, (r div 60) mod 60, r mod 60))"

text \<open>\<open>{:02}\<close> and \<open>{:04}\<close>.\<close>

definition pad :: "nat \<Rightarrow> string \<Rightarrow> string" where
  "pad k t = replicate (k - length t) (CHR ''0'') @ t"

definition show_year :: "i32 \<Rightarrow> string" where
  "show_year y =
     (if sint y < 0 then CHR ''-'' # pad 3 (show_nat (nat (- sint y))) else pad 4 (show_nat (nat (sint y))))"

text \<open>The \<open>amz_date\<close> and the \<open>date\<close> of a time.\<close>

definition chrono_now :: "i64 \<Rightarrow> string \<times> string" where
  "chrono_now secs =
     (case epoch_to_utc secs of
        (y, m, d, h, mi, s) \<Rightarrow>
          (let date = show_year y @ pad 2 (show_nat m) @ pad 2 (show_nat d)
           in (date @ ''T'' @ pad 2 (show_nat h) @ pad 2 (show_nat mi) @ pad 2 (show_nat s) @ ''Z'', date)))"

section \<open>Request signatures\<close>

definition hex_lower :: "bytes \<Rightarrow> string" where
  "hex_lower = hex_encode"

definition sha256_hex :: "'x crates_scheme \<Rightarrow> bytes \<Rightarrow> string" where
  "sha256_hex C b = hex_lower (sha256 C b)"

record sign_input =
  si_access_key_id :: string
  si_secret_access_key :: string
  si_session_token :: string
  si_region :: string
  si_host :: string
  si_target :: string
  si_body :: bytes
  si_amz_date :: string
  si_date :: string

record signed_headers =
  hd_authorization :: string
  hd_amz_date :: string
  hd_amz_target :: string
  hd_amz_content_sha256 :: string
  hd_host :: string
  hd_session_token :: "string option"

abbreviation newline :: string where "newline \<equiv> [CHR 0x0A]"

text \<open>The canonical headers and the list of their names, as they are appended.\<close>

definition canonical_headers :: "'x crates_scheme \<Rightarrow> sign_input \<Rightarrow> string \<times> string" where
  "canonical_headers C inp =
     (let h1 = ''content-type:application/x-amz-json-1.0'' @ newline @
               ''host:'' @ si_host inp @ newline @
               ''x-amz-content-sha256:'' @ sha256_hex C (si_body inp) @ newline @
               ''x-amz-date:'' @ si_amz_date inp @ newline;
          n1 = ''content-type;host;x-amz-content-sha256;x-amz-date'';
          h2 = (if si_session_token inp \<noteq> []
                then h1 @ ''x-amz-security-token:'' @ si_session_token inp @ newline else h1);
          n2 = (if si_session_token inp \<noteq> [] then n1 @ '';x-amz-security-token'' else n1)
      in (h2 @ ''x-amz-target:'' @ si_target inp @ newline, n2 @ '';x-amz-target''))"

definition canonical_request :: "'x crates_scheme \<Rightarrow> sign_input \<Rightarrow> string" where
  "canonical_request C inp =
     (case canonical_headers C inp of
        (headers, names) \<Rightarrow>
          ''POST'' @ newline @ ''/'' @ newline @ newline @ headers @ newline @ names @ newline @
          sha256_hex C (si_body inp))"

definition scope :: "sign_input \<Rightarrow> string" where
  "scope inp = si_date inp @ ''/'' @ si_region inp @ ''/dynamodb/aws4_request''"

definition string_to_sign :: "'x crates_scheme \<Rightarrow> sign_input \<Rightarrow> string" where
  "string_to_sign C inp =
     ''AWS4-HMAC-SHA256'' @ newline @ si_amz_date inp @ newline @ scope inp @ newline @
     sha256_hex C (str_bytes (canonical_request C inp))"

definition signing_key :: "(bytes \<Rightarrow> bytes \<Rightarrow> bytes) \<Rightarrow> sign_input \<Rightarrow> bytes" where
  "signing_key hmac inp =
     (let k_date = hmac (str_bytes (''AWS4'' @ si_secret_access_key inp)) (str_bytes (si_date inp));
          k_region = hmac k_date (str_bytes (si_region inp));
          k_service = hmac k_region (str_bytes ''dynamodb'')
      in hmac k_service (str_bytes ''aws4_request''))"

definition sign :: "(bytes \<Rightarrow> bytes \<Rightarrow> bytes) \<Rightarrow> 'x crates_scheme \<Rightarrow> sign_input \<Rightarrow> signed_headers" where
  "sign hmac C inp =
     \<lparr>hd_authorization =
        ''AWS4-HMAC-SHA256 Credential='' @ si_access_key_id inp @ ''/'' @ scope inp @
        '', SignedHeaders='' @ snd (canonical_headers C inp) @ '', Signature='' @
        hex_lower (hmac (signing_key hmac inp) (str_bytes (string_to_sign C inp))),
      hd_amz_date = si_amz_date inp, hd_amz_target = si_target inp,
      hd_amz_content_sha256 = sha256_hex C (si_body inp), hd_host = si_host inp,
      hd_session_token = (if si_session_token inp = [] then None else Some (si_session_token inp))\<rparr>"

end
