(* ===== verification/Legacy.thy ===== *)
theory Legacy
  imports Ingest Ddb
begin

text \<open>
  Decoding the rows of the legacy archive (\<open>legacy/mod.rs\<close>, \<open>legacy/decode.rs\<close>): blocks,
  operations and endorsements from the protobuf bytes the archive keeps, transfers from operations
  and from the archive's sub-transfer rows, and the fields of a row.  Decoding the
  protobuf bytes is a parameter; its error is the text it prints.
\<close>

section \<open>Parameters\<close>

record block_msg =
  bm_header :: "signed_block_header option"
  bm_operations :: "string list"

record block_wrapper =
  bw_block :: "block_msg option"

record operation_wrapper =
  ow_operation :: "signed_operation option"

record ('s, 'v) legacy_ext = "('s, 'v) node_ext" +
  dec_block_wrapper :: "bytes \<Rightarrow> string + block_wrapper"
  dec_operation_wrapper :: "bytes \<Rightarrow> string + operation_wrapper"
  dec_endorsement :: "bytes \<Rightarrow> string + signed_endorsement"

section \<open>Points in time\<close>

text \<open>The descending key of a slot in the archive, saturating, and its inverse.\<close>

definition sat_to :: "nat \<Rightarrow> nat \<Rightarrow> nat" where
  "sat_to bound n = min n (bound - 1)"

definition point_in_time :: "u64 \<Rightarrow> u8 \<Rightarrow> u32" where
  "point_in_time period thread =
     (let combined = sat_to (2 ^ 64) (sat_to (2 ^ 64) (unat period * 100) + unat thread)
      in - 1 - word_of_nat (min combined (2 ^ 32 - 1)))"

definition point_in_time_to_slot :: "u32 \<Rightarrow> slot" where
  "point_in_time_to_slot pit =
     (let combined = ucast (- 1 - pit) :: u64
      in Slot (combined div 100) (ucast (combined mod 100)))"

section \<open>Errors\<close>

datatype decode_error = MissingField string | InvalidId string | Proto string | Attr string

section \<open>Operation types, endorsements, denunciations\<close>

definition classify_op_type ::
  "'x crates_scheme \<Rightarrow> operation_type option \<Rightarrow> operation_kind \<times> address option \<times> operation_details" where
  "classify_op_type C op_t =
     (case op_t of
        None \<Rightarrow> (KindUnknown, None, details_default)
      | Some o1 \<Rightarrow>
          (case ot_type o1 of
             None \<Rightarrow> (KindUnknown, None, details_default)
           | Some (OpTransaction recipient amount) \<Rightarrow>
               (Transaction, res_ok (addr_parse C recipient),
                details_default\<lparr>od_amount_nmas := map_option na_mantissa amount,
                                od_recipient_address := Some recipient\<rparr>)
           | Some (OpRollBuy' n) \<Rightarrow> (RollBuy, None, details_default\<lparr>od_roll_count := Some n\<rparr>)
           | Some (OpRollSell' n) \<Rightarrow> (RollSell, None, details_default\<lparr>od_roll_count := Some n\<rparr>)
           | Some (OpExecuteSC data max_coins max_gas datastore) \<Rightarrow>
               (ExecuteSc, None,
                details_default\<lparr>od_bytecode_hex := Some (hex_encode data),
                                od_bytecode_size := Some (word_of_nat (length data)),
                                od_max_coins_nmas := Some max_coins, od_max_gas := Some max_gas,
                                od_datastore_keys := Some (word_of_nat (length datastore)),
                                od_datastore :=
                                  map (\<lambda>e. \<lparr>ds_key_hex = hex_encode (be_key e),
                                           ds_value_hex = hex_encode (be_value e)\<rparr>) datastore\<rparr>)
           | Some (OpCallSC target_address target_function parameter max_gas coins) \<Rightarrow>
               (CallSc, res_ok (addr_parse C target_address),
                details_default\<lparr>od_target_address := Some target_address,
                                od_target_function := Some target_function,
                                od_parameter_hex := Some (hex_encode parameter),
                                od_parameter_len := Some (word_of_nat (length parameter)),
                                od_max_gas := Some max_gas,
                                od_coins_nmas := map_option na_mantissa coins\<rparr>)))"

definition decode_signed_endorsement ::
  "'x crates_scheme \<Rightarrow> signed_endorsement \<Rightarrow> block_id \<Rightarrow> slot \<Rightarrow> i64 \<Rightarrow> stored_endorsement option" where
  "decode_signed_endorsement C se including_block including_slot now_ms =
     (case se_content se of
        None \<Rightarrow> None
      | Some content \<Rightarrow>
          (case ne_slot content of
             None \<Rightarrow> None
           | Some s \<Rightarrow>
               (case addr_parse C (se_content_creator_address se) of
                  Inl e \<Rightarrow> None
                | Inr creator \<Rightarrow>
                    Some \<lparr>en_id = se_secure_hash se, en_slot = Slot (ns_period s) (ucast (ns_thread s)),
                          en_index = ne_index content, en_endorsed_block_id = ne_endorsed_block content,
                          en_content_creator_pub_key = se_content_creator_pub_key se,
                          en_content_creator_address = creator, en_signature = se_signature se,
                          en_serialized_size = se_serialized_size se,
                          en_included_block_id = id_text including_block,
                          en_included_slot = including_slot, en_first_seen_ts_ms = now_ms\<rparr>)))"

definition den_slot :: "nslot option \<Rightarrow> slot" where
  "den_slot s = (case s of Some n \<Rightarrow> Slot (ns_period n) (ucast (ns_thread n)) | None \<Rightarrow> Slot 0 0)"

definition decode_denunciation :: "denunciation_msg \<Rightarrow> stored_denunciation" where
  "decode_denunciation d =
     (case dm_entry d of
        Some (NBlockHeader public_key s hash_1 hash_2 signature_1 signature_2) \<Rightarrow>
          DenBlockHeader public_key (den_slot s) hash_1 hash_2 signature_1 signature_2
      | Some (NEndorsement public_key s index hash_1 hash_2 signature_1 signature_2) \<Rightarrow>
          DenEndorsement public_key (den_slot s) index hash_1 hash_2 signature_1 signature_2
      | Some (NAddress address_denounced s slashed) \<Rightarrow>
          DenAddress address_denounced (den_slot s)
            (case slashed of Some v \<Rightarrow> na_mantissa v | None \<Rightarrow> 0)
      | None \<Rightarrow> DenUnknown)"

section \<open>Rows\<close>

record block_row =
  br_hash :: string
  br_raw :: bytes
  br_slot :: slot
  br_creator_address :: string

definition invalid_id :: "string \<Rightarrow> string + 'a \<Rightarrow> decode_error + 'a" where
  "invalid_id what = rmap_err (\<lambda>e. InvalidId (what @ '': '' @ e))"

definition decode_block_row ::
  "('s, 'v, 'x) legacy_ext_scheme \<Rightarrow> block_row \<Rightarrow> i64 \<Rightarrow>
   decode_error + stored_block \<times> string list \<times> stored_endorsement list" where
  "decode_block_row E row now_ms =
     rbind (rmap_err Proto (dec_block_wrapper E (br_raw row))) (\<lambda>bw.
     rbind (ok_or (MissingField ''block'') (bw_block bw)) (\<lambda>block.
     rbind (ok_or (MissingField ''block.header'') (bm_header block)) (\<lambda>hdr.
     rbind (ok_or (MissingField ''block.header.content'') (sh_content hdr)) (\<lambda>block_hdr.
     rbind (invalid_id (''block hash '' @ br_hash row) (block_parse E (br_hash row))) (\<lambda>bid.
     rbind (invalid_id (''creator '' @ br_creator_address row) (addr_parse E (br_creator_address row))) (\<lambda>creator.
     let endorsements =
           List.map_filter (\<lambda>se. decode_signed_endorsement E se bid (br_slot row) now_ms)
             (bh_endorsements block_hdr);
         operation_ids = bm_operations block
     in Inr (\<lparr>bk_id = bid, bk_slot = br_slot row, bk_creator = creator,
              bk_parents = List.map_filter (\<lambda>p. res_ok (block_parse E p)) (bh_parents block_hdr),
              bk_operation_ids = List.map_filter (\<lambda>s. res_ok (op_parse E s)) operation_ids,
              bk_endorsements = endorsements, bk_endorsement_ids = map en_id endorsements,
              bk_denunciations = map decode_denunciation (bh_denunciations block_hdr),
              bk_current_version = bh_current_version block_hdr,
              bk_announced_version = bh_announced_version block_hdr,
              bk_operations_hash = bh_operations_hash block_hdr,
              bk_signature = sh_signature hdr,
              bk_content_creator_pub_key = sh_content_creator_pub_key hdr,
              bk_serialized_size = sh_serialized_size hdr,
              bk_raw_signed_header_b64 = b64enc E (pb_header E hdr),
              bk_status = BlockFinal, bk_first_seen_ts_ms = now_ms\<rparr>,
             operation_ids, endorsements)))))))"

record op_row =
  or_hash :: string
  or_raw :: bytes
  or_status :: i64
  or_block_hash :: string
  or_slot :: slot

record decoded_op =
  do_stored :: stored_operation
  do_executed :: bool

definition legacy_exec_status :: "i64 \<Rightarrow> exec_status option" where
  "legacy_exec_status status =
     (if status = 1 then Some ExecOk else if status = 2 then Some ExecFailed else None)"

definition decode_op_row ::
  "('s, 'v, 'x) legacy_ext_scheme \<Rightarrow> op_row \<Rightarrow> i64 \<Rightarrow> decode_error + decoded_op" where
  "decode_op_row E row now_ms =
     rbind (rmap_err Proto (dec_operation_wrapper E (or_raw row))) (\<lambda>wrapper.
     rbind (ok_or (MissingField ''operation_wrapper.operation'') (ow_operation wrapper)) (\<lambda>signed.
     rbind (ok_or (MissingField ''operation.content'') (so_content signed)) (\<lambda>content.
     rbind (invalid_id (''op id '' @ or_hash row) (op_parse E (or_hash row))) (\<lambda>ident.
     rbind (invalid_id (''block id '' @ or_block_hash row) (block_parse E (or_block_hash row))) (\<lambda>bid.
     rbind (invalid_id ''op creator'' (addr_parse E (so_content_creator_address signed))) (\<lambda>creator.
     case classify_op_type E (no_op content) of (kind, target, details) \<Rightarrow>
       Inr \<lparr>do_stored =
              \<lparr>op_id = ident, op_creator = creator, op_target = target, op_kind = kind,
               op_expire_period = no_expire_period content,
               op_fee_nmas = (case no_fee content of Some a \<Rightarrow> na_mantissa a | None \<Rightarrow> 0),
               op_thread = sl_thread (or_slot row),
               op_inclusions = [\<lparr>oi_slot = or_slot row, oi_block_id = bid\<rparr>],
               op_candidate_exec_status = None,
               op_final_exec_status = legacy_exec_status (or_status row),
               op_details = details, op_signature = so_signature signed,
               op_content_creator_pub_key = so_content_creator_pub_key signed,
               op_serialized_size = so_serialized_size signed,
               op_raw_signed_op_b64 = b64enc E (pb_operation E signed),
               op_first_seen_ts_ms = now_ms\<rparr>,
            do_executed = (or_status row = 1)\<rparr>))))))"

definition decode_endorsement_row ::
  "('s, 'v, 'x) legacy_ext_scheme \<Rightarrow> string \<Rightarrow> bytes \<Rightarrow> string \<Rightarrow> slot \<Rightarrow> i64 \<Rightarrow>
   decode_error + stored_endorsement" where
  "decode_endorsement_row E hash payload block_hash block_slot now_ms =
     rbind (rmap_err Proto (dec_endorsement E payload)) (\<lambda>signed.
     rbind (invalid_id ''endo block id'' (block_parse E block_hash)) (\<lambda>bid.
     ok_or (MissingField ''endorsement.content'')
       (map_option (\<lambda>e. e\<lparr>en_id := hash\<rparr>)
          (decode_signed_endorsement E signed bid block_slot now_ms))))"

section \<open>Transfers\<close>

definition legacy_op_to_transfer ::
  "stored_operation \<Rightarrow> slot \<Rightarrow> string \<Rightarrow> u32 \<Rightarrow> i64 \<Rightarrow> stored_transfer option" where
  "legacy_op_to_transfer op sl bid index ts =
     (if op_kind op \<noteq> Transaction then None
      else (case od_amount_nmas (op_details op) of
        None \<Rightarrow> None
      | Some amount \<Rightarrow>
          if amount = 0 then None
          else (case od_recipient_address (op_details op) of
            None \<Rightarrow> None
          | Some to \<Rightarrow>
              Some \<lparr>tr_slot = sl, tr_index_in_slot = index,
                    tr_id = id_text (op_id op) @ '':'' @ show_nat (unat index),
                    tr_block_id = Some bid, tr_block_timestamp_ms = ts,
                    tr_from = Some (addr_text (op_creator op)), tr_to = Some to,
                    tr_value = Coins amount, tr_origin = OpTransactionCoins,
                    tr_operation_id = Some (id_text (op_id op)), tr_async_msg_id = None,
                    tr_deferred_call_id = None, tr_denunciation_index = None,
                    tr_is_final = True, tr_first_seen_ts_ms = ts\<rparr>)))"

record sub_transfer_row =
  sr_hash :: string
  sr_status :: i64
  sr_original_op_id :: "string option"
  sr_slot_and_asc_index :: "string option"
  sr_creator_address :: string
  sr_other_address :: "string option"
  sr_amount_nmas :: u64

text \<open>The part of a text before the first underscore, if it has one.\<close>

definition before_underscore :: "string \<Rightarrow> string option" where
  "before_underscore t =
     (if CHR ''_'' \<in> set t then Some (takeWhile (\<lambda>c. c \<noteq> CHR ''_'') t) else None)"

definition real_text :: "string \<Rightarrow> bool" where
  "real_text t \<longleftrightarrow> t \<noteq> [] \<and> t \<noteq> ''0''"

definition filter_opt :: "('a \<Rightarrow> bool) \<Rightarrow> 'a option \<Rightarrow> 'a option" where
  "filter_opt p x = (case x of Some y \<Rightarrow> if p y then Some y else None | None \<Rightarrow> None)"

definition sub_transfer_origin :: "bool \<Rightarrow> bool \<Rightarrow> coin_origin" where
  "sub_transfer_origin op_driven slot_bound =
     (if op_driven then AbiTransferCoins else if slot_bound then BlockReward else OtherOrigin 0)"

definition legacy_sub_transfer_to_transfer ::
  "sub_transfer_row \<Rightarrow> slot \<Rightarrow> string option \<Rightarrow> u32 \<Rightarrow> i64 \<Rightarrow> stored_transfer option" where
  "legacy_sub_transfer_to_transfer row sl bid index ts =
     (if sr_status row \<noteq> 1 then None
      else if sr_amount_nmas row = 0 then None
      else
        (let column_op_id = filter_opt real_text (sr_original_op_id row);
             parent_op = (case before_underscore (sr_hash row) of Some p \<Rightarrow> Some p | None \<Rightarrow> column_op_id);
             slot_bound = is_some (filter_opt real_text (sr_slot_and_asc_index row)) in
         Some \<lparr>tr_slot = sl, tr_index_in_slot = index, tr_id = sr_hash row, tr_block_id = bid,
               tr_block_timestamp_ms = ts, tr_from = non_empty (sr_creator_address row),
               tr_to = filter_opt real_text (sr_other_address row),
               tr_value = Coins (sr_amount_nmas row),
               tr_origin = sub_transfer_origin (is_some parent_op) slot_bound,
               tr_operation_id = parent_op, tr_async_msg_id = None, tr_deferred_call_id = None,
               tr_denunciation_index = None, tr_is_final = True, tr_first_seen_ts_ms = ts\<rparr>))"

section \<open>Fields of a row\<close>

definition item_str_opt :: "item \<Rightarrow> string \<Rightarrow> string option" where
  "item_str_opt row field = Option.bind (map_of row field) av_s"

definition item_str :: "item \<Rightarrow> string \<Rightarrow> decode_error + string" where
  "item_str row field = ok_or (MissingField field) (Option.bind (map_of row field) av_s)"

definition item_num_i64 :: "item \<Rightarrow> string \<Rightarrow> decode_error + i64" where
  "item_num_i64 row field =
     rbind (ok_or (MissingField field) (map_of row field)) (\<lambda>av.
     rbind (ok_or (Attr (field @ '' is not numeric'')) (av_n av)) (\<lambda>n.
     ok_or (Attr (field @ '' parse: '')) (parse_i64 n)))"

definition item_num_u32 :: "item \<Rightarrow> string \<Rightarrow> decode_error + u32" where
  "item_num_u32 row field =
     rbind (item_num_i64 row field) (\<lambda>n.
       if 0 \<le> sint n \<and> sint n < 2 ^ 32 then Inr (ucast n) else Inl (Attr (field @ '' not u32'')))"

definition item_bytes :: "'x crates_scheme \<Rightarrow> item \<Rightarrow> string \<Rightarrow> decode_error + bytes" where
  "item_bytes C row field =
     rbind (ok_or (MissingField field) (map_of row field)) (\<lambda>av.
     ok_or (Attr ''not B-encoded'') (av_bytes C av))"

end
