(* ===== verification/Legacy_Source.thy ===== *)
theory Legacy_Source
  imports Legacy Backfill
begin

text \<open>
  The legacy source (\<open>legacy/source.rs\<close>): what the archive holds for a slot, assembled into a final-slot
  response.  \<open>d\<close> is the archive as it answers during one lookup.  A result of \<open>None\<close> is a
  lookup that does not end, because the archive never stops paging, or a conversion that
  panics.
\<close>

section \<open>Errors\<close>

datatype legacy_error = LegacyDdb ddb_error | LegacyDecode decode_error | LegacyOther string

record legacy_fetch =
  lf_resp :: final_slot_response
  lf_rpcs :: u32

section \<open>Queries\<close>

definition slot_query :: "string \<Rightarrow> u64 \<Rightarrow> u8 \<Rightarrow> query_request" where
  "slot_query tbl period thread =
     query_default\<lparr>
       qr_table_name := tbl,
       qr_index_name := Some ''PointInTimeAndHashIndex'',
       qr_key_condition_expression := ''PointInTime = :p'',
       qr_expression_attribute_values := [('':p'', n_num (unat (point_in_time period thread)))]\<rparr>"

definition find_block_row ::
  "legacy_ddb_cfg \<Rightarrow> ddb_client \<Rightarrow> u64 \<Rightarrow> u8 \<Rightarrow> legacy_error + item option" where
  "find_block_row cfg d period thread =
     rbind (rmap_err LegacyDdb
              (ddb_query d ((slot_query (lc_blocks_table cfg) period thread)\<lparr>qr_limit := Some 1\<rparr>)))
       (\<lambda>resp. Inr (case qo_items resp of [] \<Rightarrow> None | row # _ \<Rightarrow> Some row))"

text \<open>The pages of a listing, from a start key on, until one names no further key.\<close>

partial_function (option) list_pages ::
  "(item option \<Rightarrow> ddb_error + query_output) \<Rightarrow> item option \<Rightarrow> item list \<Rightarrow>
   (legacy_error + item list) option" where
  "list_pages q last_key out =
     (case q last_key of
        Inl e \<Rightarrow> Some (Inl (LegacyDdb e))
      | Inr resp \<Rightarrow>
          (case qo_last_evaluated_key resp of
             None \<Rightarrow> Some (Inr (out @ qo_items resp))
           | Some k \<Rightarrow>
               if k = [] then Some (Inr (out @ qo_items resp))
               else list_pages q (Some k) (out @ qo_items resp)))"

definition list_slot_rows ::
  "legacy_ddb_cfg \<Rightarrow> ddb_client \<Rightarrow> u64 \<Rightarrow> u8 \<Rightarrow> (legacy_error + item list) option" where
  "list_slot_rows cfg d period thread =
     list_pages (\<lambda>k. ddb_query d ((slot_query (lc_operations_table cfg) period thread)
                                  \<lparr>qr_exclusive_start_key := k\<rparr>)) None []"

section \<open>Sub-transfers\<close>

definition native_amount_mantissa :: "item \<Rightarrow> string \<Rightarrow> u64 option" where
  "native_amount_mantissa row field =
     Option.bind (map_of row field) (\<lambda>v.
     Option.bind (av_m v) (\<lambda>m.
     Option.bind (map_of m ''Mantissa'') (\<lambda>a.
     Option.bind (av_n a) parse_u64)))"

definition sub_view :: "item \<Rightarrow> string \<Rightarrow> sub_transfer_row" where
  "sub_view row hash =
     \<lparr>sr_hash = hash,
      sr_status = unwrap_or 0 (res_ok (item_num_i64 row ''Status'')),
      sr_original_op_id = item_str_opt row ''OriginalOperationID'',
      sr_slot_and_asc_index = item_str_opt row ''SlotAndAscIndex'',
      sr_creator_address = unwrap_or [] (res_ok (item_str row ''CreatorAddress'')),
      sr_other_address = item_str_opt row ''OtherAddress'',
      sr_amount_nmas = unwrap_or 0 (native_amount_mantissa row ''Amount'')\<rparr>"

text \<open>The sub-transfer rows of a listing that are not to be skipped, decoded and numbered from \<open>index\<close>.\<close>

fun number_sub_transfers ::
  "(string \<Rightarrow> bool) \<Rightarrow> slot \<Rightarrow> string option \<Rightarrow> i64 \<Rightarrow> u32 \<Rightarrow> item list \<Rightarrow> stored_transfer list" where
  "number_sub_transfers skip sl bid ts index [] = []"
| "number_sub_transfers skip sl bid ts index (row # rows) =
     (case item_str row ''Hash'' of
        Inl e \<Rightarrow> number_sub_transfers skip sl bid ts index rows
      | Inr hash \<Rightarrow>
          if CHR ''_'' \<notin> set hash \<or> skip hash then number_sub_transfers skip sl bid ts index rows
          else (case legacy_sub_transfer_to_transfer (sub_view row hash) sl bid index ts of
                  None \<Rightarrow> number_sub_transfers skip sl bid ts index rows
                | Some t \<Rightarrow> t # number_sub_transfers skip sl bid ts (sat_add index 1) rows))"

definition fetch_sub_transfers ::
  "legacy_ddb_cfg \<Rightarrow> ddb_client \<Rightarrow> u64 \<Rightarrow> u8 \<Rightarrow> string option \<Rightarrow> u32 \<Rightarrow> i64 \<Rightarrow> string set \<Rightarrow>
   (legacy_error + stored_transfer list) option" where
  "fetch_sub_transfers cfg d period thread bid start_index ts skip_ids =
     sbind (list_slot_rows cfg d period thread) (\<lambda>rows.
       Some (Inr (number_sub_transfers (\<lambda>h. h \<in> skip_ids) (Slot period thread) bid ts start_index rows)))"

text \<open>The operations an explicit sub-transfer row names in its column.\<close>

definition covered_op_id :: "item \<Rightarrow> string option" where
  "covered_op_id row =
     Option.bind (item_str_opt row ''Hash'') (\<lambda>hash.
       if CHR ''_'' \<notin> set hash then None
       else filter_opt real_text (item_str_opt row ''OriginalOperationID''))"

definition covered_op_ids_from_rows :: "item list \<Rightarrow> string set" where
  "covered_op_ids_from_rows rows = set (List.map_filter covered_op_id rows)"

section \<open>Operations\<close>

fun chunks :: "nat \<Rightarrow> 'a list \<Rightarrow> 'a list list" where
  "chunks n xs = (if xs = [] \<or> n = 0 then [] else take n xs # chunks n (drop n xs))"

declare chunks.simps [simp del]

definition decode_op_item ::
  "('s, 'v, 'x) legacy_ext_scheme \<Rightarrow> string \<Rightarrow> slot \<Rightarrow> i64 \<Rightarrow> item \<Rightarrow> decoded_op option" where
  "decode_op_item E block_hash sl now_ms row =
     (case item_str row ''Hash'' of
        Inl e \<Rightarrow> None
      | Inr hash \<Rightarrow>
          (case item_bytes E row ''Raw'' of
             Inl e \<Rightarrow> None
           | Inr payload \<Rightarrow>
               res_ok (decode_op_row E
                 \<lparr>or_hash = hash, or_raw = payload,
                  or_status = unwrap_or 0 (res_ok (item_num_i64 row ''Status'')),
                  or_block_hash = unwrap_or block_hash (item_str_opt row ''BlockHash''),
                  or_slot = sl\<rparr> now_ms)))"

definition fetch_ops ::
  "('s, 'v, 'x) legacy_ext_scheme \<Rightarrow> legacy_ddb_cfg \<Rightarrow> ddb_client \<Rightarrow> string \<Rightarrow> slot \<Rightarrow> i64 \<Rightarrow>
   string list \<Rightarrow> legacy_error + decoded_op list" where
  "fetch_ops E cfg d block_hash sl now_ms op_ids =
     rbind (collect (\<lambda>chunk.
              rbind (rmap_err LegacyDdb
                       (batch_get d (lc_operations_table cfg) (map (\<lambda>h. [(''Hash'', s_str h)]) chunk)))
                (\<lambda>b. Inr (List.map_filter (decode_op_item E block_hash sl now_ms)
                            (unwrap_or [] (map_of (bg_responses b) (lc_operations_table cfg))))))
              (chunks 100 op_ids))
       (\<lambda>ds. Inr (concat ds))"

text \<open>
  One synthetic transfer for each executed transaction that no sub-transfer row covers, numbered
  by the position of its operation among the decoded ones.
\<close>

definition synth_transfers ::
  "string set \<Rightarrow> slot \<Rightarrow> string \<Rightarrow> i64 \<Rightarrow> decoded_op list \<Rightarrow> stored_transfer list" where
  "synth_transfers covered sl block_hash ts ops =
     List.map_filter (\<lambda>(i, d).
       if \<not> do_executed d then None
       else if id_text (op_id (do_stored d)) \<in> covered then None
       else legacy_op_to_transfer (do_stored d) sl block_hash (word_of_nat i) ts) (enumerate 0 ops)"

definition decoded_op_count_top_level :: "final_slot_response \<Rightarrow> u32" where
  "decoded_op_count_top_level resp = word_of_nat (length (fr_transfers resp))"

section \<open>A slot\<close>

text \<open>The block row, fetched by its key when the listing did not carry its bytes.\<close>

definition full_block_row ::
  "legacy_ddb_cfg \<Rightarrow> ddb_client \<Rightarrow> item \<Rightarrow> legacy_error + item \<times> u32" where
  "full_block_row cfg d row =
     (if map_of row ''Raw'' \<noteq> None then Inr (row, 1)
      else rbind (rmap_err LegacyDecode (item_str row ''Hash'')) (\<lambda>hash.
           rbind (rmap_err LegacyDdb (get_item d (lc_blocks_table cfg) [(''Hash'', s_str hash)])) (\<lambda>found.
           rbind (ok_or (LegacyOther (''legacy: BlocksMainnet['' @ hash @
                           ''] vanished between Query and GetItem'')) found) (\<lambda>full.
           Inr (full, 2)))))"

definition show_slot_debug :: "slot \<Rightarrow> string" where
  "show_slot_debug sl =
     ''Slot { period: '' @ show_nat (unat (sl_period sl)) @ '', thread: '' @ show_nat (unat (sl_thread sl)) @ '' }''"

definition block_row_of ::
  "('s, 'v, 'x) legacy_ext_scheme \<Rightarrow> item \<Rightarrow> u64 \<Rightarrow> u8 \<Rightarrow> legacy_error + block_row" where
  "block_row_of E row period thread =
     rbind (rmap_err LegacyDecode (item_str row ''Hash'')) (\<lambda>hash.
     rbind (rmap_err LegacyDecode (item_str row ''CreatorAddress'')) (\<lambda>creator.
     rbind (rmap_err LegacyDecode (item_bytes E row ''Raw'')) (\<lambda>payload.
     rbind (rmap_err LegacyDecode (item_num_u32 row ''PointInTime'')) (\<lambda>pit.
     let sl = point_in_time_to_slot pit in
     if sl \<noteq> Slot period thread
     then Inl (LegacyOther (''legacy: row PIT decode '' @ show_slot_debug sl @ '' mismatches request ('' @
            show_nat (unat period) @ '','' @ show_nat (unat thread) @ '')''))
     else Inr \<lparr>br_hash = hash, br_raw = payload, br_slot = sl, br_creator_address = creator\<rparr>))))"

text \<open>The response with the block, its endorsements and its operations.\<close>

definition legacy_shell ::
  "('s, 'v, 'x) legacy_ext_scheme \<Rightarrow> string \<Rightarrow> stored_block \<Rightarrow> decoded_op list \<Rightarrow> u64 \<Rightarrow> u8 \<Rightarrow>
   final_slot_response" where
  "legacy_shell E block_hash block ops period thread =
     response_default\<lparr>
       fr_period := period, fr_thread := ucast thread, fr_final_known := True,
       fr_final_block_id := block_hash,
       fr_block := res_ok (block_to_peer_pb E block),
       fr_endorsements := ship_ok (endorsement_to_peer_pb E) (bk_endorsements block),
       fr_operations := ship_ok (operation_to_peer_pb E) (map do_stored ops),
       fr_executed_op_ids := map (\<lambda>d. id_text (op_id (do_stored d))) (filter do_executed ops)\<rparr>"

definition legacy_fetch_slot ::
  "('s, 'v, 'x) legacy_ext_scheme \<Rightarrow> legacy_ddb_cfg \<Rightarrow> ddb_client \<Rightarrow> i64 \<Rightarrow> u64 \<Rightarrow> u8 \<Rightarrow>
   (legacy_error + legacy_fetch option) option" where
  "legacy_fetch_slot E cfg d now_ms period thread =
     (if \<not> within_window cfg period then Some (Inr None)
      else
        sbind (Some (find_block_row cfg d period thread)) (\<lambda>found.
        case found of
          None \<Rightarrow> Some (Inr None)
        | Some listed \<Rightarrow>
            sbind (Some (full_block_row cfg d listed)) (\<lambda>(row, rpcs).
            sbind (Some (block_row_of E row period thread)) (\<lambda>view.
            sbind (Some (rmap_err LegacyDecode (decode_block_row E view now_ms))) (\<lambda>(block, op_ids, _).
            sbind (list_slot_rows cfg d period thread) (\<lambda>slot_rows.
            sbind (Some (fetch_ops E cfg d (br_hash view) (br_slot view) now_ms op_ids)) (\<lambda>ops.
            let shell = legacy_shell E (br_hash view) block ops period thread;
                synth = synth_transfers (covered_op_ids_from_rows slot_rows) (br_slot view)
                          (br_hash view) now_ms ops in
            sbind (ship_all (transfer_to_peer_pb E) synth) (\<lambda>synth_pb.
            let resp = shell\<lparr>fr_transfers := synth_pb\<rparr>;
                subs = number_sub_transfers (\<lambda>_. False) (br_slot view) (Some (br_hash view)) now_ms
                         (decoded_op_count_top_level resp) slot_rows in
            sbind (ship_all (transfer_to_peer_pb E) subs) (\<lambda>subs_pb.
            Some (Inr (Some
              \<lparr>lf_resp = resp\<lparr>fr_transfers := synth_pb @ subs_pb\<rparr>,
               lf_rpcs = rpcs + 1 + word_of_nat (length (chunks 100 op_ids))\<rparr>)))))))))))"

end
