(* ===== verification/Repair.thy ===== *)
theory Repair
  imports Backfill Legacy_Source
begin

text \<open>
  The operator's repair tasks (\<open>repair.rs\<close>): rebuilding transfers from stored operations, pulling
  missing parts from peers, and fetching the archive's sub-transfers, each over a range of periods and with a
  checkpoint among the meta rows.  Pauses are left out.  A result of \<open>None\<close> is a task that
  does not end, or a conversion that panics.  \<open>others\<close> is what the other writers of the database do before
  the task looks at a slot.
\<close>

section \<open>State\<close>

text \<open>The counters of \<open>metrics.rs\<close> the tasks bump.\<close>

record repair_metrics =
  repair_slots_scanned_total :: u64
  repair_transfers_reconstructed_total :: u64
  repair_pull_slots_applied_total :: u64
  legacy_ddb_rpcs_total :: u64
  legacy_ddb_slots_filled_total :: u64
  legacy_ddb_errors_total :: u64

record 's repair =
  rp_db :: 's
  rp_tx :: event_tx
  rp_metrics :: "repair_metrics option"

definition repair_count :: "(repair_metrics \<Rightarrow> repair_metrics) \<Rightarrow> 's repair \<Rightarrow> 's repair" where
  "repair_count f st = st\<lparr>rp_metrics := map_option f (rp_metrics st)\<rparr>"

definition scanned :: "repair_metrics \<Rightarrow> repair_metrics" where
  "scanned m = m\<lparr>repair_slots_scanned_total := repair_slots_scanned_total m + 1\<rparr>"

definition reconstructed :: "nat \<Rightarrow> repair_metrics \<Rightarrow> repair_metrics" where
  "reconstructed n m =
     m\<lparr>repair_transfers_reconstructed_total := repair_transfers_reconstructed_total m + word_of_nat n\<rparr>"

definition looked_up :: "repair_metrics \<Rightarrow> repair_metrics" where
  "looked_up m = m\<lparr>legacy_ddb_rpcs_total := legacy_ddb_rpcs_total m + 1\<rparr>"

definition filled :: "repair_metrics \<Rightarrow> repair_metrics" where
  "filled m = m\<lparr>legacy_ddb_slots_filled_total := legacy_ddb_slots_filled_total m + 1\<rparr>"

definition errored :: "repair_metrics \<Rightarrow> repair_metrics" where
  "errored m = m\<lparr>legacy_ddb_errors_total := legacy_ddb_errors_total m + 1\<rparr>"

definition pulled :: "nat \<Rightarrow> repair_metrics \<Rightarrow> repair_metrics" where
  "pulled n m = m\<lparr>repair_pull_slots_applied_total := repair_pull_slots_applied_total m + word_of_nat n\<rparr>"

text \<open>How a task ends.\<close>

datatype repair_end = AlreadyDone | ChannelClosed | Done

section \<open>Sending and checkpoints\<close>

text \<open>\<open>tx.send(Event::LegacyPatch(resp))\<close> and \<open>tx.is_closed()\<close>.\<close>

definition ship :: "final_slot_response \<Rightarrow> 's repair \<Rightarrow> bool \<times> 's repair" where
  "ship resp st = (case tx_send resp (rp_tx st) of (ok, tx) \<Rightarrow> (ok, st\<lparr>rp_tx := tx\<rparr>))"

definition chan_closed :: "'s repair \<Rightarrow> bool \<times> 's repair" where
  "chan_closed st = (case tx_is_closed (rp_tx st) of (c, tx) \<Rightarrow> (c, st\<lparr>rp_tx := tx\<rparr>))"

text \<open>A write that fails is logged and otherwise ignored.\<close>

definition checkpoint :: "('s, 'v, 'x) ext_scheme \<Rightarrow> string \<Rightarrow> u64 \<Rightarrow> 's repair \<Rightarrow> 's repair" where
  "checkpoint E key n st = st\<lparr>rp_db := snd (meta_put_str E key (show_nat (unat n)) (rp_db st))\<rparr>"

definition CHECKPOINT_EVERY :: u64 where "CHECKPOINT_EVERY = 64"

definition resume_up :: "('s, 'v, 'x) ext_scheme \<Rightarrow> 's \<Rightarrow> string \<Rightarrow> u64 \<Rightarrow> u64" where
  "resume_up E s key from_period =
     (case meta_get_str E s key of
        Inr (Some t) \<Rightarrow> max (unwrap_or from_period (parse_u64 t)) from_period
      | _ \<Rightarrow> from_period)"

definition resume_down :: "('s, 'v, 'x) ext_scheme \<Rightarrow> 's \<Rightarrow> string \<Rightarrow> u64 \<Rightarrow> u64" where
  "resume_down E s key to_period =
     (case meta_get_str E s key of
        Inr (Some t) \<Rightarrow> min (unwrap_or to_period (parse_u64 t)) to_period
      | _ \<Rightarrow> to_period)"

text \<open>Running a step on one item after the other until one asks to stop.\<close>

fun until_stopped :: "('a \<Rightarrow> 't \<Rightarrow> (bool \<times> 't) option) \<Rightarrow> 'a list \<Rightarrow> 't \<Rightarrow> (bool \<times> 't) option" where
  "until_stopped f [] st = Some (True, st)"
| "until_stopped f (x # xs) st =
     (case f x st of
        None \<Rightarrow> None
      | Some (False, st1) \<Rightarrow> Some (False, st1)
      | Some (True, st1) \<Rightarrow> until_stopped f xs st1)"

definition slots_of_period :: "u8 \<Rightarrow> u64 \<Rightarrow> slot list" where
  "slots_of_period threads period = map (\<lambda>i. Slot period (word_of_nat i)) [0..<unat threads]"

text \<open>The ascending walk: \<open>while period <= to_period\<close>, with a checkpoint every 64 periods.\<close>

definition period_turn ::
  "('s, 'v, 'x) ext_scheme \<Rightarrow> string \<Rightarrow> (u64 \<Rightarrow> 's repair \<Rightarrow> (bool \<times> 's repair) option) \<Rightarrow> u64 \<Rightarrow> 's repair \<Rightarrow>
   (bool \<times> 's repair) option" where
  "period_turn E key body period st =
     (case chan_closed st of
        (True, st1) \<Rightarrow> Some (False, st1)
      | (False, st1) \<Rightarrow>
          (case body period st1 of
             None \<Rightarrow> None
           | Some (False, st2) \<Rightarrow> Some (False, st2)
           | Some (True, st2) \<Rightarrow>
               Some (True, if period mod CHECKPOINT_EVERY = 0 then checkpoint E key (period + 1) st2 else st2)))"

partial_function (option) ascend ::
  "(u64 \<Rightarrow> 't \<Rightarrow> (bool \<times> 't) option) \<Rightarrow> u64 \<Rightarrow> u64 \<Rightarrow> 't \<Rightarrow> (bool \<times> 't) option" where
  "ascend turn to_period period st =
     (if to_period < period then Some (True, st)
      else (case turn period st of
              None \<Rightarrow> None
            | Some r \<Rightarrow> if fst r then ascend turn to_period (period + 1) (snd r) else Some (False, snd r)))"

definition ascending_task ::
  "('s, 'v, 'x) ext_scheme \<Rightarrow> string \<Rightarrow> u64 \<Rightarrow> u64 \<Rightarrow> (u64 \<Rightarrow> 's repair \<Rightarrow> (bool \<times> 's repair) option) \<Rightarrow> 's repair \<Rightarrow>
   (repair_end \<times> 's repair) option" where
  "ascending_task E key from_period to_period body st =
     (let start = resume_up E (rp_db st) key from_period in
      if to_period < start then Some (AlreadyDone, st)
      else (case ascend (period_turn E key body) to_period start st of
              None \<Rightarrow> None
            | Some (False, st1) \<Rightarrow> Some (ChannelClosed, st1)
            | Some (True, st1) \<Rightarrow> Some (Done, checkpoint E key (to_period + 1) st1)))"

section \<open>Rebuilding transfers\<close>

record reconstruct_config =
  rc_from_period :: u64
  rc_to_period :: u64
  rc_thread_count :: u8
  rc_genesis_timestamp_ms :: i64
  rc_t0_ms :: i64

definition reconstruct_ckpt_key :: "reconstruct_config \<Rightarrow> string" where
  "reconstruct_ckpt_key cfg =
     ''repair:reconstruct_transfers:'' @ show_nat (unat (rc_from_period cfg)) @ ''-'' @
     show_nat (unat (rc_to_period cfg)) @ '':next_period''"

text \<open>Division of signed integers towards zero, and their saturating product.\<close>

definition div_towards_zero :: "i64 \<Rightarrow> nat \<Rightarrow> i64" where
  "div_towards_zero a n =
     (if 0 \<le> sint a then word_of_int (sint a div int n) else word_of_int (- (- sint a div int n)))"

definition sat_mul_i64 :: "i64 \<Rightarrow> i64 \<Rightarrow> i64" where
  "sat_mul_i64 a b = word_of_int (max (- (2 ^ 63)) (min (sint a * sint b) (2 ^ 63 - 1)))"

definition slot_timestamp_ms :: "reconstruct_config \<Rightarrow> slot \<Rightarrow> i64" where
  "slot_timestamp_ms cfg sl =
     (let per_thread = div_towards_zero (rc_t0_ms cfg) (unat (max (rc_thread_count cfg) 1))
      in rc_genesis_timestamp_ms cfg + sat_mul_i64 (sl_period sl) (rc_t0_ms cfg) + ucast (sl_thread sl) * per_thread)"

fun reconstruct_rows ::
  "('s, 'v, 'x) ext_scheme \<Rightarrow> 's \<Rightarrow> slot \<Rightarrow> string \<Rightarrow> i64 \<Rightarrow> u32 \<Rightarrow> operation_id list \<Rightarrow>
   (error + stored_transfer_pb list) option" where
  "reconstruct_rows E s sl bid ts index [] = Some (Inr [])"
| "reconstruct_rows E s sl bid ts index (i # ids) =
     sbind (Some (read_op E s i)) (\<lambda>found.
     case found of
       None \<Rightarrow> reconstruct_rows E s sl bid ts index ids
     | Some op \<Rightarrow>
         if op_kind op \<noteq> Transaction \<or> op_final_exec_status op \<noteq> Some ExecOk
         then reconstruct_rows E s sl bid ts index ids
         else (case legacy_op_to_transfer op sl bid index ts of
                 None \<Rightarrow> reconstruct_rows E s sl bid ts index ids
               | Some t \<Rightarrow>
                   (case transfer_to_peer_pb E t of
                      None \<Rightarrow> None
                    | Some pb \<Rightarrow>
                        sbind (reconstruct_rows E s sl bid ts (index + 1) ids) (\<lambda>pbs. Some (Inr (pb # pbs))))))"

text \<open>A FINAL slot with a block and executed operations, but without the node's transfers.\<close>

definition lacks_transfers :: "slot_state \<Rightarrow> bool" where
  "lacks_transfers st \<longleftrightarrow>
     \<not> (st_status st \<noteq> SlotFinal \<or> st_is_miss st \<or> transfers_stored (st_completeness st) \<or>
        st_executed_op_ids st = [])"

definition transfer_patch :: "slot \<Rightarrow> string \<Rightarrow> stored_transfer_pb list \<Rightarrow> final_slot_response" where
  "transfer_patch sl bid pbs =
     response_default\<lparr>fr_period := sl_period sl, fr_thread := ucast (sl_thread sl), fr_final_known := True,
                      fr_is_miss := False, fr_final_block_id := bid, fr_transfers := pbs\<rparr>"

definition reconstruct_slot ::
  "('s, 'v, 'x) ext_scheme \<Rightarrow> 's \<Rightarrow> reconstruct_config \<Rightarrow> slot \<Rightarrow>
   (error + final_slot_response option) option" where
  "reconstruct_slot E s cfg sl =
     sbind (Some (read_slot E s (sl_period sl) (sl_thread sl))) (\<lambda>row.
     case row of
       None \<Rightarrow> Some (Inr None)
     | Some st \<Rightarrow>
         if \<not> lacks_transfers st then Some (Inr None)
         else (case st_final_block_id st of
                 None \<Rightarrow> Some (Inr None)
               | Some b \<Rightarrow>
                   sbind (reconstruct_rows E s sl (id_text b) (slot_timestamp_ms cfg sl) 0 (st_executed_op_ids st))
                     (\<lambda>pbs. Some (Inr (if pbs = [] then None else Some (transfer_patch sl (id_text b) pbs))))))"

definition reconstruct_turn ::
  "('s, 'v, 'x) ext_scheme \<Rightarrow> (slot \<Rightarrow> 's \<Rightarrow> 's) \<Rightarrow> reconstruct_config \<Rightarrow> slot \<Rightarrow> 's repair \<Rightarrow>
   (bool \<times> 's repair) option" where
  "reconstruct_turn E others cfg sl st =
     (let st1 = repair_count scanned (st\<lparr>rp_db := others sl (rp_db st)\<rparr>) in
      case reconstruct_slot E (rp_db st1) cfg sl of
        None \<Rightarrow> None
      | Some (Inr (Some resp)) \<Rightarrow>
          (case ship resp st1 of
             (False, st2) \<Rightarrow> Some (False, st2)
           | (True, st2) \<Rightarrow> Some (True, repair_count (reconstructed (length (fr_transfers resp))) st2))
      | Some _ \<Rightarrow> Some (True, st1))"

definition run_reconstruct_transfers ::
  "('s, 'v, 'x) ext_scheme \<Rightarrow> (slot \<Rightarrow> 's \<Rightarrow> 's) \<Rightarrow> reconstruct_config \<Rightarrow> 's repair \<Rightarrow>
   (repair_end \<times> 's repair) option" where
  "run_reconstruct_transfers E others cfg =
     ascending_task E (reconstruct_ckpt_key cfg) (rc_from_period cfg) (rc_to_period cfg)
       (\<lambda>period. until_stopped (reconstruct_turn E others cfg) (slots_of_period (rc_thread_count cfg) period))"

section \<open>Pulling parts\<close>

record pull_parts_config =
  pp_from_period :: u64
  pp_to_period :: u64
  pp_parts :: final_slot_parts
  pp_thread_count :: u8
  pp_require_sc_ops :: bool

definition show_flag :: "bool \<Rightarrow> string" where
  "show_flag b = (if b then ''1'' else ''0'')"

definition pull_ckpt_key :: "pull_parts_config \<Rightarrow> string" where
  "pull_ckpt_key cfg =
     ''repair:pull_parts:'' @ show_nat (unat (pp_from_period cfg)) @ ''-'' @
     show_nat (unat (pp_to_period cfg)) @ '':b'' @ show_flag (fp_block (pp_parts cfg)) @
     ''e'' @ show_flag (fp_exec_output (pp_parts cfg)) @ ''t'' @ show_flag (fp_transfers (pp_parts cfg)) @
     (if pp_require_sc_ops cfg then '':sc'' else []) @ '':next_hi''"

fun some_sc_op_ok :: "('s, 'v, 'x) ext_scheme \<Rightarrow> 's \<Rightarrow> operation_id list \<Rightarrow> error + bool" where
  "some_sc_op_ok E s [] = Inr False"
| "some_sc_op_ok E s (i # ids) =
     rbind (read_op E s i) (\<lambda>found.
     case found of
       None \<Rightarrow> some_sc_op_ok E s ids
     | Some op \<Rightarrow>
         if (op_kind op = CallSc \<or> op_kind op = ExecuteSc) \<and> op_final_exec_status op = Some ExecOk then Inr True
         else some_sc_op_ok E s ids)"

definition slot_has_successful_sc_op :: "('s, 'v, 'x) ext_scheme \<Rightarrow> 's \<Rightarrow> slot_state \<Rightarrow> error + bool" where
  "slot_has_successful_sc_op E s st = some_sc_op_ok E s (st_executed_op_ids st)"

definition slot_lacks_parts ::
  "('s, 'v, 'x) ext_scheme \<Rightarrow> 's \<Rightarrow> slot \<Rightarrow> final_slot_parts \<Rightarrow> bool \<Rightarrow> error + bool" where
  "slot_lacks_parts E s sl parts require_sc_ops =
     rbind (read_slot E s (sl_period sl) (sl_thread sl)) (\<lambda>row.
     case row of
       None \<Rightarrow> Inr False
     | Some st \<Rightarrow>
         if st_status st \<noteq> SlotFinal then Inr False
         else (let c = st_completeness st;
                   lacking = fp_block parts \<and> \<not> st_is_miss st \<and> \<not> block_body_stored c \<or>
                     fp_exec_output parts \<and> \<not> exec_output_final c \<or>
                     fp_transfers parts \<and> \<not> transfers_stored c in
               if \<not> lacking then Inr False
               else if require_sc_ops
               then rbind (slot_has_successful_sc_op E s st) (\<lambda>has. Inr has)
               else Inr True))"

definition pull_backfill_config :: "pull_parts_config \<Rightarrow> backfill_config" where
  "pull_backfill_config cfg =
     backfill_default
       \<lparr>bc_parts := pp_parts cfg,
        bc_expected_streams :=
          \<lparr>se_filled_blocks = fp_block (pp_parts cfg),
           se_slot_execution_outputs = fp_exec_output (pp_parts cfg),
           se_transfers = fp_transfers (pp_parts cfg)\<rparr>,
        bc_thread_count := pp_thread_count cfg\<rparr>"

text \<open>The windows of the descending pass, from \<open>hi\<close> on.\<close>

definition pull_lo :: "u64 \<Rightarrow> u64 \<Rightarrow> u64 \<Rightarrow> u64" where
  "pull_lo range_periods from_period hi = max (sat_sub hi (sat_sub range_periods 1)) from_period"

function pull_windows :: "u64 \<Rightarrow> u64 \<Rightarrow> u64 \<Rightarrow> (u64 \<times> u64) list" where
  "pull_windows rp from_period hi =
     (let lo = pull_lo rp from_period hi in
      (lo, hi) # (if lo \<le> from_period \<or> lo = 0 then [] else pull_windows rp from_period (lo - 1)))"
  by auto
termination
proof (relation "measure (\<lambda>(rp, from_period, hi). unat hi)", simp)
  fix rp from_period hi lo :: u64
  assume lo: "lo = pull_lo rp from_period hi" "\<not> (lo \<le> from_period \<or> lo = 0)"
  then have "lo = sat_sub hi (sat_sub rp 1)" by (auto simp: pull_lo_def max_def split: if_splits)
  then have "lo \<le> hi" by (simp add: sat_sub_def word_sub_le)
  moreover have "unat (lo - 1) < unat lo" using lo(2) by (simp add: unat_gt_0 unat_minus_one)
  ultimately show "((rp, from_period, lo - 1), rp, from_period, hi) \<in> measure (\<lambda>(rp, from_period, hi). unat hi)"
    by (simp add: word_le_nat_alt)
qed

declare pull_windows.simps [simp del]

text \<open>
  What the task meets: the other writers, how often it finds the pool without peers before a window, and
  the streams the peers offer for the window.
\<close>

record 's pull_env =
  pe_others :: "slot_id \<Rightarrow> 's \<Rightarrow> 's"
  pe_waits :: "u64 \<times> u64 \<Rightarrow> nat"
  pe_streams :: "u64 \<times> u64 \<Rightarrow> (error + stream_item list) list"

fun wait_for_peers :: "nat \<Rightarrow> 's repair \<Rightarrow> bool \<times> 's repair" where
  "wait_for_peers waits st =
     (case chan_closed st of
        (True, st1) \<Rightarrow> (False, st1)
      | (False, st1) \<Rightarrow> (case waits of 0 \<Rightarrow> (True, st1) | Suc n \<Rightarrow> wait_for_peers n st1))"

fun needy_slots ::
  "('s, 'v, 'x) ext_scheme \<Rightarrow> (slot_id \<Rightarrow> 's \<Rightarrow> 's) \<Rightarrow> pull_parts_config \<Rightarrow> slot_id list \<Rightarrow> 's repair \<Rightarrow>
   slot_id list \<times> 's repair" where
  "needy_slots E others cfg [] st = ([], st)"
| "needy_slots E others cfg ((p, t) # rest) st =
     (let st1 = repair_count scanned (st\<lparr>rp_db := others (p, t) (rp_db st)\<rparr>);
          needed = (slot_lacks_parts E (rp_db st1) (Slot p t) (pp_parts cfg) (pp_require_sc_ops cfg) = Inr True) in
      case needy_slots E others cfg rest st1 of
        (needy, st2) \<Rightarrow> (if needed then (p, t) # needy else needy, st2))"

definition pull_window ::
  "('s, 'v, 'x) ext_scheme \<Rightarrow> 's pull_env \<Rightarrow> pull_parts_config \<Rightarrow> u64 \<times> u64 \<Rightarrow> 's repair \<Rightarrow>
   (bool \<times> 's repair) option" where
  "pull_window E env cfg win st =
     (case wait_for_peers (pe_waits env win) st of
        (False, st1) \<Rightarrow> Some (False, st1)
      | (True, st1) \<Rightarrow>
          (case needy_slots E (pe_others env) cfg (window_slots (pp_thread_count cfg) win) st1 of
             (needy, st2) \<Rightarrow>
               (let save = checkpoint E (pull_ckpt_key cfg) (sat_sub (fst win) 1) in
                if needy = [] then Some (True, save st2)
                else (case range_fill_window_opts True (pe_streams env win) needy (rp_tx st2) of
                        (False, needy1, tx) \<Rightarrow> Some (False, st2\<lparr>rp_tx := tx\<rparr>)
                      | (True, needy1, tx) \<Rightarrow>
                          Some (True, save (repair_count (pulled (length needy - length needy1))
                                              (st2\<lparr>rp_tx := tx\<rparr>)))))))"

definition run_pull_parts ::
  "('s, 'v, 'x) ext_scheme \<Rightarrow> 's pull_env \<Rightarrow> pull_parts_config \<Rightarrow> 's repair \<Rightarrow> (repair_end \<times> 's repair) option" where
  "run_pull_parts E env cfg st =
     (let start_hi = resume_down E (rp_db st) (pull_ckpt_key cfg) (pp_to_period cfg) in
      if start_hi < pp_from_period cfg then Some (AlreadyDone, st)
      else map_option (\<lambda>(ok, st1). (if ok then Done else ChannelClosed, st1))
             (until_stopped (pull_window E env cfg)
               (pull_windows (bc_range_periods (pull_backfill_config cfg)) (pp_from_period cfg) start_hi) st))"

section \<open>Sub-transfers of the archive\<close>

record legacy_sub_transfers_config =
  ls_from_period :: u64
  ls_to_period :: u64
  ls_thread_count :: u8
  ls_genesis_timestamp_ms :: i64
  ls_t0_ms :: i64
  ls_concurrency :: nat

definition legacy_sub_ckpt_key :: "legacy_sub_transfers_config \<Rightarrow> string" where
  "legacy_sub_ckpt_key cfg =
     ''repair:legacy_sub_transfers:'' @ show_nat (unat (ls_from_period cfg)) @ ''-'' @
     show_nat (unat (ls_to_period cfg)) @ '':next_period''"

definition timing_of :: "legacy_sub_transfers_config \<Rightarrow> reconstruct_config" where
  "timing_of cfg =
     \<lparr>rc_from_period = ls_from_period cfg, rc_to_period = ls_to_period cfg,
      rc_thread_count = ls_thread_count cfg, rc_genesis_timestamp_ms = ls_genesis_timestamp_ms cfg,
      rc_t0_ms = ls_t0_ms cfg\<rparr>"

type_synonym sub_target = "slot \<times> string \<times> string set \<times> u32"

definition next_index :: "stored_transfer list \<Rightarrow> u32" where
  "next_index existing = (if existing = [] then 0 else Max (set (map (\<lambda>t. tr_index_in_slot t + 1) existing)))"

definition sub_target_of :: "('s, 'v, 'x) ext_scheme \<Rightarrow> 's \<Rightarrow> slot \<Rightarrow> sub_target option" where
  "sub_target_of E s sl =
     (case read_slot E s (sl_period sl) (sl_thread sl) of
        Inr (Some st) \<Rightarrow>
          if \<not> lacks_transfers st then None
          else (case st_final_block_id st of
                  None \<Rightarrow> None
                | Some b \<Rightarrow>
                    (case slot_has_successful_sc_op E s st of
                       Inr True \<Rightarrow>
                         (let existing = unwrap_or [] (res_ok (iter_transfers_for_slot E s (sl_period sl) (sl_thread sl)))
                          in Some (sl, id_text b, set (map tr_id existing), next_index existing))
                     | _ \<Rightarrow> None))
      | _ \<Rightarrow> None)"

fun sub_targets ::
  "('s, 'v, 'x) ext_scheme \<Rightarrow> (slot \<Rightarrow> 's \<Rightarrow> 's) \<Rightarrow> slot list \<Rightarrow> 's repair \<Rightarrow> sub_target list \<times> 's repair" where
  "sub_targets E others [] st = ([], st)"
| "sub_targets E others (sl # rest) st =
     (let st1 = repair_count scanned (st\<lparr>rp_db := others sl (rp_db st)\<rparr>) in
      case sub_targets E others rest st1 of
        (targets, st2) \<Rightarrow>
          ((case sub_target_of E (rp_db st1) sl of None \<Rightarrow> targets | Some t \<Rightarrow> t # targets), st2))"

definition sub_answer ::
  "('s, 'v, 'x) ext_scheme \<Rightarrow> legacy_ddb_cfg \<Rightarrow> (slot \<Rightarrow> ddb_client) \<Rightarrow> legacy_sub_transfers_config \<Rightarrow>
   sub_target \<Rightarrow> 's repair \<Rightarrow> (bool \<times> 's repair) option" where
  "sub_answer E dcfg archive cfg = (\<lambda>(sl, bid, ids, next) st.
     case fetch_sub_transfers dcfg (archive sl) (sl_period sl) (sl_thread sl) (Some bid) next
            (slot_timestamp_ms (timing_of cfg) sl) ids of
       None \<Rightarrow> None
     | Some (Inl e) \<Rightarrow> Some (True, repair_count looked_up (repair_count errored st))
     | Some (Inr []) \<Rightarrow> Some (True, repair_count looked_up st)
     | Some (Inr rows) \<Rightarrow>
         (case those (map (transfer_to_peer_pb E) rows) of
            None \<Rightarrow> None
          | Some pbs \<Rightarrow>
              (case ship (transfer_patch sl bid pbs) st of
                 (False, st1) \<Rightarrow> Some (False, st1)
               | (True, st1) \<Rightarrow>
                   Some (True, repair_count looked_up (repair_count filled (repair_count (reconstructed (length rows)) st1))))))"

text \<open>\<open>arrival\<close> is the order in which the lookups of a period answer.\<close>

definition run_legacy_sub_transfers ::
  "('s, 'v, 'x) ext_scheme \<Rightarrow> (slot \<Rightarrow> 's \<Rightarrow> 's) \<Rightarrow> legacy_ddb_cfg \<Rightarrow> (slot \<Rightarrow> ddb_client) \<Rightarrow>
   (sub_target list \<Rightarrow> sub_target list) \<Rightarrow> legacy_sub_transfers_config \<Rightarrow> 's repair \<Rightarrow>
   (repair_end \<times> 's repair) option" where
  "run_legacy_sub_transfers E others dcfg archive arrival cfg =
     ascending_task E (legacy_sub_ckpt_key cfg) (ls_from_period cfg) (ls_to_period cfg)
       (\<lambda>period st.
          case sub_targets E others (slots_of_period (ls_thread_count cfg) period) st of
            (targets, st1) \<Rightarrow> until_stopped (sub_answer E dcfg archive cfg) (arrival targets) st1)"

end
