(* ===== verification/Legacy_Laws.thy ===== *)
theory Legacy_Laws
  imports Legacy_Source Slot_Handlers Pool_Laws Ddb
begin

text \<open>
  The legacy source against its purpose: its decoders are those of the live ingestion, what they
  return is well formed, the archive's slot keys invert and descend, a listing is complete as soon as the archive's
  pages end, and how the transfers of a response are numbered.  Last, the Gregorian calendar by counting, year by
  year and month by month from the year 0, and that the date of a day number has that day number.
\<close>

section \<open>The decoders are those of the ingestion\<close>

lemma classify_op_type_eq: "classify_op_type C t = classify_op C t"
  unfolding classify_op_type_def classify_op_def
  by (simp add: addr_ok_def split: option.splits op_type.splits)

lemma decode_signed_endorsement_eq: "decode_signed_endorsement C se b sl ts = node_endorsement C se b sl ts"
  unfolding decode_signed_endorsement_def node_endorsement_def addr_ok_def node_slot_def
  by (simp add: res_ok_def split: option.splits sum.splits)

lemma decode_denunciation_eq: "decode_denunciation d = node_denunciation d"
  unfolding decode_denunciation_def node_denunciation_def den_slot_def slot_or_zero_def node_slot_def
  by (simp add: unwrap_or_def split: option.splits n_denunciation.splits)

lemmas decoders_eq = classify_op_type_eq decode_signed_endorsement_eq decode_denunciation_eq

section \<open>What is decoded is well formed\<close>

lemma b64_payload: "crates_ok C \<Longrightarrow> wf_payload C (b64enc C x)"
  by (simp add: wf_payload_def crates_okD)

lemma list_all_parsed:
  "(\<And>t x. f t = Inr x \<Longrightarrow> P x) \<Longrightarrow> list_all P (List.map_filter (\<lambda>t. res_ok (f t)) ts)"
  by (induction ts) (auto simp: List.map_filter_def)

lemma addr_parse_wf: "crates_ok C \<Longrightarrow> addr_parse C t = Inr a \<Longrightarrow> wf_addr C a"
  by (blast dest: addr_parse_Inr)

lemma invalid_id_Inr [simp]: "invalid_id what r = Inr x \<longleftrightarrow> r = Inr x"
  by (simp add: invalid_id_def)

lemma classify_target: "crates_ok C \<Longrightarrow> wf_opt (wf_addr C) (fst (snd (classify_op_type C t)))"
  unfolding classify_op_type_eq classify_op_def
  by (auto simp: wf_opt_addr_ok split: option.splits op_type.splits)

lemma block_parsed: "crates_ok C \<Longrightarrow> block_parse C t = Inr b \<Longrightarrow> wf_block_id C b \<and> id_text b = t"
  by (simp add: block_parse_wf block_display.parse_text)

lemma op_parsed: "crates_ok C \<Longrightarrow> op_parse C t = Inr i \<Longrightarrow> wf_op_id C i \<and> id_text i = t"
  by (simp add: op_parse_wf op_display.parse_text)

lemma decode_op_row_wf:
  assumes "crates_ok E" "decode_op_row E row now = Inr d"
  shows "wf_operation E (do_stored d) \<and> id_text (op_id (do_stored d)) = or_hash row \<and>
    do_executed d = (op_final_exec_status (do_stored d) = Some ExecOk) \<and>
    (\<forall>i \<in> set (op_inclusions (do_stored d)). oi_slot i = or_slot row \<and> id_text (oi_block_id i) = or_block_hash row)"
  using assms(2) unfolding decode_op_row_def case_prod_beta
  by (auto simp: rbind_eq_Inr wf_operation_def legacy_exec_status_def b64_payload [OF assms(1)]
        classify_target [OF assms(1)]
      dest!: op_parsed [OF assms(1)] block_parsed [OF assms(1)] addr_parse_wf [OF assms(1)] split: if_splits)

lemma decode_block_row_wf:
  assumes "crates_ok E" "decode_block_row E row now = Inr (b, ids, es)"
  shows "wf_block_id E (bk_id b) \<and> wf_addr E (bk_creator b) \<and> list_all (wf_block_id E) (bk_parents b) \<and>
    list_all (wf_op_id E) (bk_operation_ids b) \<and> wf_payload E (bk_raw_signed_header_b64 b) \<and>
    list_all (\<lambda>e. wf_addr E (en_content_creator_address e) \<and> en_included_slot e = br_slot row) (bk_endorsements b) \<and>
    es = bk_endorsements b \<and> id_text (bk_id b) = br_hash row \<and> bk_slot b = br_slot row \<and>
    bk_operation_ids b = op_ids_of E ids \<and> bk_status b = BlockFinal"
proof -
  have en: "list_all (\<lambda>e. wf_addr E (en_content_creator_address e) \<and> en_included_slot e = sl)
      (List.map_filter (\<lambda>se. decode_signed_endorsement E se bid sl now) ses)" for bid sl ses
    by (induction ses) (auto simp: List.map_filter_def decode_signed_endorsement_def addr_parse_wf [OF assms(1)]
        split: option.splits sum.splits)
  have ps: "list_all (wf_block_id E) (List.map_filter (\<lambda>t. res_ok (block_parse E t)) ts)"
    "list_all (wf_op_id E) (List.map_filter (\<lambda>t. res_ok (op_parse E t)) ts)" for ts
    by (intro list_all_parsed; blast dest: block_parsed [OF assms(1)] op_parsed [OF assms(1)])+
  show ?thesis
    using assms(2) unfolding decode_block_row_def Let_def
    by (auto simp: rbind_eq_Inr en ps b64_payload [OF assms(1)] op_ids_of_def
        dest!: block_parsed [OF assms(1)] addr_parse_wf [OF assms(1)])
qed

section \<open>Points in time\<close>

lemma unat_from_max: "unat (- 1 - w :: u32) = 2 ^ 32 - 1 - unat w"
proof -
  have "unat (- 1 :: u32) = 2 ^ 32 - 1" by (simp add: unsigned_minus_1_eq_mask mask_eq_exp_minus_1)
  then show ?thesis using unat_sub [OF word_order.extremum, of w] by simp
qed

lemma point_in_time_le:
  assumes "unat p * 100 + unat t < 2 ^ 32"
  shows "unat (point_in_time p t) = 2 ^ 32 - 1 - (unat p * 100 + unat t)"
proof -
  let ?n = "unat p * 100 + unat t"
  have "sat_to (2 ^ 64) (sat_to (2 ^ 64) (unat p * 100) + unat t) = ?n"
    using assms by (simp add: sat_to_def)
  then have "point_in_time p t = - 1 - word_of_nat ?n"
    using assms by (simp add: point_in_time_def Let_def)
  moreover have "unat (word_of_nat n :: u32) = n" if "n < 2 ^ 32" for n
    using that by (simp only: unat_of_nat len_num1 len_of_numeral_defs) simp
  from this [OF assms] have "unat (word_of_nat ?n :: u32) = ?n" .
  ultimately show ?thesis
    by (simp only: unat_from_max)
qed


lemma point_in_time_beyond:
  assumes "2 ^ 32 \<le> unat p * 100 + unat t"
  shows "point_in_time p t = 0"
proof -
  have "min (sat_to (2 ^ 64) (sat_to (2 ^ 64) (unat p * 100) + unat t)) (2 ^ 32 - 1) = 2 ^ 32 - 1"
    using assms by (simp add: sat_to_def)
  then have "point_in_time p t = - 1 - word_of_nat (2 ^ 32 - 1)" by (simp only: point_in_time_def Let_def)
  then show ?thesis by simp
qed

lemma point_in_time_inverse:
  assumes "unat p * 100 + unat t < 2 ^ 32" "t < 100"
  shows "point_in_time_to_slot (point_in_time p t) = Slot p t"
proof -
  let ?n = "unat p * 100 + unat t"
  have t: "unat t < 100" using assms(2) by (simp add: word_less_nat_alt)
  have "unat (- 1 - point_in_time p t) = ?n"
    using point_in_time_le [OF assms(1)] assms(1) by (simp only: unat_from_max)
  then have u: "unat (ucast (- 1 - point_in_time p t) :: u64) = ?n"
    using assms(1) by (simp add: unsigned_ucast_eq take_bit_nat_eq_self)
  have "unat ((ucast (- 1 - point_in_time p t) :: u64) div 100) = ?n div 100"
    "unat ((ucast (- 1 - point_in_time p t) :: u64) mod 100) = ?n mod 100"
    using u by (simp_all add: unat_div unat_mod)
  moreover have "?n div 100 = unat p" "?n mod 100 = unat t" using t by simp_all
  ultimately have "(ucast (- 1 - point_in_time p t) :: u64) div 100 = p"
    "unat ((ucast (- 1 - point_in_time p t) :: u64) mod 100) = unat t"
    by (simp_all add: word_unat_eq_iff)
  moreover from this(2) have "ucast ((ucast (- 1 - point_in_time p t) :: u64) mod 100) = t"
    using t by (simp add: word_unat_eq_iff [of "ucast _"] unsigned_ucast_eq take_bit_nat_eq_self)
  ultimately show ?thesis by (simp add: point_in_time_to_slot_def)
qed

text \<open>Later slots come first.\<close>

lemma point_in_time_descends:
  assumes "unat q * 100 + unat u < 2 ^ 32" "t < 100" "u < 100" "slot_lt (Slot p t) (Slot q u)"
  shows "point_in_time q u < point_in_time p t"
proof -
  have tu: "unat t < 100" "unat u < 100" using assms(2,3) by (simp_all add: word_less_nat_alt)
  have "unat p < unat q \<or> unat p = unat q \<and> unat t < unat u"
    using assms(4) by (auto simp: slot_lt_def word_less_nat_alt)
  then have "unat p * 100 + unat t < unat q * 100 + unat u" using tu by auto
  then show ?thesis
    using point_in_time_le [of p t] point_in_time_le [OF assms(1)] assms(1) by (simp add: word_less_nat_alt)
qed


section \<open>Listings\<close>

text \<open>The rows of the pages from a key on, when the pages end.\<close>

inductive pages :: "(item option \<Rightarrow> ddb_error + query_output) \<Rightarrow> item option \<Rightarrow> item list \<Rightarrow> bool" where
  last: "q k = Inr resp \<Longrightarrow> unwrap_or [] (qo_last_evaluated_key resp) = [] \<Longrightarrow> pages q k (qo_items resp)"
| more: "q k = Inr resp \<Longrightarrow> qo_last_evaluated_key resp = Some k' \<Longrightarrow> k' \<noteq> [] \<Longrightarrow> pages q (Some k') xs \<Longrightarrow>
    pages q k (qo_items resp @ xs)"

lemma list_pages_complete: "pages q k xs \<Longrightarrow> list_pages q k out = Some (Inr (out @ xs))"
proof (induction arbitrary: out rule: pages.induct)
  case (last q k resp)
  then show ?case by (subst list_pages.simps) (auto split: option.splits)
next
  case (more q k resp k' xs)
  then show ?case by (subst list_pages.simps) simp
qed

lemma list_pages_sound:
  assumes "list_pages q k out = Some r"
  shows "\<forall>ys. r = Inr ys \<longrightarrow> (\<exists>xs. pages q k xs \<and> ys = out @ xs)"
proof (rule list_pages.raw_induct
    [where P = "\<lambda>q k out r. \<forall>ys. r = Inr ys \<longrightarrow> (\<exists>xs. pages q k xs \<and> ys = out @ xs)", OF _ assms],
    intro allI impI)
    fix rec q k out r ys
    assume 1: "\<And>q k out r. rec q k out = Some r \<Longrightarrow> \<forall>ys. r = Inr ys \<longrightarrow> (\<exists>xs. pages q k xs \<and> ys = out @ xs)"
      "(case q k of Inl e \<Rightarrow> Some (Inl (LegacyDdb e))
        | Inr resp \<Rightarrow> (case qo_last_evaluated_key resp of
            None \<Rightarrow> Some (Inr (out @ qo_items resp))
          | Some k \<Rightarrow> if k = [] then Some (Inr (out @ qo_items resp))
                     else rec q (Some k) (out @ qo_items resp))) = Some r"
    assume r: "r = Inr ys"
    with 1(2) obtain resp where q: "q k = Inr resp" by (cases "q k") auto
    show "\<exists>xs. pages q k xs \<and> ys = out @ xs"
    proof (cases "unwrap_or [] (qo_last_evaluated_key resp) = []")
      case True
      with 1(2) r q have "ys = out @ qo_items resp" by (auto simp: unwrap_or_def split: option.splits if_splits)
      with pages.last [of q k resp] q True show ?thesis by blast
    next
      case False
      then obtain k' where k': "qo_last_evaluated_key resp = Some k'" "k' \<noteq> []"
        by (auto simp: unwrap_or_def split: option.splits)
      with 1(2) q have "rec q (Some k') (out @ qo_items resp) = Some r" by simp
      from 1(1) [OF this] r obtain xs where "pages q (Some k') xs" "ys = (out @ qo_items resp) @ xs" by blast
      then show ?thesis using pages.more [of q k resp k' xs] q k' by (intro exI [of _ "qo_items resp @ xs"]) simp
    qed
qed

lemma list_pages_iff: "list_pages q k [] = Some (Inr xs) \<longleftrightarrow> pages q k xs"
  using list_pages_complete [of q k xs "[]"] list_pages_sound [of q k "[]" "Inr xs"] by auto

section \<open>Numbering\<close>

text \<open>What a row contributes, but for its number.\<close>

definition sub_of :: "(string \<Rightarrow> bool) \<Rightarrow> slot \<Rightarrow> string option \<Rightarrow> i64 \<Rightarrow> item \<Rightarrow> stored_transfer option" where
  "sub_of skip sl bid ts row =
     Option.bind (res_ok (item_str row ''Hash'')) (\<lambda>hash.
       if CHR ''_'' \<notin> set hash \<or> skip hash then None
       else legacy_sub_transfer_to_transfer (sub_view row hash) sl bid 0 ts)"

lemma sub_transfer_index:
  "legacy_sub_transfer_to_transfer v sl bid i ts =
     map_option (\<lambda>t. t\<lparr>tr_index_in_slot := i\<rparr>) (legacy_sub_transfer_to_transfer v sl bid 0 ts)"
  by (simp add: legacy_sub_transfer_to_transfer_def Let_def)

lemma number_sub_transfers_step:
  "number_sub_transfers skip sl bid ts i (row # rows) =
     (case sub_of skip sl bid ts row of
        None \<Rightarrow> number_sub_transfers skip sl bid ts i rows
      | Some t \<Rightarrow> t\<lparr>tr_index_in_slot := i\<rparr> # number_sub_transfers skip sl bid ts (sat_add i 1) rows)"
  by (cases "item_str row ''Hash''")
    (auto simp: sub_of_def sub_transfer_index [of _ sl bid i ts] split: option.splits)

declare number_sub_transfers.simps(2) [simp del]

lemma unat_sat_succ: "unat i + 1 < 2 ^ 32 \<Longrightarrow> unat (sat_add i 1 :: u32) = unat i + 1"
  by (simp add: sat_add_def unat_word_ariths word_le_nat_alt)

text \<open>The rows that count, in order, numbered one after the other.\<close>

lemma number_sub_transfers_run:
  assumes "unat i + length rows < 2 ^ 32"
  shows "number_sub_transfers skip sl bid ts i rows =
    map (\<lambda>(n, t). t\<lparr>tr_index_in_slot := word_of_nat n\<rparr>)
      (enumerate (unat i) (List.map_filter (sub_of skip sl bid ts) rows))"
  using assms
proof (induction rows arbitrary: i)
  case (Cons row rows)
  show ?case
  proof (cases "sub_of skip sl bid ts row")
    case None
    then show ?thesis using Cons by (simp add: number_sub_transfers_step List.map_filter_def)
  next
    case (Some t)
    have u: "unat (sat_add i 1) = unat i + 1" using Cons.prems by (intro unat_sat_succ) simp
    have "unat (sat_add i 1) + length rows < 2 ^ 32" using Cons.prems by (simp add: u)
    from Cons.IH [OF this] Some show ?thesis
      by (simp add: number_sub_transfers_step List.map_filter_def u)
  qed
qed (simp add: List.map_filter_def)

text \<open>A sub-transfer row never counts as slot-bound: its hash always names an operation.\<close>

lemma sub_of_origin:
  assumes "sub_of skip sl bid ts row = Some t"
  shows "tr_origin t = AbiTransferCoins \<and> tr_operation_id t = before_underscore (tr_id t) \<and> wf_transfer t"
  using assms
  by (auto simp: sub_of_def legacy_sub_transfer_to_transfer_def before_underscore_def sub_view_def
      sub_transfer_origin_def wf_transfer_def Let_def bind_eq_Some_conv split: if_splits)

text \<open>The number of a synthetic transfer is the place of its operation.\<close>

definition synth_of :: "string set \<Rightarrow> slot \<Rightarrow> string \<Rightarrow> i64 \<Rightarrow> nat \<Rightarrow> decoded_op \<Rightarrow> stored_transfer option" where
  "synth_of covered sl bh ts i d =
     (if \<not> do_executed d \<or> id_text (op_id (do_stored d)) \<in> covered then None
      else legacy_op_to_transfer (do_stored d) sl bh (word_of_nat i) ts)"

lemma synth_transfers_eq:
  "synth_transfers covered sl bh ts ops =
     List.map_filter (\<lambda>(i, d). synth_of covered sl bh ts i d) (enumerate 0 ops)"
  unfolding synth_transfers_def synth_of_def by (rule arg_cong2 [where f = List.map_filter]) auto

lemma synth_of_index: "synth_of covered sl bh ts i d = Some t \<Longrightarrow> tr_index_in_slot t = word_of_nat i \<and> tr_slot t = sl"
  by (auto simp: synth_of_def legacy_op_to_transfer_def split: if_splits option.splits)

lemma set_map_filtered: "y \<in> set (List.map_filter f xs) \<longleftrightarrow> (\<exists>x \<in> set xs. f x = Some y)"
  by (force simp: List.map_filter_def)

lemma in_synth_transfers:
  "t \<in> set (synth_transfers covered sl bh ts ops) \<longleftrightarrow>
     (\<exists>i < length ops. synth_of covered sl bh ts i (ops ! i) = Some t)"
  unfolding synth_transfers_eq set_map_filtered
  by (auto simp: in_set_enumerate_eq Bex_def split: prod.splits)

lemma enumerate_from: "enumerate n xs = map (\<lambda>i. (i, xs ! (i - n))) [n..<n + length xs]"
  by (intro nth_equalityI) (simp_all add: nth_enumerate_eq)

lemma synth_indexes:
  "map tr_index_in_slot (synth_transfers covered sl bh ts ops) =
     map word_of_nat (filter (\<lambda>i. synth_of covered sl bh ts i (ops ! i) \<noteq> None) [0..<length ops])"
proof -
  have "map tr_index_in_slot (List.map_filter (\<lambda>(i, d). synth_of covered sl bh ts i d) (map (\<lambda>i. (i, ops ! i)) ns)) =
      map word_of_nat (filter (\<lambda>i. synth_of covered sl bh ts i (ops ! i) \<noteq> None) ns)" for ns
    by (induction ns) (auto simp: List.map_filter_def dest: synth_of_index)
  from this [of "[0..<length ops]"] show ?thesis
    by (simp add: synth_transfers_eq enumerate_from)
qed

lemma sub_indexes:
  assumes "unat i + length rows < 2 ^ 32" "subs = number_sub_transfers skip sl bid ts i rows"
  shows "map tr_index_in_slot subs = map word_of_nat [unat i..<unat i + length subs] \<and> length subs \<le> length rows"
proof -
  have "length (List.map_filter f xs) \<le> length xs" for f :: "item \<Rightarrow> stored_transfer option" and xs
    by (simp add: List.map_filter_def length_filter_le)
  then show ?thesis
    unfolding assms(2) number_sub_transfers_run [OF assms(1)]
    by (auto simp: enumerate_from comp_def)
qed

lemma sub_slots: "t \<in> set (number_sub_transfers skip sl bid ts i rows) \<Longrightarrow> tr_slot t = sl"
  by (induction rows arbitrary: i)
    (auto simp: number_sub_transfers.simps legacy_sub_transfer_to_transfer_def Let_def
      split: sum.splits if_splits option.splits)

lemma synth_slots: "t \<in> set (synth_transfers covered sl bh ts ops) \<Longrightarrow> tr_slot t = sl"
  by (auto simp: in_synth_transfers dest: synth_of_index)

lemma transfer_key_of_index:
  "tr_slot t = tr_slot u \<Longrightarrow> transfer_key_of t = transfer_key_of u \<longleftrightarrow> tr_index_in_slot t = tr_index_in_slot u"
  by (auto simp: transfer_key_of_def transfer_key_def sc_event_key_inj)

lemma distinct_keys_iff:
  assumes "\<forall>t \<in> set xs. tr_slot t = sl"
  shows "distinct (map transfer_key_of xs) \<longleftrightarrow> distinct (map tr_index_in_slot xs)"
proof -
  have "inj_on transfer_key_of (set xs) \<longleftrightarrow> inj_on tr_index_in_slot (set xs)"
    using assms by (simp add: inj_on_def transfer_key_of_index)
  then show ?thesis by (simp add: distinct_map)
qed

lemma distinct_words: "\<forall>n \<in> set ns. n < 2 ^ 32 \<Longrightarrow> distinct (map word_of_nat ns :: u32 list) \<longleftrightarrow> distinct ns"
proof -
  assume a: "\<forall>n \<in> set ns. n < 2 ^ 32"
  have "unat (word_of_nat n :: u32) = n" if "n < 2 ^ 32" for n
    using that by (simp only: unat_of_nat len_num1 len_of_numeral_defs) simp
  with a have "inj_on (word_of_nat :: nat \<Rightarrow> u32) (set ns)" by (intro inj_onI) metis
  then show ?thesis by (simp add: distinct_map)
qed

section \<open>The calendar\<close>

definition leap_year :: "nat \<Rightarrow> bool" where
  "leap_year y \<longleftrightarrow> 4 dvd y \<and> (\<not> 100 dvd y \<or> 400 dvd y)"

fun year_start :: "nat \<Rightarrow> nat" where
  "year_start 0 = 0"
| "year_start (Suc y) = year_start y + (if leap_year y then 366 else 365)"

definition month_lengths :: "nat \<Rightarrow> nat list" where
  "month_lengths y = [31, if leap_year y then 29 else 28, 31, 30, 31, 30, 31, 31, 30, 31, 30, 31]"

definition valid_date :: "nat \<times> nat \<times> nat \<Rightarrow> bool" where
  "valid_date = (\<lambda>(y, m, d). 1 \<le> m \<and> m \<le> 12 \<and> 1 \<le> d \<and> d \<le> month_lengths y ! (m - 1))"

definition day_number :: "nat \<times> nat \<times> nat \<Rightarrow> nat" where
  "day_number = (\<lambda>(y, m, d). year_start y + sum_list (take (m - 1) (month_lengths y)) + (d - 1))"

definition EPOCH_DAY :: nat where "EPOCH_DAY = day_number (1970, 1, 1)"

section \<open>Years in closed form\<close>

lemma Suc_div_dvd: "Suc m div n = m div n + (if n dvd Suc m then 1 else 0)"
  by (simp add: div_Suc mod_Suc dvd_eq_mod_eq_0)

text \<open>Arithmetic with the quotients as unknowns, so that no solver splits them.\<close>

lemma leap_step:
  assumes "ys + c = 365 * y + a + q" "F = (if four then 1 else 0)" "H = (if hundred then 1 else 0)"
    and "Q = (if four_hundred then 1 else (0::nat))" "four_hundred \<longrightarrow> hundred" "hundred \<longrightarrow> four"
  shows "ys + (if four \<and> (\<not> hundred \<or> four_hundred) then 366 else 365) + (c + H) =
    365 * Suc y + (a + F) + (q + Q)"
  using assms by auto

lemma march_step:
  assumes "m + 306 + (era * 4 + 1 + h) = 365 * Suc (yoe + era * 400) + (era * 100 + 1 + f) + (era + 1 + q)"
    and "q = 0" "h \<le> (yoe::nat)"
  shows "m = era * 146097 + (365 * yoe + f - h) + 60"
  using assms by simp

lemma year_start_closed:
  "year_start y + (y + 99) div 100 = 365 * y + (y + 3) div 4 + (y + 399) div 400"
proof (induction y)
  case (Suc y)
  have "Suc (y + 3) div 4 = (y + 3) div 4 + (if 4 dvd y then 1 else 0)"
    "Suc (y + 99) div 100 = (y + 99) div 100 + (if 100 dvd y then 1 else 0)"
    "Suc (y + 399) div 400 = (y + 399) div 400 + (if 400 dvd y then 1 else 0)"
    unfolding Suc_div_dvd by (simp_all add: dvd_add_left_iff)
  moreover have "400 dvd y \<longrightarrow> 100 dvd y" using dvd_trans [of 100 400 y] by simp
  moreover have "100 dvd y \<longrightarrow> 4 dvd y" using dvd_trans [of 4 100 y] by simp
  ultimately have "year_start y + (if leap_year y then 366 else 365) + Suc (y + 99) div 100 =
      365 * Suc y + Suc (y + 3) div 4 + Suc (y + 399) div 400"
    unfolding leap_year_def by (simp only: leap_step [OF Suc refl refl refl])
  then show ?case by (simp only: year_start.simps add_Suc)
qed simp

text \<open>The day number of the first of March of a year, and of the start of the next.\<close>

definition march_start :: "nat \<Rightarrow> nat" where
  "march_start y = year_start y + 59 + (if leap_year y then 1 else 0)"

lemma year_start_march: "year_start (Suc y) = march_start y + 306"
  by (simp add: march_start_def)

definition era_day :: "nat \<Rightarrow> nat" where
  "era_day yoe = 365 * yoe + yoe div 4 - yoe div 100"

lemma march_start_era:
  assumes "yoe < 400"
  shows "march_start (yoe + era * 400) = era * 146097 + era_day yoe + 60"
proof -
  let ?y = "yoe + era * 400"
  have sum: "Suc ?y + 3 = yoe + (era * 100 + 1) * 4" "Suc ?y + 99 = yoe + (era * 4 + 1) * 100"
    "Suc ?y + 399 = yoe + (era + 1) * 400"
    by simp_all
  have "(Suc ?y + 3) div 4 = era * 100 + 1 + yoe div 4" unfolding sum by (rule div_mult_self1) simp
  moreover have "(Suc ?y + 99) div 100 = era * 4 + 1 + yoe div 100" unfolding sum by (rule div_mult_self1) simp
  moreover have "(Suc ?y + 399) div 400 = era + 1 + yoe div 400" unfolding sum by (rule div_mult_self1) simp
  moreover have "yoe div 400 = 0" using assms by simp
  moreover have "yoe div 100 \<le> yoe" by simp
  ultimately show ?thesis
    using year_start_closed [of "Suc ?y"] unfolding year_start_march era_day_def
    by (simp only: march_step)
qed

section \<open>Years of an era\<close>

text \<open>A day of an era as centuries, groups of four years, years and days.\<close>

lemma era_parts:
  assumes "doe < 146097"
  obtains c u r d :: nat where "doe = 36524 * c + 1461 * u + 365 * r + d" "c \<le> 3" "u \<le> 24" "r \<le> 3" "d \<le> 365"
    "d = 365 \<longrightarrow> r = 3 \<and> (u = 24 \<longrightarrow> c = 3)"
proof -
  obtain c x where c: "doe = 36524 * c + x" "c \<le> 3" "x \<le> 36524" "x = 36524 \<longrightarrow> c = 3"
  proof (cases "doe = 146096")
    case True
    then show thesis using that [of 3 36524] by simp
  next
    case False
    have "doe = 36524 * (doe div 36524) + doe mod 36524" "doe mod 36524 < 36524" by simp_all
    moreover from this have "doe div 36524 \<le> 3" using assms False by linarith
    ultimately show thesis using that [of "doe div 36524" "doe mod 36524"] by linarith
  qed
  obtain u y where u: "x = 1461 * u + y" "y < 1461"
    using mult_div_mod_eq [of 1461 x] by (metis mod_less_divisor zero_less_numeral)
  obtain r d where r: "y = 365 * r + d" "r \<le> 3" "d \<le> 365" "d = 365 \<longrightarrow> r = 3"
  proof (cases "y = 1460")
    case True
    then show thesis using that [of 3 365] by simp
  next
    case False
    have "y = 365 * (y div 365) + y mod 365" "y mod 365 < 365" by simp_all
    moreover from this have "y div 365 \<le> 3" using u(2) False by linarith
    ultimately show thesis using that [of "y div 365" "y mod 365"] by linarith
  qed
  have "u \<le> 24" using c(3) u by linarith
  moreover have "d = 365 \<longrightarrow> u = 24 \<longrightarrow> c = 3" using c(3,4) u(1) r by linarith
  ultimately show thesis using that [of c u r d] c u r by simp
qed

lemma era_day_parts:
  assumes "u \<le> 24" "r \<le> 3"
  shows "era_day (100 * c + 4 * u + r) = 36524 * c + 1461 * u + 365 * r"
proof -
  have "100 * c + 4 * u + r = r + (25 * c + u) * 4" "100 * c + 4 * u + r = (4 * u + r) + c * 100" by simp_all
  moreover have "(r + (25 * c + u) * 4) div 4 = 25 * c + u" using assms(2) by simp
  moreover have "((4 * u + r) + c * 100) div 100 = c" using assms by simp
  ultimately have "(100 * c + 4 * u + r) div 4 = 25 * c + u" "(100 * c + 4 * u + r) div 100 = c" by metis+
  then show ?thesis by (simp add: era_day_def)
qed

lemma quotient_of: "n = k * q + s \<Longrightarrow> s < k \<Longrightarrow> n div k = (q::nat)"
  by simp

lemma year_of_era_parts:
  assumes "c \<le> 3" "u \<le> 24" "r \<le> 3" "d \<le> 365" "d = 365 \<longrightarrow> r = 3 \<and> (u = 24 \<longrightarrow> c = 3)"
  shows "year_of_era (36524 * c + 1461 * u + 365 * r + d) = 100 * c + 4 * u + r"
proof -
  let ?n = "36524 * c + 1461 * u + 365 * r + d"
  obtain e s where e: "24 * c + u + 365 * r + d = 1460 * e + s" "s < 1460"
    using mult_div_mod_eq [of 1460 "24 * c + u + 365 * r + d"] by (metis mod_less_divisor zero_less_numeral)
  have "e \<le> 1" using e assms(1-4) by linarith
  then have e01: "e = 0 \<or> e = 1" by linarith
  have "e \<le> d" using e01 e assms(1-4) by (elim disjE) linarith+
  then obtain f where f: "d = e + f" using le_Suc_ex by blast
  have "f < 365"
  proof (cases "d = 365")
    case True
    then have "e = 1" using e01 e assms(5) by (elim disjE) simp_all
    with True f show ?thesis by simp
  next
    case False
    with f assms(4) show ?thesis by linarith
  qed
  note f = f this
  obtain t x y where t: "1461 * u + 365 * r + d = 36524 * t + x" "x < 36524" "?n = 146096 * t + y" "y < 146096"
  proof (cases "1461 * u + 365 * r + d = 36524")
    case True
    then have "c = 3" using assms by linarith
    then show thesis using that [of 1 0 0] True by simp
  next
    case False
    then have "1461 * u + 365 * r + d < 36524" using assms(1-4) by linarith
    then show thesis using that [of 0 "1461 * u + 365 * r + d" ?n] assms(1) by simp
  qed
  have "?n div 1460 = 25 * c + u + e" by (rule quotient_of [where s = s]) (use e in simp_all)
  moreover have "?n div 36524 = c + t" by (rule quotient_of [where s = x]) (use t in simp_all)
  moreover have "?n div 146096 = t" by (rule quotient_of [where s = y]) (use t in simp_all)
  moreover have "?n - (25 * c + u + e) + (c + t) - t = 365 * (100 * c + 4 * u + r) + f"
    using f(1) by simp
  ultimately show ?thesis
    unfolding year_of_era_def by (simp only: quotient_of [OF refl f(2)])
qed

section \<open>Months\<close>

lemma month_day_parts:
  assumes "doy < 366"
  obtains k d where "k < 12" "doy = [0, 31, 61, 92, 122, 153, 184, 214, 245, 275, 306, 337] ! k + (d - 1)"
    "1 \<le> d" "d \<le> [31, 30, 31, 30, 31, 31, 30, 31, 30, 31, 31, 29] ! k"
    "month_day doy = (if k < 10 then k + 3 else k - 9, d)"
proof -
  define k where "k = (5 * doy + 2) div 153"
  have b: "153 * k \<le> 5 * doy + 2" "5 * doy + 2 < 153 * k + 153"
    unfolding k_def by (simp_all add: dividend_less_times_div)
  have "k < 12" using b assms by simp
  then have "k = 0 \<or> k = 1 \<or> k = 2 \<or> k = 3 \<or> k = 4 \<or> k = 5 \<or> k = 6 \<or> k = 7 \<or> k = 8 \<or> k = 9 \<or>
      k = 10 \<or> k = 11" by presburger
  moreover have "month_day doy = (if k < 10 then k + 3 else k - 9, doy - (153 * k + 2) div 5 + 1)"
    by (simp add: month_day_def Let_def k_def)
  ultimately show thesis
    using b assms that [of k "doy - (153 * k + 2) div 5 + 1"] by (elim disjE) simp_all
qed

section \<open>The date of a day\<close>

lemma last_day_leap:
  assumes "u \<le> 24" "u = 24 \<longrightarrow> c = (3 :: nat)"
  shows "leap_year (Suc (100 * c + 4 * u + 3 + era * 400))"
proof -
  have 4: "Suc (100 * c + 4 * u + 3 + era * 400) = 4 * (25 * c + u + 1 + era * 100)" by simp
  show ?thesis
  proof (cases "u = 24")
    case True
    then have "Suc (100 * c + 4 * u + 3 + era * 400) = 400 * (era + 1)" using assms(2) by simp
    then have "400 dvd Suc (100 * c + 4 * u + 3 + era * 400)" by (metis dvd_triv_left)
    with 4 show ?thesis unfolding leap_year_def by (metis dvd_triv_left)
  next
    case False
    have "\<not> 100 dvd Suc (100 * c + 4 * u + 3 + era * 400)"
    proof
      assume "100 dvd Suc (100 * c + 4 * u + 3 + era * 400)"
      moreover have "Suc (100 * c + 4 * u + 3 + era * 400) = 4 * (u + 1) + 100 * (c + era * 4)" by simp
      ultimately have "100 dvd 4 * (u + 1)" by (metis dvd_add_left_iff dvd_triv_left)
      then show False using assms(1) False by (auto dest!: dvd_imp_le)
    qed
    with 4 show ?thesis unfolding leap_year_def by (metis dvd_triv_left)
  qed
qed

lemma march_date:
  assumes "k < 10" "1 \<le> d" "d \<le> [31, 30, 31, 30, 31, 31, 30, 31, 30, 31, 31, 29] ! k"
  shows "valid_date (y, k + 3, d)"
    and "day_number (y, k + 3, d) =
      march_start y + [0, 31, 61, 92, 122, 153, 184, 214, 245, 275, 306, 337] ! k + (d - 1)"
proof -
  have "k = 0 \<or> k = 1 \<or> k = 2 \<or> k = 3 \<or> k = 4 \<or> k = 5 \<or> k = 6 \<or> k = 7 \<or> k = 8 \<or> k = 9"
    using assms(1) by presburger
  then show "valid_date (y, k + 3, d)" "day_number (y, k + 3, d) =
      march_start y + [0, 31, 61, 92, 122, 153, 184, 214, 245, 275, 306, 337] ! k + (d - 1)"
    using assms(2,3) by (elim disjE; simp add: valid_date_def day_number_def march_start_def month_lengths_def)+
qed

lemma january_date:
  "1 \<le> d \<Longrightarrow> d \<le> 31 \<Longrightarrow> valid_date (Suc y, 1, d)"
  "day_number (Suc y, 1, d) = march_start y + 306 + (d - 1)"
  by (simp_all add: day_number_def valid_date_def month_lengths_def march_start_def)

lemma february_date:
  "1 \<le> d \<Longrightarrow> d \<le> 29 \<Longrightarrow> d = 29 \<longrightarrow> leap_year (Suc y) \<Longrightarrow> valid_date (Suc y, 2, d)"
  "day_number (Suc y, 2, d) = march_start y + 337 + (d - 1)"
  by (auto simp: day_number_def valid_date_def month_lengths_def march_start_def)

lemma EPOCH_DAY: "EPOCH_DAY = 719528"
  using year_start_closed [of 1970] by (simp add: EPOCH_DAY_def day_number_def month_lengths_def)

lemma civil_from_days_date:
  "valid_date (civil_from_days day) \<and> day_number (civil_from_days day) = day + EPOCH_DAY"
proof -
  define era doe where "era = (day + 719468) div 146097" and "doe = (day + 719468) mod 146097"
  have z: "day + 719468 = era * 146097 + doe" "doe < 146097" unfolding era_def doe_def by simp_all
  have e: "era_of day = (era, doe)"
    unfolding era_of_def era_def doe_def Let_def by (simp add: minus_div_mult_eq_mod)
  obtain c u r d where p: "doe = 36524 * c + 1461 * u + 365 * r + d" "c \<le> 3" "u \<le> 24" "r \<le> 3" "d \<le> 365"
      "d = 365 \<longrightarrow> r = 3 \<and> (u = 24 \<longrightarrow> c = 3)"
    using era_parts [OF z(2)] by metis
  let ?yoe = "100 * c + 4 * u + r" let ?y = "?yoe + era * 400"
  have yoe: "year_of_era doe = ?yoe" unfolding p(1) by (rule year_of_era_parts [OF p(2-6)])
  have day: "era_day ?yoe = 36524 * c + 1461 * u + 365 * r" by (rule era_day_parts [OF p(3,4)])
  then have doy: "day_of_year doe ?yoe = d" unfolding day_of_year_def era_day_def p(1) by simp
  have "?yoe < 400" using p(2-4) by linarith
  from march_start_era [OF this, of era] have start: "march_start ?y + d = day + EPOCH_DAY"
    unfolding day EPOCH_DAY using z(1) p(1) by linarith
  obtain k md where m: "k < 12" "d = [0, 31, 61, 92, 122, 153, 184, 214, 245, 275, 306, 337] ! k + (md - 1)"
      "1 \<le> md" "md \<le> [31, 30, 31, 30, 31, 31, 30, 31, 30, 31, 31, 29] ! k"
      "month_day d = (if k < 10 then k + 3 else k - 9, md)"
    by (rule month_day_parts [of d]) (use p(5) in simp_all)
  have "k - 9 \<le> 2" using m(1) by linarith
  have civil: "civil_from_days day =
      (if k < 10 then (?y, k + 3, md) else (Suc ?y, k - 9, md))"
    using \<open>k - 9 \<le> 2\<close> by (simp add: civil_from_days_def e yoe doy m(5) Let_def)
  consider "k < 10" | "k = 10" | "k = 11" using m(1) by linarith
  then show ?thesis
  proof cases
    case 1
    with march_date [OF 1 m(3,4), of ?y] m(2) start show ?thesis unfolding civil by simp
  next
    case 2
    with january_date [where d = md and y = ?y] m start show ?thesis unfolding civil by simp
  next
    case 3
    have "md = 29 \<longrightarrow> leap_year (Suc ?y)"
      using m(2) 3 p(3,6) last_day_leap [of u c era] by auto
    with february_date [where d = md and y = ?y] m start 3 show ?thesis unfolding civil by simp
  qed
qed

section \<open>Times\<close>

lemma year_start_ge: "365 * y \<le> year_start y"
  by (induction y) auto

lemma split_seconds: "(r::nat) = 3600 * (r div 3600) + 60 * (r div 60 mod 60) + r mod 60"
proof -
  have "r div 3600 = r div 60 div 60" by (simp add: div_mult2_eq [of r 60 60, simplified])
  moreover have "r = 60 * (r div 60) + r mod 60" by simp
  moreover have "r div 60 = 60 * (r div 60 div 60) + r div 60 mod 60" by simp
  ultimately show ?thesis by linarith
qed

lemma epoch_to_utc_date:
  assumes "0 \<le> sint secs" "sint secs < 2 ^ 55" "epoch_to_utc secs = (y, m, d, h, mi, s)"
  shows "valid_date (unat y, m, d) \<and> h < 24 \<and> mi < 60 \<and> s < 60 \<and> 0 \<le> sint y \<and>
    nat (sint secs) + 86400 * EPOCH_DAY = 86400 * day_number (unat y, m, d) + 3600 * h + 60 * mi + s"
proof -
  define n where "n = nat (sint secs)"
  have n: "n < 2 ^ 55" "nat (max (sint secs) 0) = n" using assms(1,2) by (simp_all add: n_def)
  define day r where "day = n div 86400" and "r = n mod 86400"
  have nr: "n = 86400 * day + r" "r < 86400" by (simp_all add: day_def r_def)
  obtain yy where c: "civil_from_days day = (yy, m, d)" "y = word_of_nat yy"
    and t: "h = r div 3600" "mi = r div 60 mod 60" "s = r mod 60"
    using assms(3) unfolding epoch_to_utc_def n(2) Let_def
    by (auto simp: day_def r_def split: prod.splits)
  have date: "valid_date (yy, m, d)" "day_number (yy, m, d) = day + EPOCH_DAY"
    using civil_from_days_date [of day] by (simp_all add: c)
  have "365 * yy \<le> day + EPOCH_DAY"
    using date(2) year_start_ge [of yy] by (simp add: day_number_def)
  moreover have "86400 * day < 2 ^ 55" using n(1) nr by simp
  ultimately have yy: "yy < 2 ^ 31" unfolding EPOCH_DAY by simp
  then have "yy < 2 ^ 32" by simp
  then have u: "unat y = yy" unfolding c(2) by (simp only: unat_of_nat len_num1 len_of_numeral_defs) simp
  then have "uint y = int yy" by auto
  then have "sint y = int yy"
    using yy by (simp add: sint_uint signed_take_bit_int_eq_self)
  moreover have "r = 3600 * h + 60 * mi + s"
    unfolding t by (rule split_seconds)
  moreover have "h < 24" using nr(2) unfolding t by simp
  ultimately show ?thesis using date nr(1) t u unfolding n_def [symmetric] by simp
qed

end
