(* ===== verification/Repair_Laws.thy ===== *)
theory Repair_Laws
  imports Repair Legacy_Laws Service_Laws Backfill_Laws "HOL-Library.Sublist"
begin

text \<open>
  The repair tasks: numbers survive being stored as texts, so a checkpoint is read back as it was written;
  what a rebuilt slot consists of; and that a walk that is interrupted resumes at a period before which
  everything was sent.
\<close>

section \<open>Numbers as texts\<close>

lemma digit_value_show: "n < 10 \<Longrightarrow> digit_value (char_of (48 + n)) = Some n"
proof -
  assume "n < 10"
  then have "n \<in> {0, 1, 2, 3, 4, 5, 6, 7, 8, 9}" by auto
  then show ?thesis by (auto simp: digit_value_def)
qed

lemma show_nat_digits: "c \<in> set (show_nat n) \<Longrightarrow> \<exists>d < (10::nat). c = char_of (48 + d)"
proof (induction n rule: show_nat.induct)
  case (1 n)
  show ?case
  proof (cases "n < 10")
    case True
    then show ?thesis using 1(2) by (subst (asm) show_nat.simps) auto
  next
    case False
    with 1(2) have "c \<in> set (show_nat (n div 10)) \<or> c = char_of (48 + n mod 10)"
      by (subst (asm) show_nat.simps) auto
    moreover have "n mod 10 < 10" by simp
    ultimately show ?thesis using 1(1) [OF False] by blast
  qed
qed

lemma show_nat_Nil [simp]: "show_nat n \<noteq> []"
  by (subst show_nat.simps) simp

lemma parse_dec_snoc:
  "parse_dec bound acc (cs @ [c]) =
     Option.bind (parse_dec bound acc cs) (\<lambda>a. parse_dec bound a [c])"
  by (induction cs arbitrary: acc) (auto split: option.splits)

lemma parse_dec_show: "n < bound \<Longrightarrow> parse_dec bound 0 (show_nat n) = Some n"
proof (induction n rule: show_nat.induct)
  case (1 n)
  show ?case
  proof (cases "n < 10")
    case True
    then show ?thesis using 1(2) by (subst show_nat.simps) (simp add: digit_value_show)
  next
    case False
    have "digit_value (char_of (48 + n mod 10)) = Some (n mod 10)" by (rule digit_value_show) simp
    moreover have "n div 10 < bound" using 1(2) by (rule le_less_trans [OF div_le_dividend])
    ultimately show ?thesis
      using 1 False by (subst show_nat.simps) (simp add: parse_dec_snoc)
  qed
qed

lemma parse_unsigned_show:
  assumes "n < bound"
  shows "parse_unsigned bound (show_nat n) = Some n"
proof (cases "show_nat n")
  case (Cons c cs)
  then obtain d :: nat where d: "d < 10" "c = char_of (48 + d)" using show_nat_digits [of c n] by auto
  then have "digit_value c = Some d" by (simp add: digit_value_show)
  then have "c \<noteq> CHR ''+''" by (auto simp: digit_value_def)
  then show ?thesis using parse_dec_show [OF assms] Cons by (simp add: parse_unsigned_def)
qed simp

lemma parse_u64_show: "parse_u64 (show_nat (unat n)) = Some n"
proof -
  have "unat n < 2 ^ 64" using unat_u64 [of n] by simp
  then show ?thesis by (simp add: parse_u64_def parse_unsigned_show)
qed

lemma show_nat_ascii: "b \<in> set (str_bytes (show_nat n)) \<Longrightarrow> b < 0x80"
proof -
  assume "b \<in> set (str_bytes (show_nat n))"
  then obtain d :: nat where d: "d < 10" "b = of_char (char_of (48 + d) :: char)"
    using show_nat_digits by (auto simp: str_bytes_def)
  then have "d \<in> {0, 1, 2, 3, 4, 5, 6, 7, 8, 9}" by auto
  then show ?thesis using d(2) by (auto simp: char_of_def bit_0)
qed

section \<open>Checkpoints\<close>

lemma checkpoint_db:
  assumes "db_ok E R"
  shows "table R (rp_db (checkpoint E key n st)) =
    apply_batch [Put CF_META (str_bytes key) (raw E (str_bytes (show_nat (unat n))))] (table R (rp_db st))"
proof -
  obtain t where "db_write E [Put CF_META (str_bytes key) (raw E (str_bytes (show_nat (unat n))))] (rp_db st) = (Inr (), t)"
    "table R t = apply_batch [Put CF_META (str_bytes key) (raw E (str_bytes (show_nat (unat n))))] (table R (rp_db st))"
    by (rule db_write_ok [OF assms])
  then show ?thesis by (simp add: checkpoint_def meta_put_str_def db_put_def)
qed

lemma checkpoint_read:
  assumes "db_ok E R"
  shows "meta_get_str E (rp_db (checkpoint E key n st)) key = Inr (Some (show_nat (unat n)))"
proof -
  have "utf8_lossy (str_bytes (show_nat k)) = str_bytes (show_nat k)" for k
    by (rule utf8_lossy_ascii) (rule show_nat_ascii)
  then show ?thesis
    using wires_okD(13) [OF db_okD(1) [OF assms]]
    by (simp add: meta_get_str_def db_get_ok [OF assms] checkpoint_db [OF assms])
qed

lemma resume_checkpoint:
  assumes "db_ok E R"
  shows "resume_up E (rp_db (checkpoint E key n st)) key from_period = max n from_period"
    and "resume_down E (rp_db (checkpoint E key n st)) key to_period = min n to_period"
  by (simp_all add: resume_up_def resume_down_def checkpoint_read [OF assms] parse_u64_show)

lemma checkpoint_other:
  assumes "db_ok E R" "c \<noteq> CF_META"
  shows "table R (rp_db (checkpoint E key n st)) c = table R (rp_db st) c"
  using assms(2) by (simp add: checkpoint_db [OF assms(1)])

lemma checkpoint_tx [simp]: "rp_tx (checkpoint E key n st) = rp_tx st"
  by (simp add: checkpoint_def)

section \<open>Rebuilt slots\<close>

text \<open>The operations that pay: executed transactions with an amount and a recipient.\<close>

definition pays :: "stored_operation \<Rightarrow> bool" where
  "pays op \<longleftrightarrow> op_kind op = Transaction \<and> op_final_exec_status op = Some ExecOk \<and>
     (\<exists>a. od_amount_nmas (op_details op) = Some a \<and> a \<noteq> 0) \<and> od_recipient_address (op_details op) \<noteq> None"

definition paying_ops :: "('s, 'v, 'x) ext_scheme \<Rightarrow> 's \<Rightarrow> operation_id list \<Rightarrow> stored_operation list" where
  "paying_ops E s ids = filter pays (List.map_filter (\<lambda>i. Option.bind (res_ok (read_op E s i)) id) ids)"

definition payment :: "slot \<Rightarrow> string \<Rightarrow> i64 \<Rightarrow> u32 \<Rightarrow> stored_operation \<Rightarrow> stored_transfer" where
  "payment sl bid ts n op = the (legacy_op_to_transfer op sl bid n ts)"

lemma pays_transfer:
  "op_kind op = Transaction \<Longrightarrow> op_final_exec_status op = Some ExecOk \<Longrightarrow>
   legacy_op_to_transfer op sl bid n ts = (if pays op then Some (payment sl bid ts n op) else None)"
  by (auto simp: legacy_op_to_transfer_def payment_def pays_def split: option.splits)

lemma payment_fields:
  assumes "pays op"
  shows "tr_index_in_slot (payment sl bid ts n op) = n \<and> tr_slot (payment sl bid ts n op) = sl \<and>
    tr_operation_id (payment sl bid ts n op) = Some (id_text (op_id op)) \<and>
    tr_origin (payment sl bid ts n op) = OpTransactionCoins \<and> tr_block_id (payment sl bid ts n op) = Some bid \<and>
    Some (tr_value (payment sl bid ts n op)) = map_option Coins (od_amount_nmas (op_details op)) \<and>
    wf_transfer (payment sl bid ts n op)"
  using assms by (auto simp: payment_def pays_def legacy_op_to_transfer_def wf_transfer_def)

text \<open>The payments numbered from \<open>n\<close> on.\<close>

fun payments :: "slot \<Rightarrow> string \<Rightarrow> i64 \<Rightarrow> u32 \<Rightarrow> stored_operation list \<Rightarrow> stored_transfer list" where
  "payments sl bid ts n [] = []"
| "payments sl bid ts n (op # ops) = payment sl bid ts n op # payments sl bid ts (n + 1) ops"

lemma payments_nth: "i < length ops \<Longrightarrow> payments sl bid ts n ops ! i = payment sl bid ts (n + word_of_nat i) (ops ! i)"
  by (induction ops arbitrary: n i) (auto simp: nth_Cons add.assoc split: nat.splits)

lemma length_payments [simp]: "length (payments sl bid ts n ops) = length ops"
  by (induction ops arbitrary: n) auto

lemma reconstruct_rows_run:
  assumes "wires_ok E"
  shows "(\<exists>e. reconstruct_rows E s sl bid ts n ids = Some (Inl e)) \<or>
    (\<exists>pbs. reconstruct_rows E s sl bid ts n ids = Some (Inr pbs) \<and>
       decode_all (transfer_from_peer_pb E) pbs = payments sl bid ts n (paying_ops E s ids) \<and>
       length pbs = length (paying_ops E s ids))"
proof (induction ids arbitrary: n)
  case Nil
  then show ?case by (simp add: paying_ops_def List.map_filter_def decode_all_def)
next
  case (Cons i ids)
  show ?case
  proof (cases "read_op E s i")
    case (Inl e)
    then show ?thesis by (simp add: sbind_def)
  next
    case (Inr found)
    show ?thesis
    proof (cases "\<exists>op. found = Some op \<and> pays op")
      case False
      then have "reconstruct_rows E s sl bid ts n (i # ids) = reconstruct_rows E s sl bid ts n ids"
        using Inr by (auto simp: sbind_def pays_transfer split: option.splits)
      moreover have "paying_ops E s (i # ids) = paying_ops E s ids"
        using False Inr by (cases found) (auto simp: paying_ops_def List.map_filter_def)
      ultimately show ?thesis using Cons [of n] by simp
    next
      case True
      then obtain op where op: "found = Some op" "pays op" by blast
      have k: "op_kind op = Transaction" "op_final_exec_status op = Some ExecOk" using op(2) by (simp_all add: pays_def)
      obtain pb where pb: "transfer_to_peer_pb E (payment sl bid ts n op) = Some pb"
        "transfer_from_peer_pb E pb = Inr (payment sl bid ts n op)"
        using shipped_transfer.shipped [OF assms] payment_fields [OF op(2)] by blast
      have "paying_ops E s (i # ids) = op # paying_ops E s ids"
        using op Inr by (simp add: paying_ops_def List.map_filter_def)
      moreover have "reconstruct_rows E s sl bid ts n (i # ids) =
          sbind (reconstruct_rows E s sl bid ts (n + 1) ids) (\<lambda>pbs. Some (Inr (pb # pbs)))"
        using Inr op k pb(1) by (simp add: sbind_def pays_transfer)
      ultimately show ?thesis
        using Cons [of "n + 1"] pb(2) by (auto simp: sbind_def decode_all_def)
    qed
  qed
qed

lemma sbind_total: "\<exists>r. m = Some r \<Longrightarrow> (\<And>x. \<exists>r. f x = Some r) \<Longrightarrow> \<exists>r. sbind m f = Some r"
  by (auto simp: sbind_def split: sum.splits)

lemma reconstruct_slot_total: "wires_ok E \<Longrightarrow> \<exists>r. reconstruct_slot E s cfg sl = Some r"
proof -
  assume w: "wires_ok E"
  have rows: "\<exists>r. reconstruct_rows E s sl bid ts n ids = Some r" for bid ts n ids
    using reconstruct_rows_run [OF w, of s sl bid ts n ids] by blast
  show ?thesis
    unfolding reconstruct_slot_def
    by (intro sbind_total) (auto split: option.split intro!: sbind_total rows)
qed

lemma reconstruct_slot_patch:
  assumes "wires_ok E" "reconstruct_slot E s cfg sl = Some (Inr (Some resp))"
  shows "\<exists>st b. read_slot E s (sl_period sl) (sl_thread sl) = Inr (Some st) \<and> lacks_transfers st \<and>
    st_final_block_id st = Some b \<and> paying_ops E s (st_executed_op_ids st) \<noteq> [] \<and>
    resp = transfer_patch sl (id_text b) (fr_transfers resp) \<and>
    decode_all (transfer_from_peer_pb E) (fr_transfers resp) =
      payments sl (id_text b) (slot_timestamp_ms cfg sl) 0 (paying_ops E s (st_executed_op_ids st))"
proof -
  obtain st b where st: "read_slot E s (sl_period sl) (sl_thread sl) = Inr (Some st)" "lacks_transfers st"
    "st_final_block_id st = Some b"
    using assms(2) by (auto simp: reconstruct_slot_def sbind_def split: option.splits sum.splits if_splits)
  from reconstruct_rows_run [OF assms(1), of s sl "id_text b" "slot_timestamp_ms cfg sl" 0 "st_executed_op_ids st"]
  show ?thesis
    using assms(2) st by (auto simp: reconstruct_slot_def sbind_def transfer_patch_def split: if_splits)
qed

text \<open>What is rebuilt depends on the slot and operation rows only.\<close>

lemma read_op_cong: "db_ok E R \<Longrightarrow> table R s CF_OP = table R t CF_OP \<Longrightarrow> read_op E s i = read_op E t i"
  by (simp add: read_op_def get_decoded_ok)

lemma read_slot_cong: "db_ok E R \<Longrightarrow> table R s CF_SLOT = table R t CF_SLOT \<Longrightarrow> read_slot E s p th = read_slot E t p th"
  by (simp add: read_slot_def get_decoded_ok)

lemma reconstruct_slot_cong:
  assumes "db_ok E R" "table R s CF_SLOT = table R t CF_SLOT" "table R s CF_OP = table R t CF_OP"
  shows "reconstruct_slot E s cfg sl = reconstruct_slot E t cfg sl"
proof -
  have op: "read_op E s = read_op E t"
    by (rule ext) (rule read_op_cong [OF assms(1,3)])
  have "reconstruct_rows E s sl bid ts n ids = reconstruct_rows E t sl bid ts n ids" for bid ts n ids
  proof (induction ids arbitrary: n)
    case (Cons i ids)
    show ?case unfolding reconstruct_rows.simps op Cons ..
  qed simp
  then have "reconstruct_rows E s sl = reconstruct_rows E t sl" by (intro ext)
  then show ?thesis
    by (simp only: reconstruct_slot_def read_slot_cong [OF assms(1,2)])
qed

section \<open>Walks with checkpoints\<close>

text \<open>The counting loop, for a bound below the largest period.\<close>

lemma unat_succ: "(p :: u64) < q \<Longrightarrow> unat (p + 1) = unat p + 1"
proof -
  assume "p < q"
  then have "p \<noteq> - 1" using word_order.extremum_strict [of q] by auto
  then have "1 + p \<noteq> 0" by (simp add: add_eq_0_iff)
  then show ?thesis using unatSuc [of p] by (simp add: add.commute)
qed

lemma range_incl_Cons: "p \<le> hi \<Longrightarrow> range_incl p hi = p # (if p = hi then [] else range_incl (p + 1) hi)"
proof -
  assume le: "p \<le> hi"
  have "unat (p + 1) = unat p + 1" if "p \<noteq> hi"
    using unat_succ [of p hi] le that by (simp add: order_less_le)
  with le show ?thesis
    by (auto simp: range_incl_upt upt_conv_Cons word_le_nat_alt word_unat_eq_iff)
qed

lemma ascend_range:
  assumes "hi < - 1"
  shows "ascend turn hi p st = until_stopped turn (range_incl p hi) st"
proof (induction "unat (hi + 1 - p)" arbitrary: p st rule: less_induct)
  case less
  have hi: "unat (hi + 1) = unat hi + 1" by (rule unat_succ [OF assms])
  show ?case
  proof (cases "p \<le> hi")
    case False
    then show ?thesis by (subst ascend.simps) (auto simp: range_incl_def not_le)
  next
    case True
    have "hi + 1 - (p + 1) = hi - p" by simp
    moreover have "unat (hi - p) < unat (hi + 1 - p)"
    proof -
      from hi have "p \<le> hi + 1" using True by (simp add: word_le_nat_alt)
      with hi show ?thesis using True by (simp add: unat_sub word_le_nat_alt)
    qed
    ultimately have IH: "ascend turn hi (p + 1) u = until_stopped turn (range_incl (p + 1) hi) u" for u
      using less by metis
    have last: "range_incl (hi + 1) hi = []"
      using hi by (simp add: range_incl_def word_le_nat_alt)
    have rest: "range_incl p hi = p # range_incl (p + 1) hi"
      using range_incl_Cons [OF True] last by auto
    have "ascend turn hi p st =
        (case turn p st of None \<Rightarrow> None
         | Some r \<Rightarrow> if fst r then ascend turn hi (p + 1) (snd r) else Some (False, snd r))"
      by (subst ascend.simps) (use True in auto)
    also have "\<dots> = until_stopped turn (p # range_incl (p + 1) hi) st"
      by (simp add: IH split: option.splits prod.splits bool.splits)
    finally show ?thesis unfolding rest .
  qed
qed

lemma in_range_incl: "p \<in> set (range_incl a b) \<longleftrightarrow> a \<le> p \<and> p \<le> b"
proof -
  have small: "x < 2 ^ 64 \<Longrightarrow> unat (word_of_nat x :: u64) = x" for x
    by (simp only: unat_of_nat len_num1 len_of_numeral_defs) simp
  have b: "unat b < 2 ^ 64" using unat_u64 [of b] by simp
  show ?thesis
  proof
    assume "p \<in> set (range_incl a b)"
    then show "a \<le> p \<and> p \<le> b" using b by (auto simp: range_incl_upt word_le_nat_alt small)
  next
    assume "a \<le> p \<and> p \<le> b"
    then have "unat p \<in> {unat a..<unat b + 1}" "p = word_of_nat (unat p)" by (auto simp: word_le_nat_alt)
    then show "p \<in> set (range_incl a b)" unfolding range_incl_upt by (metis image_eqI list.set_map set_upt)
  qed
qed

lemma sorted_range_incl: "sorted_wrt (<) (range_incl a b)"
proof -
  have small: "x < 2 ^ 64 \<Longrightarrow> unat (word_of_nat x :: u64) = x" for x
    by (simp only: unat_of_nat len_num1 len_of_numeral_defs) simp
  have b: "unat b < 2 ^ 64" using unat_u64 [of b] by simp
  have "sorted_wrt (\<lambda>i j. (word_of_nat i :: u64) < word_of_nat j) [unat a..<unat b + 1]"
    by (rule sorted_wrt_mono_rel [OF _ sorted_wrt_upt])
      (use b in \<open>auto simp: word_less_nat_alt small\<close>)
  then show ?thesis by (simp add: range_incl_upt sorted_wrt_map)
qed

lemma in_prefix_range:
  assumes "prefix qs (range_incl a b)" "qs \<noteq> []" "p \<in> set (range_incl a b)" "p \<le> last qs"
  shows "p \<in> set qs"
proof -
  obtain zs where zs: "range_incl a b = qs @ zs" using assms(1) by (auto simp: prefix_def)
  have "\<forall>z \<in> set zs. last qs < z"
    using sorted_range_incl [of a b] last_in_set [OF assms(2)] by (auto simp: zs sorted_wrt_append)
  then show ?thesis using assms(3,4) zs by auto
qed

lemma chan_closed_facts:
  "chan_closed st = (c, st') \<Longrightarrow> rp_db st' = rp_db st \<and> tx_sent (rp_tx st') = tx_sent (rp_tx st) \<and>
     (c \<longleftrightarrow> tx_alive (rp_tx st) = 0) \<and> tx_alive (rp_tx st') = tx_alive (rp_tx st) - 1"
  by (auto simp: chan_closed_def tx_is_closed_def)

text \<open>
  A body that sends what a period calls for, in order, stops early only when the channel is closed, and
  leaves the checkpoint alone.  \<open>keeps\<close> is what it relies on of the database.
\<close>

locale checkpointed =
  fixes ok :: bool
    and E :: "('s, 'v, 'x) ext_scheme"
    and R :: "('s, 'v) rows"
    and key :: string
    and body :: "u64 \<Rightarrow> 's repair \<Rightarrow> (bool \<times> 's repair) option"
    and keeps :: "'s \<Rightarrow> bool"
    and todo :: "u64 \<Rightarrow> final_slot_response list"
  assumes db: "ok \<Longrightarrow> db_ok E R"
    and put_keeps: "ok \<Longrightarrow> keeps s \<Longrightarrow> keeps (snd (meta_put_str E key t s))"
    and body_total: "ok \<Longrightarrow> keeps (rp_db st) \<Longrightarrow> \<exists>r. body p st = Some r"
    and body_step: "ok \<Longrightarrow> keeps (rp_db st) \<Longrightarrow> body p st = Some (b, st') \<Longrightarrow>
      keeps (rp_db st') \<and> meta_get_str E (rp_db st') key = meta_get_str E (rp_db st) key \<and>
      (\<exists>xs. prefix xs (todo p) \<and> tx_sent (rp_tx st') = tx_sent (rp_tx st) @ xs \<and> (b \<longrightarrow> xs = todo p) \<and>
        tx_alive (rp_tx st) \<le> tx_alive (rp_tx st') + length xs) \<and>
      (b \<or> tx_alive (rp_tx st') = 0)"
begin

lemma turns_run:
  assumes ok "keeps (rp_db st)"
  shows "\<exists>b st' qs xs. until_stopped (period_turn E key body) ps st = Some (b, st') \<and> keeps (rp_db st') \<and>
    tx_sent (rp_tx st') = tx_sent (rp_tx st) @ xs \<and> prefix xs (concat (map todo ps)) \<and>
    prefix qs ps \<and> prefix (concat (map todo qs)) xs \<and> (b \<longrightarrow> xs = concat (map todo ps)) \<and>
    (b \<or> tx_alive (rp_tx st) \<le> length ps + length (concat (map todo ps))) \<and>
    meta_get_str E (rp_db st') key =
      (if qs = [] then meta_get_str E (rp_db st) key else Inr (Some (show_nat (unat (last qs + 1)))))"
  using assms(2)
proof (induction ps arbitrary: st)
  case Nil
  then show ?case by (intro exI [of _ True] exI [of _ st] exI [of _ "[]"]) simp
next
  case (Cons p ps)
  obtain c st1 where c: "chan_closed st = (c, st1)" by (cases "chan_closed st") auto
  note C = chan_closed_facts [OF c]
  show ?case
  proof (cases c)
    case True
    with c have "until_stopped (period_turn E key body) (p # ps) st = Some (False, st1)"
      by (simp add: period_turn_def)
    with C True Cons.prems show ?thesis
      by (intro exI [of _ False] exI [of _ st1] exI [of _ "[]"]) simp
  next
    case False
    with C Cons.prems have "keeps (rp_db st1)" by simp
    from body_total [OF assms(1) this, of p] obtain b st2 where b: "body p st1 = Some (b, st2)" by auto
    from body_step [OF assms(1) \<open>keeps (rp_db st1)\<close> b] obtain xs where
      B: "keeps (rp_db st2)" "meta_get_str E (rp_db st2) key = meta_get_str E (rp_db st) key" "prefix xs (todo p)"
        "tx_sent (rp_tx st2) = tx_sent (rp_tx st) @ xs" "b \<longrightarrow> xs = todo p"
        "tx_alive (rp_tx st) - 1 \<le> tx_alive (rp_tx st2) + length xs" "b \<or> tx_alive (rp_tx st2) = 0"
      using C by auto
    show ?thesis
    proof (cases b)
      case False
      with b c \<open>\<not> c\<close> have "until_stopped (period_turn E key body) (p # ps) st = Some (False, st2)"
        by (simp add: period_turn_def)
      moreover have "tx_alive (rp_tx st) \<le> Suc (length ps) + length (concat (map todo (p # ps)))"
        using B(6,7) False prefix_length_le [OF B(3)] by simp
      moreover have "prefix xs (concat (map todo (p # ps)))" using B(3) by (simp add: prefix_prefix)
      ultimately show ?thesis using B by (intro exI [of _ False] exI [of _ st2] exI [of _ "[]"] exI [of _ xs]) simp
    next
      case True
      define st3 where "st3 = (if p mod CHECKPOINT_EVERY = 0 then checkpoint E key (p + 1) st2 else st2)"
      have st3: "keeps (rp_db st3)" "rp_tx st3 = rp_tx st2"
        using B(1) put_keeps [OF assms(1)] by (simp_all add: st3_def checkpoint_def)
      have ck: "meta_get_str E (rp_db st3) key =
          (if p mod CHECKPOINT_EVERY = 0 then Inr (Some (show_nat (unat (p + 1)))) else meta_get_str E (rp_db st) key)"
        using B(2) by (simp add: st3_def checkpoint_read [OF db [OF assms(1)]])
      have run: "until_stopped (period_turn E key body) (p # ps) st = until_stopped (period_turn E key body) ps st3"
        using b c \<open>\<not> c\<close> True by (simp add: period_turn_def st3_def)
      from Cons.IH [OF st3(1)] obtain b' st' qs ys where
        I: "until_stopped (period_turn E key body) ps st3 = Some (b', st')" "keeps (rp_db st')"
          "tx_sent (rp_tx st') = tx_sent (rp_tx st3) @ ys" "prefix ys (concat (map todo ps))"
          "prefix qs ps" "prefix (concat (map todo qs)) ys" "b' \<longrightarrow> ys = concat (map todo ps)"
          "b' \<or> tx_alive (rp_tx st3) \<le> length ps + length (concat (map todo ps))"
          "meta_get_str E (rp_db st') key =
             (if qs = [] then meta_get_str E (rp_db st3) key else Inr (Some (show_nat (unat (last qs + 1)))))"
        by (elim exE conjE) (rule that)
      define rs where "rs = (if qs = [] \<and> p mod CHECKPOINT_EVERY \<noteq> 0 then [] else p # qs)"
      have rs: "prefix rs (p # ps)" "prefix (concat (map todo rs)) (todo p @ ys)"
        using I(5,6) by (auto simp: rs_def)
      have meta: "meta_get_str E (rp_db st') key =
          (if rs = [] then meta_get_str E (rp_db st) key else Inr (Some (show_nat (unat (last rs + 1)))))"
        unfolding I(9) ck rs_def by simp
      have alive: "b' \<or> tx_alive (rp_tx st) \<le> length (p # ps) + length (concat (map todo (p # ps)))"
        using I(8) B(5,6) True st3(2) by auto
      show ?thesis unfolding run
        using I(1-4,7) B(4,5) True st3(2) rs meta alive
        by (intro exI [of _ b'] exI [of _ st'] exI [of _ rs] exI [of _ "todo p @ ys"]) simp
    qed
  qed
qed

text \<open>
  A whole pass: what it sends is an initial part of what its range calls for; when it is over it says so, and
  before the period it would resume at everything has been sent.
\<close>

lemma pass:
  assumes ok "keeps (rp_db st)" "hi < - 1" "start = resume_up E (rp_db st) key lo" "start \<le> hi"
  shows "\<exists>e st' xs. ascending_task E key lo hi body st = Some (e, st') \<and> e \<noteq> AlreadyDone \<and> keeps (rp_db st') \<and>
    tx_sent (rp_tx st') = tx_sent (rp_tx st) @ xs \<and> prefix xs (concat (map todo (range_incl start hi))) \<and>
    (\<forall>p \<in> set (range_incl start hi). p < resume_up E (rp_db st') key lo \<longrightarrow> set (todo p) \<subseteq> set xs) \<and>
    (e = Done \<longrightarrow> xs = concat (map todo (range_incl start hi)) \<and> hi < resume_up E (rp_db st') key lo) \<and>
    (length (range_incl start hi) + length (concat (map todo (range_incl start hi))) < tx_alive (rp_tx st) \<longrightarrow>
       e = Done)"
proof -
  let ?ps = "range_incl start hi"
  from turns_run [OF assms(1,2), of "range_incl start hi"] obtain b st1 qs xs where
    T: "until_stopped (period_turn E key body) ?ps st = Some (b, st1)" "keeps (rp_db st1)"
      "tx_sent (rp_tx st1) = tx_sent (rp_tx st) @ xs" "prefix xs (concat (map todo ?ps))" "prefix qs ?ps"
      "prefix (concat (map todo qs)) xs" "b \<longrightarrow> xs = concat (map todo ?ps)"
      "b \<or> tx_alive (rp_tx st) \<le> length ?ps + length (concat (map todo ?ps))"
      "meta_get_str E (rp_db st1) key =
         (if qs = [] then meta_get_str E (rp_db st) key else Inr (Some (show_nat (unat (last qs + 1)))))"
    by (elim exE conjE) (rule that)
  have task: "ascending_task E key lo hi body st =
      Some (if b then (Done, checkpoint E key (hi + 1) st1) else (ChannelClosed, st1))"
    using assms(4,5) T(1) by (simp add: ascending_task_def ascend_range [OF assms(3)] Let_def not_less)
  have hi: "hi < hi + 1" using unat_succ [OF assms(3)] by (simp add: word_less_nat_alt)
  have lo: "lo \<le> start"
    unfolding assms(4) resume_up_def by (auto split: sum.splits option.splits)
  show ?thesis
  proof (cases b)
    case True
    have "hi < resume_up E (rp_db (checkpoint E key (hi + 1) st1)) key lo"
      using hi by (simp add: resume_checkpoint [OF db [OF assms(1)]] less_max_iff_disj)
    moreover have "set (todo p) \<subseteq> set (concat (map todo ?ps))" if "p \<in> set ?ps" for p using that by auto
    moreover have "keeps (rp_db (checkpoint E key (hi + 1) st1))"
      using T(2) put_keeps [OF assms(1)] by (simp add: checkpoint_def)
    ultimately show ?thesis
      using task T True
      by (intro exI [of _ Done] exI [of _ "checkpoint E key (hi + 1) st1"] exI [of _ xs]) simp
  next
    case False
    have "set (todo p) \<subseteq> set xs" if p: "p \<in> set ?ps" "p < resume_up E (rp_db st1) key lo" for p
    proof (cases "qs = []")
      case True
      then have "resume_up E (rp_db st1) key lo = start" unfolding assms(4) resume_up_def T(9) by simp
      moreover have "start \<le> p" using p(1) by (simp add: in_range_incl)
      ultimately show ?thesis using p(2) by simp
    next
      case False
      then have "resume_up E (rp_db st1) key lo = max (last qs + 1) lo"
        unfolding resume_up_def T(9) by (simp add: parse_u64_show)
      moreover have "start \<le> p" using p(1) by (simp add: in_range_incl)
      ultimately have "p < last qs + 1" using p(2) lo by (auto simp: less_max_iff_disj)
      moreover have "last qs \<le> hi"
        using last_in_set [OF False] set_mono_prefix [OF T(5)] by (auto simp: in_range_incl)
      then have "unat (last qs + 1) = unat (last qs) + 1" using assms(3) by (intro unat_succ [of _ "- 1"]) simp
      ultimately have "p \<le> last qs" by (simp add: word_less_nat_alt word_le_nat_alt)
      then have "p \<in> set qs" using in_prefix_range [OF T(5) False p(1)] by blast
      then show ?thesis using set_mono_prefix [OF T(6)] by auto
    qed
    with False task T show ?thesis
      by (intro exI [of _ ChannelClosed] exI [of _ st1] exI [of _ xs]) auto
  qed
qed

end

section \<open>The two ascending tasks\<close>

text \<open>The other writers leave alone what a task reads, and its checkpoint.\<close>

definition undisturbed ::
  "('s, 'v, 'x) ext_scheme \<Rightarrow> string \<Rightarrow> (slot \<Rightarrow> 's \<Rightarrow> 's) \<Rightarrow> ('s \<Rightarrow> slot \<Rightarrow> 'a) \<Rightarrow> bool" where
  "undisturbed E key others view \<longleftrightarrow>
     (\<forall>sl s. view (others sl s) = view s \<and> meta_get_str E (others sl s) key = meta_get_str E s key)"

lemma ship_facts:
  "ship resp st = (b, st') \<Longrightarrow> rp_db st' = rp_db st \<and> (b \<longleftrightarrow> tx_alive (rp_tx st) \<noteq> 0) \<and>
     tx_sent (rp_tx st') = tx_sent (rp_tx st) @ (if b then [resp] else []) \<and>
     tx_alive (rp_tx st') = tx_alive (rp_tx st) - 1"
  by (auto simp: ship_def tx_send_def split: if_splits)

lemma repair_count_facts [simp]: "rp_db (repair_count f st) = rp_db st" "rp_tx (repair_count f st) = rp_tx st"
  by (simp_all add: repair_count_def)

text \<open>A step for each item, in order, until the channel closes.\<close>

definition sends_for ::
  "('s, 'v, 'x) ext_scheme \<Rightarrow> string \<Rightarrow> ('s \<Rightarrow> bool) \<Rightarrow> ('a \<Rightarrow> 's repair \<Rightarrow> (bool \<times> 's repair) option) \<Rightarrow>
   ('a \<Rightarrow> final_slot_response list) \<Rightarrow> 'a \<Rightarrow> bool" where
  "sends_for E key keeps f out x \<longleftrightarrow>
     (\<forall>st. keeps (rp_db st) \<longrightarrow> (\<exists>b st'. f x st = Some (b, st') \<and> keeps (rp_db st') \<and>
        meta_get_str E (rp_db st') key = meta_get_str E (rp_db st) key \<and>
        (b \<and> tx_sent (rp_tx st') = tx_sent (rp_tx st) @ out x \<and>
           tx_alive (rp_tx st) \<le> tx_alive (rp_tx st') + length (out x) \<or>
         \<not> b \<and> tx_sent (rp_tx st') = tx_sent (rp_tx st) \<and> tx_alive (rp_tx st) = 0 \<and> tx_alive (rp_tx st') = 0)))"

lemma until_stopped_log:
  assumes "\<forall>x \<in> set xs. sends_for E key keeps f out x" "keeps (rp_db st)"
  shows "\<exists>b st' ys. until_stopped f xs st = Some (b, st') \<and> keeps (rp_db st') \<and>
    meta_get_str E (rp_db st') key = meta_get_str E (rp_db st) key \<and>
    prefix ys (concat (map out xs)) \<and> tx_sent (rp_tx st') = tx_sent (rp_tx st) @ ys \<and> (b \<longrightarrow> ys = concat (map out xs)) \<and>
    tx_alive (rp_tx st) \<le> tx_alive (rp_tx st') + length ys \<and> (b \<or> tx_alive (rp_tx st') = 0)"
  using assms
proof (induction xs arbitrary: st)
  case (Cons x xs)
  obtain b st1 where f: "f x st = Some (b, st1)" "keeps (rp_db st1)"
      "meta_get_str E (rp_db st1) key = meta_get_str E (rp_db st) key"
    and r: "b \<and> tx_sent (rp_tx st1) = tx_sent (rp_tx st) @ out x \<and>
         tx_alive (rp_tx st) \<le> tx_alive (rp_tx st1) + length (out x) \<or>
       \<not> b \<and> tx_sent (rp_tx st1) = tx_sent (rp_tx st) \<and> tx_alive (rp_tx st) = 0 \<and> tx_alive (rp_tx st1) = 0"
    using Cons.prems unfolding sends_for_def by auto
  show ?case
  proof (cases b)
    case False
    with f r show ?thesis by (intro exI [of _ False] exI [of _ st1] exI [of _ "[]"]) simp
  next
    case True
    have "\<forall>y \<in> set xs. sends_for E key keeps f out y" using Cons.prems(1) by simp
    from Cons.IH [OF this f(2)] obtain b' st' ys where
      "until_stopped f xs st1 = Some (b', st')" "keeps (rp_db st')"
      "meta_get_str E (rp_db st') key = meta_get_str E (rp_db st1) key"
      "prefix ys (concat (map out xs))" "tx_sent (rp_tx st') = tx_sent (rp_tx st1) @ ys" "b' \<longrightarrow> ys = concat (map out xs)"
      "tx_alive (rp_tx st1) \<le> tx_alive (rp_tx st') + length ys" "b' \<or> tx_alive (rp_tx st') = 0"
      by (elim exE conjE) (rule that)
    with True f r show ?thesis
      by (intro exI [of _ b'] exI [of _ st'] exI [of _ "out x @ ys"]) simp
  qed
next
  case Nil
  then show ?case by (intro exI [of _ True] exI [of _ st] exI [of _ "[]"]) simp
qed

text \<open>What a slot calls for.\<close>

definition patches :: "('e + 'a option) option \<Rightarrow> 'a list" where
  "patches r = (case r of Some (Inr (Some resp)) \<Rightarrow> [resp] | _ \<Rightarrow> [])"

definition rebuilt :: "(slot \<Rightarrow> (error + final_slot_response option) option) \<Rightarrow> u8 \<Rightarrow> u64 \<Rightarrow> final_slot_response list" where
  "rebuilt V threads p = concat (map (\<lambda>sl. patches (V sl)) (slots_of_period threads p))"

lemma meta_put_other:
  assumes "db_ok E R" "c \<noteq> CF_META"
  shows "table R (snd (meta_put_str E key t s)) c = table R s c"
proof -
  have "touches R {CF_META} (meta_put_str E key t)"
    unfolding meta_put_str_def by (rule touches_put) (simp_all add: db_okD(2) [OF assms(1)])
  from touchesD [OF this, of s] assms(2) show ?thesis by (cases "meta_put_str E key t s") simp
qed

interpretation rebuilding: checkpointed
    "db_ok E R \<and> undisturbed E (reconstruct_ckpt_key cfg) others (\<lambda>s. reconstruct_slot E s cfg)"
    E R "reconstruct_ckpt_key cfg"
    "\<lambda>period. until_stopped (reconstruct_turn E others cfg) (slots_of_period (rc_thread_count cfg) period)"
    "\<lambda>s. reconstruct_slot E s cfg = V" "rebuilt V (rc_thread_count cfg)"
  for E :: "('s, 'v, 'x) ext_scheme" and R others cfg V
proof
  let ?ok = "db_ok E R \<and> undisturbed E (reconstruct_ckpt_key cfg) others (\<lambda>s. reconstruct_slot E s cfg)"
  let ?inv = "\<lambda>s. reconstruct_slot E s cfg = V"
  show "db_ok E R" if ?ok using that ..
  show "?inv (snd (meta_put_str E (reconstruct_ckpt_key cfg) t s))" if ?ok "?inv s" for s t
    using that reconstruct_slot_cong [of E R "snd (meta_put_str E (reconstruct_ckpt_key cfg) t s)" s cfg]
    by (simp add: fun_eq_iff meta_put_other)
  have turn: "sends_for E (reconstruct_ckpt_key cfg) ?inv (reconstruct_turn E others cfg) (\<lambda>sl. patches (V sl)) sl"
    if ok: ?ok for sl
    unfolding sends_for_def
  proof (intro allI impI)
    fix st :: "'s repair"
    assume i: "?inv (rp_db st)"
    let ?st1 = "repair_count scanned (st\<lparr>rp_db := others sl (rp_db st)\<rparr>)"
    have v: "reconstruct_slot E (others sl (rp_db st)) cfg = V"
      and m: "meta_get_str E (others sl (rp_db st)) (reconstruct_ckpt_key cfg) = meta_get_str E (rp_db st) (reconstruct_ckpt_key cfg)"
      using ok i by (auto simp: undisturbed_def)
    obtain r where r: "V sl = Some r"
      using reconstruct_slot_total [OF db_okD(1), of E R] ok v by metis
    show "\<exists>b st'. reconstruct_turn E others cfg sl st = Some (b, st') \<and> ?inv (rp_db st') \<and>
      meta_get_str E (rp_db st') (reconstruct_ckpt_key cfg) = meta_get_str E (rp_db st) (reconstruct_ckpt_key cfg) \<and>
      (b \<and> tx_sent (rp_tx st') = tx_sent (rp_tx st) @ patches (V sl) \<and>
         tx_alive (rp_tx st) \<le> tx_alive (rp_tx st') + length (patches (V sl)) \<or>
       \<not> b \<and> tx_sent (rp_tx st') = tx_sent (rp_tx st) \<and> tx_alive (rp_tx st) = 0 \<and> tx_alive (rp_tx st') = 0)"
    proof (cases "\<exists>resp. r = Inr (Some resp)")
      case True
      then obtain resp where resp: "r = Inr (Some resp)" by blast
      obtain b st2 where s: "ship resp ?st1 = (b, st2)" by (cases "ship resp ?st1") auto
      have "reconstruct_turn E others cfg sl st =
          Some (if b then (True, repair_count (reconstructed (length (fr_transfers resp))) st2) else (False, st2))"
        using v r resp s by (simp add: reconstruct_turn_def Let_def)
      with ship_facts [OF s] v m r resp show ?thesis
        by (intro exI [of _ b]) (cases b; simp add: patches_def)
    next
      case False
      then have "reconstruct_turn E others cfg sl st = Some (True, ?st1)"
        using v r by (auto simp: reconstruct_turn_def Let_def split: sum.splits option.splits)
      moreover have "patches (V sl) = []" using False r by (auto simp: patches_def split: sum.splits option.splits)
      ultimately show ?thesis using v m by (intro exI [of _ True]) simp
    qed
  qed
  have run: "\<exists>b st' ys. until_stopped (reconstruct_turn E others cfg) (slots_of_period (rc_thread_count cfg) p) st = Some (b, st') \<and>
      ?inv (rp_db st') \<and>
      meta_get_str E (rp_db st') (reconstruct_ckpt_key cfg) = meta_get_str E (rp_db st) (reconstruct_ckpt_key cfg) \<and>
      prefix ys (rebuilt V (rc_thread_count cfg) p) \<and> tx_sent (rp_tx st') = tx_sent (rp_tx st) @ ys \<and>
      (b \<longrightarrow> ys = rebuilt V (rc_thread_count cfg) p) \<and>
      tx_alive (rp_tx st) \<le> tx_alive (rp_tx st') + length ys \<and> (b \<or> tx_alive (rp_tx st') = 0)"
    if "?ok" "?inv (rp_db st)" for p st
    unfolding rebuilt_def by (rule until_stopped_log [where keeps = ?inv]) (use turn [OF that(1)] that(2) in blast)+
  show "\<exists>r. until_stopped (reconstruct_turn E others cfg) (slots_of_period (rc_thread_count cfg) p) st = Some r"
    if "?ok" "?inv (rp_db st)" for p st
    using run [OF that, of p] by blast
  show "?inv (rp_db st') \<and>
      meta_get_str E (rp_db st') (reconstruct_ckpt_key cfg) = meta_get_str E (rp_db st) (reconstruct_ckpt_key cfg) \<and>
      (\<exists>xs. prefix xs (rebuilt V (rc_thread_count cfg) p) \<and> tx_sent (rp_tx st') = tx_sent (rp_tx st) @ xs \<and>
        (b \<longrightarrow> xs = rebuilt V (rc_thread_count cfg) p) \<and> tx_alive (rp_tx st) \<le> tx_alive (rp_tx st') + length xs) \<and>
      (b \<or> tx_alive (rp_tx st') = 0)"
    if "?ok" "?inv (rp_db st)"
      "until_stopped (reconstruct_turn E others cfg) (slots_of_period (rc_thread_count cfg) p) st = Some (b, st')" for p b st st'
    using run [OF that(1,2), of p] that(3) by auto

qed

text \<open>The sub-transfers: which slots are looked up depends on three tables.\<close>

lemma rows_cong:
  assumes "store_ok E R" "table R s c = table R t c"
  shows "R s c = R t c"
proof -
  have "set (R s c) = set (R t c)"
    using in_rows_iff [OF assms(1)] assms(2) by (metis subrelI subset_antisym)
  moreover have "sorted (map fst (R s c))" "distinct (map fst (R s c))" "sorted (map fst (R t c))" "distinct (map fst (R t c))"
    using store_sorted [OF assms(1)] by (simp_all add: strict_sorted_iff)
  ultimately show ?thesis
    using map_sorted_distinct_set_unique [of fst "R s c" "R t c"] by (simp add: distinct_map)
qed

lemma sub_target_cong:
  assumes "db_ok E R" "\<And>c. c \<noteq> CF_META \<Longrightarrow> table R s c = table R t c"
  shows "sub_target_of E s sl = sub_target_of E t sl"
proof -
  have slot: "read_slot E s = read_slot E t" by (intro ext read_slot_cong [OF assms(1)] assms(2)) simp
  have op: "read_op E s = read_op E t" by (intro ext read_op_cong [OF assms(1)] assms(2)) simp
  have "some_sc_op_ok E s ids = some_sc_op_ok E t ids" for ids
  proof (induction ids)
    case (Cons i ids)
    show ?case unfolding some_sc_op_ok.simps op Cons ..
  qed simp
  then have sc: "slot_has_successful_sc_op E s = slot_has_successful_sc_op E t"
    by (intro ext) (simp add: slot_has_successful_sc_op_def)
  have "R s CF_TRANSFER = R t CF_TRANSFER"
    by (rule rows_cong [OF db_okD(2) [OF assms(1)]]) (rule assms(2), simp)
  then have "iter_transfers_for_slot E s = iter_transfers_for_slot E t"
    by (intro ext) (simp add: iter_transfers_for_slot_def db_iter_ok [OF assms(1)])
  then show ?thesis by (simp only: sub_target_of_def slot sc)
qed

lemma sub_targets_run:
  assumes "undisturbed E key others (sub_target_of E)"
  shows "\<exists>st'. sub_targets E others sls st = (List.map_filter (sub_target_of E (rp_db st)) sls, st') \<and>
    sub_target_of E (rp_db st') = sub_target_of E (rp_db st) \<and> rp_tx st' = rp_tx st \<and>
    meta_get_str E (rp_db st') key = meta_get_str E (rp_db st) key"
proof (induction sls arbitrary: st)
  case Nil
  then show ?case by (simp add: List.map_filter_def)
next
  case (Cons sl sls)
  let ?st1 = "repair_count scanned (st\<lparr>rp_db := others sl (rp_db st)\<rparr>)"
  have v: "sub_target_of E (others sl (rp_db st)) = sub_target_of E (rp_db st)"
    "meta_get_str E (others sl (rp_db st)) key = meta_get_str E (rp_db st) key"
    using assms by (auto simp: undisturbed_def)
  from Cons.IH [of ?st1] v show ?case
    by (auto simp: Let_def List.map_filter_def split: option.split)
qed

definition looked_up_patches ::
  "('s, 'v, 'x) ext_scheme \<Rightarrow> legacy_ddb_cfg \<Rightarrow> (slot \<Rightarrow> ddb_client) \<Rightarrow> legacy_sub_transfers_config \<Rightarrow>
   sub_target \<Rightarrow> final_slot_response list" where
  "looked_up_patches E dcfg archive cfg = (\<lambda>(sl, bid, ids, next).
     case fetch_sub_transfers dcfg (archive sl) (sl_period sl) (sl_thread sl) (Some bid) next
            (slot_timestamp_ms (timing_of cfg) sl) ids of
       Some (Inr rows) \<Rightarrow>
         if rows = [] then [] else [transfer_patch sl bid (the (those (map (transfer_to_peer_pb E) rows)))]
     | _ \<Rightarrow> [])"

lemma sub_transfers_wf: "t \<in> set (number_sub_transfers skip sl bid ts i rows) \<Longrightarrow> wf_transfer t"
proof (induction rows arbitrary: i)
  case (Cons row rows)
  then show ?case
    by (auto simp: number_sub_transfers_step wf_transfer_def simp del: number_sub_transfers.simps
        dest: sub_of_origin split: option.splits)
qed simp

lemma sub_answer_sends:
  fixes E :: "('s, 'v, 'x) ext_scheme"
  assumes "db_ok E R" "list_slot_rows dcfg (archive sl) (sl_period sl) (sl_thread sl) \<noteq> None"
  shows "sends_for E key keeps (sub_answer E dcfg archive cfg) (looked_up_patches E dcfg archive cfg) (sl, bid, ids, next)"
  unfolding sends_for_def
proof (intro allI impI)
  fix st :: "'s repair"
  assume k: "keeps (rp_db st)"
  let ?fetch = "fetch_sub_transfers dcfg (archive sl) (sl_period sl) (sl_thread sl) (Some bid) next
      (slot_timestamp_ms (timing_of cfg) sl) ids"
  have "?fetch \<noteq> None" using assms(2) by (auto simp: fetch_sub_transfers_def sbind_def split: sum.splits)
  then consider e where "?fetch = Some (Inl e)" | "?fetch = Some (Inr [])"
    | r rows where "?fetch = Some (Inr (r # rows))"
    by (metis not_None_eq sum.exhaust list.exhaust)
  then show "\<exists>b st'. sub_answer E dcfg archive cfg (sl, bid, ids, next) st = Some (b, st') \<and> keeps (rp_db st') \<and>
      meta_get_str E (rp_db st') key = meta_get_str E (rp_db st) key \<and>
      (b \<and> tx_sent (rp_tx st') = tx_sent (rp_tx st) @ looked_up_patches E dcfg archive cfg (sl, bid, ids, next) \<and>
         tx_alive (rp_tx st) \<le> tx_alive (rp_tx st') + length (looked_up_patches E dcfg archive cfg (sl, bid, ids, next)) \<or>
       \<not> b \<and> tx_sent (rp_tx st') = tx_sent (rp_tx st) \<and> tx_alive (rp_tx st) = 0 \<and> tx_alive (rp_tx st') = 0)"
  proof cases
    case 1
    with k show ?thesis by (intro exI [of _ True]) (simp add: sub_answer_def looked_up_patches_def)
  next
    case 2
    with k show ?thesis by (intro exI [of _ True]) (simp add: sub_answer_def looked_up_patches_def)
  next
    case 3
    then have "\<forall>t \<in> set (r # rows). wf_transfer t"
      by (auto simp: fetch_sub_transfers_def sbind_def split: option.splits sum.splits)
        (metis list.set_intros sub_transfers_wf)+
    from shipped_transfer.those_shipped [OF db_okD(1) [OF assms(1)] this] obtain ms where
      ms: "those (map (transfer_to_peer_pb E) (r # rows)) = Some ms" by blast
    obtain b st2 where s: "ship (transfer_patch sl bid ms) st = (b, st2)"
      by (cases "ship (transfer_patch sl bid ms) st") auto
    show ?thesis
      using 3 ms ship_facts [OF s] s k
      by (intro exI [of _ b]) (cases b; simp add: sub_answer_def looked_up_patches_def)
  qed
qed

interpretation sub_transfers: checkpointed
    "db_ok E R \<and> undisturbed E (legacy_sub_ckpt_key cfg) others (sub_target_of E) \<and>
     (\<forall>sl. list_slot_rows dcfg (archive sl) (sl_period sl) (sl_thread sl) \<noteq> None)"
    E R "legacy_sub_ckpt_key cfg"
    "\<lambda>period st. case sub_targets E others (slots_of_period (ls_thread_count cfg) period) st of
       (targets, st1) \<Rightarrow> until_stopped (sub_answer E dcfg archive cfg) (arrival targets) st1"
    "\<lambda>s. sub_target_of E s = T"
    "\<lambda>period. concat (map (looked_up_patches E dcfg archive cfg)
       (arrival (List.map_filter T (slots_of_period (ls_thread_count cfg) period))))"
  for E :: "('s, 'v, 'x) ext_scheme" and R others dcfg archive arrival cfg T
proof
  let ?ok = "db_ok E R \<and> undisturbed E (legacy_sub_ckpt_key cfg) others (sub_target_of E) \<and>
     (\<forall>sl. list_slot_rows dcfg (archive sl) (sl_period sl) (sl_thread sl) \<noteq> None)"
  let ?inv = "\<lambda>s. sub_target_of E s = T"
  let ?todo = "\<lambda>p. concat (map (looked_up_patches E dcfg archive cfg)
       (arrival (List.map_filter T (slots_of_period (ls_thread_count cfg) p))))"
  let ?body = "\<lambda>period st. case sub_targets E others (slots_of_period (ls_thread_count cfg) period) st of
       (targets, st1) \<Rightarrow> until_stopped (sub_answer E dcfg archive cfg) (arrival targets) st1"
  let ?key = "legacy_sub_ckpt_key cfg"
  show "db_ok E R" if ?ok using that ..
  show "?inv (snd (meta_put_str E ?key t s))" if ?ok "?inv s" for s t
    using that sub_target_cong [of E R "snd (meta_put_str E ?key t s)" s]
    by (simp add: fun_eq_iff meta_put_other)
  have run: "\<exists>b st' ys. ?body p st = Some (b, st') \<and> ?inv (rp_db st') \<and>
      meta_get_str E (rp_db st') ?key = meta_get_str E (rp_db st) ?key \<and>
      prefix ys (?todo p) \<and> tx_sent (rp_tx st') = tx_sent (rp_tx st) @ ys \<and> (b \<longrightarrow> ys = ?todo p) \<and>
      tx_alive (rp_tx st) \<le> tx_alive (rp_tx st') + length ys \<and> (b \<or> tx_alive (rp_tx st') = 0)"
    if ok: ?ok and i: "?inv (rp_db st)" for p st
  proof -
    obtain st1 where st1: "sub_targets E others (slots_of_period (ls_thread_count cfg) p) st =
          (List.map_filter T (slots_of_period (ls_thread_count cfg) p), st1)"
        "?inv (rp_db st1)" "rp_tx st1 = rp_tx st" "meta_get_str E (rp_db st1) ?key = meta_get_str E (rp_db st) ?key"
      using sub_targets_run [of E ?key others "slots_of_period (ls_thread_count cfg) p" st] ok i by auto
    have "\<forall>t \<in> set (arrival (List.map_filter T (slots_of_period (ls_thread_count cfg) p))).
        sends_for E ?key ?inv (sub_answer E dcfg archive cfg) (looked_up_patches E dcfg archive cfg) t"
      using sub_answer_sends [of E R dcfg archive _ ?key ?inv] ok by auto
    from until_stopped_log [OF this st1(2)] show ?thesis using st1 by simp
  qed
  show "\<exists>r. ?body p st = Some r" if ?ok "?inv (rp_db st)" for p st
    using run [OF that, of p] by blast
  show "?inv (rp_db st') \<and> meta_get_str E (rp_db st') ?key = meta_get_str E (rp_db st) ?key \<and>
      (\<exists>xs. prefix xs (?todo p) \<and> tx_sent (rp_tx st') = tx_sent (rp_tx st) @ xs \<and> (b \<longrightarrow> xs = ?todo p) \<and>
        tx_alive (rp_tx st) \<le> tx_alive (rp_tx st') + length xs) \<and> (b \<or> tx_alive (rp_tx st') = 0)"
    if "?ok" "?inv (rp_db st)" "?body p st = Some (b, st')" for p b st st'
    using run [OF that(1,2), of p] that(3) by auto
qed

lemma length_rebuilt: "length (rebuilt V threads p) \<le> unat threads"
proof -
  have "length (concat (map (\<lambda>sl. patches (V sl)) sls)) \<le> length sls" for sls
    by (induction sls) (auto simp: patches_def split: option.splits sum.splits)
  from this [of "slots_of_period threads p"] show ?thesis by (simp add: rebuilt_def slots_of_period_def)
qed

section \<open>The descending task\<close>

lemma until_stopped_last:
  "until_stopped f xs st = Some (True, st') \<Longrightarrow> xs \<noteq> [] \<Longrightarrow> \<exists>st1. f (last xs) st1 = Some (True, st')"
proof (induction xs arbitrary: st)
  case (Cons x xs)
  then obtain st1 where "f x st = Some (True, st1)" "until_stopped f xs st1 = Some (True, st')"
    by (auto split: option.splits prod.splits bool.splits)
  with Cons.IH [of st1] show ?case by (cases "xs = []") auto
qed simp

lemma last_pull_window: "fst (last (pull_windows rp lo hi)) = lo \<and> pull_windows rp lo hi \<noteq> []"
proof (induction rp lo hi rule: pull_windows.induct)
  case (1 rp lo hi)
  show ?case
  proof (cases "pull_lo rp lo hi \<le> lo \<or> pull_lo rp lo hi = 0")
    case True
    moreover have "lo \<le> pull_lo rp lo hi" by (simp add: pull_lo_def)
    ultimately have "pull_lo rp lo hi = lo" by auto
    with True show ?thesis by (subst (1 2) pull_windows.simps) (simp add: Let_def)
  next
    case False
    with 1 [OF refl False] show ?thesis by (subst (1 2) pull_windows.simps) (simp add: Let_def)
  qed
qed

lemma pull_window_saves:
  "pull_window E env cfg win st = Some (True, st') \<Longrightarrow>
   \<exists>st1. st' = checkpoint E (pull_ckpt_key cfg) (sat_sub (fst win) 1) st1"
  by (auto simp: pull_window_def Let_def split: prod.splits bool.splits if_splits)

lemma pull_window_total: "\<exists>b st1. pull_window E env cfg win st = Some (b, st1)"
  by (auto simp: pull_window_def Let_def split: prod.split bool.split)

lemma pull_checkpoint:
  assumes "db_ok E R" "run_pull_parts E env cfg st = Some (Done, st')"
  shows "resume_down E (rp_db st') (pull_ckpt_key cfg) (pp_to_period cfg) =
    min (sat_sub (pp_from_period cfg) 1) (pp_to_period cfg)"
proof -
  let ?ws = "pull_windows (bc_range_periods (pull_backfill_config cfg)) (pp_from_period cfg)
      (resume_down E (rp_db st) (pull_ckpt_key cfg) (pp_to_period cfg))"
  have "until_stopped (pull_window E env cfg) ?ws st = Some (True, st')"
    using assms(2) by (auto simp: run_pull_parts_def Let_def split: if_splits)
  then obtain st1 where "pull_window E env cfg (last ?ws) st1 = Some (True, st')"
    using until_stopped_last last_pull_window by metis
  from pull_window_saves [OF this] show ?thesis
    using last_pull_window resume_checkpoint(2) [OF assms(1)] by metis
qed

section \<open>Numbers after those in use\<close>

lemma next_index_above:
  assumes "\<forall>t \<in> set existing. unat (tr_index_in_slot t) + 1 + n < 2 ^ 32" "n < 2 ^ 32"
  shows "unat (next_index existing) + n < 2 ^ 32 \<and> (\<forall>t \<in> set existing. unat (tr_index_in_slot t) < unat (next_index existing))"
proof (cases "existing = []")
  case False
  let ?S = "set (map (\<lambda>t. tr_index_in_slot t + 1) existing)"
  have succ: "unat (tr_index_in_slot t + 1) = unat (tr_index_in_slot t) + 1" if "t \<in> set existing" for t
    using bspec [OF assms(1) that] by (simp add: unat_word_ariths)
  have fin: "finite ?S" "?S \<noteq> {}" using False by simp_all
  have "Max ?S \<in> (\<lambda>t. tr_index_in_slot t + 1) ` set existing" using Max_in [OF fin] by (simp only: list.set_map)
  then obtain t where "t \<in> set existing" "Max ?S = tr_index_in_slot t + 1" by (elim imageE) (rule that)
  moreover have "tr_index_in_slot u + 1 \<le> Max ?S" if "u \<in> set existing" for u
    using that by (intro Max_ge) auto
  ultimately show ?thesis
    using succ assms(1) False by (auto simp: next_index_def word_le_nat_alt Suc_le_eq)
qed (use assms(2) in \<open>simp add: next_index_def\<close>)

lemma sub_not_skipped: "t \<in> set (number_sub_transfers skip sl bid ts i rows) \<Longrightarrow> \<not> skip (tr_id t)"
proof (induction rows arbitrary: i)
  case (Cons row rows)
  then show ?case
    by (auto simp: legacy_sub_transfer_to_transfer_def sub_view_def Let_def split: sum.splits if_splits option.splits)
qed simp

end
