(* ===== verification/Props_Legacy.thy ===== *)
theory Props_Legacy
  imports Legacy_Laws Reference_Node
begin

text \<open>
  The properties of the legacy source: what its decoders return is storable, its keys and its calendar
  are right, its listings are complete, and when the transfers of a slot keep apart.
\<close>

section \<open>A concrete archive\<close>

definition ref_signed_op :: signed_operation where
  "ref_signed_op =
     \<lparr>so_content = Some \<lparr>no_fee = None, no_expire_period = 9,
        no_op = Some \<lparr>ot_type = Some (OpRollBuy' 2)\<rparr>\<rparr>,
      so_signature = ''sig'', so_content_creator_pub_key = ''key'',
      so_content_creator_address = addr_text (user_from_hash ref_node 0 (replicate 32 1)),
      so_secure_hash = ''hash'', so_serialized_size = 5\<rparr>"

definition ref_legacy :: "(ref_value batch, ref_value) legacy_ext" where
  "ref_legacy = node_ext.extend ref_node (legacy_ext.fields
     (\<lambda>_. Inl ''no block'') (\<lambda>_. Inr \<lparr>ow_operation = Some ref_signed_op\<rparr>) (\<lambda>_. Inl ''no endorsement''))"

lemmas ref_legacy_defs = ref_legacy_def ref_node_defs legacy_ext.defs

lemma ref_legacy_crates_ok: "crates_ok ref_legacy"
  using ref_node_crates_ok by (simp add: crates_ok_def ref_legacy_defs)

lemma ref_legacy_ok: "db_ok ref_legacy ref_rows"
  using ref_node_ok ref_legacy_crates_ok
  by (simp add: db_ok_def wires_ok_def store_ok_def healthy_def ref_legacy_defs)

lemma ref_dec_operation: "dec_operation_wrapper ref_legacy = (\<lambda>_. Inr \<lparr>ow_operation = Some ref_signed_op\<rparr>)"
  by (simp add: ref_legacy_defs)

lemma ref_signed_creator: "\<exists>a. addr_parse ref_legacy (so_content_creator_address ref_signed_op) = Inr a"
proof -
  let ?a = "user_from_hash ref_node 0 (replicate 32 1)"
  have "wf_addr ref_node ?a \<and> known_category ?a"
    by (simp add: user_from_hash_def wf_addr_def known_category_def is_user_def addr_category_def Let_def ADDR_KEY_LEN_def)
  then have "addr_parse ref_node (addr_text ?a) = Inr ?a"
    by (intro addr_display.text_parse ref_node_crates_ok)
  moreover have "b58dec ref_legacy = b58dec ref_node" by (simp add: ref_legacy_defs)
  then have "decode_address ref_legacy t = decode_address ref_node t" for t
    by (simp only: decode_address_def)
  ultimately show ?thesis by (simp add: addr_parse_def ref_signed_op_def)
qed

section \<open>Rows\<close>

text \<open>
  C32.  An operation row of the archive that decodes is storable: writing the decoded operation
  succeeds on a healthy database and reading it back under its id returns it unchanged.  Its id is the hash of the row,
  it is included once, at the slot and in the block of the row, and it counts as executed
  exactly when its final status is Ok.
\<close>

theorem legacy_operations_storable:
  fixes E :: "('s, 'v, 'x) legacy_ext_scheme"
  assumes "db_ok E R" "decode_op_row E row now = Inr d"
  shows "\<exists>t. write_op E (do_stored d) s = (Inr (), t) \<and>
    read_op E t (op_id (do_stored d)) = Inr (Some (do_stored d)) \<and>
    id_text (op_id (do_stored d)) = or_hash row \<and>
    (\<exists>b. op_inclusions (do_stored d) = [\<lparr>oi_slot = or_slot row, oi_block_id = b\<rparr>] \<and> id_text b = or_block_hash row) \<and>
    (do_executed d \<longleftrightarrow> op_final_exec_status (do_stored d) = Some ExecOk)"
proof -
  have c: "crates_ok E" using db_okD(1) [OF assms(1)] by (rule wires_okD(1))
  from decode_op_row_wf [OF c assms(2)] obtain t where "write_op E (do_stored d) s = (Inr (), t)"
    "read_op E t (op_id (do_stored d)) = Inr (Some (do_stored d))"
    using op_rows.put_get [OF assms(1), of "do_stored d" s] by (auto simp: read_op_def)
  moreover have "length (op_inclusions (do_stored d)) = 1"
    using assms(2) unfolding decode_op_row_def case_prod_beta by (auto simp: rbind_eq_Inr)
  then obtain i where "op_inclusions (do_stored d) = [i]" by (auto simp: length_Suc_conv)
  ultimately show ?thesis
    using decode_op_row_wf [OF c assms(2)] by (cases i) auto
qed

definition ref_op_row :: op_row where
  "ref_op_row =
     \<lparr>or_hash = id_text (op_from_hash ref_legacy 0 (replicate 32 7)), or_raw = [], or_status = 1,
      or_block_hash = id_text (block_from_hash ref_legacy 0 (replicate 32 1)), or_slot = Slot 5 3\<rparr>"

theorem legacy_operations_storable_witness:
  "\<exists>d t. decode_op_row ref_legacy ref_op_row 9 = Inr d \<and>
    write_op ref_legacy (do_stored d) [] = (Inr (), t) \<and> do_executed d \<and>
    read_op ref_legacy t (op_id (do_stored d)) = Inr (Some (do_stored d))"
proof -
  have "wf_op_id ref_legacy (op_from_hash ref_legacy 0 (replicate 32 7))"
    by (simp add: op_from_hash_def wf_gid_from_hash)
  then have i: "op_parse ref_legacy (or_hash ref_op_row) = Inr (op_from_hash ref_legacy 0 (replicate 32 7))"
    using op_display.text_parse [OF ref_legacy_crates_ok] by (simp add: ref_op_row_def)
  have "wf_block_id ref_legacy (block_from_hash ref_legacy 0 (replicate 32 1))"
    by (simp add: block_from_hash_def wf_gid_from_hash)
  then have b: "block_parse ref_legacy (or_block_hash ref_op_row) = Inr (block_from_hash ref_legacy 0 (replicate 32 1))"
    using block_display.text_parse [OF ref_legacy_crates_ok] by (simp add: ref_op_row_def)
  obtain a where "addr_parse ref_legacy (so_content_creator_address ref_signed_op) = Inr a"
    using ref_signed_creator by blast
  with i b obtain d where d: "decode_op_row ref_legacy ref_op_row 9 = Inr d" "do_executed d"
    by (simp add: decode_op_row_def invalid_id_def ref_signed_op_def ref_dec_operation classify_op_type_def
        ref_op_row_def)
  from legacy_operations_storable [OF ref_legacy_ok d(1), of "[]"] d show ?thesis by blast
qed

section \<open>Keys and dates\<close>

text \<open>
  Slots within the range of the archive's key have keys that lead back to the slot, and later
  slots have smaller keys, so that an ascending scan is newest first.  A slot beyond that range gets the
  key 0, whatever slot it is.
\<close>

theorem archive_keys_invert:
  assumes "t < 100" "u < 100"
  shows "(unat p * 100 + unat t < 2 ^ 32 \<longrightarrow>
      point_in_time_to_slot (point_in_time p t) = Slot p t \<and>
      (slot_lt (Slot q u) (Slot p t) \<longrightarrow> point_in_time p t < point_in_time q u)) \<and>
    (2 ^ 32 \<le> unat p * 100 + unat t \<longrightarrow> point_in_time p t = 0)"
  using point_in_time_inverse [of p t] point_in_time_descends [of p t u q] point_in_time_beyond [of p t] assms
  by blast

theorem archive_keys_invert_witness:
  "point_in_time_to_slot (point_in_time 7 3) = Slot 7 3 \<and> point_in_time 7 3 < point_in_time 6 31"
  using archive_keys_invert [of 3 31 7 6] by (simp add: slot_lt_def)

text \<open>
  The time stamp of a request is the Gregorian date and time of day of the clock: a
  valid date whose day number, counted year by year and month by month, is that of the clock.  This holds
  for every clock below \<open>2 ^ 55\<close> seconds, where the year fits its 32 bits.
\<close>

theorem archive_dates_gregorian:
  assumes "0 \<le> sint secs" "sint secs < 2 ^ 55" "epoch_to_utc secs = (y, m, d, h, mi, s)"
  shows "valid_date (unat y, m, d) \<and> h < 24 \<and> mi < 60 \<and> s < 60 \<and> 0 \<le> sint y \<and>
    nat (sint secs) + 86400 * EPOCH_DAY = 86400 * day_number (unat y, m, d) + 3600 * h + 60 * mi + s"
  by (rule epoch_to_utc_date [OF assms])

theorem archive_dates_gregorian_witness:
  "\<exists>y m d h mi s. epoch_to_utc 951825600 = (y, m, d, h, mi, s) \<and> valid_date (unat y, m, d) \<and>
    951825600 + 86400 * EPOCH_DAY = 86400 * day_number (unat y, m, d) + 3600 * h + 60 * mi + s"
proof -
  obtain y m d h mi s where e: "epoch_to_utc 951825600 = (y, m, d, h, mi, s)" by (cases "epoch_to_utc 951825600") auto
  from archive_dates_gregorian [OF _ _ this] e show ?thesis by auto
qed

text \<open>
  A listing of the archive returns rows exactly when its pages come to an end, and then all the
  rows of all its pages, in order.
\<close>

theorem slot_listing_complete:
  "list_slot_rows cfg d period thread = Some (Inr rows) \<longleftrightarrow>
    pages (\<lambda>k. ddb_query d ((slot_query (lc_operations_table cfg) period thread)\<lparr>qr_exclusive_start_key := k\<rparr>))
      None rows"
  unfolding list_slot_rows_def by (rule list_pages_iff)

section \<open>Transfers\<close>

text \<open>
  C33.  The transfers of an archived slot come from its executed transactions and from its sub-transfer rows.  The former
  are numbered by the position of their operation, the latter one after the other from the number of the
  former on.  So the two never share a database key exactly when no paying transaction stands at a position
  that the sub-transfers take.
\<close>

theorem legacy_transfer_keys_distinct:
  assumes "length ops + length rows < 2 ^ 32"
    and "synth = synth_transfers covered sl bh ts ops"
    and "subs = number_sub_transfers skip sl bid ts (word_of_nat (length synth)) rows"
  shows "(distinct (map transfer_key_of (synth @ subs)) \<longleftrightarrow>
      (\<forall>i < length ops. synth_of covered sl bh ts i (ops ! i) \<noteq> None \<longrightarrow>
        i < length synth \<or> length synth + length subs \<le> i)) \<and>
    map tr_index_in_slot subs = map word_of_nat [length synth..<length synth + length subs]"
proof -
  let ?ns = "filter (\<lambda>i. synth_of covered sl bh ts i (ops ! i) \<noteq> None) [0..<length ops]"
  have xs: "map tr_index_in_slot synth = map word_of_nat ?ns"
    unfolding assms(2) by (rule synth_indexes)
  have "length (map tr_index_in_slot synth) \<le> length ops"
    unfolding xs using length_filter_le [of _ "[0..<length ops]"] by (simp del: length_filter_le)
  then have n: "length synth \<le> length ops" by simp
  then have u: "unat (word_of_nat (length synth) :: u32) = length synth"
    using assms(1) by (simp only: unat_of_nat len_num1 len_of_numeral_defs) simp
  have ys: "map tr_index_in_slot subs = map word_of_nat [length synth..<length synth + length subs]"
    "length subs \<le> length rows"
    using sub_indexes [OF _ assms(3)] u n assms(1) by simp_all
  have "distinct (map transfer_key_of (synth @ subs)) \<longleftrightarrow> distinct (map tr_index_in_slot (synth @ subs))"
    by (rule distinct_keys_iff [where sl = sl]) (auto simp: assms(2,3) dest: synth_slots sub_slots)
  also have "\<dots> \<longleftrightarrow> distinct (map word_of_nat (?ns @ [length synth..<length synth + length subs]) :: u32 list)"
    by (simp only: map_append xs ys)
  also have "\<dots> \<longleftrightarrow> distinct (?ns @ [length synth..<length synth + length subs])"
    using n ys(2) assms(1) by (intro distinct_words) auto
  also have "\<dots> \<longleftrightarrow> (\<forall>i < length ops. synth_of covered sl bh ts i (ops ! i) \<noteq> None \<longrightarrow>
        i < length synth \<or> length synth + length subs \<le> i)"
    by (auto simp: disjoint_iff not_le not_less)
  finally show ?thesis using ys(1) by blast
qed

text \<open>
  An archive where they do collide: a contract call, a transaction, and one sub-transfer of the call.
\<close>

definition ref_archived_op :: "u8 \<Rightarrow> operation_kind \<Rightarrow> decoded_op" where
  "ref_archived_op n kind =
     \<lparr>do_stored =
        \<lparr>op_id = op_from_hash ref_node 0 (replicate 32 n), op_creator = user_from_hash ref_node 0 (replicate 32 1),
         op_target = None, op_kind = kind, op_expire_period = 9, op_fee_nmas = 1, op_thread = 3,
         op_inclusions = [], op_candidate_exec_status = None, op_final_exec_status = Some ExecOk,
         op_details = details_default\<lparr>od_amount_nmas := Some 5, od_recipient_address := Some ''AU''\<rparr>,
         op_signature = ''sig'', op_content_creator_pub_key = ''key'', op_serialized_size = 5,
         op_raw_signed_op_b64 = [], op_first_seen_ts_ms = 9\<rparr>,
      do_executed = True\<rparr>"

definition ref_sub_row :: item where
  "ref_sub_row =
     [(''Hash'', s_str ''O1_0''), (''Status'', AttributeValue None (Some ''1'') None None None None None),
      (''Amount'', AttributeValue None None None None None
         (Some [(''Mantissa'', AttributeValue None (Some ''7'') None None None None None)]) None)]"

theorem legacy_transfer_keys_distinct_witness:
  "\<not> distinct (map transfer_key_of
      (synth_transfers {} (Slot 5 3) ''B'' 9 [ref_archived_op 1 CallSc, ref_archived_op 2 Transaction] @
       number_sub_transfers (\<lambda>_. False) (Slot 5 3) (Some ''B'') 9 1 [ref_sub_row]))"
proof -
  let ?ops = "[ref_archived_op 1 CallSc, ref_archived_op 2 Transaction]"
  let ?synth = "synth_transfers {} (Slot 5 3) ''B'' 9 ?ops"
  let ?subs = "number_sub_transfers (\<lambda>_. False) (Slot 5 3) (Some ''B'') 9 (word_of_nat (length ?synth)) [ref_sub_row]"
  have call: "synth_of {} (Slot 5 3) ''B'' 9 0 (ref_archived_op 1 CallSc) = None"
    by (simp add: synth_of_def legacy_op_to_transfer_def ref_archived_op_def)
  obtain t where pay: "synth_of {} (Slot 5 3) ''B'' 9 1 (ref_archived_op 2 Transaction) = Some t"
    by (simp add: synth_of_def legacy_op_to_transfer_def ref_archived_op_def)
  have one: "length ?synth = 1"
    using call pay by (simp add: synth_transfers_eq List.map_filter_def)
  have sub: "length ?subs = 1"
    by (simp add: number_sub_transfers.simps ref_sub_row_def item_str_def s_str_def sub_view_def item_str_opt_def
        item_num_i64_def parse_i64_def parse_unsigned_def digit_value_def native_amount_mantissa_def parse_u64_def
        legacy_sub_transfer_to_transfer_def before_underscore_def Let_def)
  have "1 < length ?ops" "synth_of {} (Slot 5 3) ''B'' 9 1 (?ops ! 1) \<noteq> None" using pay by simp_all
  with one sub have "\<not> (\<forall>i < length ?ops. synth_of {} (Slot 5 3) ''B'' 9 i (?ops ! i) \<noteq> None \<longrightarrow>
      i < length ?synth \<or> length ?synth + length ?subs \<le> i)" by (metis less_irrefl not_less one_add_one one_less_numeral_iff semiring_norm(76))
  moreover have "length ?ops + length [ref_sub_row] < 2 ^ 32" by simp
  ultimately have "\<not> distinct (map transfer_key_of (?synth @ ?subs))"
    using legacy_transfer_keys_distinct [OF _ refl refl, of ?ops "[ref_sub_row]" "{}" "Slot 5 3" "''B''" 9 "\<lambda>_. False" "Some ''B''"]
    by blast
  then show ?thesis by (simp only: one of_nat_1 not_False_eq_True)
qed

end
