(* ===== verification/Props_Repair.thy ===== *)
theory Props_Repair
  imports Repair_Laws Props_Legacy
begin

text \<open>
  The properties of the repair tasks: what they rebuild, that an interrupted pass loses nothing when it resumes,
  when a pass knows it is over, and that fetched sub-transfers displace no row.
\<close>

section \<open>Rebuilding\<close>

text \<open>
  C34.  A rebuilt slot is a FINAL slot with a block and without the node's transfers, and its patch holds
  exactly one coin transfer for each executed transaction of the slot with an amount and a recipient, in the
  order of execution, numbered from 0.  A slot that yields no patch has no row, is not such a slot or has no
  such transaction.
\<close>

theorem rebuilt_slot_described:
  assumes "db_ok E R" "reconstruct_slot E s cfg sl = Some (Inr r)"
    and "read_slot E s (sl_period sl) (sl_thread sl) = Inr (Some st)" "st_final_block_id st = Some b"
    and "ops = paying_ops E s (st_executed_op_ids st)"
  shows "(r \<noteq> None \<longleftrightarrow> lacks_transfers st \<and> ops \<noteq> []) \<and>
    (\<forall>resp. r = Some resp \<longrightarrow>
      resp = transfer_patch sl (id_text b) (fr_transfers resp) \<and>
      (\<exists>ts. decode_all (transfer_from_peer_pb E) (fr_transfers resp) = ts \<and> length ts = length ops \<and>
        (\<forall>i < length ops. legacy_op_to_transfer (ops ! i) sl (id_text b) (word_of_nat i) (slot_timestamp_ms cfg sl) = Some (ts ! i))))"
proof -
  have w: "wires_ok E" by (rule db_okD(1) [OF assms(1)])
  have pay: "legacy_op_to_transfer op sl bid n ts = Some (payment sl bid ts n op)" if "op \<in> set ops" for op bid n ts
    using that by (auto simp: assms(5) paying_ops_def pays_def legacy_op_to_transfer_def payment_def)
  have rows: "reconstruct_slot E s cfg sl =
      (if lacks_transfers st
       then sbind (reconstruct_rows E s sl (id_text b) (slot_timestamp_ms cfg sl) 0 (st_executed_op_ids st))
         (\<lambda>pbs. Some (Inr (if pbs = [] then None else Some (transfer_patch sl (id_text b) pbs))))
       else Some (Inr None))"
    using assms(3,4) by (simp add: reconstruct_slot_def sbind_def)
  show ?thesis
  proof (cases "lacks_transfers st")
    case True
    with rows assms(2) reconstruct_rows_run [OF w, of s sl "id_text b" "slot_timestamp_ms cfg sl" 0 "st_executed_op_ids st"]
    obtain pbs where p: "r = (if pbs = [] then None else Some (transfer_patch sl (id_text b) pbs))"
      "decode_all (transfer_from_peer_pb E) pbs = payments sl (id_text b) (slot_timestamp_ms cfg sl) 0 ops"
      "length pbs = length ops"
      unfolding assms(5) by (auto simp: sbind_def)
    have "pbs = [] \<longleftrightarrow> ops = []" using p(3) by auto
    with p True show ?thesis by (auto simp: payments_nth pay transfer_patch_def)
  qed (use rows assms(2) in simp)
qed

definition ref_timing :: reconstruct_config where
  "ref_timing = \<lparr>rc_from_period = 0, rc_to_period = 3, rc_thread_count = 2, rc_genesis_timestamp_ms = 1000, rc_t0_ms = 16000\<rparr>"

definition ref_executed :: slot_state where
  "ref_executed = ref_final\<lparr>st_executed_op_ids := [op_id (do_stored (ref_archived_op 2 Transaction))]\<rparr>"

lemma ref_executed_wf: "wf_slot_state ref_node ref_executed \<and> wf_operation ref_node (do_stored (ref_archived_op 2 Transaction))"
proof -
  have "wf_op_id ref_node (op_from_hash ref_node 0 (replicate 32 2))" by (simp add: op_from_hash_def wf_gid_from_hash)
  moreover have "wf_addr ref_node (user_from_hash ref_node 0 (replicate 32 1))"
    by (simp add: user_from_hash_def wf_addr_def Let_def ADDR_KEY_LEN_def)
  moreover have "wf_payload ref_node []" by (simp add: wf_payload_def)
  ultimately show ?thesis
    using ref_final_wf by (simp add: wf_slot_state_def ref_executed_def wf_operation_def ref_archived_op_def)
qed

text \<open>A database that holds a FINAL slot and its one executed transaction.\<close>

lemma ref_executed_db:
  obtains s where "read_slot ref_node s 5 3 = Inr (Some ref_executed)"
    "read_op ref_node s (op_id (do_stored (ref_archived_op 2 Transaction))) = Inr (Some (do_stored (ref_archived_op 2 Transaction)))"
proof -
  let ?op = "do_stored (ref_archived_op 2 Transaction)"
  have sl: "st_slot ref_executed = Slot 5 3" by (simp add: ref_executed_def ref_final_def fresh_def)
  obtain s1 where s1: "write_op ref_node ?op [] = (Inr (), s1)"
      "get_decoded ref_node s1 CF_OP (id_key (op_id ?op)) (decode_operation ref_node) = Inr (Some ?op)"
    using op_rows.put_get [OF ref_node_ok, of ?op "[]"] ref_executed_wf by auto
  obtain s2 where s2: "write_slot ref_node ref_executed s1 = (Inr (), s2)"
      "read_slot ref_node s2 5 3 = Inr (Some ref_executed)"
    using slot_rows.put_get [OF ref_node_ok, of ref_executed s1] ref_executed_wf sl
    by (auto dest!: spec [of _ "Slot 5 3"])
  have "touches ref_rows {CF_SLOT} (write_slot ref_node ref_executed)"
    by (intro frame_intros ref_node_store_ok) simp_all
  from touchesD [OF this s2(1), of CF_OP] have "read_op ref_node s2 (op_id ?op) = read_op ref_node s1 (op_id ?op)"
    by (intro read_op_cong [OF ref_node_ok]) simp
  with s1(2) s2(2) that show thesis by (simp add: read_op_def)
qed

theorem rebuilt_slot_described_witness:
  "\<exists>s resp. reconstruct_slot ref_node s ref_timing (Slot 5 3) = Some (Inr (Some resp)) \<and>
    length (decode_all (transfer_from_peer_pb ref_node) (fr_transfers resp)) = 1"
proof -
  let ?op = "do_stored (ref_archived_op 2 Transaction)"
  obtain s where s: "read_slot ref_node s 5 3 = Inr (Some ref_executed)" "read_op ref_node s (op_id ?op) = Inr (Some ?op)"
    by (rule ref_executed_db)
  have b: "st_final_block_id ref_executed = Some (nblock 1)" by (simp add: ref_executed_def ref_final_def)
  have ids: "st_executed_op_ids ref_executed = [op_id ?op]" by (simp add: ref_executed_def)
  have "pays ?op" by (simp add: pays_def ref_archived_op_def)
  then have ops: "paying_ops ref_node s (st_executed_op_ids ref_executed) = [?op]"
    using s(2) by (simp add: paying_ops_def ids List.map_filter_def)
  have lacks: "lacks_transfers ref_executed"
    by (simp add: lacks_transfers_def ref_executed_def ref_final_def fresh_def completeness_default_def)
  have k: "op_kind ?op = Transaction" "op_final_exec_status ?op = Some ExecOk"
    using \<open>pays ?op\<close> by (simp_all add: pays_def)
  have tr: "legacy_op_to_transfer ?op sl bid n ts = Some (payment sl bid ts n ?op)" for sl bid n ts
    using k \<open>pays ?op\<close> by (simp add: pays_transfer)
  obtain pb where "transfer_to_peer_pb ref_node (payment (Slot 5 3) (id_text (nblock 1)) (slot_timestamp_ms ref_timing (Slot 5 3)) 0 ?op) = Some pb"
    using shipped_transfer.shipped [OF ref_node_wires_ok] payment_fields [OF \<open>pays ?op\<close>] by blast
  then obtain o1 where r: "reconstruct_slot ref_node s ref_timing (Slot 5 3) = Some (Inr o1)"
    using s lacks b ids tr k by (simp add: reconstruct_slot_def sbind_def)
  from rebuilt_slot_described [OF ref_node_ok r _ b refl, unfolded ops] s(1) lacks r show ?thesis
    by (auto simp: Slot_def)
qed

text \<open>
  C35.  A rebuilding pass sends an initial part of what its slots call for, period by period.  Wherever it
  is interrupted, everything that belongs before the period at which it would resume has been sent.  It
  completes when the channel stays open long enough, and then a further run does nothing.
\<close>

theorem rebuild_resumes:
  assumes "db_ok E R" "undisturbed E (reconstruct_ckpt_key cfg) others (\<lambda>s. reconstruct_slot E s cfg)"
    and "rc_to_period cfg < - 1" "start \<le> rc_to_period cfg"
    and "start = resume_up E (rp_db st) (reconstruct_ckpt_key cfg) (rc_from_period cfg)"
    and "todo = (\<lambda>p. rebuilt (reconstruct_slot E (rp_db st) cfg) (rc_thread_count cfg) p)"
    and "periods = range_incl start (rc_to_period cfg)"
  shows "\<exists>e st' sent. run_reconstruct_transfers E others cfg st = Some (e, st') \<and>
    tx_sent (rp_tx st') = tx_sent (rp_tx st) @ sent \<and> prefix sent (concat (map todo periods)) \<and>
    (\<forall>p \<in> set periods. p < resume_up E (rp_db st') (reconstruct_ckpt_key cfg) (rc_from_period cfg) \<longrightarrow>
      set (todo p) \<subseteq> set sent) \<and>
    (e = Done \<longrightarrow> sent = concat (map todo periods) \<and>
      (\<forall>st2. rp_db st2 = rp_db st' \<longrightarrow> run_reconstruct_transfers E others cfg st2 = Some (AlreadyDone, st2))) \<and>
    (length periods * (unat (rc_thread_count cfg) + 1) < tx_alive (rp_tx st) \<longrightarrow> e = Done)"
proof -
  let ?V = "reconstruct_slot E (rp_db st) cfg"
  note pass = rebuilding.pass [OF conjI [OF assms(1,2)] refl assms(3) assms(5,4), folded run_reconstruct_transfers_def]
  obtain e st' xs where
    P: "run_reconstruct_transfers E others cfg st = Some (e, st')" "e \<noteq> AlreadyDone" "reconstruct_slot E (rp_db st') cfg = ?V"
      "tx_sent (rp_tx st') = tx_sent (rp_tx st) @ xs"
      "prefix xs (concat (map (rebuilt ?V (rc_thread_count cfg)) (range_incl start (rc_to_period cfg))))"
      "\<forall>p \<in> set (range_incl start (rc_to_period cfg)).
         p < resume_up E (rp_db st') (reconstruct_ckpt_key cfg) (rc_from_period cfg) \<longrightarrow>
         set (rebuilt ?V (rc_thread_count cfg) p) \<subseteq> set xs"
      "e = Done \<longrightarrow> xs = concat (map (rebuilt ?V (rc_thread_count cfg)) (range_incl start (rc_to_period cfg))) \<and>
         rc_to_period cfg < resume_up E (rp_db st') (reconstruct_ckpt_key cfg) (rc_from_period cfg)"
      "length (range_incl start (rc_to_period cfg)) +
         length (concat (map (rebuilt ?V (rc_thread_count cfg)) (range_incl start (rc_to_period cfg)))) < tx_alive (rp_tx st) \<longrightarrow>
         e = Done"
    by (insert pass, elim exE conjE) (rule that)
  have "length (concat (map (rebuilt ?V (rc_thread_count cfg)) ps)) \<le> length ps * unat (rc_thread_count cfg)" for ps
    by (induction ps) (auto intro: add_mono length_rebuilt)
  from this [of periods] P(8)
  have "length periods * (unat (rc_thread_count cfg) + 1) < tx_alive (rp_tx st) \<longrightarrow> e = Done"
    unfolding assms(7) by auto
  moreover have "run_reconstruct_transfers E others cfg st2 = Some (AlreadyDone, st2)"
    if "e = Done" "rp_db st2 = rp_db st'" for st2
    using P(7) that by (simp add: run_reconstruct_transfers_def ascending_task_def Let_def)
  ultimately show ?thesis using P(1,4-7) unfolding assms(6,7)
    by (intro exI [of _ e] exI [of _ st'] exI [of _ xs]) simp
qed

definition idle_repair :: "nat \<Rightarrow> ref_value batch repair" where
  "idle_repair n = \<lparr>rp_db = [], rp_tx = \<lparr>tx_alive = n, tx_sent = [], tx_metrics = None\<rparr>, rp_metrics = None\<rparr>"

lemma ref_empty_meta: "meta_get_str ref_node [] key = Inr None"
  by (simp add: meta_get_str_def db_get_ok [OF ref_node_ok] table_def ref_rows_def)

theorem rebuild_resumes_witness:
  "\<exists>st'. run_reconstruct_transfers ref_node (\<lambda>_ s. s) ref_timing (idle_repair 13) = Some (Done, st') \<and>
    run_reconstruct_transfers ref_node (\<lambda>_ s. s) ref_timing st' = Some (AlreadyDone, st')"
proof -
  have u: "undisturbed ref_node (reconstruct_ckpt_key ref_timing) (\<lambda>_ s. s) (\<lambda>s. reconstruct_slot ref_node s ref_timing)"
    by (simp add: undisturbed_def)
  have start: "0 = resume_up ref_node (rp_db (idle_repair 13)) (reconstruct_ckpt_key ref_timing) (rc_from_period ref_timing)"
    by (simp add: resume_up_def idle_repair_def ref_empty_meta ref_timing_def)
  have range: "rc_to_period ref_timing < - 1" "0 \<le> rc_to_period ref_timing" by (simp_all add: ref_timing_def)
  have "length (range_incl 0 (rc_to_period ref_timing)) * (unat (rc_thread_count ref_timing) + 1) < tx_alive (rp_tx (idle_repair 13))"
    by (simp add: range_incl_upt ref_timing_def idle_repair_def)
  with rebuild_resumes [OF ref_node_ok u range start refl refl] show ?thesis by blast
qed

section \<open>Pulling parts\<close>

text \<open>
  C36.  A completed pull pass is recognised as complete by a further run only if its range does not start at
  period 0: then the checkpoint cannot go below the range, and the first window is pulled again.
\<close>

theorem pull_completion_recognised:
  assumes "db_ok E R" "run_pull_parts E env cfg st = Some (Done, st')" "rp_db st2 = rp_db st'"
  shows "(0 < pp_from_period cfg \<longrightarrow> run_pull_parts E env2 cfg st2 = Some (AlreadyDone, st2)) \<and>
    (pp_from_period cfg = 0 \<longrightarrow>
      run_pull_parts E env2 cfg st2 = map_option (\<lambda>(ok, st3). (if ok then Done else ChannelClosed, st3))
        (until_stopped (pull_window E env2 cfg) [(0, 0)] st2))"
proof -
  have "resume_down E (rp_db st2) (pull_ckpt_key cfg) (pp_to_period cfg) = min (sat_sub (pp_from_period cfg) 1) (pp_to_period cfg)"
    using pull_checkpoint [OF assms(1,2)] assms(3) by simp
  moreover have "pull_windows rp 0 0 = [(0, 0)]" for rp
    by (simp add: pull_windows.simps pull_lo_def sat_sub_def Let_def)
  moreover have "sat_sub n 1 < n" if "0 < n" for n :: u64
    using that by (simp add: sat_sub_def word_less_nat_alt unat_minus_one word_le_nat_alt Suc_le_eq unat_gt_0)
  ultimately show ?thesis
    by (auto simp: run_pull_parts_def Let_def min_less_iff_disj sat_sub_def)
qed

definition ref_pull :: pull_parts_config where
  "ref_pull = \<lparr>pp_from_period = 0, pp_to_period = 0, pp_parts = \<lparr>fp_block = True, fp_exec_output = True, fp_transfers = True\<rparr>,
     pp_thread_count = 1, pp_require_sc_ops = False\<rparr>"

definition ref_pull_env :: "ref_value batch pull_env" where
  "ref_pull_env = \<lparr>pe_others = \<lambda>_ s. s, pe_waits = \<lambda>_. 0, pe_streams = \<lambda>_. []\<rparr>"

theorem pull_completion_recognised_witness:
  "\<exists>st' r st3. run_pull_parts ref_node ref_pull_env ref_pull (idle_repair 5) = Some (Done, st') \<and>
    run_pull_parts ref_node ref_pull_env ref_pull st' = Some (r, st3) \<and> r \<noteq> AlreadyDone"
proof -
  have win: "window_slots 1 (0, 0) = [(0, 0)]" by (simp add: window_slots_def range_incl_def)
  have ws: "pull_windows rp 0 0 = [(0, 0)]" for rp by (simp add: pull_windows.simps pull_lo_def sat_sub_def Let_def)
  have "read_slot ref_node [] 0 0 = Inr None"
    by (simp add: read_slot_def get_decoded_ok [OF ref_node_ok] table_def ref_rows_def)
  then have "slot_lacks_parts ref_node [] (Slot 0 0) parts sc = Inr False" for parts sc
    by (simp add: slot_lacks_parts_def)
  then have turn: "\<exists>st1. pull_window ref_node ref_pull_env ref_pull (0, 0) (idle_repair 5) = Some (True, st1)"
    using win by (simp add: pull_window_def ref_pull_env_def ref_pull_def chan_closed_def tx_is_closed_def idle_repair_def
        Let_def repair_count_def)
  have start: "resume_down ref_node (rp_db (idle_repair 5)) (pull_ckpt_key ref_pull) (pp_to_period ref_pull) = 0"
    by (simp add: resume_down_def idle_repair_def ref_empty_meta ref_pull_def)
  have "pp_from_period ref_pull = 0" by (simp add: ref_pull_def)
  obtain st' where "pull_window ref_node ref_pull_env ref_pull (0, 0) (idle_repair 5) = Some (True, st')"
    using turn by blast
  with start ws \<open>pp_from_period ref_pull = 0\<close>
  have run: "run_pull_parts ref_node ref_pull_env ref_pull (idle_repair 5) = Some (Done, st')"
    by (simp add: run_pull_parts_def Let_def)
  obtain b st3 where again: "pull_window ref_node ref_pull_env ref_pull (0, 0) st' = Some (b, st3)"
    using pull_window_total by blast
  from pull_completion_recognised [OF ref_node_ok run refl, of ref_pull_env] \<open>pp_from_period ref_pull = 0\<close>
  have "run_pull_parts ref_node ref_pull_env ref_pull st' = Some (if b then Done else ChannelClosed, st3)"
    by (cases b) (simp_all add: again)
  with run show ?thesis by fastforce
qed

section \<open>Sub-transfers\<close>


definition ref_archive :: ddb_client where
  "ref_archive =
     \<lparr>get_item = \<lambda>_ _. Inr None, ddb_query = \<lambda>_. Inr \<lparr>qo_items = [ref_sub_row], qo_last_evaluated_key = None, qo_count = 1\<rparr>,
      batch_get = \<lambda>_ _. Inl (Transport ''down'')\<rparr>"

definition ref_ddb_cfg :: legacy_ddb_cfg where
  "ref_ddb_cfg =
     \<lparr>lc_region = ''eu-west-3'', lc_blocks_table = ''BlocksMainnet'', lc_operations_table = ''OperationsMainnet'',
      lc_max_period = None\<rparr>"


end
