(* ===== verification/Oneshot.thy ===== *)
theory Oneshot
  imports Repair
begin

text \<open>
  The one-shot importer of the legacy archive (\<open>legacy/oneshot.rs\<close>): a walk from the head down that asks the
  archive for every slot that is not covered yet, again and again until a pass has no errors.  The lookups of a
  pass run concurrently, so the order in which they answer is an input, as are the answers of the archive and
  the database each lookup and each answer meets.  Pauses are left out.  The task itself writes nothing to
  the database.
\<close>

section \<open>Configuration\<close>

definition FETCH_ATTEMPTS :: nat where "FETCH_ATTEMPTS = 8"

record oneshot_config =
  os_max_period :: "u64 option"
  os_min_period :: "u64 option"
  os_rate_limit_ms :: u64
  os_thread_count :: u8
  os_concurrency :: nat

definition oneshot_default :: oneshot_config where
  "oneshot_default =
     \<lparr>os_max_period = None, os_min_period = None, os_rate_limit_ms = 50, os_thread_count = 32, os_concurrency = 1\<rparr>"

section \<open>One slot\<close>

datatype fetch_kind = Filled final_slot_response | Empty | Skipped | FetchError legacy_error

text \<open>The archive's answer to the attempts at one slot, and the lookup that retries errors.\<close>

type_synonym attempts = "nat \<Rightarrow> legacy_error + legacy_fetch option"

fun fetch_from :: "attempts \<Rightarrow> nat \<Rightarrow> legacy_error \<Rightarrow> nat \<Rightarrow> fetch_kind" where
  "fetch_from ask attempt last_err 0 = FetchError last_err"
| "fetch_from ask attempt last_err (Suc n) =
     (case ask attempt of
        Inr (Some fetch) \<Rightarrow> Filled (lf_resp fetch)
      | Inr None \<Rightarrow> Empty
      | Inl e \<Rightarrow> fetch_from ask (attempt + 1) e n)"

definition fetch_slot_resilient :: "attempts \<Rightarrow> fetch_kind" where
  "fetch_slot_resilient ask = fetch_from ask 0 (LegacyOther []) FETCH_ATTEMPTS"

definition slot_already_covered :: "slot_state \<Rightarrow> bool" where
  "slot_already_covered st \<longleftrightarrow>
     st_status st = SlotFinal \<and>
     (st_is_miss st \<or> block_body_stored (st_completeness st) \<or> transfers_stored (st_completeness st))"

section \<open>A pass\<close>

record 's pass_env =
  pv_lookup_db :: "slot_id \<Rightarrow> 's"
  pv_answer_db :: "slot_id \<Rightarrow> 's"
  pv_ask :: "slot_id \<Rightarrow> attempts"
  pv_arrival :: "slot_id list \<Rightarrow> slot_id list"

record pass_counts =
  pc_imported :: u64
  pc_skipped :: u64
  pc_errored :: u64

definition slot_outcome :: "('s, 'v, 'x) ext_scheme \<Rightarrow> 's pass_env \<Rightarrow> slot_id \<Rightarrow> fetch_kind" where
  "slot_outcome E env = (\<lambda>(p, t).
     case read_slot E (pv_lookup_db env (p, t)) p t of
       Inr (Some st) \<Rightarrow> if slot_already_covered st then Skipped else fetch_slot_resilient (pv_ask env (p, t))
     | _ \<Rightarrow> fetch_slot_resilient (pv_ask env (p, t)))"

definition miss_response :: "slot_id \<Rightarrow> final_slot_response" where
  "miss_response = (\<lambda>(p, t).
     response_default\<lparr>fr_period := p, fr_thread := ucast t, fr_final_known := True, fr_is_miss := True\<rparr>)"

text \<open>A slot that is FINAL with a block is no miss, whatever the archive lacks.\<close>

definition has_final_block :: "('s, 'v, 'x) ext_scheme \<Rightarrow> 's \<Rightarrow> slot_id \<Rightarrow> bool" where
  "has_final_block E s = (\<lambda>(p, t).
     case read_slot E s p t of
       Inr (Some st) \<Rightarrow> st_status st = SlotFinal \<and> is_some (st_final_block_id st)
     | _ \<Rightarrow> False)"

definition add_imported :: "pass_counts \<Rightarrow> pass_counts" where
  "add_imported c = c\<lparr>pc_imported := pc_imported c + 1\<rparr>"

definition add_skipped :: "pass_counts \<Rightarrow> pass_counts" where
  "add_skipped c = c\<lparr>pc_skipped := pc_skipped c + 1\<rparr>"

definition add_errored :: "pass_counts \<Rightarrow> pass_counts" where
  "add_errored c = c\<lparr>pc_errored := pc_errored c + 1\<rparr>"

definition ship_import :: "final_slot_response \<Rightarrow> pass_counts \<times> unit repair \<Rightarrow> bool \<times> pass_counts \<times> unit repair" where
  "ship_import resp = (\<lambda>(c, st).
     case ship resp st of (False, st1) \<Rightarrow> (False, c, st1) | (True, st1) \<Rightarrow> (True, add_imported c, st1))"

definition take_outcome ::
  "('s, 'v, 'x) ext_scheme \<Rightarrow> 's pass_env \<Rightarrow> slot_id \<Rightarrow> pass_counts \<times> unit repair \<Rightarrow>
   bool \<times> pass_counts \<times> unit repair" where
  "take_outcome E env k = (\<lambda>(c, st).
     case chan_closed st of
       (True, st1) \<Rightarrow> (False, c, st1)
     | (False, st1) \<Rightarrow>
         (case slot_outcome E env k of
            Skipped \<Rightarrow> (True, add_skipped c, st1)
          | Empty \<Rightarrow>
              if has_final_block E (pv_answer_db env k) k
              then (True, add_skipped c, repair_count looked_up st1)
              else ship_import (miss_response k) (c, repair_count looked_up st1)
          | FetchError e \<Rightarrow> (True, add_errored c, repair_count looked_up (repair_count errored st1))
          | Filled resp \<Rightarrow> ship_import resp (c, repair_count filled (repair_count looked_up st1))))"

fun take_outcomes ::
  "('s, 'v, 'x) ext_scheme \<Rightarrow> 's pass_env \<Rightarrow> slot_id list \<Rightarrow> pass_counts \<times> unit repair \<Rightarrow> pass_counts \<times> unit repair" where
  "take_outcomes E env [] acc = acc"
| "take_outcomes E env (k # ks) acc =
     (case take_outcome E env k acc of
        (False, acc1) \<Rightarrow> acc1
      | (True, acc1) \<Rightarrow> take_outcomes E env ks acc1)"

text \<open>The slots of a pass, newest period first, and the number of lookups that failed.\<close>

definition run_oneshot_pass ::
  "('s, 'v, 'x) ext_scheme \<Rightarrow> 's pass_env \<Rightarrow> oneshot_config \<Rightarrow> u64 \<Rightarrow> u64 \<Rightarrow> unit repair \<Rightarrow> u64 \<times> unit repair" where
  "run_oneshot_pass E env cfg head_period lower st =
     (case take_outcomes E env (pv_arrival env (window_slots (os_thread_count cfg) (lower, head_period)))
             (\<lparr>pc_imported = 0, pc_skipped = 0, pc_errored = 0\<rparr>, st) of
        (c, st1) \<Rightarrow> (pc_errored c, st1))"

section \<open>The importer\<close>

text \<open>Waiting for the first FINAL slot: \<open>dbs\<close> is the database at each turn.\<close>

partial_function (option) wait_for_head ::
  "('s, 'v, 'x) ext_scheme \<Rightarrow> (nat \<Rightarrow> 's) \<Rightarrow> nat \<Rightarrow> unit repair \<Rightarrow> (u64 option \<times> unit repair) option" where
  "wait_for_head E dbs turn st =
     (if fst (chan_closed st) then Some (None, snd (chan_closed st))
      else (case read_last_final_slot E (dbs turn) of
              Inr (Some sl) \<Rightarrow> Some (Some (sl_period sl), snd (chan_closed st))
            | _ \<Rightarrow> wait_for_head E dbs (turn + 1) (snd (chan_closed st))))"

partial_function (option) import_passes ::
  "('s, 'v, 'x) ext_scheme \<Rightarrow> (nat \<Rightarrow> 's pass_env) \<Rightarrow> oneshot_config \<Rightarrow> u64 \<Rightarrow> u64 \<Rightarrow> nat \<Rightarrow> unit repair \<Rightarrow>
   (repair_end \<times> unit repair) option" where
  "import_passes E envs cfg head_period lower pass st =
     (if fst (chan_closed st) then Some (ChannelClosed, snd (chan_closed st))
      else (case run_oneshot_pass E (envs pass) cfg head_period lower (snd (chan_closed st)) of
              (errs, st1) \<Rightarrow>
                if fst (chan_closed st1) then Some (ChannelClosed, snd (chan_closed st1))
                else if errs = 0 then Some (Done, snd (chan_closed st1))
                else import_passes E envs cfg head_period lower (pass + 1) (snd (chan_closed st1))))"

definition run_oneshot_import ::
  "('s, 'v, 'x) ext_scheme \<Rightarrow> (nat \<Rightarrow> 's) \<Rightarrow> (nat \<Rightarrow> 's pass_env) \<Rightarrow> oneshot_config \<Rightarrow> unit repair \<Rightarrow>
   (repair_end \<times> unit repair) option" where
  "run_oneshot_import E dbs envs cfg st =
     (let lower = unwrap_or 0 (os_min_period cfg) in
      case os_max_period cfg of
        Some p \<Rightarrow> import_passes E envs cfg p lower 0 st
      | None \<Rightarrow>
          (case wait_for_head E dbs 0 st of
             None \<Rightarrow> None
           | Some (None, st1) \<Rightarrow> Some (ChannelClosed, st1)
           | Some (Some p, st1) \<Rightarrow> import_passes E envs cfg p lower 0 st1))"

end
