(* ===== verification/Oneshot_Laws.thy ===== *)
theory Oneshot_Laws
  imports Oneshot Repair_Laws Exec_Laws "HOL-Library.Multiset"
begin

text \<open>
  The one-shot importer: what a slot calls for, what a pass sends and counts, and that passes come to an end.
\<close>

section \<open>What a slot calls for\<close>

text \<open>The first of the eight attempts that is not an error, if there is one.\<close>

definition is_answer :: "'e + 'a \<Rightarrow> bool" where
  "is_answer r = (case r of Inl e \<Rightarrow> False | Inr x \<Rightarrow> True)"

definition answer_of :: "attempts \<Rightarrow> legacy_fetch option option" where
  "answer_of ask = Option.bind (find is_answer (map ask [0..<FETCH_ATTEMPTS])) res_ok"

definition is_covered :: "('s, 'v, 'x) ext_scheme \<Rightarrow> 's pass_env \<Rightarrow> slot_id \<Rightarrow> bool" where
  "is_covered E env = (\<lambda>(p, t).
     case read_slot E (pv_lookup_db env (p, t)) p t of
       Inr (Some st) \<Rightarrow> slot_already_covered st
     | _ \<Rightarrow> False)"

definition import_of :: "('s, 'v, 'x) ext_scheme \<Rightarrow> 's pass_env \<Rightarrow> slot_id \<Rightarrow> final_slot_response option" where
  "import_of E env k =
     (if is_covered E env k then None
      else case answer_of (pv_ask env k) of
             None \<Rightarrow> None
           | Some (Some f) \<Rightarrow> Some (lf_resp f)
           | Some None \<Rightarrow> if has_final_block E (pv_answer_db env k) k then None else Some (miss_response k))"

definition lookup_failed :: "('s, 'v, 'x) ext_scheme \<Rightarrow> 's pass_env \<Rightarrow> slot_id \<Rightarrow> bool" where
  "lookup_failed E env k \<longleftrightarrow> \<not> is_covered E env k \<and> (\<forall>a < FETCH_ATTEMPTS. \<not> is_answer (pv_ask env k a))"

lemma fetch_from_spec:
  "fetch_from ask a e n =
     (case Option.bind (find is_answer (map ask [a..<a + n])) res_ok of
        Some (Some f) \<Rightarrow> Filled (lf_resp f)
      | Some None \<Rightarrow> Empty
      | None \<Rightarrow> FetchError (if n = 0 then e else projl (ask (a + n - 1))))"
proof (induction n arbitrary: a e)
  case (Suc n)
  have up: "[a..<a + Suc n] = a # [a + 1..<a + 1 + n]" by (simp add: upt_rec)
  show ?case
  proof (cases "ask a")
    case (Inl x)
    then show ?thesis unfolding up using Suc [of "a + 1" x] by (simp add: is_answer_def split: option.splits)
  next
    case (Inr x)
    then show ?thesis unfolding up by (simp add: is_answer_def split: option.splits)
  qed
qed simp

lemma answer_None_iff: "answer_of ask = None \<longleftrightarrow> (\<forall>a < FETCH_ATTEMPTS. \<not> is_answer (ask a))"
proof (cases "find is_answer (map ask [0..<FETCH_ATTEMPTS])")
  case None
  then have "answer_of ask = None" by (simp add: answer_of_def)
  with None show ?thesis by (simp add: find_None_iff)
next
  case (Some r)
  then have "is_answer r" "r \<in> ask ` {0..<FETCH_ATTEMPTS}" by (auto simp: find_Some_iff)
  then obtain a where a: "r = ask a" "a < FETCH_ATTEMPTS" by auto
  from \<open>is_answer r\<close> obtain x where "r = Inr x" by (auto simp: is_answer_def split: sum.splits)
  have "is_answer (ask a)" "a < FETCH_ATTEMPTS" using a \<open>is_answer r\<close> by simp_all
  moreover have "answer_of ask = Some x" using Some \<open>r = Inr x\<close> by (simp add: answer_of_def)
  ultimately show ?thesis by auto
qed

lemma slot_outcome_spec:
  "slot_outcome E env k =
     (if is_covered E env k then Skipped
      else case answer_of (pv_ask env k) of
             Some (Some f) \<Rightarrow> Filled (lf_resp f)
           | Some None \<Rightarrow> Empty
           | None \<Rightarrow> FetchError (projl (pv_ask env k (FETCH_ATTEMPTS - 1))))"
  by (auto simp: slot_outcome_def is_covered_def fetch_slot_resilient_def fetch_from_spec answer_of_def FETCH_ATTEMPTS_def
      split: prod.splits sum.splits option.splits)

text \<open>What the step for one slot does while the channel is open.\<close>

lemma take_outcome_open:
  assumes "2 \<le> tx_alive (rp_tx st)"
  shows "\<exists>c' st'. take_outcome E env k (c, st) = (True, c', st') \<and>
    tx_sent (rp_tx st') = tx_sent (rp_tx st) @ (case import_of E env k of None \<Rightarrow> [] | Some r \<Rightarrow> [r]) \<and>
    tx_alive (rp_tx st) \<le> tx_alive (rp_tx st') + 2 \<and>
    pc_errored c' = pc_errored c + (if lookup_failed E env k then 1 else 0)"
proof -
  obtain cl st1 where cl: "chan_closed st = (cl, st1)" by (cases "chan_closed st") auto
  have c: "chan_closed st = (False, st1)" "tx_sent (rp_tx st1) = tx_sent (rp_tx st)"
      "tx_alive (rp_tx st1) = tx_alive (rp_tx st) - 1"
    using chan_closed_facts [OF cl] cl assms by simp_all
  have shipped: "\<exists>c' st'. ship_import r (c, f st1) = (True, c', st') \<and> tx_sent (rp_tx st') = tx_sent (rp_tx st) @ [r] \<and>
      tx_alive (rp_tx st) \<le> tx_alive (rp_tx st') + 2 \<and> pc_errored c' = pc_errored c"
    if "rp_tx (f st1) = rp_tx st1" for r and f :: "unit repair \<Rightarrow> unit repair"
  proof -
    obtain b st2 where sh: "ship r (f st1) = (b, st2)" by (cases "ship r (f st1)") auto
    note F = ship_facts [OF sh]
    have b using F c(3) assms that by simp
    with F sh c(2,3) assms that show ?thesis by (simp add: ship_import_def add_imported_def)
  qed
  show ?thesis
  proof (cases "is_covered E env k")
    case True
    with c assms show ?thesis
      by (simp add: take_outcome_def slot_outcome_spec import_of_def lookup_failed_def add_skipped_def)
  next
    case False
    show ?thesis
    proof (cases "answer_of (pv_ask env k)")
      case None
      with False c assms show ?thesis
        by (simp add: take_outcome_def slot_outcome_spec import_of_def lookup_failed_def add_errored_def
            flip: answer_None_iff)
    next
      case (Some a)
      then have "\<not> lookup_failed E env k" by (simp add: lookup_failed_def flip: answer_None_iff)
      with Some False c assms shipped [of "repair_count looked_up"] shipped [of "\<lambda>st. repair_count filled (repair_count looked_up st)"]
      show ?thesis
        by (cases a) (auto simp: take_outcome_def slot_outcome_spec import_of_def add_skipped_def)
    qed
  qed
qed

lemma take_outcomes_open:
  assumes "2 * length ks \<le> tx_alive (rp_tx st)"
  shows "\<exists>c' st'. take_outcomes E env ks (c, st) = (c', st') \<and>
    tx_sent (rp_tx st') = tx_sent (rp_tx st) @ List.map_filter (import_of E env) ks \<and>
    tx_alive (rp_tx st) \<le> tx_alive (rp_tx st') + 2 * length ks \<and>
    pc_errored c' = pc_errored c + word_of_nat (length (filter (lookup_failed E env) ks))"
  using assms
proof (induction ks arbitrary: c st)
  case Nil
  then show ?case by (simp add: List.map_filter_def)
next
  case (Cons k ks)
  from Cons.prems have "2 \<le> tx_alive (rp_tx st)" by simp
  from take_outcome_open [OF this, of E env k c] obtain c1 st1 where
    one: "take_outcome E env k (c, st) = (True, c1, st1)"
      "tx_sent (rp_tx st1) = tx_sent (rp_tx st) @ (case import_of E env k of None \<Rightarrow> [] | Some r \<Rightarrow> [r])"
      "tx_alive (rp_tx st) \<le> tx_alive (rp_tx st1) + 2"
      "pc_errored c1 = pc_errored c + (if lookup_failed E env k then 1 else 0)"
    by (elim exE conjE) (rule that)
  from Cons.prems one(3) have "2 * length ks \<le> tx_alive (rp_tx st1)" by simp
  from Cons.IH [OF this, of c1] obtain c2 st2 where
    rest: "take_outcomes E env ks (c1, st1) = (c2, st2)"
      "tx_sent (rp_tx st2) = tx_sent (rp_tx st1) @ List.map_filter (import_of E env) ks"
      "tx_alive (rp_tx st1) \<le> tx_alive (rp_tx st2) + 2 * length ks"
      "pc_errored c2 = pc_errored c1 + word_of_nat (length (filter (lookup_failed E env) ks))"
    by (elim exE conjE) (rule that)
  show ?case using one rest by (auto simp: List.map_filter_def split: option.splits)
qed

lemma oneshot_pass_open:
  assumes "ks = pv_arrival env (window_slots (os_thread_count cfg) (lower, head_period))"
    and "2 * length ks \<le> tx_alive (rp_tx st)"
  shows "\<exists>st'. run_oneshot_pass E env cfg head_period lower st =
      (word_of_nat (length (filter (lookup_failed E env) ks)), st') \<and>
    tx_sent (rp_tx st') = tx_sent (rp_tx st) @ List.map_filter (import_of E env) ks \<and>
    tx_alive (rp_tx st) \<le> tx_alive (rp_tx st') + 2 * length ks"
  using take_outcomes_open [OF assms(2), of E env "\<lparr>pc_imported = 0, pc_skipped = 0, pc_errored = 0\<rparr>"]
  unfolding run_oneshot_pass_def assms(1) [symmetric] by auto

lemma mset_map_filter: "mset xs = mset ys \<Longrightarrow> mset (List.map_filter f xs) = mset (List.map_filter f ys)"
  unfolding List.map_filter_def by (simp only: mset_map mset_filter)

lemma length_filter_mset: "mset xs = mset ys \<Longrightarrow> length (filter P xs) = length (filter P ys)"
  by (metis mset_filter size_mset)

section \<open>Passes come to an end\<close>

lemma pass_turn:
  assumes "\<And>j. mset (pv_arrival (envs j) slots) = mset slots" "slots = window_slots (os_thread_count cfg) (lower, head_period)"
    and "2 * length slots + 2 < tx_alive (rp_tx st)"
  shows "\<exists>st1 st2. run_oneshot_pass E (envs pass) cfg head_period lower (snd (chan_closed st)) =
      (word_of_nat (length (filter (lookup_failed E (envs pass)) slots)), st1) \<and> \<not> fst (chan_closed st) \<and>
    chan_closed st1 = (False, st2) \<and> tx_alive (rp_tx st) \<le> tx_alive (rp_tx st2) + (2 * length slots + 2)"
proof -
  obtain c st0 where c: "chan_closed st = (c, st0)" by (cases "chan_closed st") auto
  note C = chan_closed_facts [OF c]
  have len: "length (pv_arrival (envs pass) slots) = length slots" using assms(1) [of pass] by (metis size_mset)
  have "2 * length (pv_arrival (envs pass) slots) \<le> tx_alive (rp_tx st0)" using assms(3) C by (simp add: len)
  from oneshot_pass_open [OF _ this, of "envs pass" cfg lower head_period E] obtain st1 where
    r: "run_oneshot_pass E (envs pass) cfg head_period lower st0 =
        (word_of_nat (length (filter (lookup_failed E (envs pass)) (pv_arrival (envs pass) slots))), st1)"
      "tx_alive (rp_tx st0) \<le> tx_alive (rp_tx st1) + 2 * length slots"
    unfolding assms(2) len by (auto simp: assms(2) [symmetric] len)
  obtain c1 st2 where c1: "chan_closed st1 = (c1, st2)" by (cases "chan_closed st1") auto
  note C1 = chan_closed_facts [OF c1]
  show ?thesis using c C r c1 C1 assms(3) length_filter_mset [OF assms(1) [of pass]] by auto
qed

lemma import_passes_end:
  assumes "\<And>j. mset (pv_arrival (envs j) slots) = mset slots" "slots = window_slots (os_thread_count cfg) (lower, head_period)"
    and "filter (lookup_failed E (envs (pass + n))) slots = []"
    and "(n + 1) * (2 * length slots + 2) < tx_alive (rp_tx st)"
  shows "\<exists>st'. import_passes E envs cfg head_period lower pass st = Some (Done, st')"
  using assms(3,4)
proof (induction n arbitrary: pass st)
  case (0 pass st)
  then have "filter (lookup_failed E (envs pass)) slots = []" by simp
  from pass_turn [where st = st and E = E and pass = pass and envs = envs, OF assms(1,2)] 0(2) this show ?case
    by (subst import_passes.simps) auto
next
  case (Suc n pass st)
  obtain errs st1 st2 where t: "run_oneshot_pass E (envs pass) cfg head_period lower (snd (chan_closed st)) = (errs, st1)"
      "\<not> fst (chan_closed st)" "chan_closed st1 = (False, st2)" "tx_alive (rp_tx st) \<le> tx_alive (rp_tx st2) + (2 * length slots + 2)"
    using pass_turn [where st = st and E = E and pass = pass and envs = envs, OF assms(1,2)] Suc(3) by auto
  have "filter (lookup_failed E (envs (pass + 1 + n))) slots = []" using Suc(2) by simp
  moreover have "(n + 1) * (2 * length slots + 2) < tx_alive (rp_tx st2)" using Suc(3) t(4) by simp
  ultimately have "\<exists>st'. import_passes E envs cfg head_period lower (pass + 1) st2 = Some (Done, st')" by (rule Suc.IH)
  with t show ?case by (subst import_passes.simps) auto
qed

section \<open>A miss of the archive\<close>

text \<open>The row a miss of the archive leaves.\<close>

definition missed_row :: "slot_state \<Rightarrow> i64 \<Rightarrow> slot_state" where
  "missed_row st now =
     (set_body (st\<lparr>st_status := SlotFinal, st_is_miss := True\<rparr>))\<lparr>st_last_updated_ts_ms := now\<rparr>"

lemma legacy_miss_run:
  assumes "db_ok E R" "slots_ok E (table R (w_db w) CF_SLOT)"
    and "slot_at E (table R (w_db w) CF_SLOT) (Slot p t) = Some st" "st_status st \<noteq> SlotFinal"
    and "\<not> exec_output_final (st_completeness st)" "read_last_final_slot E (w_db w) = Inr prev"
  shows "\<exists>w' out. apply_legacy_patch E (miss_response (p, t)) now w = (Inr out, w') \<and>
    slots_ok E (table R (w_db w') CF_SLOT) \<and>
    slot_at E (table R (w_db w') CF_SLOT) (Slot p t) = Some (missed_row st now)"
proof -
  let ?resp = "miss_response (p, t)" and ?sl = "Slot p t"
  have resp: "fr_final_known ?resp" "fr_is_miss ?resp" "fr_block ?resp = None" "fr_executed_op_ids ?resp = []"
    "fr_transfers ?resp = []" "fr_period ?resp = p" "fr_thread ?resp = ucast t" "peer_final_block E ?resp = None"
    by (simp_all add: miss_response_def response_default_def peer_final_block_def)
  have st: "wf_slot_state E st" "st_slot st = ?sl" 
    using slot_at_wf [OF db_okD(1) [OF assms(1)] assms(3)] slot_at_slot [OF assms(2,3)] by simp_all
  have load: "load_slot E ?sl now (w_db w) = (Inr st, w_db w)"
    using read_slot_ok [OF assms(1,2), of ?sl] assms(3) by (simp add: load_slot_def bnd_def readm_def ret_def)
  obtain u where u: "update_last_final_slot E ?sl (w_db w) = (Inr (), u)" "table R u CF_SLOT = table R (w_db w) CF_SLOT"
    using update_last_final_run [OF assms(1), of ?sl "w_db w"] by auto
  define s1 where "s1 = (if prev = None \<or> slot_lt (the prev) ?sl then u else w_db w)"
  have s1: "advance_last_final E ?sl (w_db w) = (Inr (), s1)" "table R s1 CF_SLOT = table R (w_db w) CF_SLOT"
    using assms(6) u by (cases prev; simp add: s1_def advance_last_final_def bnd_def readm_def ret_def)+
  have wf: "wf_slot_state E (missed_row st now)"
    using st(1) by (simp add: wf_slot_state_def missed_row_def set_body_def)
  obtain s2 where s2: "write_slot E (missed_row st now) s1 = (Inr (), s2)" "slots_ok E (table R s2 CF_SLOT)"
      "\<And>x. slot_at E (table R s2 CF_SLOT) x = (if x = st_slot (missed_row st now) then Some (missed_row st now)
         else slot_at E (table R s1 CF_SLOT) x)"
    by (rule write_slot_ok [OF assms(1) wf, of s1]) (use assms(2) s1(2) in simp, rule that)
  have slot: "st_slot (missed_row st now) = ?sl" using st(2) by (simp add: missed_row_def set_body_def)
  obtain s3 where s3: "ensure_parent_stub E ?sl now s2 = (Inr (), s3)" "slots_ok E (table R s3 CF_SLOT)"
      "slot_at E (table R s3 CF_SLOT) ?sl = Some (missed_row st now)"
    using ensure_parent_stub_run [OF assms(1) s2(2), of ?sl now] s2(3) [of ?sl] slot by auto
  have "\<exists>out. apply_legacy_db E ?resp ?sl now (w_db w) = (Inr (missed_row st now, out), s3)"
    using load s1(1) s2(1) s3(1) assms(4,5) resp
    by (simp add: apply_legacy_db_def legacy_block_step_def promote_def bnd_def ret_def Let_def missed_row_def
        set_body_def decode_all_def List.map_filter_def)
  then show ?thesis
    using s3(2,3) resp
    by (auto simp: apply_legacy_patch_def on_db_def bnd_def emit_def ret_def u8_try_from_ucast)
qed

end
