(* ===== verification/Props_Oneshot.thy ===== *)
theory Props_Oneshot
  imports Oneshot_Laws Props_Exec
begin

text \<open>
  The properties of the one-shot importer: what a pass sends and counts in whatever order the archive answers,
  and that the importer comes to an end.
\<close>

section \<open>A pass\<close>


text \<open>Two periods of one thread: one is archived, the other fails twice before the archive answers that it has none.\<close>

definition ref_import_env :: "ref_value batch pass_env" where
  "ref_import_env =
     \<lparr>pv_lookup_db = \<lambda>_. [], pv_answer_db = \<lambda>_. [],
      pv_ask = (\<lambda>(p, t) a. if p = 1 then Inr (Some \<lparr>lf_resp = response_default\<lparr>fr_period := 1\<rparr>, lf_rpcs = 2\<rparr>)
        else if a < 2 then Inl (LegacyDdb (Transport ''slow'')) else Inr None),
      pv_arrival = rev\<rparr>"

definition ref_import :: oneshot_config where
  "ref_import = oneshot_default\<lparr>os_max_period := Some 1, os_thread_count := 1\<rparr>"

lemma ref_no_row: "read_slot ref_node [] p t = Inr None"
  by (simp add: read_slot_def get_decoded_ok [OF ref_node_ok] table_def ref_rows_def)

lemma ref_import_slots: "window_slots (os_thread_count ref_import) (0, 1) = [(1, 0), (0, 0)]"
  by (simp add: window_slots_def range_incl_upt ref_import_def upt_rec)

lemma ref_import_of:
  "import_of ref_node ref_import_env (1, 0) = Some (response_default\<lparr>fr_period := 1\<rparr>)"
  "import_of ref_node ref_import_env (0, 0) = Some (miss_response (0, 0))"
  "\<not> lookup_failed ref_node ref_import_env (1, 0)" "\<not> lookup_failed ref_node ref_import_env (0, 0)"
proof -
  have up: "[0..<FETCH_ATTEMPTS] = [0, 1, 2, 3, 4, 5, 6, 7]" by (simp add: FETCH_ATTEMPTS_def upt_rec)
  show "import_of ref_node ref_import_env (1, 0) = Some (response_default\<lparr>fr_period := 1\<rparr>)"
    "import_of ref_node ref_import_env (0, 0) = Some (miss_response (0, 0))"
    by (simp_all add: import_of_def is_covered_def ref_import_env_def ref_no_row answer_of_def is_answer_def
        has_final_block_def up)
  have "is_answer (pv_ask ref_import_env k 2)" for k by (cases k) (simp add: ref_import_env_def is_answer_def)
  then show "\<not> lookup_failed ref_node ref_import_env (1, 0)" "\<not> lookup_failed ref_node ref_import_env (0, 0)"
    unfolding lookup_failed_def by (auto simp: FETCH_ATTEMPTS_def dest!: spec [of _ 2])
qed

definition ref_channel :: "nat \<Rightarrow> unit repair" where
  "ref_channel n = \<lparr>rp_db = (), rp_tx = \<lparr>tx_alive = n, tx_sent = [], tx_metrics = None\<rparr>, rp_metrics = None\<rparr>"


section \<open>The importer\<close>

text \<open>
  The importer finishes as soon as one of its passes has no failed lookup, provided the channel stays open
  that long: failures of earlier passes are retried and never end it.
\<close>

theorem importer_finishes:
  assumes "os_max_period cfg = Some head_period" "lower = unwrap_or 0 (os_min_period cfg)"
    and "slots = window_slots (os_thread_count cfg) (lower, head_period)"
    and "\<forall>j. mset (pv_arrival (envs j) slots) = mset slots" "\<forall>k \<in> set slots. \<not> lookup_failed E (envs n) k"
    and "(n + 1) * (2 * length slots + 2) < tx_alive (rp_tx st)"
  shows "\<exists>st'. run_oneshot_import E dbs envs cfg st = Some (Done, st')"
proof -
  have "filter (lookup_failed E (envs (0 + n))) slots = []" using assms(5) by simp
  from import_passes_end [where envs = envs and pass = 0, OF _ assms(3) this assms(6)] assms(4)
  show ?thesis using assms(1) by (simp add: run_oneshot_import_def assms(2) [symmetric])
qed

theorem importer_finishes_witness:
  "\<exists>st'. run_oneshot_import ref_node (\<lambda>_. []) (\<lambda>_. ref_import_env) ref_import (ref_channel 7) = Some (Done, st')"
proof -
  have "os_max_period ref_import = Some 1" "0 = unwrap_or 0 (os_min_period ref_import)"
    by (simp_all add: ref_import_def oneshot_default_def)
  from importer_finishes [OF this ref_import_slots [symmetric], of "\<lambda>_. ref_import_env" ref_node 0 "ref_channel 7" "\<lambda>_. []"]
  show ?thesis using ref_import_of by (simp add: ref_import_env_def ref_channel_def)
qed

section \<open>Misses near the head\<close>

text \<open>
  A slot the importer reaches before the node has settled it becomes a FINAL miss when the archive has
  nothing for it, and the FINAL frame in which the node then reports a block for it is refused.  The
  walk starts at the period of the last FINAL slot, so the later threads of that period are such slots.
\<close>

theorem early_miss_sticks:
  assumes "db_ok E R" "slots_ok E (table R (w_db w) CF_SLOT)"
    and "slot_at E (table R (w_db w) CF_SLOT) (Slot p t) = Some st" "st_status st \<noteq> SlotFinal"
    and "\<not> exec_output_final (st_completeness st)" "read_last_final_slot E (w_db w) = Inr prev"
    and "pv_lookup_db env (p, t) = w_db w" "pv_answer_db env (p, t) = w_db w" "answer_of (pv_ask env (p, t)) = Some None"
    and "so_execution_output outer = Some exec" "xo_slot exec = Some ns" "node_slot ns = Slot p t" "xo_block_id exec \<noteq> None"
  shows "import_of E env (p, t) = Some (miss_response (p, t)) \<and>
    (\<exists>w' out. apply_legacy_patch E (miss_response (p, t)) now w = (Inr out, w') \<and>
      slot_at E (table R (w_db w') CF_SLOT) (Slot p t) = Some (missed_row st now) \<and>
      handle_exec E outer later w' = (Inr (), w'))"
proof
  have "read_slot E (w_db w) p t = Inr (Some st)"
    using read_slot_ok [OF assms(1,2), of "Slot p t"] assms(3) by simp
  then show "import_of E env (p, t) = Some (miss_response (p, t))"
    using assms(4,7-9) by (simp add: import_of_def is_covered_def slot_already_covered_def has_final_block_def)
  obtain w' out where w': "apply_legacy_patch E (miss_response (p, t)) now w = (Inr out, w')"
      "slots_ok E (table R (w_db w') CF_SLOT)"
      "slot_at E (table R (w_db w') CF_SLOT) (Slot p t) = Some (missed_row st now)"
    using legacy_miss_run [OF assms(1-6)] by blast
  have "on_db (load_slot E (Slot p t) later) w' = (Inr (missed_row st now), w')"
    using read_slot_ok [OF assms(1) w'(2), of "Slot p t"] w'(3)
    by (simp add: on_db_def load_slot_def bnd_def readm_def ret_def)
  moreover have "st_status (missed_row st now) = SlotFinal" "\<not> node_same_verdict E (missed_row st now) exec"
    using assms(13) by (simp_all add: missed_row_def set_body_def node_same_verdict_def)
  ultimately have "handle_exec E outer later w' = (Inr (), w')"
    using assms(10-12) by (auto simp: handle_exec_def bnd_def lift_def Let_def ret_def)
  with w' show "\<exists>w' out. apply_legacy_patch E (miss_response (p, t)) now w = (Inr out, w') \<and>
      slot_at E (table R (w_db w') CF_SLOT) (Slot p t) = Some (missed_row st now) \<and>
      handle_exec E outer later w' = (Inr (), w')" by blast
qed

definition ref_seen :: slot_state where
  "ref_seen = (fresh (Slot 5 3) 7)\<lparr>st_status := SlotCandidate\<rparr>"

definition ref_seen_log :: "ref_value batch" where
  "ref_seen_log = [Put CF_SLOT (slot_row_key (Slot 5 3)) (encode_slot_state ref_node ref_seen)]"

lemma ref_seen_table:
  "table ref_rows ref_seen_log CF_SLOT = [slot_row_key (Slot 5 3) \<mapsto> encode_slot_state ref_node ref_seen]"
  "table ref_rows ref_seen_log CF_META = Map.empty"
  by (rule ext; simp add: table_def ref_rows_def ref_seen_log_def)+

theorem early_miss_sticks_witness:
  "\<exists>w' out. apply_legacy_patch ref_node (miss_response (5, 3)) 9 (ref_world ref_seen_log) = (Inr out, w') \<and>
    slot_at ref_node (table ref_rows (w_db w') CF_SLOT) (Slot 5 3) = Some (missed_row ref_seen 9) \<and>
    handle_exec ref_node \<lparr>so_status = 2, so_execution_output = Some ref_exec\<rparr> 11 w' = (Inr (), w')"
proof -
  have wf: "wf_slot_state ref_node ref_seen"
    by (simp add: ref_seen_def fresh_def wf_slot_state_def)
  have dec: "decode_slot_state ref_node (encode_slot_state ref_node ref_seen) = Inr ref_seen"
    using slot_state_codec.dec_enc [OF ref_node_wires_ok wf] by simp
  have db: "w_db (ref_world ref_seen_log) = ref_seen_log" by (simp add: ref_world_def)
  have ok: "slots_ok ref_node (table ref_rows (w_db (ref_world ref_seen_log)) CF_SLOT)"
    "slot_at ref_node (table ref_rows (w_db (ref_world ref_seen_log)) CF_SLOT) (Slot 5 3) = Some ref_seen"
    unfolding db by (auto simp: slots_ok_def slot_at_def ref_seen_table dec split: if_splits) (simp add: ref_seen_def fresh_def)
  have row: "st_status ref_seen \<noteq> SlotFinal" "\<not> exec_output_final (st_completeness ref_seen)"
    by (simp_all add: ref_seen_def fresh_def completeness_default_def)
  have last: "read_last_final_slot ref_node (w_db (ref_world ref_seen_log)) = Inr None"
    unfolding db by (simp add: read_last_final_slot_def get_decoded_ok [OF ref_node_ok] ref_seen_table)
  define env :: "ref_value batch pass_env" where
    "env = \<lparr>pv_lookup_db = \<lambda>_. ref_seen_log, pv_answer_db = \<lambda>_. ref_seen_log, pv_ask = \<lambda>_ _. Inr None, pv_arrival = id\<rparr>"
  have env: "pv_lookup_db env (5, 3) = w_db (ref_world ref_seen_log)" "pv_answer_db env (5, 3) = w_db (ref_world ref_seen_log)"
    "answer_of (pv_ask env (5, 3)) = Some None"
    by (simp_all add: env_def db answer_of_def is_answer_def FETCH_ATTEMPTS_def upt_rec)
  have frame: "so_execution_output \<lparr>so_status = 2, so_execution_output = Some ref_exec\<rparr> = Some ref_exec"
    "xo_slot ref_exec = Some \<lparr>ns_period = 5, ns_thread = 3\<rparr>"
    "node_slot \<lparr>ns_period = 5, ns_thread = 3\<rparr> = Slot 5 3" "xo_block_id ref_exec \<noteq> None"
    by (simp_all add: ref_exec_def node_slot_def)
  from early_miss_sticks [OF ref_node_ok ok row last env frame] show ?thesis by blast
qed

end
