(* ===== verification/Cli.thy ===== *)
theory Cli
  imports Pool Patch Ddb
begin

text \<open>
  The operator's commands (\<open>cli.rs\<close>) and the texts they take (\<open>main.rs\<close>): the consistency check of
  the secondary indexes, the dump of a column family, the probe of the configured peers and the replay of
  a range of slots from peers.  \<open>reindex_secondaries\<close> is \<open>rebuild_secondary_indexes\<close> of \<open>Db_Admin\<close>.  The
  counters of the two reports are numbers: they count rows and slots, which 64 bits hold.
\<close>

section \<open>Checking the secondary indexes\<close>

record verify_issue =
  vi_cf :: string
  vi_key_hex :: string
  vi_reason :: string

record verify_report =
  vr_scanned :: nat
  vr_total_issues :: nat
  vr_issues :: "verify_issue list"
  vr_per_cf_rows :: "string \<Rightarrow> nat option"

definition verify_default :: verify_report where
  "verify_default = \<lparr>vr_scanned = 0, vr_total_issues = 0, vr_issues = [], vr_per_cf_rows = Map.empty\<rparr>"

definition verify_ok :: "verify_report \<Rightarrow> bool" where
  "verify_ok report \<longleftrightarrow> vr_total_issues report = 0"

definition push_issue ::
  "'x crates_scheme \<Rightarrow> nat \<Rightarrow> cf \<Rightarrow> bytes \<Rightarrow> string \<Rightarrow> verify_report \<Rightarrow> verify_report" where
  "push_issue C cap c k reason report =
     report\<lparr>vr_total_issues := vr_total_issues report + 1,
            vr_issues :=
              (if length (vr_issues report) < cap
               then vr_issues report @ [\<lparr>vi_cf = cf_name c, vi_key_hex = hexenc C k, vi_reason = reason\<rparr>]
               else vr_issues report)\<rparr>"

definition split_addr_id_key :: "bytes \<Rightarrow> (bytes \<times> bytes) option" where
  "split_addr_id_key k =
     (if length k < ADDR_KEY_LEN + 1 then None
      else if k ! ADDR_KEY_LEN \<noteq> 0 then None
      else Some (take ADDR_KEY_LEN k, drop (ADDR_KEY_LEN + 1) k))"

text \<open>
  What the check does with a key of a family: it finds it malformed, follows it to a primary row, or
  lets it pass (the families by last slot).
\<close>

datatype entry_check = Malformed string | Follow cf bytes | Unchecked

definition follow :: "string \<Rightarrow> cf \<Rightarrow> bytes option \<Rightarrow> entry_check" where
  "follow reason prim k = (case k of None \<Rightarrow> Malformed reason | Some pk \<Rightarrow> Follow prim pk)"

definition addr_slot_id_target :: "bytes \<Rightarrow> bytes option" where
  "addr_slot_id_target k = map_option (\<lambda>(_, _, i). i) (parse_idx_addr_slot_id k)"

definition async_target :: "bytes \<Rightarrow> bytes option" where
  "async_target k = map_option snd (split_addr_id_key k)"

fun entry_check_of :: "cf \<Rightarrow> bytes \<Rightarrow> entry_check" where
  "entry_check_of IDX_BLOCK_BY_CREATOR k =
     follow ''key has wrong length for idx_block_by_creator'' CF_BLOCK (addr_slot_id_target k)"
| "entry_check_of IDX_OP_BY_CREATOR k =
     follow ''key has wrong length for idx_op_by_*'' CF_OP (addr_slot_id_target k)"
| "entry_check_of IDX_OP_BY_TARGET k =
     follow ''key has wrong length for idx_op_by_*'' CF_OP (addr_slot_id_target k)"
| "entry_check_of IDX_ENDORSEMENT_BY_CREATOR k =
     follow ''key has wrong length for idx_endorsement_by_creator'' CF_ENDORSEMENT (addr_slot_id_target k)"
| "entry_check_of IDX_TRANSFER_BY_ADDR k =
     follow ''key has wrong length for idx_transfer_by_addr'' CF_TRANSFER
       (map_option (\<lambda>(p, t, i, _). transfer_key p t i) (parse_idx_transfer_by_addr k))"
| "entry_check_of IDX_TRANSFER_BY_OP k =
     follow ''key has wrong length for idx_transfer_by_{op,block}'' CF_TRANSFER
       (map_option (\<lambda>(p, t, i). transfer_key p t i) (parse_idx_id_slot_index k))"
| "entry_check_of IDX_TRANSFER_BY_BLOCK k =
     follow ''key has wrong length for idx_transfer_by_{op,block}'' CF_TRANSFER
       (map_option (\<lambda>(p, t, i). transfer_key p t i) (parse_idx_id_slot_index k))"
| "entry_check_of IDX_DENUNCIATION_BY_ADDR k =
     follow ''key has wrong length for idx_denunciation_by_addr'' CF_DENUNCIATION
       (map_option (\<lambda>(_, _, h). h) (parse_idx_denunciation_by_addr k))"
| "entry_check_of IDX_DENUNCIATION_RECENT k =
     follow ''key has wrong length for idx_denunciation_recent'' CF_DENUNCIATION
       (map_option (\<lambda>(_, _, h). h) (parse_idx_denunciation_recent k))"
| "entry_check_of IDX_SC_EVENT_BY_EMITTER k =
     follow ''key has wrong length for idx_sc_event_by_*'' CF_SC_EVENT
       (map_option (\<lambda>(p, t, i). sc_event_key p t i) (parse_idx_event k))"
| "entry_check_of IDX_SC_EVENT_BY_CALLER k =
     follow ''key has wrong length for idx_sc_event_by_*'' CF_SC_EVENT
       (map_option (\<lambda>(p, t, i). sc_event_key p t i) (parse_idx_event k))"
| "entry_check_of IDX_SC_EVENT_BY_OP k =
     follow ''key has wrong length for idx_sc_event_by_*'' CF_SC_EVENT
       (map_option (\<lambda>(p, t, i). sc_event_key p t i) (parse_idx_event k))"
| "entry_check_of IDX_ASYNC_BY_SENDER k = follow ''key missing 0x00 separator'' CF_ASYNC_MSG (async_target k)"
| "entry_check_of IDX_ASYNC_BY_DEST k = follow ''key missing 0x00 separator'' CF_ASYNC_MSG (async_target k)"
| "entry_check_of IDX_DEFERRED_BY_SENDER k = follow ''key missing 0x00 separator'' CF_DEFERRED_CALL (async_target k)"
| "entry_check_of IDX_DEFERRED_BY_TARGET k = follow ''key missing 0x00 separator'' CF_DEFERRED_CALL (async_target k)"
| "entry_check_of _ k = Unchecked"

definition verify_entry ::
  "('s, 'v, 'x) ext_scheme \<Rightarrow> 's \<Rightarrow> nat \<Rightarrow> cf \<Rightarrow> bytes \<Rightarrow> verify_report \<Rightarrow> error + verify_report" where
  "verify_entry E s cap c k report =
     (let counted = report\<lparr>vr_scanned := vr_scanned report + 1\<rparr> in
      case entry_check_of c k of
        Unchecked \<Rightarrow> Inr counted
      | Malformed reason \<Rightarrow> Inr (push_issue E cap c k reason counted)
      | Follow prim pk \<Rightarrow>
          rbind (db_get E s prim pk) (\<lambda>found.
            Inr (if is_some found then counted
                 else push_issue E cap c k ''primary row missing for index entry'' counted)))"

text \<open>The rows of one family, with their number.\<close>

fun verify_rows ::
  "('s, 'v, 'x) ext_scheme \<Rightarrow> 's \<Rightarrow> nat \<Rightarrow> cf \<Rightarrow> (error + bytes \<times> 'v) list \<Rightarrow> nat \<Rightarrow> verify_report \<Rightarrow>
   error + nat \<times> verify_report" where
  "verify_rows E s cap c [] rows report = Inr (rows, report)"
| "verify_rows E s cap c (Inl e # rest) rows report = Inl e"
| "verify_rows E s cap c (Inr (k, v) # rest) rows report =
     rbind (verify_entry E s cap c k report) (\<lambda>report1. verify_rows E s cap c rest (rows + 1) report1)"

fun verify_cfs ::
  "('s, 'v, 'x) ext_scheme \<Rightarrow> 's \<Rightarrow> nat \<Rightarrow> cf list \<Rightarrow> verify_report \<Rightarrow> error + verify_report" where
  "verify_cfs E s cap [] report = Inr report"
| "verify_cfs E s cap (c # cs) report =
     rbind (verify_rows E s cap c (db_iter E s c IterStart) 0 report) (\<lambda>(rows, report1).
       verify_cfs E s cap cs
         (report1\<lparr>vr_per_cf_rows := (vr_per_cf_rows report1)(cf_name c \<mapsto> rows)\<rparr>))"

definition verify :: "('s, 'v, 'x) ext_scheme \<Rightarrow> 's \<Rightarrow> nat \<Rightarrow> error + verify_report" where
  "verify E s max_issues =
     (let cap = (if max_issues = 0 then 2 ^ 64 - 1 else max_issues) in
      rbind (read_meta E s) (\<lambda>row.
        verify_cfs E s cap SECONDARY_INDEX_CFS
          (if is_some row then verify_default
           else push_issue E cap CF_META meta_ROW
                  (''meta row missing '' @ map char_of [226 :: nat, 128, 148] @
                   '' DB never finished its first boot?'') verify_default)))"

section \<open>Dumping a family\<close>

record dump_opts =
  du_prefix :: "bytes option"
  du_key :: "bytes option"
  du_after :: "bytes option"
  du_limit :: nat

record dump_row =
  dr_key :: string
  dr_value :: string

definition dump_row_of :: "('s, 'v, 'x) ext_scheme \<Rightarrow> bytes \<times> 'v \<Rightarrow> dump_row" where
  "dump_row_of E = (\<lambda>(k, v). \<lparr>dr_key = hexenc E k, dr_value = hexenc E (unraw E v)\<rparr>)"

definition dump :: "('s, 'v, 'x) ext_scheme \<Rightarrow> 's \<Rightarrow> string \<Rightarrow> dump_opts \<Rightarrow> error + dump_row page" where
  "dump E s name opts =
     (if \<not> cf_exists name then Inl (Other ''unknown CF '')
      else case du_key opts of
        Some k \<Rightarrow>
          rbind (raw_get E s name k) (\<lambda>found.
            Inr (case found of
                   Some v \<Rightarrow> \<lparr>items = [dump_row_of E (k, v)], next_cursor = None\<rparr>
                 | None \<Rightarrow> page_empty))
      | None \<Rightarrow>
          rbind (raw_page E s name (du_prefix opts) (du_after opts)
                  (if du_limit opts = 0 then 100 else du_limit opts)) (\<lambda>page.
            Inr \<lparr>items = map (dump_row_of E) (items page), next_cursor = next_cursor page\<rparr>))"

section \<open>Probing the peers\<close>

record peer_probe_ok =
  po_network :: string
  po_peer_id :: string
  po_build_version :: string
  po_last_final_period :: u64
  po_last_final_thread :: u32
  po_schema_version :: u32
  po_now_ms :: i64

record peer_probe =
  pr_name :: string
  pr_url :: string
  pr_status :: "error + peer_probe_ok"

definition probe_ok :: "health_response \<Rightarrow> peer_probe_ok" where
  "probe_ok h =
     \<lparr>po_network = hr_network h, po_peer_id = hr_peer_id h, po_build_version = hr_build_version h,
      po_last_final_period = hr_last_final_period h, po_last_final_thread = hr_last_final_thread h,
      po_schema_version = hr_schema_version h, po_now_ms = hr_now_ms h\<rparr>"

text \<open>The configuration under the name of a handle: the last of that name.\<close>

definition probe_config :: "(string \<times> string) list \<Rightarrow> peer_handle \<Rightarrow> string \<times> string" where
  "probe_config cfgs h =
     unwrap_or (ph_name h, ph_url h) (map_option (Pair (ph_name h)) (map_of (rev cfgs) (ph_name h)))"

definition probe_peer :: "network \<Rightarrow> (string \<times> string) list \<Rightarrow> nat \<Rightarrow> peer_probe pool_m" where
  "probe_peer net cfgs i =
     bnd (get_pool (\<lambda>pl. probe_config cfgs (pl_peers pl ! i))) (\<lambda>(name, url).
     on_result (peer_health net i)
       (\<lambda>h. ret \<lparr>pr_name = name, pr_url = url, pr_status = Inr (probe_ok h)\<rparr>)
       (\<lambda>e. ret \<lparr>pr_name = name, pr_url = url, pr_status = Inl e\<rparr>))"

text \<open>The position of a probe in the configured order, the end for an unknown name.\<close>

definition config_position :: "(string \<times> string) list \<Rightarrow> string \<Rightarrow> nat" where
  "config_position cfgs name = length (takeWhile (\<lambda>c. fst c \<noteq> name) cfgs)"

definition peers :: "network \<Rightarrow> u64 \<Rightarrow> (string \<times> string) list \<Rightarrow> peer_probe list pool_m" where
  "peers net seed cfgs =
     bnd peer_indices (\<lambda>is.
     bnd (fold_each (\<lambda>out i. bnd (probe_peer net cfgs i) (\<lambda>p. ret (out @ [p]))) [] (shuffled seed is)) (\<lambda>out.
     ret (sort_key (\<lambda>p. config_position cfgs (pr_name p)) out)))"

section \<open>Replaying a range\<close>

record replay_opts =
  ro_from :: slot_id
  ro_to :: slot_id
  ro_thread_count :: u8
  ro_parts :: final_slot_parts
  ro_max_slots :: nat

definition replay_opts_default :: replay_opts where
  "replay_opts_default =
     \<lparr>ro_from = (0, 0), ro_to = (0, 0), ro_thread_count = 32,
      ro_parts = \<lparr>fp_block = True, fp_exec_output = True, fp_transfers = True\<rparr>, ro_max_slots = 100000\<rparr>"

record replay_report =
  rr_considered :: nat
  rr_applied :: nat
  rr_missing :: nat
  rr_errors :: nat

definition replay_report_default :: replay_report where
  "replay_report_default = \<lparr>rr_considered = 0, rr_applied = 0, rr_missing = 0, rr_errors = 0\<rparr>"

definition add_considered :: "replay_report \<Rightarrow> replay_report" where
  "add_considered r = r\<lparr>rr_considered := rr_considered r + 1\<rparr>"

definition add_applied :: "replay_report \<Rightarrow> replay_report" where
  "add_applied r = r\<lparr>rr_applied := rr_applied r + 1\<rparr>"

definition add_missing :: "replay_report \<Rightarrow> replay_report" where
  "add_missing r = r\<lparr>rr_missing := rr_missing r + 1\<rparr>"

definition add_error :: "replay_report \<Rightarrow> replay_report" where
  "add_error r = r\<lparr>rr_errors := rr_errors r + 1\<rparr>"

definition next_slot :: "slot_id \<Rightarrow> u8 \<Rightarrow> slot_id" where
  "next_slot = (\<lambda>(p, t) thread_count.
     let next_t = t + 1 in if thread_count \<le> next_t then (p + 1, 0) else (p, next_t))"

text \<open>The order of pairs.\<close>

definition pair_le :: "slot_id \<Rightarrow> slot_id \<Rightarrow> bool" where
  "pair_le a b \<longleftrightarrow> fst a < fst b \<or> fst a = fst b \<and> snd a \<le> snd b"

text \<open>
  \<open>left\<close> is \<open>max_slots\<close> less the slots considered, so the loop ends whatever the range.  \<open>seeds\<close> are the
  starts of the random order in which each fetch visits the peers.
\<close>

fun replay_slots ::
  "('s, 'v, 'x) node_ext_scheme \<Rightarrow> network \<Rightarrow> (slot_id \<Rightarrow> u64) \<Rightarrow> replay_opts \<Rightarrow> i64 \<Rightarrow> nat \<Rightarrow> slot_id \<Rightarrow>
   replay_report \<Rightarrow> (pool \<times> 's world, replay_report) dbm" where
  "replay_slots E net seeds opts now left cur rep (pl, w) =
     (if \<not> pair_le cur (ro_to opts) then (Inr rep, pl, w)
      else (case left of
        0 \<Rightarrow> (Inl (Other (''replay: hit --max-slots cap of '' @ show_nat (ro_max_slots opts))), pl, w)
      | Suc left1 \<Rightarrow>
          (let next = next_slot cur (ro_thread_count opts); rep1 = add_considered rep in
           case fetch_final_slot net (seeds cur) (fst cur) (snd cur) (ro_parts opts) pl of
             (Inr (Some resp), pl1) \<Rightarrow>
               (case apply_peer_patch E resp now w of
                  (Inl e, w1) \<Rightarrow> (Inl e, pl1, w1)
                | (Inr _, w1) \<Rightarrow> replay_slots E net seeds opts now left1 next (add_applied rep1) (pl1, w1))
           | (Inr None, pl1) \<Rightarrow> replay_slots E net seeds opts now left1 next (add_missing rep1) (pl1, w)
           | (Inl e, pl1) \<Rightarrow> replay_slots E net seeds opts now left1 next (add_error rep1) (pl1, w))))"

declare replay_slots.simps [simp del]

definition cli_replay ::
  "('s, 'v, 'x) node_ext_scheme \<Rightarrow> network \<Rightarrow> (slot_id \<Rightarrow> u64) \<Rightarrow> replay_opts \<Rightarrow> i64 \<Rightarrow> pool \<times> 's \<Rightarrow>
   (error + replay_report) \<times> pool \<times> 's" where
  "cli_replay E net seeds opts now = (\<lambda>(pl, s).
     if pool_is_empty pl then (Inl (Other ''replay: no peers configured''), pl, s)
     else if ro_thread_count opts = 0 then (Inl (Other ''replay: thread_count must be > 0''), pl, s)
     else if \<not> pair_le (ro_from opts) (ro_to opts) then (Inl (Other ''replay: from  > to ''), pl, s)
     else (case replay_slots E net seeds opts now (ro_max_slots opts) (ro_from opts) replay_report_default
                  (pl, \<lparr>w_db = s, w_sse = sse_new 16, w_metrics = None\<rparr>) of
             (r, pl1, w1) \<Rightarrow> (r, pl1, w_db w1)))"

section \<open>Texts of the command line\<close>

definition parse_hex :: "'x crates_scheme \<Rightarrow> string \<Rightarrow> string \<Rightarrow> error + bytes" where
  "parse_hex C t what = ok_or (Other (what @ '': invalid hex: '')) (hexdec C t)"

definition parse_u8 :: "string \<Rightarrow> u8 option" where
  "parse_u8 t = map_option word_of_nat (parse_unsigned (2 ^ 8) t)"

definition split_once :: "char \<Rightarrow> string \<Rightarrow> (string \<times> string) option" where
  "split_once c t =
     (if c \<in> set t then Some (takeWhile (\<lambda>d. d \<noteq> c) t, tl (dropWhile (\<lambda>d. d \<noteq> c) t)) else None)"

definition rsplit_once :: "char \<Rightarrow> string \<Rightarrow> (string \<times> string) option" where
  "rsplit_once c t = map_option (\<lambda>(b, a). (rev a, rev b)) (split_once c (rev t))"

definition parse_slot_arg :: "string \<Rightarrow> bool \<Rightarrow> u8 \<Rightarrow> error + slot_id" where
  "parse_slot_arg s upper_bound thread_count =
     (case (case split_once CHR '':'' s of Some (p, t) \<Rightarrow> (p, Some t) | None \<Rightarrow> (s, None)) of
        (p_str, t_opt) \<Rightarrow>
          rbind (ok_or (Other ''invalid period : '') (parse_u64 p_str)) (\<lambda>p.
          rbind (case t_opt of
                   Some t \<Rightarrow> ok_or (Other ''invalid thread : '') (parse_u8 t)
                 | None \<Rightarrow> Inr (if upper_bound then sat_sub thread_count 1 else 0)) (\<lambda>t.
            if thread_count \<le> t
            then Inl (Other (''thread '' @ show_nat (unat t) @ '' out of range for thread_count '' @
                   show_nat (unat thread_count)))
            else Inr (p, t))))"

text \<open>The loopback address of the health check, from the text the server binds to.\<close>

definition derive_health_url :: "string option \<Rightarrow> string" where
  "derive_health_url bind =
     (case unwrap_or (''0.0.0.0'', ''8080'')
             (rsplit_once CHR '':'' (unwrap_or ''0.0.0.0:8080'' bind)) of
        (host, port) \<Rightarrow>
          ''http://'' @ (if host = ''0.0.0.0'' \<or> host = ''::'' \<or> host = [] then ''127.0.0.1'' else host) @
          '':'' @ port @ ''/v1/health'')"

end
