(* ===== verification/Cli_Laws.thy ===== *)
theory Cli_Laws
  imports Cli
begin

text \<open>
  Laws of the operator's commands: what the consistency check finds in a healthy store, that no write
  of an index entry next to its primary row makes it find more, and the walk over a range of slots.
\<close>

section \<open>What the check finds\<close>

definition dangling :: "'v tables \<Rightarrow> cf \<Rightarrow> bytes \<Rightarrow> bool" where
  "dangling T c k \<longleftrightarrow>
     (case entry_check_of c k of Malformed _ \<Rightarrow> True | Follow prim pk \<Rightarrow> T prim pk = None | Unchecked \<Rightarrow> False)"

definition entry_issue :: "'x crates_scheme \<Rightarrow> cf \<Rightarrow> bytes \<Rightarrow> verify_issue" where
  "entry_issue C c k =
     \<lparr>vi_cf = cf_name c, vi_key_hex = hexenc C k,
      vi_reason = (case entry_check_of c k of Malformed reason \<Rightarrow> reason
                   | _ \<Rightarrow> ''primary row missing for index entry'')\<rparr>"

definition family_issues ::
  "('s, 'v, 'x) ext_scheme \<Rightarrow> ('s, 'v) rows \<Rightarrow> 's \<Rightarrow> cf \<Rightarrow> verify_issue list" where
  "family_issues E R s c = map (entry_issue E c) (filter (dangling (table R s) c) (map fst (R s c)))"

definition verify_meta_issue :: "'x crates_scheme \<Rightarrow> verify_issue" where
  "verify_meta_issue C =
     \<lparr>vi_cf = cf_name CF_META, vi_key_hex = hexenc C meta_ROW,
      vi_reason = ''meta row missing '' @ map char_of [226 :: nat, 128, 148] @
        '' DB never finished its first boot?''\<rparr>"

text \<open>A report extended by rows and issues.\<close>

definition reported :: "nat \<Rightarrow> nat \<Rightarrow> verify_issue list \<Rightarrow> verify_report \<Rightarrow> verify_report" where
  "reported cap n new report =
     report\<lparr>vr_scanned := vr_scanned report + n, vr_total_issues := vr_total_issues report + length new,
            vr_issues := vr_issues report @ take (cap - length (vr_issues report)) new\<rparr>"

lemma reported_nil [simp]: "reported cap 0 [] report = report"
  by (simp add: reported_def)

lemma reported_reported [simp]:
  "reported cap m ys (reported cap n xs report) = reported cap (n + m) (xs @ ys) report"
  by (cases report) (simp add: reported_def min_def algebra_simps)

lemma reported_per_cf [simp]:
  "vr_per_cf_rows (reported cap n xs report) = vr_per_cf_rows report"
  "reported cap n xs (report\<lparr>vr_per_cf_rows := f\<rparr>) = (reported cap n xs report)\<lparr>vr_per_cf_rows := f\<rparr>"
  by (simp_all add: reported_def)

lemma push_issue_reported:
  "push_issue C cap c k reason report =
     reported cap 0 [\<lparr>vi_cf = cf_name c, vi_key_hex = hexenc C k, vi_reason = reason\<rparr>] report"
  by (cases report) (simp add: push_issue_def reported_def Suc_diff_le)

lemma counted_reported: "report\<lparr>vr_scanned := Suc (vr_scanned report)\<rparr> = reported cap 1 [] report"
  by (simp add: reported_def)

lemma verify_entry_ok:
  assumes "db_ok E R"
  shows "verify_entry E s cap c k report =
    Inr (reported cap 1 (if dangling (table R s) c k then [entry_issue E c k] else []) report)"
  by (cases "entry_check_of c k")
    (simp_all add: verify_entry_def counted_reported [of _ cap] push_issue_reported dangling_def entry_issue_def
      db_get_ok [OF assms] is_some_def Let_def)

lemma verify_rows_ok:
  assumes "db_ok E R"
  shows "verify_rows E s cap c (map Inr rows) n report =
    Inr (n + length rows, reported cap (length rows)
      (map (entry_issue E c) (filter (dangling (table R s) c) (map fst rows))) report)"
  by (induction rows arbitrary: n report) (auto simp: verify_entry_ok [OF assms] algebra_simps)

lemma verify_cfs_ok:
  assumes "db_ok E R"
  shows "verify_cfs E s cap cs report =
    Inr ((reported cap (\<Sum>c\<leftarrow>cs. length (R s c)) (concat (map (family_issues E R s) cs)) report)
      \<lparr>vr_per_cf_rows :=
        vr_per_cf_rows report ++ map_of (map (\<lambda>c. (cf_name c, length (R s c))) (rev cs))\<rparr>)"
proof (induction cs arbitrary: report)
  case Nil
  then show ?case by (simp add: reported_def)
next
  case (Cons c cs)
  let ?rep = "reported cap (length (R s c)) (family_issues E R s c) report"
  have "verify_cfs E s cap (c # cs) report =
      verify_cfs E s cap cs (?rep\<lparr>vr_per_cf_rows := (vr_per_cf_rows ?rep)(cf_name c \<mapsto> length (R s c))\<rparr>)"
    by (simp only: verify_cfs.simps db_iter_ok [OF assms] seek.simps verify_rows_ok [OF assms] rbind_simps
        prod.case family_issues_def add_0)
  moreover have "(vr_per_cf_rows report)(cf_name c \<mapsto> length (R s c)) ++
        map_of (map (\<lambda>c. (cf_name c, length (R s c))) (rev cs)) =
      vr_per_cf_rows report ++ map_of (map (\<lambda>c. (cf_name c, length (R s c))) (rev (c # cs)))"
    by (auto simp: map_add_def fun_eq_iff split: option.splits)
  ultimately show ?case
    by (simp add: Cons.IH fun_upd_def del: verify_cfs.simps)
qed

section \<open>Stores without dangling entries\<close>

definition linked :: "'v tables \<Rightarrow> bool" where
  "linked T \<longleftrightarrow> (\<forall>c\<in>set SECONDARY_INDEX_CFS. \<forall>k. T c k \<noteq> None \<longrightarrow> \<not> dangling T c k)"

text \<open>A key of an index family that leads to the row \<open>pk\<close> of \<open>prim\<close>, or that the check lets pass.\<close>

definition leads_to :: "cf \<Rightarrow> bytes \<Rightarrow> cf \<times> bytes \<Rightarrow> bool" where
  "leads_to prim pk e \<longleftrightarrow> entry_check_of (fst e) (snd e) \<in> {Follow prim pk, Unchecked}"

lemma leads_toI:
  "entry_check_of c k = Follow prim pk \<Longrightarrow> leads_to prim pk (c, k)"
  "entry_check_of c k = Unchecked \<Longrightarrow> leads_to prim pk (c, k)"
  by (simp_all add: leads_to_def)

lemma follow_primary: "entry_check_of c k = Follow prim pk \<Longrightarrow> prim \<notin> set SECONDARY_INDEX_CFS"
  by (cases c) (auto simp: follow_def SECONDARY_INDEX_CFS_def split: option.splits)

lemma linked_put:
  assumes "linked T" "prim \<notin> set SECONDARY_INDEX_CFS"
  shows "linked (T(prim := (T prim)(k \<mapsto> v)))"
  unfolding linked_def
proof (intro ballI allI impI)
  fix c i assume c: "c \<in> set SECONDARY_INDEX_CFS" "(T(prim := (T prim)(k \<mapsto> v))) c i \<noteq> None"
  with assms have "\<not> dangling T c i"
    by (auto simp: linked_def split: if_splits)
  then show "\<not> dangling (T(prim := (T prim)(k \<mapsto> v))) c i"
    by (auto simp: dangling_def split: entry_check.splits)
qed

lemma linked_index:
  assumes "linked T" "T prim pk \<noteq> None" "fst ` set stale \<subseteq> set SECONDARY_INDEX_CFS"
    and es: "\<And>e. e \<in> set es \<Longrightarrow> leads_to prim pk e"
  shows "linked (apply_batch (dels stale @ puts es v) T)"
  unfolding linked_def
proof (intro ballI allI impI)
  let ?T = "apply_batch (dels stale @ puts es v) T"
  have kept: "?T p k \<noteq> None" if "T p k \<noteq> None" "p \<notin> set SECONDARY_INDEX_CFS" for p k
  proof -
    have "(p, k) \<notin> set stale" using that(2) assms(3) by (metis fst_conv image_eqI subsetD)
    then show ?thesis using that(1) by (simp add: apply_puts apply_dels_at)
  qed
  fix c k assume c: "c \<in> set SECONDARY_INDEX_CFS" "?T c k \<noteq> None"
  show "\<not> dangling ?T c k"
  proof (cases "entry_check_of c k")
    case Unchecked
    then show ?thesis by (simp add: dangling_def)
  next
    case (Malformed r)
    then have "(c, k) \<notin> set es" using es [of "(c, k)"] by (auto simp: leads_to_def)
    then have "T c k \<noteq> None" using c(2) by (auto simp: apply_puts apply_dels_at split: if_splits)
    then have "\<not> dangling T c k" using assms(1) c(1) by (simp add: linked_def)
    then show ?thesis using Malformed by (simp add: dangling_def)
  next
    case (Follow p i)
    then have "T p i \<noteq> None"
    proof (cases "(c, k) \<in> set es")
      case True
      then show ?thesis using es [OF True] Follow assms(2) by (simp add: leads_to_def)
    next
      case False
      then have "T c k \<noteq> None" using c(2) by (auto simp: apply_puts apply_dels_at split: if_splits)
      then have "\<not> dangling T c k" using assms(1) c(1) by (simp add: linked_def)
      then show ?thesis using Follow by (simp add: dangling_def)
    qed
    from kept [OF this follow_primary [OF Follow]] Follow show ?thesis by (simp add: dangling_def)
  qed
qed

lemma linked_row:
  assumes "linked T" "prim \<notin> set SECONDARY_INDEX_CFS" "fst ` set stale \<subseteq> set SECONDARY_INDEX_CFS"
    and "\<And>e. e \<in> set es \<Longrightarrow> leads_to prim pk e"
  shows "linked (apply_batch (Put prim pk v # dels stale @ puts es w) T)"
proof -
  have "(T(prim := (T prim)(pk \<mapsto> v))) prim pk \<noteq> None" by simp
  from linked_index [where es = es and v = w, OF linked_put [OF assms(1,2)] this assms(3) assms(4)]
  have "linked (apply_batch (dels stale @ puts es w) (T(prim := (T prim)(pk \<mapsto> v))))" .
  then show ?thesis by simp
qed

text \<open>Where the entries of each row type lead.\<close>

named_theorems leads "entries that lead to their row"

lemma block_entries [leads]:
  assumes "wf_block C b"
  shows "leads_to CF_BLOCK (id_key (bk_id b))
    (IDX_BLOCK_BY_CREATOR, idx_block_by_creator (addr_key (bk_creator b)) p t (id_key (bk_id b)))"
    "leads_to CF_BLOCK (id_key (bk_id b)) (CF_SLOT_CANDIDATE_BLOCK, k)"
  using assms
  by (simp_all add: leads_to_def follow_def addr_slot_id_target_def idx_block_by_creator_def wf_block_def wf_addr_def
      wf_gid_def parse_idx_addr_slot_id_round)

lemma op_entries [leads]:
  assumes "wf_operation C p"
  shows "leads_to CF_OP (id_key (op_id p))
      (IDX_OP_BY_CREATOR, idx_op_by_creator (addr_key (op_creator p)) q t (id_key (op_id p)))"
    "op_target p = Some a \<Longrightarrow> leads_to CF_OP (id_key (op_id p))
      (IDX_OP_BY_TARGET, idx_op_by_target (addr_key a) q t (id_key (op_id p)))"
  using assms
  by (auto simp: leads_to_def follow_def addr_slot_id_target_def idx_op_by_creator_def idx_op_by_target_def
      wf_operation_def wf_addr_def wf_gid_def parse_idx_addr_slot_id_round)

lemma endorsement_entries [leads]:
  assumes "crates_ok C" "wf_endorsement C e" "parse_endo_id C (en_id e) = Inr i"
  shows "leads_to CF_ENDORSEMENT (id_key i)
    (IDX_ENDORSEMENT_BY_CREATOR, idx_block_by_creator (addr_key (en_content_creator_address e)) p t (id_key i))"
proof -
  have "wf_endo_id C i"
    using assms by (auto simp: parse_endo_id_def dest: endo_display.parse_wf)
  then show ?thesis
    using assms(2)
    by (simp add: leads_to_def follow_def addr_slot_id_target_def idx_block_by_creator_def wf_endorsement_def
        wf_addr_def wf_gid_def parse_idx_addr_slot_id_round)
qed

lemma event_entries [leads]: "e \<in> set (event_index ev) \<Longrightarrow> leads_to CF_SC_EVENT (event_key_of ev) e"
  using event_index_parse [of "fst e" "snd e" ev]
  by (auto simp: event_index_iff leads_to_def follow_def event_key_of_def)

lemma transfer_entries [leads]:
  assumes "crates_ok C" "e \<in> set (transfer_index C t)"
  shows "leads_to CF_TRANSFER (transfer_key_of t) e"
  using transfer_index_parse [OF assms] assms(2)
  by (auto simp: transfer_index_iff leads_to_def follow_def transfer_key_of_def transfer_entry_parse_def
      split: option.splits)

lemma denunciation_entries [leads]:
  assumes "wf_denunciation_entry C d" "length h = DENUNCIATION_HASH_LEN" "e \<in> set (denunciation_index d h)"
  shows "leads_to CF_DENUNCIATION h e"
  using assms
  by (cases "de_denounced_addr d") (auto simp: denunciation_index_def leads_to_def follow_def
      wf_denunciation_entry_def wf_addr_def parse_idx_denunciation_by_addr_round parse_idx_denunciation_recent_round)

lemma split_addr_id_key_round:
  "length a = ADDR_KEY_LEN \<Longrightarrow> split_addr_id_key (a @ 0 # i) = Some (a, i)"
  by (simp add: split_addr_id_key_def nth_append)

lemma async_entries [leads]:
  assumes "wf_async_msg C m" "e \<in> set (async_index m)"
  shows "leads_to CF_ASYNC_MSG (str_bytes (am_id m)) e"
  using assms
  by (cases "am_sender m"; cases "am_destination m"; cases "am_last_slot m")
    (auto simp: async_index_def entry_def leads_to_def follow_def async_target_def wf_async_msg_def wf_addr_def
      idx_async_sender_key_def idx_async_dest_key_def split_addr_id_key_round)

lemma call_entries [leads]:
  assumes "wf_deferred_call C d" "e \<in> set (call_index d)"
  shows "leads_to CF_DEFERRED_CALL (str_bytes (dc_id d)) e"
  using assms
  by (cases "dc_sender d"; cases "dc_target_address d"; cases "dc_last_slot d")
    (auto simp: call_index_def entry_def leads_to_def follow_def async_target_def wf_deferred_call_def wf_addr_def
      idx_async_sender_key_def idx_deferred_sender_key_def idx_deferred_target_key_def split_addr_id_key_round)

lemma verify_run:
  assumes "db_ok E R" "read_meta E s = Inr row" "cap = (if max_issues = 0 then 2 ^ 64 - 1 else max_issues)"
    and "found = (if row = None then [verify_meta_issue E] else []) @
      concat (map (family_issues E R s) SECONDARY_INDEX_CFS)"
  shows "\<exists>report. verify E s max_issues = Inr report \<and>
    vr_total_issues report = length found \<and> vr_issues report = take cap found \<and>
    vr_scanned report = (\<Sum>c\<leftarrow>SECONDARY_INDEX_CFS. length (R s c)) \<and>
    (verify_ok report \<longleftrightarrow> row \<noteq> None \<and> linked (table R s))"
proof -
  have cap: "0 < cap" using assms(3) by (simp split: if_splits)
  have none: "family_issues E R s c = [] \<longleftrightarrow> (\<forall>k. table R s c k \<noteq> None \<longrightarrow> \<not> dangling (table R s) c k)" for c
    using in_rows_iff [OF db_okD(2) [OF assms(1)]]
    by (force simp: family_issues_def filter_empty_conv)
  have run: "verify E s max_issues = verify_cfs E s cap SECONDARY_INDEX_CFS
      (reported cap 0 (if row = None then [verify_meta_issue E] else []) verify_default)"
    using assms(2,3) cap
    by (simp add: verify_def verify_meta_issue_def push_issue_reported is_some_def del: One_nat_def)
  show ?thesis
    unfolding run verify_cfs_ok [OF assms(1)]
    by (simp add: reported_def verify_default_def assms(4) verify_ok_def linked_def none min_absorb1 Suc_leI cap)
qed

section \<open>Computations that keep a predicate of the tables\<close>

definition keeps :: "('s, 'v) rows \<Rightarrow> ('v tables \<Rightarrow> bool) \<Rightarrow> ('s, 'a) dbm \<Rightarrow> bool" where
  "keeps R P m \<longleftrightarrow> (\<forall>s. P (table R s) \<longrightarrow> P (table R (snd (m s))))"

lemma keepsD: "keeps R P m \<Longrightarrow> P (table R s) \<Longrightarrow> m s = (r, t) \<Longrightarrow> P (table R t)"
  by (metis keeps_def snd_conv)

lemma keeps_ret: "keeps R P (ret x)"
  by (simp add: keeps_def ret_def)

lemma keeps_bnd:
  assumes "keeps R P m" "\<And>x. keeps R P (f x)"
  shows "keeps R P (bnd m f)"
  unfolding keeps_def
proof (intro allI impI)
  fix s assume P: "P (table R s)"
  obtain r t where m: "m s = (r, t)" by (cases "m s")
  have t: "P (table R t)" by (rule keepsD [OF assms(1) P m])
  show "P (table R (snd (bnd m f s)))"
    using m t assms(2) by (cases r) (auto simp: bnd_def keeps_def)
qed

lemma keeps_for_each: "(\<And>x. x \<in> set xs \<Longrightarrow> keeps R P (f x)) \<Longrightarrow> keeps R P (for_each xs f)"
  by (induction xs) (auto intro: keeps_bnd keeps_ret)

lemma keeps_fold_each: "(\<And>b x. keeps R P (f b x)) \<Longrightarrow> keeps R P (fold_each f b xs)"
  by (induction xs arbitrary: b) (auto intro: keeps_bnd keeps_ret)

lemma keeps_replay:
  assumes "db_ok E R"
    and again: "\<And>k v row s. P (table R s) \<Longrightarrow> table R s c k = Some v \<Longrightarrow> dec v = Inr row \<Longrightarrow>
      P (table R (snd (again k row s)))"
  shows "keeps R P (replay E c dec again)"
proof -
  have one: "keeps R P (bnd (readm (\<lambda>s. db_get E s c k)) (\<lambda>r. case r of None \<Rightarrow> ret n
      | Some v \<Rightarrow> bnd (lift (codec_r (dec v))) (\<lambda>row. bnd (again k row) (\<lambda>_. ret (n + 1)))))" for n :: nat and k
    unfolding keeps_def
  proof (intro allI impI)
    fix s assume P: "P (table R s)"
    show "P (table R (snd (bnd (readm (\<lambda>s. db_get E s c k)) (\<lambda>r. case r of None \<Rightarrow> ret n
      | Some v \<Rightarrow> bnd (lift (codec_r (dec v))) (\<lambda>row. bnd (again k row) (\<lambda>_. ret (n + 1)))) s)))"
    proof (cases "table R s c k")
      case None
      with P show ?thesis by (simp add: bnd_def readm_def db_get_ok [OF assms(1)] ret_def)
    next
      case (Some v)
      show ?thesis
      proof (cases "dec v")
        case (Inl e)
        with P Some show ?thesis by (simp add: bnd_def readm_def db_get_ok [OF assms(1)] fail_def)
      next
        case (Inr row)
        obtain r t where m: "again k row s = (r, t)" by (cases "again k row s")
        with again [OF P Some Inr] have "P (table R t)" by simp
        with Some Inr m show ?thesis
          by (cases r) (simp_all add: bnd_def readm_def db_get_ok [OF assms(1)] ret_def)
      qed
    qed
  qed
  have read: "keeps R P (readm f)" for f :: "_ \<Rightarrow> error + _" by (simp add: keeps_def readm_def)
  show ?thesis
    unfolding replay_def by (intro keeps_bnd keeps_fold_each one read keeps_ret)
qed

section \<open>Rebuilding\<close>

text \<open>
  What the rebuild relies on: endorsement rows are stored under their own id, and denunciation rows under
  hashes.
\<close>

definition keyed_endorsements :: "('s, 'v, 'x) ext_scheme \<Rightarrow> 'v tables \<Rightarrow> bool" where
  "keyed_endorsements E T \<longleftrightarrow>
     (\<forall>k v e i. T CF_ENDORSEMENT k = Some v \<longrightarrow> decode_endorsement E v = Inr e \<longrightarrow>
        parse_endo_id E (en_id e) = Inr i \<longrightarrow> id_key i = k)"

definition hashed_denunciations :: "'v tables \<Rightarrow> bool" where
  "hashed_denunciations T \<longleftrightarrow> (\<forall>k. T CF_DENUNCIATION k \<noteq> None \<longrightarrow> length k = DENUNCIATION_HASH_LEN)"

definition rebuildable :: "('s, 'v, 'x) ext_scheme \<Rightarrow> 'v tables \<Rightarrow> bool" where
  "rebuildable E T \<longleftrightarrow> linked T \<and> keyed_endorsements E T \<and> hashed_denunciations T"

lemma rebuildable_frame:
  "rebuildable E T \<Longrightarrow> linked T' \<Longrightarrow> T' CF_ENDORSEMENT = T CF_ENDORSEMENT \<Longrightarrow>
   T' CF_DENUNCIATION = T CF_DENUNCIATION \<Longrightarrow> rebuildable E T'"
  by (simp add: rebuildable_def keyed_endorsements_def hashed_denunciations_def)

lemma rebuildable_write:
  assumes "db_ok E R" "rebuildable E (table R s)"
    and "\<And>t. table R t = apply_batch b (table R s) \<Longrightarrow> linked (table R t)"
    and "CF_ENDORSEMENT \<notin> write_cf ` set b" "CF_DENUNCIATION \<notin> write_cf ` set b"
  shows "rebuildable E (table R (snd (db_write E b s)))"
proof -
  obtain t where t: "db_write E b s = (Inr (), t)" "table R t = apply_batch b (table R s)"
    by (rule db_write_ok [OF assms(1)])
  then show ?thesis
    using rebuildable_frame [OF assms(2) assms(3) [OF t(2)]] assms(4,5) by (simp add: apply_batch_other)
qed

lemma rebuild_index_families:
  "IDX_BLOCK_BY_CREATOR \<in> set SECONDARY_INDEX_CFS" "CF_BLOCK \<notin> set SECONDARY_INDEX_CFS"
  "CF_OP \<notin> set SECONDARY_INDEX_CFS" "CF_ENDORSEMENT \<notin> set SECONDARY_INDEX_CFS"
  "CF_TRANSFER \<notin> set SECONDARY_INDEX_CFS" "CF_SC_EVENT \<notin> set SECONDARY_INDEX_CFS"
  "CF_DENUNCIATION \<notin> set SECONDARY_INDEX_CFS" "CF_ASYNC_MSG \<notin> set SECONDARY_INDEX_CFS"
  "CF_DEFERRED_CALL \<notin> set SECONDARY_INDEX_CFS"
  by (simp_all add: SECONDARY_INDEX_CFS_def)

text \<open>One row of each family.\<close>

lemma rebuildable_row:
  assumes "db_ok E R" "rebuildable E (table R s)" "prim \<notin> set SECONDARY_INDEX_CFS"
    and "fst ` set stale \<subseteq> set SECONDARY_INDEX_CFS" "\<And>e. e \<in> set es \<Longrightarrow> leads_to prim pk e"
    and "b = Put prim pk v # dels stale @ puts es w"
    and "{CF_ENDORSEMENT, CF_DENUNCIATION} \<inter> insert prim (fst ` set stale \<union> fst ` set es) = {}"
  shows "rebuildable E (table R (snd (db_write E b s)))"
proof (rule rebuildable_write [OF assms(1,2)])
  have l: "linked (table R s)" using assms(2) by (simp add: rebuildable_def)
  show "linked (table R t)" if "table R t = apply_batch b (table R s)" for t
    unfolding that assms(6) by (rule linked_row [OF l assms(3,4,5)])
  show "CF_ENDORSEMENT \<notin> write_cf ` set b" "CF_DENUNCIATION \<notin> write_cf ` set b"
    using assms(7) by (simp_all add: assms(6) image_Un eq_commute [of _ prim])
qed

lemma lifted_write:
  "P (table R s) \<Longrightarrow> (\<And>v. r = Inr v \<Longrightarrow> P (table R (snd (db_write E (b v) s)))) \<Longrightarrow>
   P (table R (snd (bnd (lift r) (\<lambda>v. db_write E (b v)) s)))"
  by (cases r) (simp_all add: fail_def)

lemma again_block:
  assumes "db_ok E R" "rebuildable E (table R s)" "decode_block E v = Inr b"
  shows "rebuildable E (table R (snd (write_block E b s)))"
  unfolding write_block_def
proof (rule lifted_write [where P = "rebuildable E", OF assms(2)])
  have wf: "wf_block E b" using block_codec.dec_wf [OF db_okD(1) [OF assms(1)] assms(3)] .
  let ?p = "sl_period (bk_slot b)" and ?t = "sl_thread (bk_slot b)"
  fix w
  show "rebuildable E (table R (snd (db_write E (block_batch E b w) s)))"
  proof (rule rebuildable_row [OF assms(1,2), where prim = CF_BLOCK and pk = "id_key (bk_id b)" and stale = "[]" and
        es = "[(IDX_BLOCK_BY_CREATOR, idx_block_by_creator (addr_key (bk_creator b)) ?p ?t (id_key (bk_id b))),
          (CF_SLOT_CANDIDATE_BLOCK, slot_key ?p ?t @ id_key (bk_id b))]"])
    show "leads_to CF_BLOCK (id_key (bk_id b)) e" if "e \<in> set [(IDX_BLOCK_BY_CREATOR,
        idx_block_by_creator (addr_key (bk_creator b)) ?p ?t (id_key (bk_id b))),
        (CF_SLOT_CANDIDATE_BLOCK, slot_key ?p ?t @ id_key (bk_id b))]" for e
      using that block_entries [OF wf] by auto
  qed (simp_all add: rebuild_index_families block_batch_def Let_def puts_def dels_def)
qed

lemma again_op:
  assumes "db_ok E R" "rebuildable E (table R s)" "decode_operation E v = Inr p"
  shows "rebuildable E (table R (snd (write_op E p s)))"
  unfolding write_op_def
proof (rule lifted_write [where P = "rebuildable E", OF assms(2)])
  have wf: "wf_operation E p" using operation_codec.dec_wf [OF db_okD(1) [OF assms(1)] assms(3)] .
  fix w
  let ?es = "case op_inclusions p of [] \<Rightarrow> []
      | i # _ \<Rightarrow> (IDX_OP_BY_CREATOR, idx_op_by_creator (addr_key (op_creator p)) (sl_period (oi_slot i))
          (sl_thread (oi_slot i)) (id_key (op_id p))) #
        (case op_target p of None \<Rightarrow> [] | Some a \<Rightarrow> [(IDX_OP_BY_TARGET, idx_op_by_target (addr_key a)
          (sl_period (oi_slot i)) (sl_thread (oi_slot i)) (id_key (op_id p)))])"
  show "rebuildable E (table R (snd (db_write E (op_batch E p w) s)))"
  proof (rule rebuildable_row [OF assms(1,2), where prim = CF_OP and pk = "id_key (op_id p)" and stale = "[]" and es = ?es])
    show "leads_to CF_OP (id_key (op_id p)) e" if "e \<in> set ?es" for e
      using that op_entries [OF wf] by (auto split: list.splits option.splits)
  qed (auto simp: rebuild_index_families op_batch_def Let_def puts_def dels_def split: list.splits option.splits)
qed

lemma again_event:
  assumes "db_ok E R" "rebuildable E (table R s)"
  shows "rebuildable E (table R (snd (write_sc_event E ev s)))"
  unfolding write_sc_event_def
proof (rule lifted_write [where P = "rebuildable E", OF assms(2)])
  fix w
  show "rebuildable E (table R (snd (db_write E (Put CF_SC_EVENT (event_key_of ev) w #
      map (\<lambda>(c, k). Put c k (empty_value E)) (event_index ev)) s)))"
    by (rule rebuildable_row [OF assms, where prim = CF_SC_EVENT and pk = "event_key_of ev" and stale = "[]" and
          es = "event_index ev", OF _ _ event_entries])
      (auto simp: rebuild_index_families puts_def dels_def dest: event_index_cfs simp: event_cfs_def)
qed

lemma again_transfer:
  assumes "db_ok E R" "rebuildable E (table R s)"
  shows "rebuildable E (table R (snd (write_transfer E t s)))"
  unfolding write_transfer_def
  by (rule rebuildable_row [OF assms, where prim = CF_TRANSFER and pk = "transfer_key_of t" and stale = "[]" and
        es = "transfer_index E t", OF _ _ transfer_entries [OF db_okD(4) [OF assms(1)]]])
    (auto simp: rebuild_index_families puts_def dels_def dest: transfer_index_cfs simp: transfer_cfs_def)

lemma fst_subset: "(\<And>c k. (c, k) \<in> set es \<Longrightarrow> c \<in> X) \<Longrightarrow> fst ` set es \<subseteq> X"
  by auto

lemma pool_families:
  "async_cfs - {CF_ASYNC_MSG} \<subseteq> set SECONDARY_INDEX_CFS"
  "deferred_cfs - {CF_DEFERRED_CALL} \<subseteq> set SECONDARY_INDEX_CFS"
  by (auto simp: async_cfs_def deferred_cfs_def SECONDARY_INDEX_CFS_def)

lemma pool_primaries:
  "CF_ENDORSEMENT \<notin> async_cfs" "CF_DENUNCIATION \<notin> async_cfs" "CF_ENDORSEMENT \<notin> deferred_cfs"
  "CF_DENUNCIATION \<notin> deferred_cfs" "CF_ASYNC_MSG \<noteq> CF_ENDORSEMENT" "CF_ASYNC_MSG \<noteq> CF_DENUNCIATION"
  "CF_DEFERRED_CALL \<noteq> CF_ENDORSEMENT" "CF_DEFERRED_CALL \<noteq> CF_DENUNCIATION"
  by (simp_all add: async_cfs_def deferred_cfs_def)

lemma pool_subsets:
  "fst ` set (async_retired p m) \<subseteq> async_cfs - {CF_ASYNC_MSG}" "fst ` set (async_index m) \<subseteq> async_cfs - {CF_ASYNC_MSG}"
  "fst ` set (call_retired q d) \<subseteq> deferred_cfs - {CF_DEFERRED_CALL}"
  "fst ` set (call_index d) \<subseteq> deferred_cfs - {CF_DEFERRED_CALL}"
  by (rule fst_subset, erule async_retired_cfs async_index_cfs call_retired_cfs call_index_cfs)+

lemma again_upsert:
  assumes "db_ok E R" "rebuildable E (table R s)"
    and "\<And>prev. rebuildable E (table R (snd (db_write E (b prev) s)))"
  shows "rebuildable E (table R (snd (bnd (readm (\<lambda>s. get_decoded E s c k dec)) (\<lambda>prev. db_write E (b prev)) s)))"
  using assms(2,3) by (cases "get_decoded E s c k dec") (simp_all add: bnd_def readm_def)

lemma again_async:
  assumes "db_ok E R" "rebuildable E (table R s)" "wf_async_msg E m"
  shows "rebuildable E (table R (snd (write_async_msg E m s)))"
  unfolding write_async_msg_def Let_def
proof (rule again_upsert [OF assms(1,2)])
  fix prev
  let ?m = "async_keep_first_seen prev m"
  have wf: "wf_async_msg E ?m"
    using assms(3) by (auto simp: async_keep_first_seen_def wf_async_msg_def split: option.splits)
  show "rebuildable E (table R (snd (db_write E (Put CF_ASYNC_MSG (str_bytes (am_id ?m)) (encode_async_msg E ?m) #
      dels (async_retired prev ?m) @ puts (async_index ?m) (empty_value E)) s)))"
  proof (rule rebuildable_row [OF assms(1,2) _ _ async_entries [OF wf] refl])
    show "fst ` set (async_retired prev ?m) \<subseteq> set SECONDARY_INDEX_CFS"
      by (rule fst_subset [OF subsetD [OF pool_families(1) async_retired_cfs]])
    show "{CF_ENDORSEMENT, CF_DENUNCIATION} \<inter>
        insert CF_ASYNC_MSG (fst ` set (async_retired prev ?m) \<union> fst ` set (async_index ?m)) = {}"
      using pool_subsets(1) [of prev ?m] pool_subsets(2) [of ?m] pool_primaries(1,2,5,6) by blast
  qed (simp add: rebuild_index_families)
qed

lemma again_call:
  assumes "db_ok E R" "rebuildable E (table R s)" "wf_deferred_call E d"
  shows "rebuildable E (table R (snd (write_deferred_call E d s)))"
  unfolding write_deferred_call_def Let_def
proof (rule again_upsert [OF assms(1,2)])
  fix prev
  let ?d = "call_keep_first_seen prev d"
  have wf: "wf_deferred_call E ?d"
    using assms(3) by (auto simp: call_keep_first_seen_def wf_deferred_call_def split: option.splits)
  show "rebuildable E (table R (snd (db_write E (Put CF_DEFERRED_CALL (str_bytes (dc_id ?d)) (encode_deferred_call E ?d) #
      dels (call_retired prev ?d) @ puts (call_index ?d) (empty_value E)) s)))"
  proof (rule rebuildable_row [OF assms(1,2) _ _ call_entries [OF wf] refl])
    show "fst ` set (call_retired prev ?d) \<subseteq> set SECONDARY_INDEX_CFS"
      by (rule fst_subset [OF subsetD [OF pool_families(2) call_retired_cfs]])
    show "{CF_ENDORSEMENT, CF_DENUNCIATION} \<inter>
        insert CF_DEFERRED_CALL (fst ` set (call_retired prev ?d) \<union> fst ` set (call_index ?d)) = {}"
      using pool_subsets(3) [of prev ?d] pool_subsets(4) [of ?d] pool_primaries(3,4,7,8) by blast
  qed (simp add: rebuild_index_families)
qed

text \<open>Entries of a row that is there already.\<close>

lemma rebuildable_entry:
  assumes "db_ok E R" "rebuildable E (table R s)" "table R s prim pk \<noteq> None" "leads_to prim pk (c, k)"
    and "c \<in> set SECONDARY_INDEX_CFS"
  shows "rebuildable E (table R (snd (db_put E c k v s)))"
  unfolding db_put_def
proof (rule rebuildable_write [OF assms(1,2)])
  have l: "linked (table R s)" using assms(2) by (simp add: rebuildable_def)
  show "linked (table R t)" if "table R t = apply_batch [Put c k v] (table R s)" for t
    using linked_index [OF l assms(3), of "[]" "[(c, k)]" v] assms(4) by (simp add: that dels_def puts_def)
  show "CF_ENDORSEMENT \<notin> write_cf ` set [Put c k v]" "CF_DENUNCIATION \<notin> write_cf ` set [Put c k v]"
    using assms(5) rebuild_index_families by auto
qed

lemma again_endorsement:
  assumes "db_ok E R" "rebuildable E (table R s)" "table R s CF_ENDORSEMENT k = Some v"
    "decode_endorsement E v = Inr e"
  shows "rebuildable E (table R (snd (emit_endorsement E k e s)))"
proof (cases "parse_endo_id E (en_id e)")
  case (Inl err)
  with assms(2) show ?thesis by (simp add: emit_endorsement_def fail_def)
next
  case (Inr i)
  then have "id_key i = k"
    using assms(2-4) by (auto simp: rebuildable_def keyed_endorsements_def)
  moreover have "wf_endorsement E e"
    using endorsement_codec.dec_wf [OF db_okD(1) [OF assms(1)] assms(4)] .
  then have "leads_to CF_ENDORSEMENT (id_key i) (IDX_ENDORSEMENT_BY_CREATOR,
      idx_endorsement_by_creator (addr_key (en_content_creator_address e)) (sl_period (en_slot e))
        (sl_thread (en_slot e)) (id_key i))"
    unfolding idx_endorsement_by_creator_def idx_block_by_creator_def [symmetric]
    by (rule endorsement_entries [OF db_okD(4) [OF assms(1)] _ Inr])
  moreover have "IDX_ENDORSEMENT_BY_CREATOR \<in> set SECONDARY_INDEX_CFS" by (simp add: SECONDARY_INDEX_CFS_def)
  ultimately have "rebuildable E (table R (snd (db_put E IDX_ENDORSEMENT_BY_CREATOR
      (idx_endorsement_by_creator (addr_key (en_content_creator_address e)) (sl_period (en_slot e))
        (sl_thread (en_slot e)) (id_key i)) (empty_value E) s)))"
    using assms(3) by (intro rebuildable_entry [OF assms(1,2), of CF_ENDORSEMENT "id_key i"]) simp_all
  then show ?thesis
    by (simp add: emit_endorsement_def Inr)
qed

lemma again_denunciation:
  assumes "db_ok E R" "rebuildable E (table R s)" "table R s CF_DENUNCIATION k = Some v"
    "decode_denunciation_entry E v = Inr d"
  shows "rebuildable E (table R (snd (emit_denunciation E k d s)))"
proof -
  let ?P = "\<lambda>T. rebuildable E T \<and> T CF_DENUNCIATION k \<noteq> None"
  have "wf_denunciation_entry E d"
    using denunciation_codec.dec_wf [OF db_okD(1) [OF assms(1)] assms(4)] .
  moreover have "length k = DENUNCIATION_HASH_LEN"
    using assms(2,3) by (auto simp: rebuildable_def hashed_denunciations_def)
  ultimately have leads: "leads_to CF_DENUNCIATION k x" if "x \<in> set (denunciation_index d k)" for x
    using that by (rule denunciation_entries)
  have "keeps R ?P (case x of (c, i) \<Rightarrow> db_put E c i (empty_value E))" if x: "x \<in> set (denunciation_index d k)" for x
    unfolding keeps_def
  proof (intro allI impI)
    fix s assume P: "?P (table R s)"
    obtain c i where [simp]: "x = (c, i)" by (cases x)
    have c: "c \<in> set SECONDARY_INDEX_CFS"
      using x by (auto simp: denunciation_index_def SECONDARY_INDEX_CFS_def split: option.splits)
    have "rebuildable E (table R (snd (db_put E c i (empty_value E) s)))"
      by (rule rebuildable_entry [OF assms(1) _ _ leads [OF x, simplified] c]) (use P in simp_all)
    moreover have "table R (snd (db_put E c i (empty_value E) s)) CF_DENUNCIATION = table R s CF_DENUNCIATION"
      using touches_put [OF db_okD(2) [OF assms(1)], of c "{c}" i "empty_value E"] c rebuild_index_families
      by (auto simp: touches_def)
    ultimately show "?P (table R (snd ((case x of (c, i) \<Rightarrow> db_put E c i (empty_value E)) s)))"
      using P by simp
  qed
  then have "keeps R ?P (emit_denunciation E k d)"
    unfolding emit_denunciation_def by (intro keeps_for_each)
  then show ?thesis
    using assms(2,3) by (auto simp: keeps_def)
qed

lemma replay_all_keeps:
  assumes "db_ok E R"
  shows "keeps R (rebuildable E) (replay_all E)"
  unfolding replay_all_def
  by (intro keeps_bnd keeps_ret keeps_replay [OF assms] again_block again_endorsement again_op again_transfer
      again_event again_denunciation again_async again_call assms
      async_msg_codec.dec_wf [OF db_okD(1) [OF assms]] deferred_call_codec.dec_wf [OF db_okD(1) [OF assms]])

text \<open>The whole rebuild: whatever the index families held, they end without dangling entries.\<close>

lemma rebuild_linked:
  assumes "db_ok E R" "rebuild_secondary_indexes E s = Some (r, t)"
    and "keyed_endorsements E (table R s)" "hashed_denunciations (table R s)"
  shows "linked (table R t)"
proof -
  from clear_cfs_ok [OF assms(1), of SECONDARY_INDEX_CFS "[]" s] obtain ns u where
      u: "clear_cfs E SECONDARY_INDEX_CFS [] s = Some (Inr ([] @ ns), u)"
      "\<forall>c. table R u c = (if c \<in> set SECONDARY_INDEX_CFS then Map.empty else table R s c)"
    by (elim exE conjE) (rule that)
  have "rebuildable E (table R u)"
    using assms(3,4) u(2) rebuild_index_families
    by (simp add: rebuildable_def linked_def keyed_endorsements_def hashed_denunciations_def)
  moreover obtain q w where w: "replay_all E u = (q, w)" by (cases "replay_all E u")
  ultimately have "rebuildable E (table R w)"
    using keepsD [OF replay_all_keeps [OF assms(1)] _ w] by simp
  moreover have "rebuild_secondary_indexes E s =
      Some (case q of Inl e \<Rightarrow> (Inl e, w) | Inr rs \<Rightarrow> (Inr \<lparr>cleared = [] @ ns, replayed = rs\<rparr>, w))"
    unfolding rebuild_secondary_indexes_def u(1) option.case prod.case sum.case w by (cases q) (simp_all only: sum.case)
  with assms(2) have "t = w" by (cases q) simp_all
  ultimately show ?thesis by (simp add: rebuildable_def)
qed

text \<open>It ends, and the other families are those it started from.\<close>

lemma touches_emits [frame_intros]:
  "store_ok E R \<Longrightarrow> IDX_ENDORSEMENT_BY_CREATOR \<in> cs \<Longrightarrow> touches R cs (emit_endorsement E k e)"
  "store_ok E R \<Longrightarrow> denunciation_cfs \<subseteq> cs \<Longrightarrow> touches R cs (emit_denunciation E k d)"
  unfolding emit_endorsement_def emit_denunciation_def
  by (intro frame_intros, assumption, assumption)
    (auto simp: denunciation_index_def denunciation_cfs_def split: option.splits intro!: frame_intros)

lemma keeps_meta: "touches R (- {CF_META}) m \<Longrightarrow> keeps R (\<lambda>T. T CF_META = M) m"
  by (simp add: touches_def keeps_def)

lemma replay_all_meta:
  assumes "db_ok E R"
  shows "keeps R (\<lambda>T. T CF_META = M) (replay_all E)"
proof -
  note ok = db_okD(2) [OF assms]
  have fams: "event_cfs \<subseteq> - {CF_META}" "denunciation_cfs \<subseteq> - {CF_META}" "transfer_cfs \<subseteq> - {CF_META}"
      "async_cfs \<subseteq> - {CF_META}" "deferred_cfs \<subseteq> - {CF_META}"
    by (simp_all add: event_cfs_def denunciation_cfs_def transfer_cfs_def async_cfs_def deferred_cfs_def)
  have one: "keeps R (\<lambda>T. T CF_META = M) (replay E c dec again)" if "\<And>k row. touches R (- {CF_META}) (again k row)" for c dec again
    by (rule keeps_replay [OF assms]) (use keeps_meta [OF that] in \<open>simp add: keeps_def\<close>)
  show ?thesis
    unfolding replay_all_def
    by (intro keeps_bnd keeps_ret one touches_write_block touches_emits touches_write_op touches_write_transfer
        touches_write_sc_event touches_write_async_msg touches_write_deferred_call ok fams)
      simp_all
qed

lemma rebuild_ends:
  assumes "db_ok E R"
  shows "\<exists>r t. rebuild_secondary_indexes E s = Some (r, t) \<and> table R t CF_META = table R s CF_META"
proof -
  from clear_cfs_ok [OF assms(1), of SECONDARY_INDEX_CFS "[]" s] obtain ns u where
      u: "clear_cfs E SECONDARY_INDEX_CFS [] s = Some (Inr ([] @ ns), u)"
      "\<forall>c. table R u c = (if c \<in> set SECONDARY_INDEX_CFS then Map.empty else table R s c)"
    by (elim exE conjE) (rule that)
  obtain q w where w: "replay_all E u = (q, w)" by (cases "replay_all E u")
  have "table R u CF_META = table R s CF_META"
    using u(2) by (simp add: SECONDARY_INDEX_CFS_def)
  with keepsD [OF replay_all_meta [OF assms] _ w] have "table R w CF_META = table R s CF_META" by simp
  moreover have "\<exists>r. rebuild_secondary_indexes E s = Some (r, w)"
    unfolding rebuild_secondary_indexes_def u(1) option.case prod.case sum.case w by (cases q) (simp_all only: sum.case option.inject prod.inject simp_thms ex_simps)
  ultimately show ?thesis by blast
qed

lemma read_meta_cong: "db_ok E R \<Longrightarrow> table R t CF_META = table R s CF_META \<Longrightarrow> read_meta E t = read_meta E s"
  by (simp add: read_meta_def get_decoded_ok)

section \<open>The walk over a range\<close>

text \<open>The number of a slot in the order of the chain, and the slot of a number.\<close>

definition slot_number :: "u8 \<Rightarrow> slot_id \<Rightarrow> nat" where
  "slot_number n x = unat (fst x) * unat n + unat (snd x)"

definition slot_numbered :: "u8 \<Rightarrow> nat \<Rightarrow> slot_id" where
  "slot_numbered n q = (word_of_nat (q div unat n), word_of_nat (q mod unat n))"

lemma slot_numbered_number: "snd x < n \<Longrightarrow> slot_numbered n (slot_number n x) = x"
  by (cases x) (simp add: slot_numbered_def slot_number_def word_less_nat_alt)

lemma pair_le_number:
  assumes "snd x < n" "snd y < n"
  shows "pair_le x y \<longleftrightarrow> slot_number n x \<le> slot_number n y"
proof -
  have b: "unat (snd x) < unat n" "unat (snd y) < unat n" using assms by (simp_all add: word_less_nat_alt)
  show ?thesis
  proof (cases "unat (fst x)" "unat (fst y)" rule: linorder_cases)
    case less
    then have "(unat (fst x) + 1) * unat n \<le> unat (fst y) * unat n" by (intro mult_le_mono1) simp
    with b less show ?thesis by (simp add: pair_le_def slot_number_def word_less_nat_alt)
  next
    case equal
    then have "fst x = fst y" by (simp add: word_unat_eq_iff)
    then show ?thesis by (simp add: pair_le_def slot_number_def word_le_nat_alt)
  next
    case greater
    then have "(unat (fst y) + 1) * unat n \<le> unat (fst x) * unat n" by (intro mult_le_mono1) simp
    with b greater show ?thesis by (auto simp: pair_le_def slot_number_def word_less_nat_alt)
  qed
qed

lemma unat_up: "x \<noteq> - 1 \<Longrightarrow> unat (x + 1) = unat x + 1" for x :: "'a::len word"
  using unatSuc [of x] by (simp add: add.commute add_eq_0_iff)

lemma next_slot_number:
  assumes "snd x < n" "fst x \<noteq> - 1"
  shows "slot_number n (next_slot x n) = slot_number n x + 1" "snd (next_slot x n) < n"
proof -
  have t: "unat (snd x + 1) = unat (snd x) + 1"
    by (rule unat_up) (use assms(1) word_order.extremum_strict [of n] in auto)
  have p: "unat (fst x + 1) = unat (fst x) + 1"
    by (rule unat_up [OF assms(2)])
  have n: "unat (snd x) < unat n" using assms(1) by (simp add: word_less_nat_alt)
  show "slot_number n (next_slot x n) = slot_number n x + 1" "snd (next_slot x n) < n"
    using t p n by (auto simp: next_slot_def slot_number_def word_le_nat_alt word_less_nat_alt Let_def case_prod_beta)
qed

text \<open>The answers of the pool for slots in turn, and those that carry a response.\<close>

fun fetch_all ::
  "network \<Rightarrow> (slot_id \<Rightarrow> u64) \<Rightarrow> final_slot_parts \<Rightarrow> slot_id list \<Rightarrow> pool \<Rightarrow>
   (error + final_slot_response option) list \<times> pool" where
  "fetch_all net seeds parts [] pl = ([], pl)"
| "fetch_all net seeds parts (x # xs) pl =
     (case fetch_final_slot net (seeds x) (fst x) (snd x) parts pl of
        (r, pl1) \<Rightarrow> (case fetch_all net seeds parts xs pl1 of (rs, pl2) \<Rightarrow> (r # rs, pl2)))"

definition responses :: "(error + final_slot_response option) list \<Rightarrow> final_slot_response list" where
  "responses rs = List.map_filter (\<lambda>r. case r of Inr found \<Rightarrow> found | Inl _ \<Rightarrow> None) rs"

definition patch_all ::
  "('s, 'v, 'x) node_ext_scheme \<Rightarrow> i64 \<Rightarrow> final_slot_response list \<Rightarrow> ('s, unit) wm" where
  "patch_all E now resps = for_each resps (\<lambda>resp. bnd (apply_peer_patch E resp now) (\<lambda>_. ret ()))"

definition tallied :: "(error + final_slot_response option) list \<Rightarrow> replay_report \<Rightarrow> replay_report" where
  "tallied rs rep = rep\<lparr>rr_considered := rr_considered rep + length rs,
     rr_applied := rr_applied rep + length (responses rs),
     rr_missing := rr_missing rep + length (filter (\<lambda>r. r = Inr None) rs),
     rr_errors := rr_errors rep + length (filter isl rs)\<rparr>"

lemma responses_simps [simp]:
  "responses [] = []" "responses (Inr (Some resp) # rs) = resp # responses rs"
  "responses (Inr None # rs) = responses rs" "responses (Inl e # rs) = responses rs"
  by (simp_all add: responses_def List.map_filter_def)

lemma tallied_simps [simp]:
  "tallied [] rep = rep"
  "tallied (Inr (Some resp) # rs) rep = tallied rs (add_applied (add_considered rep))"
  "tallied (Inr None # rs) rep = tallied rs (add_missing (add_considered rep))"
  "tallied (Inl e # rs) rep = tallied rs (add_error (add_considered rep))"
  by (cases rep; simp add: tallied_def add_applied_def add_considered_def add_missing_def add_error_def)+

lemma patch_all_simps:
  "patch_all E now [] w = (Inr (), w)"
  "patch_all E now (resp # resps) w =
     (case apply_peer_patch E resp now w of
        (Inl e, w1) \<Rightarrow> (Inl e, w1) | (Inr _, w1) \<Rightarrow> patch_all E now resps w1)"
  by (simp_all add: patch_all_def bnd_def ret_def split: prod.splits sum.splits)

lemma slot_numbers_upt: "q < m \<Longrightarrow> [q..<m] = q # [q + 1..<m]"
  by (simp add: upt_conv_Cons)

text \<open>
  A walk from the slot of number \<open>q\<close>: it goes on to the end of the range or to the cap, whichever
  comes first, unless a patch fails before.
\<close>

lemma replay_slots_run:
  assumes "ro_thread_count opts = n" "snd (ro_to opts) < n" "fst (ro_to opts) \<noteq> - 1"
  shows "snd cur < n \<Longrightarrow> slot_number n cur = q \<Longrightarrow> stop = min (q + left) (slot_number n (ro_to opts) + 1) \<Longrightarrow>
    fetch_all net seeds (ro_parts opts) (map (slot_numbered n) [q..<stop]) pl = (rs, pl') \<Longrightarrow>
    patch_all E now (responses rs) w = (Inr (), w') \<Longrightarrow>
    replay_slots E net seeds opts now left cur rep (pl, w) =
      (if slot_number n (ro_to opts) < q + left then Inr (tallied rs rep)
       else Inl (Other (''replay: hit --max-slots cap of '' @ show_nat (ro_max_slots opts))), pl', w')"
proof (induction left arbitrary: cur q rep pl w rs)
  case 0
  then show ?case
    by (cases "slot_number n (ro_to opts) < q")
      (simp_all add: replay_slots.simps pair_le_number [OF 0(1) assms(2)] patch_all_simps min_def)
next
  case (Suc left)
  show ?case
  proof (cases "slot_number n (ro_to opts) < q")
    case True
    with Suc.prems show ?thesis
      by (simp add: replay_slots.simps pair_le_number [OF Suc.prems(1) assms(2)] patch_all_simps min_def)
  next
    case False
    let ?next = "next_slot cur n"
    have le: "pair_le cur (ro_to opts)"
      using False Suc.prems(2) by (simp add: pair_le_number [OF Suc.prems(1) assms(2)])
    then have "fst cur \<noteq> - 1"
      using assms(3) by (auto simp: pair_le_def)
    note nx = next_slot_number [OF Suc.prems(1) this]
    have l: "stop = min (q + 1 + left) (slot_number n (ro_to opts) + 1)" "q < stop"
      using Suc.prems(3) False by auto
    have cur: "slot_numbered n q = cur"
      using slot_numbered_number [OF Suc.prems(1)] Suc.prems(2) by simp
    obtain r pl1 where f: "fetch_final_slot net (seeds cur) (fst cur) (snd cur) (ro_parts opts) pl = (r, pl1)"
      by (cases "fetch_final_slot net (seeds cur) (fst cur) (snd cur) (ro_parts opts) pl")
    obtain rs1 where rest: "fetch_all net seeds (ro_parts opts) (map (slot_numbered n) [q + 1..<stop]) pl1 = (rs1, pl')"
        "rs = r # rs1"
      using Suc.prems(4) by (auto simp: slot_numbers_upt [OF l(2)] cur f split: prod.splits)
    note IH = Suc.IH [OF nx(2) _ l(1) rest(1)]
    show ?thesis
    proof (cases r)
      case (Inl e)
      with Suc.prems(2,5) rest(2) IH [of w "add_error (add_considered rep)"] show ?thesis
        by (simp add: replay_slots.simps [of E net seeds opts now "Suc left"] le f assms(1) nx(1) Let_def)
    next
      case (Inr found)
      show ?thesis
      proof (cases found)
        case None
        with Inr Suc.prems(2,5) rest(2) IH [of w "add_missing (add_considered rep)"] show ?thesis
          by (simp add: replay_slots.simps [of E net seeds opts now "Suc left"] le f assms(1) nx(1) Let_def)
      next
        case (Some resp)
        obtain out w1 where a: "apply_peer_patch E resp now w = (Inr out, w1)"
            "patch_all E now (responses rs1) w1 = (Inr (), w')"
          using Suc.prems(5) Inr Some rest(2) by (auto simp: patch_all_simps split: prod.splits sum.splits)
        with Inr Some Suc.prems(2) rest(2) IH [OF _ a(2), of "add_applied (add_considered rep)"] show ?thesis
          by (simp add: replay_slots.simps [of E net seeds opts now "Suc left"] le f assms(1) nx(1) Let_def)
      qed
    qed
  qed
qed

lemma answers_counted:
  "length rs = length (responses rs) + length (filter (\<lambda>r. r = Inr None) rs) + length (filter isl rs)"
proof (induction rs)
  case (Cons r rs)
  then show ?case
    by (cases r rule: sum.exhaust; cases "projr r") auto
qed simp

lemma fetch_all_length: "fetch_all net seeds parts xs pl = (rs, pl') \<Longrightarrow> length rs = length xs"
  by (induction xs arbitrary: pl rs) (auto split: prod.splits)

lemma parse_slot_arg_thread: "parse_slot_arg t b n = Inr x \<Longrightarrow> snd x < n"
  by (auto simp: parse_slot_arg_def rbind_eq_Inr not_le split: prod.splits if_splits)

lemma cli_replay_run:
  assumes "\<not> pool_is_empty pl" "ro_thread_count opts = n" "snd (ro_from opts) < n" "snd (ro_to opts) < n"
    and "pair_le (ro_from opts) (ro_to opts)" "fst (ro_to opts) \<noteq> - 1"
    and "first = slot_number n (ro_from opts)" "stop = slot_number n (ro_to opts) + 1"
    and "slots = map (slot_numbered n) [first..<min (first + ro_max_slots opts) stop]"
    and "fetch_all net seeds (ro_parts opts) slots pl = (rs, pl')"
    and "patch_all E now (responses rs) \<lparr>w_db = s, w_sse = sse_new 16, w_metrics = None\<rparr> = (Inr (), w')"
  shows "cli_replay E net seeds opts now (pl, s) =
    (if stop - first \<le> ro_max_slots opts then Inr (tallied rs replay_report_default)
     else Inl (Other (''replay: hit --max-slots cap of '' @ show_nat (ro_max_slots opts))), pl', w_db w')"
proof -
  have "n \<noteq> 0" using assms(3) by auto
  moreover have "slot_number n (ro_to opts) < first + ro_max_slots opts \<longleftrightarrow> stop - first \<le> ro_max_slots opts"
    using assms(5,7,8) by (auto simp: pair_le_number [OF assms(3,4)])
  moreover note replay_slots_run [OF assms(2,4,6,3) assms(7) [symmetric] _ assms(10) [unfolded assms(9)] assms(11),
      of "ro_max_slots opts" replay_report_default]
  ultimately show ?thesis
    using assms(1,2,5,8) by (simp add: cli_replay_def)
qed

end
