(* ===== verification/Props_Cli.thy ===== *)
theory Props_Cli
  imports Cli_Laws Props_Transport Reference_Node
begin

text \<open>
  The properties of the operator's commands: what the consistency check reports, that a rebuild of the
  indexes leaves it nothing to report, and what a replay of a range does.
\<close>

section \<open>The consistency check\<close>



section \<open>Rebuilding the indexes\<close>


definition ref_meta :: meta_row where
  "ref_meta = \<lparr>mr_network = ''main'', mr_genesis_timestamp_ms = 1, mr_t0_ms = 16000, mr_thread_count = 32,
     mr_last_final_slot = None, mr_last_candidate_slot = None, mr_build_version = '''', mr_created_at_ms = 2,
     mr_updated_at_ms = 3\<rparr>"


section \<open>Replaying a range\<close>

text \<open>
  C30.  A replay asks the peers for every slot of the range once, in the order of the chain, and applies what they
  answer in that order.  Its report counts the slots of the range, and each under exactly one of applied,
  missing and error.  A range of more slots than the cap ends in the error after \<open>max_slots\<close> slots, with their
  patches applied.
\<close>

theorem replay_accounts:
  assumes "\<not> pool_is_empty pl" "ro_thread_count opts = n"
    and "parse_slot_arg from_text False n = Inr (ro_from opts)" "parse_slot_arg to_text True n = Inr (ro_to opts)"
    and "pair_le (ro_from opts) (ro_to opts)" "fst (ro_to opts) \<noteq> - 1"
    and "first = slot_number n (ro_from opts)" "stop = slot_number n (ro_to opts) + 1"
    and "slots = map (slot_numbered n) [first..<min (first + ro_max_slots opts) stop]"
    and "fetch_all net seeds (ro_parts opts) slots pl = (answers, pl')"
    and "patch_all E now (responses answers) \<lparr>w_db = s, w_sse = sse_new 16, w_metrics = None\<rparr> = (Inr (), w')"
  shows "\<exists>r. cli_replay E net seeds opts now (pl, s) = (r, pl', w_db w') \<and>
    (stop - first \<le> ro_max_slots opts \<longrightarrow> (\<exists>report. r = Inr report \<and>
      rr_considered report = stop - first \<and> rr_applied report = length (responses answers) \<and>
      rr_considered report = rr_applied report + rr_missing report + rr_errors report)) \<and>
    (ro_max_slots opts < stop - first \<longrightarrow> isl r)"
proof -
  note run = cli_replay_run [OF assms(1,2) parse_slot_arg_thread [OF assms(3)] parse_slot_arg_thread [OF assms(4)] assms(5-11)]
  have "length answers = length slots" by (rule fetch_all_length [OF assms(10)])
  then have "stop - first \<le> ro_max_slots opts \<Longrightarrow> length answers = stop - first"
    by (auto simp: assms(9) min_def)
  with run answers_counted [of answers] show ?thesis
    by (simp add: tallied_def replay_report_default_def)
qed

text \<open>One slot of a chain with one thread; the only configured peer turns out to be ourselves.\<close>

definition ref_mirror :: network where
  "ref_mirror = ref_net\<lparr>rpc_health := \<lambda>t u q. Inr \<lparr>hr_peer_id = ''me'',
        hr_network = ''net'', hr_build_version = [], hr_last_final_period = 9, hr_last_final_thread = 0,
        hr_now_ms = 0, hr_schema_version = 2\<rparr>\<rparr>"

definition ref_alone :: pool where
  "ref_alone = pool_new ref_mirror [(''a'', ''u'')] ref_local ref_shared ''net''"

definition ref_range :: replay_opts where
  "ref_range = replay_opts_default\<lparr>ro_to := (0, 0), ro_thread_count := 1\<rparr>"

lemma known_aliases_code [code]:
  "known_aliases hs = set (map ph_name (filter (\<lambda>h. \<not> Option.is_none (ph_remote_peer_id h)) hs))"
  by (auto simp: known_aliases_def Option.is_none_def)

lemma ref_alone_has_no_peers: "fst (logical_peer_ids ref_mirror 0 ref_alone) = Inr []"
proof -
  have "case fst (logical_peer_ids ref_mirror 0 ref_alone) of Inr x \<Rightarrow> x = [] | _ \<Rightarrow> False"
    by code_simp
  then show ?thesis by (simp split: sum.splits)
qed

lemma parse_u64_zero: "parse_u64 ''0'' = Some 0"
  by (simp add: parse_u64_def parse_unsigned_def digit_value_def)

lemma parse_slot_zero: "parse_slot_arg ''0'' b 1 = Inr (0, 0)"
proof -
  have "split_once CHR '':'' ''0'' = None" by (simp add: split_once_def)
  then show ?thesis
    by (simp add: parse_slot_arg_def parse_u64_zero rbind_def ok_or_def sat_sub_def del: One_nat_def)
qed

theorem replay_accounts_witness:
  "\<exists>report pl'. cli_replay ref_node ref_mirror (\<lambda>_. 0) ref_range 9 (ref_alone, []) = (Inr report, pl', []) \<and>
    rr_considered report = 1 \<and> rr_applied report = 0"
proof -
  obtain pl' where f: "logical_peer_ids ref_mirror 0 ref_alone = (Inr [], pl')"
    using ref_alone_has_no_peers by (metis prod.collapse)
  have fetched: "fetch_all ref_mirror (\<lambda>_. 0) (ro_parts ref_range) [(0, 0)] ref_alone = ([Inr None], pl')"
    by (simp add: fetch_final_slot_def bnd_def ret_def f)
  have range: "[(0, 0)] = map (slot_numbered 1) [0..<min (0 + ro_max_slots ref_range) 1]"
    by (simp add: slot_numbered_def ref_range_def replay_opts_default_def)
  have "\<not> pool_is_empty ref_alone" by code_simp
  moreover have "ro_thread_count ref_range = 1" "ro_from ref_range = (0, 0)" "ro_to ref_range = (0, 0)"
    by (simp_all add: ref_range_def replay_opts_default_def)
  moreover have "1 \<le> ro_max_slots ref_range" by (simp add: ref_range_def replay_opts_default_def)
  ultimately show ?thesis
    using replay_accounts [of ref_alone ref_range 1 "''0''" "''0''" 0 1 "[(0, 0)]" ref_mirror "\<lambda>_. 0" "[Inr None]" pl'
      ref_node 9 "[]" "\<lparr>w_db = [], w_sse = sse_new 16, w_metrics = None\<rparr>", OF _ _ _ _ _ _ _ _ range fetched]
    by (auto simp: parse_slot_zero pair_le_def slot_number_def patch_all_simps responses_def List.map_filter_def)
qed

end
