(* ===== verification/Config.thy ===== *)
theory Config
  imports Cli
begin

text \<open>
  The configuration (\<open>config.rs\<close>): its sections with their defaults, the overrides from the environment,
  and the validation at load.  The TOML reader is a crate, a parameter of \<open>load\<close>.  Peers are a map
  sorted by name, kept as an association list.
\<close>

section \<open>Sections\<close>

record general_section =
  gs_network :: string

record node_section =
  ns_grpc_url :: string
  ns_connect_timeout_ms :: u64
  ns_keepalive_ms :: u64

record db_section =
  ds_path :: string
  ds_compression :: string
  ds_write_buffer_size_mb :: u64

record peer_section =
  ps_enabled :: bool
  ps_bind :: string
  ps_peer_id :: string
  ps_advertise_url :: string
  ps_peers :: "(string \<times> string) list"
  ps_scan_interval_ms :: u64
  ps_stale_candidate_periods :: u64
  ps_recent_incomplete_periods :: u64

record legacy_ddb_section =
  ld_enabled :: bool
  ld_region :: string
  ld_access_key_id :: string
  ld_secret_access_key :: string
  ld_session_token :: string
  ld_blocks_table :: string
  ld_operations_table :: string
  ld_endorsements_table :: string
  ld_max_period :: "u64 option"
  ld_min_period :: "u64 option"
  ld_rate_limit_ms :: u64
  ld_concurrency :: nat
  ld_connect_timeout_ms :: u64
  ld_request_timeout_ms :: u64

record streams_section =
  ss_filled_blocks :: bool
  ss_slot_execution_outputs :: bool
  ss_transfers :: bool

record rest_section =
  rs_bind :: string
  rs_cors :: "string list"
  rs_sse_ring_buffer_size :: nat
  rs_sse_heartbeat_secs :: u64
  rs_default_page_size :: nat
  rs_max_page_size :: nat

record period_range =
  pr_range_enabled :: bool
  pr_from_period :: u64
  pr_to_period :: u64

record pull_section = period_range +
  pu_block :: bool
  pu_exec_output :: bool
  pu_transfers :: bool
  pu_require_sc_ops :: bool

record repair_section =
  rp_recheck_periods :: "(u64 \<times> u64) list"
  rp_force_miss :: "(u64 \<times> u8) list"
  rp_reconstruct_transfers :: period_range
  rp_pull_parts :: "pull_section list"
  rp_legacy_sub_transfers :: period_range

record config =
  cf_general :: general_section
  cf_node :: node_section
  cf_db :: db_section
  cf_rest :: rest_section
  cf_peer :: peer_section
  cf_streams :: streams_section
  cf_legacy_ddb :: legacy_ddb_section
  cf_repair :: repair_section

section \<open>Defaults\<close>

definition HARD_MAX_PAGE_SIZE :: nat where "HARD_MAX_PAGE_SIZE = 100"

definition node_default :: "string \<Rightarrow> node_section" where
  "node_default url = \<lparr>ns_grpc_url = url, ns_connect_timeout_ms = 5000, ns_keepalive_ms = 15000\<rparr>"

definition db_default :: "string \<Rightarrow> db_section" where
  "db_default path = \<lparr>ds_path = path, ds_compression = ''lz4'', ds_write_buffer_size_mb = 64\<rparr>"

definition rest_default :: rest_section where
  "rest_default =
     \<lparr>rs_bind = ''0.0.0.0:8080'', rs_cors = [''*''], rs_sse_ring_buffer_size = 10000, rs_sse_heartbeat_secs = 20,
      rs_default_page_size = 25, rs_max_page_size = HARD_MAX_PAGE_SIZE\<rparr>"

definition peer_default :: peer_section where
  "peer_default =
     \<lparr>ps_enabled = True, ps_bind = ''127.0.0.1:9443'', ps_peer_id = [], ps_advertise_url = [], ps_peers = [],
      ps_scan_interval_ms = 50, ps_stale_candidate_periods = 64, ps_recent_incomplete_periods = 1350\<rparr>"

definition legacy_ddb_default :: legacy_ddb_section where
  "legacy_ddb_default =
     \<lparr>ld_enabled = False, ld_region = ''eu-west-3'', ld_access_key_id = [], ld_secret_access_key = [],
      ld_session_token = [], ld_blocks_table = ''BlocksMainnet'', ld_operations_table = ''OperationsMainnet'',
      ld_endorsements_table = ''EndorsementsMainnet'', ld_max_period = None, ld_min_period = None,
      ld_rate_limit_ms = 50, ld_concurrency = 1, ld_connect_timeout_ms = 5000, ld_request_timeout_ms = 15000\<rparr>"

definition streams_default :: streams_section where
  "streams_default = \<lparr>ss_filled_blocks = True, ss_slot_execution_outputs = True, ss_transfers = True\<rparr>"

definition range_default :: period_range where
  "range_default = \<lparr>pr_range_enabled = False, pr_from_period = 0, pr_to_period = 0\<rparr>"

definition repair_default :: repair_section where
  "repair_default =
     \<lparr>rp_recheck_periods = [], rp_force_miss = [], rp_reconstruct_transfers = range_default, rp_pull_parts = [],
      rp_legacy_sub_transfers = range_default\<rparr>"

text \<open>A file with the mandatory keys only.\<close>

definition config_default :: "string \<Rightarrow> string \<Rightarrow> string \<Rightarrow> config" where
  "config_default network url path =
     \<lparr>cf_general = \<lparr>gs_network = network\<rparr>, cf_node = node_default url, cf_db = db_default path, cf_rest = rest_default,
      cf_peer = peer_default, cf_streams = streams_default, cf_legacy_ddb = legacy_ddb_default,
      cf_repair = repair_default\<rparr>"

definition streams_wanted :: "streams_section \<Rightarrow> streams_expected" where
  "streams_wanted ss = \<lparr>se_filled_blocks = ss_filled_blocks ss,
     se_slot_execution_outputs = ss_slot_execution_outputs ss, se_transfers = ss_transfers ss\<rparr>"

section \<open>Texts\<close>

text \<open>\<open>str::trim\<close> on white space of ASCII, \<open>str::split(c)\<close> and \<open>to_ascii_lowercase\<close>.\<close>

definition is_space :: "char \<Rightarrow> bool" where
  "is_space c \<longleftrightarrow> c = CHR '' '' \<or> 9 \<le> (of_char c :: nat) \<and> of_char c \<le> (13 :: nat)"

definition trim :: "string \<Rightarrow> string" where
  "trim t = rev (dropWhile is_space (rev (dropWhile is_space t)))"

fun split_on :: "char \<Rightarrow> string \<Rightarrow> string list" where
  "split_on c [] = [[]]"
| "split_on c (d # ds) =
     (if d = c then [] # split_on c ds
      else (case split_on c ds of p # ps \<Rightarrow> (d # p) # ps | [] \<Rightarrow> [[d]]))"

definition lower :: "char \<Rightarrow> char" where
  "lower c = (if 65 \<le> (of_char c :: nat) \<and> of_char c \<le> (90 :: nat) then char_of (of_char c + 32 :: nat) else c)"

definition parse_bool :: "string \<Rightarrow> bool" where
  "parse_bool v \<longleftrightarrow> map lower v \<in> {''1'', ''true'', ''yes'', ''on''}"

definition parse_var :: "(string \<Rightarrow> 'a option) \<Rightarrow> string \<Rightarrow> string \<Rightarrow> error + 'a" where
  "parse_var p v var = ok_or (Config (''parse '' @ var @ ''='' @ v @ '': '')) (p v)"

section \<open>Overrides\<close>

type_synonym environment = "string \<Rightarrow> string option"

text \<open>\<open>BTreeMap::insert\<close> on the sorted list of entries.\<close>

fun peer_less :: "string \<Rightarrow> string \<Rightarrow> bool" where
  "peer_less [] [] \<longleftrightarrow> False"
| "peer_less [] (d # ds) \<longleftrightarrow> True"
| "peer_less (c # cs) [] \<longleftrightarrow> False"
| "peer_less (c # cs) (d # ds) \<longleftrightarrow> (of_char c :: nat) < of_char d \<or> c = d \<and> peer_less cs ds"

fun insert_peer :: "string \<Rightarrow> string \<Rightarrow> (string \<times> string) list \<Rightarrow> (string \<times> string) list" where
  "insert_peer n u [] = [(n, u)]"
| "insert_peer n u ((m, w) # rest) =
     (if n = m then (n, u) # rest
      else if peer_less n m then (n, u) # (m, w) # rest
      else (m, w) # insert_peer n u rest)"

fun insert_parts :: "string list \<Rightarrow> (string \<times> string) list \<Rightarrow> error + (string \<times> string) list" where
  "insert_parts [] known = Inr known"
| "insert_parts (part # parts) known =
     (case split_once CHR ''='' part of
        None \<Rightarrow> Inl (Config (''INDEXER_PEER_PEERS: missing '' @ [CHR 0x27] @ ''='' @ [CHR 0x27] @ '' in '' @ part))
      | Some (n, u) \<Rightarrow> insert_parts parts (insert_peer (trim n) (trim u) known))"

definition parse_peers :: "string \<Rightarrow> error + (string \<times> string) list" where
  "parse_peers v = insert_parts (filter (\<lambda>p. p \<noteq> []) (map trim (split_on CHR '','' v))) []"

type_synonym override = "string \<times> (string \<Rightarrow> config \<Rightarrow> error + config)"

definition text_var :: "string \<Rightarrow> (string \<Rightarrow> config \<Rightarrow> config) \<Rightarrow> override" where
  "text_var var upd = (var, \<lambda>v c. Inr (upd v c))"

definition bool_var :: "string \<Rightarrow> (bool \<Rightarrow> config \<Rightarrow> config) \<Rightarrow> override" where
  "bool_var var upd = (var, \<lambda>v c. Inr (upd (parse_bool v) c))"

definition u64_var :: "string \<Rightarrow> (u64 \<Rightarrow> config \<Rightarrow> config) \<Rightarrow> override" where
  "u64_var var upd = (var, \<lambda>v c. rbind (parse_var parse_u64 v var) (\<lambda>n. Inr (upd n c)))"

definition usize_var :: "string \<Rightarrow> (nat \<Rightarrow> config \<Rightarrow> config) \<Rightarrow> override" where
  "usize_var var upd = (var, \<lambda>v c. rbind (parse_var (parse_unsigned (2 ^ 64)) v var) (\<lambda>n. Inr (upd n c)))"

definition peers_var :: override where
  "peers_var = (''INDEXER_PEER_PEERS'',
     \<lambda>v c. rbind (parse_peers v) (\<lambda>ps. Inr (c\<lparr>cf_peer := (cf_peer c)\<lparr>ps_peers := ps\<rparr>\<rparr>)))"

definition in_rest :: "(rest_section \<Rightarrow> rest_section) \<Rightarrow> config \<Rightarrow> config" where
  "in_rest f c = c\<lparr>cf_rest := f (cf_rest c)\<rparr>"

definition in_peer :: "(peer_section \<Rightarrow> peer_section) \<Rightarrow> config \<Rightarrow> config" where
  "in_peer f c = c\<lparr>cf_peer := f (cf_peer c)\<rparr>"

definition in_streams :: "(streams_section \<Rightarrow> streams_section) \<Rightarrow> config \<Rightarrow> config" where
  "in_streams f c = c\<lparr>cf_streams := f (cf_streams c)\<rparr>"

definition in_ddb :: "(legacy_ddb_section \<Rightarrow> legacy_ddb_section) \<Rightarrow> config \<Rightarrow> config" where
  "in_ddb f c = c\<lparr>cf_legacy_ddb := f (cf_legacy_ddb c)\<rparr>"

definition env_overrides :: "override list" where
  "env_overrides =
     [text_var ''INDEXER_GENERAL_NETWORK'' (\<lambda>v c. c\<lparr>cf_general := (cf_general c)\<lparr>gs_network := v\<rparr>\<rparr>),
      text_var ''INDEXER_NODE_GRPC_URL'' (\<lambda>v c. c\<lparr>cf_node := (cf_node c)\<lparr>ns_grpc_url := v\<rparr>\<rparr>),
      u64_var ''INDEXER_NODE_CONNECT_TIMEOUT_MS'' (\<lambda>n c. c\<lparr>cf_node := (cf_node c)\<lparr>ns_connect_timeout_ms := n\<rparr>\<rparr>),
      text_var ''INDEXER_DB_PATH'' (\<lambda>v c. c\<lparr>cf_db := (cf_db c)\<lparr>ds_path := v\<rparr>\<rparr>),
      text_var ''INDEXER_REST_BIND'' (\<lambda>v. in_rest (\<lambda>r. r\<lparr>rs_bind := v\<rparr>)),
      text_var ''INDEXER_REST_CORS'' (\<lambda>v. in_rest (\<lambda>r. r\<lparr>rs_cors := map trim (split_on CHR '','' v)\<rparr>)),
      u64_var ''INDEXER_REST_SSE_HEARTBEAT_SECS'' (\<lambda>n. in_rest (\<lambda>r. r\<lparr>rs_sse_heartbeat_secs := n\<rparr>)),
      text_var ''INDEXER_PEER_BIND'' (\<lambda>v. in_peer (\<lambda>p. p\<lparr>ps_bind := v\<rparr>)),
      text_var ''INDEXER_PEER_ID'' (\<lambda>v. in_peer (\<lambda>p. p\<lparr>ps_peer_id := v\<rparr>)),
      bool_var ''INDEXER_PEER_ENABLED'' (\<lambda>b. in_peer (\<lambda>p. p\<lparr>ps_enabled := b\<rparr>)),
      bool_var ''INDEXER_STREAMS_FILLED_BLOCKS'' (\<lambda>b. in_streams (\<lambda>s. s\<lparr>ss_filled_blocks := b\<rparr>)),
      bool_var ''INDEXER_STREAMS_SLOT_EXECUTION_OUTPUTS'' (\<lambda>b. in_streams (\<lambda>s. s\<lparr>ss_slot_execution_outputs := b\<rparr>)),
      bool_var ''INDEXER_STREAMS_TRANSFERS'' (\<lambda>b. in_streams (\<lambda>s. s\<lparr>ss_transfers := b\<rparr>)),
      peers_var,
      bool_var ''INDEXER_LEGACY_DDB_ENABLED'' (\<lambda>b. in_ddb (\<lambda>l. l\<lparr>ld_enabled := b\<rparr>)),
      text_var ''INDEXER_LEGACY_DDB_REGION'' (\<lambda>v. in_ddb (\<lambda>l. l\<lparr>ld_region := v\<rparr>)),
      text_var ''INDEXER_LEGACY_DDB_ACCESS_KEY_ID'' (\<lambda>v. in_ddb (\<lambda>l. l\<lparr>ld_access_key_id := v\<rparr>)),
      text_var ''INDEXER_LEGACY_DDB_SECRET_ACCESS_KEY'' (\<lambda>v. in_ddb (\<lambda>l. l\<lparr>ld_secret_access_key := v\<rparr>)),
      text_var ''INDEXER_LEGACY_DDB_SESSION_TOKEN'' (\<lambda>v. in_ddb (\<lambda>l. l\<lparr>ld_session_token := v\<rparr>)),
      u64_var ''INDEXER_LEGACY_DDB_MAX_PERIOD'' (\<lambda>n. in_ddb (\<lambda>l. l\<lparr>ld_max_period := Some n\<rparr>)),
      u64_var ''INDEXER_LEGACY_DDB_MIN_PERIOD'' (\<lambda>n. in_ddb (\<lambda>l. l\<lparr>ld_min_period := Some n\<rparr>)),
      u64_var ''INDEXER_LEGACY_DDB_RATE_LIMIT_MS'' (\<lambda>n. in_ddb (\<lambda>l. l\<lparr>ld_rate_limit_ms := n\<rparr>)),
      usize_var ''INDEXER_LEGACY_DDB_CONCURRENCY'' (\<lambda>n. in_ddb (\<lambda>l. l\<lparr>ld_concurrency := n\<rparr>)),
      text_var ''INDEXER_LEGACY_DDB_BLOCKS_TABLE'' (\<lambda>v. in_ddb (\<lambda>l. l\<lparr>ld_blocks_table := v\<rparr>)),
      text_var ''INDEXER_LEGACY_DDB_OPERATIONS_TABLE'' (\<lambda>v. in_ddb (\<lambda>l. l\<lparr>ld_operations_table := v\<rparr>)),
      text_var ''INDEXER_LEGACY_DDB_ENDORSEMENTS_TABLE'' (\<lambda>v. in_ddb (\<lambda>l. l\<lparr>ld_endorsements_table := v\<rparr>))]"

fun apply_overrides :: "environment \<Rightarrow> override list \<Rightarrow> config \<Rightarrow> error + config" where
  "apply_overrides env [] c = Inr c"
| "apply_overrides env ((var, f) # rest) c =
     rbind (case env var of None \<Rightarrow> Inr c | Some v \<Rightarrow> f v c) (apply_overrides env rest)"

definition apply_env :: "environment \<Rightarrow> config \<Rightarrow> error + config" where
  "apply_env env c = apply_overrides env env_overrides c"

section \<open>Validation\<close>

definition require :: "bool \<Rightarrow> string \<Rightarrow> error + unit" where
  "require b msg = (if b then Inr () else Inl (Config msg))"

definition blank :: "string \<Rightarrow> bool" where
  "blank t \<longleftrightarrow> trim t = []"

fun check_recheck :: "(u64 \<times> u64) list \<Rightarrow> error + unit" where
  "check_recheck [] = Inr ()"
| "check_recheck ((lo, hi) # rest) =
     rbind (require (lo \<le> hi)
       (''repair.recheck_periods: range ['' @ show_nat (unat lo) @ '', '' @ show_nat (unat hi) @ ''] has lo > hi''))
       (\<lambda>_. check_recheck rest)"

definition range_ok :: "'x period_range_scheme \<Rightarrow> bool" where
  "range_ok r \<longleftrightarrow> pr_to_period r = 0 \<or> pr_from_period r \<le> pr_to_period r"

fun check_pulls :: "pull_section list \<Rightarrow> error + unit" where
  "check_pulls [] = Inr ()"
| "check_pulls (pp # rest) =
     (if \<not> pr_range_enabled pp then check_pulls rest
      else rbind (require (range_ok pp) ''repair.pull_parts: from_period > to_period'') (\<lambda>_.
           rbind (require (pu_block pp \<or> pu_exec_output pp \<or> pu_transfers pp)
             ''repair.pull_parts: select at least one of block / exec_output / transfers'') (\<lambda>_.
           check_pulls rest)))"

definition validate :: "config \<Rightarrow> error + unit" where
  "validate c =
     (let rest = cf_rest c; rt = rp_reconstruct_transfers (cf_repair c);
          ls = rp_legacy_sub_transfers (cf_repair c); ld = cf_legacy_ddb c in
      rbind (require (\<not> blank (gs_network (cf_general c))) ''general.network must not be empty'') (\<lambda>_.
      rbind (require (take 4 (ns_grpc_url (cf_node c)) = ''http'')
        (''node.grpc_url must be http(s)://'' @ map char_of [226 :: nat, 128, 166] @ '', got '' @ ns_grpc_url (cf_node c))) (\<lambda>_.
      rbind (require (\<not> blank (ds_path (cf_db c))) ''db.path must not be empty'') (\<lambda>_.
      rbind (require (rs_default_page_size rest \<le> rs_max_page_size rest)
        ''rest.max_page_size < rest.default_page_size'') (\<lambda>_.
      rbind (require (rs_max_page_size rest \<le> HARD_MAX_PAGE_SIZE)
        (''rest.max_page_size must be <= '' @ show_nat HARD_MAX_PAGE_SIZE)) (\<lambda>_.
      rbind (require (8 \<le> ps_stale_candidate_periods (cf_peer c))
        ''peer.stale_candidate_periods must be >= 8 (live candidates finalise within a few periods)'') (\<lambda>_.
      rbind (check_recheck (rp_recheck_periods (cf_repair c))) (\<lambda>_.
      rbind (require (pr_range_enabled rt \<longrightarrow> range_ok rt)
        ''repair.reconstruct_transfers: from_period > to_period'') (\<lambda>_.
      rbind (check_pulls (rp_pull_parts (cf_repair c))) (\<lambda>_.
      rbind (if pr_range_enabled ls
             then rbind (require (range_ok ls) ''repair.legacy_sub_transfers: from_period > to_period'') (\<lambda>_.
                  require (\<not> blank (ld_access_key_id ld) \<and> \<not> blank (ld_secret_access_key ld))
                    ''repair.legacy_sub_transfers needs legacy_ddb credentials (INDEXER_LEGACY_DDB_* env)'')
             else Inr ()) (\<lambda>_.
      if ld_enabled ld
      then rbind (require (\<not> blank (ld_access_key_id ld))
             ''legacy_ddb.access_key_id is required when legacy_ddb.enabled = true'') (\<lambda>_.
           rbind (require (\<not> blank (ld_secret_access_key ld))
             ''legacy_ddb.secret_access_key is required when legacy_ddb.enabled = true'') (\<lambda>_.
           require (\<not> blank (ld_region ld)) ''legacy_ddb.region must not be empty''))
      else Inr ())))))))))))"

text \<open>\<open>file\<close> is the text of the file, if it can be read.\<close>

definition load :: "(string \<Rightarrow> config option) \<Rightarrow> environment \<Rightarrow> string option \<Rightarrow> error + config" where
  "load toml env file =
     rbind (ok_or (Config ''read : '') file) (\<lambda>t.
     rbind (ok_or (Config ''parse TOML: '') (toml t)) (\<lambda>c.
     rbind (apply_env env c) (\<lambda>c1.
     rbind (validate c1) (\<lambda>_. Inr c1))))"

end
