(* ===== verification/Server.thy ===== *)
theory Server
  imports Config Oneshot Worker
begin

text \<open>
  The start of the server (\<open>server.rs\<close>): the guard on the network of the database, and the worker tasks it
  starts with their configurations.  What the node answers at the start, whether the client of the archive can be
  built, and the host name are parameters.  Sockets, signals and the spawning itself are left out.
\<close>

section \<open>The meta row\<close>

record node_chain_config =
  nc_genesis_timestamp_ms :: i64
  nc_t0_ms :: i64
  nc_thread_count :: u8
  nc_chain_id :: u64

definition stamp_meta :: "string \<Rightarrow> node_chain_config option \<Rightarrow> i64 \<Rightarrow> meta_row \<Rightarrow> meta_row" where
  "stamp_meta version node_cfg now_ms m =
     (let updated = m\<lparr>mr_updated_at_ms := now_ms, mr_build_version := version\<rparr> in
      case node_cfg of
        None \<Rightarrow> updated
      | Some c \<Rightarrow> updated\<lparr>mr_genesis_timestamp_ms := nc_genesis_timestamp_ms c, mr_t0_ms := nc_t0_ms c,
                   mr_thread_count := nc_thread_count c\<rparr>)"

definition first_meta :: "string \<Rightarrow> string \<Rightarrow> node_chain_config option \<Rightarrow> i64 \<Rightarrow> meta_row" where
  "first_meta network version node_cfg now_ms =
     \<lparr>mr_network = network,
      mr_genesis_timestamp_ms = unwrap_or 0 (map_option nc_genesis_timestamp_ms node_cfg),
      mr_t0_ms = unwrap_or 16000 (map_option nc_t0_ms node_cfg),
      mr_thread_count = unwrap_or 32 (map_option nc_thread_count node_cfg),
      mr_last_final_slot = None, mr_last_candidate_slot = None, mr_build_version = version,
      mr_created_at_ms = now_ms, mr_updated_at_ms = now_ms\<rparr>"

definition guard_network ::
  "('s, 'v, 'x) ext_scheme \<Rightarrow> string \<Rightarrow> string \<Rightarrow> node_chain_config option \<Rightarrow> i64 \<Rightarrow> ('s, unit) dbm" where
  "guard_network E network version node_cfg now_ms s =
     bnd (lift (read_meta E s)) (\<lambda>r. case r of
       Some m \<Rightarrow> if mr_network m \<noteq> network then fail (NetworkMismatch (mr_network m) network)
                 else write_meta E (stamp_meta version node_cfg now_ms m)
     | None \<Rightarrow> write_meta E (first_meta network version node_cfg now_ms)) s"

section \<open>Configurations of the workers\<close>

definition ring_size :: "config \<Rightarrow> nat" where
  "ring_size c = max (rs_sse_ring_buffer_size (cf_rest c)) 16"

definition own_peer_id :: "string option \<Rightarrow> config \<Rightarrow> string" where
  "own_peer_id hostname c =
     (if ps_peer_id (cf_peer c) = [] then unwrap_or ''indexer'' hostname else ps_peer_id (cf_peer c))"

definition local_identity :: "string option \<Rightarrow> string \<Rightarrow> config \<Rightarrow> local_peer_identity" where
  "local_identity hostname version c =
     \<lparr>li_peer_id = own_peer_id hostname c, li_network = gs_network (cf_general c), li_build_version = version,
      li_advertise_url = ps_advertise_url (cf_peer c)\<rparr>"

definition backfill_of :: "config \<Rightarrow> backfill_config" where
  "backfill_of c = backfill_default
     \<lparr>bc_parts := \<lparr>fp_block = ss_filled_blocks (cf_streams c),
        fp_exec_output = ss_slot_execution_outputs (cf_streams c), fp_transfers = ss_transfers (cf_streams c)\<rparr>,
      bc_expected_streams := streams_wanted (cf_streams c), bc_thread_count := 32,
      bc_stale_candidate_periods := ps_stale_candidate_periods (cf_peer c),
      bc_recent_incomplete_periods := ps_recent_incomplete_periods (cf_peer c),
      bc_recheck_ranges := rp_recheck_periods (cf_repair c)\<rparr>"

text \<open>An upper bound of 0 stands for the FINAL head at the start.\<close>

definition up_to :: "u64 \<Rightarrow> 'x period_range_scheme \<Rightarrow> u64" where
  "up_to head_now r = (if pr_to_period r = 0 then head_now else pr_to_period r)"

definition reconstruct_of :: "u64 \<Rightarrow> meta_row option \<Rightarrow> period_range \<Rightarrow> reconstruct_config" where
  "reconstruct_of head_now meta rt =
     \<lparr>rc_from_period = pr_from_period rt, rc_to_period = up_to head_now rt,
      rc_thread_count = unwrap_or 32 (map_option mr_thread_count meta),
      rc_genesis_timestamp_ms = unwrap_or 0 (map_option mr_genesis_timestamp_ms meta),
      rc_t0_ms = unwrap_or 16000 (map_option mr_t0_ms meta)\<rparr>"

definition pull_of :: "u64 \<Rightarrow> pull_section \<Rightarrow> pull_parts_config" where
  "pull_of head_now pp =
     \<lparr>pp_from_period = pr_from_period pp, pp_to_period = up_to head_now pp,
      pp_parts = \<lparr>fp_block = pu_block pp, fp_exec_output = pu_exec_output pp, fp_transfers = pu_transfers pp\<rparr>,
      pp_thread_count = 32, pp_require_sc_ops = pu_require_sc_ops pp\<rparr>"

definition sub_transfers_of :: "u64 \<Rightarrow> meta_row option \<Rightarrow> config \<Rightarrow> legacy_sub_transfers_config" where
  "sub_transfers_of head_now meta c =
     (let ls = rp_legacy_sub_transfers (cf_repair c) in
      \<lparr>ls_from_period = pr_from_period ls, ls_to_period = up_to head_now ls,
       ls_thread_count = unwrap_or 32 (map_option mr_thread_count meta),
       ls_genesis_timestamp_ms = unwrap_or 0 (map_option mr_genesis_timestamp_ms meta),
       ls_t0_ms = unwrap_or 16000 (map_option mr_t0_ms meta),
       ls_concurrency = max (ld_concurrency (cf_legacy_ddb c)) 1\<rparr>)"

definition oneshot_of :: "config \<Rightarrow> oneshot_config" where
  "oneshot_of c =
     (let ld = cf_legacy_ddb c in
      \<lparr>os_max_period = ld_max_period ld, os_min_period = ld_min_period ld, os_rate_limit_ms = ld_rate_limit_ms ld,
       os_thread_count = 32, os_concurrency = ld_concurrency ld\<rparr>)"

text \<open>\<open>LegacyDdbCfg::from_section\<close>, of which the model of the archive keeps what its lookups read.\<close>

definition ddb_cfg_of :: "legacy_ddb_section \<Rightarrow> legacy_ddb_cfg" where
  "ddb_cfg_of ld = \<lparr>lc_region = ld_region ld, lc_blocks_table = ld_blocks_table ld,
     lc_operations_table = ld_operations_table ld, lc_max_period = ld_max_period ld\<rparr>"

section \<open>What is started\<close>

datatype startup_task =
    RunBackfill backfill_config
  | RunReconstruct reconstruct_config
  | RunPull pull_parts_config
  | RunSubTransfers legacy_ddb_cfg legacy_sub_transfers_config
  | RunOneshot legacy_ddb_cfg oneshot_config

definition forced_verdict :: "u64 \<times> u8 \<Rightarrow> final_slot_response" where
  "forced_verdict = (\<lambda>(period, thread).
     response_default\<lparr>fr_period := period, fr_thread := ucast thread, fr_final_known := True, fr_is_miss := True\<rparr>)"

definition forced_events :: "config \<Rightarrow> event list" where
  "forced_events c = map (\<lambda>x. ForcedVerdict (forced_verdict x)) (rp_force_miss (cf_repair c))"

definition when_task :: "bool \<Rightarrow> startup_task \<Rightarrow> startup_task list" where
  "when_task b t = (if b then [t] else [])"

definition startup_tasks ::
  "('s, 'v, 'x) ext_scheme \<Rightarrow> (legacy_ddb_cfg \<Rightarrow> bool) \<Rightarrow> config \<Rightarrow> 's \<Rightarrow> error + startup_task list" where
  "startup_tasks E ddb_builds c s =
     rbind (read_last_final_slot E s) (\<lambda>head.
     rbind (read_meta E s) (\<lambda>meta.
       let head_now = unwrap_or 0 (map_option sl_period head); rep = cf_repair c; ld = cf_legacy_ddb c;
           ddb = ddb_cfg_of ld in
       Inr (when_task (ps_enabled (cf_peer c)) (RunBackfill (backfill_of c)) @
            when_task (pr_range_enabled (rp_reconstruct_transfers rep))
              (RunReconstruct (reconstruct_of head_now meta (rp_reconstruct_transfers rep))) @
            (if ps_enabled (cf_peer c)
             then map (\<lambda>pp. RunPull (pull_of head_now pp)) (filter pr_range_enabled (rp_pull_parts rep)) else []) @
            when_task (pr_range_enabled (rp_legacy_sub_transfers rep) \<and> ddb_builds ddb)
              (RunSubTransfers ddb (sub_transfers_of head_now meta c)) @
            when_task (ld_enabled ld \<and> ddb_builds ddb) (RunOneshot ddb (oneshot_of c)))))"

definition server_start ::
  "('s, 'v, 'x) ext_scheme \<Rightarrow> (legacy_ddb_cfg \<Rightarrow> bool) \<Rightarrow> string \<Rightarrow> node_chain_config option \<Rightarrow> i64 \<Rightarrow> config \<Rightarrow>
   ('s, startup_task list) dbm" where
  "server_start E ddb_builds version node_cfg now_ms c =
     bnd (ensure_schema_version E) (\<lambda>_.
     bnd (guard_network E (gs_network (cf_general c)) version node_cfg now_ms) (\<lambda>_ s.
       (startup_tasks E ddb_builds c s, s)))"

end
