(* ===== verification/Node_Query.thy ===== *)
theory Node_Query
  imports Server Config Ingest
begin

text \<open>
  The indexer as a client of the local node (\<open>grpc.rs\<close>).  First the questions it puts over gRPC: the chain
  configuration, the state and the bytecode of an address, and names of the name service.  The calls are
  parameters; messages are the parts of the node's types that the code reads.  A result of \<open>None\<close> where the
  type is an option of a result is a panic.

  Then the subscriptions to the node's streams and the health they report (\<open>metrics.rs\<close>).  What the network
  does is a list of sessions, one per turn of a consumer's loop; a run of the loop over such a list gives the
  events sent to the ingest worker, the pauses made and the state reported.  \<open>room\<close> is how many sends the
  channel still accepts; after that it is closed.  Clock readings come with the frames.
\<close>

section \<open>Messages\<close>

record compact_config =
  cc_genesis_timestamp :: "u64 option"
  cc_t0 :: "u64 option"
  cc_thread_count :: u32

record public_status =
  st_config :: "compact_config option"
  st_chain_id :: u64
  st_current_cycle :: u64

datatype request_item =
    AddressBalanceFinal string
  | AddressBalanceCandidate string
  | AddressRollsFinal string
  | AddressRollsCandidate string
  | AddressDeferredCreditsFinal string
  | AddressDeferredCreditsCandidate string
  | CycleInfos u64 "string list"
  | AddressBytecodeFinal string

record credit_entry =
  ce_slot :: "nslot option"
  ce_amount :: "native_amount option"

record staker_info =
  si_address :: string
  si_active_rolls :: "u64 option"

datatype response_item =
    AmountItem native_amount
  | RollCount u64
  | DeferredCreditsItem "credit_entry list"
  | CycleInfosItem "staker_info list"
  | BytesItem bytes
  | OtherItem

text \<open>A response is an error or empty (\<open>None\<close>), or a result with or without an item.\<close>

type_synonym query_response = "response_item option option"

record function_call =
  fc_max_gas :: u64
  fc_target_address :: string
  fc_target_function :: string
  fc_parameter :: bytes

text \<open>The node: the channel, and the calls on it, each of which may fail in transport.\<close>

record node_rpc =
  node_connect :: "error + unit"
  get_status :: "string + public_status option"
  query_state :: "request_item list \<Rightarrow> string + query_response list"
  execute_read_only_call :: "function_call \<Rightarrow> string + bytes option"

section \<open>Chain configuration\<close>

definition fetch_node_config :: "node_rpc \<Rightarrow> error + node_chain_config option" where
  "fetch_node_config N =
     rbind (node_connect N) (\<lambda>_.
     rbind (rmap_err (\<lambda>e. Other (''get_status: '' @ e)) (get_status N)) (\<lambda>status.
       Inr (case status of
              None \<Rightarrow> None
            | Some st \<Rightarrow>
                map_option (\<lambda>cfg.
                  \<lparr>nc_genesis_timestamp_ms = unwrap_or 0 (cc_genesis_timestamp cfg),
                   nc_t0_ms = unwrap_or 16000 (cc_t0 cfg),
                   nc_thread_count = ucast (min (cc_thread_count cfg) 255),
                   nc_chain_id = st_chain_id st\<rparr>) (st_config st))))"

section \<open>Amounts\<close>

text \<open>
  \<open>u128\<close> arithmetic: the multiplication saturates, the power wraps in a release build, and a division
  by zero panics.
\<close>

definition amount_nmas :: "native_amount \<Rightarrow> nat option" where
  "amount_nmas a =
     (let mantissa = unat (na_mantissa a); scale = unat (na_scale a) in
      if scale \<le> 9 then Some (min (mantissa * 10 ^ (9 - scale)) (2 ^ 128 - 1))
      else (let d = 10 ^ (scale - 9) mod 2 ^ 128 in if d = 0 then None else Some (mantissa div d)))"

record deferred_credit =
  dc_period :: u64
  dc_thread :: u32
  dc_nmas :: string

definition credit_key :: "deferred_credit \<Rightarrow> u64 \<times> u32" where
  "credit_key d = (dc_period d, dc_thread d)"

definition credit_le :: "deferred_credit \<Rightarrow> deferred_credit \<Rightarrow> bool" where
  "credit_le a b \<longleftrightarrow> dc_period a < dc_period b \<or> dc_period a = dc_period b \<and> dc_thread a \<le> dc_thread b"

fun credit_insert :: "deferred_credit \<Rightarrow> deferred_credit list \<Rightarrow> deferred_credit list" where
  "credit_insert d [] = [d]"
| "credit_insert d (e # es) = (if credit_le d e then d # e # es else e # credit_insert d es)"

text \<open>A stable sort by slot.\<close>

definition credit_sort :: "deferred_credit list \<Rightarrow> deferred_credit list" where
  "credit_sort ds = foldr credit_insert ds []"

fun kept_credits :: "credit_entry list \<Rightarrow> deferred_credit list option" where
  "kept_credits [] = Some []"
| "kept_credits (e # es) =
     (case ce_slot e of
        None \<Rightarrow> kept_credits es
      | Some sl \<Rightarrow>
          (case (case ce_amount e of None \<Rightarrow> Some 0 | Some a \<Rightarrow> amount_nmas a) of
             None \<Rightarrow> None
           | Some n \<Rightarrow>
               if n = 0 then kept_credits es
               else map_option (Cons \<lparr>dc_period = ns_period sl, dc_thread = ns_thread sl, dc_nmas = show_nat n\<rparr>)
                      (kept_credits es)))"

definition decode_deferred_credits :: "credit_entry list \<Rightarrow> deferred_credit list option" where
  "decode_deferred_credits es = map_option credit_sort (kept_credits es)"

section \<open>The state of an address\<close>

record address_node_state =
  an_address :: string
  an_final_balance_nmas :: string
  an_candidate_balance_nmas :: string
  an_final_rolls :: u64
  an_candidate_rolls :: u64
  an_active_rolls :: u64
  an_deferred_credits_final :: "deferred_credit list"
  an_deferred_credits_candidate :: "deferred_credit list"
  an_queried_at_ms :: i64

record balances =
  ba_final :: nat
  ba_cand :: nat
  ba_final_rolls :: u64
  ba_cand_rolls :: u64
  ba_dc_final :: "deferred_credit list"
  ba_dc_cand :: "deferred_credit list"

definition balances_zero :: balances where
  "balances_zero = \<lparr>ba_final = 0, ba_cand = 0, ba_final_rolls = 0, ba_cand_rolls = 0, ba_dc_final = [], ba_dc_cand = []\<rparr>"

definition state_queries :: "string \<Rightarrow> request_item list" where
  "state_queries addr =
     [AddressBalanceFinal addr, AddressBalanceCandidate addr, AddressRollsFinal addr, AddressRollsCandidate addr,
      AddressDeferredCreditsFinal addr, AddressDeferredCreditsCandidate addr]"

definition take_answer :: "nat \<Rightarrow> query_response \<Rightarrow> balances \<Rightarrow> balances option" where
  "take_answer i r b =
     (case r of
        Some (Some (AmountItem a)) \<Rightarrow>
          if i = 0 then map_option (\<lambda>n. b\<lparr>ba_final := n\<rparr>) (amount_nmas a)
          else if i = 1 then map_option (\<lambda>n. b\<lparr>ba_cand := n\<rparr>) (amount_nmas a) else Some b
      | Some (Some (RollCount c)) \<Rightarrow>
          Some (if i = 2 then b\<lparr>ba_final_rolls := c\<rparr> else if i = 3 then b\<lparr>ba_cand_rolls := c\<rparr> else b)
      | Some (Some (DeferredCreditsItem w)) \<Rightarrow>
          if i = 4 then map_option (\<lambda>d. b\<lparr>ba_dc_final := d\<rparr>) (decode_deferred_credits w)
          else if i = 5 then map_option (\<lambda>d. b\<lparr>ba_dc_cand := d\<rparr>) (decode_deferred_credits w) else Some b
      | _ \<Rightarrow> Some b)"

fun take_answers :: "nat \<Rightarrow> query_response list \<Rightarrow> balances \<Rightarrow> balances option" where
  "take_answers i [] b = Some b"
| "take_answers i (r # rs) b = Option.bind (take_answer i r b) (take_answers (i + 1) rs)"

fun find_staker :: "string \<Rightarrow> staker_info list \<Rightarrow> u64 option" where
  "find_staker addr [] = None"
| "find_staker addr (e # es) =
     (if si_address e = addr then (case si_active_rolls e of Some n \<Rightarrow> Some n | None \<Rightarrow> find_staker addr es)
      else find_staker addr es)"

fun find_active :: "string \<Rightarrow> query_response list \<Rightarrow> u64" where
  "find_active addr [] = 0"
| "find_active addr (r # rs) =
     (case r of
        Some (Some (CycleInfosItem infos)) \<Rightarrow>
          (case find_staker addr infos of Some n \<Rightarrow> n | None \<Rightarrow> find_active addr rs)
      | _ \<Rightarrow> find_active addr rs)"

definition fetch_active_rolls_for_cycle :: "node_rpc \<Rightarrow> string \<Rightarrow> u64 \<Rightarrow> u64" where
  "fetch_active_rolls_for_cycle N addr cycle =
     (case query_state N [CycleInfos cycle [addr]] of Inl _ \<Rightarrow> 0 | Inr rs \<Rightarrow> find_active addr rs)"

definition fetch_address_state :: "node_rpc \<Rightarrow> string \<Rightarrow> i64 \<Rightarrow> (error + address_node_state) option" where
  "fetch_address_state N addr now_ms =
     (case node_connect N of
        Inl e \<Rightarrow> Some (Inl e)
      | Inr _ \<Rightarrow>
          (case query_state N (state_queries addr) of
             Inl e \<Rightarrow> Some (Inl (Other (''query_state: '' @ e)))
           | Inr rs \<Rightarrow>
               map_option (\<lambda>b. Inr
                 \<lparr>an_address = addr, an_final_balance_nmas = show_nat (ba_final b),
                  an_candidate_balance_nmas = show_nat (ba_cand b), an_final_rolls = ba_final_rolls b,
                  an_candidate_rolls = ba_cand_rolls b,
                  an_active_rolls = (case get_status N of
                      Inr (Some st) \<Rightarrow> fetch_active_rolls_for_cycle N addr (st_current_cycle st) | _ \<Rightarrow> 0),
                  an_deferred_credits_final = ba_dc_final b, an_deferred_credits_candidate = ba_dc_cand b,
                  an_queried_at_ms = now_ms\<rparr>) (take_answers 0 rs balances_zero)))"

section \<open>The name service\<close>

definition MNS_MAINNET :: string where
  "MNS_MAINNET = ''AS1q5hUfxLXNXLKsYQVXZLK7MPUZcWaNZZsK7e9QzqhGdAgLpUGT''"

definition MNS_BUILDNET :: string where
  "MNS_BUILDNET = ''AS12qKAVjU1nr66JSkQ6N4Lqu4iwuVc6rAbRTrxFoynPrPdP1sj3G''"

definition mns_contract_for_chain :: "u64 \<Rightarrow> string option" where
  "mns_contract_for_chain chain_id =
     (if chain_id = 77658377 then Some MNS_MAINNET else if chain_id = 77658366 then Some MNS_BUILDNET else None)"

text \<open>\<open>u32::to_le_bytes\<close> and its inverse.\<close>

definition le32 :: "u32 \<Rightarrow> bytes" where
  "le32 n = rev (be 4 (unat n))"

definition of_le32 :: "bytes \<Rightarrow> u32" where
  "of_le32 b = word_of_nat (of_be (rev b))"

definition args_string :: "string \<Rightarrow> bytes" where
  "args_string t = le32 (word_of_nat (length t)) @ str_bytes t"

text \<open>\<open>std::str::from_utf8\<close>: the bytes that the lossy conversion leaves as they are.\<close>

definition from_utf8 :: "bytes \<Rightarrow> string option" where
  "from_utf8 b = (if utf8_lossy b = b then Some (bytes_str b) else None)"

definition decode_sc_string :: "bytes \<Rightarrow> string option" where
  "decode_sc_string b =
     (if length b < 4 then None
      else (let len = unat (of_le32 (take 4 b)); payload = drop 4 b in
            if length payload < len then None else from_utf8 (take len payload)))"

definition mns_resolve :: "node_rpc \<Rightarrow> string \<Rightarrow> error + string option" where
  "mns_resolve N name =
     (if name = [] then Inr None
      else rbind (node_connect N) (\<lambda>_.
           rbind (rmap_err (\<lambda>e. Other (''get_status: '' @ e)) (get_status N)) (\<lambda>status.
             Inr (case Option.bind status (\<lambda>st. mns_contract_for_chain (st_chain_id st)) of
                    None \<Rightarrow> None
                  | Some mns_addr \<Rightarrow>
                      (case execute_read_only_call N
                              \<lparr>fc_max_gas = 1000000000, fc_target_address = mns_addr,
                               fc_target_function = ''dnsResolve'', fc_parameter = args_string name\<rparr> of
                         Inr (Some call_result) \<Rightarrow>
                           if call_result = [] then None
                           else (let decoded = (case decode_sc_string call_result of
                                       Some t \<Rightarrow> t | None \<Rightarrow> trim (bytes_str (utf8_lossy call_result)))
                                 in if decoded = [] then None else Some decoded)
                       | _ \<Rightarrow> None)))))"

section \<open>Bytecode\<close>

fun first_bytes :: "query_response list \<Rightarrow> bytes option" where
  "first_bytes [] = None"
| "first_bytes (r # rs) =
     (case r of
        Some (Some (BytesItem b)) \<Rightarrow> if b = [] then None else Some b
      | _ \<Rightarrow> first_bytes rs)"

definition fetch_address_bytecode :: "node_rpc \<Rightarrow> string \<Rightarrow> error + bytes option" where
  "fetch_address_bytecode N addr =
     rbind (node_connect N) (\<lambda>_.
     rbind (rmap_err (\<lambda>e. Other (''query_state(bytecode): '' @ e)) (query_state N [AddressBytecodeFinal addr])) (\<lambda>rs.
       Inr (first_bytes rs)))"

section \<open>Stream health\<close>

datatype stream_kind = SkBlocks | SkExec | SkTransfers

fun stream_label :: "stream_kind \<Rightarrow> string" where
  "stream_label SkBlocks = ''blocks''"
| "stream_label SkExec = ''exec''"
| "stream_label SkTransfers = ''transfers''"

datatype stream_state = Idle | Streaming | Reconnecting | Unimplemented

definition state_from_u8 :: "u8 \<Rightarrow> stream_state" where
  "state_from_u8 v =
     (if v = 1 then Streaming else if v = 2 then Reconnecting else if v = 3 then Unimplemented else Idle)"

fun state_u8 :: "stream_state \<Rightarrow> u8" where
  "state_u8 Idle = 0"
| "state_u8 Streaming = 1"
| "state_u8 Reconnecting = 2"
| "state_u8 Unimplemented = 3"

fun state_label :: "stream_state \<Rightarrow> string" where
  "state_label Idle = ''idle''"
| "state_label Streaming = ''streaming''"
| "state_label Reconnecting = ''reconnecting''"
| "state_label Unimplemented = ''unimplemented''"

record stream_cells =
  sm_state :: "stream_kind \<Rightarrow> u8"
  sm_last_event_ms :: "stream_kind \<Rightarrow> i64"
  sm_enabled :: "stream_kind \<Rightarrow> u8"

definition cells_default :: stream_cells where
  "cells_default = \<lparr>sm_state = (\<lambda>_. 0), sm_last_event_ms = (\<lambda>_. 0), sm_enabled = (\<lambda>_. 0)\<rparr>"

definition stream_set_enabled :: "stream_kind \<Rightarrow> bool \<Rightarrow> stream_cells \<Rightarrow> stream_cells" where
  "stream_set_enabled k b m = m\<lparr>sm_enabled := (sm_enabled m)(k := if b then 1 else 0)\<rparr>"

definition stream_set_state :: "stream_kind \<Rightarrow> stream_state \<Rightarrow> stream_cells \<Rightarrow> stream_cells" where
  "stream_set_state k s m = m\<lparr>sm_state := (sm_state m)(k := state_u8 s)\<rparr>"

definition stream_event :: "stream_kind \<Rightarrow> i64 \<Rightarrow> stream_cells \<Rightarrow> stream_cells" where
  "stream_event k now_ms m =
     m\<lparr>sm_last_event_ms := (sm_last_event_ms m)(k := now_ms), sm_state := (sm_state m)(k := state_u8 Streaming)\<rparr>"

record stream_health =
  hl_kind :: stream_kind
  hl_enabled :: bool
  hl_state :: stream_state
  hl_last_event_ms :: i64

definition stream_health_of :: "stream_kind \<Rightarrow> stream_cells \<Rightarrow> stream_health" where
  "stream_health_of k m = \<lparr>hl_kind = k, hl_enabled = (sm_enabled m k \<noteq> 0), hl_state = state_from_u8 (sm_state m k),
     hl_last_event_ms = sm_last_event_ms m k\<rparr>"

definition all_streams :: "stream_kind list" where
  "all_streams = [SkBlocks, SkExec, SkTransfers]"

definition streams_degraded :: "stream_cells \<Rightarrow> bool" where
  "streams_degraded m \<longleftrightarrow>
     (\<exists>k \<in> set all_streams. hl_enabled (stream_health_of k m) \<and> hl_state (stream_health_of k m) = Unimplemented)"

section \<open>Sessions\<close>

text \<open>How a stream ends: closed by the node, or broken off.\<close>

datatype stream_end = Ended | Broken

text \<open>
  One turn: no connection; a call that fails, because it is not implemented or otherwise; or a stream of
  messages, each with a frame to forward and the time of its arrival, or empty.
\<close>

datatype 'f stream_session = ConnectFailed | RpcFailed bool | Streamed "('f \<times> i64) option list" stream_end

record 'f consumer =
  cn_backoff :: nat
  cn_room :: nat
  cn_sent :: "'f list"
  cn_pauses :: "nat list"
  cn_cells :: stream_cells
  cn_unsupported :: bool

definition BACKOFF_MIN :: nat where "BACKOFF_MIN = 500"
definition BACKOFF_MAX :: nat where "BACKOFF_MAX = 30000"

definition bump_backoff :: "nat \<Rightarrow> nat" where
  "bump_backoff d = (let next = d * 2 in if BACKOFF_MAX < next then BACKOFF_MAX else next)"

definition consumer_new :: "stream_kind \<Rightarrow> nat \<Rightarrow> stream_cells \<Rightarrow> 'f consumer" where
  "consumer_new k room cells =
     \<lparr>cn_backoff = BACKOFF_MIN, cn_room = room, cn_sent = [], cn_pauses = [],
      cn_cells = stream_set_enabled k True cells, cn_unsupported = False\<rparr>"

definition rep_state :: "stream_kind \<Rightarrow> stream_state \<Rightarrow> 'f consumer \<Rightarrow> 'f consumer" where
  "rep_state k s c = c\<lparr>cn_cells := stream_set_state k s (cn_cells c)\<rparr>"

definition rpc_failed :: "stream_kind \<Rightarrow> bool \<Rightarrow> 'f consumer \<Rightarrow> 'f consumer" where
  "rpc_failed k unimplemented c = rep_state k (if unimplemented then Unimplemented else Reconnecting) c"

text \<open>\<open>sleep(backoff).await; backoff = bump_backoff(backoff)\<close>\<close>

definition pause :: "'f consumer \<Rightarrow> 'f consumer" where
  "pause c = c\<lparr>cn_pauses := cn_pauses c @ [cn_backoff c], cn_backoff := bump_backoff (cn_backoff c)\<rparr>"

text \<open>Forwarding the messages; \<open>False\<close> when the channel turns out closed.\<close>

fun forward :: "stream_kind \<Rightarrow> ('f \<times> i64) option list \<Rightarrow> 'f consumer \<Rightarrow> bool \<times> 'f consumer" where
  "forward k [] c = (True, c)"
| "forward k (None # ms) c = forward k ms c"
| "forward k (Some (f, now_ms) # ms) c =
     (let c1 = c\<lparr>cn_cells := stream_event k now_ms (cn_cells c)\<rparr> in
      case cn_room c of
        0 \<Rightarrow> (False, c1)
      | Suc n \<Rightarrow> forward k ms (c1\<lparr>cn_room := n, cn_sent := cn_sent c @ [f]\<rparr>))"

section \<open>The loops\<close>

text \<open>The loops for blocks and execution outputs are the same but for the request and the event.\<close>

definition plain_turn :: "stream_kind \<Rightarrow> 'f stream_session \<Rightarrow> 'f consumer \<Rightarrow> bool \<times> 'f consumer" where
  "plain_turn k s c =
     (case s of
        ConnectFailed \<Rightarrow> (True, pause (rep_state k Reconnecting c))
      | RpcFailed unimplemented \<Rightarrow> (True, pause (rpc_failed k unimplemented (c\<lparr>cn_backoff := BACKOFF_MIN\<rparr>)))
      | Streamed ms e \<Rightarrow>
          (case forward k ms (c\<lparr>cn_backoff := BACKOFF_MIN\<rparr>) of
             (False, c1) \<Rightarrow> (False, c1)
           | (True, c1) \<Rightarrow> (True, pause (rep_state k Reconnecting c1))))"

text \<open>
  The loop for transfers keeps its back-off while the node has not delivered since a failure.  Every message
  of this stream carries a frame.
\<close>

definition transfers_turn :: "'f stream_session \<Rightarrow> 'f consumer \<Rightarrow> bool \<times> 'f consumer" where
  "transfers_turn s c =
     (let fresh_backoff = (\<lambda>d. if cn_unsupported d then d else d\<lparr>cn_backoff := BACKOFF_MIN\<rparr>) in
      case s of
        ConnectFailed \<Rightarrow> (True, pause (rep_state SkTransfers Reconnecting c))
      | RpcFailed unimplemented \<Rightarrow>
          (True, pause ((rpc_failed SkTransfers unimplemented (fresh_backoff c))\<lparr>cn_unsupported := True\<rparr>))
      | Streamed ms e \<Rightarrow>
          (let got_any = (\<exists>m \<in> set ms. m \<noteq> None);
               c0 = fresh_backoff c;
               c1 = (if got_any then c0\<lparr>cn_unsupported := False\<rparr> else c0) in
           case forward SkTransfers ms c1 of
             (False, c2) \<Rightarrow> (False, c2)
           | (True, c2) \<Rightarrow>
               (let c3 = (case e of
                      Broken \<Rightarrow> rep_state SkTransfers Reconnecting c2
                    | Ended \<Rightarrow> if got_any then rep_state SkTransfers Reconnecting c2
                              else (rep_state SkTransfers Unimplemented c2)\<lparr>cn_unsupported := True\<rparr>);
                    c4 = (if got_any then c3 else c3\<lparr>cn_backoff := bump_backoff (cn_backoff c3)\<rparr>)
                in (True, pause c4))))"

fun run_sessions :: "('t \<Rightarrow> 'f consumer \<Rightarrow> bool \<times> 'f consumer) \<Rightarrow> 't list \<Rightarrow> 'f consumer \<Rightarrow> bool \<times> 'f consumer" where
  "run_sessions turn [] c = (True, c)"
| "run_sessions turn (s # ss) c =
     (case turn s c of (False, c1) \<Rightarrow> (False, c1) | (True, c1) \<Rightarrow> run_sessions turn ss c1)"

definition filled_blocks_loop :: "filled_block stream_session list \<Rightarrow> filled_block consumer \<Rightarrow> bool \<times> filled_block consumer" where
  "filled_blocks_loop = run_sessions (plain_turn SkBlocks)"

definition slot_exec_loop ::
  "slot_execution_output stream_session list \<Rightarrow> slot_execution_output consumer \<Rightarrow> bool \<times> slot_execution_output consumer" where
  "slot_exec_loop = run_sessions (plain_turn SkExec)"

definition transfers_info_loop ::
  "transfers_info stream_session list \<Rightarrow> transfers_info consumer \<Rightarrow> bool \<times> transfers_info consumer" where
  "transfers_info_loop = run_sessions transfers_turn"

text \<open>Which streams are subscribed to.\<close>

definition run_consumers :: "streams_section \<Rightarrow> stream_kind list" where
  "run_consumers ss =
     (if ss_filled_blocks ss then [SkBlocks] else []) @
     (if ss_slot_execution_outputs ss then [SkExec] else []) @
     (if ss_transfers ss then [SkTransfers] else [])"

end
