(* ===== verification/Rest.thy ===== *)
theory Rest
  imports Node_Query
begin

text \<open>
  The REST API (\<open>rest.rs\<close>): envelopes, errors, cursors and page sizes, and the handlers that look up a row, list
  rows of an index, or ask the node.  A handler gets the configuration, the database and the
  decoded path and query, and returns the body or the problem.  Routing, headers and JSON are left to the web
  framework; base64 is a crate, a parameter.
\<close>

section \<open>Envelopes and errors\<close>

record web =
  b64_encode :: "bytes \<Rightarrow> string"
  b64_decode :: "string \<Rightarrow> bytes option"

record 'a envelope =
  el_network :: string
  el_has_more :: bool
  el_cursor_next :: "string option"
  el_data :: 'a

definition envelope_new :: "config \<Rightarrow> 'a \<Rightarrow> 'a envelope" where
  "envelope_new c x =
     \<lparr>el_network = gs_network (cf_general c), el_has_more = False, el_cursor_next = None, el_data = x\<rparr>"

definition encode_cursor :: "web \<Rightarrow> bytes \<Rightarrow> string" where
  "encode_cursor W raw_key = b64_encode W raw_key"

definition with_cursor :: "web \<Rightarrow> bytes option \<Rightarrow> 'a envelope \<Rightarrow> 'a envelope" where
  "with_cursor W cursor e =
     (case cursor of
        None \<Rightarrow> e
      | Some k \<Rightarrow> e\<lparr>el_has_more := True, el_cursor_next := Some (encode_cursor W k)\<rparr>)"

datatype api_err = ApiNotFound string | ApiBad string | ApiInternal string

record problem =
  pb_type :: string
  pb_title :: string
  pb_status :: nat
  pb_detail :: string

fun into_response :: "api_err \<Rightarrow> problem" where
  "into_response (ApiNotFound d) =
     \<lparr>pb_type = ''/errors/404'', pb_title = ''Not Found'', pb_status = 404, pb_detail = d\<rparr>"
| "into_response (ApiBad d) =
     \<lparr>pb_type = ''/errors/400'', pb_title = ''Bad Request'', pb_status = 400, pb_detail = d\<rparr>"
| "into_response (ApiInternal d) =
     \<lparr>pb_type = ''/errors/500'', pb_title = ''Internal Error'', pb_status = 500, pb_detail = d\<rparr>"

text \<open>The text of an error, less what a crate's error prints.\<close>

fun error_text :: "error \<Rightarrow> string" where
  "error_text (Config m) = ''config: '' @ m"
| "error_text DbError = ''db: ''"
| "error_text ProtoDecode = ''proto decode: ''"
| "error_text ProtoEncode = ''proto encode: ''"
| "error_text GrpcTransport = ''grpc transport: ''"
| "error_text GrpcStatus = ''grpc status: ''"
| "error_text Io = ''io: ''"
| "error_text (NetworkMismatch d c) = ''network mismatch: db='' @ d @ '', config='' @ c"
| "error_text NotFound = ''not found''"
| "error_text (BadRequest m) = ''bad request: '' @ m"
| "error_text (Other m) = m"

fun api_of_error :: "error \<Rightarrow> api_err" where
  "api_of_error NotFound = ApiNotFound ''not found''"
| "api_of_error (BadRequest m) = ApiBad m"
| "api_of_error e = ApiInternal (error_text e)"

definition api :: "error + 'a \<Rightarrow> api_err + 'a" where
  "api r = rmap_err api_of_error r"

definition api_step :: "(error + 'a) \<times> 's \<Rightarrow> (api_err + 'a) \<times> 's" where
  "api_step x = (api (fst x), snd x)"

definition or_400 :: "string + 'a \<Rightarrow> api_err + 'a" where
  "or_400 r = rmap_err ApiBad r"

definition or_404 :: "string \<Rightarrow> 'a option \<Rightarrow> api_err + 'a" where
  "or_404 what r = ok_or (ApiNotFound what) r"

section \<open>Pages\<close>

definition decode_cursor :: "web \<Rightarrow> string \<Rightarrow> api_err + bytes option" where
  "decode_cursor W t =
     (if t = [] then Inr None
      else (case b64_decode W t of Some b \<Rightarrow> Inr (Some b) | None \<Rightarrow> Inl (ApiBad ''invalid cursor: '')))"

record page_q =
  pq_limit :: "nat option"
  pq_cursor :: "string option"

definition clamp :: "'a::linorder \<Rightarrow> 'a \<Rightarrow> 'a \<Rightarrow> 'a" where
  "clamp x lo hi = (if x < lo then lo else if hi < x then hi else x)"

definition effective_max_page_size :: "config \<Rightarrow> nat" where
  "effective_max_page_size c = clamp (rs_max_page_size (cf_rest c)) 1 HARD_MAX_PAGE_SIZE"

definition limit_of :: "config \<Rightarrow> 'x page_q_scheme \<Rightarrow> nat" where
  "limit_of c p =
     clamp (unwrap_or (rs_default_page_size (cf_rest c)) (pq_limit p)) 1 (effective_max_page_size c)"

definition after_of :: "web \<Rightarrow> 'x page_q_scheme \<Rightarrow> api_err + bytes option" where
  "after_of W p = (case pq_cursor p of Some t \<Rightarrow> decode_cursor W t | None \<Rightarrow> Inr None)"

definition paged :: "web \<Rightarrow> config \<Rightarrow> 'a list \<Rightarrow> bytes option \<Rightarrow> 'a list envelope" where
  "paged W c xs cursor = with_cursor W cursor (envelope_new c xs)"

text \<open>A handler that lists the pages of \<open>fetch\<close>.\<close>

definition rest_pages ::
  "web \<Rightarrow> config \<Rightarrow> 'x page_q_scheme \<Rightarrow> (bytes option \<Rightarrow> nat \<Rightarrow> error + 'a page) \<Rightarrow> api_err + 'a list envelope" where
  "rest_pages W c p fetch =
     rbind (after_of W p) (\<lambda>after.
     rbind (api (fetch after (limit_of c p))) (\<lambda>pg. Inr (paged W c (items pg) (next_cursor pg))))"

text \<open>The rows of a list of ids; a missing row is passed over.\<close>

fun read_all :: "('k \<Rightarrow> error + 'a option) \<Rightarrow> 'k list \<Rightarrow> error + 'a list" where
  "read_all rd1 [] = Inr []"
| "read_all rd1 (k # ks) =
     rbind (rd1 k) (\<lambda>r. rbind (read_all rd1 ks) (\<lambda>xs. Inr (case r of Some x \<Rightarrow> x # xs | None \<Rightarrow> xs)))"

definition rest_rows ::
  "web \<Rightarrow> config \<Rightarrow> 'x page_q_scheme \<Rightarrow> (bytes option \<Rightarrow> nat \<Rightarrow> error + 'k page) \<Rightarrow> ('k \<Rightarrow> error + 'a option) \<Rightarrow>
   api_err + 'a list envelope" where
  "rest_rows W c p fetch rd1 =
     rbind (after_of W p) (\<lambda>after.
     rbind (api (fetch after (limit_of c p))) (\<lambda>pg.
     rbind (api (read_all rd1 (items pg))) (\<lambda>xs. Inr (paged W c xs (next_cursor pg)))))"

section \<open>Liveness\<close>

record health_body =
  hb_status :: string
  hb_network :: string
  hb_build_version :: string
  hb_streams :: "(string \<times> bool \<times> string \<times> i64) list"

definition rest_health :: "config \<Rightarrow> string \<Rightarrow> stream_cells \<Rightarrow> health_body" where
  "rest_health c version m =
     \<lparr>hb_status = (if streams_degraded m then ''degraded'' else ''ok''), hb_network = gs_network (cf_general c),
      hb_build_version = version,
      hb_streams = map (\<lambda>k. let h = stream_health_of k m in
        (stream_label k, hl_enabled h, state_label (hl_state h), hl_last_event_ms h)) all_streams\<rparr>"

definition rest_ready :: "('s, 'v, 'x) ext_scheme \<Rightarrow> 's \<Rightarrow> nat \<times> bool \<times> string list \<times> slot option" where
  "rest_ready E s =
     (let last_final = (case read_last_final_slot E s of Inr r \<Rightarrow> r | Inl _ \<Rightarrow> None); ready = is_some last_final
      in (if ready then 200 else 503, ready, if ready then [] else [''no final slot yet''], last_final))"

record status_body =
  sb_network :: string
  sb_build_version :: string
  sb_last_final_slot :: "slot option"
  sb_last_candidate_slot :: "slot option"
  sb_row_counts :: "(string \<times> nat) list"
  sb_node_grpc_url :: string
  sb_meta :: "meta_row option"

text \<open>\<open>counts\<close> are the row estimates of the store.\<close>

definition rest_status ::
  "('s, 'v, 'x) ext_scheme \<Rightarrow> config \<Rightarrow> string \<Rightarrow> (string \<times> nat) list \<Rightarrow> 's \<Rightarrow> api_err + status_body envelope" where
  "rest_status E c version counts s =
     rbind (api (read_last_final_slot E s)) (\<lambda>last_final.
     rbind (api (read_last_candidate_slot E s)) (\<lambda>last_candidate.
     rbind (api (read_meta E s)) (\<lambda>meta.
       Inr (envelope_new c
         \<lparr>sb_network = gs_network (cf_general c), sb_build_version = version, sb_last_final_slot = last_final,
          sb_last_candidate_slot = last_candidate, sb_row_counts = counts, sb_node_grpc_url = ns_grpc_url (cf_node c),
          sb_meta = meta\<rparr>))))"

section \<open>Blocks, operations and slots\<close>

definition resolve_block_status :: "('s, 'v, 'x) ext_scheme \<Rightarrow> stored_block \<Rightarrow> ('s, stored_block) dbm" where
  "resolve_block_status E block s =
     (if bk_status block = BlockFinal \<or> bk_status block = Discarded then (Inr block, s)
      else (case read_slot E s (sl_period (bk_slot block)) (sl_thread (bk_slot block)) of
              Inl e \<Rightarrow> (Inl e, s)
            | Inr None \<Rightarrow> (Inr block, s)
            | Inr (Some sl) \<Rightarrow>
                if st_status sl \<noteq> SlotFinal then (Inr block, s)
                else (let new_status = (if st_final_block_id sl = Some (bk_id block) then BlockFinal else Discarded);
                          block1 = block\<lparr>bk_status := new_status\<rparr> in
                      if bk_status block \<noteq> new_status then (Inr block1, snd (write_block E block1 s))
                      else (Inr block, s))))"

definition block_by_id ::
  "('s, 'v, 'x) ext_scheme \<Rightarrow> config \<Rightarrow> string \<Rightarrow> 's \<Rightarrow> (api_err + stored_block envelope) \<times> 's" where
  "block_by_id E c t s =
     (case rbind (or_400 (block_parse E t)) (\<lambda>bid. rbind (api (read_block E s bid)) (or_404 ''block'')) of
        Inl e \<Rightarrow> (Inl e, s)
      | Inr row \<Rightarrow>
          (case resolve_block_status E row s of
             (Inl e, s1) \<Rightarrow> (Inl (api_of_error e), s1)
           | (Inr row1, s1) \<Rightarrow> (Inr (envelope_new c row1), s1)))"

definition op_by_id ::
  "('s, 'v, 'x) ext_scheme \<Rightarrow> config \<Rightarrow> string \<Rightarrow> 's \<Rightarrow> api_err + stored_operation envelope" where
  "op_by_id E c t s =
     rbind (or_400 (op_parse E t)) (\<lambda>oid. rbind (api (read_op E s oid)) (\<lambda>r.
     rbind (or_404 ''operation'' r) (\<lambda>row. Inr (envelope_new c row))))"

definition slot_by_coords ::
  "('s, 'v, 'x) ext_scheme \<Rightarrow> config \<Rightarrow> u64 \<Rightarrow> u8 \<Rightarrow> 's \<Rightarrow> api_err + slot_state envelope" where
  "slot_by_coords E c period thread s =
     rbind (api (read_slot E s period thread)) (\<lambda>r. rbind (or_404 ''slot'' r) (\<lambda>row. Inr (envelope_new c row)))"

definition rest_slot_events ::
  "('s, 'v, 'x) ext_scheme \<Rightarrow> web \<Rightarrow> config \<Rightarrow> u64 \<Rightarrow> u8 \<Rightarrow> page_q \<Rightarrow> 's \<Rightarrow>
   api_err + stored_sc_event list envelope" where
  "rest_slot_events E W c period thread p s = rest_pages W c p (iter_sc_events_for_slot E s period thread)"

section \<open>Transfers\<close>

definition transfer_pos :: "stored_transfer \<Rightarrow> u64 \<times> u8 \<times> u32" where
  "transfer_pos t = (sl_period (tr_slot t), sl_thread (tr_slot t), tr_index_in_slot t)"

text \<open>The first transfer at each position, as \<open>HashMap::entry(..).or_insert(..)\<close> keeps it.\<close>

fun or_insert_all :: "stored_transfer list \<Rightarrow> stored_transfer list \<Rightarrow> stored_transfer list" where
  "or_insert_all seen [] = seen"
| "or_insert_all seen (t # ts) =
     or_insert_all (if transfer_pos t \<in> transfer_pos ` set seen then seen else seen @ [t]) ts"

definition newer :: "stored_transfer \<Rightarrow> stored_transfer \<Rightarrow> bool" where
  "newer x y \<longleftrightarrow>
     sl_period (tr_slot y) < sl_period (tr_slot x) \<or>
     sl_period (tr_slot y) = sl_period (tr_slot x) \<and>
       (sl_thread (tr_slot y) < sl_thread (tr_slot x) \<or>
        sl_thread (tr_slot y) = sl_thread (tr_slot x) \<and> tr_index_in_slot y < tr_index_in_slot x)"

fun insert_newest :: "stored_transfer \<Rightarrow> stored_transfer list \<Rightarrow> stored_transfer list" where
  "insert_newest t [] = [t]"
| "insert_newest t (u # us) = (if newer u t then u # insert_newest t us else t # u # us)"

text \<open>
  The values of a hash map come in no particular order; as their positions differ, the sort makes the
  result independent of it.
\<close>

definition paginate_transfers_union :: "stored_transfer list \<Rightarrow> stored_transfer list \<Rightarrow> nat \<Rightarrow> stored_transfer list" where
  "paginate_transfers_union a b limit = take limit (foldr insert_newest (or_insert_all [] (a @ b)) [])"

text \<open>The candidates of a slot, and its final block unless it is one of them.\<close>

definition slot_block_ids :: "slot_state \<Rightarrow> block_id list" where
  "slot_block_ids st =
     (case st_final_block_id st of
        Some fid \<Rightarrow> if fid \<in> set (st_candidate_block_ids st) then st_candidate_block_ids st
                    else st_candidate_block_ids st @ [fid]
      | None \<Rightarrow> st_candidate_block_ids st)"

definition ops_transfers ::
  "('s, 'v, 'x) ext_scheme \<Rightarrow> 's \<Rightarrow> nat \<Rightarrow> operation_id list \<Rightarrow> error + stored_transfer list" where
  "ops_transfers E s limit ops =
     rbind (collect (\<lambda>oid. iter_transfers_by_op E s oid None limit) ops) (\<lambda>pgs. Inr (concat (map items pgs)))"

definition rest_slot_transfers ::
  "('s, 'v, 'x) ext_scheme \<Rightarrow> config \<Rightarrow> u64 \<Rightarrow> u8 \<Rightarrow> page_q \<Rightarrow> 's \<Rightarrow> api_err + stored_transfer list envelope" where
  "rest_slot_transfers E c period thread p s =
     (let limit = limit_of c p in
      rbind (api (iter_transfers_for_slot E s period thread)) (\<lambda>in_slot.
      rbind (api (read_slot E s period thread)) (\<lambda>r.
      rbind (api (case r of
               None \<Rightarrow> Inr []
             | Some st \<Rightarrow> rbind (read_all (read_block E s) (slot_block_ids st)) (\<lambda>bs.
                            Inr (concat (map bk_operation_ids bs))))) (\<lambda>ops.
      rbind (api (ops_transfers E s limit ops)) (\<lambda>extras.
        Inr (envelope_new c (paginate_transfers_union in_slot extras limit)))))))"

definition op_transfers ::
  "('s, 'v, 'x) ext_scheme \<Rightarrow> web \<Rightarrow> config \<Rightarrow> string \<Rightarrow> page_q \<Rightarrow> 's \<Rightarrow>
   api_err + stored_transfer list envelope" where
  "op_transfers E W c t p s =
     rbind (after_of W p) (\<lambda>_. rbind (or_400 (op_parse E t)) (\<lambda>oid. rest_pages W c p (iter_transfers_by_op E s oid)))"

definition addr_transfers ::
  "('s, 'v, 'x) ext_scheme \<Rightarrow> web \<Rightarrow> config \<Rightarrow> string \<Rightarrow> page_q \<Rightarrow> 's \<Rightarrow>
   api_err + stored_transfer list envelope" where
  "addr_transfers E W c t p s =
     rbind (after_of W p) (\<lambda>_. rbind (or_400 (addr_parse E t)) (\<lambda>a. rest_pages W c p (iter_transfers_by_addr E s a)))"

definition block_transfers ::
  "('s, 'v, 'x) ext_scheme \<Rightarrow> config \<Rightarrow> string \<Rightarrow> page_q \<Rightarrow> 's \<Rightarrow> api_err + stored_transfer list envelope" where
  "block_transfers E c t p s =
     (let limit = limit_of c p in
      rbind (or_400 (block_parse E t)) (\<lambda>bid.
      rbind (api (iter_transfers_by_block E s bid None limit)) (\<lambda>in_block.
      rbind (api (read_block E s bid)) (\<lambda>r.
      rbind (or_404 ''block'' r) (\<lambda>block.
      rbind (api (ops_transfers E s limit (bk_operation_ids block))) (\<lambda>extras.
        Inr (envelope_new c (paginate_transfers_union (items in_block) extras limit))))))))"

section \<open>Ranges of slots\<close>

record slots_range_q = page_q +
  sq_from_period :: "u64 option"
  sq_from_thread :: "u8 option"

definition range_start :: "web \<Rightarrow> slots_range_q \<Rightarrow> api_err + bytes option" where
  "range_start W q =
     (case pq_cursor q of
        Some t \<Rightarrow> decode_cursor W t
      | None \<Rightarrow>
          Inr (case sq_from_period q of
                 Some p \<Rightarrow> Some (slot_key p (unwrap_or 31 (sq_from_thread q)) @ [0])
               | None \<Rightarrow> None))"

definition slots_range ::
  "('s, 'v, 'x) ext_scheme \<Rightarrow> web \<Rightarrow> config \<Rightarrow> slots_range_q \<Rightarrow> 's \<Rightarrow> api_err + slot_state list envelope" where
  "slots_range E W c q s =
     rbind (range_start W q) (\<lambda>after.
     rbind (api (iter_slots_desc E s after (limit_of c q))) (\<lambda>pg.
       Inr (paged W c (items pg) (next_cursor pg))))"

end
