(* ===== verification/Rest_Feeds.thy ===== *)
theory Rest_Feeds
  imports Rest
begin

text \<open>
  The rest of the read handlers (\<open>rest.rs\<close>): the event streams, the feeds of recent operations and blocks over
  the slot scan, the windows into a block's own lists, the listings under an address, the async pool and deferred
  calls, the questions passed on to the node, and the search.

  A streaming connection replays the frames after the client's last id, subscribes, and then forwards what the
  channel delivers, each frame through the filter of its route.  JSON is a crate's: \<open>js_parse\<close>, \<open>js_type\<close>
  (the \<open>type\<close> field) and \<open>js_text\<close> are parameters.
\<close>

record 'j json =
  js_parse :: "string \<Rightarrow> 'j option"
  js_type :: "'j \<Rightarrow> string option"
  js_text :: "'j \<Rightarrow> string"

section \<open>Filters\<close>

definition has_type :: "'j json \<Rightarrow> string set \<Rightarrow> 'j \<Rightarrow> bool" where
  "has_type J names v \<longleftrightarrow> (case js_type J v of Some t \<Rightarrow> t \<in> names | None \<Rightarrow> False)"

definition stream_slots_filter :: "'j json \<Rightarrow> 'j \<Rightarrow> bool" where
  "stream_slots_filter J = has_type J {''slot_updated'', ''slot_final'', ''heartbeat''}"

definition stream_blocks_filter :: "'j json \<Rightarrow> 'j \<Rightarrow> bool" where
  "stream_blocks_filter J = has_type J {''block_seen'', ''heartbeat''}"

definition stream_final_filter :: "'j json \<Rightarrow> 'j \<Rightarrow> bool" where
  "stream_final_filter J = has_type J {''slot_final'', ''heartbeat''}"

definition stream_operations_filter :: "'j json \<Rightarrow> 'j \<Rightarrow> bool" where
  "stream_operations_filter J = has_type J {''op_seen'', ''heartbeat''}"

text \<open>\<open>str::contains\<close>\<close>

fun contains :: "string \<Rightarrow> string \<Rightarrow> bool" where
  "contains [] needle \<longleftrightarrow> needle = []"
| "contains (c # cs) needle \<longleftrightarrow> take (length needle) (c # cs) = needle \<or> contains cs needle"

definition stream_addr_filter :: "'j json \<Rightarrow> string \<Rightarrow> 'j \<Rightarrow> bool" where
  "stream_addr_filter J addr v \<longleftrightarrow> has_type J {''heartbeat''} v \<or> contains (js_text J v) addr"

record stream_events_q =
  eq_emitter :: "string option"
  eq_caller :: "string option"
  eq_op_id :: "string option"

definition mentions :: "string \<Rightarrow> string option \<Rightarrow> bool" where
  "mentions tag needle \<longleftrightarrow> (case needle of Some x \<Rightarrow> contains tag x | None \<Rightarrow> True)"

definition stream_events_filter :: "'j json \<Rightarrow> stream_events_q \<Rightarrow> 'j \<Rightarrow> bool" where
  "stream_events_filter J q v \<longleftrightarrow>
     has_type J {''heartbeat''} v \<or>
     js_type J v = Some ''event_seen'' \<and>
       (let tag = js_text J v in mentions tag (eq_emitter q) \<and> mentions tag (eq_caller q) \<and> mentions tag (eq_op_id q))"

section \<open>The response\<close>

definition keep_frame :: "'j json \<Rightarrow> ('j \<Rightarrow> bool) \<Rightarrow> sse_frame \<Rightarrow> bool" where
  "keep_frame J flt f = unwrap_or True (map_option flt (js_parse J (sf_data f)))"

definition chunk :: "sse_frame \<Rightarrow> string" where
  "chunk f = ''id: '' @ show_nat (unat (sf_id f)) @ [CHR 0x0A] @ ''data: '' @ sf_data f @ [CHR 0x0A, CHR 0x0A]"

text \<open>What the loop waits for: a frame, notice of lost frames, the end of the channel, or the timer.\<close>

datatype live_item = LiveFrame sse_frame | Lagged | Timer | SourceClosed

fun live_chunks :: "'j json \<Rightarrow> ('j \<Rightarrow> bool) \<Rightarrow> live_item list \<Rightarrow> string list" where
  "live_chunks J flt [] = []"
| "live_chunks J flt (LiveFrame f # rest) =
     (if keep_frame J flt f then chunk f # live_chunks J flt rest else live_chunks J flt rest)"
| "live_chunks J flt (Lagged # rest) = (CHR '':'' # '' lagged'' @ [CHR 0x0A, CHR 0x0A]) # live_chunks J flt rest"
| "live_chunks J flt (Timer # rest) = (CHR '':'' # '' hb'' @ [CHR 0x0A, CHR 0x0A]) # live_chunks J flt rest"
| "live_chunks J flt (SourceClosed # rest) = []"

definition replay_for :: "string option \<Rightarrow> sse_hub \<Rightarrow> sse_frame list" where
  "replay_for last_event_id h =
     (case Option.bind last_event_id parse_u64 of Some since \<Rightarrow> replay_since since h | None \<Rightarrow> [])"

text \<open>
  The chunks a client receives when \<open>h\<close> is the hub at the replay and \<open>items1\<close> what its receiver delivers after
  the subscription.
\<close>

definition sse_response :: "'j json \<Rightarrow> ('j \<Rightarrow> bool) \<Rightarrow> string option \<Rightarrow> sse_hub \<Rightarrow> live_item list \<Rightarrow> string list" where
  "sse_response J flt last_event_id h items1 =
     map chunk (filter (keep_frame J flt) (replay_for last_event_id h)) @ live_chunks J flt items1"

definition heartbeat_secs :: "config \<Rightarrow> u64" where
  "heartbeat_secs c = max (rs_sse_heartbeat_secs (cf_rest c)) 1"

text \<open>What a receiver that subscribed when the hub had sent \<open>n\<close> frames is due.\<close>

definition delivered :: "nat \<Rightarrow> sse_hub \<Rightarrow> sse_frame list" where
  "delivered n h = drop n (sent h)"

section \<open>Feeds over recent slots\<close>

text \<open>Visiting the slots of a page until the feed is full; a full feed names the last slot visited.\<close>

fun feed_slots ::
  "('b \<Rightarrow> slot_state \<Rightarrow> ('s, 'b) dbm) \<Rightarrow> ('b \<Rightarrow> bool) \<Rightarrow> slot_state list \<Rightarrow> 'b \<Rightarrow> ('s, 'b \<times> bytes option) dbm" where
  "feed_slots visit full [] acc s = (Inr (acc, None), s)"
| "feed_slots visit full (st # rest) acc s =
     (case visit acc st s of
        (Inl e, s1) \<Rightarrow> (Inl e, s1)
      | (Inr acc1, s1) \<Rightarrow>
          if full acc1 then (Inr (acc1, Some (slot_key (sl_period (st_slot st)) (sl_thread (st_slot st)))), s1)
          else feed_slots visit full rest acc1 s1)"

text \<open>The scan of the slots in batches, at most \<open>max_slots\<close> of them; the cursor to continue from.\<close>

function slot_feed ::
  "('s, 'v, 'x) ext_scheme \<Rightarrow> ('b \<Rightarrow> slot_state \<Rightarrow> ('s, 'b) dbm) \<Rightarrow> ('b \<Rightarrow> bool) \<Rightarrow> nat \<Rightarrow> nat \<Rightarrow>
   bytes option \<Rightarrow> nat \<Rightarrow> 'b \<Rightarrow> ('s, 'b \<times> bytes option) dbm" where
  "slot_feed E visit full max_slots batch_max cursor done_slots acc s =
     (if max_slots \<le> done_slots then (Inr (acc, cursor), s)
      else (case iter_slots_desc E s cursor (clamp (max_slots - done_slots) 1 batch_max) of
              Inl e \<Rightarrow> (Inl e, s)
            | Inr pg \<Rightarrow>
                if items pg = [] then (Inr (acc, None), s)
                else (case feed_slots visit full (items pg) acc s of
                        (Inl e, s1) \<Rightarrow> (Inl e, s1)
                      | (Inr (acc1, Some k), s1) \<Rightarrow> (Inr (acc1, Some k), s1)
                      | (Inr (acc1, None), s1) \<Rightarrow>
                          (case next_cursor pg of
                             None \<Rightarrow> (Inr (acc1, None), s1)
                           | Some k \<Rightarrow>
                               slot_feed E visit full max_slots batch_max (Some k)
                                 (done_slots + length (items pg)) acc1 s1))))"
  by pat_completeness auto
termination
  by (relation "measure (\<lambda>(E, visit, full, max_slots, batch_max, cursor, done_slots, acc, s). max_slots - done_slots)")
    (auto simp: neq_Nil_conv)

declare slot_feed.simps [simp del]

text \<open>The operations of a slot's blocks, each once over the whole feed.\<close>

type_synonym 'a feed = "string list \<times> 'a list"

definition feed_full :: "nat \<Rightarrow> 'a feed \<Rightarrow> bool" where
  "feed_full limit acc \<longleftrightarrow> limit \<le> length (snd acc)"

fun feed_ops ::
  "('s, 'v, 'x) ext_scheme \<Rightarrow> 's \<Rightarrow> operation_id list \<Rightarrow> stored_operation feed \<Rightarrow> error + stored_operation feed" where
  "feed_ops E s [] acc = Inr acc"
| "feed_ops E s (oid # rest) (seen, out) =
     (if id_text oid \<in> set seen then feed_ops E s rest (seen, out)
      else rbind (read_op E s oid) (\<lambda>r.
             feed_ops E s rest (seen @ [id_text oid], case r of Some o1 \<Rightarrow> out @ [o1] | None \<Rightarrow> out)))"

fun feed_block_ops ::
  "('s, 'v, 'x) ext_scheme \<Rightarrow> 's \<Rightarrow> block_id list \<Rightarrow> stored_operation feed \<Rightarrow> error + stored_operation feed" where
  "feed_block_ops E s [] acc = Inr acc"
| "feed_block_ops E s (bid # rest) acc =
     rbind (read_block E s bid) (\<lambda>r. case r of
       None \<Rightarrow> feed_block_ops E s rest acc
     | Some b \<Rightarrow> rbind (feed_ops E s (bk_operation_ids b) acc) (feed_block_ops E s rest))"

definition visit_ops ::
  "('s, 'v, 'x) ext_scheme \<Rightarrow> stored_operation feed \<Rightarrow> slot_state \<Rightarrow> ('s, stored_operation feed) dbm" where
  "visit_ops E acc st s = (feed_block_ops E s (slot_block_ids st) acc, s)"

record recent_ops_q = page_q +
  rq_max_slots :: "nat option"

definition recent_operations ::
  "('s, 'v, 'x) ext_scheme \<Rightarrow> web \<Rightarrow> config \<Rightarrow> recent_ops_q \<Rightarrow> 's \<Rightarrow> api_err + stored_operation list envelope" where
  "recent_operations E W c q s =
     (let limit = limit_of c q; max_slots = clamp (unwrap_or 256 (rq_max_slots q)) 1 4096 in
      rbind (after_of W q) (\<lambda>after.
      rbind (api (fst (slot_feed E (visit_ops E) (feed_full limit) max_slots 64 after 0 ([], []) s))) (\<lambda>(acc, cursor).
        Inr (paged W c (take limit (snd acc)) cursor))))"

fun feed_blocks ::
  "('s, 'v, 'x) ext_scheme \<Rightarrow> block_id list \<Rightarrow> stored_block feed \<Rightarrow> ('s, stored_block feed) dbm" where
  "feed_blocks E [] acc s = (Inr acc, s)"
| "feed_blocks E (bid # rest) (seen, out) s =
     (if id_text bid \<in> set seen then feed_blocks E rest (seen, out) s
      else (case read_block E s bid of
              Inl e \<Rightarrow> (Inl e, s)
            | Inr None \<Rightarrow> feed_blocks E rest (seen @ [id_text bid], out) s
            | Inr (Some b) \<Rightarrow>
                (case resolve_block_status E b s of
                   (Inl e, s1) \<Rightarrow> (Inl e, s1)
                 | (Inr b1, s1) \<Rightarrow> feed_blocks E rest (seen @ [id_text bid], out @ [b1]) s1)))"

definition blocks_recent ::
  "('s, 'v, 'x) ext_scheme \<Rightarrow> web \<Rightarrow> config \<Rightarrow> page_q \<Rightarrow> 's \<Rightarrow> (api_err + stored_block list envelope) \<times> 's" where
  "blocks_recent E W c p s =
     (let limit = limit_of c p in
      case after_of W p of
        Inl e \<Rightarrow> (Inl e, s)
      | Inr after \<Rightarrow>
          (case slot_feed E (\<lambda>acc st. feed_blocks E (slot_block_ids st) acc) (feed_full limit) 4096 128 after 0 ([], []) s of
             (Inl e, s1) \<Rightarrow> (Inl (api_of_error e), s1)
           | (Inr (acc, cursor), s1) \<Rightarrow> (Inr (paged W c (take limit (snd acc)) cursor), s1)))"

section \<open>Windows into a block\<close>

definition start_index :: "web \<Rightarrow> page_q \<Rightarrow> api_err + nat" where
  "start_index W p =
     rbind (after_of W p) (\<lambda>after. case after of
       Some b \<Rightarrow> if length b = 4 then Inr (unat (of_le32 b)) else Inl (ApiBad ''invalid cursor'')
     | None \<Rightarrow> Inr 0)"

definition window_cursor :: "nat \<Rightarrow> nat \<Rightarrow> bytes option" where
  "window_cursor stop n_all = (if stop < n_all then Some (le32 (word_of_nat stop)) else None)"

definition found_block ::
  "('s, 'v, 'x) ext_scheme \<Rightarrow> string \<Rightarrow> 's \<Rightarrow> api_err + stored_block" where
  "found_block E t s = rbind (or_400 (block_parse E t)) (\<lambda>bid. rbind (api (read_block E s bid)) (or_404 ''block''))"

text \<open>\<open>None\<close> is a panic: the slice \<open>[start..end]\<close> with a start past the end.\<close>

definition block_operations ::
  "('s, 'v, 'x) ext_scheme \<Rightarrow> web \<Rightarrow> config \<Rightarrow> string \<Rightarrow> page_q \<Rightarrow> 's \<Rightarrow>
   (api_err + stored_operation list envelope) option" where
  "block_operations E W c t p s =
     (case rbind (start_index W p) (\<lambda>start. rbind (found_block E t s) (\<lambda>block. Inr (start, block))) of
        Inl e \<Rightarrow> Some (Inl e)
      | Inr (start, block) \<Rightarrow>
          (let n_all = length (bk_operation_ids block); stop = min (start + limit_of c p) n_all in
           if stop < start then None
           else Some (rbind (api (read_all (read_op E s) (take (stop - start) (drop start (bk_operation_ids block))))) (\<lambda>out.
             Inr (paged W c out (window_cursor stop n_all))))))"

definition block_endorsements ::
  "('s, 'v, 'x) ext_scheme \<Rightarrow> web \<Rightarrow> config \<Rightarrow> string \<Rightarrow> page_q \<Rightarrow> 's \<Rightarrow>
   api_err + stored_endorsement list envelope" where
  "block_endorsements E W c t p s =
     rbind (start_index W p) (\<lambda>start. rbind (found_block E t s) (\<lambda>block.
       let n_all = length (bk_endorsements block); stop = min (start + limit_of c p) n_all;
           out = (if n_all \<le> start then [] else take (stop - start) (drop start (bk_endorsements block)))
       in Inr (paged W c out (window_cursor stop n_all))))"

fun denunciation_rows ::
  "('s, 'v, 'x) node_ext_scheme \<Rightarrow> 's \<Rightarrow> string list \<Rightarrow> stored_denunciation list \<Rightarrow>
   error + stored_denunciation_entry list" where
  "denunciation_rows E s seen [] = Inr []"
| "denunciation_rows E s seen (d # ds) =
     (let h = denunciation_hash E d in
      if h \<in> set seen then denunciation_rows E s seen ds
      else rbind (read_denunciation E s h) (\<lambda>r.
           rbind (denunciation_rows E s (h # seen) ds) (\<lambda>xs.
             Inr (case r of Some x \<Rightarrow> x # xs | None \<Rightarrow> xs))))"

definition block_denunciations ::
  "('s, 'v, 'x) node_ext_scheme \<Rightarrow> web \<Rightarrow> config \<Rightarrow> string \<Rightarrow> page_q \<Rightarrow> 's \<Rightarrow>
   api_err + stored_denunciation_entry list envelope" where
  "block_denunciations E W c t p s =
     rbind (start_index W p) (\<lambda>start. rbind (found_block E t s) (\<lambda>block.
       let n_all = length (bk_denunciations block); stop = min (start + limit_of c p) n_all in
       rbind (if start < n_all
              then api (denunciation_rows E s [] (take (stop - start) (drop start (bk_denunciations block))))
              else Inr []) (\<lambda>out.
         Inr (paged W c out (window_cursor stop n_all)))))"

section \<open>Listings under an id or an address\<close>

definition op_events ::
  "('s, 'v, 'x) ext_scheme \<Rightarrow> web \<Rightarrow> config \<Rightarrow> string \<Rightarrow> page_q \<Rightarrow> 's \<Rightarrow>
   api_err + stored_sc_event list envelope" where
  "op_events E W c t p s =
     rbind (after_of W p) (\<lambda>_. rbind (or_400 (op_parse E t)) (\<lambda>oid. rest_pages W c p (iter_sc_events_by_op E s oid)))"

definition endorsement_by_id ::
  "('s, 'v, 'x) ext_scheme \<Rightarrow> config \<Rightarrow> string \<Rightarrow> 's \<Rightarrow> api_err + stored_endorsement envelope" where
  "endorsement_by_id E c t s =
     rbind (api (read_endorsement E s t)) (\<lambda>r. rbind (or_404 ''endorsement'' r) (\<lambda>e. Inr (envelope_new c e)))"

definition denunciation_by_hash ::
  "('s, 'v, 'x) ext_scheme \<Rightarrow> config \<Rightarrow> string \<Rightarrow> 's \<Rightarrow> api_err + stored_denunciation_entry envelope" where
  "denunciation_by_hash E c h s =
     rbind (api (read_denunciation E s h)) (\<lambda>r. rbind (or_404 ''denunciation'' r) (\<lambda>e. Inr (envelope_new c e)))"

definition denunciations_recent ::
  "('s, 'v, 'x) ext_scheme \<Rightarrow> web \<Rightarrow> config \<Rightarrow> page_q \<Rightarrow> 's \<Rightarrow> api_err + stored_denunciation_entry list envelope" where
  "denunciations_recent E W c p s = rest_pages W c p (iter_denunciations_recent E s)"

text \<open>The blocks of a creator, with their status brought up to date.\<close>

fun resolved_blocks :: "('s, 'v, 'x) ext_scheme \<Rightarrow> block_id list \<Rightarrow> ('s, stored_block list) dbm" where
  "resolved_blocks E [] s = (Inr [], s)"
| "resolved_blocks E (bid # rest) s =
     (case read_block E s bid of
        Inl e \<Rightarrow> (Inl e, s)
      | Inr None \<Rightarrow> resolved_blocks E rest s
      | Inr (Some b) \<Rightarrow>
          (case resolve_block_status E b s of
             (Inl e, s1) \<Rightarrow> (Inl e, s1)
           | (Inr b1, s1) \<Rightarrow>
               (case resolved_blocks E rest s1 of
                  (Inl e, s2) \<Rightarrow> (Inl e, s2)
                | (Inr bs, s2) \<Rightarrow> (Inr (b1 # bs), s2))))"

definition blocks_by_addr ::
  "('s, 'v, 'x) ext_scheme \<Rightarrow> web \<Rightarrow> config \<Rightarrow> string \<Rightarrow> page_q \<Rightarrow> 's \<Rightarrow>
   (api_err + stored_block list envelope) \<times> 's" where
  "blocks_by_addr E W c t p s =
     (case rbind (or_400 (addr_parse E t)) (\<lambda>a. rbind (after_of W p) (\<lambda>after.
             api (iter_blocks_by_creator E s a after (limit_of c p)))) of
        Inl e \<Rightarrow> (Inl e, s)
      | Inr pg \<Rightarrow>
          (case resolved_blocks E (items pg) s of
             (Inl e, s1) \<Rightarrow> (Inl (api_of_error e), s1)
           | (Inr bs, s1) \<Rightarrow> (Inr (paged W c bs (next_cursor pg)), s1)))"

record role_q = page_q +
  ql_role :: "string option"

definition ops_by_addr ::
  "('s, 'v, 'x) ext_scheme \<Rightarrow> web \<Rightarrow> config \<Rightarrow> string \<Rightarrow> role_q \<Rightarrow> 's \<Rightarrow>
   api_err + stored_operation list envelope" where
  "ops_by_addr E W c t q s =
     rbind (or_400 (addr_parse E t)) (\<lambda>a.
       rest_rows W c q
         (if unwrap_or ''creator'' (ql_role q) \<in> {''target'', ''recipient''} then iter_ops_by_target E s a
          else iter_ops_by_creator E s a) (read_op E s))"

definition received_ops_by_addr ::
  "('s, 'v, 'x) ext_scheme \<Rightarrow> web \<Rightarrow> config \<Rightarrow> string \<Rightarrow> page_q \<Rightarrow> 's \<Rightarrow>
   api_err + stored_operation list envelope" where
  "received_ops_by_addr E W c t p s =
     rbind (or_400 (addr_parse E t)) (\<lambda>a. rest_rows W c p (iter_ops_by_target E s a) (read_op E s))"

definition addr_endorsements ::
  "('s, 'v, 'x) ext_scheme \<Rightarrow> web \<Rightarrow> config \<Rightarrow> string \<Rightarrow> page_q \<Rightarrow> 's \<Rightarrow>
   api_err + stored_endorsement list envelope" where
  "addr_endorsements E W c t p s =
     rbind (or_400 (addr_parse E t)) (\<lambda>a.
       rest_rows W c p (iter_endorsements_by_creator E s a) (read_endorsement E s))"

definition addr_denunciations ::
  "('s, 'v, 'x) ext_scheme \<Rightarrow> web \<Rightarrow> config \<Rightarrow> string \<Rightarrow> page_q \<Rightarrow> 's \<Rightarrow>
   api_err + stored_denunciation_entry list envelope" where
  "addr_denunciations E W c t p s =
     rbind (or_400 (addr_parse E t)) (\<lambda>a. rest_pages W c p (iter_denunciations_by_addr E s a))"

definition addr_events ::
  "('s, 'v, 'x) ext_scheme \<Rightarrow> web \<Rightarrow> config \<Rightarrow> string \<Rightarrow> role_q \<Rightarrow> 's \<Rightarrow>
   api_err + stored_sc_event list envelope" where
  "addr_events E W c t q s =
     rbind (or_400 (addr_parse E t)) (\<lambda>a.
       rest_pages W c q
         (if unwrap_or ''emitter'' (ql_role q) = ''caller'' then iter_sc_events_by_caller E s a
          else iter_sc_events_by_emitter E s a))"

section \<open>Async pool and deferred calls\<close>

definition async_by_id ::
  "('s, 'v, 'x) ext_scheme \<Rightarrow> config \<Rightarrow> string \<Rightarrow> 's \<Rightarrow> api_err + stored_async_msg envelope" where
  "async_by_id E c i s =
     rbind (api (read_async_msg E s i)) (\<lambda>r.
     rbind (or_404 (''async message '' @ i @ '' not indexed'') r) (\<lambda>row. Inr (envelope_new c row)))"

definition deferred_by_id ::
  "('s, 'v, 'x) ext_scheme \<Rightarrow> config \<Rightarrow> string \<Rightarrow> 's \<Rightarrow> api_err + stored_deferred_call envelope" where
  "deferred_by_id E c i s =
     rbind (api (read_deferred_call E s i)) (\<lambda>r.
     rbind (or_404 (''deferred call '' @ i @ '' not indexed'') r) (\<lambda>row. Inr (envelope_new c row)))"

definition async_list ::
  "('s, 'v, 'x) ext_scheme \<Rightarrow> web \<Rightarrow> config \<Rightarrow> page_q \<Rightarrow> 's \<Rightarrow> api_err + stored_async_msg list envelope" where
  "async_list E W c p s = rest_pages W c p (iter_all_async E s)"

definition deferred_list ::
  "('s, 'v, 'x) ext_scheme \<Rightarrow> web \<Rightarrow> config \<Rightarrow> page_q \<Rightarrow> 's \<Rightarrow> api_err + stored_deferred_call list envelope" where
  "deferred_list E W c p s = rest_pages W c p (iter_all_deferred E s)"

definition addr_async ::
  "('s, 'v, 'x) ext_scheme \<Rightarrow> web \<Rightarrow> config \<Rightarrow> string \<Rightarrow> role_q \<Rightarrow> 's \<Rightarrow>
   api_err + stored_async_msg list envelope" where
  "addr_async E W c t q s =
     rbind (or_400 (addr_parse E t)) (\<lambda>a. rbind (after_of W q) (\<lambda>_.
     rbind (let role = unwrap_or ''sender'' (ql_role q) in
            if role \<in> {''destination'', ''dest''} then Inr AsyncDestination
            else if role = ''sender'' then Inr AsyncSender
            else Inl (ApiBad (''role must be sender|destination, got '' @ role))) (\<lambda>by_side.
       rest_pages W c q (iter_async_by_addr E s a by_side))))"

definition addr_deferred ::
  "('s, 'v, 'x) ext_scheme \<Rightarrow> web \<Rightarrow> config \<Rightarrow> string \<Rightarrow> role_q \<Rightarrow> 's \<Rightarrow>
   api_err + stored_deferred_call list envelope" where
  "addr_deferred E W c t q s =
     rbind (or_400 (addr_parse E t)) (\<lambda>a. rbind (after_of W q) (\<lambda>_.
     rbind (let role = unwrap_or ''sender'' (ql_role q) in
            if role = ''target'' then Inr DeferredTarget
            else if role = ''sender'' then Inr DeferredSender
            else Inl (ApiBad (''role must be sender|target, got '' @ role))) (\<lambda>by_side.
       rest_pages W c q (iter_deferred_by_addr E s a by_side))))"

section \<open>Questions to the node\<close>

definition addr_node_state ::
  "('s, 'v, 'x) ext_scheme \<Rightarrow> node_rpc \<Rightarrow> config \<Rightarrow> string \<Rightarrow> i64 \<Rightarrow> (api_err + address_node_state envelope) option" where
  "addr_node_state E N c t now_ms =
     (case or_400 (addr_parse E t) of
        Inl e \<Rightarrow> Some (Inl e)
      | Inr _ \<Rightarrow>
          map_option (\<lambda>r.
            rbind (rmap_err (\<lambda>e. ApiInternal (''node query failed: '' @ error_text e)) r) (\<lambda>st.
              Inr (envelope_new c st))) (fetch_address_state N t now_ms))"

definition addr_bytecode ::
  "('s, 'v, 'x) ext_scheme \<Rightarrow> node_rpc \<Rightarrow> string \<Rightarrow> api_err + string \<times> bytes" where
  "addr_bytecode E N t =
     rbind (or_400 (addr_parse E t)) (\<lambda>a.
     if take 2 t \<noteq> ''AS''
     then Inl (ApiNotFound (t @ '' is not a smart-contract address (AS'' @ map char_of [226 :: nat, 128, 166] @ '')''))
     else rbind (rmap_err (\<lambda>e. ApiInternal (''node query failed: '' @ error_text e)) (fetch_address_bytecode N t)) (\<lambda>r.
          rbind (or_404 (''no bytecode at address '' @ addr_text a) r) (\<lambda>b.
            Inr (addr_text a @ ''.wasm'', b))))"

section \<open>Search\<close>

datatype query_kind = QBlock | QOperation | QAddress | QSlot u64 u8 | QMnsName string | QUnknown

definition is_letter :: "char \<Rightarrow> bool" where
  "is_letter ch \<longleftrightarrow> (let n = of_char ch :: nat in 65 \<le> n \<and> n \<le> 90 \<or> 97 \<le> n \<and> n \<le> 122)"

definition is_dns_friendly :: "string \<Rightarrow> bool" where
  "is_dns_friendly q \<longleftrightarrow>
     q \<noteq> [] \<and> length q \<le> 64 \<and>
     (\<forall>ch \<in> set q. is_letter ch \<or> digit_value ch \<noteq> None \<or> ch = CHR ''-'' \<or> ch = CHR ''_'') \<and>
     (\<exists>ch \<in> set q. is_letter ch)"

definition strip_suffix :: "string \<Rightarrow> string \<Rightarrow> string option" where
  "strip_suffix q suffix =
     (if length suffix \<le> length q \<and> drop (length q - length suffix) q = suffix
      then Some (take (length q - length suffix) q) else None)"

definition slot_coords :: "char \<Rightarrow> string \<Rightarrow> (u64 \<times> u8) option" where
  "slot_coords sep q =
     (case split_once sep q of
        None \<Rightarrow> None
      | Some (a, b) \<Rightarrow>
          (case (parse_u64 (trim a), parse_u8 (trim b)) of (Some p, Some t) \<Rightarrow> Some (p, t) | _ \<Rightarrow> None))"

fun first_slot :: "char list \<Rightarrow> string \<Rightarrow> (u64 \<times> u8) option" where
  "first_slot [] q = None"
| "first_slot (sep # seps) q = (case slot_coords sep q of Some x \<Rightarrow> Some x | None \<Rightarrow> first_slot seps q)"

definition mns_suffix :: "string \<Rightarrow> string option" where
  "mns_suffix q = (case strip_suffix q ''.massa'' of
     Some stripped \<Rightarrow> if trim stripped = [] then None else Some (trim stripped) | None \<Rightarrow> None)"

definition classify :: "string \<Rightarrow> query_kind \<times> string" where
  "classify q =
     (case first_slot [CHR '','', CHR ''/'', CHR '' '', CHR '':''] q of
        Some (p, t) \<Rightarrow> (QSlot p t, [])
      | None \<Rightarrow>
          if take 1 q = ''B'' then (QBlock, q)
          else if take 1 q = ''O'' then (QOperation, q)
          else if take 2 q = ''AU'' \<or> take 2 q = ''AS'' then (QAddress, q)
          else (case mns_suffix q of
                  Some name \<Rightarrow> (QMnsName name, [])
                | None \<Rightarrow> if is_dns_friendly q then (QMnsName q, []) else (QUnknown, q)))"

definition quoted :: "string \<Rightarrow> string" where
  "quoted t = [CHR 0x27] @ t @ [CHR 0x27]"

datatype search_body =
    BlockHit "stored_block option"
  | OperationHit "stored_operation option"
  | AddressHit address "string option" "block_id list" "operation_id list"
  | SlotHit u64 u8 "slot_state option"

definition address_hit ::
  "('s, 'v, 'x) ext_scheme \<Rightarrow> 's \<Rightarrow> string option \<Rightarrow> address \<Rightarrow> api_err + search_body" where
  "address_hit E s name a =
     rbind (api (iter_blocks_by_creator E s a None 5)) (\<lambda>blocks.
     rbind (api (iter_ops_by_creator E s a None 5)) (\<lambda>ops.
       Inr (AddressHit a name (items blocks) (items ops))))"

definition search ::
  "('s, 'v, 'x) ext_scheme \<Rightarrow> node_rpc \<Rightarrow> config \<Rightarrow> string \<Rightarrow> 's \<Rightarrow> api_err + search_body envelope" where
  "search E N c t s =
     (let q = trim t in
      rbind (case classify q of
          (QBlock, v) \<Rightarrow> rbind (or_400 (block_parse E v)) (\<lambda>i. rbind (api (read_block E s i)) (\<lambda>r. Inr (BlockHit r)))
        | (QOperation, v) \<Rightarrow> rbind (or_400 (op_parse E v)) (\<lambda>i. rbind (api (read_op E s i)) (\<lambda>r. Inr (OperationHit r)))
        | (QAddress, v) \<Rightarrow> rbind (or_400 (addr_parse E v)) (address_hit E s None)
        | (QSlot p th, v) \<Rightarrow> rbind (api (read_slot E s p th)) (\<lambda>r. Inr (SlotHit p th r))
        | (QMnsName name, v) \<Rightarrow>
            (case mns_resolve N name of
               Inr (Some resolved) \<Rightarrow>
                 (case addr_parse E resolved of
                    Inr a \<Rightarrow> address_hit E s (Some (name @ ''.massa'')) a
                  | Inl e \<Rightarrow> Inl (ApiBad (''MNS '' @ quoted (name @ ''.massa'') @ '' resolved to a non-address value: '' @ e)))
             | Inr None \<Rightarrow> Inl (ApiNotFound (''MNS '' @ quoted (name @ ''.massa'') @ '' not registered''))
             | Inl e \<Rightarrow> Inl (ApiInternal (''MNS lookup for '' @ quoted (name @ ''.massa'') @ '' failed: '' @ error_text e)))
        | (QUnknown, v) \<Rightarrow> Inl (ApiBad (''could not classify query: '' @ q))) (\<lambda>body.
        Inr (envelope_new c body)))"

definition mns_resolve_handler ::
  "('s, 'v, 'x) ext_scheme \<Rightarrow> node_rpc \<Rightarrow> config \<Rightarrow> string \<Rightarrow> api_err + (string \<times> address) envelope" where
  "mns_resolve_handler E N c t =
     (let q = trim t; name = trim (unwrap_or q (strip_suffix q ''.massa'')) in
      if name = [] then Inl (ApiBad ''name cannot be empty'')
      else (case mns_resolve N name of
              Inr (Some resolved) \<Rightarrow>
                (case addr_parse E resolved of
                   Inr a \<Rightarrow> Inr (envelope_new c (name @ ''.massa'', a))
                 | Inl e \<Rightarrow> Inl (ApiInternal (''MNS contract returned non-address value '' @ quoted resolved @ '': '' @ e)))
            | Inr None \<Rightarrow> Inl (ApiNotFound (''MNS '' @ quoted (name @ ''.massa'') @ '' not registered''))
            | Inl e \<Rightarrow> Inl (ApiInternal (''MNS lookup failed: '' @ error_text e))))"

end
