(* ===== verification/Rest_Charts.thy ===== *)
theory Rest_Charts
  imports Rest_Feeds Repair
begin

text \<open>
  The charts and the exports (\<open>rest.rs\<close>).  Times are milliseconds; a slot's time is computed with the wrap-around of
  \<open>i64\<close>, and differences within a window are exact.  The value of a chart point is a quotient in floating
  point, kept as numerator and denominator.  The CSV writer and the JSON text of an origin are
  crates, parameters: an export is the list of its records.
\<close>

section \<open>Windows and buckets\<close>

record chart_q =
  cq_window_secs :: "i64 option"
  cq_bucket_secs :: "i64 option"

definition chart_resolve :: "chart_q \<Rightarrow> int \<times> int" where
  "chart_resolve q =
     (let window = clamp (unwrap_or 3600 (map_option sint (cq_window_secs q))) 60 (7 * 24 * 3600);
          bucket = clamp (unwrap_or (max (window div 120) 10) (map_option sint (cq_bucket_secs q))) 10 window
      in (window, bucket))"

definition fetch_recent_slots :: "('s, 'v, 'x) ext_scheme \<Rightarrow> nat \<Rightarrow> 's \<Rightarrow> api_err + slot_state list" where
  "fetch_recent_slots E cap s = rbind (api (iter_slots_desc E s None cap)) (\<lambda>pg. Inr (items pg))"

definition slot_ts_ms :: "slot \<Rightarrow> i64 \<Rightarrow> i64 \<Rightarrow> u8 \<Rightarrow> i64" where
  "slot_ts_ms sl genesis_ts_ms t0_ms thread_count =
     (let tc = unat (max thread_count 1) in
      genesis_ts_ms + sl_period sl * t0_ms + div_towards_zero (ucast (sl_thread sl) * t0_ms) tc)"

definition chain_params :: "('s, 'v, 'x) ext_scheme \<Rightarrow> 's \<Rightarrow> i64 \<times> i64 \<times> u8" where
  "chain_params E s =
     (case read_meta E s of
        Inr (Some m) \<Rightarrow> (mr_genesis_timestamp_ms m, mr_t0_ms m, mr_thread_count m)
      | _ \<Rightarrow> (0, 16000, 32))"

record chart_window =
  cw_from_ms :: int
  cw_now :: int
  cw_bucket_ms :: int
  cw_buckets :: nat
  cw_params :: "i64 \<times> i64 \<times> u8"

definition chart_window_of :: "('s, 'v, 'x) ext_scheme \<Rightarrow> chart_q \<Rightarrow> i64 \<Rightarrow> 's \<Rightarrow> chart_window" where
  "chart_window_of E q now s =
     (case chart_resolve q of (window, bucket) \<Rightarrow>
        \<lparr>cw_from_ms = sint now - window * 1000, cw_now = sint now, cw_bucket_ms = bucket * 1000,
         cw_buckets = nat (max ((window + bucket - 1) div bucket) 1), cw_params = chain_params E s\<rparr>)"

definition slot_time :: "chart_window \<Rightarrow> slot_state \<Rightarrow> i64" where
  "slot_time w sl = (case cw_params w of (gen_ms, t0_ms, tc) \<Rightarrow> slot_ts_ms (st_slot sl) gen_ms t0_ms tc)"

definition slot_bucket :: "chart_window \<Rightarrow> slot_state \<Rightarrow> nat option" where
  "slot_bucket w sl =
     (let ts = sint (slot_time w sl); idx = nat ((ts - cw_from_ms w) div cw_bucket_ms w) in
      if ts < cw_from_ms w \<or> cw_now w < ts \<or> cw_buckets w \<le> idx then None else Some idx)"

text \<open>Adding each slot of the window to its bucket.\<close>

fun bucket_tally :: "chart_window \<Rightarrow> (slot_state \<Rightarrow> 'b \<Rightarrow> 'b) \<Rightarrow> slot_state list \<Rightarrow> 'b list \<Rightarrow> 'b list" where
  "bucket_tally w add [] bs = bs"
| "bucket_tally w add (sl # sls) bs =
     bucket_tally w add sls (case slot_bucket w sl of None \<Rightarrow> bs | Some i \<Rightarrow> bs[i := add sl (bs ! i)])"

record chart_point =
  cp_ts_ms :: int
  cp_num :: int
  cp_den :: int

definition chart_points :: "chart_window \<Rightarrow> ('b \<Rightarrow> int \<times> int) \<Rightarrow> 'b list \<Rightarrow> chart_point list" where
  "chart_points w quot bs =
     map (\<lambda>(i, b). \<lparr>cp_ts_ms = cw_from_ms w + int i * cw_bucket_ms w, cp_num = fst (quot b), cp_den = snd (quot b)\<rparr>)
       (List.enumerate 0 bs)"

definition CHART_SLOTS :: nat where "CHART_SLOTS = 20000"

definition chart_throughput ::
  "('s, 'v, 'x) ext_scheme \<Rightarrow> config \<Rightarrow> chart_q \<Rightarrow> i64 \<Rightarrow> 's \<Rightarrow> api_err + chart_point list envelope" where
  "chart_throughput E c q now s =
     (let w = chart_window_of E q now s in
      rbind (fetch_recent_slots E CHART_SLOTS s) (\<lambda>slots.
        Inr (envelope_new c (chart_points w (\<lambda>n. (int n, cw_bucket_ms w div 1000))
          (bucket_tally w (\<lambda>sl n. n + length (st_executed_op_ids sl)) slots (replicate (cw_buckets w) 0))))))"

definition blocks_in_slot :: "slot_state \<Rightarrow> nat" where
  "blocks_in_slot sl =
     length (st_candidate_block_ids sl) +
     (if is_some (st_final_block_id sl) \<and> \<not> (\<exists>b \<in> set (st_candidate_block_ids sl). Some b = st_final_block_id sl)
      then 1 else 0)"

definition chart_blocks_per_slot ::
  "('s, 'v, 'x) ext_scheme \<Rightarrow> config \<Rightarrow> chart_q \<Rightarrow> i64 \<Rightarrow> 's \<Rightarrow> api_err + chart_point list envelope" where
  "chart_blocks_per_slot E c q now s =
     (let w = chart_window_of E q now s in
      rbind (fetch_recent_slots E CHART_SLOTS s) (\<lambda>slots.
        Inr (envelope_new c (chart_points w (\<lambda>(b, t). if t = 0 then (0, 1) else (int b, int t))
          (bucket_tally w (\<lambda>sl (b, t). (b + blocks_in_slot sl, t + 1)) slots (replicate (cw_buckets w) (0, 0 :: nat)))))))"

definition finality_lag :: "chart_window \<Rightarrow> slot_state \<Rightarrow> i64" where
  "finality_lag w sl = (let d = st_last_updated_ts_ms sl - slot_time w sl in if sint d < 0 then 0 else d)"

definition chart_finality_lag ::
  "('s, 'v, 'x) ext_scheme \<Rightarrow> config \<Rightarrow> chart_q \<Rightarrow> i64 \<Rightarrow> 's \<Rightarrow> api_err + chart_point list envelope" where
  "chart_finality_lag E c q now s =
     (let w = chart_window_of E q now s in
      rbind (fetch_recent_slots E CHART_SLOTS s) (\<lambda>slots.
        Inr (envelope_new c (chart_points w (\<lambda>(d, n). if n = 0 then (0, 1) else (sint d, int n * 1000))
          (bucket_tally w (\<lambda>sl (d, n). (d + finality_lag w sl, n + 1)) (filter (\<lambda>sl. st_status sl = SlotFinal) slots)
            (replicate (cw_buckets w) (0, 0 :: nat)))))))"

definition active_creators :: "('s, 'v, 'x) ext_scheme \<Rightarrow> 's \<Rightarrow> slot_state \<Rightarrow> string list" where
  "active_creators E s sl =
     List.map_filter (\<lambda>i. case read_op E s i of Inr (Some o1) \<Rightarrow> Some (addr_text (op_creator o1)) | _ \<Rightarrow> None)
       (st_executed_op_ids sl)"

definition chart_active_addresses ::
  "('s, 'v, 'x) ext_scheme \<Rightarrow> config \<Rightarrow> chart_q \<Rightarrow> i64 \<Rightarrow> 's \<Rightarrow> api_err + chart_point list envelope" where
  "chart_active_addresses E c q now s =
     (let w = chart_window_of E q now s in
      rbind (fetch_recent_slots E CHART_SLOTS s) (\<lambda>slots.
        Inr (envelope_new c (chart_points w (\<lambda>seen. (int (length seen), 1))
          (bucket_tally w (\<lambda>sl seen. fold List.insert (active_creators E s sl) seen) slots (replicate (cw_buckets w) []))))))"

section \<open>Exports\<close>

record export_q =
  eq_from_period :: "u64 option"
  eq_to_period :: "u64 option"
  eq_limit :: "nat option"

definition in_export_range :: "export_q \<Rightarrow> u64 \<Rightarrow> bool" where
  "in_export_range q period \<longleftrightarrow>
     (case eq_from_period q of Some fp \<Rightarrow> fp \<le> period | None \<Rightarrow> True) \<and>
     (case eq_to_period q of Some tp \<Rightarrow> period \<le> tp | None \<Rightarrow> True)"

definition EXPORT_BATCH :: nat where "EXPORT_BATCH = 10000"

function gather_transfers ::
  "(bytes option \<Rightarrow> nat \<Rightarrow> error + 'a page) \<Rightarrow> nat \<Rightarrow> bytes option \<Rightarrow> 'a list \<Rightarrow> error + 'a list" where
  "gather_transfers fetch cap cursor got =
     (if cap \<le> length got then Inr got
      else (case fetch cursor (min EXPORT_BATCH (cap - length got)) of
              Inl e \<Rightarrow> Inl e
            | Inr pg \<Rightarrow>
                if items pg = [] then Inr got
                else (case next_cursor pg of
                        None \<Rightarrow> Inr (got @ items pg)
                      | Some k \<Rightarrow> gather_transfers fetch cap (Some k) (got @ items pg))))"
  by pat_completeness auto
termination
  by (relation "measure (\<lambda>(fetch, cap, cursor, got). cap - length got)") (auto simp: neq_Nil_conv)

declare gather_transfers.simps [simp del]

fun value_columns :: "transfer_value \<Rightarrow> string \<times> string" where
  "value_columns (Coins n) = (''coins'', show_nat (unat n))"
| "value_columns (Rolls n) = (''rolls'', show_nat (unat n))"
| "value_columns (DeferredCredits n) = (''deferred_credits'', show_nat (unat n))"
| "value_columns ValueUnknown = (''unknown'', ''0'')"

definition transfer_record :: "(coin_origin \<Rightarrow> string) \<Rightarrow> stored_transfer \<Rightarrow> string list" where
  "transfer_record origin_json t =
     [show_nat (unat (sl_period (tr_slot t))), show_nat (unat (sl_thread (tr_slot t))),
      show_nat (unat (tr_index_in_slot t)), fst (value_columns (tr_value t)), snd (value_columns (tr_value t)),
      origin_json (tr_origin t), unwrap_or [] (tr_from t), unwrap_or [] (tr_to t), unwrap_or [] (tr_operation_id t),
      unwrap_or [] (tr_async_msg_id t), unwrap_or [] (tr_deferred_call_id t), unwrap_or [] (tr_block_id t)]"

definition transfer_header :: "string list" where
  "transfer_header =
     [''period'', ''thread'', ''index'', ''kind'', ''amount_nmas_or_rolls'', ''origin'', ''from'', ''to'',
      ''operation_id'', ''async_msg_id'', ''deferred_call_id'', ''block_id'']"

definition export_addr_transfers_csv ::
  "('s, 'v, 'x) ext_scheme \<Rightarrow> (coin_origin \<Rightarrow> string) \<Rightarrow> string \<Rightarrow> export_q \<Rightarrow> 's \<Rightarrow> api_err + string list list" where
  "export_addr_transfers_csv E origin_json t q s =
     rbind (or_400 (addr_parse E t)) (\<lambda>a.
     rbind (api (gather_transfers (iter_transfers_by_addr E s a) (min (unwrap_or 100000 (eq_limit q)) 500000) None [])) (\<lambda>ts.
       Inr (transfer_header # map (transfer_record origin_json)
              (filter (\<lambda>x. in_export_range q (sl_period (tr_slot x))) ts))))"

fun slot_status_text :: "slot_status \<Rightarrow> string" where
  "slot_status_text SlotUnknown = ''unknown''"
| "slot_status_text SlotCandidate = ''candidate''"
| "slot_status_text SlotFinal = ''final''"

definition bool_text :: "bool \<Rightarrow> string" where
  "bool_text b = (if b then ''true'' else ''false'')"

definition slot_record :: "slot_state \<Rightarrow> string list" where
  "slot_record sl =
     [show_nat (unat (sl_period (st_slot sl))), show_nat (unat (sl_thread (st_slot sl))), slot_status_text (st_status sl),
      bool_text (st_is_miss sl), unwrap_or [] (map_option id_text (st_final_block_id sl)),
      show_nat (length (st_candidate_block_ids sl)), show_nat (length (st_executed_op_ids sl)),
      show_nat (unat (st_sc_event_count sl))]"

definition slot_header :: "string list" where
  "slot_header =
     [''period'', ''thread'', ''status'', ''is_miss'', ''final_block_id'', ''candidate_count'', ''executed_ops'', ''sc_events'']"

definition export_slots_csv :: "('s, 'v, 'x) ext_scheme \<Rightarrow> export_q \<Rightarrow> 's \<Rightarrow> api_err + string list list" where
  "export_slots_csv E q s =
     rbind (fetch_recent_slots E (min (unwrap_or 10000 (eq_limit q)) 100000) s) (\<lambda>slots.
       Inr (slot_header # map slot_record (filter (\<lambda>sl. in_export_range q (sl_period (st_slot sl))) slots)))"

text \<open>\<open>str::trim_end_matches\<close> removes the suffix as often as it stands at the end.\<close>

function trim_end_matches :: "string \<Rightarrow> string \<Rightarrow> string" where
  "trim_end_matches q suffix =
     (case strip_suffix q suffix of
        Some r \<Rightarrow> if suffix = [] then q else trim_end_matches r suffix
      | None \<Rightarrow> q)"
  by pat_completeness auto
termination
  by (relation "measure (\<lambda>(q, suffix). length q)") (auto simp: strip_suffix_def neq_Nil_conv split: if_splits)

declare trim_end_matches.simps [simp del]

record op_bundle =
  ob_network :: string
  ob_operation :: stored_operation
  ob_transfers :: "stored_transfer list"
  ob_events :: "stored_sc_event list"

definition export_op_json ::
  "('s, 'v, 'x) ext_scheme \<Rightarrow> config \<Rightarrow> string \<Rightarrow> 's \<Rightarrow> api_err + op_bundle" where
  "export_op_json E c t s =
     rbind (or_400 (op_parse E (trim_end_matches t ''.json''))) (\<lambda>oid.
     rbind (api (read_op E s oid)) (\<lambda>r.
     rbind (or_404 ''operation'' r) (\<lambda>o1.
     rbind (api (iter_transfers_by_op E s oid None 10000)) (\<lambda>ts.
     rbind (api (iter_sc_events_by_op E s oid None 10000)) (\<lambda>evs.
       Inr \<lparr>ob_network = gs_network (cf_general c), ob_operation = o1, ob_transfers = items ts, ob_events = items evs\<rparr>)))))"

end
