(* ===== verification/Rest_Laws.thy ===== *)
theory Rest_Laws
  imports Rest_Feeds Rest_Charts Listings
begin

text \<open>
  Laws of the REST handlers: a client that follows the cursors of an endpoint reads the whole listing behind it, a
  window walk reads the block's own list, the union of transfers is the newest part of both, and the
  status of a block follows its slot.
\<close>

section \<open>Cursors\<close>

text \<open>What the base64 crate documents: decoding inverts encoding, and only the empty input has an empty text.\<close>

definition b64_ok :: "web \<Rightarrow> bool" where
  "b64_ok W \<longleftrightarrow> (\<forall>b. b64_decode W (b64_encode W b) = Some b \<and> (b64_encode W b = [] \<longrightarrow> b = []))"

lemma decode_encode_cursor: "b64_ok W \<Longrightarrow> k \<noteq> [] \<Longrightarrow> decode_cursor W (encode_cursor W k) = Inr (Some k)"
  by (auto simp: b64_ok_def decode_cursor_def encode_cursor_def)

definition page_req :: "nat option \<Rightarrow> string option \<Rightarrow> page_q" where
  "page_req lim cursor = \<lparr>pq_limit = lim, pq_cursor = cursor\<rparr>"

lemma page_req_simps [simp]: "pq_limit (page_req l k) = l" "pq_cursor (page_req l k) = k"
  by (simp_all add: page_req_def)

definition req_limit :: "config \<Rightarrow> nat option \<Rightarrow> nat" where
  "req_limit c lim = limit_of c (page_req lim None)"

lemma limit_of_req [simp]: "limit_of c (page_req lim cursor) = req_limit c lim"
  by (simp add: req_limit_def limit_of_def)

lemma clamp_bounds: "lo \<le> hi \<Longrightarrow> lo \<le> clamp x lo hi" "lo \<le> hi \<Longrightarrow> clamp x lo hi \<le> hi"
  by (auto simp: clamp_def)

lemma effective_max_bounds: "1 \<le> effective_max_page_size c" "effective_max_page_size c \<le> HARD_MAX_PAGE_SIZE"
  unfolding effective_max_page_size_def by (rule clamp_bounds, simp add: HARD_MAX_PAGE_SIZE_def)+

lemma limit_bounds: "1 \<le> limit_of c p" "limit_of c p \<le> HARD_MAX_PAGE_SIZE"
  unfolding limit_of_def
  by (rule clamp_bounds(1) [OF effective_max_bounds(1)],
      rule order_trans [OF clamp_bounds(2) [OF effective_max_bounds(1)] effective_max_bounds(2)])

lemma req_limit_pos [simp]: "0 < req_limit c lim"
  unfolding req_limit_def using limit_bounds(1) [of c "page_req lim None"] by linarith

text \<open>A client that asks for pages until no cursor comes back, at most \<open>fuel\<close> of them.\<close>

fun client_walk :: "(page_q \<Rightarrow> api_err + 'a list envelope) \<Rightarrow> nat option \<Rightarrow> nat \<Rightarrow> string option \<Rightarrow> api_err + 'a list" where
  "client_walk handler lim 0 cursor = Inr []"
| "client_walk handler lim (Suc n) cursor =
     rbind (handler (page_req lim cursor)) (\<lambda>e.
       case el_cursor_next e of
         None \<Rightarrow> Inr (el_data e)
       | Some k \<Rightarrow> rbind (client_walk handler lim n (Some k)) (\<lambda>xs. Inr (el_data e @ xs)))"

lemma paged_simps [simp]:
  "el_data (paged W c xs k) = xs"
  "el_cursor_next (paged W c xs k) = map_option (encode_cursor W) k"
  "el_has_more (paged W c xs k) \<longleftrightarrow> k \<noteq> None"
  by (simp_all add: paged_def with_cursor_def envelope_new_def split: option.split)

locale cursor_walk = paginated ok before valid "\<lambda>after. fetch after limit" listing limit
  for ok before valid and fetch :: "bytes option \<Rightarrow> nat \<Rightarrow> error + 'a page" and listing limit +
  fixes W :: web and c :: config and lim :: "nat option"
  assumes b64: "ok \<Longrightarrow> b64_ok W"
    and valid_nonempty: "ok \<Longrightarrow> valid k \<Longrightarrow> k \<noteq> []"
    and limit_req: "ok \<Longrightarrow> limit = req_limit c lim"
begin

lemma client_from:
  assumes ok
  shows "(\<And>a. after = Some a \<Longrightarrow> valid a) \<Longrightarrow> length (past before after listing) < fuel \<Longrightarrow>
    client_walk (\<lambda>p. rest_pages W c p fetch) lim fuel (map_option (encode_cursor W) after) =
      Inr (map snd (past before after listing))"
proof (induction fuel arbitrary: after)
  case 0
  then show ?case by simp
next
  case (Suc n)
  let ?rest = "past before after listing"
  obtain p where p: "fetch after limit = Inr p" "full_page limit ?rest p"
    using fetch_page [OF assms Suc.prems(1)] by blast
  have after: "after_of W (page_req lim (map_option (encode_cursor W) after)) = Inr after"
    using decode_encode_cursor [OF b64 [OF assms] valid_nonempty [OF assms Suc.prems(1)]]
    by (cases after) (simp_all add: after_of_def)
  have h: "rest_pages W c (page_req lim (map_option (encode_cursor W) after)) fetch =
      Inr (paged W c (items p) (next_cursor p))"
    using p(1) limit_req [OF assms] by (simp add: rest_pages_def after api_def)
  show ?case
  proof (cases "next_cursor p")
    case None
    with p h show ?thesis
      by (simp add: full_page_def)
  next
    case (Some k)
    with p have k: "limit \<le> length ?rest" "k = fst (?rest ! (limit - 1))"
      by (simp_all add: full_page_def)
    then have rest: "past before (Some k) listing = drop limit ?rest"
      using past_drop [OF assms _ refl, of "limit - 1" after] limit_pos [OF assms] by simp
    have "?rest ! (limit - 1) \<in> set listing"
    proof -
      have "?rest ! (limit - 1) \<in> set ?rest"
        using k(1) limit_pos [OF assms] by (intro nth_mem) linarith
      moreover have "set ?rest \<subseteq> set listing"
        by (cases after) (auto simp: past_def)
      ultimately show ?thesis by blast
    qed
    then have "valid k"
      using keys_valid [OF assms, of k "snd (?rest ! (limit - 1))"] k(2) by simp
    then have "client_walk (\<lambda>p. rest_pages W c p fetch) lim n (map_option (encode_cursor W) (Some k)) =
        Inr (map snd (past before (Some k) listing))"
      by (intro Suc.IH) (use Suc.prems(2) k(1) limit_pos [OF assms] rest in simp_all)
    with p Some h rest show ?thesis
      by (simp add: full_page_def flip: map_append)
  qed
qed

lemma client_all:
  "ok \<Longrightarrow> length listing < fuel \<Longrightarrow>
   client_walk (\<lambda>p. rest_pages W c p fetch) lim fuel None = Inr (map snd listing)"
  using client_from [of None fuel] by (simp add: past_def)

end

lemma prefix_le_nonempty: "prefix \<noteq> [] \<Longrightarrow> prefix \<le> k \<Longrightarrow> k \<noteq> ([] :: bytes)"
  by auto

interpretation event_walk: cursor_walk "db_ok E R \<and> b64_ok W \<and> prefix \<noteq> [] \<and> limit = req_limit c lim" "(<)"
    "\<lambda>a. prefix \<le> a \<and> prefix \<noteq> []" "iter_sc_events_with_prefix E s idx prefix"
    "prefix_listing (R s idx) prefix (\<lambda>k v. event_of_key E (table R s) k)" limit W c lim
  for E :: "('s, 'v, 'x) ext_scheme" and R s idx prefix limit W c lim
proof
  fix after
  assume "db_ok E R \<and> b64_ok W \<and> prefix \<noteq> [] \<and> limit = req_limit c lim"
    and "\<And>a. after = Some a \<Longrightarrow> prefix \<le> a \<and> prefix \<noteq> []"
  then show "\<exists>p. iter_sc_events_with_prefix E s idx prefix after limit = Inr p \<and>
      full_page limit (past (<) after (prefix_listing (R s idx) prefix (\<lambda>k v. event_of_key E (table R s) k))) p"
    by (intro event_pages.fetch_page) auto
qed (auto intro: prefix_listing_sorted db_okD(2) dest: prefix_listing_keys)

interpretation transfer_walk: cursor_walk "db_ok E R \<and> b64_ok W \<and> prefix \<noteq> [] \<and> limit = req_limit c lim" "(<)"
    "\<lambda>a. prefix \<le> a \<and> prefix \<noteq> []" "iter_transfers_via_idx E s idx prefix"
    "prefix_listing (R s idx) prefix (\<lambda>k v. transfer_of_key E (table R s) k)" limit W c lim
  for E :: "('s, 'v, 'x) ext_scheme" and R s idx prefix limit W c lim
proof
  fix after
  assume "db_ok E R \<and> b64_ok W \<and> prefix \<noteq> [] \<and> limit = req_limit c lim"
    and "\<And>a. after = Some a \<Longrightarrow> prefix \<le> a \<and> prefix \<noteq> []"
  then show "\<exists>p. iter_transfers_via_idx E s idx prefix after limit = Inr p \<and>
      full_page limit (past (<) after (prefix_listing (R s idx) prefix (\<lambda>k v. transfer_of_key E (table R s) k))) p"
    by (intro transfer_pages.fetch_page) auto
qed (auto intro: prefix_listing_sorted db_okD(2) dest: prefix_listing_keys)

section \<open>Slots\<close>

lemma slot_listing_key:
  assumes "db_ok E R" "slot_table_ok E (table R s)" "(k, st) \<in> set (slot_listing E (R s CF_SLOT))"
  shows "k = slot_row_key (st_slot st)" "slot_stored E R s st"
proof -
  obtain v where "table R s CF_SLOT k = Some v" "decode_slot_state E v = Inr st"
    using assms(3) by (auto simp: slot_listing_def visible_in in_rows_iff [OF db_okD(2) [OF assms(1)]])
  then show "k = slot_row_key (st_slot st)" "slot_stored E R s st"
    using assms(2) unfolding slot_table_ok_def slot_stored_def by fastforce+
qed

lemma slot_row_key_nonempty: "slot_row_key sl \<noteq> []"
  by (simp add: slot_row_key_def slot_key_def)

interpretation slot_walk: cursor_walk
    "db_ok E R \<and> slot_table_ok E (table R s) \<and> b64_ok W \<and> limit = req_limit c lim" "(>)" "\<lambda>a. a \<noteq> []"
    "iter_slots_desc E s" "slot_listing E (R s CF_SLOT)" limit W c lim
  for E :: "('s, 'v, 'x) ext_scheme" and R s limit W c lim
proof
  fix after :: "bytes option"
  assume "db_ok E R \<and> slot_table_ok E (table R s) \<and> b64_ok W \<and> limit = req_limit c lim"
  then show "\<exists>p. iter_slots_desc E s after limit = Inr p \<and>
      full_page limit (past (>) after (slot_listing E (R s CF_SLOT))) p"
    by (intro slot_pages.fetch_page) auto
next
  assume "db_ok E R \<and> slot_table_ok E (table R s) \<and> b64_ok W \<and> limit = req_limit c lim"
  then show "sorted_wrt (>) (map fst (slot_listing E (R s CF_SLOT)))"
    by (intro slot_pages.ordered [of _ _ _ 1]) auto
next
  fix k st
  assume "db_ok E R \<and> slot_table_ok E (table R s) \<and> b64_ok W \<and> limit = req_limit c lim"
    and "(k, st) \<in> set (slot_listing E (R s CF_SLOT))"
  then show "k \<noteq> []"
    using slot_listing_key(1) [of E R s k st] slot_row_key_nonempty [of "st_slot st"] by simp
qed auto

definition range_req :: "u64 option \<Rightarrow> u8 option \<Rightarrow> page_q \<Rightarrow> slots_range_q" where
  "range_req fp ft p = \<lparr>pq_limit = pq_limit p, pq_cursor = pq_cursor p, sq_from_period = fp, sq_from_thread = ft\<rparr>"

lemma slots_range_later:
  "slots_range E W c (range_req fp ft (page_req lim (Some k))) s =
     rest_pages W c (page_req lim (Some k)) (iter_slots_desc E s)"
  by (simp add: slots_range_def rest_pages_def range_start_def range_req_def after_of_def limit_of_def)

lemma client_walk_later:
  "(\<And>k. h (page_req lim (Some k)) = h' (page_req lim (Some k))) \<Longrightarrow>
   client_walk h lim n (Some k) = client_walk h' lim n (Some k)"
proof (induction n arbitrary: k)
  case (Suc n)
  have "(\<lambda>e. case el_cursor_next e of None \<Rightarrow> Inr (el_data e)
        | Some k \<Rightarrow> rbind (client_walk h lim n (Some k)) (\<lambda>xs. Inr (el_data e @ xs))) =
      (\<lambda>e. case el_cursor_next e of None \<Rightarrow> Inr (el_data e)
        | Some k \<Rightarrow> rbind (client_walk h' lim n (Some k)) (\<lambda>xs. Inr (el_data e @ xs)))"
    by (rule ext) (simp add: Suc split: option.split)
  then show ?case
    unfolding client_walk.simps Suc.prems by (rule arg_cong)
qed simp

lemma slots_range_start:
  assumes "b64_ok W"
  shows "slots_range E W c (range_req (Some p) ft (page_req lim None)) s =
    rest_pages W c (page_req lim (Some (encode_cursor W (slot_key p (unwrap_or 31 ft) @ [0])))) (iter_slots_desc E s)"
  using decode_encode_cursor [OF assms, of "slot_key p (unwrap_or 31 ft) @ [0]"]
  by (simp add: slots_range_def rest_pages_def range_start_def range_req_def after_of_def limit_of_def)

lemma slots_range_walk:
  assumes "db_ok E R" "slot_table_ok E (table R s)" "b64_ok W" "length (R s CF_SLOT) < fuel"
  shows "client_walk (\<lambda>q. slots_range E W c (range_req (Some p) ft q) s) lim fuel None =
    Inr (map snd (past (>) (Some (slot_key p (unwrap_or 31 ft) @ [0])) (slot_listing E (R s CF_SLOT))))"
proof -
  let ?k = "slot_key p (unwrap_or 31 ft) @ [0]"
  obtain n where n: "fuel = Suc n" using assms(4) by (cases fuel) auto
  have later: "client_walk (\<lambda>q. slots_range E W c (range_req (Some p) ft q) s) lim n (Some k) =
      client_walk (\<lambda>q. rest_pages W c q (iter_slots_desc E s)) lim n (Some k)" for k
    by (rule client_walk_later) (rule slots_range_later)
  have "client_walk (\<lambda>q. slots_range E W c (range_req (Some p) ft q) s) lim fuel None =
      client_walk (\<lambda>q. rest_pages W c q (iter_slots_desc E s)) lim fuel (Some (encode_cursor W ?k))"
    unfolding n client_walk.simps slots_range_start [OF assms(3)] later ..
  moreover have "length (past (>) (Some ?k) (slot_listing E (R s CF_SLOT))) < fuel"
    using length_slot_listing [of E "R s CF_SLOT"] assms(4)
    by (auto simp: past_def intro: le_less_trans [OF length_filter_le])
  ultimately show ?thesis
    using slot_walk.client_from [of E R s W "req_limit c lim" c lim "Some ?k" fuel] assms by simp
qed

lemma slots_range_members:
  assumes "db_ok E R" "slot_table_ok E (table R s)"
    and xs_def: "xs = map snd (past (>) (Some (slot_key p t @ [0])) (slot_listing E (R s CF_SLOT)))"
  shows "(\<forall>st. st \<in> set xs \<longleftrightarrow> slot_stored E R s st \<and> \<not> slot_lt (Slot p t) (st_slot st)) \<and>
    sorted_wrt (\<lambda>a b. slot_lt (st_slot b) (st_slot a)) xs"
proof -
  let ?l = "slot_listing E (R s CF_SLOT)"
  note spec = slot_listing_spec [OF assms(1,2)]
  have key: "slot_key p t @ [0] > k \<longleftrightarrow> \<not> slot_lt (Slot p t) (st_slot st)" if "(k, st) \<in> set ?l" for k st
  proof -
    have k: "k = slot_row_key (st_slot st)" by (rule slot_listing_key [OF assms(1,2) that])
    have sk: "slot_key p t = slot_row_key (Slot p t)" by (simp add: slot_row_key_def Slot_def)
    have len: "length (slot_row_key (Slot p t)) = length (slot_row_key (st_slot st))"
      by (simp add: slot_row_key_def slot_key_def)
    show ?thesis
      unfolding k sk below_successor [OF len [symmetric]] by (simp add: slot_row_key_less flip: not_less)
  qed
  have xs: "xs = map snd (filter (\<lambda>(k, st). \<not> slot_lt (Slot p t) (st_slot st)) ?l)"
    unfolding xs_def past_def option.case
    by (rule arg_cong [where f = "map snd"], rule filter_cong) (auto simp: key)
  then have "xs = filter (\<lambda>st. \<not> slot_lt (Slot p t) (st_slot st)) (map snd ?l)"
    by (simp add: filter_map comp_def case_prod_unfold)
  then show ?thesis
    using spec by (auto simp: sorted_wrt_filter)
qed

section \<open>The status of a block\<close>

definition settled_status :: "stored_block \<Rightarrow> slot_state option \<Rightarrow> block_status" where
  "settled_status b slot1 =
     (if bk_status b = SeenCandidate
      then (case slot1 of
              Some sl \<Rightarrow> if st_status sl = SlotFinal
                         then if st_final_block_id sl = Some (bk_id b) then BlockFinal else Discarded
                         else SeenCandidate
            | None \<Rightarrow> SeenCandidate)
      else bk_status b)"

lemma resolve_settled: "bk_status b \<noteq> SeenCandidate \<Longrightarrow> resolve_block_status E b s = (Inr b, s)"
  unfolding resolve_block_status_def by (cases "bk_status b") simp_all
lemma resolve_final:
  assumes "bk_status b = SeenCandidate" "read_slot E s (sl_period (bk_slot b)) (sl_thread (bk_slot b)) = Inr (Some sl)"
    and "st_status sl = SlotFinal" "b' = b\<lparr>bk_status := settled_status b (Some sl)\<rparr>"
  shows "resolve_block_status E b s = (Inr b', snd (write_block E b' s))"
  unfolding resolve_block_status_def Let_def settled_status_def assms
  by (cases "st_final_block_id sl = Some (bk_id b)")
    (simp_all only: assms(3) block_status.distinct simp_thms if_True if_False sum.case option.case)

lemma resolve_open:
  assumes "bk_status b = SeenCandidate" "read_slot E s (sl_period (bk_slot b)) (sl_thread (bk_slot b)) = Inr slot1"
    and "\<And>sl. slot1 = Some sl \<Longrightarrow> st_status sl \<noteq> SlotFinal"
  shows "resolve_block_status E b s = (Inr b, s)"
  unfolding resolve_block_status_def Let_def settled_status_def assms(1,2)
  using assms(3) by (cases slot1) simp_all

lemma resolve_block_run:
  assumes "db_ok E R" "wf_block E b" "get_decoded E s CF_BLOCK (id_key (bk_id b)) (decode_block E) = Inr (Some b)"
    and "read_slot E s (sl_period (bk_slot b)) (sl_thread (bk_slot b)) = Inr slot1"
    and "b' = b\<lparr>bk_status := settled_status b slot1\<rparr>"
  shows "\<exists>s'. resolve_block_status E b s = (Inr b', s') \<and>
    (\<forall>k. get_decoded E s' CF_BLOCK k (decode_block E) =
      (if k = id_key (bk_id b) then Inr (Some b') else get_decoded E s CF_BLOCK k (decode_block E))) \<and>
    (b' = b \<longrightarrow> s' = s)"
proof (cases "\<exists>sl. bk_status b = SeenCandidate \<and> slot1 = Some sl \<and> st_status sl = SlotFinal")
  case False
  then have "settled_status b slot1 = bk_status b"
    by (auto simp: settled_status_def split: option.split)
  then have same: "b' = b" unfolding assms(5) by simp
  have "resolve_block_status E b s = (Inr b, s)"
    using False resolve_settled [of b E s] resolve_open [OF _ assms(4)] by (cases "bk_status b = SeenCandidate") auto
  with same assms(3) show ?thesis by auto
next
  case True
  then obtain sl where sl: "bk_status b = SeenCandidate" "slot1 = Some sl" "st_status sl = SlotFinal" by blast
  then have changed: "b' \<noteq> b"
    unfolding assms(5) settled_status_def by (auto dest: arg_cong [where f = bk_status])
  have res: "resolve_block_status E b s = (Inr b', snd (write_block E b' s))"
    by (rule resolve_final [OF sl(1) assms(4) [unfolded sl(2)] sl(3) assms(5) [unfolded sl(2)]])
  have wf: "wf_block E b'"
    using assms(2) unfolding assms(5) wf_block_def by simp
  obtain t where t: "write_block E b' s = (Inr (), t)"
      "\<forall>k. get_decoded E t CF_BLOCK k (decode_block E) =
        (if k = id_key (bk_id b') then Inr (Some b') else get_decoded E s CF_BLOCK k (decode_block E))"
    using block_rows.put_get [OF assms(1) wf, of s] by (elim exE conjE) (rule that)
  have "bk_id b' = bk_id b" by (simp add: assms(5))
  with res t changed show ?thesis by auto
qed

section \<open>Windows\<close>

lemma of_le32_le32 [simp]: "of_le32 (le32 n) = n"
  using unat_u32 [of n] by (simp add: of_le32_def le32_def of_be_be)

lemma length_le32 [simp]: "length (le32 n) = 4"
  by (simp add: le32_def)

lemma start_index_cursor:
  assumes "b64_ok W" "n < 2 ^ 32"
  shows "start_index W (page_req lim (Some (encode_cursor W (le32 (word_of_nat n))))) = Inr n"
proof -
  have "le32 (word_of_nat n) \<noteq> []" using length_le32 [of "word_of_nat n"] by fastforce
  with decode_encode_cursor [OF assms(1), of "le32 (word_of_nat n)"] assms(2) show ?thesis
    by (simp add: start_index_def after_of_def unat_of_nat)
qed

lemma start_index_first [simp]: "start_index W (page_req lim None) = Inr 0"
  by (simp add: start_index_def after_of_def)

text \<open>A handler that answers the window of \<open>ids\<close> at its start, mapped by \<open>f\<close>, is walked to the end.\<close>

definition answers_window ::
  "web \<Rightarrow> config \<Rightarrow> nat option \<Rightarrow> ('i list \<Rightarrow> 'a list) \<Rightarrow> 'i list \<Rightarrow> (page_q \<Rightarrow> api_err + 'a list envelope) \<Rightarrow> bool" where
  "answers_window W c lim f ids handler \<longleftrightarrow>
     (\<forall>cursor start. start_index W (page_req lim cursor) = Inr start \<longrightarrow> start \<le> length ids \<longrightarrow>
       (let stop = min (start + req_limit c lim) (length ids) in
        handler (page_req lim cursor) =
          Inr (paged W c (f (take (stop - start) (drop start ids))) (window_cursor stop (length ids)))))"

lemma window_walk:
  assumes "b64_ok W" "length ids < 2 ^ 32" "answers_window W c lim f ids handler"
    and hom: "\<And>xs ys. f (xs @ ys) = f xs @ f ys"
  shows "start_index W (page_req lim cursor) = Inr start \<Longrightarrow> start \<le> length ids \<Longrightarrow> length ids - start < fuel \<Longrightarrow>
    client_walk handler lim fuel cursor = Inr (f (drop start ids))"
proof (induction fuel arbitrary: cursor start)
  case 0
  then show ?case by simp
next
  case (Suc n)
  let ?stop = "min (start + req_limit c lim) (length ids)"
  have h: "handler (page_req lim cursor) =
      Inr (paged W c (f (take (?stop - start) (drop start ids))) (window_cursor ?stop (length ids)))"
    using assms(3) Suc.prems unfolding answers_window_def Let_def by blast
  show ?case
  proof (cases "?stop < length ids")
    case False
    then have "take (?stop - start) (drop start ids) = drop start ids" by simp
    with h False show ?thesis by (simp add: window_cursor_def)
  next
    case True
    let ?k = "encode_cursor W (le32 (word_of_nat ?stop))"
    have "?stop < 2 ^ 32" using True assms(2) by linarith
    then have start: "start_index W (page_req lim (Some ?k)) = Inr ?stop"
      by (rule start_index_cursor [OF assms(1)])
    have "start < ?stop" using True Suc.prems(2) req_limit_pos [of c lim] by linarith
    then have rest: "client_walk handler lim n (Some ?k) = Inr (f (drop ?stop ids))"
      by (intro Suc.IH [OF start]) (use True Suc.prems in linarith)+
    have split: "drop start ids = take (?stop - start) (drop start ids) @ drop ?stop ids"
      using \<open>start < ?stop\<close> append_take_drop_id [of "?stop - start" "drop start ids"] by simp
    have cur: "window_cursor ?stop (length ids) = Some (le32 (word_of_nat ?stop))"
      using True by (simp only: window_cursor_def if_True)
    show ?thesis
      unfolding client_walk.simps h cur rbind_simps paged_simps option.map option.case rest
        sum.inject split [THEN arg_cong [where f = f]] hom ..
  qed
qed

lemma endorsements_window:
  assumes "found_block E t s = Inr b"
  shows "answers_window W c lim (\<lambda>xs. xs) (bk_endorsements b) (\<lambda>p. block_endorsements E W c t p s)"
  unfolding answers_window_def Let_def
  by (auto simp: block_endorsements_def assms Let_def)

definition op_rows_of :: "('s, 'v, 'x) ext_scheme \<Rightarrow> 's \<Rightarrow> operation_id list \<Rightarrow> stored_operation list" where
  "op_rows_of E s ids = List.map_filter (\<lambda>i. case read_op E s i of Inr r \<Rightarrow> r | Inl _ \<Rightarrow> None) ids"

lemma op_rows_of_append: "op_rows_of E s (xs @ ys) = op_rows_of E s xs @ op_rows_of E s ys"
  by (simp add: op_rows_of_def List.map_filter_def)

lemma read_all_ops:
  "(\<And>i. i \<in> set ids \<Longrightarrow> \<exists>r. read_op E s i = Inr r) \<Longrightarrow> read_all (read_op E s) ids = Inr (op_rows_of E s ids)"
proof (induction ids)
  case (Cons i ids)
  obtain r where "read_op E s i = Inr r" using Cons.prems [of i] by auto
  with Cons show ?case by (simp add: op_rows_of_def List.map_filter_def split: option.split)
qed (simp add: op_rows_of_def List.map_filter_def)

text \<open>The answer to a request for a block's operations, where a panic is no answer.\<close>

definition answered :: "(api_err + 'a) option \<Rightarrow> api_err + 'a" where
  "answered r = (case r of Some x \<Rightarrow> x | None \<Rightarrow> Inl (ApiInternal []))"

lemma operations_window:
  assumes "found_block E t s = Inr b" "\<And>i. i \<in> set (bk_operation_ids b) \<Longrightarrow> \<exists>r. read_op E s i = Inr r"
  shows "answers_window W c lim (op_rows_of E s) (bk_operation_ids b) (\<lambda>p. answered (block_operations E W c t p s))"
proof -
  have rows: "read_all (read_op E s) (take m (drop n (bk_operation_ids b))) =
      Inr (op_rows_of E s (take m (drop n (bk_operation_ids b))))" for m n
    by (rule read_all_ops) (meson assms(2) in_set_dropD in_set_takeD)
  show ?thesis
    unfolding answers_window_def Let_def
    by (auto simp: block_operations_def assms(1) answered_def rows api_def Let_def)
qed

lemma block_operations_None:
  "block_operations E W c t p s = None \<longleftrightarrow>
     (\<exists>start b. start_index W p = Inr start \<and> found_block E t s = Inr b \<and> length (bk_operation_ids b) < start)"
  by (cases "start_index W p"; cases "found_block E t s") (auto simp: block_operations_def Let_def)

section \<open>The union of transfers\<close>

lemma newer_trans: "newer x y \<Longrightarrow> newer y z \<Longrightarrow> newer x z"
  unfolding newer_def by (elim disjE conjE) (simp_all add: order.strict_trans)

lemma newer_total: "transfer_pos x \<noteq> transfer_pos y \<Longrightarrow> newer x y \<or> newer y x"
  unfolding newer_def transfer_pos_def prod.inject
  by (metis linorder_less_linear)

lemma newer_irrefl: "newer x y \<Longrightarrow> transfer_pos x \<noteq> transfer_pos y"
  unfolding newer_def transfer_pos_def by auto

lemma set_insert_newest [simp]: "set (insert_newest t us) = insert t (set us)"
  by (induction us) auto

lemma length_insert_newest [simp]: "length (insert_newest t us) = Suc (length us)"
  by (induction us) auto

lemma sorted_insert_newest:
  "sorted_wrt newer us \<Longrightarrow> transfer_pos t \<notin> transfer_pos ` set us \<Longrightarrow> sorted_wrt newer (insert_newest t us)"
proof (induction us)
  case (Cons u us)
  then show ?case
    using newer_total [of t u] newer_trans [of t u] by fastforce
qed simp

lemma sort_newest:
  "distinct (map transfer_pos xs) \<Longrightarrow>
   sorted_wrt newer (foldr insert_newest xs []) \<and> set (foldr insert_newest xs []) = set xs \<and>
   length (foldr insert_newest xs []) = length xs"
  by (induction xs) (auto intro: sorted_insert_newest)

lemma find_append:
  "List.find P (xs @ ys) = (case List.find P xs of Some x \<Rightarrow> Some x | None \<Rightarrow> List.find P ys)"
  by (induction xs) auto

lemma or_insert_all_spec:
  "distinct (map transfer_pos seen) \<Longrightarrow>
   distinct (map transfer_pos (or_insert_all seen ts)) \<and>
   transfer_pos ` set (or_insert_all seen ts) = transfer_pos ` set (seen @ ts) \<and>
   (\<forall>t \<in> set (or_insert_all seen ts). List.find (\<lambda>u. transfer_pos u = transfer_pos t) (seen @ ts) = Some t)"
proof (induction ts arbitrary: seen)
  case Nil
  have "List.find (\<lambda>u. transfer_pos u = transfer_pos t) seen = Some t" if "t \<in> set seen" for t
    using Nil that by (induction seen) (auto simp: image_iff)
  with Nil show ?case by simp
next
  case (Cons x ts)
  show ?case
  proof (cases "transfer_pos x \<in> transfer_pos ` set seen")
    case True
    have "List.find (\<lambda>u. transfer_pos u = transfer_pos t) (seen @ x # ts) =
        List.find (\<lambda>u. transfer_pos u = transfer_pos t) (seen @ ts)" for t
    proof (cases "List.find (\<lambda>u. transfer_pos u = transfer_pos t) seen")
      case None
      then have "transfer_pos x \<noteq> transfer_pos t" using True by (auto simp: find_None_iff)
      with None show ?thesis by (simp add: find_append)
    qed (simp add: find_append)
    with True Cons.IH [OF Cons.prems] show ?thesis by auto
  next
    case False
    then have "distinct (map transfer_pos (seen @ [x]))" using Cons.prems by auto
    from Cons.IH [OF this] False show ?thesis by simp
  qed
qed

lemma union_spec:
  fixes limit :: nat
  assumes "out = paginate_transfers_union a b limit"
  shows "sorted_wrt newer out \<and> length out = min limit (card (transfer_pos ` set (a @ b))) \<and>
    (\<forall>t \<in> set out. List.find (\<lambda>u. transfer_pos u = transfer_pos t) (a @ b) = Some t) \<and>
    (\<forall>t \<in> set out. \<forall>u \<in> set (a @ b). transfer_pos u \<notin> transfer_pos ` set out \<longrightarrow> newer t u)"
proof -
  define all where "all = or_insert_all [] (a @ b)"
  define srt where "srt = foldr insert_newest all []"
  have all: "distinct (map transfer_pos all)" "transfer_pos ` set all = transfer_pos ` set (a @ b)"
      "\<forall>t \<in> set all. List.find (\<lambda>u. transfer_pos u = transfer_pos t) (a @ b) = Some t"
    using or_insert_all_spec [of "[]" "a @ b"] by (simp_all add: all_def)
  have srt: "sorted_wrt newer srt" "set srt = set all" "length srt = length all"
    using sort_newest [OF all(1)] by (simp_all add: srt_def)
  have out: "out = take limit srt" by (simp add: assms paginate_transfers_union_def srt_def all_def)
  have "length all = card (transfer_pos ` set (a @ b))"
    using distinct_card [OF all(1)] all(2) by simp
  moreover have "newer t u" if t: "t \<in> set out" and u: "u \<in> set (a @ b)" "transfer_pos u \<notin> transfer_pos ` set out" for t u
  proof -
    have "transfer_pos u \<in> transfer_pos ` set srt" unfolding srt(2) all(2) using u(1) by simp
    then obtain v where v: "v \<in> set srt" "transfer_pos v = transfer_pos u" by auto
    then have "v \<notin> set out" using u(2) imageI [of v "set out" transfer_pos] by auto
    then have "v \<in> set (drop limit srt)"
      using v(1) set_append [of "take limit srt" "drop limit srt"] unfolding out by auto
    moreover have "sorted_wrt newer (take limit srt @ drop limit srt)" using srt(1) by simp
    ultimately have "newer t v"
      using t unfolding out sorted_wrt_append by blast
    then show ?thesis using v(2) by (simp add: newer_def transfer_pos_def)
  qed
  moreover have "sorted_wrt newer out" using srt(1) unfolding out by (simp add: sorted_wrt_take)
  moreover have "set out \<subseteq> set all" unfolding out using set_take_subset srt(2) by metis
  ultimately show ?thesis
    using all(3) srt(3) unfolding out by auto
qed

end
