(* ===== verification/Rest_Chart_Laws.thy ===== *)
theory Rest_Chart_Laws
  imports Rest_Laws
begin

text \<open>
  Laws of the charts, the feeds and the event streams: each bucket of a chart counts exactly the slots of its interval,
  a feed of recent operations cuts the last slot it visits, and a resumed stream delivers the frames after
  the client's last id that were not sent between its replay and its subscription.
\<close>

section \<open>Buckets\<close>

lemma resolve_bounds:
  assumes "chart_resolve q = (window, bucket)"
  shows "60 \<le> window" "window \<le> 604800" "10 \<le> bucket" "bucket \<le> window"
proof -
  have w: "window = clamp (unwrap_or 3600 (map_option sint (cq_window_secs q))) 60 (7 * 24 * 3600)"
    and b: "bucket = clamp (unwrap_or (max (window div 120) 10) (map_option sint (cq_bucket_secs q))) 10 window"
    using assms unfolding chart_resolve_def Let_def prod.inject by (blast, metis)
  show "60 \<le> window" unfolding w by (rule clamp_bounds) simp
  show "window \<le> 604800" unfolding w using clamp_bounds(2) [of "60 :: int" "7 * 24 * 3600"] by simp
  show "10 \<le> bucket" unfolding b by (rule clamp_bounds) (use \<open>60 \<le> window\<close> in simp)
  show "bucket \<le> window" unfolding b by (rule clamp_bounds) (use \<open>60 \<le> window\<close> in simp)
qed

lemma div_eq_iff_between: "0 < b \<Longrightarrow> x div b = i \<longleftrightarrow> i * b \<le> x \<and> x < (i + 1) * (b :: int)"
proof
  assume b: "0 < b" and eq: "x div b = i"
  have "x = b * i + x mod b" unfolding eq [symmetric] by simp
  then show "i * b \<le> x \<and> x < (i + 1) * b"
    using pos_mod_sign [OF b, of x] pos_mod_bound [OF b, of x] by (simp add: algebra_simps)
next
  assume "0 < b" "i * b \<le> x \<and> x < (i + 1) * b"
  then show "x div b = i" by (intro int_div_pos_eq [of x b i "x - b * i"]) (auto simp: algebra_simps)
qed

definition in_bucket :: "chart_window \<Rightarrow> nat \<Rightarrow> slot_state \<Rightarrow> bool" where
  "in_bucket w i sl \<longleftrightarrow>
     (let ts = sint (slot_time w sl) in
      cw_from_ms w + int i * cw_bucket_ms w \<le> ts \<and> ts < cw_from_ms w + (int i + 1) * cw_bucket_ms w \<and> ts \<le> cw_now w)"

lemma slot_bucket_iff:
  assumes "0 < cw_bucket_ms w"
  shows "slot_bucket w sl = Some i \<longleftrightarrow> i < cw_buckets w \<and> in_bucket w i sl"
proof -
  let ?ts = "sint (slot_time w sl)" and ?b = "cw_bucket_ms w"
  have div: "(?ts - cw_from_ms w) div ?b = int i \<longleftrightarrow>
      cw_from_ms w + int i * ?b \<le> ?ts \<and> ?ts < cw_from_ms w + (int i + 1) * ?b"
    unfolding div_eq_iff_between [OF assms] by auto
  have "nat ((?ts - cw_from_ms w) div ?b) = i \<longleftrightarrow> (?ts - cw_from_ms w) div ?b = int i"
    if "cw_from_ms w \<le> ?ts"
    using assms that by (auto simp: pos_imp_zdiv_nonneg_iff)
  moreover have "cw_from_ms w \<le> ?ts" if "cw_from_ms w + int i * ?b \<le> ?ts"
    using that assms by (smt (verit) mult_nonneg_nonneg of_nat_0_le_iff)
  ultimately show ?thesis
    unfolding slot_bucket_def in_bucket_def Let_def using div by auto
qed

lemma bucket_tally_length [simp]: "length (bucket_tally w add sls bs) = length bs"
  by (induction sls arbitrary: bs) (simp_all split: option.split)

lemma bucket_tally_nth:
  "i < length bs \<Longrightarrow>
   bucket_tally w add sls bs ! i = fold add (filter (\<lambda>sl. slot_bucket w sl = Some i) sls) (bs ! i)"
  by (induction sls arbitrary: bs) (auto simp: nth_list_update split: option.split)

lemma chart_window_bucket: "0 < cw_bucket_ms (chart_window_of E q now s)"
  by (cases "chart_resolve q") (use resolve_bounds(3) in \<open>force simp: chart_window_of_def\<close>)

lemma recent_slots:
  assumes "db_ok E R" "slot_table_ok E (table R s)" "0 < cap"
  shows "fetch_recent_slots E cap s = Inr (take cap (map snd (slot_listing E (R s CF_SLOT))))"
proof -
  obtain p where "iter_slots_desc E s None cap = Inr p"
      "full_page cap (past (>) None (slot_listing E (R s CF_SLOT))) p"
    using slot_pages.fetch_page [of E R s cap None] assms by auto
  then show ?thesis
    by (simp add: fetch_recent_slots_def api_def full_page_def past_def take_map)
qed

lemma chart_points_nth:
  "i < length bs \<Longrightarrow> chart_points w quot bs ! i =
     \<lparr>cp_ts_ms = cw_from_ms w + int i * cw_bucket_ms w, cp_num = fst (quot (bs ! i)), cp_den = snd (quot (bs ! i))\<rparr>"
  by (simp add: chart_points_def nth_enumerate_eq)

lemma length_chart_points [simp]: "length (chart_points w quot bs) = length bs"
  by (simp add: chart_points_def)

lemma fold_count: "fold (\<lambda>x n. n + f x) xs (m :: nat) = m + sum_list (map f xs)"
  by (induction xs arbitrary: m) simp_all

text \<open>Every bucket of a tally folds the slots of its interval, in the order of the listing.\<close>

lemma window_tally:
  assumes "i < cw_buckets (chart_window_of E q now s)"
  shows "bucket_tally (chart_window_of E q now s) add sls (replicate (cw_buckets (chart_window_of E q now s)) b) ! i =
    fold add (filter (in_bucket (chart_window_of E q now s) i) sls) b"
  using assms bucket_tally_nth [of i "replicate (cw_buckets (chart_window_of E q now s)) b"]
  by (simp add: slot_bucket_iff [OF chart_window_bucket])

lemma throughput_points:
  assumes "db_ok E R" "slot_table_ok E (table R s)" "w = chart_window_of E q now s"
  shows "\<exists>e. chart_throughput E c q now s = Inr e \<and> length (el_data e) = cw_buckets w \<and>
    (\<forall>i < cw_buckets w. el_data e ! i =
      \<lparr>cp_ts_ms = cw_from_ms w + int i * cw_bucket_ms w,
       cp_num = int (\<Sum>sl\<leftarrow>filter (in_bucket w i) (take CHART_SLOTS (map snd (slot_listing E (R s CF_SLOT)))).
         length (st_executed_op_ids sl)),
       cp_den = cw_bucket_ms w div 1000\<rparr>)"
proof -
  have "0 < CHART_SLOTS" by (simp add: CHART_SLOTS_def)
  note slots = recent_slots [OF assms(1,2) this]
  show ?thesis
    unfolding chart_throughput_def Let_def slots rbind_simps assms(3)
    by (intro exI conjI, rule refl) (auto simp: envelope_new_def chart_points_nth window_tally fold_count)
qed

section \<open>The feed of recent operations\<close>

definition feed_req :: "page_q \<Rightarrow> recent_ops_q" where
  "feed_req p = \<lparr>pq_limit = pq_limit p, pq_cursor = pq_cursor p, rq_max_slots = None\<rparr>"

lemma feed_req_simps [simp]:
  "limit_of c (feed_req (page_req lim k)) = req_limit c lim" "after_of W (feed_req p) = after_of W p"
  "rq_max_slots (feed_req p) = None"
  by (simp_all add: feed_req_def limit_of_def after_of_def flip: limit_of_req [of c lim k])

lemma feed_ops_fresh:
  "distinct (map id_text ids) \<Longrightarrow> set (map id_text ids) \<inter> set seen = {} \<Longrightarrow>
   (\<And>i. i \<in> set ids \<Longrightarrow> read_op E s i = Inr (Some (row i))) \<Longrightarrow>
   feed_ops E s ids (seen, out) = Inr (seen @ map id_text ids, out @ map row ids)"
proof (induction ids arbitrary: seen out)
  case (Cons i ids)
  have "feed_ops E s ids (seen @ [id_text i], out @ [row i]) =
      Inr ((seen @ [id_text i]) @ map id_text ids, (out @ [row i]) @ map row ids)"
    by (rule Cons.IH) (use Cons.prems in auto)
  with Cons.prems show ?case by simp
qed simp

lemma slots_page:
  assumes "db_ok E R" "slot_table_ok E (table R s)" "0 < n"
    "length (past (>) after (slot_listing E (R s CF_SLOT))) < n"
  shows "\<exists>p. iter_slots_desc E s after n = Inr p \<and> next_cursor p = None \<and>
    items p = map snd (past (>) after (slot_listing E (R s CF_SLOT)))"
proof -
  obtain p where "iter_slots_desc E s after n = Inr p" "full_page n (past (>) after (slot_listing E (R s CF_SLOT))) p"
    using slot_pages.fetch_page [of E R s n after] assms(1-3) by auto
  with assms(4) show ?thesis by (auto simp: full_page_def split: option.splits)
qed

lemma recent_operations_walk:
  assumes "db_ok E R" "slot_table_ok E (table R s)" "b64_ok W" "slot_listing E (R s CF_SLOT) = [(k, st)]"
    and "slot_block_ids st = [bid]" "read_block E s bid = Inr (Some b)" "distinct (map id_text (bk_operation_ids b))"
    and row: "\<And>i. i \<in> set (bk_operation_ids b) \<Longrightarrow> read_op E s i = Inr (Some (row i))"
  shows "client_walk (\<lambda>p. recent_operations E W c (feed_req p) s) lim (Suc (Suc n)) None =
    Inr (take (req_limit c lim) (map row (bk_operation_ids b)))"
proof -
  let ?rows = "map row (bk_operation_ids b)" and ?ids = "map id_text (bk_operation_ids b)"
  let ?k = "slot_key (sl_period (st_slot st)) (sl_thread (st_slot st))"
  have k: "k = ?k"
    using slot_listing_key(1) [OF assms(1,2), of k st] assms(4) by (simp add: slot_row_key_def)
  have "feed_ops E s (bk_operation_ids b) ([], []) = Inr (?ids, ?rows)"
    using feed_ops_fresh [of "bk_operation_ids b" "[]" E s row "[]"] assms(7) row by simp
  then have visit: "visit_ops E ([], []) st s = (Inr (?ids, ?rows), s)"
    by (simp add: visit_ops_def assms(5,6))
  obtain pg where pg: "iter_slots_desc E s None 64 = Inr pg" "next_cursor pg = None" "items pg = [st]"
    using slots_page [OF assms(1,2), of 64 None] assms(4) by (auto simp: past_def)
  obtain none where none: "iter_slots_desc E s (Some k) 64 = Inr none" "items none = []"
    using slots_page [OF assms(1,2), of 64 "Some k"] assms(4) by (auto simp: past_def)
  have first: "slot_feed E (visit_ops E) (feed_full l) 256 64 None 0 ([], []) s =
      (Inr ((?ids, ?rows), if l \<le> length ?rows then Some ?k else None), s)" for l
    by (simp add: slot_feed.simps clamp_def pg visit feed_full_def)
  have second: "slot_feed E (visit_ops E) full 256 64 (Some ?k) 0 ([], []) s = (Inr (([], []), None), s)" for full
    by (simp add: slot_feed.simps clamp_def none [unfolded k])
  have "?k \<noteq> []" by (simp add: slot_key_def)
  then have after: "after_of W (page_req lim (Some (encode_cursor W ?k))) = Inr (Some ?k)"
    using decode_encode_cursor [OF assms(3)] by (simp add: after_of_def)
  have start: "after_of W (page_req lim None) = Inr None" by (simp add: after_of_def)
  have "recent_operations E W c (feed_req (page_req lim (Some (encode_cursor W ?k)))) s = Inr (paged W c [] None)"
    by (simp add: recent_operations_def after second clamp_def api_def)
  moreover have "recent_operations E W c (feed_req (page_req lim None)) s =
      Inr (paged W c (take (req_limit c lim) ?rows) (if req_limit c lim \<le> length ?rows then Some ?k else None))"
    using start by (simp add: recent_operations_def first clamp_def api_def)
  ultimately show ?thesis
    by simp
qed

section \<open>Event streams\<close>

lemma sent_broadcasts: "\<exists>fs. sent (fold (sse_broadcast json) evs h) = sent h @ fs"
proof (induction evs arbitrary: h)
  case (Cons ev evs)
  have "\<exists>fs. sent (sse_broadcast json ev h) = sent h @ fs"
    by (simp add: sse_broadcast_def Let_def split: option.split)
  with Cons [of "sse_broadcast json ev h"] show ?case by auto
qed simp

lemma live_frames: "live_chunks J flt (map LiveFrame fs) = map chunk (filter (keep_frame J flt) fs)"
  by (induction fs) simp_all

text \<open>
  A client resumes after frame \<open>since\<close> at a hub \<open>h1\<close>, its receiver joins when the hub has become \<open>h2\<close>, and
  reads on until \<open>h3\<close>.
\<close>

lemma resumed_chunks:
  assumes "hub_ok h1" "h2 = fold (sse_broadcast json) evs2 h1" "h3 = fold (sse_broadcast json) evs3 h2"
    and "parse_u64 t = Some since" "unat since \<le> length (sent h1)"
  shows "sse_response J flt (Some t) h1 (map LiveFrame (delivered (length (sent h2)) h3)) =
    map chunk (filter (keep_frame J flt)
      (drop (max (unat since) (length (sent h1) - ring_capacity h1)) (take (length (sent h1)) (sent h3)) @
       drop (length (sent h2)) (sent h3)))"
proof -
  obtain fs where fs: "sent h3 = sent h1 @ fs"
    using sent_broadcasts [of json evs2 h1] sent_broadcasts [of json evs3 h2] assms(2,3) by auto
  have "replay_for (Some t) h1 = drop (max (unat since) (length (sent h1) - ring_capacity h1)) (take (length (sent h1)) (sent h3))"
    by (simp add: replay_for_def assms(4) replay_exact [OF assms(1)] fs)
  then show ?thesis
    unfolding sse_response_def delivered_def live_frames by simp
qed

end
