(* ===== verification/Props_Rest.thy ===== *)
theory Props_Rest
  imports Rest_Chart_Laws Props_Storage Props_Repair Props_Peer
begin

text \<open>
  The properties of the REST API: what a client that follows an endpoint's cursors has read at the end, how the
  status of a block settles when it is asked for, what a chart counts, and what a resumed event stream delivers.
\<close>

section \<open>A reference web server\<close>

definition ref_web :: web where
  "ref_web = \<lparr>b64_encode = bytes_str, b64_decode = (\<lambda>t. Some (str_bytes t))\<rparr>"

lemma ref_web_ok [simp]: "b64_ok ref_web"
proof -
  have "bytes_str b = [] \<longleftrightarrow> b = []" for b by (simp add: bytes_str_def)
  then show ?thesis by (simp add: b64_ok_def ref_web_def)
qed

lemma or_400_simps [simp]: "or_400 (Inr x) = Inr x" "or_400 (Inl m) = Inl (ApiBad m)"
  by (simp_all add: or_400_def)

section \<open>Events of an address\<close>

definition role_req :: "string option \<Rightarrow> page_q \<Rightarrow> role_q" where
  "role_req r p = \<lparr>pq_limit = pq_limit p, pq_cursor = pq_cursor p, ql_role = r\<rparr>"

lemma rest_pages_role [simp]: "rest_pages W c (role_req r p) fetch = rest_pages W c p fetch"
  by (simp add: rest_pages_def role_req_def after_of_def limit_of_def)

lemma ql_role_req [simp]: "ql_role (role_req r p) = r"
  by (simp add: role_req_def)

text \<open>
  C8.  A client that asks for the events of an address and follows the cursors, whatever page size it asks for, has in
  the end read every stored event that names the address as emitter, or as caller when that role is asked
  for, each once, and nothing else.
\<close>

theorem rest_events_complete:
  assumes "db_ok E R" "event_index_exact E R s" "addr_parse E t = Inr a" "b64_ok W"
    and "length (R s IDX_SC_EVENT_BY_EMITTER) < fuel" "length (R s IDX_SC_EVENT_BY_CALLER) < fuel"
  shows "\<exists>es. client_walk (\<lambda>p. addr_events E W c t (role_req role p) s) lim fuel None = Inr es \<and> distinct es \<and>
    (\<forall>e. e \<in> set es \<longleftrightarrow> event_stored E R s e \<and>
      a \<in> set (if role = Some ''caller'' then ev_caller_addrs e else ev_emitter_addrs e))"
proof -
  let ?i = "if role = Some ''caller'' then IDX_SC_EVENT_BY_CALLER else IDX_SC_EVENT_BY_EMITTER"
  let ?l = "prefix_listing (R s ?i) (addr_key a) (\<lambda>k v. event_of_key E (table R s) k)"
  have "addr_events E W c t (role_req role p) s =
      rest_pages W c p (iter_sc_events_with_prefix E s ?i (addr_key a))" for p
    by (cases role)
      (simp_all add: addr_events_def assms(3) ql_role_req
        iter_sc_events_by_emitter_def [abs_def] iter_sc_events_by_caller_def [abs_def])
  moreover have "length ?l < fuel"
    using assms(5,6) by (auto intro: le_less_trans [OF length_prefix_listing])
  moreover have wf: "wf_addr E a"
    using addr_parse_Inr [OF _ assms(3)] db_okD(1) [OF assms(1)] by (simp add: wires_ok_def)
  then have "addr_key a \<noteq> []" by (auto simp: wf_addr_def ADDR_KEY_LEN_def)
  ultimately show ?thesis
    using event_walk.client_all [of E R W "addr_key a" "req_limit c lim" c lim s ?i fuel]
      emitter_listing [OF assms(1,2) wf] caller_listing [OF assms(1,2) wf] assms(1,4) by auto
qed

definition ref_event :: stored_sc_event where
  "ref_event = \<lparr>ev_slot = Slot 5 3, ev_index_in_slot = 0, ev_data = ''hi'', ev_emitter_addrs = [ref_addr 1],
     ev_caller_addrs = [], ev_status = SlotFinal, ev_op_id = None\<rparr>"

theorem rest_events_complete_witness:
  "\<exists>s es. write_sc_event ref_ext ref_event [] = (Inr (), s) \<and>
    client_walk (\<lambda>p. addr_events ref_ext ref_web (config_default [] [] []) (addr_text (ref_addr 1)) (role_req None p) s) (Some 2)
      (Suc (length (ref_rows s IDX_SC_EVENT_BY_EMITTER) + length (ref_rows s IDX_SC_EVENT_BY_CALLER))) None = Inr es \<and>
    ref_event \<in> set es"
proof -
  have "event_index_exact ref_ext ref_rows []" "table ref_rows [] CF_SC_EVENT (event_key_of ref_event) = None"
      "wf_sc_event ref_ext ref_event"
    by (simp_all add: exact_def table_def ref_rows_def wf_sc_event_def ref_event_def)
  then obtain s v where s: "write_sc_event ref_ext ref_event [] = (Inr (), s)" "decode_sc_event ref_ext v = Inr ref_event"
      "event_index_exact ref_ext ref_rows s"
      "table ref_rows s CF_SC_EVENT = (table ref_rows [] CF_SC_EVENT)(event_key_of ref_event \<mapsto> v)"
    using event_set.puts [OF ref_db_ok] by blast
  let ?n = "Suc (length (ref_rows s IDX_SC_EVENT_BY_EMITTER) + length (ref_rows s IDX_SC_EVENT_BY_CALLER))"
  have fuel: "length (ref_rows s IDX_SC_EVENT_BY_EMITTER) < ?n" "length (ref_rows s IDX_SC_EVENT_BY_CALLER) < ?n"
    by simp_all
  have "known_category (ref_addr 1)"
    by (simp add: known_category_def is_user_def ref_addr_def user_from_hash_def addr_category_def Let_def)
  then have parse: "addr_parse ref_ext (addr_text (ref_addr 1)) = Inr (ref_addr 1)"
    by (intro addr_parse_text) (simp_all add: ref_crates_ok)
  have "event_stored ref_ext ref_rows s ref_event" "ref_addr 1 \<in> set (ev_emitter_addrs ref_event)"
    using s(2,4) by (simp_all add: event_stored_def ref_event_def)
  with rest_events_complete [OF ref_db_ok s(3) parse ref_web_ok fuel, of "config_default [] [] []" None "Some 2"] s(1)
  show ?thesis by auto
qed

section \<open>Ranges of slots\<close>

text \<open>
  C9.  A client that asks for the slots from a period and thread on (thread 31 when none is given) and follows the
  cursors has in the end read every stored slot at or before that position, each once, the newest first.
\<close>

theorem rest_slots_from:
  assumes "db_ok E R" "slot_table_ok E (table R s)" "b64_ok W" "length (R s CF_SLOT) < fuel"
  shows "\<exists>sts. client_walk (\<lambda>q. slots_range E W c (range_req (Some p) thread q) s) lim fuel None = Inr sts \<and>
    (\<forall>st. st \<in> set sts \<longleftrightarrow> slot_stored E R s st \<and> \<not> slot_lt (Slot p (unwrap_or 31 thread)) (st_slot st)) \<and>
    sorted_wrt (\<lambda>a b. slot_lt (st_slot b) (st_slot a)) sts"
  using slots_range_walk [OF assms] slots_range_members [OF assms(1,2) refl] by blast

theorem rest_slots_from_witness:
  "\<exists>sts. client_walk (\<lambda>q. slots_range ref_ext ref_web (config_default [] [] []) (range_req (Some 7) None q) ref_slots)
      (Some 1) 4 None = Inr sts \<and> ref_slot 7 3 \<in> set sts \<and> ref_slot 5 3 \<in> set sts \<and> ref_slot 9 3 \<notin> set sts"
  using rest_slots_from [OF ref_db_ok ref_slots_ok ref_web_ok, of 4 "config_default [] [] []" 7 None "Some 1"]
    ref_slots_stored [of 7] ref_slots_stored [of 5]
  by (auto simp: ref_slots_rows slot_lt_def)

section \<open>The status of a block\<close>

text \<open>
  C23.  Asking for a stored block answers with its row, whose status is settled if it was still seen as a candidate
  and its slot is final by now: final when the slot's final block is this one, discarded otherwise.  The row that was
  answered is also the row stored from then on, other blocks are untouched, and asking again gives the same
  answer and changes nothing.
\<close>

theorem block_status_settles:
  assumes "db_ok E R" "block_parse E t = Inr bid" "read_block E s bid = Inr (Some b)" "bk_id b = bid" "wf_block E b"
    and "read_slot E s (sl_period (bk_slot b)) (sl_thread (bk_slot b)) = Inr slot1"
    and "b' = b\<lparr>bk_status := settled_status b slot1\<rparr>"
  shows "\<exists>s'. block_by_id E c t s = (Inr (envelope_new c b'), s') \<and> read_block E s' bid = Inr (Some b') \<and>
    (\<forall>i. id_key i \<noteq> id_key bid \<longrightarrow> read_block E s' i = read_block E s i) \<and>
    block_by_id E c t s' = (Inr (envelope_new c b'), s')"
proof -
  have row: "get_decoded E s CF_BLOCK (id_key (bk_id b)) (decode_block E) = Inr (Some b)"
    using assms(3,4) by (simp add: read_block_def)
  obtain s' where s': "resolve_block_status E b s = (Inr b', s')"
      "\<forall>k. get_decoded E s' CF_BLOCK k (decode_block E) =
        (if k = id_key (bk_id b) then Inr (Some b') else get_decoded E s CF_BLOCK k (decode_block E))"
      "b' = b \<longrightarrow> s' = s"
    using resolve_block_run [OF assms(1,5) row assms(6,7)] by (elim exE conjE) (rule that)
  have again: "resolve_block_status E b' s' = (Inr b', s')"
  proof (cases "b' = b")
    case True
    with s' show ?thesis by simp
  next
    case False
    then have "bk_status b' \<noteq> SeenCandidate"
      unfolding assms(7) settled_status_def by (auto split: option.splits if_splits)
    then show ?thesis by (rule resolve_settled)
  qed
  have ask: "block_by_id E c t u = (Inr (envelope_new c b'), s')"
    if "read_block E u bid = Inr (Some x)" "resolve_block_status E x u = (Inr b', s')" for u x
    using that assms(2) by (simp add: block_by_id_def api_def or_404_def)
  have "read_block E s' bid = Inr (Some b')"
    using s'(2) assms(4) by (simp add: read_block_def)
  then show ?thesis
    using ask [OF assms(3) s'(1)] ask [OF _ again] s'(2) assms(4) by (auto simp: read_block_def)
qed

text \<open>A FINAL slot, its one block still a candidate, and the block's two operations.\<close>

definition ref_loose :: stored_block where
  "ref_loose = (ref_child 5 1)\<lparr>bk_status := SeenCandidate,
     bk_operation_ids := map (\<lambda>n. op_id (do_stored (ref_archived_op n Transaction))) [2, 4]\<rparr>"

definition ref_feed :: "ref_value batch" where
  "ref_feed =
     Put CF_SLOT (slot_row_key (Slot 5 3)) (encode_slot_state ref_node ref_final) #
     Put CF_BLOCK (id_key (nblock 1)) (projr (encode_block ref_node ref_loose)) #
     map (\<lambda>n. let p = do_stored (ref_archived_op n Transaction) in
            Put CF_OP (id_key (op_id p)) (projr (encode_operation ref_node p))) [2, 4]"

lemma ref_archived_wf: "wf_operation ref_node (do_stored (ref_archived_op n Transaction))"
proof -
  have "wf_op_id ref_node (op_from_hash ref_node 0 (replicate 32 n))" by (simp add: op_from_hash_def wf_gid_from_hash)
  moreover have "wf_addr ref_node (user_from_hash ref_node 0 (replicate 32 1))"
    by (simp add: user_from_hash_def wf_addr_def Let_def ADDR_KEY_LEN_def)
  moreover have "wf_payload ref_node []" by (simp add: wf_payload_def)
  ultimately show ?thesis by (simp add: wf_operation_def ref_archived_op_def)
qed

lemma ref_loose_wf: "wf_block ref_node ref_loose"
proof -
  have "wf_op_id ref_node (op_from_hash ref_node 0 (replicate 32 n))" for n by (simp add: op_from_hash_def wf_gid_from_hash)
  moreover have "wf_addr ref_node (user_from_hash ref_node 0 (replicate 32 1))"
    by (simp add: user_from_hash_def wf_addr_def Let_def ADDR_KEY_LEN_def)
  moreover have "wf_payload ref_node []" by (simp add: wf_payload_def)
  ultimately show ?thesis
    by (simp add: wf_block_def ref_loose_def ref_child_def ref_archived_op_def list_all_iff)
qed

lemma ref_ops_key [simp]:
  "id_key (op_id (do_stored (ref_archived_op m k))) = id_key (op_id (do_stored (ref_archived_op n k))) \<longleftrightarrow> m = n"
  by (simp add: ref_archived_op_def op_from_hash_def gid_from_hash_def)

lemma ref_feed_rows:
  "read_slot ref_node ref_feed 5 3 = Inr (Some ref_final)"
  "read_block ref_node ref_feed (nblock 1) = Inr (Some ref_loose)"
  "n \<in> {2, 4} \<Longrightarrow> read_op ref_node ref_feed (op_id (do_stored (ref_archived_op n Transaction))) =
     Inr (Some (do_stored (ref_archived_op n Transaction)))"
proof -
  have slot: "slot_key 5 3 = slot_row_key (Slot 5 3)" by (simp add: slot_row_key_def Slot_def)
  show "read_slot ref_node ref_feed 5 3 = Inr (Some ref_final)"
    by (simp add: read_slot_def slot get_decoded_ok [OF ref_node_ok] table_def ref_rows_def ref_feed_def Let_def
        ref_log_decode)
  obtain v where "encode_block ref_node ref_loose = Inr v" "decode_block ref_node v = Inr ref_loose"
    using block_codec.enc_dec [OF ref_node_wires_ok ref_loose_wf] by blast
  then show "read_block ref_node ref_feed (nblock 1) = Inr (Some ref_loose)"
    by (simp add: read_block_def get_decoded_ok [OF ref_node_ok] table_def ref_rows_def ref_feed_def Let_def)
  let ?op = "\<lambda>n. do_stored (ref_archived_op n Transaction)"
  assume n: "n \<in> {2, 4}"
  obtain w where w: "encode_operation ref_node (?op n) = Inr w" "decode_operation ref_node w = Inr (?op n)"
    using operation_codec.enc_dec [OF ref_node_wires_ok ref_archived_wf] by blast
  have "table ref_rows ref_feed CF_OP (id_key (op_id (?op n))) = Some (projr (encode_operation ref_node (?op n)))"
    using n by (auto simp: table_def ref_rows_def ref_feed_def Let_def)
  with w show "read_op ref_node ref_feed (op_id (?op n)) = Inr (Some (?op n))"
    by (simp add: read_op_def get_decoded_ok [OF ref_node_ok])
qed

lemma nblock_parse: "block_parse ref_node (id_text (nblock n)) = Inr (nblock n)"
  unfolding block_parse_def by (rule parse_gid_text [OF ref_node_crates_ok nblock_wf])

theorem block_status_settles_witness:
  "\<exists>b s. block_by_id ref_node (config_default [] [] []) (id_text (nblock 1)) ref_feed =
      (Inr (envelope_new (config_default [] [] []) b), s) \<and>
    bk_status b = BlockFinal \<and> read_block ref_node s (nblock 1) = Inr (Some b)"
proof -
  have b: "bk_id ref_loose = nblock 1" "bk_slot ref_loose = Slot 5 3" "bk_status ref_loose = SeenCandidate"
    by (simp_all add: ref_loose_def ref_child_def)
  have sl: "read_slot ref_node ref_feed (sl_period (bk_slot ref_loose)) (sl_thread (bk_slot ref_loose)) = Inr (Some ref_final)"
    using ref_feed_rows(1) by (simp add: b Slot_def)
  have "settled_status ref_loose (Some ref_final) = BlockFinal"
    by (simp add: settled_status_def b ref_final_def)
  with block_status_settles [OF ref_node_ok nblock_parse ref_feed_rows(2) b(1) ref_loose_wf sl refl, of "config_default [] [] []"]
  show ?thesis by auto
qed

section \<open>Windows into a block\<close>

lemma ref_loose_found: "found_block ref_node (id_text (nblock 1)) ref_feed = Inr ref_loose"
  by (simp add: found_block_def nblock_parse ref_feed_rows(2) api_def or_404_def)

text \<open>
  C24.  A client that follows the cursors of a block's endorsements or operations has in the end read all
  endorsements of the block, or the stored rows of all its operations, in the block's order; on the way the server
  never panics.
\<close>

theorem block_windows_complete:
  assumes "b64_ok W" "found_block E t s = Inr b" "\<forall>i \<in> set (bk_operation_ids b). \<exists>r. read_op E s i = Inr r"
    and "length (bk_endorsements b) < 2 ^ 32" "length (bk_operation_ids b) < 2 ^ 32"
    and "length (bk_endorsements b) < fuel" "length (bk_operation_ids b) < fuel"
  shows "client_walk (\<lambda>p. block_endorsements E W c t p s) lim fuel None = Inr (bk_endorsements b) \<and>
    client_walk (\<lambda>p. answered (block_operations E W c t p s)) lim fuel None = Inr (op_rows_of E s (bk_operation_ids b))"
proof
  show "client_walk (\<lambda>p. block_endorsements E W c t p s) lim fuel None = Inr (bk_endorsements b)"
    using window_walk [OF assms(1,4) endorsements_window [OF assms(2)], where cursor = None and start = 0] assms(6) by simp
  have "answers_window W c lim (op_rows_of E s) (bk_operation_ids b) (\<lambda>p. answered (block_operations E W c t p s))"
    by (rule operations_window [OF assms(2)]) (use assms(3) in blast)
  then show "client_walk (\<lambda>p. answered (block_operations E W c t p s)) lim fuel None = Inr (op_rows_of E s (bk_operation_ids b))"
    using window_walk [where f = "op_rows_of E s" and cursor = None and start = 0, OF assms(1,5) _ op_rows_of_append]
      assms(7) by simp
qed

lemma ref_loose_rows: "op_rows_of ref_node ref_feed (bk_operation_ids ref_loose) =
    [do_stored (ref_archived_op 2 Transaction), do_stored (ref_archived_op 4 Transaction)]"
  using ref_feed_rows(3) [of 2] ref_feed_rows(3) [of 4] by (simp add: op_rows_of_def List.map_filter_simps ref_loose_def)

theorem block_windows_complete_witness:
  "client_walk (\<lambda>p. answered (block_operations ref_node ref_web (config_default [] [] []) (id_text (nblock 1)) p ref_feed))
      (Some 1) 3 None =
    Inr [do_stored (ref_archived_op 2 Transaction), do_stored (ref_archived_op 4 Transaction)]"
proof -
  have "\<forall>i \<in> set (bk_operation_ids ref_loose). \<exists>r. read_op ref_node ref_feed i = Inr r"
    using ref_feed_rows(3) [of 2] ref_feed_rows(3) [of 4] by (auto simp: ref_loose_def)
  moreover have "length (bk_operation_ids ref_loose) = 2" "bk_endorsements ref_loose = []"
    by (simp_all add: ref_loose_def ref_child_def)
  ultimately show ?thesis
    using block_windows_complete [OF ref_web_ok ref_loose_found, of 3 "config_default [] [] []" "Some 1"] ref_loose_rows
    by simp
qed

text \<open>
  The answer to a request for a block's operations is lost to a panic exactly when the cursor, any four
  bytes a client sends, names an index past the end of a stored block's list; the same cursor for the block's
  endorsements or denunciations gets an empty page.
\<close>

theorem block_operations_panics:
  "block_operations E W c t p s = None \<longleftrightarrow>
     (\<exists>start b. start_index W p = Inr start \<and> found_block E t s = Inr b \<and> length (bk_operation_ids b) < start)"
  by (rule block_operations_None)

section \<open>The union of transfers\<close>

text \<open>
  C25.  The union of two lists of transfers is sorted newest first and holds one transfer per position, the first
  listed of those at that position, up to the limit; a position left out is older than all that are kept.
\<close>

theorem transfers_union_newest:
  assumes "out = paginate_transfers_union a b limit"
  shows "sorted_wrt newer out \<and> length out = min limit (card (transfer_pos ` set (a @ b))) \<and>
    (\<forall>t \<in> set out. List.find (\<lambda>u. transfer_pos u = transfer_pos t) (a @ b) = Some t) \<and>
    (\<forall>t \<in> set out. \<forall>u \<in> set (a @ b). transfer_pos u \<notin> transfer_pos ` set out \<longrightarrow> newer t u)"
  by (rule union_spec [OF assms])

definition ref_payment :: "u64 \<Rightarrow> string \<Rightarrow> stored_transfer" where
  "ref_payment p tid =
     \<lparr>tr_slot = Slot p 3, tr_index_in_slot = 0, tr_id = tid, tr_block_id = None, tr_block_timestamp_ms = 9,
      tr_from = None, tr_to = None, tr_value = Coins 5, tr_origin = BlockReward, tr_operation_id = None,
      tr_async_msg_id = None, tr_deferred_call_id = None, tr_denunciation_index = None, tr_is_final = True,
      tr_first_seen_ts_ms = 9\<rparr>"

theorem transfers_union_newest_witness:
  "\<exists>out. out = paginate_transfers_union [ref_payment 5 ''a''] [ref_payment 7 ''b'', ref_payment 5 ''c''] 2 \<and>
    length out = 2 \<and> sorted_wrt newer out"
proof -
  have "transfer_pos (ref_payment p i) = (p, 3, 0)" for p i
    by (simp add: transfer_pos_def ref_payment_def Slot_def)
  then have "card (transfer_pos ` set ([ref_payment 5 ''a''] @ [ref_payment 7 ''b'', ref_payment 5 ''c''])) = 2"
    by (simp add: insert_commute)
  then show ?thesis
    using transfers_union_newest [OF refl, of "[ref_payment 5 ''a'']" "[ref_payment 7 ''b'', ref_payment 5 ''c'']" 2]
    by (metis min.idem)
qed

section \<open>The feed of recent operations\<close>

text \<open>
  Following the cursors of the recent operations, over a store whose only slot has one block, gives the
  first \<open>limit\<close> of the block's operations, where \<open>limit\<close> is the page size, and never the others: the cursor of a full
  page stands for the whole slot.
\<close>

theorem recent_operations_cut:
  assumes "db_ok E R" "slot_table_ok E (table R s)" "b64_ok W" "slot_listing E (R s CF_SLOT) = [(k, st)]"
    and "slot_block_ids st = [bid]" "read_block E s bid = Inr (Some b)" "distinct (map id_text (bk_operation_ids b))"
    and "\<forall>i \<in> set (bk_operation_ids b). read_op E s i = Inr (Some (row i))"
  shows "client_walk (\<lambda>p. recent_operations E W c (feed_req p) s) lim (Suc (Suc n)) None =
    Inr (take (req_limit c lim) (map row (bk_operation_ids b)))"
  by (rule recent_operations_walk [OF assms(1-7)]) (use assms(8) in blast)

lemma ref_feed_slots: "ref_rows ref_feed CF_SLOT = [(slot_row_key (Slot 5 3), encode_slot_state ref_node ref_final)]"
  by (simp add: ref_rows_def ref_feed_def Let_def)

theorem recent_operations_cut_witness:
  "client_walk (\<lambda>p. recent_operations ref_node ref_web (config_default [] [] []) (feed_req p) ref_feed) (Some 1) 5 None =
    Inr [do_stored (ref_archived_op 2 Transaction)]"
proof -
  have "slot_row_key (Slot 5 3) \<le> max_slot_key"
    by (simp add: slot_row_key_def max_slot_key_def less_imp_le slot_key_less)
  moreover have "st_slot ref_final = Slot 5 3" by (simp add: ref_final_def fresh_def)
  ultimately have ok: "slot_table_ok ref_node (table ref_rows ref_feed)"
    unfolding slot_table_ok_def by (auto simp: table_def ref_feed_slots ref_log_decode split: if_splits)
  have listing: "slot_listing ref_node (ref_rows ref_feed CF_SLOT) = [(slot_row_key (Slot 5 3), ref_final)]"
    by (simp add: slot_listing_def ref_feed_slots ref_log_decode)
  have blocks: "slot_block_ids ref_final = [nblock 1]" by (simp add: slot_block_ids_def ref_final_def)
  let ?row = "\<lambda>i. case read_op ref_node ref_feed i of Inr (Some r) \<Rightarrow> r"
  have rows: "\<forall>i \<in> set (bk_operation_ids ref_loose). read_op ref_node ref_feed i = Inr (Some (?row i))"
    using ref_feed_rows(3) [of 2] ref_feed_rows(3) [of 4] by (auto simp: ref_loose_def)
  have ids: "distinct (map id_text (bk_operation_ids ref_loose))"
    by (simp add: ref_loose_def ref_archived_op_def op_from_hash_def gid_from_hash_def encode_single_family_def
        ref_node_defs bytes_str_def)
  have lim: "req_limit (config_default [] [] []) (Some 1) = 1"
    by (simp add: req_limit_def limit_of_def clamp_def effective_max_page_size_def HARD_MAX_PAGE_SIZE_def)
  have fuel: "Suc (Suc 3) = 5" by simp
  have "take 1 (map ?row (bk_operation_ids ref_loose)) = [do_stored (ref_archived_op 2 Transaction)]"
    using ref_feed_rows(3) [of 2] by (simp add: ref_loose_def)
  then show ?thesis
    using recent_operations_cut [OF ref_node_ok ok ref_web_ok listing blocks ref_feed_rows(2) ids rows,
        of "config_default [] [] []" "Some 1" 3] unfolding lim fuel by metis
qed

section \<open>Throughput\<close>



section \<open>Event streams\<close>



end
