(* ===== verification/Props_Server.thy ===== *)
theory Props_Server
  imports Server Node_Query Props_Cli Repair_Laws
begin

text \<open>
  The properties of the configuration, of the start of the server and of the subscriptions to the node: which
  databases are refused, what the tasks started from a loaded configuration may rely on, which repairs
  resume, and that every frame of the node is forwarded once.
\<close>

section \<open>The guard on the network\<close>

lemma write_meta_run:
  assumes "db_ok E R"
  shows "\<exists>t. write_meta E m s = (Inr (), t) \<and> read_meta E t = Inr (Some m) \<and> (\<forall>c. c \<noteq> CF_META \<longrightarrow> table R t c = table R s c)"
proof -
  have "decode_meta_row E (encode_meta_row E m) = Inr m"
    using meta_codec.dec_enc [OF db_okD(1) [OF assms]] by simp
  from write_decoded [where dec = "decode_meta_row E", OF assms this, of CF_META "[]" meta_ROW s]
  obtain t where t: "write_meta E m s = (Inr (), t)" "read_meta E t = Inr (Some m)"
    by (auto simp: write_meta_def db_put_def read_meta_def)
  moreover have "touches R {CF_META} (write_meta E m)"
    using db_okD(2) [OF assms] by (intro frame_intros) simp_all
  ultimately show ?thesis using touchesD [of R "{CF_META}"] by fastforce
qed

lemma guard_network_step:
  assumes "read_meta E s = Inr row"
  shows "guard_network E network version node_cfg now_ms s =
    (case row of
       Some m \<Rightarrow> if mr_network m \<noteq> network then (Inl (NetworkMismatch (mr_network m) network), s)
                 else write_meta E (stamp_meta version node_cfg now_ms m) s
     | None \<Rightarrow> write_meta E (first_meta network version node_cfg now_ms) s)"
  using assms by (simp add: guard_network_def bnd_def lift_def fail_def split: option.split)

text \<open>
  C28.  The server starts on an empty database or on one of its own network, and from then on the database is its
  network's: its meta row keeps the heads it had, no other family changes, and a start under any other
  network is refused with the two names and leaves the database as it is.
\<close>

theorem guard_network_gate:
  assumes "db_ok E R" "read_meta E s = Inr row"
    and "row1 = (case row of Some m \<Rightarrow> stamp_meta version node_cfg now_ms m | None \<Rightarrow> first_meta network version node_cfg now_ms)"
  shows "if (case row of Some m \<Rightarrow> mr_network m = network | None \<Rightarrow> True)
    then \<exists>t. guard_network E network version node_cfg now_ms s = (Inr (), t) \<and> read_meta E t = Inr (Some row1) \<and>
      (\<forall>c. c \<noteq> CF_META \<longrightarrow> table R t c = table R s c) \<and>
      (\<forall>other. other \<noteq> network \<longrightarrow>
        guard_network E other version node_cfg later t = (Inl (NetworkMismatch network other), t))
    else \<exists>m. row = Some m \<and>
      guard_network E network version node_cfg now_ms s = (Inl (NetworkMismatch (mr_network m) network), s)"
proof (cases "case row of Some m \<Rightarrow> mr_network m = network | None \<Rightarrow> True")
  case False
  then show ?thesis
    by (auto simp: guard_network_step [OF assms(2)] split: option.splits)
next
  case True
  then have net: "mr_network row1 = network"
    by (auto simp: assms(3) stamp_meta_def first_meta_def Let_def split: option.splits)
  obtain t where t: "write_meta E row1 s = (Inr (), t)" "read_meta E t = Inr (Some row1)"
      "\<forall>c. c \<noteq> CF_META \<longrightarrow> table R t c = table R s c"
    using write_meta_run [OF assms(1), of row1 s] by (elim exE conjE) (rule that)
  have "guard_network E network version node_cfg now_ms s = (Inr (), t)"
    using True t(1) by (auto simp: guard_network_step [OF assms(2)] assms(3) split: option.splits)
  then show ?thesis
    using True t(2,3) net by (auto simp: guard_network_step [OF t(2)])
qed

theorem guard_network_gate_witness:
  "guard_network ref_node ''test'' ''v'' None 5 [Put CF_META meta_ROW (encode_meta_row ref_node ref_meta)] =
     (Inl (NetworkMismatch ''main'' ''test''), [Put CF_META meta_ROW (encode_meta_row ref_node ref_meta)])"
proof -
  have meta: "read_meta ref_node [Put CF_META meta_ROW (encode_meta_row ref_node ref_meta)] = Inr (Some ref_meta)"
    by (simp add: read_meta_def get_decoded_ok [OF ref_node_ok] table_def ref_rows_def
        meta_codec.dec_enc [OF ref_node_wires_ok])
  show ?thesis
    using guard_network_gate [OF ref_node_ok meta refl, where network = "''test''" and version = "''v''" and node_cfg = None
        and now_ms = 5] by (simp add: ref_meta_def)
qed

section \<open>Tasks of a valid configuration\<close>

lemma require_simps [simp]: "require b msg = Inr u \<longleftrightarrow> b"
  by (simp add: require_def)

lemma check_pulls_ok:
  "check_pulls pps = Inr u \<longleftrightarrow>
     (\<forall>pp \<in> set pps. pr_range_enabled pp \<longrightarrow> range_ok pp \<and> (pu_block pp \<or> pu_exec_output pp \<or> pu_transfers pp))"
  by (induction pps) (auto simp: rbind_eq_Inr)

lemma check_recheck_ok: "check_recheck rs = Inr u \<longleftrightarrow> (\<forall>(lo, hi) \<in> set rs. lo \<le> hi)"
  by (induction rs rule: check_recheck.induct) (auto simp: rbind_eq_Inr)

text \<open>What the validation accepts.\<close>

definition config_ok :: "config \<Rightarrow> bool" where
  "config_ok c \<longleftrightarrow>
     (let ld = cf_legacy_ddb c; rep = cf_repair c; keyed = \<not> blank (ld_access_key_id ld) \<and> \<not> blank (ld_secret_access_key ld) in
      \<not> blank (gs_network (cf_general c)) \<and> take 4 (ns_grpc_url (cf_node c)) = ''http'' \<and> \<not> blank (ds_path (cf_db c)) \<and>
      rs_default_page_size (cf_rest c) \<le> rs_max_page_size (cf_rest c) \<and> rs_max_page_size (cf_rest c) \<le> HARD_MAX_PAGE_SIZE \<and>
      8 \<le> ps_stale_candidate_periods (cf_peer c) \<and> (\<forall>(lo, hi) \<in> set (rp_recheck_periods rep). lo \<le> hi) \<and>
      (pr_range_enabled (rp_reconstruct_transfers rep) \<longrightarrow> range_ok (rp_reconstruct_transfers rep)) \<and>
      (\<forall>pp \<in> set (rp_pull_parts rep). pr_range_enabled pp \<longrightarrow>
        range_ok pp \<and> (pu_block pp \<or> pu_exec_output pp \<or> pu_transfers pp)) \<and>
      (pr_range_enabled (rp_legacy_sub_transfers rep) \<longrightarrow> range_ok (rp_legacy_sub_transfers rep) \<and> keyed) \<and>
      (ld_enabled ld \<longrightarrow> keyed \<and> \<not> blank (ld_region ld)))"

lemma validate_ok: "validate c = Inr u \<longleftrightarrow> config_ok c"
  unfolding validate_def config_ok_def Let_def
  by (auto simp: rbind_eq_Inr check_pulls_ok check_recheck_ok)

lemma load_ok:
  "load toml env file = Inr c \<longleftrightarrow>
     (\<exists>text c0. file = Some text \<and> toml text = Some c0 \<and> apply_env env c0 = Inr c \<and> config_ok c)"
  by (auto simp: load_def rbind_eq_Inr ok_or_def validate_ok split: option.splits)

lemma started:
  assumes "startup_tasks E ddb_builds c s = Inr tasks"
  shows "\<exists>head meta. read_last_final_slot E s = Inr head \<and> read_meta E s = Inr meta \<and>
    (let head_now = unwrap_or 0 (map_option sl_period head); rep = cf_repair c; ld = cf_legacy_ddb c in
     \<forall>t \<in> set tasks. case t of
       RunBackfill cfg \<Rightarrow> ps_enabled (cf_peer c) \<and> cfg = backfill_of c
     | RunReconstruct cfg \<Rightarrow> pr_range_enabled (rp_reconstruct_transfers rep) \<and>
         cfg = reconstruct_of head_now meta (rp_reconstruct_transfers rep)
     | RunPull cfg \<Rightarrow> ps_enabled (cf_peer c) \<and>
         (\<exists>pp \<in> set (rp_pull_parts rep). pr_range_enabled pp \<and> cfg = pull_of head_now pp)
     | RunSubTransfers ddb cfg \<Rightarrow> pr_range_enabled (rp_legacy_sub_transfers rep) \<and> cfg = sub_transfers_of head_now meta c
     | RunOneshot ddb cfg \<Rightarrow> ld_enabled ld \<and> cfg = oneshot_of c)"
  using assms by (auto simp: startup_tasks_def rbind_eq_Inr when_task_def Let_def split: if_splits)

text \<open>What a task may rely on, by its kind.\<close>

definition task_ok :: "config \<Rightarrow> u64 \<Rightarrow> startup_task \<Rightarrow> bool" where
  "task_ok c head_now t =
     (let ld = cf_legacy_ddb c; keyed = \<not> blank (ld_access_key_id ld) \<and> \<not> blank (ld_secret_access_key ld);
          ordered = (\<lambda>lo hi. lo \<le> hi \<or> hi = head_now) in
      case t of
        RunBackfill cfg \<Rightarrow> ps_enabled (cf_peer c) \<and> 8 \<le> bc_stale_candidate_periods cfg
      | RunReconstruct cfg \<Rightarrow> ordered (rc_from_period cfg) (rc_to_period cfg)
      | RunPull cfg \<Rightarrow> ps_enabled (cf_peer c) \<and> ordered (pp_from_period cfg) (pp_to_period cfg) \<and>
          (fp_block (pp_parts cfg) \<or> fp_exec_output (pp_parts cfg) \<or> fp_transfers (pp_parts cfg))
      | RunSubTransfers ddb cfg \<Rightarrow> keyed \<and> ordered (ls_from_period cfg) (ls_to_period cfg) \<and> 1 \<le> ls_concurrency cfg
      | RunOneshot ddb cfg \<Rightarrow> keyed \<and> \<not> blank (ld_region ld))"

lemma up_to_ordered: "range_ok r \<Longrightarrow> pr_from_period r \<le> up_to head_now r \<or> up_to head_now r = head_now"
  by (auto simp: range_ok_def up_to_def)


definition ref_config :: config where
  "ref_config = config_default ''test'' ''http://n'' ''db''"

lemma ref_config_loads: "load (\<lambda>_. Some ref_config) (\<lambda>_. None) (Some []) = Inr ref_config"
proof -
  have "apply_overrides (\<lambda>_. None) os c = Inr c" for os c by (induction os) auto
  moreover have "config_ok ref_config"
    by (simp add: config_ok_def ref_config_def config_default_def rest_default_def peer_default_def repair_default_def
        range_default_def legacy_ddb_default_def node_default_def db_default_def blank_def trim_def is_space_def
        HARD_MAX_PAGE_SIZE_def)
  ultimately show ?thesis by (simp add: load_ok apply_env_def)
qed


section \<open>Ranges that end at the head\<close>

lemma framed_eq:
  "p @ x @ m @ show_nat (unat a) @ q = p @ x @ m @ show_nat (unat b) @ q \<longleftrightarrow> a = (b :: u64)"
  unfolding same_append_eq append_same_eq by (metis option.inject parse_u64_show)

text \<open>
  A repair finds the checkpoint of an earlier start exactly when its range has a fixed end or the FINAL head has
  not moved since: with an open end every new head gives the task another key.
\<close>

theorem open_range_restarts:
  "(reconstruct_ckpt_key (reconstruct_of head1 meta1 r) = reconstruct_ckpt_key (reconstruct_of head2 meta2 r) \<longleftrightarrow>
      pr_to_period r \<noteq> 0 \<or> head1 = head2) \<and>
   (pull_ckpt_key (pull_of head1 pp) = pull_ckpt_key (pull_of head2 pp) \<longleftrightarrow>
      pr_to_period pp \<noteq> 0 \<or> head1 = head2) \<and>
   (legacy_sub_ckpt_key (sub_transfers_of head1 meta1 c) = legacy_sub_ckpt_key (sub_transfers_of head2 meta2 c) \<longleftrightarrow>
      pr_to_period (rp_legacy_sub_transfers (cf_repair c)) \<noteq> 0 \<or> head1 = head2)"
proof -
  have up: "up_to head1 r' = up_to head2 r' \<longleftrightarrow> pr_to_period r' \<noteq> 0 \<or> head1 = head2" for r' :: "'x period_range_scheme"
    by (simp add: up_to_def)
  have "reconstruct_ckpt_key (reconstruct_of head1 meta1 r) = reconstruct_ckpt_key (reconstruct_of head2 meta2 r) \<longleftrightarrow>
      pr_to_period r \<noteq> 0 \<or> head1 = head2"
    by (simp only: reconstruct_ckpt_key_def reconstruct_of_def reconstruct_config.simps framed_eq up)
  moreover have "pull_ckpt_key (pull_of head1 pp) = pull_ckpt_key (pull_of head2 pp) \<longleftrightarrow>
      pr_to_period pp \<noteq> 0 \<or> head1 = head2"
    by (simp only: pull_ckpt_key_def pull_of_def pull_parts_config.simps framed_eq up)
  moreover have "legacy_sub_ckpt_key (sub_transfers_of head1 meta1 c) = legacy_sub_ckpt_key (sub_transfers_of head2 meta2 c) \<longleftrightarrow>
      pr_to_period (rp_legacy_sub_transfers (cf_repair c)) \<noteq> 0 \<or> head1 = head2"
    by (simp only: legacy_sub_ckpt_key_def sub_transfers_of_def Let_def legacy_sub_transfers_config.simps framed_eq up)
  ultimately show ?thesis by simp
qed

section \<open>Subscriptions\<close>

text \<open>The frames a turn brings, in the order of their arrival.\<close>

definition frames_in :: "('f \<times> i64) option list \<Rightarrow> 'f list" where
  "frames_in ms = map fst (List.map_filter (\<lambda>m. m) ms)"

definition session_frames :: "'f stream_session \<Rightarrow> 'f list" where
  "session_frames s = (case s of Streamed ms e \<Rightarrow> frames_in ms | _ \<Rightarrow> [])"

definition paced :: "nat \<Rightarrow> bool" where
  "paced d \<longleftrightarrow> BACKOFF_MIN \<le> d \<and> d \<le> BACKOFF_MAX"

lemma paced_intros [simp]: "paced BACKOFF_MIN" "paced d \<Longrightarrow> paced (bump_backoff d)"
  by (auto simp: paced_def bump_backoff_def BACKOFF_MIN_def BACKOFF_MAX_def Let_def)

text \<open>What is sent on: the first frames, as many as the channel still takes.\<close>

definition sends_on :: "'f list \<Rightarrow> 'f consumer \<Rightarrow> bool \<Rightarrow> 'f consumer \<Rightarrow> bool" where
  "sends_on fs c ok c1 \<longleftrightarrow>
     cn_sent c1 = cn_sent c @ take (cn_room c) fs \<and> cn_room c1 = cn_room c - length fs \<and> (ok \<longleftrightarrow> length fs \<le> cn_room c)"

lemma forward_sends:
  "forward k ms c = (ok, c1) \<Longrightarrow>
   sends_on (frames_in ms) c ok c1 \<and> cn_backoff c1 = cn_backoff c \<and> cn_pauses c1 = cn_pauses c"
proof (induction ms arbitrary: c)
  case (Cons m ms)
  show ?case
  proof (cases m)
    case None
    with Cons show ?thesis by (simp add: frames_in_def List.map_filter_simps)
  next
    case (Some p)
    obtain f now_ms where p: "p = (f, now_ms)" by fastforce
    show ?thesis
    proof (cases "cn_room c")
      case 0
      with Cons.prems Some p show ?thesis
        by (auto simp: sends_on_def frames_in_def List.map_filter_simps Let_def)
    next
      case (Suc n)
      let ?c = "c\<lparr>cn_cells := stream_event k now_ms (cn_cells c), cn_room := n, cn_sent := cn_sent c @ [f]\<rparr>"
      have "forward k ms ?c = (ok, c1)" using Cons.prems Some p Suc by (simp add: Let_def)
      from Cons.IH [OF this] Some p Suc show ?thesis
        by (simp add: sends_on_def frames_in_def List.map_filter_simps)
    qed
  qed
qed (simp add: sends_on_def frames_in_def List.map_filter_simps)

text \<open>A turn sends on its frames, and pauses once, for a time within the bounds, unless the channel is closed.\<close>

locale consumer_turn =
  fixes turn :: "'f stream_session \<Rightarrow> 'f consumer \<Rightarrow> bool \<times> 'f consumer"
  assumes turn: "turn s c = (ok, c1) \<Longrightarrow> paced (cn_backoff c) \<Longrightarrow>
    sends_on (session_frames s) c ok c1 \<and> paced (cn_backoff c1) \<and>
    (\<exists>ps. cn_pauses c1 = cn_pauses c @ ps \<and> length ps = (if ok then 1 else 0) \<and> list_all paced ps)"
begin

lemma run:
  "run_sessions turn ss c = (ok, c1) \<Longrightarrow> paced (cn_backoff c) \<Longrightarrow>
   cn_sent c1 = cn_sent c @ take (cn_room c) (concat (map session_frames ss)) \<and>
   (ok \<longleftrightarrow> length (concat (map session_frames ss)) \<le> cn_room c) \<and>
   (\<exists>ps. cn_pauses c1 = cn_pauses c @ ps \<and> length ps \<le> length ss \<and> (ok \<longrightarrow> length ps = length ss) \<and> list_all paced ps)"
proof (induction ss arbitrary: c)
  case (Cons s ss)
  obtain ok2 c2 where t: "turn s c = (ok2, c2)" by fastforce
  note step = turn [OF t Cons.prems(2), unfolded sends_on_def]
  show ?case
  proof (cases ok2)
    case False
    with Cons.prems t step show ?thesis by auto
  next
    case True
    then have "run_sessions turn ss c2 = (ok, c1)" "paced (cn_backoff c2)"
      using Cons.prems t step by simp_all
    from Cons.IH [OF this] step True show ?thesis by auto
  qed
qed simp

end

interpretation plain_loop: consumer_turn "plain_turn k" for k :: stream_kind
proof
  fix s :: "'f stream_session" and c ok c1
  assume t: "plain_turn k s c = (ok, c1)" and p: "paced (cn_backoff c)"
  show "sends_on (session_frames s) c ok c1 \<and> paced (cn_backoff c1) \<and>
    (\<exists>ps. cn_pauses c1 = cn_pauses c @ ps \<and> length ps = (if ok then 1 else 0) \<and> list_all paced ps)"
  proof (cases s)
    case (Streamed ms e)
    obtain ok2 c2 where f: "forward k ms (c\<lparr>cn_backoff := BACKOFF_MIN\<rparr>) = (ok2, c2)" by fastforce
    from forward_sends [OF f] t f Streamed show ?thesis
      by (cases ok2) (auto simp: plain_turn_def session_frames_def sends_on_def pause_def rep_state_def)
  qed (use t p in \<open>auto simp: plain_turn_def session_frames_def sends_on_def pause_def rep_state_def rpc_failed_def\<close>)
qed

interpretation transfers_loop: consumer_turn transfers_turn
proof
  fix s :: "'f stream_session" and c ok c1
  assume t: "transfers_turn s c = (ok, c1)" and p: "paced (cn_backoff c)"
  show "sends_on (session_frames s) c ok c1 \<and> paced (cn_backoff c1) \<and>
    (\<exists>ps. cn_pauses c1 = cn_pauses c @ ps \<and> length ps = (if ok then 1 else 0) \<and> list_all paced ps)"
  proof (cases s)
    case (Streamed ms e)
    let ?c0 = "if cn_unsupported c then c else c\<lparr>cn_backoff := BACKOFF_MIN\<rparr>"
    let ?c1 = "if \<exists>m \<in> set ms. m \<noteq> None then ?c0\<lparr>cn_unsupported := False\<rparr> else ?c0"
    obtain ok2 c2 where f: "forward SkTransfers ms ?c1 = (ok2, c2)" by fastforce
    have c1: "paced (cn_backoff ?c1)" "cn_sent ?c1 = cn_sent c" "cn_room ?c1 = cn_room c" "cn_pauses ?c1 = cn_pauses c"
      using p by simp_all
    from forward_sends [OF f] t f Streamed c1 show ?thesis
      by (cases ok2; cases e)
        (auto simp: transfers_turn_def session_frames_def sends_on_def pause_def rep_state_def Let_def split: if_splits)
  qed (use t p in \<open>auto simp: transfers_turn_def session_frames_def sends_on_def pause_def rep_state_def rpc_failed_def Let_def
         split: if_splits\<close>)
qed

text \<open>
  C27.  Over any course of connections, failures and streams, a subscription forwards every frame of the node once and
  in the order of arrival, until the channel to the ingestion is closed, at which it stops; and between two turns
  it pauses once, for at least half a second and at most half a minute.
\<close>

theorem subscription_forwards:
  fixes ss :: "'f stream_session list"
  assumes "turn \<in> {plain_turn k, transfers_turn}" "run_sessions turn ss (consumer_new k1 room cells) = (ok, c)"
  shows "cn_sent c = take room (concat (map session_frames ss)) \<and>
    (ok \<longleftrightarrow> length (concat (map session_frames ss)) \<le> room) \<and>
    length (cn_pauses c) \<le> length ss \<and> (ok \<longrightarrow> length (cn_pauses c) = length ss) \<and>
    (\<forall>d \<in> set (cn_pauses c). 500 \<le> d \<and> d \<le> 30000)"
proof -
  let ?new = "consumer_new k1 room cells :: 'f consumer"
  have new: "paced (cn_backoff ?new)" "cn_sent ?new = []" "cn_room ?new = room" "cn_pauses ?new = []"
    by (simp_all add: consumer_new_def)
  from assms(1) have run: "cn_sent c = cn_sent ?new @ take (cn_room ?new) (concat (map session_frames ss)) \<and>
      (ok \<longleftrightarrow> length (concat (map session_frames ss)) \<le> cn_room ?new) \<and>
      (\<exists>ps. cn_pauses c = cn_pauses ?new @ ps \<and> length ps \<le> length ss \<and> (ok \<longrightarrow> length ps = length ss) \<and> list_all paced ps)" (is ?run)
  proof (elim insertE emptyE)
    assume t: "turn = plain_turn k"
    show ?run using plain_loop.run [of k ss ?new ok c] new(1) assms(2) unfolding t by blast
  next
    assume t: "turn = transfers_turn"
    show ?run using transfers_loop.run [of ss ?new ok c] new(1) assms(2) unfolding t by blast
  qed
  have "(500 :: nat) \<le> d \<and> d \<le> 30000" if "paced d" for d
    using that by (simp add: paced_def BACKOFF_MIN_def BACKOFF_MAX_def)
  with run show ?thesis
    unfolding new append_Nil list_all_iff by metis
qed

definition ref_course :: "nat stream_session list" where
  "ref_course = [Streamed [Some (1, 5), None, Some (2, 6)] Ended, RpcFailed True, Streamed [Some (3, 7)] Broken]"

theorem subscription_forwards_witness:
  "\<exists>c. run_sessions transfers_turn ref_course (consumer_new SkTransfers 2 cells_default) = (False, c) \<and> cn_sent c = [1, 2]"
proof -
  obtain ok c where run: "run_sessions transfers_turn ref_course (consumer_new SkTransfers 2 cells_default) = (ok, c)"
    by fastforce
  have "concat (map session_frames ref_course) = [1, 2, 3]"
    by (simp add: ref_course_def session_frames_def frames_in_def List.map_filter_simps)
  with subscription_forwards [of transfers_turn SkTransfers, OF _ run] run show ?thesis by simp
qed

end
