(* ===== verification/Spec2Isabelle.thy ===== *)
theory Spec2Isabelle
  imports Props_Storage Props_Effects Props_Exec Props_Peer Props_Backfill Props_Transport Sse Node_Pb Ddb
    Props_Repair Props_Oneshot Props_Cli Props_Rest Props_Server
begin

text \<open>
  A verification development for the Massa indexer (\<open>src/massa-indexer\<close>): the service that follows a node of the
  Massa block chain, keeps what it learns in RocksDB, and serves it over REST, over event streams and to other
  indexers.  File names below are relative to \<open>src/massa-indexer/src\<close>.

  \<^bold>\<open>The program.\<close>  Three subscriptions to the local node (\<open>grpc.rs\<close>) produce events: blocks, execution outputs and
  transfer lists of slots.  They enter the live lane of the ingest worker (\<open>ingest.rs\<close>).  Three further producers feed
  its bulk lane: the backfill walker (\<open>peer/backfill.rs\<close>), which asks other indexers for slots the node no longer sends; the
  importer of the legacy archive (\<open>legacy/oneshot.rs\<close>); and the repair tasks (\<open>repair.rs\<close>).  The operator's commands
  (\<open>cli.rs\<close>) work on the database of a server that does not run.  The worker is the only writer of slots: it handles one
  event at a time, live events first, and writes rows through \<open>db.rs\<close>, whose keys are laid out by \<open>keys.rs\<close> and whose
  values are encoded by \<open>codec.rs\<close>.  A slot runs through the states pending, candidate and FINAL.  A FINAL
  verdict (a block or a miss) is settled, but when peers disagree an arbiter (\<open>peer/patch.rs\<close>) reads the parent links of the
  blocks around the slot to tell which verdict the chain confirms.  What changes is announced through the hub of the
  event streams (\<open>sse.rs\<close>).  Indexers find each other through a registry of peers and routes (\<open>peer/registry.rs\<close>), ask
  each other over gRPC or over sync sessions opened in either direction (\<open>peer/session.rs\<close>, \<open>peer/client.rs\<close>), and
  answer from their database (\<open>peer/service.rs\<close>).  The REST handlers (\<open>rest.rs\<close>) read the database; a few of them put a
  question to the node, and the status of a block is written back when it is asked for.  \<open>server.rs\<close> starts the
  tasks that the configuration (\<open>config.rs\<close>) enables.

  \<^bold>\<open>Conventions.\<close>  A struct is a record, an enum a datatype, machine integers are words of their width, and strings
  are their UTF-8 bytes.  A fallible function returns a sum with the error on the left; a result of
  \<open>None\<close> around a result, where a type has it, is a panic or a loop that does not end.  An operation on the database is a
  stateful result computation (\<open>Prelude\<close>, \<open>Result\<close>): it returns its result together with the state it leaves, also on
  the error path, so that a handler that fails half-way keeps what it wrote.  A concurrent or asynchronous part is a
  machine whose steps are events, or takes the sequence of the answers it gets as an input, and the theorems
  hold for every sequence.  Definitions keep the names of the code, and the code's order within a file.

  \<^bold>\<open>Third-party code\<close> is a parameter: RocksDB (the record \<open>ext\<close> of \<open>Store\<close>), the protobuf encodings (\<open>wire\<close> of \<open>Storage_Pb\<close> and
  \<open>Codec\<close>), base58, base64, hex and SHA-256 (\<open>crates\<close> of \<open>Ids\<close>), JSON, TOML and CSV, and the calls of the node, of peers and of the
  archive.  What is relied on is named: \<open>crates_ok\<close> and \<open>wires_ok\<close> (decoding inverts encoding), \<open>store_ok\<close> (point reads,
  atomic batches and ordered iterators over the rows the store holds; any call may fail) and
  \<open>db_ok\<close>, a store none of whose calls fails.  \<open>Reference\<close> and \<open>Reference_Node\<close> give a concrete
  store and concrete encodings that meet all of them and that evaluate; the theorems are
  applied to sample inputs on it.

  \<^bold>\<open>Foundations and storage.\<close>
  \<^item> \<open>Prelude\<close>, \<open>Result\<close> (\<open>error.rs\<close>): words, big-endian bytes and their order, results, stateful
    computations and their triples.
  \<^item> \<open>Ids\<close> (\<open>ids.rs\<close>), \<open>Keys\<close> (\<open>keys.rs\<close>), \<open>Model\<close> (\<open>model.rs\<close>), \<open>Storage_Pb\<close> and \<open>Node_Pb\<close> (the protobuf messages of the store, of
    peers and of the node), \<open>Codec\<close> and \<open>Codec_Laws\<close> (\<open>codec.rs\<close>).  Parsers invert builders, the order of keys
    is the order of slots, and well-formed rows survive encoding: the locales \<open>display_id\<close>, \<open>key_layout\<close>,
    \<open>ordered_layout\<close> and \<open>row_codec\<close>, interpreted for every id, layout and row type.
  \<^item> \<open>Store\<close>, \<open>Db_Rows\<close>, \<open>Db_Scan\<close>, \<open>Db_Pool\<close>, \<open>Db_Admin\<close> (\<open>db.rs\<close>, \<open>schema.rs\<close>): the row operations, the paginated readers, async
    messages and deferred calls, raw access, the rebuilding of indexes.  \<open>Index\<close>, \<open>Db_Row_Laws\<close> and \<open>Db_Pool_Laws\<close> hold
    the contracts \<open>keyed_rows\<close> (the last write under a key is what is read), \<open>indexed_rows\<close> (index families hold the
    entries of the stored rows and nothing else) and \<open>pool_rows\<close>.  \<open>Paging\<close> and \<open>Listings\<close> show that following cursors reads
    a whole listing, each row once.  Properties in \<open>Props_Storage\<close>.

  \<^bold>\<open>Ingestion.\<close>
  \<^item> \<open>Sse\<close> (\<open>sse.rs\<close>), \<open>Ingest_Base\<close>, \<open>Reconcile\<close>, \<open>Ingest\<close> (\<open>ingest.rs\<close>), \<open>Arbiter\<close>, \<open>Patch\<close> (\<open>peer/patch.rs\<close>): the hub, the decoding of the
    node's messages, every handler, the dispatch, the two lanes, the arbiter and the three patch routines.
  \<^item> \<open>Slot_Laws\<close>, \<open>Slot_Handlers\<close>, \<open>Slot_Peer\<close>, \<open>Worker\<close>: every handler only advances slot rows, whatever the store returns;
    the exceptions are an adopted peer verdict and the operator's own.  \<open>Worker\<close> lifts this to runs of the
    worker, with reachability as an inductive relation.
  \<^item> \<open>Slot_Sets\<close>, \<open>Pool_Laws\<close>, \<open>Transfer_Laws\<close>, \<open>Settle_Laws\<close>, \<open>Exec_Laws\<close>, \<open>Arbiter_Laws\<close>: the functional behaviour of
    handlers on a healthy database: what a transfer list stores, how operations, blocks, messages and
    calls settle, and the evidence behind a verdict.  Properties in \<open>Props_Effects\<close>, \<open>Props_Exec\<close>, \<open>Props_Peer\<close>.

  \<^bold>\<open>Peers.\<close>
  \<^item> \<open>Session\<close>, \<open>Registry\<close>, \<open>Service\<close>, \<open>Pool\<close> (the files of those names under \<open>peer/\<close>, and \<open>client.rs\<close>), with
    \<open>Session_Laws\<close> (the pending requests are those still waited on), \<open>Registry_Laws\<close> (a refinement of a set of links),
    \<open>Service_Laws\<close> (what is shipped is what the receiver reads) and \<open>Peer_Pool_Laws\<close>.
  \<^item> \<open>Backfill\<close>, \<open>Backfill_Laws\<close> (\<open>peer/backfill.rs\<close>): windows, sweeps, rounds.  Properties in \<open>Props_Transport\<close> and
    \<open>Props_Backfill\<close>.

  \<^bold>\<open>Archive, repair, commands.\<close>
  \<^item> \<open>Ddb\<close>, \<open>Legacy\<close>, \<open>Legacy_Source\<close>, \<open>Oneshot\<close> (\<open>legacy/\<close>) with \<open>Legacy_Laws\<close> and \<open>Oneshot_Laws\<close>; \<open>Repair\<close> and \<open>Repair_Laws\<close>
    (\<open>repair.rs\<close>), where the locale \<open>checkpointed\<close> carries both ascending tasks; \<open>Cli\<close> and \<open>Cli_Laws\<close> (\<open>cli.rs\<close> and
    the argument parsers of \<open>main.rs\<close>).  Properties in \<open>Props_Legacy\<close>, \<open>Props_Oneshot\<close>, \<open>Props_Repair\<close>, \<open>Props_Cli\<close>.

  \<^bold>\<open>Server and API.\<close>
  \<^item> \<open>Config\<close> (\<open>config.rs\<close>), \<open>Server\<close> (\<open>server.rs\<close>), \<open>Node_Query\<close> (\<open>grpc.rs\<close>, \<open>metrics.rs\<close>): loading and validation, the guard on the
    database's network, the tasks that start, questions to the node, the subscription loops, of which
    \<open>consumer_turn\<close> is the contract.  Properties in \<open>Props_Server\<close>.
  \<^item> \<open>Rest\<close>, \<open>Rest_Feeds\<close>, \<open>Rest_Charts\<close> (\<open>rest.rs\<close>): every read handler as a function of configuration, database, path and query.
    \<open>Rest_Laws\<close> (\<open>cursor_walk\<close> extends the contract of \<open>Paging\<close> to a client that sees base64 cursors) and
    \<open>Rest_Chart_Laws\<close>.  Properties in \<open>Props_Rest\<close>.

  \<^bold>\<open>Loops, bounds and fuel.\<close>  Loops over a list are structural.  Loops over periods, pages and bytes have
  termination proofs: the periods left, the length of what is left to read.  Fuel appears in \<open>walk\<close> and \<open>client_walk\<close> only, which model a
  client that follows cursors; the theorems ask for more fuel than the listing has rows, which is
  enough since every page but the last moves the cursor past a row.  A loop that may not end is a partial
  function, so that not ending is \<open>None\<close>: clearing a family of a store that keeps returning rows, an archive that
  never stops paging, the importer's passes until one has no failure, an ascending
  repair task up to the last \<open>u64\<close>.  That each of them ends is a theorem where it does: \<open>raw_clear_total\<close>, and in
  the properties of the importer and of the repair tasks.  A loop that is meant to run for ever (a subscription, a worker,
  a pool) is a step function or runs over a list of sessions.  The constants of the code are kept: 512 periods and 64 parents for the
  arbiter, the page size caps, the pauses between half a second and half a minute.  Arithmetic that can wrap is
  done on words, as a release build does it.

  \<^bold>\<open>Not modelled.\<close>  Opening RocksDB and its row estimates; routing, CORS, request counters, the
  OpenAPI document and the rendering of the metrics, all of which are the web framework's or constant text; the
  summary of the backfill counters; the HTTP call to the archive with its JSON bodies, which is a
  function of the model; binding sockets, signals, spawning of tasks, the ticker of the server; the argument parser,
  printing, the peers table and the HTTP health check of the commands; logging and pauses, except those of the
  subscriptions.  A poisoned lock is not modelled.  The explorer front end is in other languages.

  \<^bold>\<open>Deviations the model shows.\<close>  Some theorems state that the code does other than it means to, among them that a request for the
  operations of a block past their end panics, that a feed of recent operations loses what exceeds the limit in the
  last slot, that a frame broadcast between replay and subscription of a resumed stream reaches no client, that
  transfer rows of an archived slot may share a key, and that a completed pull from period 0 is
  repeated.
\<close>

end
